(* ===== verification/Prelude.thy ===== *)
theory Prelude
  imports Complex_Main "HOL-Library.AList" "HOL-Library.List_Lexorder"
    "HOL-Library.Char_ord" "HOL-Library.Product_Lexorder"
begin

text \<open>
  Shared vocabulary of the development: Python values as the code receives them from JSON and
  from keyword arguments, floating point numbers, insertion-ordered dictionaries, the string
  methods the sources call, results that may carry an exception, and the generic lemmas and
  lemma collections the component theories use.

  Conventions. A Python \<open>str\<close> is a \<open>string\<close>, one \<open>char\<close> per code point (code points below
  256). A Python \<open>int\<close> is an \<open>int\<close>. A Python \<open>float\<close> is a \<open>pyfloat\<close>: the finite ones carry
  their exact rational value, so rounding and the finite range of binary64 are not modelled,
  while infinities and NaN are, because the sources test for them. A \<open>dict\<close> is an association
  list in insertion order, updated as Python updates it (in place when the key exists, at the
  end when it does not).
\<close>

named_theorems pyval_simps \<open>readers of untyped values\<close>
named_theorems result_simps \<open>sequencing of results\<close>
named_theorems dict_simps \<open>dictionary laws\<close>

section \<open>Results\<close>

definition bindE :: "'e + 'a \<Rightarrow> ('a \<Rightarrow> 'e + 'b) \<Rightarrow> 'e + 'b" where
  "bindE r f = (case r of Inl e \<Rightarrow> Inl e | Inr a \<Rightarrow> f a)"

lemma bindE_Inl [simp, result_simps]: "bindE (Inl e) f = Inl e"
  by (simp add: bindE_def)

lemma bindE_Inr [simp, result_simps]: "bindE (Inr a) f = f a"
  by (simp add: bindE_def)

lemma bindE_eq_Inr_iff [result_simps]:
  "bindE r f = Inr b \<longleftrightarrow> (\<exists>a. r = Inr a \<and> f a = Inr b)"
  by (cases r) simp_all

lemma bindE_InrE:
  assumes "bindE r f = Inr b" obtains a where "r = Inr a" "f a = Inr b"
  using assms by (auto simp: bindE_eq_Inr_iff)

lemma bindE_eq_Inl_iff [result_simps]:
  "bindE r f = Inl e \<longleftrightarrow> r = Inl e \<or> (\<exists>a. r = Inr a \<and> f a = Inl e)"
  by (cases r) simp_all

lemma bindE_assoc: "bindE (bindE r f) g = bindE r (\<lambda>a. bindE (f a) g)"
  by (cases r) simp_all

definition guardE :: "bool \<Rightarrow> 'e \<Rightarrow> 'e + unit" where
  "guardE b e = (if b then Inr () else Inl e)"

lemma guardE_simps [simp, result_simps]: "guardE True e = Inr ()" "guardE False e = Inl e"
  by (simp_all add: guardE_def)

lemma guardE_eq_Inr_iff [simp, result_simps]: "guardE b e = Inr u \<longleftrightarrow> b"
  by (simp add: guardE_def)

lemma guardE_eq_Inl_iff [simp, result_simps]: "guardE b e = Inl e' \<longleftrightarrow> \<not> b \<and> e' = e"
  by (auto simp: guardE_def)

text \<open>The first error of a list of fallible steps, or all results.\<close>

fun mapE :: "('a \<Rightarrow> 'e + 'b) \<Rightarrow> 'a list \<Rightarrow> 'e + 'b list" where
  "mapE f [] = Inr []"
| "mapE f (x # xs) = bindE (f x) (\<lambda>y. bindE (mapE f xs) (\<lambda>ys. Inr (y # ys)))"

lemma mapE_Inr_iff: "mapE f xs = Inr ys \<longleftrightarrow> list_all2 (\<lambda>x y. f x = Inr y) xs ys"
  by (induction xs arbitrary: ys) (auto simp: result_simps list_all2_Cons1)

section \<open>Floating point values\<close>

datatype pyfloat = NegInf | Fin rat | PosInf | NaN

text \<open>
  The total order of \<open>pyfloat\<close> agrees with the order of Python on all values but NaN; NaN is
  placed last. It is what \<open>sort\<close> is given as its key order; the comparisons of the code are
  \<open>f_lt\<close> and \<open>f_le\<close>, which are false on NaN.
\<close>

fun fclass :: "pyfloat \<Rightarrow> nat \<times> rat" where
  "fclass NegInf = (0, 0)"
| "fclass (Fin r) = (1, r)"
| "fclass PosInf = (2, 0)"
| "fclass NaN = (3, 0)"

lemma fclass_inj: "fclass x = fclass y \<Longrightarrow> x = y"
  by (cases x; cases y) simp_all

instantiation pyfloat :: linorder
begin

definition less_eq_pyfloat :: "pyfloat \<Rightarrow> pyfloat \<Rightarrow> bool" where
  "less_eq_pyfloat x y \<longleftrightarrow> fclass x \<le> fclass y"

definition less_pyfloat :: "pyfloat \<Rightarrow> pyfloat \<Rightarrow> bool" where
  "less_pyfloat x y \<longleftrightarrow> fclass x < fclass y"

instance
  by standard (auto simp: less_eq_pyfloat_def less_pyfloat_def dest: fclass_inj)

end

lemma Fin_le_iff [simp]: "Fin a \<le> Fin b \<longleftrightarrow> a \<le> b"
  by (simp add: less_eq_pyfloat_def)

lemma Fin_less_iff [simp]: "Fin a < Fin b \<longleftrightarrow> a < b"
  by (simp add: less_pyfloat_def)

fun is_finite :: "pyfloat \<Rightarrow> bool" where
  "is_finite (Fin r) = True"
| "is_finite _ = False"

lemma is_finite_iff: "is_finite x \<longleftrightarrow> (\<exists>r. x = Fin r)"
  by (cases x) simp_all

definition f_lt :: "pyfloat \<Rightarrow> pyfloat \<Rightarrow> bool" where
  "f_lt x y \<longleftrightarrow> x \<noteq> NaN \<and> y \<noteq> NaN \<and> x < y"

definition f_le :: "pyfloat \<Rightarrow> pyfloat \<Rightarrow> bool" where
  "f_le x y \<longleftrightarrow> x \<noteq> NaN \<and> y \<noteq> NaN \<and> x \<le> y"

lemma f_lt_Fin [simp]: "f_lt (Fin a) (Fin b) \<longleftrightarrow> a < b"
  by (simp add: f_lt_def)

lemma f_le_Fin [simp]: "f_le (Fin a) (Fin b) \<longleftrightarrow> a \<le> b"
  by (simp add: f_le_def)

fun f_eq :: "pyfloat \<Rightarrow> pyfloat \<Rightarrow> bool" where
  "f_eq NaN _ = False"
| "f_eq x y = (x = y)"

fun f_neg :: "pyfloat \<Rightarrow> pyfloat" where
  "f_neg NegInf = PosInf"
| "f_neg (Fin r) = Fin (- r)"
| "f_neg PosInf = NegInf"
| "f_neg NaN = NaN"

fun f_add :: "pyfloat \<Rightarrow> pyfloat \<Rightarrow> pyfloat" where
  "f_add NaN _ = NaN"
| "f_add _ NaN = NaN"
| "f_add PosInf NegInf = NaN"
| "f_add NegInf PosInf = NaN"
| "f_add PosInf _ = PosInf"
| "f_add _ PosInf = PosInf"
| "f_add NegInf _ = NegInf"
| "f_add _ NegInf = NegInf"
| "f_add (Fin a) (Fin b) = Fin (a + b)"

definition f_sub :: "pyfloat \<Rightarrow> pyfloat \<Rightarrow> pyfloat" where
  "f_sub x y = f_add x (f_neg y)"

lemma f_sub_Fin [simp]: "f_sub (Fin a) (Fin b) = Fin (a - b)"
  by (simp add: f_sub_def)

text \<open>\<open>max(x, y)\<close> keeps its first argument unless the second is greater; \<open>min\<close> dually.\<close>

definition f_max :: "pyfloat \<Rightarrow> pyfloat \<Rightarrow> pyfloat" where
  "f_max x y = (if f_lt x y then y else x)"

definition f_min :: "pyfloat \<Rightarrow> pyfloat \<Rightarrow> pyfloat" where
  "f_min x y = (if f_lt y x then y else x)"

lemma f_max_Fin [simp]: "f_max (Fin a) (Fin b) = Fin (max a b)"
  by (simp add: f_max_def max_def)

lemma f_min_Fin [simp]: "f_min (Fin a) (Fin b) = Fin (min a b)"
  by (simp add: f_min_def min_def)

text \<open>\<open>x or y\<close> on floats: zero is the only false float.\<close>

definition f_or :: "pyfloat \<Rightarrow> pyfloat \<Rightarrow> pyfloat" where
  "f_or x y = (if x = Fin 0 then y else x)"

lemma f_or_zero [simp]: "f_or x (Fin 0) = x"
  by (simp add: f_or_def)

section \<open>Untyped values\<close>

text \<open>
  What \<open>json.loads\<close> returns, plus the tuples and sets a caller inside the process can pass.
  A key of a dictionary is a string or not a string (then an integer; other hashable keys
  behave like it wherever the sources look at keys).
\<close>

datatype pykey = KStr string | KInt int

datatype pyval =
    PNone
  | PBool bool
  | PInt int
  | PFloat pyfloat
  | PStr string
  | PList "pyval list"
  | PTuple "pyval list"
  | PSet "pyval list"
  | PDict "(pykey \<times> pyval) list"

type_synonym 'v pydict = "(string \<times> 'v) list"
type_synonym payload = "pyval pydict"

text \<open>\<open>isinstance(value, str)\<close>, \<open>isinstance(value, bool)\<close> and the two guarded number tests.\<close>

fun str_of :: "pyval \<Rightarrow> string option" where
  "str_of (PStr s) = Some s"
| "str_of _ = None"

fun bool_of :: "pyval \<Rightarrow> bool option" where
  "bool_of (PBool b) = Some b"
| "bool_of _ = None"

text \<open>\<open>isinstance(value, int) and not isinstance(value, bool)\<close>.\<close>

fun int_of :: "pyval \<Rightarrow> int option" where
  "int_of (PInt i) = Some i"
| "int_of _ = None"

text \<open>\<open>isinstance(value, (int, float)) and not isinstance(value, bool)\<close>, then \<open>float(value)\<close>.\<close>

fun num_of :: "pyval \<Rightarrow> pyfloat option" where
  "num_of (PInt i) = Some (Fin (of_int i))"
| "num_of (PFloat f) = Some f"
| "num_of _ = None"

text \<open>\<open>isinstance(value, (list, tuple))\<close>.\<close>

fun seq_of :: "pyval \<Rightarrow> pyval list option" where
  "seq_of (PList xs) = Some xs"
| "seq_of (PTuple xs) = Some xs"
| "seq_of _ = None"

text \<open>\<open>isinstance(value, Mapping) and all(isinstance(k, str) for k in value)\<close>.\<close>

fun str_keys :: "(pykey \<times> pyval) list \<Rightarrow> payload option" where
  "str_keys [] = Some []"
| "str_keys ((KStr k, v) # kvs) = map_option (\<lambda>d. (k, v) # d) (str_keys kvs)"
| "str_keys ((KInt i, v) # kvs) = None"

fun dict_of :: "pyval \<Rightarrow> payload option" where
  "dict_of (PDict kvs) = str_keys kvs"
| "dict_of _ = None"

definition of_dict :: "payload \<Rightarrow> pyval" where
  "of_dict d = PDict (map (\<lambda>(k, v). (KStr k, v)) d)"

lemma str_keys_of_map [simp]: "str_keys (map (\<lambda>(k, v). (KStr k, v)) d) = Some d"
  by (induction d) auto

lemma dict_of_of_dict [simp, pyval_simps]: "dict_of (of_dict d) = Some d"
  by (simp add: of_dict_def)

lemma str_keys_SomeD: "str_keys kvs = Some d \<Longrightarrow> kvs = map (\<lambda>(k, v). (KStr k, v)) d"
  by (induction kvs arbitrary: d rule: str_keys.induct) auto

lemma of_dict_of_dict: "dict_of v = Some d \<Longrightarrow> of_dict d = v"
  by (cases v) (auto simp: of_dict_def dest: str_keys_SomeD)

lemma of_dict_inject [simp]: "of_dict d = of_dict d' \<longleftrightarrow> d = d'"
  by (metis dict_of_of_dict option.inject)

lemma of_dict_distinct [simp]:
  "of_dict d \<noteq> PNone" "of_dict d \<noteq> PStr s" "of_dict d \<noteq> PBool b" "of_dict d \<noteq> PInt i"
  "of_dict d \<noteq> PFloat f" "of_dict d \<noteq> PList xs" "of_dict d \<noteq> PTuple xs" "of_dict d \<noteq> PSet xs"
  by (simp_all add: of_dict_def)

definition of_opt_str :: "string option \<Rightarrow> pyval" where
  "of_opt_str x = (case x of None \<Rightarrow> PNone | Some s \<Rightarrow> PStr s)"

definition of_opt_float :: "pyfloat option \<Rightarrow> pyval" where
  "of_opt_float x = (case x of None \<Rightarrow> PNone | Some f \<Rightarrow> PFloat f)"

definition of_opt_int :: "int option \<Rightarrow> pyval" where
  "of_opt_int x = (case x of None \<Rightarrow> PNone | Some i \<Rightarrow> PInt i)"

definition of_opt_bool :: "bool option \<Rightarrow> pyval" where
  "of_opt_bool x = (case x of None \<Rightarrow> PNone | Some b \<Rightarrow> PBool b)"

lemma of_opt_simps [simp, pyval_simps]:
  "of_opt_str None = PNone" "of_opt_str (Some s) = PStr s"
  "of_opt_float None = PNone" "of_opt_float (Some f) = PFloat f"
  "of_opt_int None = PNone" "of_opt_int (Some i) = PInt i"
  "of_opt_bool None = PNone" "of_opt_bool (Some b) = PBool b"
  by (simp_all add: of_opt_str_def of_opt_float_def of_opt_int_def of_opt_bool_def)

lemma of_opt_inject [simp]:
  "of_opt_str x = of_opt_str y \<longleftrightarrow> x = y" "of_opt_float f = of_opt_float g \<longleftrightarrow> f = g"
  "of_opt_int i = of_opt_int j \<longleftrightarrow> i = j" "of_opt_bool b = of_opt_bool c \<longleftrightarrow> b = c"
  by (simp_all add: of_opt_str_def of_opt_float_def of_opt_int_def of_opt_bool_def
      split: option.splits)

section \<open>Dictionaries\<close>

text \<open>\<open>d.get(key)\<close>, \<open>d.get(key, default)\<close>, \<open>d[key] = value\<close> and \<open>d.pop(key, None)\<close>.\<close>

abbreviation dget :: "('k \<times> 'v) list \<Rightarrow> 'k \<Rightarrow> 'v option" where
  "dget d k \<equiv> map_of d k"

definition dget_or :: "('k \<times> 'v) list \<Rightarrow> 'k \<Rightarrow> 'v \<Rightarrow> 'v" where
  "dget_or d k x = (case map_of d k of None \<Rightarrow> x | Some v \<Rightarrow> v)"

definition pget :: "payload \<Rightarrow> string \<Rightarrow> pyval" where
  "pget d k = dget_or d k PNone"

definition dset :: "'k \<Rightarrow> 'v \<Rightarrow> ('k \<times> 'v) list \<Rightarrow> ('k \<times> 'v) list" where
  "dset k v d = AList.update k v d"

definition dpop :: "'k \<Rightarrow> ('k \<times> 'v) list \<Rightarrow> ('k \<times> 'v) list" where
  "dpop k d = AList.delete k d"

definition keys :: "('k \<times> 'v) list \<Rightarrow> 'k list" where
  "keys d = map fst d"

lemma dset_simps [simp]:
  "dset k v [] = [(k, v)]"
  "dset k v (p # d) = (if fst p = k then (k, v) # d else p # dset k v d)"
  by (simp_all add: dset_def)

lemma dpop_simps [simp]:
  "dpop k [] = []"
  "dpop k (p # d) = (if fst p = k then dpop k d else p # dpop k d)"
  by (cases p, simp_all add: dpop_def)

lemma map_of_dset [simp, dict_simps]: "map_of (dset k v d) = (map_of d)(k \<mapsto> v)"
  by (simp add: dset_def update_conv')

lemma map_of_dpop [simp, dict_simps]: "map_of (dpop k d) = (map_of d)(k := None)"
  by (simp add: dpop_def delete_conv')

lemma keys_dset [dict_simps]:
  "keys (dset k v d) = (if k \<in> set (keys d) then keys d else keys d @ [k])"
  by (simp add: keys_def dset_def update_keys)

lemma set_keys_dset [simp]: "set (keys (dset k v d)) = insert k (set (keys d))"
  by (auto simp: keys_dset)

lemma distinct_keys_dset [simp, dict_simps]: "distinct (keys d) \<Longrightarrow> distinct (keys (dset k v d))"
  by (simp add: keys_dset)

lemma distinct_keys_dpop [simp, dict_simps]: "distinct (keys d) \<Longrightarrow> distinct (keys (dpop k d))"
  unfolding keys_def dpop_def by (rule distinct_delete)

lemma set_keys_dpop [simp]: "set (keys (dpop k d)) = set (keys d) - {k}"
  by (auto simp: keys_def dpop_def delete_keys)

lemma keys_simps [simp]: "keys [] = []" "keys (p # d) = fst p # keys d"
  by (simp_all add: keys_def)

lemma keys_append [simp]: "keys (d @ d') = keys d @ keys d'"
  by (simp add: keys_def)

lemma dset_fresh: "k \<notin> set (keys d) \<Longrightarrow> dset k v d = d @ [(k, v)]"
  by (induction d) auto

lemma length_dset: "length (dset k v d) = (if k \<in> set (keys d) then length d else Suc (length d))"
  by (induction d) auto

lemma dset_in_setD: "p \<in> set (dset k v d) \<Longrightarrow> p = (k, v) \<or> p \<in> set d"
  by (induction d) (auto split: if_splits)

lemma map_of_NoneI: "k \<notin> set (keys d) \<Longrightarrow> map_of d k = None"
  by (simp add: keys_def map_of_eq_None_iff)

lemma map_of_in_keys: "map_of d k = Some v \<Longrightarrow> k \<in> set (keys d)"
  by (metis map_of_NoneI option.distinct(1))

lemma in_keys_map_of: "k \<in> set (keys d) \<Longrightarrow> \<exists>v. map_of d k = Some v"
  by (metis keys_def map_of_eq_None_iff not_Some_eq set_map)

lemma dget_or_simps [simp]:
  "dget_or [] k x = x"
  "dget_or ((k', v) # d) k x = (if k' = k then v else dget_or d k x)"
  by (auto simp: dget_or_def)

lemma pget_simps [simp, pyval_simps]:
  "pget [] k = PNone"
  "pget ((k', v) # d) k = (if k' = k then v else pget d k)"
  by (simp_all add: pget_def)

lemma dget_or_dset [simp]: "dget_or (dset k v d) k' x = (if k' = k then v else dget_or d k' x)"
  by (simp add: dget_or_def)

text \<open>Selecting entries of a dictionary by a test on the key and the value.\<close>

lemma map_of_filter_entries:
  assumes "distinct (keys d)"
  shows "map_of (filter P d) k =
    (case map_of d k of None \<Rightarrow> None | Some v \<Rightarrow> if P (k, v) then Some v else None)"
  using assms
proof (induction d)
  case Nil
  show ?case by simp
next
  case (Cons p d)
  obtain k' v' where p: "p = (k', v')" by (cases p)
  show ?case
  proof (cases "k' = k")
    case True
    with Cons.prems p have "map_of d k = None" by (auto intro: map_of_NoneI)
    with Cons p True show ?thesis by simp
  next
    case False
    with Cons p show ?thesis by simp
  qed
qed

text \<open>
  The contract of a keyed table, as the components use it: a store of values under keys with a
  lookup, whose client laws are proved once here and used for every registry of the program.
\<close>

locale keyed_table =
  fixes empty :: "'t"
    and lookup :: "'t \<Rightarrow> 'k \<Rightarrow> 'v option"
    and insert :: "'k \<Rightarrow> 'v \<Rightarrow> 't \<Rightarrow> 't"
    and remove :: "'k \<Rightarrow> 't \<Rightarrow> 't"
    and wf :: "'t \<Rightarrow> bool"
  assumes lookup_empty: "lookup empty k = None"
    and lookup_insert: "lookup (insert k v t) = (lookup t)(k \<mapsto> v)"
    and lookup_remove: "lookup (remove k t) = (lookup t)(k := None)"
    and wf_empty: "wf empty"
    and wf_insert: "wf t \<Longrightarrow> wf (insert k v t)"
    and wf_remove: "wf t \<Longrightarrow> wf (remove k t)"
begin

lemma insert_all_lookup:
  "lookup (fold (\<lambda>x. insert (f x) (g x)) xs t) k =
    (case find (\<lambda>x. f x = k) (rev xs) of None \<Rightarrow> lookup t k | Some x \<Rightarrow> Some (g x))"
proof (induction xs rule: rev_induct)
  case Nil
  show ?case by simp
next
  case (snoc x xs)
  then show ?case by (auto simp: lookup_insert)
qed

lemma insert_all_wf: "wf t \<Longrightarrow> wf (fold (\<lambda>x. insert (f x) (g x)) xs t)"
  by (induction xs arbitrary: t) (auto intro: wf_insert)

lemma insert_all_keeps:
  "k \<notin> f ` set xs \<Longrightarrow> lookup (fold (\<lambda>x. insert (f x) (g x)) xs t) k = lookup t k"
  by (induction xs arbitrary: t) (auto simp: lookup_insert)

lemma last_insert_wins: "lookup (insert k v (insert k w t)) = lookup (insert k v t)"
  by (simp add: lookup_insert)

lemma remove_inserted: "lookup t k = None \<Longrightarrow> lookup (remove k (insert k v t)) = lookup t"
  by (auto simp: lookup_insert lookup_remove)

end

interpretation dict: keyed_table "[]" map_of dset dpop "\<lambda>d. distinct (keys d)"
  by unfold_locales auto

section \<open>Strings\<close>

text \<open>\<open>str.lower\<close> and \<open>str.casefold\<close> on code points below 256.\<close>

definition code :: "char \<Rightarrow> nat" where
  "code c = of_char c"

definition lower_char :: "char \<Rightarrow> char" where
  "lower_char c =
     (let n = code c in
      if (65 \<le> n \<and> n \<le> 90) \<or> (192 \<le> n \<and> n \<le> 222 \<and> n \<noteq> 215) then char_of (n + 32) else c)"

definition py_lower :: "string \<Rightarrow> string" where
  "py_lower s = map lower_char s"

definition py_casefold :: "string \<Rightarrow> string" where
  "py_casefold s = concat (map (\<lambda>c. if code c = 223 then ''ss'' else [lower_char c]) s)"

text \<open>\<open>str.strip\<close>, with the code points below 256 that \<open>str.isspace\<close> accepts.\<close>

definition is_space :: "char \<Rightarrow> bool" where
  "is_space c = (let n = code c in (9 \<le> n \<and> n \<le> 13) \<or> (28 \<le> n \<and> n \<le> 32) \<or> n = 133 \<or> n = 160)"

definition py_lstrip :: "string \<Rightarrow> string" where
  "py_lstrip s = dropWhile is_space s"

definition py_rstrip :: "string \<Rightarrow> string" where
  "py_rstrip s = rev (dropWhile is_space (rev s))"

definition py_strip :: "string \<Rightarrow> string" where
  "py_strip s = py_rstrip (py_lstrip s)"

text \<open>\<open>str.split()\<close>: the maximal runs without white space.\<close>

fun split_ws :: "string \<Rightarrow> string \<Rightarrow> string list" where
  "split_ws [] acc = (if acc = [] then [] else [rev acc])"
| "split_ws (c # cs) acc =
     (if is_space c then (if acc = [] then split_ws cs [] else rev acc # split_ws cs [])
      else split_ws cs (c # acc))"

definition py_split :: "string \<Rightarrow> string list" where
  "py_split s = split_ws s []"

text \<open>\<open>s.split(sep)\<close> for a one-character separator.\<close>

fun split_on :: "char \<Rightarrow> string \<Rightarrow> string list" where
  "split_on sep [] = [[]]"
| "split_on sep (c # cs) =
     (if c = sep then [] # split_on sep cs
      else (case split_on sep cs of [] \<Rightarrow> [[c]] | w # ws \<Rightarrow> (c # w) # ws))"

text \<open>\<open>s.partition(sep)\<close> for a one-character separator: head, separator found, tail.\<close>

fun py_partition :: "char \<Rightarrow> string \<Rightarrow> string \<times> bool \<times> string" where
  "py_partition sep [] = ([], False, [])"
| "py_partition sep (c # cs) =
     (if c = sep then ([], True, cs)
      else (case py_partition sep cs of (h, found, t) \<Rightarrow> (c # h, found, t)))"

definition starts_with :: "string \<Rightarrow> string \<Rightarrow> bool" where
  "starts_with s p = (take (length p) s = p)"

definition ends_with :: "string \<Rightarrow> string \<Rightarrow> bool" where
  "ends_with s p = starts_with (rev s) (rev p)"

text \<open>\<open>needle in s\<close>.\<close>

fun str_in :: "string \<Rightarrow> string \<Rightarrow> bool" where
  "str_in needle [] = (needle = [])"
| "str_in needle (c # cs) = (starts_with (c # cs) needle \<or> str_in needle cs)"

fun join :: "string \<Rightarrow> string list \<Rightarrow> string" where
  "join sep [] = []"
| "join sep [s] = s"
| "join sep (s # t # ts) = s @ sep @ join sep (t # ts)"

lemma py_partition_at: "sep \<notin> set h \<Longrightarrow> py_partition sep (h @ sep # t) = (h, True, t)"
  by (induction h) auto

lemma py_partition_absent: "sep \<notin> set s \<Longrightarrow> py_partition sep s = (s, False, [])"
  by (induction s) auto

lemma py_partition_cases:
  obtains (absent) "sep \<notin> set s" "py_partition sep s = (s, False, [])"
  | (at) h t where "s = h @ sep # t" "sep \<notin> set h" "py_partition sep s = (h, True, t)"
  by (metis py_partition_absent py_partition_at split_list_first)

lemma starts_with_append [simp]: "starts_with (p @ s) p"
  by (simp add: starts_with_def)

lemma starts_with_iff: "starts_with s p \<longleftrightarrow> (\<exists>t. s = p @ t)"
  by (metis append_take_drop_id starts_with_append starts_with_def)

lemma ends_with_iff: "ends_with s p \<longleftrightarrow> (\<exists>t. s = t @ p)"
proof -
  have "(\<exists>t. rev s = rev p @ t) \<longleftrightarrow> (\<exists>t. s = t @ p)"
    by (metis rev_append rev_rev_ident)
  then show ?thesis by (simp add: ends_with_def starts_with_iff)
qed

lemma str_in_iff: "str_in n s \<longleftrightarrow> (\<exists>a b. s = a @ n @ b)"
proof (induction s)
  case Nil
  show ?case by simp
next
  case (Cons c cs)
  have "(\<exists>a b. c # cs = a @ n @ b) \<longleftrightarrow> (\<exists>b. c # cs = n @ b) \<or> (\<exists>a b. cs = a @ n @ b)"
    (is "?L \<longleftrightarrow> ?R")
  proof
    assume ?L
    then obtain a b where "c # cs = a @ n @ b" by blast
    then show ?R by (cases a) auto
  next
    assume ?R
    then show ?L
      by (metis append_Cons append_Nil)
  qed
  with Cons show ?case by (simp add: starts_with_iff)
qed

lemma length_take_le: "length s \<le> n \<Longrightarrow> take n s = s"
  by simp

text \<open>Decimal text of an integer.\<close>

fun nat_digits :: "nat \<Rightarrow> string" where
  "nat_digits n = (if n < 10 then [char_of (48 + n)] else nat_digits (n div 10) @ [char_of (48 + n mod 10)])"

declare nat_digits.simps [simp del]

definition int_text :: "int \<Rightarrow> string" where
  "int_text i = (if i < 0 then ''-'' @ nat_digits (nat (- i)) else nat_digits (nat i))"

text \<open>
  \<open>str.isdigit\<close> accepts the decimal digits and the three superscripts below code point 256;
  \<open>int(text)\<close> rejects the superscripts (its caller sees a \<open>ValueError\<close>).
\<close>

definition is_decimal :: "char \<Rightarrow> bool" where
  "is_decimal c = (48 \<le> code c \<and> code c \<le> 57)"

definition is_digit :: "char \<Rightarrow> bool" where
  "is_digit c = (is_decimal c \<or> code c = 178 \<or> code c = 179 \<or> code c = 185)"

definition py_isdigit :: "string \<Rightarrow> bool" where
  "py_isdigit s = (s \<noteq> [] \<and> list_all is_digit s)"

definition digits_val :: "string \<Rightarrow> nat" where
  "digits_val s = foldl (\<lambda>n c. 10 * n + (code c - 48)) 0 s"

text \<open>\<open>int(s)\<close> for a string that passed \<open>isdigit\<close>; \<open>int\<close> refuses more than 4300 digits.\<close>

definition py_int :: "string \<Rightarrow> nat option" where
  "py_int s = (if s \<noteq> [] \<and> list_all is_decimal s \<and> length s \<le> 4300 then Some (digits_val s) else None)"

text \<open>\<open>repr(s)\<close> of a string: the quote, the escapes and the hexadecimal escapes of Python.\<close>

definition hex_digit :: "nat \<Rightarrow> char" where
  "hex_digit n = (if n < 10 then char_of (48 + n) else char_of (87 + n))"

definition repr_char :: "char \<Rightarrow> char \<Rightarrow> string" where
  "repr_char q c =
     (let n = code c in
      if c = q \<or> n = 92 then [char_of (92::nat), c]
      else if n = 9 then [char_of (92::nat), CHR ''t'']
      else if n = 10 then [char_of (92::nat), CHR ''n'']
      else if n = 13 then [char_of (92::nat), CHR ''r'']
      else if n < 32 \<or> (127 \<le> n \<and> n \<le> 160) \<or> n = 173
      then [char_of (92::nat), CHR ''x'', hex_digit (n div 16), hex_digit (n mod 16)]
      else [c])"

definition py_repr :: "string \<Rightarrow> string" where
  "py_repr s =
     (let single = char_of (39::nat); double = char_of (34::nat);
          q = (if single \<in> set s \<and> double \<notin> set s then double else single)
      in q # concat (map (repr_char q) s) @ [q])"

section \<open>Lists\<close>

text \<open>\<open>xs[-n:]\<close> for a positive \<open>n\<close>.\<close>

definition take_last :: "nat \<Rightarrow> 'a list \<Rightarrow> 'a list" where
  "take_last n xs = drop (length xs - n) xs"

lemma take_last_all [simp]: "length xs \<le> n \<Longrightarrow> take_last n xs = xs"
  by (simp add: take_last_def)

lemma length_take_last [simp]: "length (take_last n xs) = min n (length xs)"
  by (simp add: take_last_def)

lemma set_take_last: "set (take_last n xs) \<subseteq> set xs"
  by (auto simp: take_last_def dest: in_set_dropD)

lemma take_last_take_last [simp]: "take_last n (take_last n xs) = take_last n xs"
  by simp

lemma map_take_last: "map f (take_last n xs) = take_last n (map f xs)"
  by (simp add: take_last_def drop_map)

text \<open>\<open>tuple(dict.fromkeys(xs))\<close>: the first occurrences, in order.\<close>

fun dedup :: "'a list \<Rightarrow> 'a list" where
  "dedup [] = []"
| "dedup (x # xs) = x # removeAll x (dedup xs)"

lemma set_dedup [simp]: "set (dedup xs) = set xs"
  by (induction xs) auto

lemma distinct_dedup [simp]: "distinct (dedup xs)"
  by (induction xs) (auto simp: distinct_removeAll)

lemma dedup_distinct: "distinct xs \<Longrightarrow> dedup xs = xs"
  by (induction xs) (auto simp: removeAll_id)

lemma dedup_Nil_iff [simp]: "dedup xs = [] \<longleftrightarrow> xs = []"
  by (cases xs) simp_all

section \<open>Enumerations\<close>

text \<open>
  The contract of a string enumeration: every member has a text, \<open>parse\<close> finds the member of a
  text. A record that stores the text of a member and reads it back through \<open>parse\<close> gets the
  member it wrote.
\<close>

locale string_enum =
  fixes label :: "'e \<Rightarrow> string"
    and parse :: "string \<Rightarrow> 'e option"
  assumes parse_label: "parse (label x) = Some x"
    and label_parse: "parse s = Some x \<Longrightarrow> label x = s"
begin

lemma label_inject: "label x = label y \<longleftrightarrow> x = y"
  by (metis option.inject parse_label)

lemma parse_eq_Some_iff: "parse s = Some x \<longleftrightarrow> s = label x"
  using parse_label label_parse by blast

lemma parse_None_iff: "parse s = None \<longleftrightarrow> s \<notin> range label"
  by (metis not_None_eq parse_label rangeE range_eqI label_parse)

end

text \<open>Looking a text up in the list of all members, as \<open>EnumClass(text)\<close> does.\<close>

definition enum_find :: "('e \<Rightarrow> string) \<Rightarrow> 'e list \<Rightarrow> string \<Rightarrow> 'e option" where
  "enum_find label members s = find (\<lambda>x. label x = s) members"

lemma enum_find_label: "enum_find label members s = Some x \<Longrightarrow> label x = s"
  by (auto simp: enum_find_def find_Some_iff)

end
