(* ===== verification/Kernel_State.thy ===== *)
theory Kernel_State
  imports Prelude
begin

text \<open>
  The kernel state of \<open>src/agenthicc/kernel/state.py\<close>: intents, workflows with their phase
  nodes, registered tools, settings and policy, and the copy-on-write helpers. The dictionaries
  keep Python's insertion order.
\<close>

datatype intent_status =
    IntentPending | IntentValidating | IntentPlanning | IntentRunning | IntentComplete
  | IntentFailed | IntentRejected

fun intent_status_value :: "intent_status \<Rightarrow> string" where
  "intent_status_value IntentPending = ''pending''"
| "intent_status_value IntentValidating = ''validating''"
| "intent_status_value IntentPlanning = ''planning''"
| "intent_status_value IntentRunning = ''running''"
| "intent_status_value IntentComplete = ''complete''"
| "intent_status_value IntentFailed = ''failed''"
| "intent_status_value IntentRejected = ''rejected''"

definition intent_status_of :: "string \<Rightarrow> intent_status option" where
  "intent_status_of = enum_find intent_status_value
     [IntentPending, IntentValidating, IntentPlanning, IntentRunning, IntentComplete,
      IntentFailed, IntentRejected]"

interpretation intent_status: string_enum intent_status_value intent_status_of
proof
  show "intent_status_of (intent_status_value x) = Some x" for x
    by (cases x) (simp_all add: intent_status_of_def enum_find_def)
  show "intent_status_of s = Some x \<Longrightarrow> intent_status_value x = s" for s x
    unfolding intent_status_of_def by (rule enum_find_label)
qed

datatype node_status =
    NodePending | NodeRunning | NodePaused | NodeComplete | NodeFailed | NodeSkipped
  | NodeDiscarded

record intent =
  in_intent_id :: string
  in_raw_text :: string
  in_status :: intent_status
  in_workflow_id :: "string option"
  in_created_at :: pyfloat
  in_metadata :: payload
  in_error :: "string option"

record workflow_node =
  nd_node_id :: string
  nd_task_id :: string
  nd_label :: string
  nd_dependencies :: "string list"
  nd_status :: node_status
  nd_agent_id :: "string option"
  nd_result :: pyval
  nd_error :: "string option"

record workflow =
  wf_workflow_id :: string
  wf_intent_id :: string
  wf_nodes :: "workflow_node pydict"
  wf_status :: node_status
  wf_created_at :: pyfloat
  wf_name :: string
  wf_intent_text :: string

record tool_registration =
  tr_tool_id :: string
  tr_name :: string
  tr_description :: string
  tr_parameters_schema :: payload
  tr_is_builtin :: bool
  tr_source_agent_id :: "string option"

record permission_rule =
  pr_tool_pattern :: string
  pr_action :: string
  pr_conditions :: payload

record security_policy =
  sp_permission_rules :: "permission_rule list"
  sp_default_action :: string

record system_settings =
  ss_max_parallel_tasks :: int
  ss_snapshot_every_n_events :: int
  ss_event_log_path :: string
  ss_snapshot_path :: string

record app_state =
  st_session_id :: string
  st_run_id :: string
  st_intents :: "intent pydict"
  st_workflows :: "workflow pydict"
  st_tools :: "tool_registration pydict"
  st_snapshot_index :: int
  st_settings :: system_settings
  st_policy :: security_policy

text \<open>\<open>SystemSettings()\<close>, \<open>SecurityPolicy()\<close> and \<open>AppState.create\<close>; the two identifiers
  come from \<open>uuid4\<close>.\<close>

definition default_settings :: system_settings where
  "default_settings = \<lparr>ss_max_parallel_tasks = 20, ss_snapshot_every_n_events = 100,
     ss_event_log_path = ''.agenthicc/events.jsonl'',
     ss_snapshot_path = ''.agenthicc/snapshot.json''\<rparr>"

definition default_policy :: security_policy where
  "default_policy = \<lparr>sp_permission_rules = [], sp_default_action = ''deny''\<rparr>"

definition app_state_create ::
  "string \<Rightarrow> string \<Rightarrow> system_settings option \<Rightarrow> security_policy option \<Rightarrow> app_state" where
  "app_state_create session_id run_id settings policy =
     \<lparr>st_session_id = session_id, st_run_id = run_id, st_intents = [], st_workflows = [],
      st_tools = [], st_snapshot_index = 0,
      st_settings = (case settings of None \<Rightarrow> default_settings | Some x \<Rightarrow> x),
      st_policy = (case policy of None \<Rightarrow> default_policy | Some x \<Rightarrow> x)\<rparr>"

definition with_intent :: "app_state \<Rightarrow> intent \<Rightarrow> app_state" where
  "with_intent s i = s\<lparr>st_intents := dset (in_intent_id i) i (st_intents s)\<rparr>"

definition with_workflow :: "app_state \<Rightarrow> workflow \<Rightarrow> app_state" where
  "with_workflow s w = s\<lparr>st_workflows := dset (wf_workflow_id w) w (st_workflows s)\<rparr>"

definition with_tool :: "app_state \<Rightarrow> tool_registration \<Rightarrow> app_state" where
  "with_tool s t = s\<lparr>st_tools := dset (tr_name t) t (st_tools s)\<rparr>"

text \<open>
  Well-formed states: no key occurs twice, and every value is filed under its own identifier
  (a tool under its name, a node under its node identifier).
\<close>

definition filed_under :: "('v \<Rightarrow> string) \<Rightarrow> 'v pydict \<Rightarrow> bool" where
  "filed_under name d \<longleftrightarrow> distinct (keys d) \<and> (\<forall>(k, v) \<in> set d. name v = k)"

definition wf_workflow :: "workflow \<Rightarrow> bool" where
  "wf_workflow w \<longleftrightarrow> filed_under nd_node_id (wf_nodes w)"

definition wf_state :: "app_state \<Rightarrow> bool" where
  "wf_state s \<longleftrightarrow> filed_under in_intent_id (st_intents s)
     \<and> filed_under wf_workflow_id (st_workflows s)
     \<and> filed_under tr_name (st_tools s)
     \<and> (\<forall>(k, w) \<in> set (st_workflows s). wf_workflow w)"

lemma filed_under_Nil [simp]: "filed_under name []"
  by (simp add: filed_under_def)

lemma filed_under_dset [simp]: "filed_under name d \<Longrightarrow> filed_under name (dset (name v) v d)"
  by (auto simp: filed_under_def dest!: dset_in_setD)

lemma filed_under_get: "filed_under name d \<Longrightarrow> map_of d k = Some v \<Longrightarrow> name v = k"
  by (auto simp: filed_under_def dest!: map_of_SomeD)

lemma wf_state_create [simp]: "wf_state (app_state_create sid rid se po)"
  by (simp add: wf_state_def app_state_create_def)

lemma wf_with_intent: "wf_state s \<Longrightarrow> wf_state (with_intent s i)"
  by (simp add: wf_state_def with_intent_def)

lemma wf_with_tool: "wf_state s \<Longrightarrow> wf_state (with_tool s t)"
  by (simp add: wf_state_def with_tool_def)

lemma wf_with_workflow: "wf_state s \<Longrightarrow> wf_workflow w \<Longrightarrow> wf_state (with_workflow s w)"
  by (auto simp: wf_state_def with_workflow_def dest!: dset_in_setD)

lemma wf_state_workflow: "wf_state s \<Longrightarrow> map_of (st_workflows s) k = Some w \<Longrightarrow> wf_workflow w"
  by (auto simp: wf_state_def dest!: map_of_SomeD)

lemma wf_state_nodes:
  "wf_state s \<Longrightarrow> map_of (st_workflows s) k = Some w \<Longrightarrow> filed_under nd_node_id (wf_nodes w)"
  by (drule (1) wf_state_workflow) (simp add: wf_workflow_def)

lemma filed_under_dsetI:
  "filed_under name d \<Longrightarrow> name v = k \<Longrightarrow> filed_under name (dset k v d)"
  by auto

lemma wf_state_workflow_id:
  "wf_state s \<Longrightarrow> map_of (st_workflows s) k = Some w \<Longrightarrow> wf_workflow_id w = k"
  by (rule filed_under_get [of wf_workflow_id "st_workflows s"]) (simp_all add: wf_state_def)

lemma wf_state_intent_id:
  "wf_state s \<Longrightarrow> map_of (st_intents s) k = Some i \<Longrightarrow> in_intent_id i = k"
  by (rule filed_under_get [of in_intent_id "st_intents s"]) (simp_all add: wf_state_def)

lemmas wf_with = wf_with_intent wf_with_tool wf_with_workflow

end
