(* ===== verification/Kernel_Events.thy ===== *)
theory Kernel_Events
  imports Kernel_State
begin

text \<open>
  Events and effects of \<open>src/agenthicc/kernel/events.py\<close>: the payload readers, each with the
  error it raises, the \<open>Event\<close> record with its dictionary form, and the effect type.
\<close>

text \<open>Exceptions the kernel raises: \<open>ValueError(message)\<close> and \<open>UnknownEventError(type)\<close>.\<close>

datatype kernel_error = ValueErr string | UnknownEventErr string

definition projection_event_types :: "string list" where
  "projection_event_types =
     [''KernelEventRejected'', ''McpCatalogPublished'', ''McpServerFailed'', ''McpServerReady'',
      ''ProviderRecoveryRetryScheduled'', ''SubagentCompleted'', ''SubagentFailed'',
      ''SubagentPoolCompleted'', ''SubagentPoolStarted'', ''SubagentStarted'',
      ''TransportRetryScheduled'', ''UIAdUpdate'', ''WorkflowCheckpointSaved'',
      ''WorkflowPhaseStarted'']"

definition event_schema_versions :: "int pydict" where
  "event_schema_versions =
     [(''SubagentCompleted'', 1), (''SubagentFailed'', 1), (''SubagentPoolCompleted'', 1),
      (''SubagentPoolStarted'', 1), (''SubagentStarted'', 1)]"

definition error_name :: "kernel_error \<Rightarrow> string" where
  "error_name e = (case e of ValueErr m \<Rightarrow> ''ValueError'' | UnknownEventErr t \<Rightarrow> ''UnknownEventError'')"

definition error_message :: "kernel_error \<Rightarrow> string" where
  "error_message e = (case e of
     ValueErr m \<Rightarrow> m
   | UnknownEventErr t \<Rightarrow> ''unknown kernel event type '' @ py_repr t
       @ '': register a reducer handler or add it to PROJECTION_EVENT_TYPES'')"

section \<open>Payload readers\<close>

definition field_error :: "string \<Rightarrow> string \<Rightarrow> kernel_error" where
  "field_error key what = ValueErr (''event payload field '' @ py_repr key @ '' must be '' @ what)"

definition payload_str :: "payload \<Rightarrow> string \<Rightarrow> string option \<Rightarrow> kernel_error + string" where
  "payload_str p key dflt =
     (case str_of (dget_or p key (of_opt_str dflt)) of
        Some s \<Rightarrow> Inr s
      | None \<Rightarrow> Inl (field_error key ''a string''))"

definition payload_optional_str ::
  "payload \<Rightarrow> string \<Rightarrow> string option \<Rightarrow> kernel_error + string option" where
  "payload_optional_str p key dflt =
     (case dget_or p key (of_opt_str dflt) of
        PNone \<Rightarrow> Inr None
      | PStr s \<Rightarrow> Inr (Some s)
      | _ \<Rightarrow> Inl (field_error key ''a string or null''))"

definition payload_float :: "payload \<Rightarrow> string \<Rightarrow> kernel_error + pyfloat" where
  "payload_float p key =
     (case num_of (pget p key) of
        Some f \<Rightarrow> Inr f
      | None \<Rightarrow> Inl (field_error key ''a number''))"

definition payload_bool :: "payload \<Rightarrow> string \<Rightarrow> bool \<Rightarrow> kernel_error + bool" where
  "payload_bool p key dflt =
     (case bool_of (dget_or p key (PBool dflt)) of
        Some b \<Rightarrow> Inr b
      | None \<Rightarrow> Inl (field_error key ''a boolean''))"

text \<open>\<open>_payload_mapping\<close> with its default \<open>None\<close>: a missing or null field is the empty mapping.\<close>

definition payload_mapping :: "payload \<Rightarrow> string \<Rightarrow> kernel_error + payload" where
  "payload_mapping p key =
     (case pget p key of
        PNone \<Rightarrow> Inr []
      | v \<Rightarrow> (case dict_of v of
                Some d \<Rightarrow> Inr d
              | None \<Rightarrow> Inl (field_error key ''an object'')))"

section \<open>Events\<close>

record event =
  ev_event_id :: string
  ev_event_type :: string
  ev_timestamp :: pyfloat
  ev_payload :: payload
  ev_source_agent_id :: "string option"
  ev_tool_call_id :: "string option"
  ev_schema_version :: int

text \<open>\<open>Event.create\<close>; the identifier and the time come from \<open>uuid4\<close> and the clock.\<close>

definition event_create ::
  "string \<Rightarrow> pyfloat \<Rightarrow> string \<Rightarrow> payload \<Rightarrow> string option \<Rightarrow> string option \<Rightarrow> int option \<Rightarrow> event" where
  "event_create eid now event_type p source_agent_id tool_call_id schema_version =
     \<lparr>ev_event_id = eid, ev_event_type = event_type, ev_timestamp = now, ev_payload = p,
      ev_source_agent_id = source_agent_id, ev_tool_call_id = tool_call_id,
      ev_schema_version = (case schema_version of
          Some v \<Rightarrow> v
        | None \<Rightarrow> dget_or event_schema_versions event_type 1)\<rparr>"

definition event_to_dict :: "event \<Rightarrow> payload" where
  "event_to_dict e =
     [(''event_id'', PStr (ev_event_id e)),
      (''event_type'', PStr (ev_event_type e)),
      (''timestamp'', PFloat (ev_timestamp e)),
      (''payload'', of_dict (ev_payload e)),
      (''source_agent_id'', of_opt_str (ev_source_agent_id e)),
      (''tool_call_id'', of_opt_str (ev_tool_call_id e)),
      (''schema_version'', PInt (ev_schema_version e))]"

definition event_from_dict :: "payload \<Rightarrow> kernel_error + event" where
  "event_from_dict d =
     (case int_of (dget_or d ''schema_version'' (PInt 1)) of
        None \<Rightarrow> Inl (ValueErr ''event field 'schema_version' must be a positive integer'')
      | Some version \<Rightarrow>
          if version < 1 then
            Inl (ValueErr ''event field 'schema_version' must be a positive integer'')
          else
            bindE (payload_str d ''event_id'' None) (\<lambda>eid.
            bindE (payload_str d ''event_type'' None) (\<lambda>ety.
            bindE (payload_float d ''timestamp'') (\<lambda>ts.
            bindE (payload_mapping d ''payload'') (\<lambda>p.
            bindE (payload_optional_str d ''source_agent_id'' None) (\<lambda>src.
            bindE (payload_optional_str d ''tool_call_id'' None) (\<lambda>tcid.
            Inr \<lparr>ev_event_id = eid, ev_event_type = ety, ev_timestamp = ts, ev_payload = p,
                 ev_source_agent_id = src, ev_tool_call_id = tcid,
                 ev_schema_version = version\<rparr>)))))))"

lemma payload_optional_str_of_opt [simp]:
  "(case of_opt_str x of PNone \<Rightarrow> Inr None | PStr s \<Rightarrow> Inr (Some s) | _ \<Rightarrow> e) = Inr x"
  by (cases x) simp_all

lemma payload_mapping_of_dict [simp]:
  "(case of_dict d of PNone \<Rightarrow> Inr [] | v \<Rightarrow> case dict_of v of Some d \<Rightarrow> Inr d | None \<Rightarrow> e) = Inr d"
  by (simp add: of_dict_def)

lemma event_from_to_dict:
  "1 \<le> ev_schema_version e \<Longrightarrow> event_from_dict (event_to_dict e) = Inr e"
  by (simp add: event_from_dict_def event_to_dict_def payload_str_def payload_float_def
      payload_mapping_def payload_optional_str_def pget_def)

lemma event_create_version: "ev_schema_version (event_create eid now t p s c None) = 1"
  by (simp add: event_create_def event_schema_versions_def)

section \<open>Effects\<close>

datatype effect_type =
    SpawnAgent | ExecuteTool | UpdateTui | PersistSnapshot | EmitSignal | StartWorkflowNode
  | AssignTask

record effect =
  ef_type :: effect_type
  ef_payload :: payload

section \<open>What a JSON log line carries\<close>

text \<open>
  \<open>json.loads(json.dumps(v))\<close>: tuples come back as lists, dictionary keys as strings, and a set
  makes \<open>dumps\<close> raise \<open>TypeError\<close> (here \<open>None\<close>).
\<close>

fun json_key :: "pykey \<Rightarrow> pykey" where
  "json_key (KStr s) = KStr s"
| "json_key (KInt i) = KStr (int_text i)"

fun json_trip :: "pyval \<Rightarrow> pyval option"
  and json_trips :: "pyval list \<Rightarrow> pyval list option"
  and json_items :: "(pykey \<times> pyval) list \<Rightarrow> (pykey \<times> pyval) list \<Rightarrow> (pykey \<times> pyval) list option"
where
  "json_trip (PList xs) = map_option PList (json_trips xs)"
| "json_trip (PTuple xs) = map_option PList (json_trips xs)"
| "json_trip (PSet xs) = None"
| "json_trip (PDict kvs) = map_option PDict (json_items kvs [])"
| "json_trip v = Some v"
| "json_trips [] = Some []"
| "json_trips (x # xs) =
     (case json_trip x of None \<Rightarrow> None | Some y \<Rightarrow> map_option ((#) y) (json_trips xs))"
| "json_items [] acc = Some acc"
| "json_items ((k, v) # kvs) acc =
     (case json_trip v of None \<Rightarrow> None | Some w \<Rightarrow> json_items kvs (dset (json_key k) w acc))"

text \<open>Values JSON represents exactly: no tuple or set, string keys, no key twice.\<close>

fun json_native :: "pyval \<Rightarrow> bool"
  and json_natives :: "pyval list \<Rightarrow> bool"
  and json_native_items :: "(pykey \<times> pyval) list \<Rightarrow> bool"
where
  "json_native (PList xs) = json_natives xs"
| "json_native (PTuple xs) = False"
| "json_native (PSet xs) = False"
| "json_native (PDict kvs) = (distinct (keys kvs) \<and> json_native_items kvs)"
| "json_native v = True"
| "json_natives [] = True"
| "json_natives (x # xs) = (json_native x \<and> json_natives xs)"
| "json_native_items [] = True"
| "json_native_items ((k, v) # kvs) = (json_key k = k \<and> json_native v \<and> json_native_items kvs)"

lemma json_trip_native:
  "json_native v \<Longrightarrow> json_trip v = Some v"
  "json_natives vs \<Longrightarrow> json_trips vs = Some vs"
  "json_native_items kvs \<Longrightarrow> distinct (keys (acc @ kvs)) \<Longrightarrow> json_items kvs acc = Some (acc @ kvs)"
  by (induction v and vs and kvs arbitrary: and and acc
      rule: json_native_json_natives_json_native_items.induct) (auto simp: dset_fresh)

definition payload_native :: "payload \<Rightarrow> bool" where
  "payload_native p = json_native (of_dict p)"

lemma json_native_of_opt_str [simp]: "json_native (of_opt_str x)"
  by (cases x) simp_all

lemma json_trip_event:
  assumes "payload_native (ev_payload e)"
  shows "json_trip (of_dict (event_to_dict e)) = Some (of_dict (event_to_dict e))"
proof (rule json_trip_native)
  show "json_native (of_dict (event_to_dict e))"
    using assms by (simp add: of_dict_def event_to_dict_def payload_native_def)
qed

end
