(* ===== verification/Kernel_Reducer.thy ===== *)
theory Kernel_Reducer
  imports Kernel_Events
begin

text \<open>
  The pure reducers of \<open>src/agenthicc/kernel/reducer.py\<close>: one handler per declared event type,
  the handler table, and \<open>root_reducer\<close>, which dispatches on it. A handler returns the error it
  raises or the new state with the effects it asks for.
\<close>

type_synonym reducer_result = "kernel_error + (app_state \<times> effect list)"

definition text_payload :: "(string \<times> string) list \<Rightarrow> payload" where
  "text_payload kvs = map (\<lambda>(k, v). (k, PStr v)) kvs"

definition intent_created :: "app_state \<Rightarrow> event \<Rightarrow> reducer_result" where
  "intent_created s e =
     bindE (payload_str (ev_payload e) ''intent_id'' None) (\<lambda>iid.
     bindE (payload_str (ev_payload e) ''raw_text'' None) (\<lambda>raw.
     bindE (payload_mapping (ev_payload e) ''metadata'') (\<lambda>meta.
     Inr (with_intent s \<lparr>in_intent_id = iid, in_raw_text = raw, in_status = IntentPending,
            in_workflow_id = None, in_created_at = ev_timestamp e, in_metadata = meta,
            in_error = None\<rparr>,
          [\<lparr>ef_type = EmitSignal,
            ef_payload = text_payload [(''signal'', ''IntentCreated''), (''intent_id'', iid)]\<rparr>,
           \<lparr>ef_type = UpdateTui,
            ef_payload = text_payload [(''type'', ''intent_added''), (''intent_id'', iid)]\<rparr>]))))"

definition parse_intent_status :: "string \<Rightarrow> kernel_error + intent_status" where
  "parse_intent_status t =
     (case intent_status_of t of
        Some x \<Rightarrow> Inr x
      | None \<Rightarrow> Inl (ValueErr (py_repr t @ '' is not a valid IntentStatus'')))"

definition intent_status_changed :: "app_state \<Rightarrow> event \<Rightarrow> reducer_result" where
  "intent_status_changed s e =
     bindE (payload_str (ev_payload e) ''intent_id'' None) (\<lambda>iid.
     case dget (st_intents s) iid of
       None \<Rightarrow> Inr (s, [])
     | Some old \<Rightarrow>
         bindE (bindE (payload_str (ev_payload e) ''status'' None) parse_intent_status) (\<lambda>status.
         bindE (payload_optional_str (ev_payload e) ''workflow_id'' (in_workflow_id old)) (\<lambda>wid.
         bindE (payload_optional_str (ev_payload e) ''error'' (in_error old)) (\<lambda>err.
         Inr (with_intent s
                (old\<lparr>in_status := status, in_workflow_id := wid, in_error := err\<rparr>),
              [\<lparr>ef_type = UpdateTui,
                ef_payload = text_payload
                  [(''type'', ''intent_updated''), (''intent_id'', in_intent_id old)]\<rparr>])))))"

definition workflow_run_started :: "app_state \<Rightarrow> event \<Rightarrow> reducer_result" where
  "workflow_run_started s e =
     bindE (payload_str (ev_payload e) ''run_id'' None) (\<lambda>rid.
     bindE (payload_str (ev_payload e) ''workflow_name'' (Some '''')) (\<lambda>name.
     bindE (payload_str (ev_payload e) ''intent'' (Some '''')) (\<lambda>intent.
     Inr (with_workflow s \<lparr>wf_workflow_id = rid, wf_intent_id = '''', wf_nodes = [],
            wf_status = NodePending, wf_created_at = ev_timestamp e, wf_name = name,
            wf_intent_text = intent\<rparr>, []))))"

definition phase_result :: "payload \<Rightarrow> kernel_error + pyval" where
  "phase_result p =
     bindE (payload_str p ''role'' (Some '''')) (\<lambda>role.
     bindE (payload_str p ''full_text'' (Some '''')) (\<lambda>txt.
     bindE (payload_mapping p ''structured'') (\<lambda>structured.
     bindE (payload_mapping p ''metadata'') (\<lambda>meta.
     Inr (of_dict [(''role'', PStr role), (''full_text'', PStr txt),
                   (''approved'', pget p ''approved''), (''structured'', of_dict structured),
                   (''metadata'', of_dict meta)])))))"

definition workflow_phase_completed :: "app_state \<Rightarrow> event \<Rightarrow> reducer_result" where
  "workflow_phase_completed s e =
     bindE (payload_str (ev_payload e) ''run_id'' None) (\<lambda>rid.
     bindE (payload_str (ev_payload e) ''phase_name'' None) (\<lambda>phase.
     case dget (st_workflows s) rid of
       None \<Rightarrow> Inr (s, [])
     | Some w \<Rightarrow>
         bindE (phase_result (ev_payload e)) (\<lambda>result.
         Inr (with_workflow s (w\<lparr>wf_nodes := dset phase
                \<lparr>nd_node_id = phase, nd_task_id = phase, nd_label = phase,
                 nd_dependencies = [], nd_status = NodeComplete, nd_agent_id = None,
                 nd_result = result, nd_error = None\<rparr> (wf_nodes w)\<rparr>), []))))"

definition completed_status :: "string \<Rightarrow> node_status" where
  "completed_status t =
     (if t = ''complete'' \<or> t = ''exited'' then NodeComplete
      else if t = ''paused'' then NodePaused
      else if t = ''discarded'' then NodeDiscarded
      else NodeFailed)"

definition workflow_run_completed :: "app_state \<Rightarrow> event \<Rightarrow> reducer_result" where
  "workflow_run_completed s e =
     bindE (payload_str (ev_payload e) ''run_id'' None) (\<lambda>rid.
     case dget (st_workflows s) rid of
       None \<Rightarrow> Inr (s, [])
     | Some w \<Rightarrow>
         bindE (payload_str (ev_payload e) ''status'' (Some ''complete'')) (\<lambda>t.
         Inr (with_workflow s (w\<lparr>wf_status := completed_status t\<rparr>), [])))"

definition set_run_status :: "node_status \<Rightarrow> app_state \<Rightarrow> event \<Rightarrow> reducer_result" where
  "set_run_status st s e =
     bindE (payload_str (ev_payload e) ''run_id'' None) (\<lambda>rid.
     case dget (st_workflows s) rid of
       None \<Rightarrow> Inr (s, [])
     | Some w \<Rightarrow> Inr (with_workflow s (w\<lparr>wf_status := st\<rparr>), []))"

definition workflow_run_paused :: "app_state \<Rightarrow> event \<Rightarrow> reducer_result" where
  "workflow_run_paused = set_run_status NodePaused"

definition workflow_run_resumed :: "app_state \<Rightarrow> event \<Rightarrow> reducer_result" where
  "workflow_run_resumed = set_run_status NodeRunning"

definition workflow_run_discarded :: "app_state \<Rightarrow> event \<Rightarrow> reducer_result" where
  "workflow_run_discarded = set_run_status NodeDiscarded"

definition tool_registered :: "app_state \<Rightarrow> event \<Rightarrow> reducer_result" where
  "tool_registered s e =
     bindE (payload_str (ev_payload e) ''tool_id'' None) (\<lambda>tid.
     bindE (payload_str (ev_payload e) ''name'' None) (\<lambda>name.
     bindE (payload_str (ev_payload e) ''description'' (Some '''')) (\<lambda>desc.
     bindE (payload_mapping (ev_payload e) ''parameters_schema'') (\<lambda>schema.
     bindE (payload_bool (ev_payload e) ''is_builtin'' False) (\<lambda>builtin.
     bindE (payload_optional_str (ev_payload e) ''source_agent_id'' None) (\<lambda>src.
     Inr (with_tool s \<lparr>tr_tool_id = tid, tr_name = name, tr_description = desc,
            tr_parameters_schema = schema, tr_is_builtin = builtin,
            tr_source_agent_id = src\<rparr>, [])))))))"

definition handlers :: "(string \<times> (app_state \<Rightarrow> event \<Rightarrow> reducer_result)) list" where
  "handlers =
     [(''IntentCreated'', intent_created),
      (''IntentStatusChanged'', intent_status_changed),
      (''WorkflowRunStarted'', workflow_run_started),
      (''WorkflowPhaseCompleted'', workflow_phase_completed),
      (''WorkflowRunCompleted'', workflow_run_completed),
      (''WorkflowRunPaused'', workflow_run_paused),
      (''WorkflowRunResumed'', workflow_run_resumed),
      (''WorkflowRunDiscarded'', workflow_run_discarded),
      (''ToolRegistered'', tool_registered)]"

definition reduced_event_types :: "string list" where
  "reduced_event_types = keys handlers"

definition root_reducer :: "app_state \<Rightarrow> event \<Rightarrow> reducer_result" where
  "root_reducer s e =
     (case dget handlers (ev_event_type e) of
        Some h \<Rightarrow> h s e
      | None \<Rightarrow>
          if ev_event_type e \<in> set projection_event_types then Inr (s, [])
          else Inl (UnknownEventErr (ev_event_type e)))"

lemmas handler_defs =
  intent_created_def intent_status_changed_def workflow_run_started_def
  workflow_phase_completed_def workflow_run_completed_def workflow_run_paused_def
  workflow_run_resumed_def workflow_run_discarded_def tool_registered_def set_run_status_def

section \<open>Dispatch\<close>

lemma keys_handlers: "keys handlers = [''IntentCreated'', ''IntentStatusChanged'',
    ''WorkflowRunStarted'', ''WorkflowPhaseCompleted'', ''WorkflowRunCompleted'',
    ''WorkflowRunPaused'', ''WorkflowRunResumed'', ''WorkflowRunDiscarded'', ''ToolRegistered'']"
  by (simp add: handlers_def)

lemma handled_not_projection:
  "t \<in> set reduced_event_types \<Longrightarrow> t \<notin> set projection_event_types"
  unfolding reduced_event_types_def keys_handlers projection_event_types_def by auto

lemma handlers_get_cases:
  assumes "dget handlers t = Some h"
  obtains "h = intent_created" | "h = intent_status_changed" | "h = workflow_run_started"
    | "h = workflow_phase_completed" | "h = workflow_run_completed"
    | st where "h = set_run_status st" | "h = tool_registered"
  using assms
  by (auto simp: handlers_def workflow_run_paused_def workflow_run_resumed_def
      workflow_run_discarded_def split: if_splits)

lemma root_reducer_projection:
  assumes "ev_event_type e \<in> set projection_event_types"
  shows "root_reducer s e = Inr (s, [])"
proof -
  have "dget handlers (ev_event_type e) = None"
    using assms handled_not_projection [of "ev_event_type e"]
    by (intro map_of_NoneI) (auto simp: reduced_event_types_def)
  with assms show ?thesis by (simp add: root_reducer_def)
qed

lemma root_reducer_cases:
  assumes "root_reducer s e = Inr (s', fx)"
  obtains (projection) "s' = s" "fx = []"
  | (handled) h where "dget handlers (ev_event_type e) = Some h" "h s e = Inr (s', fx)"
  using assms by (auto simp: root_reducer_def split: option.splits if_splits)

section \<open>Invariants of the handlers\<close>

lemma handler_wf_state:
  assumes "dget handlers t = Some h" and "h s e = Inr (s', fx)" and "wf_state s"
  shows "wf_state s'"
  using assms(1)
  by (cases rule: handlers_get_cases)
    (use assms(2,3) in \<open>auto simp: handler_defs result_simps wf_workflow_def split: option.splits
      intro!: wf_with filed_under_dsetI wf_state_nodes [OF assms(3)]\<close>)

lemma handler_frame:
  assumes "dget handlers t = Some h" and "h s e = Inr (s', fx)"
  shows "st_session_id s' = st_session_id s \<and> st_run_id s' = st_run_id s
    \<and> st_snapshot_index s' = st_snapshot_index s \<and> st_settings s' = st_settings s
    \<and> st_policy s' = st_policy s"
  using assms(1)
  by (cases rule: handlers_get_cases)
    (use assms(2) in \<open>auto simp: handler_defs result_simps with_intent_def with_workflow_def
      with_tool_def split: option.splits\<close>)

end
