(* ===== verification/Kernel_Processor.thy ===== *)
theory Kernel_Processor
  imports Kernel_Reducer
begin

text \<open>
  The event processor of \<open>src/agenthicc/kernel/processor.py\<close>: the queue of emitted events with the
  stop marker, subscribers with bounded queues, sinks, the append-only log, effects, snapshots,
  one processing step, the loop, and \<open>restore_from_log\<close>. The reducer is a parameter, as in the
  code; identifiers and times of rejection events come from \<open>src\<close>, indexed by the number of the
  rejection. Starting an effect or a snapshot is recorded; running it is outside the kernel.
\<close>

section \<open>State\<close>

record 'a subscriber =
  sub_id :: nat
  sub_cap :: int
  sub_items :: "'a list"

text \<open>A line of the event log, after \<open>strip\<close> and \<open>json.loads\<close>.\<close>

datatype log_line = BlankLine | BadJson | JsonObject payload | JsonOther pyval

record processor =
  ps_state :: app_state
  ps_persist :: bool
  ps_queue :: "event option list"
  ps_readers :: "app_state subscriber list"
  ps_event_readers :: "event subscriber list"
  ps_sinks :: "nat list"
  ps_seen :: "(nat \<times> event) list"
  ps_applied :: nat
  ps_rejected :: nat
  ps_dropped :: nat
  ps_drop_reports :: "nat list"
  ps_since_snapshot :: int
  ps_stop_requested :: bool
  ps_log :: "log_line list"
  ps_effects :: "(effect \<times> app_state) list"
  ps_snapshots :: "(app_state \<times> nat) list"

type_synonym reducer = "app_state \<Rightarrow> event \<Rightarrow> reducer_result"
type_synonym event_source = "nat \<Rightarrow> string \<times> pyfloat"

definition processor_init :: "app_state \<Rightarrow> bool \<Rightarrow> processor" where
  "processor_init s persist =
     \<lparr>ps_state = s, ps_persist = persist, ps_queue = [], ps_readers = [], ps_event_readers = [],
      ps_sinks = [], ps_seen = [], ps_applied = 0, ps_rejected = 0, ps_dropped = 0,
      ps_drop_reports = [], ps_since_snapshot = 0, ps_stop_requested = False, ps_log = [],
      ps_effects = [], ps_snapshots = []\<rparr>"

section \<open>Subscriptions\<close>

definition subscribe :: "nat \<Rightarrow> processor \<Rightarrow> processor" where
  "subscribe i p = p\<lparr>ps_readers := ps_readers p @ [\<lparr>sub_id = i, sub_cap = 100, sub_items = []\<rparr>]\<rparr>"

definition unsubscribe :: "nat \<Rightarrow> processor \<Rightarrow> processor" where
  "unsubscribe i p = p\<lparr>ps_readers := filter (\<lambda>r. sub_id r \<noteq> i) (ps_readers p)\<rparr>"

definition subscribe_events :: "nat \<Rightarrow> int \<Rightarrow> processor \<Rightarrow> processor" where
  "subscribe_events i maxsize p =
     p\<lparr>ps_event_readers := ps_event_readers p @ [\<lparr>sub_id = i, sub_cap = maxsize, sub_items = []\<rparr>]\<rparr>"

definition unsubscribe_events :: "nat \<Rightarrow> processor \<Rightarrow> processor" where
  "unsubscribe_events i p =
     p\<lparr>ps_event_readers := filter (\<lambda>r. sub_id r \<noteq> i) (ps_event_readers p)\<rparr>"

definition add_sink :: "nat \<Rightarrow> processor \<Rightarrow> processor" where
  "add_sink i p = p\<lparr>ps_sinks := ps_sinks p @ [i]\<rparr>"

definition remove_sink :: "nat \<Rightarrow> processor \<Rightarrow> processor" where
  "remove_sink i p = p\<lparr>ps_sinks := remove1 i (ps_sinks p)\<rparr>"

text \<open>\<open>Queue.put_nowait\<close>: a queue with a positive \<open>maxsize\<close> refuses an item when it is full.\<close>

definition queue_full :: "'a subscriber \<Rightarrow> bool" where
  "queue_full q \<longleftrightarrow> 0 < sub_cap q \<and> sub_cap q \<le> int (length (sub_items q))"

definition offer :: "'a \<Rightarrow> 'a subscriber \<Rightarrow> 'a subscriber" where
  "offer x q = (if queue_full q then q else q\<lparr>sub_items := sub_items q @ [x]\<rparr>)"

definition record_drop :: "processor \<Rightarrow> processor" where
  "record_drop p =
     (let d = Suc (ps_dropped p)
      in p\<lparr>ps_dropped := d,
           ps_drop_reports := ps_drop_reports p @ (if d = 1 \<or> d mod 100 = 0 then [d] else [])\<rparr>)"

definition deliver_event :: "event \<Rightarrow> processor \<Rightarrow> processor" where
  "deliver_event e p =
     (record_drop ^^ length (filter queue_full (ps_event_readers p)))
       (p\<lparr>ps_event_readers := map (offer e) (ps_event_readers p)\<rparr>)"

definition deliver_state :: "app_state \<Rightarrow> processor \<Rightarrow> processor" where
  "deliver_state s p =
     (record_drop ^^ length (filter queue_full (ps_readers p)))
       (p\<lparr>ps_readers := map (offer s) (ps_readers p)\<rparr>)"

section \<open>One step\<close>

text \<open>\<open>json.dumps(event.to_dict())\<close> as the reader of the line sees it; \<open>None\<close> if it raises.\<close>

definition log_line_of :: "event \<Rightarrow> log_line option" where
  "log_line_of e =
     (case json_trip (of_dict (event_to_dict e)) of
        None \<Rightarrow> None
      | Some v \<Rightarrow> map_option JsonObject (dict_of v))"

datatype outcome = Running processor | Crashed processor | Stopped processor

definition publish :: "event \<Rightarrow> app_state option \<Rightarrow> processor \<Rightarrow> outcome" where
  "publish e s p =
     (case (if ps_persist p then map_option (\<lambda>l. [l]) (log_line_of e) else Some []) of
        None \<Rightarrow> Crashed p
      | Some lines \<Rightarrow>
          (let p1 = p\<lparr>ps_log := ps_log p @ lines,
                      ps_seen := ps_seen p @ map (\<lambda>k. (k, e)) (ps_sinks p)\<rparr>;
               p2 = deliver_event e p1
           in Running (case s of None \<Rightarrow> p2 | Some st \<Rightarrow> deliver_state st p2)))"

definition rejection_event :: "event_source \<Rightarrow> nat \<Rightarrow> event \<Rightarrow> kernel_error \<Rightarrow> event" where
  "rejection_event src n e err =
     event_create (fst (src n)) (snd (src n)) ''KernelEventRejected''
       [(''event_id'', PStr (ev_event_id e)), (''event_type'', PStr (ev_event_type e)),
        (''error'', PStr (take 500 (error_name err @ '': '' @ error_message err)))]
       None None None"

definition start_effects :: "effect list \<Rightarrow> app_state \<Rightarrow> processor \<Rightarrow> processor" where
  "start_effects fx s p = p\<lparr>ps_effects := ps_effects p @ map (\<lambda>f. (f, s)) fx\<rparr>"

definition maybe_snapshot :: "app_state \<Rightarrow> processor \<Rightarrow> processor" where
  "maybe_snapshot s p =
     (let n = ps_since_snapshot p + 1
      in if ps_persist p \<and> ss_snapshot_every_n_events (st_settings s) \<le> n
         then p\<lparr>ps_since_snapshot := 0, ps_snapshots := ps_snapshots p @ [(s, ps_applied p)]\<rparr>
         else p\<lparr>ps_since_snapshot := n\<rparr>)"

definition process_event :: "reducer \<Rightarrow> event_source \<Rightarrow> event \<Rightarrow> processor \<Rightarrow> outcome" where
  "process_event red src e p =
     (case red (ps_state p) e of
        Inl err \<Rightarrow>
          (let p1 = p\<lparr>ps_rejected := Suc (ps_rejected p)\<rparr>
           in publish (rejection_event src (ps_rejected p1) e err) None p1)
      | Inr (s, fx) \<Rightarrow>
          (let p1 = p\<lparr>ps_state := s, ps_applied := Suc (ps_applied p)\<rparr>
           in case publish e (Some s) p1 of
                Running p2 \<Rightarrow> Running (maybe_snapshot s (start_effects fx s p2))
              | x \<Rightarrow> x))"

section \<open>Queue, stop marker and loop\<close>

definition emit :: "event \<Rightarrow> processor \<Rightarrow> processor" where
  "emit e p = p\<lparr>ps_queue := ps_queue p @ [Some e]\<rparr>"

definition stop :: "processor \<Rightarrow> processor" where
  "stop p = (if ps_stop_requested p then p
     else p\<lparr>ps_stop_requested := True, ps_queue := ps_queue p @ [None]\<rparr>)"

text \<open>
  \<open>run\<close> takes items until the stop marker; \<open>Running\<close> is the loop waiting on an empty queue,
  \<open>Crashed\<close> an exception that left the loop. The first argument is the queue.
\<close>

fun run_items :: "reducer \<Rightarrow> event_source \<Rightarrow> event option list \<Rightarrow> processor \<Rightarrow> outcome" where
  "run_items red src [] p = Running (p\<lparr>ps_queue := []\<rparr>)"
| "run_items red src (None # q) p = Stopped (p\<lparr>ps_queue := q, ps_stop_requested := False\<rparr>)"
| "run_items red src (Some e # q) p =
     (case process_event red src e p of
        Running p' \<Rightarrow> run_items red src q p'
      | Crashed p' \<Rightarrow> Crashed (p'\<lparr>ps_queue := q\<rparr>)
      | Stopped p' \<Rightarrow> Stopped p')"

definition run :: "reducer \<Rightarrow> event_source \<Rightarrow> processor \<Rightarrow> outcome" where
  "run red src p = run_items red src (ps_queue p) p"

section \<open>Replay\<close>

text \<open>
  \<open>restore_from_log\<close>: blank and undecodable lines and refused events are skipped; a line that
  decodes to something other than an object has no \<open>get\<close>, and the \<open>AttributeError\<close> is not among
  the caught exceptions (\<open>None\<close>).
\<close>

fun restore_lines :: "reducer \<Rightarrow> app_state \<Rightarrow> log_line list \<Rightarrow> app_state option" where
  "restore_lines red s [] = Some s"
| "restore_lines red s (BlankLine # ls) = restore_lines red s ls"
| "restore_lines red s (BadJson # ls) = restore_lines red s ls"
| "restore_lines red s (JsonOther v # ls) = None"
| "restore_lines red s (JsonObject d # ls) =
     (case event_from_dict d of
        Inl err \<Rightarrow> restore_lines red s ls
      | Inr e \<Rightarrow> (case red s e of
                   Inl err \<Rightarrow> restore_lines red s ls
                 | Inr (s', fx) \<Rightarrow> restore_lines red s' ls))"

section \<open>What a step leaves alone\<close>

lemma record_drop_simps [simp]:
  "ps_state (record_drop p) = ps_state p" "ps_persist (record_drop p) = ps_persist p"
  "ps_queue (record_drop p) = ps_queue p" "ps_readers (record_drop p) = ps_readers p"
  "ps_event_readers (record_drop p) = ps_event_readers p" "ps_sinks (record_drop p) = ps_sinks p"
  "ps_seen (record_drop p) = ps_seen p" "ps_applied (record_drop p) = ps_applied p"
  "ps_rejected (record_drop p) = ps_rejected p" "ps_dropped (record_drop p) = Suc (ps_dropped p)"
  "ps_since_snapshot (record_drop p) = ps_since_snapshot p"
  "ps_stop_requested (record_drop p) = ps_stop_requested p" "ps_log (record_drop p) = ps_log p"
  "ps_effects (record_drop p) = ps_effects p" "ps_snapshots (record_drop p) = ps_snapshots p"
  by (simp_all add: record_drop_def Let_def)

lemma record_drops_simps [simp]:
  "ps_state ((record_drop ^^ n) p) = ps_state p" "ps_persist ((record_drop ^^ n) p) = ps_persist p"
  "ps_queue ((record_drop ^^ n) p) = ps_queue p" "ps_readers ((record_drop ^^ n) p) = ps_readers p"
  "ps_event_readers ((record_drop ^^ n) p) = ps_event_readers p"
  "ps_sinks ((record_drop ^^ n) p) = ps_sinks p"
  "ps_seen ((record_drop ^^ n) p) = ps_seen p" "ps_applied ((record_drop ^^ n) p) = ps_applied p"
  "ps_rejected ((record_drop ^^ n) p) = ps_rejected p"
  "ps_dropped ((record_drop ^^ n) p) = n + ps_dropped p"
  "ps_since_snapshot ((record_drop ^^ n) p) = ps_since_snapshot p"
  "ps_stop_requested ((record_drop ^^ n) p) = ps_stop_requested p"
  "ps_log ((record_drop ^^ n) p) = ps_log p"
  "ps_effects ((record_drop ^^ n) p) = ps_effects p"
  "ps_snapshots ((record_drop ^^ n) p) = ps_snapshots p"
  by (induction n) simp_all

lemmas deliver_defs = deliver_event_def deliver_state_def

text \<open>
  The part of a step that does not depend on subscribers: what \<open>publish\<close> does to the fields the
  properties of the loop are about.
\<close>

lemma publish_Running:
  assumes "publish e s p = Running p'"
  shows "ps_state p' = ps_state p \<and> ps_persist p' = ps_persist p \<and> ps_applied p' = ps_applied p
    \<and> ps_rejected p' = ps_rejected p \<and> ps_queue p' = ps_queue p
    \<and> ps_since_snapshot p' = ps_since_snapshot p \<and> ps_snapshots p' = ps_snapshots p
    \<and> ps_stop_requested p' = ps_stop_requested p \<and> ps_effects p' = ps_effects p
    \<and> ps_sinks p' = ps_sinks p \<and> ps_seen p' = ps_seen p @ map (\<lambda>k. (k, e)) (ps_sinks p)
    \<and> ps_event_readers p' = map (offer e) (ps_event_readers p)"
  using assms
  by (auto simp: publish_def Let_def deliver_defs split: option.splits if_splits)

lemma publish_log:
  assumes "publish e s p = Running p'"
  shows "if ps_persist p then \<exists>l. log_line_of e = Some l \<and> ps_log p' = ps_log p @ [l]
         else ps_log p' = ps_log p"
  using assms
  by (auto simp: publish_def Let_def deliver_defs split: option.splits if_splits)

lemma publish_total: "log_line_of e \<noteq> None \<Longrightarrow> \<exists>p'. publish e s p = Running p'"
  by (auto simp: publish_def Let_def)

lemma start_effects_simps [simp]:
  "ps_state (start_effects fx s p) = ps_state p" "ps_log (start_effects fx s p) = ps_log p"
  "ps_persist (start_effects fx s p) = ps_persist p" "ps_queue (start_effects fx s p) = ps_queue p"
  "ps_applied (start_effects fx s p) = ps_applied p"
  "ps_rejected (start_effects fx s p) = ps_rejected p"
  "ps_since_snapshot (start_effects fx s p) = ps_since_snapshot p"
  "ps_snapshots (start_effects fx s p) = ps_snapshots p"
  "ps_sinks (start_effects fx s p) = ps_sinks p" "ps_seen (start_effects fx s p) = ps_seen p"
  "ps_event_readers (start_effects fx s p) = ps_event_readers p"
  "ps_stop_requested (start_effects fx s p) = ps_stop_requested p"
  by (simp_all add: start_effects_def)

lemma maybe_snapshot_simps [simp]:
  "ps_state (maybe_snapshot s p) = ps_state p" "ps_log (maybe_snapshot s p) = ps_log p"
  "ps_persist (maybe_snapshot s p) = ps_persist p" "ps_queue (maybe_snapshot s p) = ps_queue p"
  "ps_applied (maybe_snapshot s p) = ps_applied p"
  "ps_rejected (maybe_snapshot s p) = ps_rejected p"
  "ps_sinks (maybe_snapshot s p) = ps_sinks p" "ps_seen (maybe_snapshot s p) = ps_seen p"
  "ps_event_readers (maybe_snapshot s p) = ps_event_readers p"
  "ps_stop_requested (maybe_snapshot s p) = ps_stop_requested p"
  by (simp_all add: maybe_snapshot_def Let_def)

text \<open>The event a step publishes: the event itself, or the rejection in its place.\<close>

definition published :: "reducer \<Rightarrow> event_source \<Rightarrow> processor \<Rightarrow> event \<Rightarrow> event" where
  "published red src p e =
     (case red (ps_state p) e of
        Inl err \<Rightarrow> rejection_event src (Suc (ps_rejected p)) e err
      | Inr r \<Rightarrow> e)"

lemma process_event_cases:
  assumes "process_event red src e p = Running p'"
  obtains (rejected) err where "red (ps_state p) e = Inl err"
    "publish (published red src p e) None (p\<lparr>ps_rejected := Suc (ps_rejected p)\<rparr>) = Running p'"
  | (applied) s fx p2 where "red (ps_state p) e = Inr (s, fx)"
    "publish (published red src p e) (Some s)
       (p\<lparr>ps_state := s, ps_applied := Suc (ps_applied p)\<rparr>) = Running p2"
    "p' = maybe_snapshot s (start_effects fx s p2)"
  using assms
  by (auto simp: process_event_def published_def Let_def split: sum.splits prod.splits outcome.splits)

lemma process_event_conj:
  assumes "process_event red src e p = Running p'"
  shows "ps_persist p' = ps_persist p \<and> ps_queue p' = ps_queue p
    \<and> ps_stop_requested p' = ps_stop_requested p \<and> ps_sinks p' = ps_sinks p
    \<and> ps_applied p' + ps_rejected p' = Suc (ps_applied p + ps_rejected p)
    \<and> ps_state p' = (case red (ps_state p) e of Inl err \<Rightarrow> ps_state p | Inr (s, fx) \<Rightarrow> s)
    \<and> ps_seen p' = ps_seen p @ map (\<lambda>k. (k, published red src p e)) (ps_sinks p)
    \<and> ps_event_readers p' = map (offer (published red src p e)) (ps_event_readers p)"
  using assms by (cases rule: process_event_cases) (auto dest!: publish_Running)

lemmas process_event_step =
  process_event_conj [THEN conjunct1]
  process_event_conj [THEN conjunct2, THEN conjunct1]
  process_event_conj [THEN conjunct2, THEN conjunct2, THEN conjunct1]
  process_event_conj [THEN conjunct2, THEN conjunct2, THEN conjunct2, THEN conjunct1]

lemma process_event_log:
  assumes "process_event red src e p = Running p'"
  shows "if ps_persist p
         then \<exists>l. log_line_of (published red src p e) = Some l \<and> ps_log p' = ps_log p @ [l]
         else ps_log p' = ps_log p"
  using assms by (cases rule: process_event_cases) (auto dest!: publish_log split: if_splits)

lemma process_event_total:
  assumes "log_line_of (published red src p e) \<noteq> None"
  shows "\<exists>p'. process_event red src e p = Running p'"
proof -
  have "\<exists>q. publish (published red src p e) s p0 = Running q" for s p0
    by (rule publish_total) (rule assms)
  then show ?thesis
    by (auto simp: process_event_def published_def Let_def split: sum.splits prod.splits)
      (metis outcome.simps(10))
qed

text \<open>Restoring continues at the end of what was restored.\<close>

lemma restore_lines_append:
  "restore_lines red s (ls @ ms) = Option.bind (restore_lines red s ls) (\<lambda>s'. restore_lines red s' ms)"
  by (induction red s ls rule: restore_lines.induct)
    (auto split: sum.splits prod.splits)

text \<open>Events whose log line decodes to the event: JSON payload, positive version.\<close>

definition loggable :: "event \<Rightarrow> bool" where
  "loggable e \<longleftrightarrow> payload_native (ev_payload e) \<and> 1 \<le> ev_schema_version e"

lemma log_line_of_loggable:
  "loggable e \<Longrightarrow> log_line_of e = Some (JsonObject (event_to_dict e))"
  by (simp add: log_line_of_def loggable_def json_trip_event)

lemma loggable_rejection [simp]: "loggable (rejection_event src n e err)"
  by (simp add: loggable_def rejection_event_def event_create_version payload_native_def of_dict_def)
    (simp add: event_create_def)

lemma loggable_published: "loggable e \<Longrightarrow> loggable (published red src p e)"
  by (simp add: published_def split: sum.splits)

end
