(* ===== verification/Kernel_Spec.thy ===== *)
theory Kernel_Spec
  imports Kernel_Processor
begin

text \<open>
  What the kernel promises: the log contract of a reducer as a locale with the replay theorem
  proved once, its interpretation on \<open>root_reducer\<close>, the laws of the loop, and the properties of
  the kernel.
\<close>

section \<open>The contract between the processor and its reducer\<close>

text \<open>
  The processor writes a \<open>KernelEventRejected\<close> event in place of every event the reducer refuses.
  Its log can be replayed because the reducer accepts that event without changing the state.
\<close>

locale log_reducer =
  fixes red :: reducer
  assumes rejection_noop:
    "ev_event_type e = ''KernelEventRejected'' \<Longrightarrow> red s e = Inr (s, [])"
begin

lemma published_replays:
  "(case red (ps_state p) (published red src p e) of
      Inl err \<Rightarrow> ps_state p | Inr (s, fx) \<Rightarrow> s) =
   (case red (ps_state p) e of Inl err \<Rightarrow> ps_state p | Inr (s, fx) \<Rightarrow> s)"
  by (auto simp: published_def rejection_event_def event_create_def rejection_noop
      split: sum.splits)

lemma restore_one:
  assumes "loggable e"
  shows "restore_lines red s [JsonObject (event_to_dict e)] =
    Some (case red s e of Inl err \<Rightarrow> s | Inr (s', fx) \<Rightarrow> s')"
  using assms by (auto simp: loggable_def event_from_to_dict split: sum.splits)

lemma step_replays:
  assumes "restore_lines red s0 (ps_log p) = Some (ps_state p)" and "ps_persist p"
    and "loggable e" and "process_event red src e p = Running p'"
  shows "restore_lines red s0 (ps_log p') = Some (ps_state p')"
proof -
  let ?pub = "published red src p e"
  have pub: "loggable ?pub" using assms(3) by (rule loggable_published)
  then have "ps_log p' = ps_log p @ [JsonObject (event_to_dict ?pub)]"
    using process_event_log [OF assms(4)] assms(2) by (simp add: log_line_of_loggable)
  moreover have "ps_state p' = (case red (ps_state p) e of Inl err \<Rightarrow> ps_state p | Inr (s, fx) \<Rightarrow> s)"
    using process_event_conj [OF assms(4)] by simp
  ultimately show ?thesis
    using assms(1) pub published_replays [of p src e]
    by (simp add: restore_lines_append restore_one del: restore_lines.simps)
qed

lemma run_replays:
  assumes "restore_lines red s0 (ps_log p) = Some (ps_state p)" and "ps_persist p"
    and "\<And>e. Some e \<in> set q \<Longrightarrow> loggable e"
  shows "\<exists>p'. (run_items red src q p = Running p' \<or> run_items red src q p = Stopped p')
    \<and> restore_lines red s0 (ps_log p') = Some (ps_state p')"
  using assms
proof (induction q arbitrary: p)
  case Nil
  then show ?case by simp
next
  case (Cons x q)
  show ?case
  proof (cases x)
    case None
    with Cons.prems show ?thesis by simp
  next
    case (Some e)
    have ok: "loggable e" using Cons.prems(3) Some by simp
    obtain p1 where p1: "process_event red src e p = Running p1"
      using process_event_total [of red src p e] loggable_published [OF ok, of red src p]
      by (auto simp: log_line_of_loggable)
    have "restore_lines red s0 (ps_log p1) = Some (ps_state p1)"
      using Cons.prems(1,2) ok p1 by (rule step_replays)
    moreover have "ps_persist p1"
      using process_event_conj [OF p1] Cons.prems(2) by simp
    ultimately show ?thesis
      using Cons.IH [of p1] Cons.prems(3) Some p1 by simp
  qed
qed

end

interpretation kernel: log_reducer root_reducer
  by unfold_locales (rule root_reducer_projection, simp add: projection_event_types_def)

section \<open>Laws of the loop\<close>

definition finished :: "outcome \<Rightarrow> processor option" where
  "finished r = (case r of Running p \<Rightarrow> Some p | Stopped p \<Rightarrow> Some p | Crashed p \<Rightarrow> None)"

text \<open>An invariant of every step, under the reducer's guarantee, is an invariant of the loop.\<close>

lemma run_items_invariant:
  assumes step: "\<And>e p p'. I p \<Longrightarrow> process_event red src e p = Running p' \<Longrightarrow> I p'"
    and queue: "\<And>p q b. I p \<Longrightarrow> I (p\<lparr>ps_queue := q\<rparr>) \<and> I (p\<lparr>ps_queue := q, ps_stop_requested := b\<rparr>)"
    and "I p" and "finished (run_items red src q p) = Some p'"
  shows "I p'"
  using assms(3,4)
proof (induction q arbitrary: p)
  case Nil
  then show ?case using queue by (auto simp: finished_def)
next
  case (Cons x q)
  show ?case
  proof (cases x)
    case None
    with Cons.prems show ?thesis using queue by (auto simp: finished_def)
  next
    case (Some e)
    obtain p1 where p1: "process_event red src e p = Running p1"
      using Cons.prems(2) Some
      by (cases "process_event red src e p")
        (auto simp: finished_def process_event_def publish_def Let_def
          split: sum.splits prod.splits option.splits if_splits)
    with Cons.prems Some have "finished (run_items red src q p1) = Some p'" by simp
    then show ?thesis using Cons.IH [OF step [OF Cons.prems(1) p1]] by simp
  qed
qed

lemma process_event_not_Stopped: "process_event red src e p \<noteq> Stopped p'"
  by (auto simp: process_event_def publish_def Let_def
      split: sum.splits prod.splits option.splits)

text \<open>Everything emitted before the stop marker is processed, nothing after it.\<close>

lemma run_items_prefix:
  assumes "\<And>e. e \<in> set es \<Longrightarrow> loggable e"
  shows "\<exists>p'. run_items red src (map Some es @ q) p = run_items red src q p'
    \<and> ps_applied p' + ps_rejected p' = ps_applied p + ps_rejected p + length es
    \<and> ps_persist p' = ps_persist p \<and> ps_stop_requested p' = ps_stop_requested p"
  using assms
proof (induction es arbitrary: p)
  case Nil
  then show ?case by auto
next
  case (Cons e es)
  obtain p1 where p1: "process_event red src e p = Running p1"
    using process_event_total [of red src p e] loggable_published [of e red src p] Cons.prems
    by (auto simp: log_line_of_loggable)
  obtain p' where "run_items red src (map Some es @ q) p1 = run_items red src q p'"
    "ps_applied p' + ps_rejected p' = ps_applied p1 + ps_rejected p1 + length es"
    "ps_persist p' = ps_persist p1" "ps_stop_requested p' = ps_stop_requested p1"
    using Cons.IH [of p1] Cons.prems by auto
  with p1 process_event_conj [OF p1] show ?case by (intro exI [of _ p']) simp
qed

text \<open>The bound of every event subscription.\<close>

definition within_capacity :: "processor \<Rightarrow> bool" where
  "within_capacity p \<longleftrightarrow> (\<forall>q \<in> set (ps_event_readers p).
     0 < sub_cap q \<longrightarrow> int (length (sub_items q)) \<le> sub_cap q)"

lemma offer_capacity:
  "0 < sub_cap (offer x q) \<Longrightarrow> (0 < sub_cap q \<Longrightarrow> int (length (sub_items q)) \<le> sub_cap q)
   \<Longrightarrow> int (length (sub_items (offer x q))) \<le> sub_cap (offer x q)"
  by (auto simp: offer_def queue_full_def split: if_splits)

lemma process_event_capacity:
  assumes "within_capacity p" and "process_event red src e p = Running p'"
  shows "within_capacity p'"
  using assms(1) process_event_conj [OF assms(2)]
  by (auto simp: within_capacity_def intro!: offer_capacity)

text \<open>
  Snapshots: with a period \<open>n\<close> that the reducer does not change, the snapshot tasks are started
  exactly at the multiples of \<open>n\<close> of the applied count.
\<close>

definition snapshot_period :: "processor \<Rightarrow> int" where
  "snapshot_period p = ss_snapshot_every_n_events (st_settings (ps_state p))"

definition snapshots_on_schedule :: "int \<Rightarrow> processor \<Rightarrow> bool" where
  "snapshots_on_schedule n p \<longleftrightarrow> snapshot_period p = n \<and> ps_persist p
     \<and> 0 \<le> ps_since_snapshot p \<and> ps_since_snapshot p < n
     \<and> int (ps_applied p) = n * int (length (ps_snapshots p)) + ps_since_snapshot p
     \<and> (\<forall>i < length (ps_snapshots p). int (snd (ps_snapshots p ! i)) = n * (int i + 1))"

lemma process_event_snapshots:
  assumes "snapshots_on_schedule n p"
    and keep: "\<And>s fx. red (ps_state p) e = Inr (s, fx) \<Longrightarrow> st_settings s = st_settings (ps_state p)"
    and "process_event red src e p = Running p'"
  shows "snapshots_on_schedule n p'"
  using assms(3)
proof (cases rule: process_event_cases)
  case (rejected err)
  with assms(1) publish_Running [OF rejected(2)] show ?thesis
    by (simp add: snapshots_on_schedule_def snapshot_period_def)
next
  case (applied s fx p2)
  have same: "st_settings s = st_settings (ps_state p)" using keep applied(1) .
  show ?thesis
  proof (cases "ps_since_snapshot p + 1 < n")
    case True
    with assms(1) applied publish_Running [OF applied(2)] same show ?thesis
      by (auto simp: snapshots_on_schedule_def snapshot_period_def maybe_snapshot_def Let_def)
  next
    case False
    with assms(1) have "ps_since_snapshot p + 1 = n" by (simp add: snapshots_on_schedule_def)
    with assms(1) applied publish_Running [OF applied(2)] same show ?thesis
      by (auto simp: snapshots_on_schedule_def snapshot_period_def maybe_snapshot_def Let_def
          nth_append less_Suc_eq algebra_simps)
  qed
qed

lemma root_reducer_frame:
  "root_reducer s e = Inr (s', fx) \<Longrightarrow> st_session_id s' = st_session_id s
    \<and> st_run_id s' = st_run_id s \<and> st_snapshot_index s' = st_snapshot_index s
    \<and> st_settings s' = st_settings s \<and> st_policy s' = st_policy s"
  by (cases rule: root_reducer_cases) (auto dest: handler_frame)

lemma dset_twice [simp]: "dset k v (dset k w d) = dset k v d"
  by (simp add: dset_def)

lemma root_reducer_wf: "root_reducer s e = Inr (s', fx) \<Longrightarrow> wf_state s \<Longrightarrow> wf_state s'"
  by (cases rule: root_reducer_cases) (auto intro: handler_wf_state)

lemma filed_idem:
  "with_intent (with_intent s i) i = with_intent s i"
  "with_tool (with_tool s t) t = with_tool s t"
  "with_workflow (with_workflow s w) w = with_workflow s w"
  by (simp_all add: with_intent_def with_tool_def with_workflow_def)

lemma payload_optional_str_again:
  assumes "payload_optional_str p k d = Inr x"
  shows "payload_optional_str p k x = Inr x"
proof (cases "dget p k")
  case None
  with assms have "payload_optional_str p k d = Inr d" by (simp add: payload_optional_str_def dget_or_def)
  with assms None show ?thesis by (simp add: payload_optional_str_def dget_or_def)
next
  case (Some v)
  with assms show ?thesis by (cases v) (auto simp: payload_optional_str_def dget_or_def)
qed

lemma intent_status_changed_twice:
  assumes "intent_status_changed s e = Inr (s', fx)" and "wf_state s"
  shows "intent_status_changed s' e = Inr (s', fx)"
proof -
  obtain iid where iid: "payload_str (ev_payload e) ''intent_id'' None = Inr iid"
    using assms(1) by (auto simp: intent_status_changed_def elim!: bindE_InrE)
  show ?thesis
  proof (cases "dget (st_intents s) iid")
    case None
    with assms(1) iid show ?thesis by (auto simp: intent_status_changed_def)
  next
    case (Some old)
    have id: "in_intent_id old = iid" using assms(2) Some by (rule wf_state_intent_id)
    obtain st wid err where parts:
      "bindE (payload_str (ev_payload e) ''status'' None) parse_intent_status = Inr st"
      "payload_optional_str (ev_payload e) ''workflow_id'' (in_workflow_id old) = Inr wid"
      "payload_optional_str (ev_payload e) ''error'' (in_error old) = Inr err"
      using assms(1) iid Some
      by (auto simp: intent_status_changed_def elim!: bindE_InrE)
    with assms(1) iid Some id show ?thesis
      by (auto simp: intent_status_changed_def with_intent_def
          payload_optional_str_again [OF parts(2)] payload_optional_str_again [OF parts(3)])
  qed
qed

lemma workflow_handlers_twice:
  assumes "wf_state s"
  shows "workflow_run_started s e = Inr (s', fx) \<Longrightarrow> workflow_run_started s' e = Inr (s', fx)"
    and "workflow_phase_completed s e = Inr (s', fx) \<Longrightarrow> workflow_phase_completed s' e = Inr (s', fx)"
    and "workflow_run_completed s e = Inr (s', fx) \<Longrightarrow> workflow_run_completed s' e = Inr (s', fx)"
    and "set_run_status st s e = Inr (s', fx) \<Longrightarrow> set_run_status st s' e = Inr (s', fx)"
  by (auto simp: workflow_run_started_def workflow_phase_completed_def workflow_run_completed_def
      set_run_status_def with_workflow_def wf_state_workflow_id [OF assms]
      elim!: bindE_InrE split: option.splits)

lemma registrations_twice:
  "intent_created s e = Inr (s', fx) \<Longrightarrow> intent_created s' e = Inr (s', fx)"
  "tool_registered s e = Inr (s', fx) \<Longrightarrow> tool_registered s' e = Inr (s', fx)"
  by (auto simp: intent_created_def tool_registered_def filed_idem elim!: bindE_InrE)

lemma handler_twice:
  assumes "dget handlers t = Some h" and "h s e = Inr (s', fx)" and "wf_state s"
  shows "h s' e = Inr (s', fx)"
  using assms(1)
proof (cases rule: handlers_get_cases)
  case 1
  with assms(2) registrations_twice(1) show ?thesis by blast
next
  case 2
  with assms(2,3) intent_status_changed_twice show ?thesis by blast
next
  case 3
  with assms(2) workflow_handlers_twice(1) [OF assms(3)] show ?thesis by blast
next
  case 4
  with assms(2) workflow_handlers_twice(2) [OF assms(3)] show ?thesis by blast
next
  case 5
  with assms(2) workflow_handlers_twice(3) [OF assms(3)] show ?thesis by blast
next
  case 6
  with assms(2) workflow_handlers_twice(4) [OF assms(3)] show ?thesis by blast
next
  case 7
  with assms(2) registrations_twice(2) show ?thesis by blast
qed

lemma payload_reader_errors:
  "payload_str p k d \<noteq> Inl (UnknownEventErr t)"
  "payload_optional_str p k d \<noteq> Inl (UnknownEventErr t)"
  "payload_mapping p k \<noteq> Inl (UnknownEventErr t)"
  "payload_bool p k b \<noteq> Inl (UnknownEventErr t)"
  "parse_intent_status u \<noteq> Inl (UnknownEventErr t)"
  by (auto simp: payload_str_def payload_optional_str_def payload_mapping_def payload_bool_def
      parse_intent_status_def field_error_def split: option.splits pyval.splits)

lemma handler_errors:
  assumes "dget handlers t = Some h"
  shows "h s e \<noteq> Inl (UnknownEventErr u)"
  using assms
  by (cases rule: handlers_get_cases)
    (auto simp: handler_defs result_simps phase_result_def payload_reader_errors split: option.splits)

end
