(* ===== verification/Kernel_Properties.thy ===== *)
theory Kernel_Properties
  imports Kernel_Spec
begin

text \<open>
  The properties of the kernel: replay of the event log, dispatch, repeated delivery, the state
  invariant, orderly shutdown, sinks, bounded subscriptions, snapshots, damaged logs.
\<close>

definition demo_state :: app_state where
  "demo_state = app_state_create ''session'' ''run'' None None"

definition demo_event :: event where
  "demo_event = event_create ''e1'' (Fin 1) ''WorkflowRunStarted''
     [(''run_id'', PStr ''r1''), (''intent'', PStr ''fix'')] None None None"

definition demo_source :: event_source where
  "demo_source n = (''reject'', Fin 0)"

lemma loggable_demo [simp]: "loggable demo_event"
  by (simp add: demo_event_def loggable_def event_create_def event_schema_versions_def
      payload_native_def of_dict_def)

text \<open>
  C3. Replaying the log reproduces the live state: whatever the loop does with the pending events
  (apply them, refuse them, stop at a stop marker), it does not leave with an exception, and
  \<open>restore_from_log\<close> over the log it wrote returns exactly the state it holds.
\<close>

theorem kernel_replay:
  assumes "ps_persist p" and "restore_lines root_reducer s0 (ps_log p) = Some (ps_state p)"
    and "\<And>e. Some e \<in> set q \<Longrightarrow> loggable e"
  shows "\<exists>p'. finished (run_items root_reducer src q p) = Some p'
    \<and> restore_lines root_reducer s0 (ps_log p') = Some (ps_state p')"
  using kernel.run_replays [OF assms(2,1,3), of q src] by (auto simp: finished_def)

theorem kernel_replay_witness:
  "\<exists>p'. finished (run_items root_reducer demo_source [Some demo_event, None, Some demo_event]
       (processor_init demo_state True)) = Some p'
    \<and> restore_lines root_reducer demo_state (ps_log p') = Some (ps_state p')"
  by (rule kernel_replay) (auto simp: processor_init_def)

text \<open>
  Dispatch is exhaustive and disjoint: \<open>root_reducer\<close> raises \<open>UnknownEventError\<close> exactly for the
  event types that have no handler and are not declared as projections, and a declared projection
  changes nothing and asks for no effect.
\<close>

theorem kernel_dispatch:
  "(root_reducer s e = Inl (UnknownEventErr t) \<longleftrightarrow>
      t = ev_event_type e \<and> t \<notin> set reduced_event_types \<and> t \<notin> set projection_event_types)
   \<and> (ev_event_type e \<in> set projection_event_types \<longrightarrow> root_reducer s e = Inr (s, []))"
proof -
  have "dget handlers (ev_event_type e) = None \<longleftrightarrow> ev_event_type e \<notin> set reduced_event_types"
    by (simp add: reduced_event_types_def keys_def map_of_eq_None_iff)
  then show ?thesis
    using root_reducer_projection [of e s]
    by (auto simp: root_reducer_def handler_errors split: option.splits)
qed

theorem kernel_dispatch_witness:
  "root_reducer demo_state (demo_event\<lparr>ev_event_type := ''UIAdUpdate''\<rparr>) = Inr (demo_state, [])"
  using kernel_dispatch [of demo_state "demo_event\<lparr>ev_event_type := ''UIAdUpdate''\<rparr>" "[]"]
  by (simp add: projection_event_types_def)

text \<open>
  Applying an event a second time changes nothing more, so a log in which an accepted event is
  repeated replays to the same state and asks for the same effects.
\<close>

theorem kernel_event_twice:
  assumes "wf_state s" and "root_reducer s e = Inr (s', fx)"
  shows "root_reducer s' e = Inr (s', fx)"
  using assms(2)
proof (cases rule: root_reducer_cases)
  case projection
  with assms(2) show ?thesis by simp
next
  case (handled h)
  then have "h s' e = Inr (s', fx)" using assms(1) by (rule handler_twice)
  with handled(1) show ?thesis by (simp add: root_reducer_def)
qed

theorem kernel_event_twice_witness:
  "\<exists>s'. root_reducer demo_state demo_event = Inr (s', []) \<and> root_reducer s' demo_event = Inr (s', [])"
proof -
  obtain s' where s': "root_reducer demo_state demo_event = Inr (s', [])"
    by (simp add: root_reducer_def demo_event_def event_create_def handlers_def
        workflow_run_started_def payload_str_def)
  have "wf_state demo_state" by (simp add: demo_state_def)
  from kernel_event_twice [OF this s'] s' show ?thesis by blast
qed

text \<open>
  The loop keeps the state well-formed (every intent, workflow, node and tool filed once, under
  its own key) and never touches the session's identity, settings or policy.
\<close>

theorem kernel_state_invariant:
  assumes "wf_state (ps_state p)" and "finished (run_items root_reducer src q p) = Some p'"
  shows "wf_state (ps_state p') \<and> st_session_id (ps_state p') = st_session_id (ps_state p)
    \<and> st_settings (ps_state p') = st_settings (ps_state p)
    \<and> st_policy (ps_state p') = st_policy (ps_state p)"
proof (rule run_items_invariant [OF _ _ _ assms(2)])
  let ?I = "\<lambda>r. wf_state (ps_state r) \<and> st_session_id (ps_state r) = st_session_id (ps_state p)
    \<and> st_settings (ps_state r) = st_settings (ps_state p)
    \<and> st_policy (ps_state r) = st_policy (ps_state p)"
  show "?I p" using assms(1) by simp
  show "?I (r\<lparr>ps_queue := u\<rparr>) \<and> ?I (r\<lparr>ps_queue := u, ps_stop_requested := b\<rparr>)" if "?I r" for r u b
    using that by simp
  show "?I r'" if "?I r" "process_event root_reducer src e r = Running r'" for e r r'
    using that(1) process_event_conj [OF that(2)]
    by (auto dest: root_reducer_wf root_reducer_frame split: sum.splits prod.splits)
qed

theorem kernel_state_invariant_witness:
  "\<exists>p'. finished (run_items root_reducer demo_source [Some demo_event]
       (processor_init demo_state True)) = Some p' \<and> wf_state (ps_state p')"
proof -
  obtain p' where p': "finished (run_items root_reducer demo_source [Some demo_event]
       (processor_init demo_state True)) = Some p'"
    using kernel.run_replays [of demo_state "processor_init demo_state True" "[Some demo_event]"
        demo_source]
    by (auto simp: processor_init_def finished_def)
  have "wf_state (ps_state (processor_init demo_state True))"
    by (simp add: processor_init_def demo_state_def)
  from kernel_state_invariant [OF this p'] p' show ?thesis by blast
qed

text \<open>
  An orderly stop loses nothing: every event emitted before \<open>stop\<close> is processed (applied or
  refused) before the loop returns, events emitted afterwards stay queued, a second \<open>stop\<close> before
  the loop sees the marker adds none, and the processor can be stopped again afterwards.
\<close>

theorem kernel_stop_drains:
  assumes "ps_queue p = map Some es" and "\<not> ps_stop_requested p"
    and "\<And>e. e \<in> set es \<Longrightarrow> loggable e"
  shows "\<exists>p'. run red src (emit late (stop (stop p))) = Stopped p'
    \<and> ps_applied p' + ps_rejected p' = ps_applied p + ps_rejected p + length es
    \<and> ps_queue p' = [Some late] \<and> \<not> ps_stop_requested p'"
proof -
  let ?p = "emit late (stop (stop p))"
  have queue: "ps_queue ?p = map Some es @ [None, Some late]"
    and counts: "ps_applied ?p = ps_applied p" "ps_rejected ?p = ps_rejected p"
    using assms(1,2) by (simp_all add: emit_def stop_def)
  obtain p1 where "run_items red src (map Some es @ [None, Some late]) ?p
      = run_items red src [None, Some late] p1"
    "ps_applied p1 + ps_rejected p1 = ps_applied ?p + ps_rejected ?p + length es"
    using run_items_prefix [OF assms(3), of es red src "[None, Some late]" ?p] by blast
  then show ?thesis
    unfolding run_def queue using counts by simp
qed

theorem kernel_stop_drains_witness:
  "\<exists>p'. run root_reducer demo_source (emit demo_event (stop (stop
       (emit demo_event (processor_init demo_state True))))) = Stopped p'
    \<and> ps_applied p' + ps_rejected p' = 1 \<and> ps_queue p' = [Some demo_event]
    \<and> \<not> ps_stop_requested p'"
proof -
  let ?p = "emit demo_event (processor_init demo_state True)"
  have "ps_queue ?p = map Some [demo_event]" "\<not> ps_stop_requested ?p"
    by (simp_all add: emit_def processor_init_def)
  from kernel_stop_drains [OF this, of root_reducer demo_source demo_event]
  show ?thesis by (simp add: emit_def processor_init_def)
qed

text \<open>
  A sink observes exactly the events that were logged, in the order of the log: a sink
  registered once when the log was empty has seen, after any run, one event per log line, and
  each line is that event's line.
\<close>

theorem kernel_sink_sees_log:
  assumes "finished (run_items red src q p) = Some p'" and "ps_persist p"
    and "count_list (ps_sinks p) k = 1" and "ps_seen p = []" and "ps_log p = []"
  shows "map (\<lambda>(j, e). log_line_of e) (filter (\<lambda>(j, e). j = k) (ps_seen p')) = map Some (ps_log p')"
proof -
  let ?own = "\<lambda>seen. map (\<lambda>(j, e). log_line_of e) (filter (\<lambda>(j, e). j = k) seen)"
  let ?I = "\<lambda>r. ps_persist r \<and> count_list (ps_sinks r) k = 1 \<and> ?own (ps_seen r) = map Some (ps_log r)"
  have new: "?own (map (\<lambda>j. (j, e)) js) = replicate (count_list js k) (log_line_of e)" for e js
    by (induction js) auto
  have "?I p'"
  proof (rule run_items_invariant [OF _ _ _ assms(1)])
    show "?I p" using assms by simp
    show "?I (r\<lparr>ps_queue := u\<rparr>) \<and> ?I (r\<lparr>ps_queue := u, ps_stop_requested := b\<rparr>)" if "?I r" for r u b
      using that by simp
    show "?I r'" if "?I r" "process_event red src e r = Running r'" for e r r'
      using that(1) process_event_conj [OF that(2)] process_event_log [OF that(2)]
      by (auto simp: new)
  qed
  then show ?thesis by simp
qed

theorem kernel_sink_sees_log_witness:
  "\<exists>p'. finished (run_items root_reducer demo_source [Some demo_event]
       (add_sink 7 (processor_init demo_state True))) = Some p'
    \<and> map (\<lambda>(j, e). log_line_of e) (filter (\<lambda>(j, e). j = 7) (ps_seen p')) = map Some (ps_log p')"
proof -
  let ?p = "add_sink 7 (processor_init demo_state True)"
  obtain p' where p': "finished (run_items root_reducer demo_source [Some demo_event] ?p) = Some p'"
    using kernel.run_replays [of demo_state ?p "[Some demo_event]" demo_source]
    by (auto simp: processor_init_def add_sink_def finished_def)
  from kernel_sink_sees_log [OF p', of 7] p' show ?thesis
    by (auto simp: processor_init_def add_sink_def)
qed

text \<open>
  Subscriber queues never exceed their bound: with \<open>subscribe_events\<close> queues within their
  \<open>maxsize\<close>, they are within it after any run, whatever the number of events.
\<close>

theorem kernel_subscribers_bounded:
  assumes "within_capacity p" and "finished (run_items red src q p) = Some p'"
  shows "within_capacity p'"
proof (rule run_items_invariant [where I = within_capacity, OF _ _ assms(1) assms(2)])
  show "within_capacity (r\<lparr>ps_queue := u\<rparr>) \<and>
      within_capacity (r\<lparr>ps_queue := u, ps_stop_requested := b\<rparr>)" if "within_capacity r" for r u b
    using that by (simp add: within_capacity_def)
qed (rule process_event_capacity)

theorem kernel_subscribers_bounded_witness:
  "\<exists>p'. finished (run_items root_reducer demo_source [Some demo_event, Some demo_event]
       (subscribe_events 1 1 (processor_init demo_state True))) = Some p' \<and> within_capacity p'"
proof -
  let ?p = "subscribe_events 1 1 (processor_init demo_state True)"
  obtain p' where p': "finished (run_items root_reducer demo_source
      [Some demo_event, Some demo_event] ?p) = Some p'"
    using kernel.run_replays [of demo_state ?p "[Some demo_event, Some demo_event]" demo_source]
    by (auto simp: processor_init_def subscribe_events_def finished_def)
  have "within_capacity ?p"
    by (simp add: within_capacity_def processor_init_def subscribe_events_def)
  from kernel_subscribers_bounded [OF this p'] p' show ?thesis by blast
qed

text \<open>
  Snapshots are taken on schedule: with persistence on and a period of \<open>n\<close> events, the i-th
  snapshot carries the index \<open>i * n\<close>, and after any run exactly \<open>applied div n\<close> snapshots have
  been started; refused events do not count.
\<close>

theorem kernel_snapshots:
  assumes "snapshots_on_schedule n p" and "finished (run_items root_reducer src q p) = Some p'"
  shows "int (length (ps_snapshots p')) = int (ps_applied p') div n
    \<and> (\<forall>i < length (ps_snapshots p'). int (snd (ps_snapshots p' ! i)) = n * (int i + 1))"
proof -
  have sch: "snapshots_on_schedule n p'"
  proof (rule run_items_invariant [where I = "snapshots_on_schedule n", OF _ _ assms(1) assms(2)])
    show "snapshots_on_schedule n (r\<lparr>ps_queue := u\<rparr>) \<and>
        snapshots_on_schedule n (r\<lparr>ps_queue := u, ps_stop_requested := b\<rparr>)"
      if "snapshots_on_schedule n r" for r u b
      using that by (simp add: snapshots_on_schedule_def snapshot_period_def)
    show "snapshots_on_schedule n r'"
      if "snapshots_on_schedule n r" "process_event root_reducer src e r = Running r'" for e r r'
      using that(1) _ that(2) by (rule process_event_snapshots) (simp add: root_reducer_frame)
  qed
  then have "int (ps_applied p') = n * int (length (ps_snapshots p')) + ps_since_snapshot p'"
    "0 \<le> ps_since_snapshot p'" "ps_since_snapshot p' < n"
    by (simp_all add: snapshots_on_schedule_def)
  then have "int (ps_applied p') div n = int (length (ps_snapshots p'))"
    by (simp add: div_pos_pos_trivial)
  with sch show ?thesis by (simp add: snapshots_on_schedule_def)
qed

theorem kernel_snapshots_witness:
  "\<exists>p'. finished (run_items root_reducer demo_source [Some demo_event]
       (processor_init demo_state True)) = Some p'
    \<and> int (length (ps_snapshots p')) = int (ps_applied p') div 100"
proof -
  let ?p = "processor_init demo_state True"
  obtain p' where p': "finished (run_items root_reducer demo_source [Some demo_event] ?p) = Some p'"
    using kernel.run_replays [of demo_state ?p "[Some demo_event]" demo_source]
    by (auto simp: processor_init_def finished_def)
  have "snapshots_on_schedule 100 ?p"
    by (simp add: snapshots_on_schedule_def snapshot_period_def processor_init_def demo_state_def
        app_state_create_def default_settings_def)
  from kernel_snapshots [OF this p'] p' show ?thesis by blast
qed

text \<open>
  Which damaged logs can be restored: blank lines, lines that are not JSON and events that do
  not decode or are refused are skipped, so restoring fails exactly when some line is JSON but not
  an object (the \<open>AttributeError\<close> of \<open>data.get\<close> is not caught).
\<close>

theorem kernel_restore_fails_iff:
  "restore_lines red s ls = None \<longleftrightarrow> (\<exists>v. JsonOther v \<in> set ls)"
  by (induction red s ls rule: restore_lines.induct) (auto split: sum.splits)

end
