(* ===== verification/Bg_Model.thy ===== *)
theory Bg_Model
  imports Prelude
begin

text \<open>
  The records of \<open>src/agenthicc/background/model.py\<close>: the status machine of a background session
  with its transition table, the queue vocabulary, finished attempts, priority changes, launch
  specifications, and the session record with \<open>create\<close>, \<open>evolve\<close>, \<open>to_dict\<close> and
  \<open>from_mapping\<close>.
\<close>

section \<open>Vocabularies\<close>

datatype session_status =
    SQueued | SStarting | SRunning | SWaitingApproval | SWaitingInput | SRetrying | SCancelling
  | SCompleted | SFailed | SCancelled | SOrphaned | SArchived | SDeleted

fun status_value :: "session_status \<Rightarrow> string" where
  "status_value SQueued = ''queued''"
| "status_value SStarting = ''starting''"
| "status_value SRunning = ''running''"
| "status_value SWaitingApproval = ''waiting_approval''"
| "status_value SWaitingInput = ''waiting_input''"
| "status_value SRetrying = ''retrying''"
| "status_value SCancelling = ''cancelling''"
| "status_value SCompleted = ''completed''"
| "status_value SFailed = ''failed''"
| "status_value SCancelled = ''cancelled''"
| "status_value SOrphaned = ''orphaned''"
| "status_value SArchived = ''archived''"
| "status_value SDeleted = ''deleted''"

definition all_statuses :: "session_status list" where
  "all_statuses = [SQueued, SStarting, SRunning, SWaitingApproval, SWaitingInput, SRetrying,
     SCancelling, SCompleted, SFailed, SCancelled, SOrphaned, SArchived, SDeleted]"

definition status_parse :: "string \<Rightarrow> session_status option" where
  "status_parse = enum_find status_value all_statuses"

datatype mode_application_status = ModePending | ModeApplied | ModeFailed

fun mode_value :: "mode_application_status \<Rightarrow> string" where
  "mode_value ModePending = ''pending''"
| "mode_value ModeApplied = ''applied''"
| "mode_value ModeFailed = ''failed''"

definition mode_parse :: "string \<Rightarrow> mode_application_status option" where
  "mode_parse = enum_find mode_value [ModePending, ModeApplied, ModeFailed]"

datatype queue_priority = PrioUrgent | PrioNormal | PrioLow

fun priority_value :: "queue_priority \<Rightarrow> string" where
  "priority_value PrioUrgent = ''urgent''"
| "priority_value PrioNormal = ''normal''"
| "priority_value PrioLow = ''low''"

definition priority_parse :: "string \<Rightarrow> queue_priority option" where
  "priority_parse = enum_find priority_value [PrioUrgent, PrioNormal, PrioLow]"

datatype queue_dispatch_state =
    DLegacy | DPending | DClaimed | DLaunched | DStarted | DCancelled | DFailed

fun dispatch_value :: "queue_dispatch_state \<Rightarrow> string" where
  "dispatch_value DLegacy = ''legacy''"
| "dispatch_value DPending = ''pending''"
| "dispatch_value DClaimed = ''claimed''"
| "dispatch_value DLaunched = ''launched''"
| "dispatch_value DStarted = ''started''"
| "dispatch_value DCancelled = ''cancelled''"
| "dispatch_value DFailed = ''failed''"

definition dispatch_parse :: "string \<Rightarrow> queue_dispatch_state option" where
  "dispatch_parse = enum_find dispatch_value
     [DLegacy, DPending, DClaimed, DLaunched, DStarted, DCancelled, DFailed]"

interpretation status: string_enum status_value status_parse
proof
  show "status_parse (status_value x) = Some x" for x
    by (cases x) (simp_all add: status_parse_def all_statuses_def enum_find_def)
  show "status_parse s = Some x \<Longrightarrow> status_value x = s" for s x
    unfolding status_parse_def by (rule enum_find_label)
qed

interpretation mode_application: string_enum mode_value mode_parse
proof
  show "mode_parse (mode_value x) = Some x" for x
    by (cases x) (simp_all add: mode_parse_def enum_find_def)
  show "mode_parse s = Some x \<Longrightarrow> mode_value x = s" for s x
    unfolding mode_parse_def by (rule enum_find_label)
qed

interpretation priority: string_enum priority_value priority_parse
proof
  show "priority_parse (priority_value x) = Some x" for x
    by (cases x) (simp_all add: priority_parse_def enum_find_def)
  show "priority_parse s = Some x \<Longrightarrow> priority_value x = s" for s x
    unfolding priority_parse_def by (rule enum_find_label)
qed

interpretation dispatch: string_enum dispatch_value dispatch_parse
proof
  show "dispatch_parse (dispatch_value x) = Some x" for x
    by (cases x) (simp_all add: dispatch_parse_def enum_find_def)
  show "dispatch_parse s = Some x \<Longrightarrow> dispatch_value x = s" for s x
    unfolding dispatch_parse_def by (rule enum_find_label)
qed

lemmas enum_parse_simps [simp] =
  status.parse_label mode_application.parse_label priority.parse_label dispatch.parse_label

text \<open>
  \<open>_status\<close>, \<open>_mode_application_status\<close>, \<open>_queue_priority\<close>, \<open>_queue_dispatch_state\<close> on a decoded
  value: the member with that text, or the default.
\<close>

definition enum_or :: "(string \<Rightarrow> 'e option) \<Rightarrow> pyval \<Rightarrow> 'e \<Rightarrow> 'e" where
  "enum_or parse v d = (case str_of v of None \<Rightarrow> d | Some s \<Rightarrow> (case parse s of None \<Rightarrow> d | Some x \<Rightarrow> x))"

definition status_of :: "pyval \<Rightarrow> session_status" where
  "status_of v = enum_or status_parse v SFailed"

definition mode_status_of :: "pyval \<Rightarrow> mode_application_status \<Rightarrow> mode_application_status" where
  "mode_status_of v d = enum_or mode_parse v d"

definition priority_of :: "pyval \<Rightarrow> queue_priority \<Rightarrow> queue_priority" where
  "priority_of v d = enum_or priority_parse v d"

definition dispatch_of :: "pyval \<Rightarrow> queue_dispatch_state \<Rightarrow> queue_dispatch_state" where
  "dispatch_of v d = enum_or dispatch_parse v d"

lemma enum_of_value [simp]:
  "status_of (PStr (status_value a)) = a"
  "mode_status_of (PStr (mode_value b)) m = b"
  "priority_of (PStr (priority_value c)) p = c"
  "dispatch_of (PStr (dispatch_value d)) q = d"
  by (simp_all add: status_of_def mode_status_of_def priority_of_def dispatch_of_def enum_or_def)

section \<open>The status machine\<close>

definition active_statuses :: "session_status list" where
  "active_statuses =
     [SQueued, SStarting, SRunning, SWaitingApproval, SWaitingInput, SRetrying, SCancelling]"

definition terminal_statuses :: "session_status list" where
  "terminal_statuses = [SCompleted, SFailed, SCancelled, SOrphaned, SArchived, SDeleted]"

definition attempt_history_limit :: nat where
  "attempt_history_limit = 16"

fun transitions :: "session_status \<Rightarrow> session_status list" where
  "transitions SQueued = [SStarting, SCancelling, SCancelled, SOrphaned, SFailed]"
| "transitions SStarting = [SQueued, SRunning, SCancelling, SOrphaned, SFailed]"
| "transitions SRunning =
     [SWaitingApproval, SWaitingInput, SRetrying, SCancelling, SCompleted, SFailed, SOrphaned]"
| "transitions SWaitingApproval = [SRunning, SCancelling]"
| "transitions SWaitingInput = [SRunning, SCancelling]"
| "transitions SRetrying = [SQueued, SStarting, SCancelling, SOrphaned, SFailed]"
| "transitions SCancelling = [SCancelled, SOrphaned]"
| "transitions SCompleted = [SStarting, SArchived]"
| "transitions SFailed = [SRetrying, SStarting, SArchived]"
| "transitions SCancelled = [SStarting, SArchived]"
| "transitions SOrphaned = [SStarting, SCancelling, SArchived]"
| "transitions SArchived = [SStarting, SCompleted, SFailed]"
| "transitions SDeleted = []"

definition legal_transition :: "session_status \<Rightarrow> session_status \<Rightarrow> bool" where
  "legal_transition current target \<longleftrightarrow> target \<in> set (transitions current)"

section \<open>Readers of single values\<close>

text \<open>\<open>_count\<close>, \<open>_amount\<close> and \<open>_string_tuple\<close>.\<close>

definition count_value :: "pyval \<Rightarrow> int" where
  "count_value v = (case int_of v of None \<Rightarrow> 0 | Some i \<Rightarrow> if 0 < i then i else 0)"

definition clamp_amount :: "pyfloat \<Rightarrow> pyfloat" where
  "clamp_amount f = (if is_finite f \<and> f_lt (Fin 0) f then f else Fin 0)"

definition amount_value :: "pyval \<Rightarrow> pyfloat" where
  "amount_value v = (case num_of v of None \<Rightarrow> Fin 0 | Some f \<Rightarrow> clamp_amount f)"

fun all_strs :: "pyval list \<Rightarrow> string list option" where
  "all_strs [] = Some []"
| "all_strs (v # vs) =
     (case str_of v of None \<Rightarrow> None | Some s \<Rightarrow> map_option ((#) s) (all_strs vs))"

definition string_tuple :: "pyval \<Rightarrow> string list" where
  "string_tuple v =
     (case seq_of v of
        None \<Rightarrow> []
      | Some vs \<Rightarrow> (case all_strs vs of None \<Rightarrow> [] | Some ss \<Rightarrow> ss))"

definition of_strings :: "string list \<Rightarrow> pyval" where
  "of_strings ss = PList (map PStr ss)"

lemma string_tuple_of_strings [simp]: "string_tuple (of_strings ss) = ss"
proof -
  have "all_strs (map PStr ss) = Some ss" by (induction ss) simp_all
  then show ?thesis by (simp add: string_tuple_def of_strings_def)
qed

lemma count_value_nonneg: "0 \<le> count_value v"
  by (simp add: count_value_def split: option.splits)

lemma count_value_PInt [simp]: "0 \<le> i \<Longrightarrow> count_value (PInt i) = i"
  by (simp add: count_value_def)

text \<open>The string-keyed entries of a mapping: all that \<open>value.get(name)\<close> can see.\<close>

fun text_entries :: "(pykey \<times> pyval) list \<Rightarrow> payload" where
  "text_entries [] = []"
| "text_entries ((KStr k, v) # kvs) = (k, v) # text_entries kvs"
| "text_entries ((KInt i, v) # kvs) = text_entries kvs"

fun mapping_of :: "pyval \<Rightarrow> payload option" where
  "mapping_of (PDict kvs) = Some (text_entries kvs)"
| "mapping_of _ = None"

lemma mapping_of_of_dict [simp]: "mapping_of (of_dict d) = Some d"
proof -
  have "text_entries (map (\<lambda>(k, v). (KStr k, v)) d) = d" by (induction d) auto
  then show ?thesis by (simp add: of_dict_def)
qed

definition bounded_text :: "nat \<Rightarrow> pyval \<Rightarrow> string" where
  "bounded_text n v = (case str_of v of None \<Rightarrow> [] | Some s \<Rightarrow> take n s)"

definition bounded_opt :: "nat \<Rightarrow> pyval \<Rightarrow> string option" where
  "bounded_opt n v = map_option (take n) (str_of v)"

lemma bounded_simps [simp]:
  "bounded_text n (PStr s) = take n s" "bounded_opt n (PStr s) = Some (take n s)"
  "bounded_opt n PNone = None" "bounded_text n PNone = []"
  by (simp_all add: bounded_text_def bounded_opt_def)

lemma bounded_opt_of_opt [simp]: "bounded_opt n (of_opt_str x) = map_option (take n) x"
  by (cases x) simp_all

lemma of_opt_readers [simp]:
  "str_of (of_opt_str x) = x" "num_of (of_opt_float f) = f" "int_of (of_opt_int i) = i"
  "bool_of (of_opt_bool b) = b"
  by (simp_all add: of_opt_str_def of_opt_float_def of_opt_int_def of_opt_bool_def
      split: option.splits)

text \<open>\<open>bool(value)\<close> and \<open>str(value)\<close>; \<open>ft\<close> gives the text of a float.\<close>

fun truthy :: "pyval \<Rightarrow> bool" where
  "truthy PNone = False"
| "truthy (PBool b) = b"
| "truthy (PInt i) = (i \<noteq> 0)"
| "truthy (PFloat f) = (f \<noteq> Fin 0)"
| "truthy (PStr s) = (s \<noteq> [])"
| "truthy (PList xs) = (xs \<noteq> [])"
| "truthy (PTuple xs) = (xs \<noteq> [])"
| "truthy (PSet xs) = (xs \<noteq> [])"
| "truthy (PDict kvs) = (kvs \<noteq> [])"

fun repr_val :: "(pyfloat \<Rightarrow> string) \<Rightarrow> pyval \<Rightarrow> string" where
  "repr_val ft PNone = ''None''"
| "repr_val ft (PBool b) = (if b then ''True'' else ''False'')"
| "repr_val ft (PInt i) = int_text i"
| "repr_val ft (PFloat f) = ft f"
| "repr_val ft (PStr s) = py_repr s"
| "repr_val ft (PList xs) = ''['' @ join '', '' (map (repr_val ft) xs) @ '']''"
| "repr_val ft (PTuple xs) =
     ''('' @ join '', '' (map (repr_val ft) xs) @ (if length xs = 1 then '',)'' else '')'')"
| "repr_val ft (PSet xs) =
     (if xs = [] then ''set()'' else ''{'' @ join '', '' (map (repr_val ft) xs) @ ''}'')"
| "repr_val ft (PDict kvs) =
     ''{'' @ join '', '' (map (\<lambda>(k, v). (case k of KStr s \<Rightarrow> py_repr s | KInt i \<Rightarrow> int_text i)
       @ '': '' @ repr_val ft v) kvs) @ ''}''"

definition py_str :: "(pyfloat \<Rightarrow> string) \<Rightarrow> pyval \<Rightarrow> string" where
  "py_str ft v = (case v of PStr s \<Rightarrow> s | _ \<Rightarrow> repr_val ft v)"

lemma py_str_PStr [simp]: "py_str ft (PStr s) = s"
  by (simp add: py_str_def)

definition text_field :: "(pyfloat \<Rightarrow> string) \<Rightarrow> payload \<Rightarrow> string \<Rightarrow> string \<Rightarrow> string" where
  "text_field ft v k d = py_str ft (dget_or v k (PStr d))"

definition float_field :: "payload \<Rightarrow> string \<Rightarrow> pyfloat" where
  "float_field v k = (case num_of (pget v k) of None \<Rightarrow> Fin 0 | Some f \<Rightarrow> f)"

definition int_field :: "payload \<Rightarrow> string \<Rightarrow> int" where
  "int_field v k = (case int_of (pget v k) of None \<Rightarrow> 0 | Some i \<Rightarrow> i)"

section \<open>Finished attempts and priority changes\<close>

record attempt_record =
  at_attempt :: int
  at_status :: session_status
  at_started_at :: "pyfloat option"
  at_completed_at :: "pyfloat option"
  at_error :: "string option"
  at_failure_category :: string
  at_exit_reason :: string
  at_worker_exit_code :: "int option"
  at_latest_activity :: string
  at_requested_mode_name :: "string option"
  at_mode_name :: string
  at_mode_application_status :: mode_application_status
  at_mode_application_error :: string

text \<open>
  The pair of the effective mode and its application status, as \<open>from_mapping\<close> reads it: a mode
  counts only when it is attested as applied, and an applied status without a name is pending.
\<close>

definition coherent_mode :: "string \<Rightarrow> mode_application_status \<Rightarrow> string \<times> mode_application_status" where
  "coherent_mode name st =
     (if st \<noteq> ModeApplied then ([], st)
      else if name = [] then ([], ModePending)
      else (name, st))"

definition read_mode :: "payload \<Rightarrow> string \<times> mode_application_status" where
  "read_mode v =
     (let name = bounded_text 128 (pget v ''mode_name'');
          legacy = (if name \<noteq> [] then ModeApplied else ModePending)
      in coherent_mode name (mode_status_of (pget v ''mode_application_status'') legacy))"

definition attempt_from_mapping :: "payload \<Rightarrow> attempt_record" where
  "attempt_from_mapping v =
     \<lparr>at_attempt = int_field v ''attempt'',
      at_status = status_of (pget v ''status''),
      at_started_at = num_of (pget v ''started_at''),
      at_completed_at = num_of (pget v ''completed_at''),
      at_error = bounded_opt 2000 (pget v ''error''),
      at_failure_category = bounded_text 128 (pget v ''failure_category''),
      at_exit_reason = bounded_text 128 (pget v ''exit_reason''),
      at_worker_exit_code = int_of (pget v ''worker_exit_code''),
      at_latest_activity = bounded_text 512 (pget v ''latest_activity''),
      at_requested_mode_name = bounded_opt 128 (pget v ''requested_mode_name''),
      at_mode_name = fst (read_mode v),
      at_mode_application_status = snd (read_mode v),
      at_mode_application_error = bounded_text 1024 (pget v ''mode_application_error'')\<rparr>"

definition attempt_to_dict :: "attempt_record \<Rightarrow> payload" where
  "attempt_to_dict a =
     [(''attempt'', PInt (at_attempt a)),
      (''status'', PStr (status_value (at_status a))),
      (''started_at'', of_opt_float (at_started_at a)),
      (''completed_at'', of_opt_float (at_completed_at a)),
      (''error'', of_opt_str (at_error a)),
      (''failure_category'', PStr (at_failure_category a)),
      (''exit_reason'', PStr (at_exit_reason a)),
      (''worker_exit_code'', of_opt_int (at_worker_exit_code a)),
      (''latest_activity'', PStr (at_latest_activity a)),
      (''requested_mode_name'', of_opt_str (at_requested_mode_name a)),
      (''mode_name'', PStr (at_mode_name a)),
      (''mode_application_status'', PStr (mode_value (at_mode_application_status a))),
      (''mode_application_error'', PStr (at_mode_application_error a))]"

text \<open>The bounds and the mode coherence of a stored attempt.\<close>

definition mode_coherent :: "string \<Rightarrow> mode_application_status \<Rightarrow> bool" where
  "mode_coherent name st \<longleftrightarrow> (st = ModeApplied \<longleftrightarrow> name \<noteq> [])"

definition opt_bounded :: "nat \<Rightarrow> string option \<Rightarrow> bool" where
  "opt_bounded n x \<longleftrightarrow> (case x of None \<Rightarrow> True | Some s \<Rightarrow> length s \<le> n)"

definition wf_attempt :: "attempt_record \<Rightarrow> bool" where
  "wf_attempt a \<longleftrightarrow> opt_bounded 2000 (at_error a) \<and> length (at_failure_category a) \<le> 128
     \<and> length (at_exit_reason a) \<le> 128 \<and> length (at_latest_activity a) \<le> 512
     \<and> opt_bounded 128 (at_requested_mode_name a) \<and> length (at_mode_name a) \<le> 128
     \<and> length (at_mode_application_error a) \<le> 1024
     \<and> mode_coherent (at_mode_name a) (at_mode_application_status a)"

lemma coherent_mode_coherent: "mode_coherent (fst (coherent_mode n st)) (snd (coherent_mode n st))"
  by (auto simp: coherent_mode_def mode_coherent_def)

lemma coherent_mode_id: "mode_coherent n st \<Longrightarrow> coherent_mode n st = (n, st)"
  by (auto simp: coherent_mode_def mode_coherent_def)

lemma length_fst_coherent_mode: "length (fst (coherent_mode n st)) \<le> length n"
  by (simp add: coherent_mode_def)

lemma opt_bounded_take [simp]: "opt_bounded n (map_option (take n) x)"
  by (cases x) (simp_all add: opt_bounded_def)

lemma opt_bounded_id: "opt_bounded n x \<Longrightarrow> map_option (take n) x = x"
  by (cases x) (simp_all add: opt_bounded_def)

lemma length_bounded_text [simp]: "length (bounded_text n v) \<le> n"
  by (simp add: bounded_text_def split: option.splits)

lemma read_mode_bound: "length (fst (read_mode v)) \<le> 128"
  unfolding read_mode_def Let_def by (rule order_trans [OF length_fst_coherent_mode]) simp

lemma wf_attempt_from_mapping: "wf_attempt (attempt_from_mapping v)"
  by (simp add: wf_attempt_def attempt_from_mapping_def bounded_opt_def read_mode_bound)
    (simp add: read_mode_def Let_def coherent_mode_coherent)

lemma attempt_from_to_dict: "wf_attempt a \<Longrightarrow> attempt_from_mapping (attempt_to_dict a) = a"
  by (cases a) (simp add: attempt_from_mapping_def attempt_to_dict_def wf_attempt_def int_field_def
      read_mode_def coherent_mode_id opt_bounded_id)

record priority_change =
  pc_previous :: queue_priority
  pc_current :: queue_priority
  pc_changed_at :: pyfloat
  pc_changed_by :: string

definition priority_change_from_mapping :: "payload \<Rightarrow> priority_change" where
  "priority_change_from_mapping v =
     \<lparr>pc_previous = priority_of (pget v ''previous'') PrioNormal,
      pc_current = priority_of (pget v ''current'') PrioNormal,
      pc_changed_at = float_field v ''changed_at'',
      pc_changed_by = (case str_of (pget v ''changed_by'') of
          None \<Rightarrow> ''local-user'' | Some s \<Rightarrow> take 128 s)\<rparr>"

definition priority_change_to_dict :: "priority_change \<Rightarrow> payload" where
  "priority_change_to_dict c =
     [(''previous'', PStr (priority_value (pc_previous c))),
      (''current'', PStr (priority_value (pc_current c))),
      (''changed_at'', PFloat (pc_changed_at c)),
      (''changed_by'', PStr (pc_changed_by c))]"

definition wf_priority_change :: "priority_change \<Rightarrow> bool" where
  "wf_priority_change c \<longleftrightarrow> length (pc_changed_by c) \<le> 128"

lemma priority_change_from_to_dict:
  "wf_priority_change c \<Longrightarrow> priority_change_from_mapping (priority_change_to_dict c) = c"
  by (cases c) (simp add: priority_change_from_mapping_def priority_change_to_dict_def
      wf_priority_change_def float_field_def)

lemma wf_priority_change_from_mapping: "wf_priority_change (priority_change_from_mapping v)"
  by (simp add: wf_priority_change_def priority_change_from_mapping_def split: option.splits)

section \<open>Launch specifications\<close>

record launch_spec =
  ls_config_path :: "string option"
  ls_set_overrides :: "string list"
  ls_set_secret_overrides :: "string list"
  ls_skip_permissions :: bool

definition secret_variables :: "launch_spec \<Rightarrow> (string \<times> string) list" where
  "secret_variables l =
     concat (map (\<lambda>override.
        case py_partition (CHR ''='') override of
          (_, separator, name) \<Rightarrow>
            if separator \<and> py_strip name \<noteq> [] then [(py_strip name, override)] else [])
       (ls_set_secret_overrides l))"

definition launch_to_dict :: "launch_spec \<Rightarrow> payload" where
  "launch_to_dict l =
     [(''config_path'', of_opt_str (ls_config_path l)),
      (''set_overrides'', of_strings (ls_set_overrides l)),
      (''set_secret_overrides'', of_strings (ls_set_secret_overrides l)),
      (''dangerously_skip_permissions'', PBool (ls_skip_permissions l))]"

definition some_strs :: "pyval list \<Rightarrow> string list" where
  "some_strs vs = concat (map (\<lambda>v. case str_of v of None \<Rightarrow> [] | Some s \<Rightarrow> [s]) vs)"

definition strings_field :: "payload \<Rightarrow> string \<Rightarrow> string list" where
  "strings_field v k = (case seq_of (pget v k) of None \<Rightarrow> [] | Some vs \<Rightarrow> some_strs vs)"

definition launch_from_mapping :: "payload \<Rightarrow> launch_spec" where
  "launch_from_mapping v =
     \<lparr>ls_config_path = (case str_of (pget v ''config_path'') of
          None \<Rightarrow> None | Some s \<Rightarrow> if s = [] then None else Some s),
      ls_set_overrides = strings_field v ''set_overrides'',
      ls_set_secret_overrides = strings_field v ''set_secret_overrides'',
      ls_skip_permissions = (pget v ''dangerously_skip_permissions'' = PBool True)\<rparr>"

lemma some_strs_map [simp]: "some_strs (map PStr ss) = ss"
  by (induction ss) (simp_all add: some_strs_def)

lemma launch_from_to_dict:
  "ls_config_path l \<noteq> Some [] \<Longrightarrow> launch_from_mapping (launch_to_dict l) = l"
  by (cases l) (auto simp: launch_from_mapping_def launch_to_dict_def strings_field_def
      of_strings_def split: option.splits)

section \<open>The session record\<close>

record background_session =
  bs_session_id :: string
  bs_title :: string
  bs_cwd :: string
  bs_workflow_name :: string
  bs_intent :: string
  bs_status :: session_status
  bs_created_at :: pyfloat
  bs_started_at :: "pyfloat option"
  bs_last_active :: pyfloat
  bs_state_changed_at :: pyfloat
  bs_completed_at :: "pyfloat option"
  bs_provider :: string
  bs_model :: string
  bs_source :: string
  bs_current_phase :: string
  bs_phase_history :: "string list"
  bs_latest_activity :: string
  bs_error :: "string option"
  bs_failure_category :: string
  bs_cancellation_reason :: string
  bs_exit_reason :: string
  bs_resume_marker :: string
  bs_approval_request :: string
  bs_approval_decision :: "bool option"
  bs_input_request :: string
  bs_input_value :: "string option"
  bs_worker_pid :: "int option"
  bs_lease_token :: string
  bs_attempt :: int
  bs_retry_count :: int
  bs_labels :: "string list"
  bs_pinned :: bool
  bs_artifact_dir :: string
  bs_trash_dir :: string
  bs_original_artifact_dir :: string
  bs_parent_session_id :: string
  bs_role :: string
  bs_task_id :: string
  bs_worktree_id :: string
  bs_branch :: string
  bs_base_commit :: string
  bs_detached_goal :: bool
  bs_worker_started_at :: "pyfloat option"
  bs_worker_finished_at :: "pyfloat option"
  bs_worker_exit_code :: "int option"
  bs_worker_exit_reason :: string
  bs_worker_finalization_attempts :: int
  bs_worker_cleanup_error :: string
  bs_run_id :: string
  bs_delete_operation_id :: string
  bs_delete_phase :: string
  bs_delete_error :: string
  bs_delete_requested_at :: "pyfloat option"
  bs_delete_attempt :: int
  bs_mode_name :: string
  bs_attempt_started_at :: "pyfloat option"
  bs_attempt_history :: "attempt_record list"
  bs_heartbeat_stale :: bool
  bs_requested_mode_name :: "string option"
  bs_mode_application_status :: mode_application_status
  bs_mode_application_attempt :: int
  bs_mode_application_error :: string
  bs_priority :: queue_priority
  bs_idempotency_key :: string
  bs_owner_id :: string
  bs_requested_profile_name :: string
  bs_dispatch_state :: queue_dispatch_state
  bs_dispatch_token :: string
  bs_dispatch_claimed_at :: "pyfloat option"
  bs_priority_history :: "priority_change list"
  bs_approval_item_id :: string
  bs_input_item_id :: string
  bs_environment_receipts :: "string list"
  bs_tokens_in :: int
  bs_tokens_out :: int
  bs_cost_usd :: pyfloat
  bs_retried_from :: string
  bs_retried_as :: string

definition bs_default :: "string \<Rightarrow> string \<Rightarrow> string \<Rightarrow> string \<Rightarrow> string \<Rightarrow> background_session" where
  "bs_default session_id title cwd workflow_name intent =
    \<lparr>bs_session_id = session_id, bs_title = title, bs_cwd = cwd, bs_workflow_name = workflow_name,
    bs_intent = intent, bs_status = SQueued, bs_created_at = Fin 0, bs_started_at = None,
    bs_last_active = Fin 0, bs_state_changed_at = Fin 0, bs_completed_at = None,
    bs_provider = [], bs_model = [], bs_source = ''cli'', bs_current_phase = [],
    bs_phase_history = [], bs_latest_activity = ''Accepted'', bs_error = None,
    bs_failure_category = [], bs_cancellation_reason = [], bs_exit_reason = [],
    bs_resume_marker = [], bs_approval_request = [], bs_approval_decision = None,
    bs_input_request = [], bs_input_value = None, bs_worker_pid = None, bs_lease_token = [],
    bs_attempt = 0, bs_retry_count = 0, bs_labels = [], bs_pinned = False, bs_artifact_dir = [],
    bs_trash_dir = [], bs_original_artifact_dir = [], bs_parent_session_id = [], bs_role = [],
    bs_task_id = [], bs_worktree_id = [], bs_branch = [], bs_base_commit = [],
    bs_detached_goal = False, bs_worker_started_at = None, bs_worker_finished_at = None,
    bs_worker_exit_code = None, bs_worker_exit_reason = [], bs_worker_finalization_attempts = 0,
    bs_worker_cleanup_error = [], bs_run_id = [], bs_delete_operation_id = [],
    bs_delete_phase = [], bs_delete_error = [], bs_delete_requested_at = None,
    bs_delete_attempt = 0, bs_mode_name = [], bs_attempt_started_at = None,
    bs_attempt_history = [], bs_heartbeat_stale = False, bs_requested_mode_name = None,
    bs_mode_application_status = ModePending, bs_mode_application_attempt = 0,
    bs_mode_application_error = [], bs_priority = PrioNormal, bs_idempotency_key = [],
    bs_owner_id = [], bs_requested_profile_name = [], bs_dispatch_state = DLegacy,
    bs_dispatch_token = [], bs_dispatch_claimed_at = None, bs_priority_history = [],
    bs_approval_item_id = [], bs_input_item_id = [], bs_environment_receipts = [],
    bs_tokens_in = 0, bs_tokens_out = 0, bs_cost_usd = Fin 0, bs_retried_from = [],
    bs_retried_as = []\<rparr>"

text \<open>\<open>BackgroundSession.create\<close>; priorities and dispatch states are already members here.\<close>

definition bs_create ::
  "string \<Rightarrow> string \<Rightarrow> string \<Rightarrow> string \<Rightarrow> string \<Rightarrow> string \<Rightarrow> pyfloat \<Rightarrow> string \<Rightarrow> string \<Rightarrow> string
   \<Rightarrow> string \<Rightarrow> string \<Rightarrow> string \<Rightarrow> string \<Rightarrow> bool \<Rightarrow> string option \<Rightarrow> queue_priority \<Rightarrow> string
   \<Rightarrow> string \<Rightarrow> string \<Rightarrow> queue_dispatch_state \<Rightarrow> string list \<Rightarrow> background_session" where
  "bs_create session_id title cwd workflow_name intent artifact_dir now parent_session_id role
     task_id worktree_id branch base_commit run_id detached_goal requested_mode_name priority
     idempotency_key owner_id requested_profile_name dispatch_state environment_receipts =
     (bs_default session_id
        (if title \<noteq> [] then title
         else if take 80 intent \<noteq> [] then take 80 intent
         else ''Background session'')
        cwd workflow_name intent)
     \<lparr>bs_created_at := now, bs_last_active := now, bs_state_changed_at := now,
      bs_artifact_dir := artifact_dir, bs_original_artifact_dir := artifact_dir,
      bs_parent_session_id := parent_session_id, bs_run_id := run_id, bs_role := role,
      bs_detached_goal := detached_goal, bs_task_id := task_id, bs_worktree_id := worktree_id,
      bs_branch := branch, bs_base_commit := base_commit,
      bs_requested_mode_name := map_option (take 128) requested_mode_name,
      bs_mode_application_status := ModePending, bs_priority := priority,
      bs_idempotency_key := take 256 idempotency_key, bs_owner_id := take 256 owner_id,
      bs_requested_profile_name := take 128 requested_profile_name,
      bs_dispatch_state := dispatch_state,
      bs_environment_receipts := take_last 64 environment_receipts\<rparr>"

section \<open>\<open>evolve\<close>\<close>

text \<open>
  A keyword argument of \<open>evolve\<close>: a decoded value, or one of the typed members and tuples the
  store passes. A member of a \<open>str\<close> enumeration is a \<open>str\<close>; for another enumeration's class it is
  an unknown text, since its members are looked up by their upper-case names.
\<close>

datatype change =
    Plain pyval
  | StatusCh session_status
  | ModeCh mode_application_status
  | PriorityCh queue_priority
  | DispatchCh queue_dispatch_state
  | AttemptsCh "attempt_record list"
  | PrioritiesCh "priority_change list"

type_synonym changes = "change pydict"

fun ch_str :: "change \<Rightarrow> string option" where
  "ch_str (Plain v) = str_of v"
| "ch_str (StatusCh x) = Some (status_value x)"
| "ch_str (ModeCh x) = Some (mode_value x)"
| "ch_str (PriorityCh x) = Some (priority_value x)"
| "ch_str (DispatchCh x) = Some (dispatch_value x)"
| "ch_str _ = None"

fun plain_of :: "change \<Rightarrow> pyval option" where
  "plain_of (Plain v) = Some v"
| "plain_of _ = None"

definition ev_with :: "changes \<Rightarrow> string \<Rightarrow> 'a \<Rightarrow> (change \<Rightarrow> 'a) \<Rightarrow> 'a" where
  "ev_with ch k current f = (case dget ch k of None \<Rightarrow> current | Some c \<Rightarrow> f c)"

definition ev_str :: "changes \<Rightarrow> string \<Rightarrow> string \<Rightarrow> string" where
  "ev_str ch k current = ev_with ch k current
     (\<lambda>c. case ch_str c of None \<Rightarrow> current | Some s \<Rightarrow> s)"

definition ev_bounded :: "changes \<Rightarrow> string \<Rightarrow> string \<Rightarrow> nat \<Rightarrow> string" where
  "ev_bounded ch k current n = ev_with ch k (take n current)
     (\<lambda>c. case ch_str c of None \<Rightarrow> current | Some s \<Rightarrow> take n s)"

definition ch_num :: "change \<Rightarrow> pyfloat option" where
  "ch_num c = Option.bind (plain_of c) num_of"

definition ch_int :: "change \<Rightarrow> int option" where
  "ch_int c = Option.bind (plain_of c) int_of"

definition ch_bool :: "change \<Rightarrow> bool option" where
  "ch_bool c = Option.bind (plain_of c) bool_of"

definition ev_float :: "changes \<Rightarrow> string \<Rightarrow> pyfloat \<Rightarrow> pyfloat" where
  "ev_float ch k current = ev_with ch k current
     (\<lambda>c. case ch_num c of None \<Rightarrow> current | Some f \<Rightarrow> f)"

definition ev_clearable_float :: "changes \<Rightarrow> string \<Rightarrow> pyfloat option \<Rightarrow> pyfloat option" where
  "ev_clearable_float ch k current = ev_with ch k current
     (\<lambda>c. if c = Plain PNone then None else case ch_num c of None \<Rightarrow> current | Some f \<Rightarrow> Some f)"

definition ev_int :: "changes \<Rightarrow> string \<Rightarrow> int \<Rightarrow> int" where
  "ev_int ch k current = ev_with ch k current
     (\<lambda>c. case ch_int c of None \<Rightarrow> current | Some i \<Rightarrow> i)"

definition ev_opt_int :: "changes \<Rightarrow> string \<Rightarrow> int option \<Rightarrow> int option" where
  "ev_opt_int ch k current = ev_with ch k current
     (\<lambda>c. if c = Plain PNone then None else case ch_int c of None \<Rightarrow> current | Some i \<Rightarrow> Some i)"

definition ev_opt_str :: "changes \<Rightarrow> string \<Rightarrow> string option \<Rightarrow> string option" where
  "ev_opt_str ch k current = ev_with ch k current
     (\<lambda>c. if c = Plain PNone then None else case ch_str c of None \<Rightarrow> current | Some s \<Rightarrow> Some s)"

definition ev_bool :: "changes \<Rightarrow> string \<Rightarrow> bool \<Rightarrow> bool" where
  "ev_bool ch k current = ev_with ch k current
     (\<lambda>c. case ch_bool c of None \<Rightarrow> current | Some b \<Rightarrow> b)"

definition ev_opt_bool :: "changes \<Rightarrow> string \<Rightarrow> bool option \<Rightarrow> bool option" where
  "ev_opt_bool ch k current = ev_with ch k current
     (\<lambda>c. if c = Plain PNone then None else case ch_bool c of None \<Rightarrow> current | Some b \<Rightarrow> Some b)"

definition ev_strings :: "changes \<Rightarrow> string \<Rightarrow> string list \<Rightarrow> string list" where
  "ev_strings ch k current = ev_with ch k current
     (\<lambda>c. case plain_of c of None \<Rightarrow> [] | Some v \<Rightarrow> string_tuple v)"

definition ev_count :: "changes \<Rightarrow> string \<Rightarrow> int \<Rightarrow> int" where
  "ev_count ch k current = ev_with ch k (count_value (PInt current))
     (\<lambda>c. case plain_of c of None \<Rightarrow> 0 | Some v \<Rightarrow> count_value v)"

definition ev_amount :: "changes \<Rightarrow> string \<Rightarrow> pyfloat \<Rightarrow> pyfloat" where
  "ev_amount ch k current = ev_with ch k (clamp_amount current)
     (\<lambda>c. case plain_of c of None \<Rightarrow> Fin 0 | Some v \<Rightarrow> amount_value v)"

definition ev_status :: "changes \<Rightarrow> session_status \<Rightarrow> session_status" where
  "ev_status ch current = ev_with ch ''status'' current
     (\<lambda>c. case c of StatusCh x \<Rightarrow> x | Plain v \<Rightarrow> status_of v | _ \<Rightarrow> SFailed)"

definition ev_priority :: "changes \<Rightarrow> queue_priority \<Rightarrow> queue_priority" where
  "ev_priority ch current = ev_with ch ''priority'' current
     (\<lambda>c. case c of PriorityCh x \<Rightarrow> x | Plain v \<Rightarrow> priority_of v current | _ \<Rightarrow> current)"

definition ev_dispatch :: "changes \<Rightarrow> queue_dispatch_state \<Rightarrow> queue_dispatch_state" where
  "ev_dispatch ch current = ev_with ch ''dispatch_state'' current
     (\<lambda>c. case c of DispatchCh x \<Rightarrow> x | Plain v \<Rightarrow> dispatch_of v current | _ \<Rightarrow> current)"

text \<open>
  The mode rule: naming a mode without its application status is a request, never evidence, and
  only an applied status carries a mode name.
\<close>

definition ev_mode :: "changes \<Rightarrow> background_session \<Rightarrow> string \<times> mode_application_status" where
  "ev_mode ch s =
     (let name = ev_bounded ch ''mode_name'' (bs_mode_name s) 128;
          current = bs_mode_application_status s;
          given = ev_with ch ''mode_application_status'' current
            (\<lambda>c. case c of ModeCh x \<Rightarrow> x | Plain v \<Rightarrow> mode_status_of v current | _ \<Rightarrow> current);
          st = (if dget ch ''mode_name'' \<noteq> None \<and> dget ch ''mode_application_status'' = None
                   \<and> name \<noteq> bs_mode_name s
                then ModePending else given)
      in coherent_mode name st)"

definition ev_requested_mode :: "changes \<Rightarrow> background_session \<Rightarrow> string option" where
  "ev_requested_mode ch s =
     (let k = ''requested_mode_name'';
          current = (case bs_requested_mode_name s of None \<Rightarrow> [] | Some m \<Rightarrow> m)
      in case dget ch k of
           None \<Rightarrow> (if bs_requested_mode_name s = None then None else Some (ev_bounded ch k current 128))
         | Some c \<Rightarrow> (if c = Plain PNone then None else Some (ev_bounded ch k current 128)))"

definition mappings :: "pyval list \<Rightarrow> payload list" where
  "mappings vs = concat (map (\<lambda>v. case mapping_of v of None \<Rightarrow> [] | Some d \<Rightarrow> [d]) vs)"

definition ev_attempts :: "changes \<Rightarrow> background_session \<Rightarrow> attempt_record list" where
  "ev_attempts ch s = take_last attempt_history_limit (ev_with ch ''attempt_history'' (bs_attempt_history s)
     (\<lambda>c. case c of
        AttemptsCh xs \<Rightarrow> xs
      | Plain v \<Rightarrow> (case seq_of v of None \<Rightarrow> [] | Some vs \<Rightarrow> map attempt_from_mapping (mappings vs))
      | _ \<Rightarrow> []))"

definition ev_priorities :: "changes \<Rightarrow> background_session \<Rightarrow> priority_change list" where
  "ev_priorities ch s = take_last 32 (ev_with ch ''priority_history'' (bs_priority_history s)
     (\<lambda>c. case c of
        PrioritiesCh xs \<Rightarrow> xs
      | Plain v \<Rightarrow> (case seq_of v of
            None \<Rightarrow> [] | Some vs \<Rightarrow> map priority_change_from_mapping (mappings vs))
      | _ \<Rightarrow> []))"

definition bs_evolve :: "background_session \<Rightarrow> changes \<Rightarrow> background_session" where
  "bs_evolve s ch =
    \<lparr>bs_session_id = bs_session_id s, bs_title = ev_str ch ''title'' (bs_title s),
    bs_cwd = ev_str ch ''cwd'' (bs_cwd s),
    bs_workflow_name = ev_str ch ''workflow_name'' (bs_workflow_name s),
    bs_intent = ev_str ch ''intent'' (bs_intent s), bs_status = ev_status ch (bs_status s),
    bs_created_at = ev_float ch ''created_at'' (bs_created_at s),
    bs_started_at = ev_clearable_float ch ''started_at'' (bs_started_at s),
    bs_last_active = ev_float ch ''last_active'' (bs_last_active s),
    bs_state_changed_at = ev_float ch ''state_changed_at'' (bs_state_changed_at s),
    bs_completed_at = ev_clearable_float ch ''completed_at'' (bs_completed_at s),
    bs_provider = ev_str ch ''provider'' (bs_provider s),
    bs_model = ev_str ch ''model'' (bs_model s), bs_source = ev_str ch ''source'' (bs_source s),
    bs_current_phase = ev_str ch ''current_phase'' (bs_current_phase s),
    bs_phase_history = ev_strings ch ''phase_history'' (bs_phase_history s),
    bs_latest_activity = ev_str ch ''latest_activity'' (bs_latest_activity s),
    bs_error = ev_opt_str ch ''error'' (bs_error s),
    bs_failure_category = ev_str ch ''failure_category'' (bs_failure_category s),
    bs_cancellation_reason = ev_str ch ''cancellation_reason'' (bs_cancellation_reason s),
    bs_exit_reason = ev_str ch ''exit_reason'' (bs_exit_reason s),
    bs_resume_marker = ev_str ch ''resume_marker'' (bs_resume_marker s),
    bs_approval_request = ev_str ch ''approval_request'' (bs_approval_request s),
    bs_approval_decision = ev_opt_bool ch ''approval_decision'' (bs_approval_decision s),
    bs_input_request = ev_str ch ''input_request'' (bs_input_request s),
    bs_input_value = ev_opt_str ch ''input_value'' (bs_input_value s),
    bs_worker_pid = ev_opt_int ch ''worker_pid'' (bs_worker_pid s),
    bs_lease_token = ev_str ch ''lease_token'' (bs_lease_token s),
    bs_attempt = ev_int ch ''attempt'' (bs_attempt s),
    bs_retry_count = ev_int ch ''retry_count'' (bs_retry_count s),
    bs_labels = ev_strings ch ''labels'' (bs_labels s),
    bs_pinned = ev_bool ch ''pinned'' (bs_pinned s),
    bs_artifact_dir = ev_str ch ''artifact_dir'' (bs_artifact_dir s),
    bs_trash_dir = ev_str ch ''trash_dir'' (bs_trash_dir s),
    bs_original_artifact_dir = ev_str ch ''original_artifact_dir'' (bs_original_artifact_dir s),
    bs_parent_session_id = ev_str ch ''parent_session_id'' (bs_parent_session_id s),
    bs_role = ev_str ch ''role'' (bs_role s), bs_task_id = ev_str ch ''task_id'' (bs_task_id s),
    bs_worktree_id = ev_str ch ''worktree_id'' (bs_worktree_id s),
    bs_branch = ev_str ch ''branch'' (bs_branch s),
    bs_base_commit = ev_str ch ''base_commit'' (bs_base_commit s),
    bs_detached_goal = ev_bool ch ''detached_goal'' (bs_detached_goal s),
    bs_worker_started_at = ev_clearable_float ch ''worker_started_at'' (bs_worker_started_at s),
    bs_worker_finished_at = ev_clearable_float ch ''worker_finished_at'' (bs_worker_finished_at s),
    bs_worker_exit_code = ev_opt_int ch ''worker_exit_code'' (bs_worker_exit_code s),
    bs_worker_exit_reason = ev_str ch ''worker_exit_reason'' (bs_worker_exit_reason s),
    bs_worker_finalization_attempts = ev_int ch ''worker_finalization_attempts'' (bs_worker_finalization_attempts s),
    bs_worker_cleanup_error = ev_str ch ''worker_cleanup_error'' (bs_worker_cleanup_error s),
    bs_run_id = ev_str ch ''run_id'' (bs_run_id s),
    bs_delete_operation_id = ev_str ch ''delete_operation_id'' (bs_delete_operation_id s),
    bs_delete_phase = ev_str ch ''delete_phase'' (bs_delete_phase s),
    bs_delete_error = ev_str ch ''delete_error'' (bs_delete_error s),
    bs_delete_requested_at = ev_clearable_float ch ''delete_requested_at'' (bs_delete_requested_at s),
    bs_delete_attempt = ev_int ch ''delete_attempt'' (bs_delete_attempt s),
    bs_mode_name = fst (ev_mode ch s),
    bs_attempt_started_at = ev_clearable_float ch ''attempt_started_at'' (bs_attempt_started_at s),
    bs_attempt_history = ev_attempts ch s,
    bs_heartbeat_stale = ev_bool ch ''heartbeat_stale'' (bs_heartbeat_stale s),
    bs_requested_mode_name = ev_requested_mode ch s,
    bs_mode_application_status = snd (ev_mode ch s),
    bs_mode_application_attempt = ev_int ch ''mode_application_attempt'' (bs_mode_application_attempt s),
    bs_mode_application_error = ev_bounded ch ''mode_application_error'' (bs_mode_application_error s) 1024,
    bs_priority = ev_priority ch (bs_priority s),
    bs_idempotency_key = ev_bounded ch ''idempotency_key'' (bs_idempotency_key s) 256,
    bs_owner_id = ev_bounded ch ''owner_id'' (bs_owner_id s) 256,
    bs_requested_profile_name = ev_bounded ch ''requested_profile_name'' (bs_requested_profile_name s) 128,
    bs_dispatch_state = ev_dispatch ch (bs_dispatch_state s),
    bs_dispatch_token = ev_bounded ch ''dispatch_token'' (bs_dispatch_token s) 128,
    bs_dispatch_claimed_at = ev_clearable_float ch ''dispatch_claimed_at'' (bs_dispatch_claimed_at s),
    bs_priority_history = ev_priorities ch s,
    bs_approval_item_id = ev_str ch ''approval_item_id'' (bs_approval_item_id s),
    bs_input_item_id = ev_str ch ''input_item_id'' (bs_input_item_id s),
    bs_environment_receipts = take_last 64 (ev_strings ch ''environment_receipts'' (bs_environment_receipts s)),
    bs_tokens_in = ev_count ch ''tokens_in'' (bs_tokens_in s),
    bs_tokens_out = ev_count ch ''tokens_out'' (bs_tokens_out s),
    bs_cost_usd = ev_amount ch ''cost_usd'' (bs_cost_usd s),
    bs_retried_from = ev_bounded ch ''retried_from'' (bs_retried_from s) 128,
    bs_retried_as = ev_bounded ch ''retried_as'' (bs_retried_as s) 128\<rparr>"

definition bs_to_dict :: "background_session \<Rightarrow> payload" where
  "bs_to_dict s =
    [(''session_id'', PStr (bs_session_id s)),
     (''title'', PStr (bs_title s)),
     (''cwd'', PStr (bs_cwd s)),
     (''workflow_name'', PStr (bs_workflow_name s)),
     (''intent'', PStr (bs_intent s)),
     (''status'', PStr (status_value (bs_status s))),
     (''created_at'', PFloat (bs_created_at s)),
     (''started_at'', of_opt_float (bs_started_at s)),
     (''last_active'', PFloat (bs_last_active s)),
     (''state_changed_at'', PFloat (bs_state_changed_at s)),
     (''completed_at'', of_opt_float (bs_completed_at s)),
     (''provider'', PStr (bs_provider s)),
     (''model'', PStr (bs_model s)),
     (''source'', PStr (bs_source s)),
     (''current_phase'', PStr (bs_current_phase s)),
     (''phase_history'', of_strings (bs_phase_history s)),
     (''latest_activity'', PStr (bs_latest_activity s)),
     (''error'', of_opt_str (bs_error s)),
     (''failure_category'', PStr (bs_failure_category s)),
     (''cancellation_reason'', PStr (bs_cancellation_reason s)),
     (''exit_reason'', PStr (bs_exit_reason s)),
     (''resume_marker'', PStr (bs_resume_marker s)),
     (''approval_request'', PStr (bs_approval_request s)),
     (''approval_decision'', of_opt_bool (bs_approval_decision s)),
     (''approval_item_id'', PStr (bs_approval_item_id s)),
     (''input_request'', PStr (bs_input_request s)),
     (''input_value'', of_opt_str (bs_input_value s)),
     (''input_item_id'', PStr (bs_input_item_id s)),
     (''environment_receipts'', of_strings (bs_environment_receipts s)),
     (''worker_pid'', of_opt_int (bs_worker_pid s)),
     (''detached_goal'', PBool (bs_detached_goal s)),
     (''worker_started_at'', of_opt_float (bs_worker_started_at s)),
     (''worker_finished_at'', of_opt_float (bs_worker_finished_at s)),
     (''worker_exit_code'', of_opt_int (bs_worker_exit_code s)),
     (''worker_exit_reason'', PStr (bs_worker_exit_reason s)),
     (''worker_finalization_attempts'', PInt (bs_worker_finalization_attempts s)),
     (''worker_cleanup_error'', PStr (bs_worker_cleanup_error s)),
     (''lease_token'', PStr (bs_lease_token s)),
     (''attempt'', PInt (bs_attempt s)),
     (''retry_count'', PInt (bs_retry_count s)),
     (''labels'', of_strings (bs_labels s)),
     (''pinned'', PBool (bs_pinned s)),
     (''artifact_dir'', PStr (bs_artifact_dir s)),
     (''trash_dir'', PStr (bs_trash_dir s)),
     (''original_artifact_dir'', PStr (bs_original_artifact_dir s)),
     (''parent_session_id'', PStr (bs_parent_session_id s)),
     (''run_id'', PStr (bs_run_id s)),
     (''role'', PStr (bs_role s)),
     (''task_id'', PStr (bs_task_id s)),
     (''worktree_id'', PStr (bs_worktree_id s)),
     (''branch'', PStr (bs_branch s)),
     (''base_commit'', PStr (bs_base_commit s)),
     (''delete_operation_id'', PStr (bs_delete_operation_id s)),
     (''delete_phase'', PStr (bs_delete_phase s)),
     (''delete_error'', PStr (bs_delete_error s)),
     (''delete_requested_at'', of_opt_float (bs_delete_requested_at s)),
     (''delete_attempt'', PInt (bs_delete_attempt s)),
     (''mode_name'', PStr (bs_mode_name s)),
     (''attempt_started_at'', of_opt_float (bs_attempt_started_at s)),
     (''attempt_history'', PList (map (\<lambda>a. of_dict (attempt_to_dict a)) (bs_attempt_history s))),
     (''heartbeat_stale'', PBool (bs_heartbeat_stale s)),
     (''requested_mode_name'', of_opt_str (bs_requested_mode_name s)),
     (''mode_application_status'', PStr (mode_value (bs_mode_application_status s))),
     (''mode_application_attempt'', PInt (bs_mode_application_attempt s)),
     (''mode_application_error'', PStr (bs_mode_application_error s)),
     (''priority'', PStr (priority_value (bs_priority s))),
     (''idempotency_key'', PStr (bs_idempotency_key s)),
     (''owner_id'', PStr (bs_owner_id s)),
     (''requested_profile_name'', PStr (bs_requested_profile_name s)),
     (''dispatch_state'', PStr (dispatch_value (bs_dispatch_state s))),
     (''dispatch_token'', PStr (bs_dispatch_token s)),
     (''dispatch_claimed_at'', of_opt_float (bs_dispatch_claimed_at s)),
     (''priority_history'', PList (map (\<lambda>c. of_dict (priority_change_to_dict c)) (bs_priority_history s))),
     (''tokens_in'', PInt (bs_tokens_in s)),
     (''tokens_out'', PInt (bs_tokens_out s)),
     (''cost_usd'', PFloat (bs_cost_usd s)),
     (''retried_from'', PStr (bs_retried_from s)),
     (''retried_as'', PStr (bs_retried_as s))]"

text \<open>\<open>BackgroundAttempt.from_session\<close>.\<close>

definition opt_or :: "pyfloat option \<Rightarrow> pyfloat option \<Rightarrow> pyfloat option" where
  "opt_or x y = (if x = None \<or> x = Some (Fin 0) then y else x)"

definition str_or :: "string \<Rightarrow> string \<Rightarrow> string" where
  "str_or x y = (if x = [] then y else x)"

definition attempt_from_session :: "background_session \<Rightarrow> attempt_record" where
  "attempt_from_session s =
     \<lparr>at_attempt = bs_attempt s,
      at_status = bs_status s,
      at_started_at = opt_or (bs_attempt_started_at s) (bs_started_at s),
      at_completed_at = bs_completed_at s,
      at_error = bs_error s,
      at_failure_category = bs_failure_category s,
      at_exit_reason = str_or (bs_exit_reason s) (bs_worker_exit_reason s),
      at_worker_exit_code = bs_worker_exit_code s,
      at_latest_activity = bs_latest_activity s,
      at_requested_mode_name = bs_requested_mode_name s,
      at_mode_name = bs_mode_name s,
      at_mode_application_status = bs_mode_application_status s,
      at_mode_application_error = bs_mode_application_error s\<rparr>"

section \<open>Reading a record\<close>

definition read_mode_attempt :: "payload \<Rightarrow> int" where
  "read_mode_attempt v =
     (case int_of (pget v ''mode_application_attempt'') of
        Some i \<Rightarrow> i
      | None \<Rightarrow> if snd (read_mode v) = ModeApplied then int_field v ''attempt'' else 0)"

definition read_attempts :: "payload \<Rightarrow> attempt_record list" where
  "read_attempts v =
     (case seq_of (dget_or v ''attempt_history'' (PTuple [])) of
        None \<Rightarrow> []
      | Some vs \<Rightarrow> map attempt_from_mapping (mappings (take_last attempt_history_limit vs)))"

definition read_priorities :: "payload \<Rightarrow> priority_change list" where
  "read_priorities v =
     (case seq_of (dget_or v ''priority_history'' (PTuple [])) of
        None \<Rightarrow> []
      | Some vs \<Rightarrow> map priority_change_from_mapping (mappings (take_last 32 vs)))"

definition bs_from_mapping :: "(pyfloat \<Rightarrow> string) \<Rightarrow> payload \<Rightarrow> string + background_session" where
  "bs_from_mapping ft v =
    (case str_of (pget v ''session_id'') of
       None \<Rightarrow> Inl ''background session record has no session_id''
     | Some sid \<Rightarrow>
         if sid = [] then Inl ''background session record has no session_id''
         else Inr
    \<lparr>bs_session_id = sid, bs_title = text_field ft v ''title'' ''Background session'',
    bs_cwd = text_field ft v ''cwd'' [], bs_workflow_name = text_field ft v ''workflow_name'' [],
    bs_intent = text_field ft v ''intent'' [], bs_status = status_of (pget v ''status''),
    bs_created_at = float_field v ''created_at'', bs_started_at = num_of (pget v ''started_at''),
    bs_last_active = float_field v ''last_active'',
    bs_state_changed_at = float_field v ''state_changed_at'',
    bs_completed_at = num_of (pget v ''completed_at''),
    bs_provider = text_field ft v ''provider'' [], bs_model = text_field ft v ''model'' [],
    bs_source = text_field ft v ''source'' ''cli'',
    bs_current_phase = text_field ft v ''current_phase'' [],
    bs_phase_history = string_tuple (pget v ''phase_history''),
    bs_latest_activity = text_field ft v ''latest_activity'' [],
    bs_error = str_of (pget v ''error''),
    bs_failure_category = text_field ft v ''failure_category'' [],
    bs_cancellation_reason = text_field ft v ''cancellation_reason'' [],
    bs_exit_reason = text_field ft v ''exit_reason'' [],
    bs_resume_marker = text_field ft v ''resume_marker'' [],
    bs_approval_request = text_field ft v ''approval_request'' [],
    bs_approval_decision = bool_of (pget v ''approval_decision''),
    bs_input_request = text_field ft v ''input_request'' [],
    bs_input_value = str_of (pget v ''input_value''),
    bs_worker_pid = int_of (dget_or v ''worker_pid'' (pget v ''pid'')),
    bs_lease_token = text_field ft v ''lease_token'' [], bs_attempt = int_field v ''attempt'',
    bs_retry_count = int_field v ''retry_count'', bs_labels = string_tuple (pget v ''labels''),
    bs_pinned = truthy (dget_or v ''pinned'' (PBool False)),
    bs_artifact_dir = text_field ft v ''artifact_dir'' [],
    bs_trash_dir = text_field ft v ''trash_dir'' [],
    bs_original_artifact_dir = text_field ft v ''original_artifact_dir'' [],
    bs_parent_session_id = text_field ft v ''parent_session_id'' [],
    bs_role = text_field ft v ''role'' [], bs_task_id = text_field ft v ''task_id'' [],
    bs_worktree_id = text_field ft v ''worktree_id'' [],
    bs_branch = text_field ft v ''branch'' [],
    bs_base_commit = text_field ft v ''base_commit'' [],
    bs_detached_goal = truthy (dget_or v ''detached_goal'' (PBool False)),
    bs_worker_started_at = num_of (pget v ''worker_started_at''),
    bs_worker_finished_at = num_of (pget v ''worker_finished_at''),
    bs_worker_exit_code = int_of (pget v ''worker_exit_code''),
    bs_worker_exit_reason = text_field ft v ''worker_exit_reason'' [],
    bs_worker_finalization_attempts = int_field v ''worker_finalization_attempts'',
    bs_worker_cleanup_error = text_field ft v ''worker_cleanup_error'' [],
    bs_run_id = text_field ft v ''run_id'' [],
    bs_delete_operation_id = text_field ft v ''delete_operation_id'' [],
    bs_delete_phase = text_field ft v ''delete_phase'' [],
    bs_delete_error = text_field ft v ''delete_error'' [],
    bs_delete_requested_at = num_of (pget v ''delete_requested_at''),
    bs_delete_attempt = int_field v ''delete_attempt'', bs_mode_name = fst (read_mode v),
    bs_attempt_started_at = num_of (pget v ''attempt_started_at''),
    bs_attempt_history = read_attempts v,
    bs_heartbeat_stale = truthy (dget_or v ''heartbeat_stale'' (PBool False)),
    bs_requested_mode_name = bounded_opt 128 (pget v ''requested_mode_name''),
    bs_mode_application_status = snd (read_mode v),
    bs_mode_application_attempt = read_mode_attempt v,
    bs_mode_application_error = bounded_text 1024 (pget v ''mode_application_error''),
    bs_priority = priority_of (pget v ''priority'') PrioNormal,
    bs_idempotency_key = bounded_text 256 (pget v ''idempotency_key''),
    bs_owner_id = bounded_text 256 (pget v ''owner_id''),
    bs_requested_profile_name = bounded_text 128 (pget v ''requested_profile_name''),
    bs_dispatch_state = dispatch_of (pget v ''dispatch_state'') DLegacy,
    bs_dispatch_token = bounded_text 128 (pget v ''dispatch_token''),
    bs_dispatch_claimed_at = num_of (pget v ''dispatch_claimed_at''),
    bs_priority_history = read_priorities v,
    bs_approval_item_id = text_field ft v ''approval_item_id'' [],
    bs_input_item_id = text_field ft v ''input_item_id'' [],
    bs_environment_receipts = take_last 64 (string_tuple (pget v ''environment_receipts'')),
    bs_tokens_in = count_value (pget v ''tokens_in''),
    bs_tokens_out = count_value (pget v ''tokens_out''),
    bs_cost_usd = amount_value (pget v ''cost_usd''),
    bs_retried_from = bounded_text 128 (pget v ''retried_from''),
    bs_retried_as = bounded_text 128 (pget v ''retried_as'')\<rparr>)"

section \<open>Lookups in the written record\<close>

text \<open>The field names in the order \<open>to_dict\<close> writes them.\<close>

definition bs_keys :: "string list" where
  "bs_keys =
    [''session_id'', ''title'', ''cwd'', ''workflow_name'', ''intent'', ''status'',
     ''created_at'', ''started_at'', ''last_active'', ''state_changed_at'', ''completed_at'',
     ''provider'', ''model'', ''source'', ''current_phase'', ''phase_history'',
     ''latest_activity'', ''error'', ''failure_category'', ''cancellation_reason'',
     ''exit_reason'', ''resume_marker'', ''approval_request'', ''approval_decision'',
     ''approval_item_id'', ''input_request'', ''input_value'', ''input_item_id'',
     ''environment_receipts'', ''worker_pid'', ''detached_goal'', ''worker_started_at'',
     ''worker_finished_at'', ''worker_exit_code'', ''worker_exit_reason'',
     ''worker_finalization_attempts'', ''worker_cleanup_error'', ''lease_token'', ''attempt'',
     ''retry_count'', ''labels'', ''pinned'', ''artifact_dir'', ''trash_dir'',
     ''original_artifact_dir'', ''parent_session_id'', ''run_id'', ''role'', ''task_id'',
     ''worktree_id'', ''branch'', ''base_commit'', ''delete_operation_id'', ''delete_phase'',
     ''delete_error'', ''delete_requested_at'', ''delete_attempt'', ''mode_name'',
     ''attempt_started_at'', ''attempt_history'', ''heartbeat_stale'', ''requested_mode_name'',
     ''mode_application_status'', ''mode_application_attempt'', ''mode_application_error'',
     ''priority'', ''idempotency_key'', ''owner_id'', ''requested_profile_name'',
     ''dispatch_state'', ''dispatch_token'', ''dispatch_claimed_at'', ''priority_history'',
     ''tokens_in'', ''tokens_out'', ''cost_usd'', ''retried_from'', ''retried_as'']"

lemma distinct_bs_keys: "distinct bs_keys"
  unfolding bs_keys_def by code_simp

lemma keys_bs_to_dict [simp]: "keys (bs_to_dict s) = bs_keys"
  unfolding bs_to_dict_def bs_keys_def keys_def list.map fst_conv by (rule refl)

lemma list_all_lookup:
  "distinct (keys d) \<Longrightarrow> d = e \<Longrightarrow> list_all (\<lambda>p. map_of d (fst p) = Some (snd p)) e"
  by (auto simp: list_all_iff keys_def)

lemma distinct_keys_bs_to_dict: "distinct (keys (bs_to_dict s))"
  by (simp add: distinct_bs_keys)

lemmas bs_to_dict_get [simp] =
  list_all_lookup [OF distinct_keys_bs_to_dict bs_to_dict_def, unfolded list.pred_inject fst_conv snd_conv]

end
