(* ===== verification/Conversions.thy ===== *)
theory Conversions
  imports Bg_Model
begin

text \<open>
  Conversions of the values a journal line holds, the fold of a fallible step over a list, and the update of a
  dictionary by another.

  \<open>int(value)\<close> and \<open>float(value)\<close>: \<open>None\<close> is a \<open>TypeError\<close> or \<open>ValueError\<close>, an error the
  \<open>OverflowError\<close> of an infinite float. \<open>parse_int\<close> and \<open>parse_float\<close> read text. \<open>list(value)\<close> of
  what is not iterable is a \<open>TypeError\<close>; \<open>entry[key]\<close> without the key a \<open>KeyError\<close>.
\<close>

definition truncate :: "rat \<Rightarrow> int" where
  "truncate q = (if 0 \<le> q then \<lfloor>q\<rfloor> else - \<lfloor>- q\<rfloor>)"

fun conv_int :: "(string \<Rightarrow> int option) \<Rightarrow> pyval \<Rightarrow> string + int option" where
  "conv_int parse_int (PInt i) = Inr (Some i)"
| "conv_int parse_int (PBool b) = Inr (Some (if b then 1 else 0))"
| "conv_int parse_int (PStr s) = Inr (parse_int s)"
| "conv_int parse_int (PFloat (Fin q)) = Inr (Some (truncate q))"
| "conv_int parse_int (PFloat NaN) = Inr None"
| "conv_int parse_int (PFloat f) = Inl ''cannot convert float infinity to integer''"
| "conv_int parse_int v = Inr None"

fun conv_float :: "(string \<Rightarrow> pyfloat option) \<Rightarrow> pyval \<Rightarrow> pyfloat option" where
  "conv_float parse_float (PInt i) = Some (Fin (of_int i))"
| "conv_float parse_float (PBool b) = Some (Fin (if b then 1 else 0))"
| "conv_float parse_float (PFloat f) = Some f"
| "conv_float parse_float (PStr s) = parse_float s"
| "conv_float parse_float v = None"

text \<open>How text and numbers are converted to each other.\<close>

record json_text =
  jt_float :: "pyfloat \<Rightarrow> string"
  jt_parse_int :: "string \<Rightarrow> int option"
  jt_parse_float :: "string \<Rightarrow> pyfloat option"

definition key_value :: "pykey \<Rightarrow> pyval" where
  "key_value k = (case k of KStr s \<Rightarrow> PStr s | KInt i \<Rightarrow> PInt i)"

fun py_list :: "pyval \<Rightarrow> string + pyval list" where
  "py_list (PList xs) = Inr xs"
| "py_list (PTuple xs) = Inr xs"
| "py_list (PSet xs) = Inr xs"
| "py_list (PStr s) = Inr (map (\<lambda>c. PStr [c]) s)"
| "py_list (PDict kvs) = Inr (map (key_value \<circ> fst) kvs)"
| "py_list v = Inl ''TypeError''"

definition item :: "payload \<Rightarrow> string \<Rightarrow> string + pyval" where
  "item e k = (case dget e k of None \<Rightarrow> Inl ''KeyError'' | Some v \<Rightarrow> Inr v)"

fun foldE :: "('a \<Rightarrow> 's \<Rightarrow> 'e + 's) \<Rightarrow> 'a list \<Rightarrow> 's \<Rightarrow> 'e + 's" where
  "foldE f [] s = Inr s"
| "foldE f (x # xs) s = bindE (f x s) (foldE f xs)"

lemma foldE_append: "foldE f (xs @ ys) s = bindE (foldE f xs s) (foldE f ys)"
proof (induction xs arbitrary: s)
  case (Cons x xs)
  then show ?case by (cases "f x s") simp_all
qed simp

text \<open>\<open>value.update(record)\<close> of two dictionaries.\<close>

definition absorb :: "payload \<Rightarrow> payload \<Rightarrow> payload" where
  "absorb e v = map (\<lambda>(k, x). (k, dget_or e k x)) v @ filter (\<lambda>(k, x). dget v k = None) e"

lemma map_of_map_same: "map_of (map (\<lambda>(k, x). (k, f k x)) v) k = map_option (f k) (map_of v k)"
  by (induction v) auto

lemma dget_absorb: "dget (absorb e v) k = (case dget e k of Some x \<Rightarrow> Some x | None \<Rightarrow> dget v k)"
proof -
  have "map_of (filter (\<lambda>(k, x). map_of v k = None) e) k = (if map_of v k = None then map_of e k else None)"
    by (induction e) (auto split: if_splits)
  moreover have "map_of (map (\<lambda>(k, x). (k, dget_or e k x)) v) k = map_option (dget_or e k) (map_of v k)"
    by (rule map_of_map_same)
  ultimately show ?thesis
    by (cases "map_of v k") (simp_all add: absorb_def map_add_def dget_or_def split: option.split)
qed

lemma pget_absorb: "pget (absorb e v) k = (if dget e k = None then pget v k else pget e k)"
  by (simp add: pget_def dget_or_def dget_absorb split: option.split)

lemma pget_dset_key: "pget (dset k v d) k' = (if k = k' then v else pget d k')"
  by (simp add: pget_def dget_or_def)

text \<open>\<open>value == n\<close>, where \<open>True\<close> is 1.\<close>

definition same_int :: "pyval \<Rightarrow> int \<Rightarrow> bool" where
  "same_int v n \<longleftrightarrow> (case v of PBool b \<Rightarrow> n = (if b then 1 else 0) | _ \<Rightarrow> num_of v = Some (Fin (of_int n)))"

lemma same_int_PInt [simp]: "same_int (PInt i) n \<longleftrightarrow> i = n"
  by (auto simp: same_int_def)

end
