(* ===== verification/Broker.thy ===== *)
theory Broker
  imports Conversions
begin

text \<open>
  The message broker of a subagent pool (\<open>src/agenthicc/subagents/communication.py\<close>): members,
  envelopes, mailboxes, questions to the parent and between workers, and the broker a restart
  rebuilds from the journal.

  A worker and a message are named by text. The clock and the fresh identifier of a message are
  arguments of an operation; \<open>ft\<close> is the text of a float. The journal is the list of the lines
  \<open>agent_message_event\<close> writes, without their sequence number, which the broker never reads; a write
  that fails is swallowed by the code and leaves no line; payloads are values JSON gives back as they
  are. The two
  \<open>asyncio\<close> events are flags, and the future of a question is its state.
\<close>

section \<open>Envelopes\<close>

record envelope =
  en_message_id :: string
  en_conversation_id :: string
  en_parent_run_id :: string
  en_pool_id :: string
  en_sender :: string
  en_recipient :: string
  en_kind :: string
  en_payload :: payload
  en_reply_to :: string
  en_correlation_id :: string
  en_sequence :: int
  en_created_at :: pyfloat
  en_expires_at :: "pyfloat option"
  en_requires_response :: bool
  en_policy_revision :: string

definition envelope_to_dict :: "envelope \<Rightarrow> payload" where
  "envelope_to_dict e =
     [(''message_id'', PStr (en_message_id e)), (''conversation_id'', PStr (en_conversation_id e)),
      (''parent_run_id'', PStr (en_parent_run_id e)), (''pool_id'', PStr (en_pool_id e)),
      (''sender'', PStr (en_sender e)), (''recipient'', PStr (en_recipient e)), (''kind'', PStr (en_kind e)),
      (''payload'', of_dict (en_payload e)), (''reply_to'', PStr (en_reply_to e)),
      (''correlation_id'', PStr (en_correlation_id e)), (''sequence'', PInt (en_sequence e)),
      (''created_at'', PFloat (en_created_at e)), (''expires_at'', of_opt_float (en_expires_at e)),
      (''requires_response'', PBool (en_requires_response e)), (''policy_revision'', PStr (en_policy_revision e))]"

definition message_kinds :: "string list" where
  "message_kinds = [''status'', ''information'', ''instruction'', ''clarification_request'',
     ''clarification_response'', ''handoff'', ''error'', ''cancel'']"

text \<open>The bytes \<open>json.dumps(..., ensure_ascii=False, default=str)\<close> takes in UTF-8.\<close>

definition json_char_len :: "char \<Rightarrow> nat" where
  "json_char_len c =
     (let n = code c in
      if n = 34 \<or> n = 92 \<or> n = 8 \<or> n = 9 \<or> n = 10 \<or> n = 12 \<or> n = 13 then 2
      else if n < 32 then 6 else if n < 128 then 1 else 2)"

definition json_text_len :: "string \<Rightarrow> nat" where
  "json_text_len s = 2 + sum_list (map json_char_len s)"

definition separated :: "nat list \<Rightarrow> nat" where
  "separated ns = 2 + sum_list ns + 2 * (length ns - 1)"

fun json_len :: "(pyfloat \<Rightarrow> string) \<Rightarrow> pyval \<Rightarrow> nat" where
  "json_len ft PNone = 4"
| "json_len ft (PBool b) = (if b then 4 else 5)"
| "json_len ft (PInt i) = length (int_text i)"
| "json_len ft (PFloat f) = length (ft f)"
| "json_len ft (PStr s) = json_text_len s"
| "json_len ft (PList xs) = separated (map (json_len ft) xs)"
| "json_len ft (PTuple xs) = separated (map (json_len ft) xs)"
| "json_len ft (PSet xs) = json_text_len (repr_val ft (PSet xs))"
| "json_len ft (PDict kvs) = separated (map (\<lambda>(k, v).
     (case k of KStr s \<Rightarrow> json_text_len s | KInt i \<Rightarrow> 2 + length (int_text i)) + 2 + json_len ft v) kvs)"

section \<open>The broker\<close>

datatype fut = NoFuture | Waiting | FutureResult string | FutureError string | FutureCancelled

record message_record =
  mr_envelope :: envelope
  mr_state :: string
  mr_acknowledged :: bool
  mr_acknowledged_by :: "string set"

record question_record =
  qn_envelope :: envelope
  qn_status :: string
  qn_answer :: string
  qn_future :: fut
  qn_delivered :: bool

record broker =
  br_conversation_id :: string
  br_parent_run_id :: string
  br_pool_id :: string
  br_policy_revision :: string
  br_journal :: "payload list option"
  br_message_timeout_s :: pyfloat
  br_max_message_bytes :: int
  br_max_mailbox_messages :: int
  br_max_pending_questions :: int
  br_members :: "string list"
  br_messages :: "message_record pydict"
  br_mailboxes :: "string \<Rightarrow> string list"
  br_questions :: "question_record pydict"
  br_sequence :: "string \<Rightarrow> int"
  br_message_event :: bool
  br_pending_event :: bool
  br_closed :: bool
  br_parent_refusal :: string

definition broker_init ::
  "string \<Rightarrow> string \<Rightarrow> string \<Rightarrow> string \<Rightarrow> payload list option \<Rightarrow> pyfloat \<Rightarrow> int \<Rightarrow> int \<Rightarrow> int
   \<Rightarrow> string + broker" where
  "broker_init conversation parent_run pool revision journal timeout max_bytes max_mailbox max_questions =
     (if conversation = [] then Inl ''conversation_id is required''
      else if pool = [] then Inl ''pool_id is required''
      else if f_le timeout (Fin 0) \<or> max_bytes \<le> 0 then Inl ''communication limits must be positive''
      else Inr \<lparr>br_conversation_id = conversation, br_parent_run_id = parent_run, br_pool_id = pool,
        br_policy_revision = revision, br_journal = journal, br_message_timeout_s = timeout,
        br_max_message_bytes = max_bytes, br_max_mailbox_messages = max_mailbox, br_max_pending_questions = max_questions,
        br_members = [''main''], br_messages = [], br_mailboxes = (\<lambda>_. []), br_questions = [], br_sequence = (\<lambda>_. 0),
        br_message_event = False, br_pending_event = False, br_closed = False, br_parent_refusal = []\<rparr>)"

text \<open>\<open>agent_message_event\<close> of the journal, and \<open>_record\<close>.\<close>

definition agent_message_event :: "string \<Rightarrow> string \<Rightarrow> string \<Rightarrow> string \<Rightarrow> string \<Rightarrow> payload \<Rightarrow> payload" where
  "agent_message_event pool conversation parent_run revision kind p =
     [(''kind'', PStr ''agent_message_event''), (''schema_version'', PInt 1), (''pool_id'', PStr (take 128 pool)),
      (''conversation_id'', PStr (take 128 conversation)), (''parent_run_id'', PStr (take 128 parent_run)),
      (''policy_revision'', PStr (take 128 revision)), (''event_kind'', PStr (take 64 kind)), (''payload'', of_dict p)]"

definition journal_event :: "string \<Rightarrow> payload \<Rightarrow> broker \<Rightarrow> broker" where
  "journal_event kind p br =
     br\<lparr>br_journal := map_option (\<lambda>js. js @ [agent_message_event (br_pool_id br) (br_conversation_id br)
        (br_parent_run_id br) (br_policy_revision br) kind p]) (br_journal br)\<rparr>"

definition valid_identifier :: "string \<Rightarrow> string \<Rightarrow> string + unit" where
  "valid_identifier field s = guardE (s \<noteq> [] \<and> length s \<le> 256) (field @ '' must be a non-empty bounded string'')"

definition valid_sender :: "string \<Rightarrow> broker \<Rightarrow> string + unit" where
  "valid_sender s br = bindE (valid_identifier ''sender'' s) (\<lambda>_.
     guardE (s \<in> set (br_members br)) ''sender is not a member of this pool'')"

definition valid_recipient :: "string \<Rightarrow> broker \<Rightarrow> string + unit" where
  "valid_recipient s br = bindE (valid_identifier ''recipient'' s) (\<lambda>_.
     guardE (s = ''pool'' \<or> s \<in> set (br_members br)) ''recipient is not a member of this pool'')"

definition deliver_to :: "string list \<Rightarrow> string \<Rightarrow> broker \<Rightarrow> broker" where
  "deliver_to targets mid br =
     br\<lparr>br_mailboxes := (\<lambda>t. if t \<in> set targets then br_mailboxes br t @ [mid] else br_mailboxes br t)\<rparr>"

definition register_worker :: "string \<Rightarrow> broker \<Rightarrow> string + broker" where
  "register_worker w br =
     bindE (valid_identifier ''worker_id'' w) (\<lambda>_.
     bindE (guardE (w \<noteq> ''main'' \<and> w \<noteq> ''pool'') ''worker_id is reserved'') (\<lambda>_.
     bindE (guardE (\<not> br_closed br) ''pool communication is closed'') (\<lambda>_.
       let br1 = journal_event ''agent_pool_member'' [(''worker_id'', PStr w), (''state'', PStr ''registered'')]
             (br\<lparr>br_members := (if w \<in> set (br_members br) then br_members br else br_members br @ [w])\<rparr>)
       in Inr (fold (\<lambda>(mid, r) b.
            if en_recipient (mr_envelope r) \<in> {w, ''pool''} \<and> mr_state r = ''queued'' \<and> mid \<notin> set (br_mailboxes b w)
            then deliver_to [w] mid b else b) (br_messages br1) br1))))"

definition for_retry :: "string \<Rightarrow> broker \<Rightarrow> string + broker" where
  "for_retry w br =
     bindE (broker_init (br_conversation_id br) (br_parent_run_id br) (br_pool_id br) (br_policy_revision br) (br_journal br)
       (br_message_timeout_s br) (br_max_message_bytes br) (br_max_mailbox_messages br) (br_max_pending_questions br))
       (register_worker w)"

section \<open>Sending\<close>

text \<open>
  The parts of \<open>_send_locked\<close>: the members a message goes to, an earlier message with the same
  correlation, the envelope of a new message, and what sending it changes.
\<close>

definition message_targets :: "string \<Rightarrow> string \<Rightarrow> broker \<Rightarrow> string list" where
  "message_targets sender recipient br =
     (if recipient = ''pool'' then filter (\<lambda>m. m \<noteq> sender) (br_members br) else [recipient])"

definition earlier_send :: "string \<Rightarrow> string \<Rightarrow> string \<Rightarrow> string \<Rightarrow> payload \<Rightarrow> broker \<Rightarrow> envelope option" where
  "earlier_send sender recipient kind correlation p br =
     (if correlation = [] then None
      else map_option (mr_envelope \<circ> snd) (find (\<lambda>(_, r). let e = mr_envelope r in
        en_sender e = sender \<and> en_recipient e = recipient \<and> en_correlation_id e = correlation
        \<and> en_kind e = kind \<and> en_payload e = p) (br_messages br)))"

definition new_envelope ::
  "pyfloat \<Rightarrow> string \<Rightarrow> string \<Rightarrow> string \<Rightarrow> string \<Rightarrow> payload \<Rightarrow> string \<Rightarrow> string \<Rightarrow> bool \<Rightarrow> pyfloat option \<Rightarrow> broker \<Rightarrow> envelope" where
  "new_envelope now uuid sender recipient kind p reply_to correlation requires_response ttl br =
     \<lparr>en_message_id = uuid, en_conversation_id = br_conversation_id br, en_parent_run_id = br_parent_run_id br,
      en_pool_id = br_pool_id br, en_sender = sender, en_recipient = recipient, en_kind = kind, en_payload = p,
      en_reply_to = reply_to, en_correlation_id = (if correlation = [] then uuid else correlation),
      en_sequence = br_sequence br sender + 1, en_created_at = now,
      en_expires_at = Some (f_add now (case ttl of None \<Rightarrow> br_message_timeout_s br | Some t \<Rightarrow> t)),
      en_requires_response = requires_response, en_policy_revision = br_policy_revision br\<rparr>"

definition post_message :: "envelope \<Rightarrow> broker \<Rightarrow> broker" where
  "post_message e br =
     journal_event ''agent_message_sent'' (envelope_to_dict e)
       ((deliver_to (message_targets (en_sender e) (en_recipient e) br) (en_message_id e)
          (br\<lparr>br_messages := dset (en_message_id e)
             \<lparr>mr_envelope = e, mr_state = ''queued'', mr_acknowledged = False, mr_acknowledged_by = {}\<rparr> (br_messages br)\<rparr>))
        \<lparr>br_sequence := (br_sequence br)(en_sender e := en_sequence e), br_message_event := True\<rparr>)"

definition send_locked ::
  "(pyfloat \<Rightarrow> string) \<Rightarrow> pyfloat \<Rightarrow> string \<Rightarrow> string \<Rightarrow> string \<Rightarrow> string \<Rightarrow> string + payload \<Rightarrow> string \<Rightarrow> string \<Rightarrow> bool
   \<Rightarrow> pyfloat option \<Rightarrow> broker \<Rightarrow> string + envelope \<times> broker" where
  "send_locked ft now uuid sender recipient kind content reply_to correlation requires_response ttl br =
     bindE (valid_sender sender br) (\<lambda>_.
     bindE (valid_recipient recipient br) (\<lambda>_.
     bindE (guardE (kind \<in> set message_kinds) (''unknown message kind: '' @ py_repr kind)) (\<lambda>_.
     let p = (case content of Inl text \<Rightarrow> [(''text'', PStr text)] | Inr d \<Rightarrow> d);
         targets = message_targets sender recipient br
     in
     bindE (guardE (int (json_len ft (of_dict p)) \<le> br_max_message_bytes br)
       ''message payload exceeds the configured byte limit'') (\<lambda>_.
     bindE (guardE (recipient = ''pool'' \<longrightarrow> targets \<noteq> []) ''pool has no recipient workers'') (\<lambda>_.
     bindE (guardE (\<forall>t \<in> set targets. int (length (br_mailboxes br t)) < br_max_mailbox_messages br)
       ''recipient mailbox is full'') (\<lambda>_.
     case earlier_send sender recipient kind correlation p br of
       Some e \<Rightarrow> Inr (e, br)
     | None \<Rightarrow>
         let e = new_envelope now uuid sender recipient kind p reply_to correlation requires_response ttl br
         in Inr (e, post_message e br)))))))"

section \<open>Receiving\<close>

definition set_message_state :: "string \<Rightarrow> string \<Rightarrow> broker \<Rightarrow> broker" where
  "set_message_state mid s br =
     (case dget (br_messages br) mid of
        None \<Rightarrow> br
      | Some r \<Rightarrow> br\<lparr>br_messages := dset mid (r\<lparr>mr_state := s\<rparr>) (br_messages br)\<rparr>)"

definition expired_at :: "pyfloat \<Rightarrow> envelope \<Rightarrow> bool" where
  "expired_at now e \<longleftrightarrow> (case en_expires_at e of None \<Rightarrow> False | Some t \<Rightarrow> f_le t now)"

text \<open>One message taken from the mailbox of the recipient, or, when that is empty, of the pool.\<close>

definition take_mail :: "string \<Rightarrow> broker \<Rightarrow> (string \<times> broker) option" where
  "take_mail recipient br =
     (case br_mailboxes br recipient of
        mid # rest \<Rightarrow> Some (mid, br\<lparr>br_mailboxes := (br_mailboxes br)(recipient := rest)\<rparr>)
      | [] \<Rightarrow> (if recipient = ''pool'' then None
               else case br_mailboxes br ''pool'' of
                 mid # rest \<Rightarrow> Some (mid, br\<lparr>br_mailboxes := (br_mailboxes br)(''pool'' := rest)\<rparr>)
               | [] \<Rightarrow> None))"

definition read_mail :: "pyfloat \<Rightarrow> string \<Rightarrow> string \<Rightarrow> broker \<Rightarrow> envelope option \<times> broker" where
  "read_mail now recipient mid br =
     (case dget (br_messages br) mid of
        None \<Rightarrow> (None, br)
      | Some r \<Rightarrow>
          if recipient \<in> mr_acknowledged_by r then (None, br)
          else if expired_at now (mr_envelope r) then (None, set_message_state mid ''expired'' br)
          else (Some (mr_envelope r), journal_event ''agent_message_delivered''
                  [(''message_id'', PStr mid), (''recipient'', PStr recipient)] (set_message_state mid ''delivered'' br)))"

definition mail_left :: "string \<Rightarrow> broker \<Rightarrow> nat" where
  "mail_left recipient br = length (br_mailboxes br recipient)
     + (if recipient = ''pool'' then 0 else length (br_mailboxes br ''pool''))"

lemma take_mail_left: "take_mail recipient br = Some (mid, br') \<Longrightarrow> mail_left recipient br' < mail_left recipient br"
  by (auto simp: take_mail_def mail_left_def split: list.splits if_splits)

lemma journal_event_simps [simp]:
  "br_mailboxes (journal_event k p br) = br_mailboxes br" "br_messages (journal_event k p br) = br_messages br"
  "br_questions (journal_event k p br) = br_questions br" "br_members (journal_event k p br) = br_members br"
  "br_max_pending_questions (journal_event k p br) = br_max_pending_questions br"
  "br_max_mailbox_messages (journal_event k p br) = br_max_mailbox_messages br"
  "br_closed (journal_event k p br) = br_closed br" "br_parent_refusal (journal_event k p br) = br_parent_refusal br"
  "br_message_timeout_s (journal_event k p br) = br_message_timeout_s br"
  "br_sequence (journal_event k p br) = br_sequence br" "br_max_message_bytes (journal_event k p br) = br_max_message_bytes br"
  "br_pool_id (journal_event k p br) = br_pool_id br" "br_conversation_id (journal_event k p br) = br_conversation_id br"
  "br_parent_run_id (journal_event k p br) = br_parent_run_id br"
  by (simp_all add: journal_event_def)

lemma set_message_state_simps [simp]:
  "br_mailboxes (set_message_state m s br) = br_mailboxes br" "br_questions (set_message_state m s br) = br_questions br"
  "br_members (set_message_state m s br) = br_members br" "br_journal (set_message_state m s br) = br_journal br"
  "br_max_pending_questions (set_message_state m s br) = br_max_pending_questions br"
  by (simp_all add: set_message_state_def split: option.split)

lemma read_mail_mailboxes [simp]: "br_mailboxes (snd (read_mail now r m br)) = br_mailboxes br"
  by (simp add: read_mail_def split: option.split)

function poll_loop :: "pyfloat \<Rightarrow> string \<Rightarrow> nat \<Rightarrow> broker \<Rightarrow> envelope list \<Rightarrow> envelope list \<times> broker" where
  "poll_loop now recipient limit br found =
     (if limit \<le> length found then (found, br)
      else case take_mail recipient br of
        None \<Rightarrow> (found, br)
      | Some (mid, br1) \<Rightarrow>
          let (e, br2) = read_mail now recipient mid br1
          in poll_loop now recipient limit br2 (case e of None \<Rightarrow> found | Some x \<Rightarrow> found @ [x]))"
  by pat_completeness auto

termination
proof (relation "measure (\<lambda>(now, recipient, limit, br, found). mail_left recipient br)", goal_cases)
  case (2 now recipient limit br found x2 mid br1 r e br2)
  have "br_mailboxes br2 = br_mailboxes br1"
    using 2 by (metis read_mail_mailboxes snd_conv)
  moreover have "mail_left recipient br1 < mail_left recipient br"
    by (rule take_mail_left[of _ _ mid]) (simp add: 2)
  ultimately show ?case by (simp only: mail_left_def in_measure case_prod_conv)
qed simp

declare poll_loop.simps [simp del]

definition poll :: "pyfloat \<Rightarrow> string \<Rightarrow> int \<Rightarrow> broker \<Rightarrow> string + envelope list \<times> broker" where
  "poll now recipient limit br =
     bindE (guardE (1 \<le> limit) ''limit must be positive'') (\<lambda>_.
     bindE (valid_recipient recipient br) (\<lambda>_.
       let (found, br1) = poll_loop now recipient (nat (min limit 64)) br []
       in Inr (found, if br_mailboxes br1 recipient = [] then br1\<lparr>br_message_event := False\<rparr> else br1)))"

definition acknowledged_record :: "string \<Rightarrow> string list \<Rightarrow> message_record \<Rightarrow> message_record" where
  "acknowledged_record recipient members r =
     (let by = insert recipient (mr_acknowledged_by r);
          owners = (if en_recipient (mr_envelope r) = ''pool'' then set members else {en_recipient (mr_envelope r)});
          ack = (owners \<subseteq> by)
      in r\<lparr>mr_acknowledged := ack, mr_acknowledged_by := by,
           mr_state := (if mr_state r \<in> {''expired'', ''rejected''} then mr_state r
                        else if ack then ''acknowledged'' else ''delivered'')\<rparr>)"

definition acknowledge :: "string \<Rightarrow> string \<Rightarrow> broker \<Rightarrow> string + string \<times> broker" where
  "acknowledge recipient mid br =
     (case dget (br_messages br) mid of
        None \<Rightarrow> Inl ''unknown message_id''
      | Some r \<Rightarrow>
          if en_recipient (mr_envelope r) \<notin> {recipient, ''pool''} then Inl ''recipient does not own this message''
          else let r' = acknowledged_record recipient (br_members br) r
               in Inr (mr_state r', journal_event ''agent_message_acknowledged''
                    [(''message_id'', PStr mid), (''recipient'', PStr recipient)]
                    (br\<lparr>br_messages := dset mid r' (br_messages br)\<rparr>)))"

definition undelivered_count :: "pyfloat \<Rightarrow> string \<Rightarrow> broker \<Rightarrow> string + nat" where
  "undelivered_count now recipient br =
     bindE (valid_recipient recipient br) (\<lambda>_.
       Inr (length (filter (\<lambda>(_, r). mr_state r \<notin> {''expired'', ''rejected''} \<and> \<not> expired_at now (mr_envelope r)
          \<and> (en_recipient (mr_envelope r) = recipient
             \<or> en_recipient (mr_envelope r) = ''pool'' \<and> recipient \<in> set (br_members br))
          \<and> recipient \<notin> mr_acknowledged_by r) (br_messages br))))"

section \<open>Questions\<close>

definition question_projection :: "broker \<Rightarrow> question_record \<Rightarrow> payload" where
  "question_projection br q =
     (let e = qn_envelope q; p = en_payload e in
      [(''question_id'', PStr (en_message_id e)), (''pool_id'', PStr (br_pool_id br)), (''worker_id'', PStr (en_sender e)),
       (''recipient'', PStr (en_recipient e)), (''status'', PStr (qn_status q)),
       (''question'', dget_or p ''question'' (PStr [])), (''context'', dget_or p ''context'' (PStr [])),
       (''expected_answer'', dget_or p ''expected_answer'' (PStr ''text'')), (''answer'', PStr (qn_answer q)),
       (''correlation_id'', PStr (en_correlation_id e)), (''expires_at'', of_opt_float (en_expires_at e))])"

definition pending_questions :: "pyfloat \<Rightarrow> string option \<Rightarrow> string option \<Rightarrow> broker \<Rightarrow> question_record list" where
  "pending_questions now recipient sender br =
     filter (\<lambda>q. qn_status q = ''pending''
       \<and> (recipient = None \<or> recipient = Some (en_recipient (qn_envelope q)))
       \<and> (sender = None \<or> sender = Some (en_sender (qn_envelope q)))
       \<and> \<not> expired_at now (qn_envelope q)) (map snd (br_questions br))"

definition open_questions :: "pyfloat \<Rightarrow> string \<Rightarrow> broker \<Rightarrow> question_record list" where
  "open_questions now sender br =
     filter (\<lambda>q. en_sender (qn_envelope q) = sender
       \<and> (qn_status q = ''pending'' \<or> qn_status q = ''answered'' \<and> \<not> qn_delivered q)
       \<and> \<not> expired_at now (qn_envelope q)) (map snd (br_questions br))"

definition finish_question :: "pyfloat \<Rightarrow> string \<Rightarrow> string \<Rightarrow> string \<Rightarrow> broker \<Rightarrow> broker" where
  "finish_question now qid answer status br =
     (case dget (br_questions br) qid of
        None \<Rightarrow> br
      | Some q \<Rightarrow>
          let q' = q\<lparr>qn_answer := answer, qn_status := status, qn_future := (if qn_future q \<noteq> Waiting then qn_future q
                     else if status = ''answered'' then FutureResult answer else FutureError (''question is '' @ status))\<rparr>;
              br1 = br\<lparr>br_questions := dset qid q' (br_questions br)\<rparr>
          in if pending_questions now (Some ''main'') None br1 = [] then br1\<lparr>br_pending_event := False\<rparr> else br1)"

definition open_question ::
  "(pyfloat \<Rightarrow> string) \<Rightarrow> pyfloat \<Rightarrow> string \<Rightarrow> string \<Rightarrow> string \<Rightarrow> string \<Rightarrow> string \<Rightarrow> string \<Rightarrow> pyfloat \<Rightarrow> broker
   \<Rightarrow> string + payload \<times> broker" where
  "open_question ft now uuid sender recipient question context_text expected timeout br =
     bindE (guardE (py_strip question \<noteq> []) ''question must not be empty'') (\<lambda>_.
     bindE (guardE (\<not> f_le timeout (Fin 0)) ''question timeout must be positive'') (\<lambda>_.
     bindE (guardE (\<not> (recipient = ''main'' \<and> br_parent_refusal br \<noteq> []))
       (''question is '' @ br_parent_refusal br @ '': the parent cannot answer while this ''
        @ ''pool runs in the background; continue with your best judgement and say what you assumed'')) (\<lambda>_.
     bindE (guardE (int (length (filter (\<lambda>q. qn_status q = ''pending'') (map snd (br_questions br)))) < br_max_pending_questions br)
       ''communication question quota exceeded'') (\<lambda>_.
     let half = nat (br_max_message_bytes br div 2) in
     bindE (send_locked ft now uuid sender recipient ''clarification_request''
       (Inr [(''question'', PStr (take half question)), (''context'', PStr (take half context_text)),
             (''expected_answer'', PStr (take 128 expected))]) [] [] True (Some timeout) br) (\<lambda>(e, br1).
     let q = \<lparr>qn_envelope = e, qn_status = ''pending'', qn_answer = [], qn_future = Waiting, qn_delivered = False\<rparr>
     in Inr (question_projection br1 q, journal_event ''question_wait_started'' (question_projection br1 q)
          (br1\<lparr>br_questions := dset (en_message_id e) q (br_questions br1), br_pending_event := True\<rparr>)))))))"

definition answer_question ::
  "pyfloat \<Rightarrow> string \<Rightarrow> string \<Rightarrow> string \<Rightarrow> broker \<Rightarrow> string + payload \<times> broker" where
  "answer_question now answerer qid answer br =
     (if py_strip answer = [] then Inl ''answer must not be empty''
      else case dget (br_questions br) qid of
        None \<Rightarrow> Inl ''unknown question_id''
      | Some q \<Rightarrow>
          if qn_status q \<noteq> ''pending'' then Inr (question_projection br q, br)
          else let expected = en_recipient (qn_envelope q); cut = take (nat (br_max_message_bytes br)) answer in
            if answerer \<noteq> expected \<and> \<not> (expected = ''pool'' \<and> answerer \<in> set (br_members br))
            then Inl ''answerer is not the question recipient''
            else let br1 = finish_question now qid cut ''answered'' br; q1 = the (dget (br_questions br1) qid)
                 in Inr (question_projection br1 q1,
                      journal_event ''question_answered'' (dset ''answer'' (PStr cut) (question_projection br1 q1)) br1))"

definition refuse_parent_questions :: "pyfloat \<Rightarrow> string \<Rightarrow> broker \<Rightarrow> nat \<times> broker" where
  "refuse_parent_questions now status br0 =
     (let br = br0\<lparr>br_parent_refusal := take 64 status\<rparr>;
          ended = filter (\<lambda>(qid, q). qn_status q = ''pending'' \<and> en_recipient (qn_envelope q) = ''main'') (br_questions br)
      in (length ended, fold (\<lambda>(qid, q) b.
            let b1 = finish_question now qid [] (take 64 status) b
            in journal_event ''question_refused'' (question_projection b1 (the (dget (br_questions b1) qid))) b1) ended br))"

definition unregister_worker :: "pyfloat \<Rightarrow> string \<Rightarrow> string \<Rightarrow> broker \<Rightarrow> broker" where
  "unregister_worker now w reason br0 =
     (let br = br0\<lparr>br_members := removeAll w (br_members br0)\<rparr>;
          lost = filter (\<lambda>(qid, q). en_sender (qn_envelope q) = w \<and> qn_status q = ''pending'') (br_questions br)
      in journal_event ''agent_pool_member'' [(''worker_id'', PStr w), (''state'', PStr ''removed'')]
           (journal_event ''agent_message_rejected'' [(''sender'', PStr w), (''reason'', PStr reason)]
             (fold (\<lambda>(qid, q). finish_question now qid [] ''orphaned'') lost br)))"

definition close_broker :: "pyfloat \<Rightarrow> broker \<Rightarrow> broker" where
  "close_broker now br0 =
     (let br = br0\<lparr>br_closed := True\<rparr>;
          open_ones = filter (\<lambda>(qid, q). qn_status q = ''pending'') (br_questions br);
          br1 = fold (\<lambda>(qid, q) b.
            let b1 = finish_question now qid [] ''cancelled'' b
            in journal_event ''question_cancelled'' (question_projection b1 (the (dget (br_questions b1) qid))) b1) open_ones br
      in br1\<lparr>br_pending_event := True, br_message_event := True\<rparr>)"

text \<open>
  \<open>wait_for_answer\<close>: what it returns at once, or the wait it begins; the wake-up with the state of the
  future; and the timeout.
\<close>

datatype wait_result = Answer string | WaitError string | Blocked

definition mark_question :: "string \<Rightarrow> (question_record \<Rightarrow> question_record) \<Rightarrow> broker \<Rightarrow> broker" where
  "mark_question qid f br =
     (case dget (br_questions br) qid of
        None \<Rightarrow> br | Some q \<Rightarrow> br\<lparr>br_questions := dset qid (f q) (br_questions br)\<rparr>)"

definition wait_begin :: "string \<Rightarrow> broker \<Rightarrow> wait_result \<times> broker" where
  "wait_begin qid br =
     (case dget (br_questions br) qid of
        None \<Rightarrow> (WaitError ''unknown question_id'', br)
      | Some q \<Rightarrow>
          if qn_status q = ''answered'' then (Answer (qn_answer q), mark_question qid (\<lambda>q. q\<lparr>qn_delivered := True\<rparr>) br)
          else if qn_status q \<noteq> ''pending'' then (WaitError (''question is '' @ qn_status q), br)
          else (Blocked, mark_question qid (\<lambda>q. q\<lparr>qn_future := (if qn_future q = NoFuture then Waiting else qn_future q)\<rparr>) br))"

definition wait_end :: "string \<Rightarrow> broker \<Rightarrow> wait_result \<times> broker" where
  "wait_end qid br =
     (case dget (br_questions br) qid of
        None \<Rightarrow> (Blocked, br)
      | Some q \<Rightarrow>
          (case qn_future q of
             FutureResult a \<Rightarrow> (Answer a, mark_question qid (\<lambda>q. q\<lparr>qn_delivered := True\<rparr>) br)
           | FutureError e \<Rightarrow> (WaitError e, br)
           | FutureCancelled \<Rightarrow> (WaitError ''cancelled'', br)
           | _ \<Rightarrow> (Blocked, br)))"

text \<open>\<open>asyncio.wait_for\<close> cancels the future it gives up on, on a timeout and when the waiting task is cancelled.\<close>

definition wait_cancel :: "string \<Rightarrow> broker \<Rightarrow> broker" where
  "wait_cancel qid br = mark_question qid (\<lambda>q. if qn_future q = Waiting then q\<lparr>qn_future := FutureCancelled\<rparr> else q) br"

definition wait_expire :: "pyfloat \<Rightarrow> string \<Rightarrow> broker \<Rightarrow> wait_result \<times> broker" where
  "wait_expire now qid br0 =
     (let br = wait_cancel qid br0 in
      case dget (br_questions br) qid of
        None \<Rightarrow> (Blocked, br)
      | Some q \<Rightarrow>
          (WaitError ''question timed out'',
           if qn_status q = ''pending''
           then let b1 = finish_question now qid [] ''expired'' br
                in journal_event ''question_timed_out'' (question_projection b1 (the (dget (br_questions b1) qid))) b1
           else br))"

section \<open>Restart\<close>

definition read_envelope :: "json_text \<Rightarrow> payload \<Rightarrow> string + envelope option" where
  "read_envelope jt p =
     (let s = (\<lambda>k. text_field (jt_float jt) p k []) in
      bindE (conv_int (jt_parse_int jt) (dget_or p ''sequence'' (PInt 0))) (\<lambda>n.
        Inr (case (n, conv_float (jt_parse_float jt) (dget_or p ''created_at'' (PFloat (Fin 0))),
                   if pget p ''expires_at'' = PNone then Some None
                   else map_option Some (conv_float (jt_parse_float jt) (pget p ''expires_at''))) of
          (Some sequence, Some created, Some expires) \<Rightarrow>
            Some \<lparr>en_message_id = s ''message_id'', en_conversation_id = s ''conversation_id'',
              en_parent_run_id = s ''parent_run_id'', en_pool_id = s ''pool_id'', en_sender = s ''sender'',
              en_recipient = s ''recipient'', en_kind = s ''kind'',
              en_payload = (case mapping_of (dget_or p ''payload'' (PDict [])) of None \<Rightarrow> [] | Some d \<Rightarrow> d),
              en_reply_to = s ''reply_to'', en_correlation_id = s ''correlation_id'', en_sequence = sequence,
              en_created_at = created, en_expires_at = expires,
              en_requires_response = truthy (dget_or p ''requires_response'' (PBool False)),
              en_policy_revision = s ''policy_revision''\<rparr>
        | _ \<Rightarrow> None)))"

definition accept_sent :: "envelope \<Rightarrow> broker \<Rightarrow> broker" where
  "accept_sent e br =
     (let targets = message_targets (en_sender e) (en_recipient e) br;
          boxes = (if en_recipient e = ''pool'' \<and> targets = [] then [''pool''] else targets)
      in (deliver_to boxes (en_message_id e) (br\<lparr>br_messages := dset (en_message_id e)
            \<lparr>mr_envelope = e, mr_state = ''queued'', mr_acknowledged = False, mr_acknowledged_by = {}\<rparr> (br_messages br)\<rparr>))
         \<lparr>br_sequence := (br_sequence br)(en_sender e := max (br_sequence br (en_sender e)) (en_sequence e))\<rparr>)"

definition rehydrate_sent :: "envelope \<Rightarrow> broker \<Rightarrow> broker" where
  "rehydrate_sent e br =
     (if en_conversation_id e \<noteq> br_conversation_id br \<or> en_parent_run_id e \<noteq> br_parent_run_id br
         \<or> en_pool_id e \<noteq> br_pool_id br
         \<or> en_sender e \<notin> set (br_members br) \<and> en_sender e \<noteq> ''main''
         \<or> en_recipient e \<noteq> ''pool'' \<and> en_recipient e \<notin> set (br_members br)
         \<or> dget (br_messages br) (en_message_id e) \<noteq> None
      then br else accept_sent e br)"

definition rehydrate_member :: "json_text \<Rightarrow> payload \<Rightarrow> broker \<Rightarrow> broker" where
  "rehydrate_member jt p br =
     (let w = text_field (jt_float jt) p ''worker_id'' [] in
      if w = [] then br
      else if pget p ''state'' = PStr ''removed'' then br\<lparr>br_members := removeAll w (br_members br)\<rparr>
      else br\<lparr>br_members := (if w \<in> set (br_members br) then br_members br else br_members br @ [w])\<rparr>)"

definition rehydrate_question :: "json_text \<Rightarrow> payload \<Rightarrow> broker \<Rightarrow> broker" where
  "rehydrate_question jt p br =
     (let qid = text_field (jt_float jt) p ''question_id'' [] in
      case dget (br_messages br) qid of
        None \<Rightarrow> br
      | Some r \<Rightarrow>
          if dget (br_questions br) qid \<noteq> None then br
          else br\<lparr>br_questions := dset qid \<lparr>qn_envelope = mr_envelope r, qn_status = ''pending'', qn_answer = [],
                 qn_future = NoFuture, qn_delivered = False\<rparr> (br_questions br)\<rparr>)"

definition rehydrate_outcome :: "json_text \<Rightarrow> string \<Rightarrow> payload \<Rightarrow> broker \<Rightarrow> broker" where
  "rehydrate_outcome jt status p br =
     (let qid = text_field (jt_float jt) p ''question_id'' [] in
      case dget (br_questions br) qid of
        None \<Rightarrow> br
      | Some q \<Rightarrow>
          if qn_status q = ''pending''
          then br\<lparr>br_questions := dset qid (q\<lparr>qn_status := status, qn_answer := text_field (jt_float jt) p ''answer'' []\<rparr>) (br_questions br)\<rparr>
          else br)"

definition rehydrate_acknowledged :: "json_text \<Rightarrow> payload \<Rightarrow> broker \<Rightarrow> broker" where
  "rehydrate_acknowledged jt p br =
     (let mid = text_field (jt_float jt) p ''message_id'' [] in
      case dget (br_messages br) mid of
        None \<Rightarrow> br
      | Some r \<Rightarrow>
          let recipient = text_field (jt_float jt) p ''recipient'' [];
              by = mr_acknowledged_by r \<union> (if recipient = [] then set (br_members br) else {recipient});
              owners = (if en_recipient (mr_envelope r) = ''pool'' then set (br_members br) else {en_recipient (mr_envelope r)});
              ack = (owners \<subseteq> by)
          in br\<lparr>br_messages := dset mid (r\<lparr>mr_acknowledged := ack, mr_acknowledged_by := by,
                 mr_state := (if ack then ''acknowledged'' else ''delivered'')\<rparr>) (br_messages br)\<rparr>)"

definition rehydrate_event :: "json_text \<Rightarrow> payload \<Rightarrow> broker \<Rightarrow> string + broker" where
  "rehydrate_event jt raw br =
     (if text_field (jt_float jt) raw ''pool_id'' [] \<noteq> br_pool_id br then Inr br
      else case mapping_of (pget raw ''payload'') of
        None \<Rightarrow> Inr br
      | Some p \<Rightarrow>
          let kind = text_field (jt_float jt) raw ''event_kind'' [] in
          if kind = ''agent_message_sent''
          then bindE (read_envelope jt p) (\<lambda>e. Inr (case e of None \<Rightarrow> br | Some e \<Rightarrow> rehydrate_sent e br))
          else if kind = ''agent_pool_member'' then Inr (rehydrate_member jt p br)
          else if kind = ''question_wait_started'' then Inr (rehydrate_question jt p br)
          else if kind = ''question_answered'' then Inr (rehydrate_outcome jt ''answered'' p br)
          else if kind = ''question_timed_out'' then Inr (rehydrate_outcome jt ''expired'' p br)
          else if kind = ''question_cancelled'' then Inr (rehydrate_outcome jt ''cancelled'' p br)
          else if kind = ''agent_message_delivered''
          then Inr (set_message_state (text_field (jt_float jt) p ''message_id'' []) ''delivered'' br)
          else if kind = ''agent_message_acknowledged'' then Inr (rehydrate_acknowledged jt p br)
          else Inr br)"

definition drop_read :: "broker \<Rightarrow> broker" where
  "drop_read br =
     br\<lparr>br_mailboxes := (\<lambda>t. fold (\<lambda>(mid, r) box.
          if mr_state r \<in> {''delivered'', ''acknowledged'', ''expired'', ''rejected''}
          then remove1 (en_message_id (mr_envelope r)) box else box) (br_messages br) (br_mailboxes br t))\<rparr>"

definition rehydrate_events :: "json_text \<Rightarrow> pyfloat \<Rightarrow> payload list \<Rightarrow> broker \<Rightarrow> string + broker" where
  "rehydrate_events jt now events br =
     bindE (foldE (rehydrate_event jt) events br) (\<lambda>br1.
       let br2 = drop_read br1
       in Inr (if pending_questions now (Some ''main'') None br2 \<noteq> [] then br2\<lparr>br_pending_event := True\<rparr> else br2))"

definition orphan_questions :: "broker \<Rightarrow> broker" where
  "orphan_questions br =
     br\<lparr>br_questions := map (\<lambda>(qid, q). (qid,
          if qn_status q = ''pending'' \<and> (en_sender (qn_envelope q) \<notin> set (br_members br)
             \<or> en_recipient (qn_envelope q) \<noteq> ''main'' \<and> en_recipient (qn_envelope q) \<notin> set (br_members br))
          then q\<lparr>qn_status := ''orphaned''\<rparr> else q)) (br_questions br)\<rparr>"

text \<open>\<open>stored\<close> is what \<open>fold_agent_message_events\<close> of the journal returns.\<close>

definition rehydrate ::
  "json_text \<Rightarrow> pyfloat \<Rightarrow> string \<Rightarrow> string \<Rightarrow> string \<Rightarrow> string \<Rightarrow> payload list option
   \<Rightarrow> payload list option \<Rightarrow> payload list \<Rightarrow> string set \<Rightarrow> string + broker" where
  "rehydrate jt now conversation parent_run pool revision journal events stored active =
     bindE (broker_init conversation parent_run pool revision journal (Fin 300) 16384 256 16) (\<lambda>br0.
     bindE (rehydrate_events jt now (case events of Some es \<Rightarrow> es | None \<Rightarrow> if journal = None then [] else stored) br0) (\<lambda>br1.
       Inr (orphan_questions (br1\<lparr>br_members := filter (\<lambda>m. m \<in> insert ''main'' active) (br_members br1)\<rparr>))))"

section \<open>The pools a conversation can reach\<close>

text \<open>\<open>PoolContinuationRegistry\<close>: a handle is its value; \<open>finished\<close> says whether its task is done.\<close>

definition finished_handles :: "('h \<Rightarrow> bool) \<Rightarrow> 'h pydict \<Rightarrow> string list" where
  "finished_handles finished hs = map fst (filter (\<lambda>(_, h). finished h) hs)"

definition register_handle :: "('h \<Rightarrow> bool) \<Rightarrow> string \<Rightarrow> 'h \<Rightarrow> 'h pydict \<Rightarrow> 'h pydict" where
  "register_handle finished pid h hs =
     (let hs1 = dset pid h (dpop pid hs); fs = finished_handles finished hs1
      in fold dpop (take (length fs - 32) fs) hs1)"

definition remove_handle :: "string \<Rightarrow> 'h pydict \<Rightarrow> 'h pydict" where
  "remove_handle pid hs = dpop pid hs"

end
