(* ===== verification/Broker_Laws.thy ===== *)
theory Broker_Laws
  imports Broker "HOL-Library.Sublist"
begin

text \<open>
  What the operations of the broker keep: the mail invariant (every recipient gets a message at most
  once, in the order of sending, and a queued message is in the mailbox of each member it is for) and
  the question invariant (a question is ended once, and its future agrees with its status).
\<close>

section \<open>What the mail of a broker looks like\<close>

definition msg_env :: "broker \<Rightarrow> string \<Rightarrow> envelope option" where
  "msg_env br mid = map_option mr_envelope (dget (br_messages br) mid)"

definition queued :: "broker \<Rightarrow> string \<Rightarrow> bool" where
  "queued br mid \<longleftrightarrow> (case dget (br_messages br) mid of None \<Rightarrow> False | Some r \<Rightarrow> mr_state r = ''queued'')"

definition addressed :: "broker \<Rightarrow> string \<Rightarrow> string \<Rightarrow> bool" where
  "addressed br t mid \<longleftrightarrow> (case msg_env br mid of None \<Rightarrow> False | Some e \<Rightarrow> en_recipient e = t \<or> en_recipient e = ''pool'')"

definition own :: "broker \<Rightarrow> string \<Rightarrow> string \<Rightarrow> bool" where
  "own br t mid \<longleftrightarrow> (case msg_env br mid of None \<Rightarrow> False | Some e \<Rightarrow> en_sender e = t)"

definition delivery_of :: "payload \<Rightarrow> (string \<times> string) option" where
  "delivery_of line =
     (if pget line ''event_kind'' = PStr ''agent_message_delivered''
      then case mapping_of (pget line ''payload'') of
             None \<Rightarrow> None
           | Some p \<Rightarrow> (case (pget p ''message_id'', pget p ''recipient'') of
               (PStr m, PStr t) \<Rightarrow> Some (m, t) | _ \<Rightarrow> None)
      else None)"

definition deliveries :: "broker \<Rightarrow> (string \<times> string) list" where
  "deliveries br = List.map_filter delivery_of (case br_journal br of None \<Rightarrow> [] | Some js \<Rightarrow> js)"

text \<open>What reached \<open>t\<close>, in order: what it has read, then what waits in its mailbox.\<close>

definition arrivals :: "broker \<Rightarrow> string \<Rightarrow> string list" where
  "arrivals br t = map fst (filter (\<lambda>(_, u). u = t) (deliveries br)) @ br_mailboxes br t"

definition mail_inv :: "broker \<Rightarrow> bool" where
  "mail_inv br \<longleftrightarrow>
     br_journal br \<noteq> None \<and> ''pool'' \<notin> set (br_members br) \<and> br_mailboxes br ''pool'' = []
     \<and> distinct (keys (br_messages br))
     \<and> (\<forall>mid e. msg_env br mid = Some e \<longrightarrow> en_message_id e = mid)
     \<and> distinct (deliveries br) \<and> (\<forall>t. distinct (br_mailboxes br t))
     \<and> (\<forall>t mid. mid \<in> set (br_mailboxes br t) \<longrightarrow> addressed br t mid \<and> (mid, t) \<notin> set (deliveries br))
     \<and> (\<forall>t mid. (mid, t) \<in> set (deliveries br) \<longrightarrow> addressed br t mid \<and> \<not> queued br mid)
     \<and> (\<forall>t. \<exists>pre suf. keys (br_messages br) = pre @ suf
          \<and> subseq (filter (\<lambda>m. \<not> own br t m) (arrivals br t)) pre
          \<and> (\<forall>m \<in> set pre. queued br m \<and> addressed br t m \<and> \<not> own br t m \<longrightarrow> m \<in> set (br_mailboxes br t))
          \<and> (t \<in> set (br_members br) \<longrightarrow> suf = []))"

lemma mail_inv_box: "mail_inv br \<Longrightarrow> distinct (br_mailboxes br t)"
  by (simp add: mail_inv_def)

lemma mail_inv_in_box:
  "mail_inv br \<Longrightarrow> m \<in> set (br_mailboxes br t) \<Longrightarrow> addressed br t m \<and> (m, t) \<notin> set (deliveries br)"
  unfolding mail_inv_def by blast

lemma mail_inv_delivered:
  "mail_inv br \<Longrightarrow> (m, t) \<in> set (deliveries br) \<Longrightarrow> addressed br t m \<and> \<not> queued br m"
  unfolding mail_inv_def by blast

lemma mail_inv_order:
  assumes "mail_inv br"
  obtains pre suf where "keys (br_messages br) = pre @ suf"
    "subseq (filter (\<lambda>m. \<not> own br t m) (arrivals br t)) pre"
    "\<forall>m \<in> set pre. queued br m \<and> addressed br t m \<and> \<not> own br t m \<longrightarrow> m \<in> set (br_mailboxes br t)"
    "t \<in> set (br_members br) \<longrightarrow> suf = []"
  using assms unfolding mail_inv_def by blast

lemma mail_inv_frame:
  assumes "mail_inv br" and "br_journal br' \<noteq> None" and "br_members br' = br_members br"
    and "br_mailboxes br' = br_mailboxes br" and "keys (br_messages br') = keys (br_messages br)"
    and "\<And>m. msg_env br' m = msg_env br m" and q: "\<And>m. queued br' m \<Longrightarrow> queued br m" and "deliveries br' = deliveries br"
  shows "mail_inv br'"
proof -
  have same: "addressed br' = addressed br" "own br' = own br" "arrivals br' = arrivals br"
    using assms by (auto simp: addressed_def own_def arrivals_def fun_eq_iff)
  show ?thesis
    using assms(1) unfolding mail_inv_def same assms(3-6,8)
    apply (simp add: assms(2))
    using q by meson
qed

lemma keys_eq_map_of: "keys d = keys d' \<Longrightarrow> (map_of d k = None) = (map_of d' k = None)"
  by (simp add: keys_def map_of_eq_None_iff flip: set_map)

section \<open>The journal\<close>

lemma pget_agent_message_event [simp]:
  "pget (agent_message_event pool c r v k p) ''event_kind'' = PStr (take 64 k)"
  "pget (agent_message_event pool c r v k p) ''payload'' = of_dict p"
  "pget (agent_message_event pool c r v k p) ''pool_id'' = PStr (take 128 pool)"
  by (simp_all add: agent_message_event_def pget_def dget_or_def)

lemma journal_event_journal [simp]: "br_journal (journal_event k p br) = None \<longleftrightarrow> br_journal br = None"
  by (simp add: journal_event_def)

lemma deliveries_journal:
  "take 64 k \<noteq> ''agent_message_delivered'' \<Longrightarrow> deliveries (journal_event k p br) = deliveries br"
  by (auto simp: deliveries_def journal_event_def delivery_of_def List.map_filter_def split: option.splits)

lemma delivery_of_delivered [simp]:
  "delivery_of (agent_message_event pool c r v ''agent_message_delivered'' [(''message_id'', PStr m), (''recipient'', PStr t)])
   = Some (m, t)"
proof -
  have "pget [(''message_id'', PStr m), (''recipient'', PStr t)] ''message_id'' = PStr m"
    "pget [(''message_id'', PStr m), (''recipient'', PStr t)] ''recipient'' = PStr t"
    by (simp_all add: pget_def dget_or_def)
  then show ?thesis by (simp add: delivery_of_def)
qed

lemma deliveries_delivered:
  "br_journal br \<noteq> None \<Longrightarrow>
   deliveries (journal_event ''agent_message_delivered'' [(''message_id'', PStr m), (''recipient'', PStr t)] br)
   = deliveries br @ [(m, t)]"
  by (auto simp: deliveries_def journal_event_def List.map_filter_def)

lemma journal_event_views [simp]:
  "msg_env (journal_event k p br) = msg_env br" "queued (journal_event k p br) = queued br"
  "addressed (journal_event k p br) = addressed br" "own (journal_event k p br) = own br"
  by (simp_all add: msg_env_def queued_def addressed_def own_def fun_eq_iff)

lemma mail_inv_journal:
  "mail_inv br \<Longrightarrow> take 64 k \<noteq> ''agent_message_delivered'' \<Longrightarrow> mail_inv (journal_event k p br)"
  by (rule mail_inv_frame[of br]) (simp_all add: deliveries_journal, simp add: mail_inv_def)

section \<open>Messages that keep their envelope\<close>

lemma keys_update_state: "dget d k = Some r \<Longrightarrow> keys (dset k v d) = keys d"
  by (metis keys_dset map_of_in_keys)

lemma mail_inv_revise:
  assumes "mail_inv br" "dget (br_messages br) mid = Some r"
    and "mr_envelope r' = mr_envelope r" "mr_state r' \<noteq> ''queued''"
  shows "mail_inv (br\<lparr>br_messages := dset mid r' (br_messages br)\<rparr>)"
proof (rule mail_inv_frame[OF assms(1)])
  show "br_journal (br\<lparr>br_messages := dset mid r' (br_messages br)\<rparr>) \<noteq> None" using assms(1) by (simp add: mail_inv_def)
qed (use assms in \<open>auto simp: keys_update_state msg_env_def queued_def deliveries_def split: if_splits\<close>)

lemma mail_inv_state:
  assumes "mail_inv br" "s \<noteq> ''queued''"
  shows "mail_inv (set_message_state mid s br)"
proof (cases "dget (br_messages br) mid")
  case None
  then show ?thesis using assms by (simp add: set_message_state_def)
next
  case (Some r)
  then show ?thesis using assms mail_inv_revise[OF assms(1) Some, of "r\<lparr>mr_state := s\<rparr>"]
    by (simp add: set_message_state_def)
qed

lemma deliveries_cong: "br_journal br' = br_journal br \<Longrightarrow> deliveries br' = deliveries br"
  by (simp add: deliveries_def)

lemma mail_inv_same:
  assumes "mail_inv br" "br_journal br' = br_journal br" "br_members br' = br_members br"
    "br_mailboxes br' = br_mailboxes br" "br_messages br' = br_messages br"
  shows "mail_inv br'"
proof (rule mail_inv_frame[OF assms(1)])
  show "br_journal br' \<noteq> None" using assms(1,2) by (simp add: mail_inv_def)
qed (use assms in \<open>simp_all add: msg_env_def queued_def deliveries_def\<close>)

section \<open>Joining and leaving\<close>

lemma mail_inv_leave:
  assumes "mail_inv br" "br_journal br' = br_journal br" "set (br_members br') \<subseteq> set (br_members br)"
    "br_mailboxes br' = br_mailboxes br" "br_messages br' = br_messages br"
  shows "mail_inv br'"
proof -
  have same: "addressed br' = addressed br" "own br' = own br" "queued br' = queued br" "msg_env br' = msg_env br"
    "deliveries br' = deliveries br" "arrivals br' = arrivals br"
    using assms by (auto simp: addressed_def own_def arrivals_def fun_eq_iff msg_env_def queued_def deliveries_def)
  show ?thesis using assms(1,3) unfolding mail_inv_def same assms(2,4,5) by blast
qed

definition adopted :: "broker \<Rightarrow> string \<Rightarrow> string list" where
  "adopted br w = filter (\<lambda>m. addressed br w m \<and> queued br m \<and> m \<notin> set (br_mailboxes br w)) (keys (br_messages br))"

definition put :: "broker \<Rightarrow> string \<Rightarrow> string list \<Rightarrow> broker" where
  "put br w ms = br\<lparr>br_mailboxes := (br_mailboxes br)(w := br_mailboxes br w @ ms)\<rparr>"

lemma put_simps [simp]:
  "put (put br w xs) w ys = put br w (xs @ ys)" "br_mailboxes (put br w xs) w = br_mailboxes br w @ xs"
  by (simp_all add: put_def)

lemma put_Nil [simp]: "put br w [] = br"
  by (simp add: put_def)

lemma deliver_to_one: "deliver_to [w] mid br = put br w [mid]"
proof -
  have "(\<lambda>t. if t \<in> set [w] then br_mailboxes br t @ [mid] else br_mailboxes br t)
      = (br_mailboxes br)(w := br_mailboxes br w @ [mid])" by auto
  then show ?thesis by (simp only: deliver_to_def put_def)
qed

abbreviation for_member :: "string \<Rightarrow> string list \<Rightarrow> string \<times> message_record \<Rightarrow> bool" where
  "for_member w box p \<equiv> en_recipient (mr_envelope (snd p)) \<in> {w, ''pool''} \<and> mr_state (snd p) = ''queued'' \<and> fst p \<notin> set box"

lemma adopt_fold:
  assumes "distinct (keys ms)"
  shows "fold (\<lambda>(mid, r) b. if en_recipient (mr_envelope r) \<in> {w, ''pool''} \<and> mr_state r = ''queued''
            \<and> mid \<notin> set (br_mailboxes b w) then deliver_to [w] mid b else b) ms br
    = put br w (map fst (filter (for_member w (br_mailboxes br w)) ms))"
  using assms unfolding deliver_to_one
proof (induction ms arbitrary: br)
  case Nil
  then show ?case by simp
next
  case (Cons p ms)
  obtain mid r where p: "p = (mid, r)" by (cases p)
  have fresh: "mid \<notin> fst ` set ms" "distinct (keys ms)" using Cons.prems p by (auto simp: keys_def)
  have other: "filter (\<lambda>p. (en_recipient (mr_envelope (snd p)) = v \<or> en_recipient (mr_envelope (snd p)) = ''pool'')
      \<and> mr_state (snd p) = ''queued'' \<and> fst p \<noteq> mid \<and> fst p \<notin> set box) ms
    = filter (\<lambda>p. (en_recipient (mr_envelope (snd p)) = v \<or> en_recipient (mr_envelope (snd p)) = ''pool'')
      \<and> mr_state (snd p) = ''queued'' \<and> fst p \<notin> set box) ms" for v box
    using fresh by (intro filter_cong) force+
  show ?case
    unfolding fold_simps comp_apply p case_prod_conv
    by (subst Cons.IH[OF fresh(2)]) (auto simp: other)
qed

lemma adopted_messages:
  assumes "distinct (keys (br_messages br))"
  shows "map fst (filter (for_member w (br_mailboxes br w)) (br_messages br)) = adopted br w"
proof -
  have "\<forall>(mid, r) \<in> set (br_messages br). dget (br_messages br) mid = Some r"
    using assms by (auto simp: keys_def)
  then have "filter (for_member w (br_mailboxes br w)) (br_messages br)
     = filter (\<lambda>(m, r). addressed br w m \<and> queued br m \<and> m \<notin> set (br_mailboxes br w)) (br_messages br)"
    by (intro filter_cong) (auto simp: addressed_def queued_def msg_env_def)
  then show ?thesis by (simp add: adopted_def keys_def filter_map comp_def case_prod_unfold)
qed

lemma mail_inv_adopt:
  assumes inv: "mail_inv br" and w: "w \<noteq> ''pool''" "w \<noteq> ''main''" 
    and j: "br_journal br' = br_journal br" and members: "set (br_members br') \<subseteq> insert w (set (br_members br))"
    and box: "br_mailboxes br' = (br_mailboxes br)(w := br_mailboxes br w @ adopted br w)"
    and ms: "br_messages br' = br_messages br"
  shows "mail_inv br'"
proof -
  have same: "addressed br' = addressed br" "own br' = own br" "queued br' = queued br" "msg_env br' = msg_env br"
    "deliveries br' = deliveries br"
    using j ms by (auto simp: addressed_def own_def fun_eq_iff msg_env_def queued_def deliveries_def)
  have arr: "arrivals br' t = (if t = w then arrivals br w @ adopted br w else arrivals br t)" for t
    using same box by (simp add: arrivals_def)
  have order: "\<exists>pre suf. keys (br_messages br) = pre @ suf
          \<and> subseq (filter (\<lambda>m. \<not> own br t m) (arrivals br' t)) pre
          \<and> (\<forall>m \<in> set pre. queued br m \<and> addressed br t m \<and> \<not> own br t m \<longrightarrow> m \<in> set (br_mailboxes br' t))
          \<and> (t \<in> set (br_members br') \<longrightarrow> suf = [])" for t
  proof -
    obtain pre suf where *: "keys (br_messages br) = pre @ suf"
        "subseq (filter (\<lambda>m. \<not> own br t m) (arrivals br t)) pre"
        "\<forall>m \<in> set pre. queued br m \<and> addressed br t m \<and> \<not> own br t m \<longrightarrow> m \<in> set (br_mailboxes br t)"
        "t \<in> set (br_members br) \<longrightarrow> suf = []"
      using mail_inv_order[OF inv, of t] .
    show ?thesis
    proof (cases "t = w")
      case False
      then have "t \<in> set (br_members br') \<longrightarrow> suf = []" "br_mailboxes br' t = br_mailboxes br t" "arrivals br' t = arrivals br t"
        using * members box arr by auto
      then show ?thesis using * by auto
    next
      case True
      let ?p = "\<lambda>m. \<not> own br w m"
      have "filter ?p (filter (\<lambda>m. addressed br w m \<and> queued br m \<and> m \<notin> set (br_mailboxes br w)) pre) = []"
        using *(3) True by (auto simp: filter_empty_conv)
      then have "filter ?p (adopted br w)
          = filter ?p (filter (\<lambda>m. addressed br w m \<and> queued br m \<and> m \<notin> set (br_mailboxes br w)) suf)"
        by (simp only: adopted_def *(1) filter_append append_Nil)
      then have "subseq (filter ?p (adopted br w)) suf" by (simp add: subseq_filter_left)
      then have "subseq (filter ?p (arrivals br' w)) (pre @ suf)"
        using *(2) True by (simp add: arr list_emb_append_mono)
      moreover have "\<forall>m \<in> set (pre @ suf). queued br m \<and> addressed br w m \<and> ?p m \<longrightarrow> m \<in> set (br_mailboxes br' w)"
        using *(1) box by (auto simp: adopted_def)
      ultimately have "subseq (filter (\<lambda>m. \<not> own br t m) (arrivals br' t)) (pre @ suf)
          \<and> (\<forall>m \<in> set (pre @ suf). queued br m \<and> addressed br t m \<and> \<not> own br t m \<longrightarrow> m \<in> set (br_mailboxes br' t))"
        using True by simp
      then show ?thesis using *(1) by (metis append_Nil2)
    qed
  qed
  have disj: "\<forall>m \<in> set (adopted br w). m \<notin> set (br_mailboxes br w) \<and> (m, w) \<notin> set (deliveries br) \<and> addressed br w m"
    using inv unfolding mail_inv_def adopted_def by auto
  have da: "distinct (adopted br w)" using inv by (simp add: mail_inv_def adopted_def)
  have d: "distinct (br_mailboxes br' t)" for t
    using inv disj da box unfolding mail_inv_def by auto
  have boxes: "mid \<in> set (br_mailboxes br' t) \<Longrightarrow> addressed br t mid \<and> (mid, t) \<notin> set (deliveries br)" for t mid
    using inv disj box unfolding mail_inv_def by (cases "t = w") auto
  show ?thesis
    using inv w d boxes order members box unfolding mail_inv_def same ms j by auto
qed

section \<open>Sending and reading\<close>

lemma mail_inv_send:
  assumes inv: "mail_inv br" and fresh: "mid \<notin> set (keys (br_messages br))"
    and r: "mr_envelope r = e" "mr_state r = ''queued''" "en_message_id e = mid"
    and known: "en_recipient e = ''pool'' \<or> en_recipient e \<in> set (br_members br)"
    and targets: "targets = (if en_recipient e = ''pool'' then filter (\<lambda>m. m \<noteq> en_sender e) (br_members br) else [en_recipient e])"
    and br1: "br1 = deliver_to targets mid (br\<lparr>br_messages := dset mid r (br_messages br)\<rparr>)"
  shows "mail_inv br1"
proof -
  have none: "msg_env br mid = None" using fresh by (simp add: msg_env_def map_of_NoneI)
  have env: "msg_env br1 = (msg_env br)(mid \<mapsto> e)" by (auto simp: msg_env_def br1 r deliver_to_def)
  have q: "queued br1 m \<longleftrightarrow> m = mid \<or> queued br m" for m
    by (auto simp: queued_def br1 r deliver_to_def)
  have ad: "addressed br1 t m \<longleftrightarrow> (if m = mid then en_recipient e = t \<or> en_recipient e = ''pool'' else addressed br t m)" for t m
    by (simp add: addressed_def env)
  have ow: "own br1 t m \<longleftrightarrow> (if m = mid then en_sender e = t else own br t m)" for t m
    by (simp add: own_def env)
  have nad: "\<not> addressed br t mid" for t by (simp add: addressed_def none)
  have del: "deliveries br1 = deliveries br" by (simp add: deliveries_def br1 deliver_to_def)
  have ks: "keys (br_messages br1) = keys (br_messages br) @ [mid]"
    using fresh by (simp add: br1 deliver_to_def dset_fresh)
  have box: "br_mailboxes br1 t = br_mailboxes br t @ (if t \<in> set targets then [mid] else [])" for t
    by (simp add: br1 deliver_to_def)
  have old: "mid \<notin> set (br_mailboxes br t)" "(mid, t) \<notin> set (deliveries br)" for t
    using inv nad unfolding mail_inv_def by blast+
  have arr: "arrivals br1 t = arrivals br t @ (if t \<in> set targets then [mid] else [])" for t
    by (simp add: arrivals_def del box)
  have same: "br_members br1 = br_members br" "br_journal br1 = br_journal br" by (simp_all add: br1 deliver_to_def)
  have tpool: "''pool'' \<notin> set targets" using inv known targets by (auto simp: mail_inv_def)
  have addr: "t \<in> set targets \<Longrightarrow> addressed br1 t mid" for t using targets by (auto simp: ad split: if_splits)
  have order: "\<exists>pre suf. keys (br_messages br1) = pre @ suf
          \<and> subseq (filter (\<lambda>m. \<not> own br1 t m) (arrivals br1 t)) pre
          \<and> (\<forall>m \<in> set pre. queued br1 m \<and> addressed br1 t m \<and> \<not> own br1 t m \<longrightarrow> m \<in> set (br_mailboxes br1 t))
          \<and> (t \<in> set (br_members br1) \<longrightarrow> suf = [])" for t
  proof -
    obtain pre suf where *: "keys (br_messages br) = pre @ suf"
        "subseq (filter (\<lambda>m. \<not> own br t m) (arrivals br t)) pre"
        "\<forall>m \<in> set pre. queued br m \<and> addressed br t m \<and> \<not> own br t m \<longrightarrow> m \<in> set (br_mailboxes br t)"
        "t \<in> set (br_members br) \<longrightarrow> suf = []"
      using mail_inv_order[OF inv, of t] .
    have nin: "mid \<notin> set pre" "mid \<notin> set (arrivals br t)" using fresh *(1) old by (auto simp: arrivals_def)
    have f: "filter (\<lambda>m. \<not> own br1 t m) (arrivals br t) = filter (\<lambda>m. \<not> own br t m) (arrivals br t)"
      by (intro filter_cong refl) (use nin ow in auto)
    have pre_box: "\<forall>m \<in> set pre. queued br1 m \<and> addressed br1 t m \<and> \<not> own br1 t m \<longrightarrow> m \<in> set (br_mailboxes br1 t)"
      using *(3) nin by (auto simp: q ad ow box)
    show ?thesis
    proof (cases "t \<in> set (br_members br)")
      case True
      have "subseq (filter (\<lambda>m. \<not> own br1 t m) (arrivals br1 t)) (pre @ [mid])"
      proof -
        have "subseq (filter (\<lambda>m. \<not> own br1 t m) (if t \<in> set targets then [mid] else [])) [mid]" by simp
        then show ?thesis using *(2) f by (simp add: arr list_emb_append_mono del: filter.simps)
      qed
      moreover have "queued br1 mid \<and> addressed br1 t mid \<and> \<not> own br1 t mid \<longrightarrow> mid \<in> set (br_mailboxes br1 t)"
        using True targets by (auto simp: ad ow box split: if_splits)
      ultimately show ?thesis using *(1,4) True pre_box ks same
        by (intro exI[of _ "pre @ [mid]"] exI[of _ "[]"]) auto
    next
      case False
      then have "t \<notin> set targets" using known targets tpool by (auto split: if_splits)
      then show ?thesis using False *(1,2) f pre_box ks same
        by (intro exI[of _ pre] exI[of _ "suf @ [mid]"]) (simp add: arr)
    qed
  qed
  have d: "distinct (br_mailboxes br1 t)" for t using inv old by (simp add: mail_inv_def box)
  have e1: "\<forall>m e'. msg_env br1 m = Some e' \<longrightarrow> en_message_id e' = m" using inv r by (simp add: mail_inv_def env)
  have boxes: "\<forall>t m. m \<in> set (br_mailboxes br1 t) \<longrightarrow> addressed br1 t m \<and> (m, t) \<notin> set (deliveries br1)"
    using inv old addr unfolding mail_inv_def del box by (auto simp: ad)
  have dels: "\<forall>t m. (m, t) \<in> set (deliveries br1) \<longrightarrow> addressed br1 t m \<and> \<not> queued br1 m"
    using inv old unfolding mail_inv_def del by (auto simp: ad q)
  show ?thesis
    unfolding mail_inv_def using inv d e1 boxes dels order tpool fresh
    by (simp add: same del mail_inv_def ks box)
qed

lemma mail_inv_pop:
  assumes inv: "mail_inv br" and box: "br_mailboxes br t = mid # rest"
    and j: "br_journal br' \<noteq> None" and members: "br_members br' = br_members br"
    and box': "br_mailboxes br' = (br_mailboxes br)(t := rest)"
    and ks: "keys (br_messages br') = keys (br_messages br)" and env: "msg_env br' = msg_env br"
    and q: "\<not> queued br' mid" "\<And>m. queued br' m \<Longrightarrow> queued br m"
    and del: "deliveries br' = deliveries br \<or> deliveries br' = deliveries br @ [(mid, t)]"
  shows "mail_inv br'"
proof -
  have same: "addressed br' = addressed br" "own br' = own br"
    by (simp_all add: addressed_def own_def env fun_eq_iff)
  have t: "t \<noteq> ''pool''" using inv box by (auto simp: mail_inv_def)
  have mid: "addressed br t mid" "(mid, t) \<notin> set (deliveries br)" "mid \<notin> set rest"
    using mail_inv_in_box[OF inv, of mid t] mail_inv_box[OF inv, of t] box by simp_all
  have arr: "subseq (arrivals br' u) (arrivals br u)" for u
  proof (cases "u = t")
    case True
    have "arrivals br u = map fst (filter (\<lambda>(_, x). x = t) (deliveries br)) @ mid # rest"
      by (simp add: arrivals_def True box)
    moreover have "arrivals br' u = map fst (filter (\<lambda>(_, x). x = t) (deliveries br)) @ rest
      \<or> arrivals br' u = map fst (filter (\<lambda>(_, x). x = t) (deliveries br)) @ mid # rest"
      using del by (auto simp: arrivals_def True box')
    ultimately show ?thesis by (auto intro!: list_emb_append_mono)
  next
    case False
    then have "arrivals br' u = arrivals br u" using del by (auto simp: arrivals_def box')
    then show ?thesis by simp
  qed
  have order: "\<exists>pre suf. keys (br_messages br') = pre @ suf
          \<and> subseq (filter (\<lambda>m. \<not> own br u m) (arrivals br' u)) pre
          \<and> (\<forall>m \<in> set pre. queued br' m \<and> addressed br u m \<and> \<not> own br u m \<longrightarrow> m \<in> set (br_mailboxes br' u))
          \<and> (u \<in> set (br_members br') \<longrightarrow> suf = [])" for u
  proof -
    obtain pre suf where *: "keys (br_messages br) = pre @ suf"
        "subseq (filter (\<lambda>m. \<not> own br u m) (arrivals br u)) pre"
        "\<forall>m \<in> set pre. queued br m \<and> addressed br u m \<and> \<not> own br u m \<longrightarrow> m \<in> set (br_mailboxes br u)"
        "u \<in> set (br_members br) \<longrightarrow> suf = []"
      using mail_inv_order[OF inv, of u] .
    have "subseq (filter (\<lambda>m. \<not> own br u m) (arrivals br' u)) pre"
      by (rule subseq_order.trans[OF subseq_filter[OF arr] *(2)])
    moreover have "\<forall>m \<in> set pre. queued br' m \<and> addressed br u m \<and> \<not> own br u m \<longrightarrow> m \<in> set (br_mailboxes br' u)"
    proof (intro ballI impI)
      fix m assume m: "m \<in> set pre" "queued br' m \<and> addressed br u m \<and> \<not> own br u m"
      then have "m \<noteq> mid" "m \<in> set (br_mailboxes br u)" using q *(3) by auto
      then show "m \<in> set (br_mailboxes br' u)" using box by (auto simp: box')
    qed
    ultimately show ?thesis using *(1,4) ks members by auto
  qed
  have d: "distinct (br_mailboxes br' u)" for u
  proof -
    show ?thesis using mail_inv_box[OF inv, of u] mail_inv_box[OF inv, of t] box by (simp add: box')
  qed
  have dd: "distinct (deliveries br')" using del mid(2) inv unfolding mail_inv_def by auto
  have boxes: "m \<in> set (br_mailboxes br' u) \<Longrightarrow> addressed br u m \<and> (m, u) \<notin> set (deliveries br')" for u m
  proof -
    assume m: "m \<in> set (br_mailboxes br' u)"
    then have "m \<in> set (br_mailboxes br u)" using box by (auto simp: box' split: if_splits)
    then have "addressed br u m \<and> (m, u) \<notin> set (deliveries br)" using inv unfolding mail_inv_def by blast
    moreover have "(m, u) \<noteq> (mid, t)" using m mid(3) by (auto simp: box' split: if_splits)
    ultimately show ?thesis using del by auto
  qed
  have dels: "(m, u) \<in> set (deliveries br') \<Longrightarrow> addressed br u m \<and> \<not> queued br' m" for u m
  proof -
    assume m: "(m, u) \<in> set (deliveries br')"
    show ?thesis
    proof (cases "(m, u) \<in> set (deliveries br)")
      case True
      then show ?thesis using inv q(2) unfolding mail_inv_def by blast
    next
      case False
      then have "m = mid" "u = t" using m del by auto
      then show ?thesis using mid q(1) by simp
    qed
  qed
  show ?thesis
    unfolding mail_inv_def same ks env members using inv d dd boxes dels order j t
    by (simp add: mail_inv_def ks box' members)
qed

definition ack_inv :: "broker \<Rightarrow> bool" where
  "ack_inv br \<longleftrightarrow> (\<forall>(mid, r) \<in> set (br_messages br). mr_state r = ''queued'' \<longrightarrow> mr_acknowledged_by r = {})"

lemma ack_inv_dset:
  "ack_inv br \<Longrightarrow> (mr_state r = ''queued'' \<longrightarrow> mr_acknowledged_by r = {}) \<Longrightarrow> br_messages br' = dset mid r (br_messages br) \<Longrightarrow> ack_inv br'"
  by (auto simp: ack_inv_def dest!: dset_in_setD)

lemma ack_inv_same: "ack_inv br \<Longrightarrow> br_messages br' = br_messages br \<Longrightarrow> ack_inv br'"
  by (simp add: ack_inv_def)

lemma ack_inv_state: "ack_inv br \<Longrightarrow> s \<noteq> ''queued'' \<Longrightarrow> ack_inv (set_message_state mid s br)"
  by (auto simp: set_message_state_def split: option.split
      intro: ack_inv_dset[of br "r\<lparr>mr_state := s\<rparr>" _ mid for r])

lemma take_mailD:
  assumes "mail_inv br" "take_mail t br = Some (mid, br1)"
  obtains rest where "br_mailboxes br t = mid # rest" "br1 = br\<lparr>br_mailboxes := (br_mailboxes br)(t := rest)\<rparr>"
  using assms by (auto simp: take_mail_def mail_inv_def split: list.splits if_splits)

lemma set_message_state_views:
  "keys (br_messages (set_message_state m s br)) = keys (br_messages br)"
  "msg_env (set_message_state m s br) = msg_env br"
  "queued (set_message_state m s br) k \<longleftrightarrow> (if k = m then s = ''queued'' \<and> msg_env br m \<noteq> None else queued br k)"
  by (auto simp: set_message_state_def msg_env_def queued_def keys_update_state fun_eq_iff split: option.split)

lemma mail_inv_read:
  assumes inv: "mail_inv br" "ack_inv br" and "take_mail t br = Some (mid, br1)" and read: "read_mail now t mid br1 = (e, br2)"
  shows "mail_inv br2 \<and> ack_inv br2"
proof -
  obtain rest where box: "br_mailboxes br t = mid # rest" and br1: "br1 = br\<lparr>br_mailboxes := (br_mailboxes br)(t := rest)\<rparr>"
    using take_mailD assms by blast
  have views: "queued br1 = queued br" "msg_env br1 = msg_env br" "deliveries br1 = deliveries br" "ack_inv br1"
    using inv by (auto simp: br1 queued_def msg_env_def deliveries_def ack_inv_def fun_eq_iff)
  have j: "br_journal br1 \<noteq> None" using inv by (simp add: mail_inv_def br1)
  have same: "br_members br1 = br_members br" "br_mailboxes br1 = (br_mailboxes br)(t := rest)" "br_messages br1 = br_messages br"
    by (simp_all add: br1)
  note pop = mail_inv_pop[OF inv(1) box, of br2]
  show ?thesis
  proof (cases "dget (br_messages br) mid")
    case None
    then have *: "br2 = br1" "\<not> queued br mid" using read by (auto simp: read_mail_def queued_def same)
    have "mail_inv br2" by (rule pop) (use * j views in \<open>simp_all add: same\<close>)
    then show ?thesis using * views by simp
  next
    case (Some r)
    consider (drop) "br2 = br1" "t \<in> mr_acknowledged_by r"
      | (expired) "br2 = set_message_state mid ''expired'' br1"
      | (fine) "br2 = journal_event ''agent_message_delivered'' [(''message_id'', PStr mid), (''recipient'', PStr t)]
            (set_message_state mid ''delivered'' br1)"
      using read Some by (auto simp: read_mail_def same split: if_splits)
    then show ?thesis
    proof cases
      case drop
      have *: "\<not> queued br mid" using drop(2) inv(2) map_of_SomeD[OF Some] Some by (auto simp: ack_inv_def queued_def)
      have "mail_inv br2" by (rule pop) (use * drop j views in \<open>simp_all add: same\<close>)
      then show ?thesis using drop views by simp
    next
      case expired
      have d: "deliveries br2 = deliveries br" using views(3) by (simp add: expired deliveries_def)
      have "mail_inv br2"
        by (rule pop) (use d j views in \<open>auto simp: expired same set_message_state_views split: if_splits\<close>)
      then show ?thesis using views ack_inv_state[of br1 "''expired''" mid] by (simp add: expired)
    next
      case fine
      have d: "deliveries br2 = deliveries br @ [(mid, t)]"
        using j views(3) by (simp add: fine deliveries_delivered) (simp add: deliveries_def)
      have "mail_inv br2"
        by (rule pop) (use d j views in \<open>auto simp: fine same set_message_state_views split: if_splits\<close>)
      moreover have "ack_inv br2"
        by (rule ack_inv_same[of "set_message_state mid ''delivered'' br1"])
          (use views ack_inv_state[of br1 "''delivered''" mid] in \<open>simp_all add: fine journal_event_def\<close>)
      ultimately show ?thesis by simp
    qed
  qed
qed

lemma mail_inv_poll_loop:
  "mail_inv br \<Longrightarrow> ack_inv br \<Longrightarrow> mail_inv (snd (poll_loop now t limit br found)) \<and> ack_inv (snd (poll_loop now t limit br found))"
proof (induction now t limit br found rule: poll_loop.induct)
  case (1 now t limit br found)
  show ?case
  proof (cases "limit \<le> length found \<or> take_mail t br = None")
    case True
    then show ?thesis using "1.prems" by (auto simp: poll_loop.simps[of now t limit br found])
  next
    case False
    then obtain mid br1 where tm: "take_mail t br = Some (mid, br1)" by fastforce
    obtain e br2 where rm: "read_mail now t mid br1 = (e, br2)" by (cases "read_mail now t mid br1")
    have "mail_inv br2 \<and> ack_inv br2" using mail_inv_read[OF "1.prems" tm rm] .
    then show ?thesis using "1.IH"[OF _ tm refl rm[symmetric] refl] False tm rm
      by (simp add: poll_loop.simps[of now t limit br found])
  qed
qed

section \<open>Questions\<close>

definition same_mail :: "broker \<Rightarrow> broker \<Rightarrow> bool" where
  "same_mail br br' \<longleftrightarrow> br_members br' = br_members br \<and> br_mailboxes br' = br_mailboxes br
     \<and> br_messages br' = br_messages br \<and> deliveries br' = deliveries br
     \<and> (br_journal br' = None \<longleftrightarrow> br_journal br = None)
     \<and> br_max_pending_questions br' = br_max_pending_questions br"

lemma same_mail_refl [simp]: "same_mail br br"
  by (simp add: same_mail_def)

lemma same_mail_trans: "same_mail a b \<Longrightarrow> same_mail b c \<Longrightarrow> same_mail a c"
  by (simp add: same_mail_def)

lemma mail_inv_same_mail: "mail_inv br \<Longrightarrow> same_mail br br' \<Longrightarrow> mail_inv br'"
  by (rule mail_inv_frame[of br]) (simp_all add: same_mail_def msg_env_def queued_def, simp add: mail_inv_def)

lemma ack_inv_same_mail: "ack_inv br \<Longrightarrow> same_mail br br' \<Longrightarrow> ack_inv br'"
  by (auto simp: same_mail_def intro: ack_inv_same)

lemma same_mail_journal [simp]: "take 64 k \<noteq> ''agent_message_delivered'' \<Longrightarrow> same_mail br (journal_event k p br)"
  by (simp add: same_mail_def deliveries_journal)

text \<open>The state of the future of a question with this status and answer.\<close>

definition future_of :: "string \<Rightarrow> string \<Rightarrow> fut" where
  "future_of status answer = (if status = ''pending'' then Waiting
     else if status = ''answered'' then FutureResult answer else FutureError (''question is '' @ status))"

definition pending_count :: "broker \<Rightarrow> nat" where
  "pending_count br = length (filter (\<lambda>q. qn_status q = ''pending'') (map snd (br_questions br)))"

definition quest_inv :: "broker \<Rightarrow> bool" where
  "quest_inv br \<longleftrightarrow> distinct (keys (br_questions br))
     \<and> (\<forall>(qid, q) \<in> set (br_questions br). qn_future q \<in> {future_of (qn_status q) (qn_answer q), FutureCancelled}
          \<and> en_message_id (qn_envelope q) = qid \<and> dget (br_messages br) qid \<noteq> None)
     \<and> int (pending_count br) \<le> max 0 (br_max_pending_questions br)"

definition q_moves :: "(string \<Rightarrow> bool) \<Rightarrow> broker \<Rightarrow> broker \<Rightarrow> bool" where
  "q_moves ok br br' \<longleftrightarrow> (\<forall>qid q. dget (br_questions br) qid = Some q \<longrightarrow>
     (\<exists>q'. dget (br_questions br') qid = Some q' \<and> qn_envelope q' = qn_envelope q
        \<and> (qn_status q \<noteq> ''pending'' \<longrightarrow> qn_status q' = qn_status q \<and> qn_answer q' = qn_answer q)
        \<and> (qn_status q = ''pending'' \<and> qn_status q' = ''answered'' \<longrightarrow> ok qid)))"

lemma q_moves_same: "br_questions br' = br_questions br \<Longrightarrow> q_moves ok br br'"
  by (auto simp: q_moves_def)

lemma q_moves_trans:
  assumes "q_moves ok a b" "q_moves ok b c"
  shows "q_moves ok a c"
  unfolding q_moves_def
proof (intro allI impI)
  fix qid q assume q: "dget (br_questions a) qid = Some q"
  obtain q1 where q1: "dget (br_questions b) qid = Some q1" "qn_envelope q1 = qn_envelope q"
      "qn_status q \<noteq> ''pending'' \<longrightarrow> qn_status q1 = qn_status q \<and> qn_answer q1 = qn_answer q"
      "qn_status q = ''pending'' \<and> qn_status q1 = ''answered'' \<longrightarrow> ok qid"
    using assms(1) q unfolding q_moves_def by blast
  obtain q2 where q2: "dget (br_questions c) qid = Some q2" "qn_envelope q2 = qn_envelope q1"
      "qn_status q1 \<noteq> ''pending'' \<longrightarrow> qn_status q2 = qn_status q1 \<and> qn_answer q2 = qn_answer q1"
      "qn_status q1 = ''pending'' \<and> qn_status q2 = ''answered'' \<longrightarrow> ok qid"
    using assms(2) q1(1) unfolding q_moves_def by blast
  show "\<exists>q'. dget (br_questions c) qid = Some q' \<and> qn_envelope q' = qn_envelope q
      \<and> (qn_status q \<noteq> ''pending'' \<longrightarrow> qn_status q' = qn_status q \<and> qn_answer q' = qn_answer q)
      \<and> (qn_status q = ''pending'' \<and> qn_status q' = ''answered'' \<longrightarrow> ok qid)"
    using q1 q2 by (intro exI[of _ q2]) auto
qed

lemma quest_inv_same:
  assumes "quest_inv br" "br_questions br' = br_questions br" "br_max_pending_questions br' = br_max_pending_questions br"
    and "\<And>k. dget (br_messages br) k \<noteq> None \<Longrightarrow> dget (br_messages br') k \<noteq> None"
  shows "quest_inv br'"
proof -
  have "\<forall>(qid, q) \<in> set (br_questions br'). qn_future q \<in> {future_of (qn_status q) (qn_answer q), FutureCancelled}
      \<and> en_message_id (qn_envelope q) = qid \<and> dget (br_messages br') qid \<noteq> None"
  proof (intro ballI, clarify)
    fix qid q assume "(qid, q) \<in> set (br_questions br')"
    then have "qn_future q \<in> {future_of (qn_status q) (qn_answer q), FutureCancelled} \<and> en_message_id (qn_envelope q) = qid
        \<and> dget (br_messages br) qid \<noteq> None"
      using assms(1,2) unfolding quest_inv_def by auto
    then show "qn_future q \<in> {future_of (qn_status q) (qn_answer q), FutureCancelled} \<and> en_message_id (qn_envelope q) = qid
        \<and> dget (br_messages br') qid \<noteq> None"
      using assms(4) by blast
  qed
  then show ?thesis using assms(1) unfolding quest_inv_def pending_count_def assms(2,3) by simp
qed

lemma pending_count_dset:
  assumes "distinct (keys (br_questions br))" "dget (br_questions br) qid = Some q"
    and "qn_status q' = ''pending'' \<Longrightarrow> qn_status q = ''pending''"
  shows "length (filter (\<lambda>q. qn_status q = ''pending'') (map snd (dset qid q' (br_questions br)))) \<le> pending_count br"
  using assms unfolding pending_count_def
proof (induction "br_questions br" arbitrary: br)
  case Nil
  then show ?case by simp
next
  case (Cons p qs)
  have "length (filter (\<lambda>q. qn_status q = ''pending'') (map snd (dset qid q' qs)))
      \<le> length (filter (\<lambda>q. qn_status q = ''pending'') (map snd qs))" if "fst p \<noteq> qid"
    using Cons(1)[of "br\<lparr>br_questions := qs\<rparr>"] Cons.prems that by (simp flip: Cons(2))
  then show ?case using Cons.prems by (auto simp flip: Cons(2))
qed

lemma quest_inv_dset:
  assumes inv: "quest_inv br" and q: "dget (br_questions br) qid = Some q"
    and f: "qn_future q' \<in> {future_of (qn_status q') (qn_answer q'), FutureCancelled}" "qn_envelope q' = qn_envelope q"
    and s: "qn_status q' = ''pending'' \<Longrightarrow> qn_status q = ''pending''"
    and br': "br_questions br' = dset qid q' (br_questions br)" "br_max_pending_questions br' = br_max_pending_questions br"
      "br_messages br' = br_messages br"
  shows "quest_inv br'"
proof -
  have d: "distinct (keys (br_questions br))" using inv by (simp add: quest_inv_def)
  have "(qid, q) \<in> set (br_questions br)" using q by (rule map_of_SomeD)
  then have "en_message_id (qn_envelope q) = qid \<and> dget (br_messages br) qid \<noteq> None" using inv by (auto simp: quest_inv_def)
  then have "\<forall>(k, x) \<in> set (dset qid q' (br_questions br)). qn_future x \<in> {future_of (qn_status x) (qn_answer x), FutureCancelled}
          \<and> en_message_id (qn_envelope x) = k \<and> dget (br_messages br) k \<noteq> None"
    using inv f unfolding quest_inv_def by (auto dest!: dset_in_setD)
  moreover have "int (pending_count br') \<le> max 0 (br_max_pending_questions br)"
    using pending_count_dset[OF d q, of q'] s inv br'(1,2) unfolding quest_inv_def pending_count_def by simp
  ultimately show ?thesis using d by (simp add: quest_inv_def br')
qed

lemma finish_question_simps [simp]:
  "same_mail br (finish_question now qid a s br)"
  "br_messages (finish_question now qid a s br) = br_messages br"
  "br_members (finish_question now qid a s br) = br_members br"
  by (simp_all add: finish_question_def same_mail_def deliveries_def Let_def split: option.split)

lemma finish_question_map:
  assumes "dget (br_questions br) qid = Some q" "qn_status q = ''pending''" "s \<noteq> ''pending''"
  shows "br_questions (finish_question now qid a s br)
    = dset qid (q\<lparr>qn_answer := a, qn_status := s, qn_future := (if qn_future q = Waiting then future_of s a else qn_future q)\<rparr>)
        (br_questions br)"
  using assms by (simp add: finish_question_def future_of_def Let_def)

lemma finish_question_keeps:
  assumes inv: "quest_inv br" and q: "dget (br_questions br) qid = Some q" "qn_status q = ''pending''"
    and s: "s \<noteq> ''pending''" "s = ''answered'' \<longrightarrow> ok qid"
  shows "quest_inv (finish_question now qid a s br) \<and> q_moves ok br (finish_question now qid a s br)"
proof -
  have fut: "qn_future q = Waiting \<or> qn_future q = FutureCancelled"
    using inv map_of_SomeD[OF q(1)] q(2) by (auto simp: quest_inv_def future_of_def)
  note map = finish_question_map[OF q s(1), of now a]
  have "quest_inv (finish_question now qid a s br)"
    by (rule quest_inv_dset[OF inv q(1) _ _ _ map]) (use s q fut in \<open>auto simp: finish_question_simps(1)[unfolded same_mail_def]\<close>)
  moreover have "q_moves ok br (finish_question now qid a s br)"
    unfolding q_moves_def map using q s by auto
  ultimately show ?thesis by simp
qed

text \<open>Several questions ended one after the other, each with a line of the journal or without one.\<close>

definition plain_entry :: "(string \<Rightarrow> broker \<Rightarrow> broker) \<Rightarrow> bool" where
  "plain_entry g \<longleftrightarrow> (\<forall>qid br. g qid br = br \<or>
     (\<exists>k p. take 64 k \<noteq> ''agent_message_delivered'' \<and> g qid br = journal_event k p br))"

lemma plain_entry_journal:
  "take 64 k \<noteq> ''agent_message_delivered'' \<Longrightarrow> plain_entry (\<lambda>qid b. journal_event k (f qid b) b)"
  by (auto simp: plain_entry_def)

lemma plain_entry_keeps:
  assumes "plain_entry g"
  shows "br_questions (g qid br) = br_questions br" "same_mail br (g qid br)"
    "quest_inv (g qid br) = quest_inv br"
proof -
  have "g qid br = br \<or> (\<exists>k p. take 64 k \<noteq> ''agent_message_delivered'' \<and> g qid br = journal_event k p br)"
    using assms by (simp add: plain_entry_def)
  then show "br_questions (g qid br) = br_questions br" "same_mail br (g qid br)"
    "quest_inv (g qid br) = quest_inv br"
    by (auto simp: quest_inv_def pending_count_def)
qed

lemma finish_fold:
  assumes "quest_inv br" "distinct (map fst qs)"
    "\<forall>(qid, x) \<in> set qs. \<exists>q. dget (br_questions br) qid = Some q \<and> qn_status q = ''pending''"
    and s: "s \<noteq> ''pending''" "s \<noteq> ''answered''" and g: "plain_entry g" and I: "I br"
    and I_step: "\<And>b qid q. I b \<Longrightarrow> quest_inv b \<Longrightarrow> dget (br_questions b) qid = Some q \<Longrightarrow> qn_status q = ''pending'' \<Longrightarrow>
      I (g qid (finish_question now qid [] s b))"
  shows "quest_inv (fold (\<lambda>(qid, x) b. g qid (finish_question now qid [] s b)) qs br)
     \<and> q_moves ok br (fold (\<lambda>(qid, x) b. g qid (finish_question now qid [] s b)) qs br)
     \<and> same_mail br (fold (\<lambda>(qid, x) b. g qid (finish_question now qid [] s b)) qs br)
     \<and> I (fold (\<lambda>(qid, x) b. g qid (finish_question now qid [] s b)) qs br)"
  using assms(1-3) I
proof (induction qs arbitrary: br)
  case Nil
  then show ?case by (simp add: q_moves_same)
next
  case (Cons p qs)
  obtain qid x where p: "p = (qid, x)" by (cases p)
  obtain q where q: "dget (br_questions br) qid = Some q" "qn_status q = ''pending''" using Cons.prems(3) p by auto
  let ?b = "finish_question now qid [] s br" and ?h = "\<lambda>(qid, x) b. g qid (finish_question now qid [] s b)"
  have f: "quest_inv ?b" "q_moves ok br ?b"
    using finish_question_keeps[OF Cons.prems(1) q s(1), of ok now "[]"] s(2) by auto
  have k: "quest_inv (g qid ?b)" "q_moves ok br (g qid ?b)" "same_mail br (g qid ?b)"
    using f plain_entry_keeps[OF g, where qid = qid and br = ?b] q_moves_trans[OF f(2), of "g qid ?b"]
      same_mail_trans[OF finish_question_simps(1)] by (auto intro: q_moves_same)
  have other: "dget (br_questions (g qid ?b)) k = dget (br_questions br) k" if "k \<noteq> qid" for k
    using that by (simp add: plain_entry_keeps(1)[OF g] finish_question_map[OF q s(1)])
  have left: "\<forall>(k, x) \<in> set qs. \<exists>q. dget (br_questions (g qid ?b)) k = Some q \<and> qn_status q = ''pending''"
  proof (intro ballI, clarify)
    fix k y assume ky: "(k, y) \<in> set qs"
    have "k \<noteq> qid" using Cons.prems(2) image_eqI[OF _ ky, of k fst] by (auto simp: p)
    then show "\<exists>q. dget (br_questions (g qid ?b)) k = Some q \<and> qn_status q = ''pending''"
      using Cons.prems(3) ky by (auto simp: other)
  qed
  have rest: "quest_inv (fold ?h qs (g qid ?b)) \<and> q_moves ok (g qid ?b) (fold ?h qs (g qid ?b))
      \<and> same_mail (g qid ?b) (fold ?h qs (g qid ?b)) \<and> I (fold ?h qs (g qid ?b))"
    using Cons.IH[OF k(1) _ left] Cons.prems(2) I_step[OF Cons.prems(4,1) q] by simp
  have "fold ?h (p # qs) br = fold ?h qs (g qid ?b)" by (simp add: p)
  then show ?case using rest q_moves_trans[OF k(2)] same_mail_trans[OF k(3)] by simp
qed

section \<open>Steps\<close>

text \<open>A step of the broker is one call by somebody; a new message has an identifier nothing else has.\<close>

inductive broker_step :: "(pyfloat \<Rightarrow> string) \<Rightarrow> string \<Rightarrow> broker \<Rightarrow> broker \<Rightarrow> bool" for ft where
  joins: "register_worker w br = Inr br' \<Longrightarrow> broker_step ft w br br'"
| leaves: "broker_step ft w br (unregister_worker now w reason br)"
| sends: "send_locked ft now uuid who to kind content reply correlation wants ttl br = Inr (e, br') \<Longrightarrow>
    uuid \<notin> set (keys (br_messages br)) \<Longrightarrow> broker_step ft who br br'"
| polls: "poll now t limit br = Inr (es, br') \<Longrightarrow> broker_step ft t br br'"
| acknowledges: "acknowledge t mid br = Inr (s, br') \<Longrightarrow> broker_step ft t br br'"
| asks: "open_question ft now uuid who to question context_text expected timeout br = Inr (p, br') \<Longrightarrow>
    uuid \<notin> set (keys (br_messages br)) \<Longrightarrow> broker_step ft who br br'"
| answers: "answer_question now who qid answer br = Inr (p, br') \<Longrightarrow> broker_step ft who br br'"
| refuses: "take 64 status \<notin> {''pending'', ''answered'', ''expired'', ''cancelled''} \<Longrightarrow>
    broker_step ft ''main'' br (snd (refuse_parent_questions now status br))"
| starts_waiting: "broker_step ft who br (snd (wait_begin qid br))"
| cancels_waiting: "broker_step ft who br (wait_cancel qid br)"
| stops_waiting: "broker_step ft who br (snd (wait_end qid br))"
| gives_up: "broker_step ft who br (snd (wait_expire now qid br))"
| closes: "broker_step ft who br (close_broker now br)"

definition broker_ok :: "broker \<Rightarrow> bool" where
  "broker_ok br \<longleftrightarrow> mail_inv br \<and> ack_inv br \<and> quest_inv br"

definition may_answer :: "string \<Rightarrow> broker \<Rightarrow> string \<Rightarrow> bool" where
  "may_answer who br qid \<longleftrightarrow> (case dget (br_questions br) qid of None \<Rightarrow> False
     | Some q \<Rightarrow> who = en_recipient (qn_envelope q) \<or> en_recipient (qn_envelope q) = ''pool'' \<and> who \<in> set (br_members br))"

lemma broker_ok_same:
  "broker_ok br \<Longrightarrow> same_mail br br' \<Longrightarrow> quest_inv br' \<Longrightarrow> broker_ok br'"
  by (auto simp: broker_ok_def intro: mail_inv_same_mail ack_inv_same_mail)

lemma pending_of_filter:
  assumes "quest_inv br" "qs = filter P (br_questions br)" "\<And>qid q. P (qid, q) \<Longrightarrow> qn_status q = ''pending''"
  shows "distinct (map fst qs)" "\<forall>(qid, x) \<in> set qs. \<exists>q. dget (br_questions br) qid = Some q \<and> qn_status q = ''pending''"
proof -
  have d: "distinct (map fst (br_questions br))" using assms(1) by (simp add: quest_inv_def keys_def)
  then show "distinct (map fst qs)" by (simp add: assms(2) distinct_map_filter)
  show "\<forall>(qid, x) \<in> set qs. \<exists>q. dget (br_questions br) qid = Some q \<and> qn_status q = ''pending''"
    using d assms(2,3) by fastforce
qed

definition keeps :: "string \<Rightarrow> broker \<Rightarrow> broker \<Rightarrow> bool" where
  "keeps who br br' \<longleftrightarrow> broker_ok br' \<and> q_moves (may_answer who br) br br'"

lemma keeps_mail:
  assumes "broker_ok br" "same_mail br br'" "quest_inv br'" "q_moves (may_answer who br) br br'"
  shows "keeps who br br'"
  using broker_ok_same assms by (simp add: keeps_def)

lemma keeps_quest:
  assumes "broker_ok br" "mail_inv br'" "ack_inv br'" "br_questions br' = br_questions br"
    "br_max_pending_questions br' = br_max_pending_questions br"
    "\<And>k. dget (br_messages br) k \<noteq> None \<Longrightarrow> dget (br_messages br') k \<noteq> None"
  shows "keeps who br br'"
  using assms quest_inv_same[of br br'] by (auto simp: keeps_def broker_ok_def q_moves_same)

lemma keeps_refl: "broker_ok br \<Longrightarrow> keeps who br br"
  by (simp add: keeps_def q_moves_same)

definition end_questions :: "pyfloat \<Rightarrow> string \<Rightarrow> (string \<Rightarrow> broker \<Rightarrow> broker) \<Rightarrow> (string \<times> question_record \<Rightarrow> bool) \<Rightarrow> broker \<Rightarrow> broker" where
  "end_questions now s g P br =
     fold (\<lambda>(qid, x) b. g qid (finish_question now qid [] s b)) (filter P (br_questions br)) br"

lemma end_questions_keeps:
  assumes ok: "broker_ok br" and P: "\<And>qid q. P (qid, q) \<Longrightarrow> qn_status q = ''pending''"
    and s: "s \<noteq> ''pending''" "s \<noteq> ''answered''" and g: "plain_entry g"
    and br0: "same_mail br br0" "br_questions br0 = br_questions br"
    and br': "same_mail (end_questions now s g P br0) br'" "br_questions br' = br_questions (end_questions now s g P br0)"
  shows "keeps who br br'"
proof (rule keeps_mail[OF ok])
  let ?f = "end_questions now s g P br0"
  have q: "quest_inv br0"
    by (rule quest_inv_same[of br]) (use ok br0 in \<open>simp_all add: broker_ok_def same_mail_def\<close>)
  have f: "quest_inv ?f" "q_moves (may_answer who br) br0 ?f" "same_mail br0 ?f"
    using finish_fold[OF q pending_of_filter[OF q refl P] s g, where ok = "may_answer who br" and now = now and I = "\<lambda>_. True"]
    by (simp_all add: end_questions_def)
  show "same_mail br br'" by (rule same_mail_trans[OF br0(1) same_mail_trans[OF f(3) br'(1)]])
  show "quest_inv br'"
    by (rule quest_inv_same[OF f(1) br'(2)]) (use br'(1) in \<open>simp_all add: same_mail_def\<close>)
  show "q_moves (may_answer who br) br br'"
    using f(2) unfolding q_moves_def br'(2) br0(2) .
qed

lemma close_keeps:
  assumes ok: "broker_ok br"
  shows "keeps who br (close_broker now br)"
proof -
  let ?g = "\<lambda>qid b. journal_event ''question_cancelled'' (question_projection b (the (dget (br_questions b) qid))) b"
  have g: "plain_entry ?g" by (rule plain_entry_journal) simp
  have eq: "close_broker now br = (end_questions now ''cancelled'' ?g (\<lambda>(qid, q). qn_status q = ''pending'') (br\<lparr>br_closed := True\<rparr>))
      \<lparr>br_pending_event := True, br_message_event := True\<rparr>"
    unfolding close_broker_def Let_def end_questions_def ..
  show ?thesis
    unfolding eq by (rule end_questions_keeps[OF ok _ _ _ g]) (auto simp: same_mail_def deliveries_def)
qed

lemma refuse_keeps:
  assumes ok: "broker_ok br" and s: "take 64 status \<notin> {''pending'', ''answered''}"
  shows "keeps who br (snd (refuse_parent_questions now status br))"
proof -
  let ?g = "\<lambda>qid b. journal_event ''question_refused'' (question_projection b (the (dget (br_questions b) qid))) b"
  have g: "plain_entry ?g" by (rule plain_entry_journal) simp
  have eq: "snd (refuse_parent_questions now status br) = end_questions now (take 64 status) ?g
      (\<lambda>(qid, q). qn_status q = ''pending'' \<and> en_recipient (qn_envelope q) = ''main'') (br\<lparr>br_parent_refusal := take 64 status\<rparr>)"
    unfolding refuse_parent_questions_def Let_def end_questions_def snd_conv ..
  show ?thesis
    unfolding eq by (rule end_questions_keeps[OF ok _ _ _ g]) (use s in \<open>auto simp: same_mail_def deliveries_def\<close>)
qed

lemma leave_keeps:
  assumes ok: "broker_ok br"
  shows "keeps who br (unregister_worker now w reason br)"
proof -
  let ?b = "br\<lparr>br_members := removeAll w (br_members br)\<rparr>"
  let ?f = "end_questions now ''orphaned'' (\<lambda>qid b. b) (\<lambda>(qid, q). en_sender (qn_envelope q) = w \<and> qn_status q = ''pending'') ?b"
  have ok': "broker_ok ?b"
    using ok mail_inv_leave[of br ?b] ack_inv_same[of br ?b] quest_inv_same[of br ?b] by (simp add: broker_ok_def subset_iff)
  have eq: "unregister_worker now w reason br = journal_event ''agent_pool_member'' [(''worker_id'', PStr w), (''state'', PStr ''removed'')]
           (journal_event ''agent_message_rejected'' [(''sender'', PStr w), (''reason'', PStr reason)] ?f)"
    unfolding unregister_worker_def Let_def end_questions_def ..
  have g: "plain_entry (\<lambda>qid b. b)" by (simp add: plain_entry_def)
  have k: "keeps who ?b (unregister_worker now w reason br)"
    unfolding eq by (rule end_questions_keeps[OF ok' _ _ _ g same_mail_refl refl])
      (auto simp: same_mail_def deliveries_journal)
  have "may_answer who ?b qid \<Longrightarrow> may_answer who br qid" for qid
    by (auto simp: may_answer_def split: option.splits)
  then have "q_moves (may_answer who br) ?b (unregister_worker now w reason br)"
    using k unfolding keeps_def q_moves_def by blast
  then have "q_moves (may_answer who br) br (unregister_worker now w reason br)" by (simp add: q_moves_def)
  then show ?thesis using k by (simp add: keeps_def)
qed

lemma join_keeps:
  assumes ok: "broker_ok br" and join: "register_worker w br = Inr br'"
  shows "keeps who br br'"
proof -
  let ?b = "journal_event ''agent_pool_member'' [(''worker_id'', PStr w), (''state'', PStr ''registered'')]
             (br\<lparr>br_members := (if w \<in> set (br_members br) then br_members br else br_members br @ [w])\<rparr>)"
  have w: "w \<noteq> ''main''" "w \<noteq> ''pool''" and eq: "br' = put ?b w (adopted ?b w)"
  proof -
    have d: "distinct (keys (br_messages ?b))" using ok by (simp add: broker_ok_def mail_inv_def)
    have "w \<noteq> ''main'' \<and> w \<noteq> ''pool'' \<and> br' = put ?b w (map fst (filter (for_member w (br_mailboxes ?b w)) (br_messages ?b)))"
      using join adopt_fold[OF d, of w ?b] unfolding register_worker_def Let_def by (auto elim!: bindE_InrE)
    then show "w \<noteq> ''main''" "w \<noteq> ''pool''" "br' = put ?b w (adopted ?b w)" unfolding adopted_messages[OF d] by blast+
  qed
  let ?j = "journal_event ''agent_pool_member'' [(''worker_id'', PStr w), (''state'', PStr ''registered'')] br"
  have j: "mail_inv ?j" using ok by (auto simp: broker_ok_def intro: mail_inv_journal)
  have a: "adopted ?b w = adopted ?j w"
    by (simp add: adopted_def addressed_def queued_def msg_env_def)
  have "mail_inv br'"
  proof (rule mail_inv_adopt[OF j w(2,1)])
    show "br_journal br' = br_journal ?j" by (simp add: eq put_def) (simp add: journal_event_def)
  qed (auto simp: eq a put_def)
  then show ?thesis
    by (rule keeps_quest[OF ok]) (use ok in \<open>simp_all add: eq put_def broker_ok_def ack_inv_def\<close>)
qed

lemma post_keeps:
  assumes inv: "mail_inv br" "ack_inv br" and fresh: "en_message_id e \<notin> set (keys (br_messages br))"
    and known: "en_recipient e = ''pool'' \<or> en_recipient e \<in> set (br_members br)"
  shows "mail_inv (post_message e br) \<and> ack_inv (post_message e br)"
proof -
  let ?r = "\<lparr>mr_envelope = e, mr_state = ''queued'', mr_acknowledged = False, mr_acknowledged_by = {}\<rparr>"
  let ?d = "deliver_to (message_targets (en_sender e) (en_recipient e) br) (en_message_id e)
    (br\<lparr>br_messages := dset (en_message_id e) ?r (br_messages br)\<rparr>)"
  have "mail_inv ?d"
    by (rule mail_inv_send[OF inv(1) fresh, where e = e and r = ?r]) (use known in \<open>simp_all add: message_targets_def\<close>)
  then have "mail_inv (?d\<lparr>br_sequence := (br_sequence br)(en_sender e := en_sequence e), br_message_event := True\<rparr>)"
    by (rule mail_inv_same) simp_all
  then have "mail_inv (post_message e br)" unfolding post_message_def by (rule mail_inv_journal) simp
  moreover have "ack_inv (post_message e br)"
    by (rule ack_inv_dset[OF inv(2), of ?r _ "en_message_id e"]) (simp_all add: post_message_def deliver_to_def)
  ultimately show ?thesis by simp
qed

lemma post_message_simps [simp]:
  "br_questions (post_message e br) = br_questions br"
  "br_max_pending_questions (post_message e br) = br_max_pending_questions br"
  "br_members (post_message e br) = br_members br"
  "dget (br_messages (post_message e br)) k = (if k = en_message_id e
     then Some \<lparr>mr_envelope = e, mr_state = ''queued'', mr_acknowledged = False, mr_acknowledged_by = {}\<rparr>
     else dget (br_messages br) k)"
  by (auto simp: post_message_def deliver_to_def)

lemma send_cases:
  assumes "send_locked ft now uuid s to kind content reply correlation wants ttl br = Inr (e, br')"
  obtains (again) "br' = br" "correlation \<noteq> []"
  | (post) "br' = post_message e br" "en_message_id e = uuid" "en_sender e = s" "en_recipient e = to"
      "to = ''pool'' \<or> to \<in> set (br_members br)" "s \<in> set (br_members br)" "en_conversation_id e = br_conversation_id br"
      "en_parent_run_id e = br_parent_run_id br" "en_pool_id e = br_pool_id br"
  using assms unfolding send_locked_def Let_def
  by (auto elim!: bindE_InrE simp: valid_recipient_def valid_sender_def new_envelope_def earlier_send_def split: option.splits if_splits)

lemma send_keeps:
  assumes ok: "broker_ok br" and send: "send_locked ft now uuid s to kind content reply correlation wants ttl br = Inr (e, br')"
    and fresh: "uuid \<notin> set (keys (br_messages br))"
  shows "keeps who br br' \<and> br_questions br' = br_questions br"
  using send
proof (cases rule: send_cases)
  case again
  then show ?thesis using keeps_refl[OF ok] by simp
next
  case post
  have "mail_inv br' \<and> ack_inv br'"
    unfolding post(1) by (rule post_keeps) (use ok fresh post in \<open>simp_all add: broker_ok_def\<close>)
  then show ?thesis
    using keeps_quest[OF ok, of br' who] by (auto simp: post(1))
qed

lemma poll_loop_frame:
  "br_questions (snd (poll_loop now t limit br found)) = br_questions br
   \<and> br_members (snd (poll_loop now t limit br found)) = br_members br
   \<and> br_max_pending_questions (snd (poll_loop now t limit br found)) = br_max_pending_questions br
   \<and> keys (br_messages (snd (poll_loop now t limit br found))) = keys (br_messages br)"
proof (induction now t limit br found rule: poll_loop.induct)
  case (1 now t limit br found)
  show ?case
  proof (cases "limit \<le> length found \<or> take_mail t br = None")
    case True
    then show ?thesis by (auto simp: poll_loop.simps[of now t limit br found])
  next
    case False
    then obtain mid br1 where tm: "take_mail t br = Some (mid, br1)" by fastforce
    obtain e br2 where rm: "read_mail now t mid br1 = (e, br2)" by (cases "read_mail now t mid br1")
    have "br_questions br2 = br_questions br \<and> br_members br2 = br_members br \<and> br_max_pending_questions br2 = br_max_pending_questions br
        \<and> keys (br_messages br2) = keys (br_messages br)"
      using tm rm by (auto simp: take_mail_def read_mail_def set_message_state_views split: list.splits option.splits if_splits)
    then show ?thesis using "1.IH"[OF _ tm refl rm[symmetric] refl] False tm rm
      by (simp add: poll_loop.simps[of now t limit br found])
  qed
qed

lemma poll_keeps:
  assumes ok: "broker_ok br" and "poll now t limit br = Inr (es, br')"
  shows "keeps who br br'"
proof -
  obtain found b where b: "poll_loop now t (nat (min limit 64)) br [] = (found, b)" by fastforce
  have br': "br' = b \<or> br' = b\<lparr>br_message_event := False\<rparr>"
    using assms(2) b by (auto simp: poll_def Let_def elim!: bindE_InrE split: if_splits)
  have inv: "mail_inv b" "ack_inv b" using mail_inv_poll_loop[of br now t "nat (min limit 64)" "[]"] ok b
    by (simp_all add: broker_ok_def)
  have frame: "br_questions b = br_questions br" "br_max_pending_questions b = br_max_pending_questions br"
      "keys (br_messages b) = keys (br_messages br)"
    using poll_loop_frame[of now t "nat (min limit 64)" br "[]"] b by simp_all
  have "mail_inv br' \<and> ack_inv br'"
    using br' inv mail_inv_same[OF inv(1), of br'] ack_inv_same[OF inv(2), of br'] by auto
  moreover have "dget (br_messages br') k \<noteq> None" if "dget (br_messages br) k \<noteq> None" for k
    using that br' keys_eq_map_of[OF frame(3), of k] by auto
  ultimately show ?thesis using keeps_quest[OF ok, of br' who] br' frame by auto
qed

lemma acknowledge_keeps:
  assumes ok: "broker_ok br" and ack: "acknowledge t mid br = Inr (s, br')"
  shows "keeps who br br'"
proof -
  obtain r where r: "dget (br_messages br) mid = Some r"
    using ack by (auto simp: acknowledge_def split: option.splits)
  define r' where "r' = acknowledged_record t (br_members br) r"
  define p where "p = [(''message_id'', PStr mid), (''recipient'', PStr t)]"
  have r': "mr_envelope r' = mr_envelope r" "mr_state r' \<noteq> ''queued''"
    by (auto simp: r'_def acknowledged_record_def Let_def)
  have br': "br' = journal_event ''agent_message_acknowledged'' p (br\<lparr>br_messages := dset mid r' (br_messages br)\<rparr>)"
    using ack r by (auto simp: acknowledge_def Let_def r'_def p_def split: if_splits)
  let ?b = "br\<lparr>br_messages := dset mid r' (br_messages br)\<rparr>"
  have "mail_inv ?b" by (rule mail_inv_revise[OF _ r]) (use ok r' in \<open>simp_all add: broker_ok_def\<close>)
  moreover have "ack_inv ?b" by (rule ack_inv_dset[of br r' _ mid]) (use ok r' in \<open>simp_all add: broker_ok_def\<close>)
  ultimately have "mail_inv br' \<and> ack_inv br'"
    unfolding br' using mail_inv_journal[of ?b "''agent_message_acknowledged''"]
      ack_inv_same[of ?b "journal_event ''agent_message_acknowledged'' p ?b"] by simp
  then show ?thesis using keeps_quest[OF ok, of br' who] by (auto simp: br')
qed

lemma pending_count_append:
  "length (filter (\<lambda>q. qn_status q = ''pending'') (map snd (qs @ [(k, q)])))
   = length (filter (\<lambda>q. qn_status q = ''pending'') (map snd qs)) + (if qn_status q = ''pending'' then 1 else 0)"
  by simp

lemma ask_keeps:
  assumes ok: "broker_ok br" and fresh: "uuid \<notin> set (keys (br_messages br))"
    and ask: "open_question ft now uuid s to question context_text expected timeout br = Inr (p, br')"
  shows "keeps who br br'"
proof -
  obtain e b content where
    send: "send_locked ft now uuid s to ''clarification_request'' content [] [] True (Some timeout) br = Inr (e, b)"
    and room: "int (pending_count br) < br_max_pending_questions br"
    and out: "Inr (question_projection b \<lparr>qn_envelope = e, qn_status = ''pending'', qn_answer = [], qn_future = Waiting, qn_delivered = False\<rparr>,
        journal_event ''question_wait_started''
         (question_projection b \<lparr>qn_envelope = e, qn_status = ''pending'', qn_answer = [], qn_future = Waiting, qn_delivered = False\<rparr>)
         (b\<lparr>br_questions := dset (en_message_id e) \<lparr>qn_envelope = e, qn_status = ''pending'', qn_answer = [], qn_future = Waiting,
            qn_delivered = False\<rparr> (br_questions b), br_pending_event := True\<rparr>)) = (Inr (p, br') :: string + payload \<times> broker)"
    using ask unfolding open_question_def Let_def pending_count_def by (elim bindE_InrE) (auto elim!: bindE_InrE)
  let ?q = "\<lparr>qn_envelope = e, qn_status = ''pending'', qn_answer = [], qn_future = Waiting, qn_delivered = False\<rparr>"
  let ?b = "b\<lparr>br_questions := dset uuid ?q (br_questions b), br_pending_event := True\<rparr>"
  have post: "b = post_message e br" "en_message_id e = uuid"
    using send_cases[OF send] by blast+
  have k: "keeps who br b" "br_questions b = br_questions br" using send_keeps[OF ok send fresh] by blast+
  have new: "uuid \<notin> set (keys (br_questions br))"
  proof
    assume "uuid \<in> set (keys (br_questions br))"
    then have "dget (br_messages br) uuid \<noteq> None" using ok by (auto simp: broker_ok_def quest_inv_def keys_def)
    then show False using fresh by (metis map_of_NoneI)
  qed
  define x where "x = question_projection b ?q"
  have br': "br' = journal_event ''question_wait_started'' x ?b"
    using out[unfolded post(2)] by (simp only: sum.inject prod.inject x_def) blast
  have "quest_inv ?b"
  proof -
    have b: "quest_inv b" using k(1) by (simp add: keeps_def broker_ok_def)
    have d: "dset uuid ?q (br_questions b) = br_questions b @ [(uuid, ?q)]" using new k(2) by (simp add: dset_fresh)
    have "\<forall>(qid, q) \<in> set (br_questions b @ [(uuid, ?q)]). qn_future q \<in> {future_of (qn_status q) (qn_answer q), FutureCancelled}
          \<and> en_message_id (qn_envelope q) = qid \<and> dget (br_messages b) qid \<noteq> None"
      using b post unfolding quest_inv_def by (auto simp: future_of_def)
    moreover have "distinct (keys (br_questions b @ [(uuid, ?q)]))" using b new k(2) by (simp add: quest_inv_def)
    moreover have "int (pending_count ?b) \<le> max 0 (br_max_pending_questions b)"
      using room post by (simp add: pending_count_def dset_fresh[OF new])
    ultimately show ?thesis by (simp add: quest_inv_def d)
  qed
  moreover have "q_moves (may_answer who br) br ?b"
    unfolding q_moves_def using new k(2) by (auto dest: map_of_in_keys)
  moreover have "same_mail b ?b" by (simp add: same_mail_def deliveries_def)
  then have "mail_inv ?b \<and> ack_inv ?b"
    using k(1) mail_inv_same_mail ack_inv_same_mail by (auto simp: keeps_def broker_ok_def)
  ultimately have "broker_ok ?b \<and> q_moves (may_answer who br) br ?b" by (simp add: broker_ok_def)
  then show ?thesis
    unfolding keeps_def br' using broker_ok_same[of ?b "journal_event ''question_wait_started'' x ?b"]
      plain_entry_keeps(3)[OF plain_entry_journal, of "''question_wait_started''" "\<lambda>_ _. x" "[]" ?b]
    by (auto simp: broker_ok_def q_moves_def)
qed

lemma answer_keeps:
  assumes ok: "broker_ok br" and answer: "answer_question now who qid a br = Inr (p, br')"
  shows "keeps who br br'"
proof -
  obtain q where q: "dget (br_questions br) qid = Some q"
    using answer by (auto simp: answer_question_def split: if_splits option.splits)
  show ?thesis
  proof (cases "qn_status q = ''pending''")
    case False
    then have "br' = br" using answer q by (auto simp: answer_question_def split: if_splits)
    then show ?thesis using keeps_refl[OF ok] by simp
  next
    case True
    let ?f = "finish_question now qid (take (nat (br_max_message_bytes br)) a) ''answered'' br"
    have allowed: "may_answer who br qid"
      using answer q True by (auto simp: answer_question_def may_answer_def Let_def split: if_splits)
    define x where "x = dset ''answer'' (PStr (take (nat (br_max_message_bytes br)) a)) (question_projection ?f (the (dget (br_questions ?f) qid)))"
    have br': "br' = journal_event ''question_answered'' x ?f"
      using answer q True by (auto simp: answer_question_def Let_def x_def split: if_splits)
    have f: "quest_inv ?f \<and> q_moves (may_answer who br) br ?f"
      by (rule finish_question_keeps[OF _ q True]) (use ok allowed in \<open>simp_all add: broker_ok_def\<close>)
    have "same_mail br br'"
      unfolding br' by (rule same_mail_trans[OF _ same_mail_journal]) simp_all
    moreover have "quest_inv br'" using f plain_entry_keeps(3)[OF plain_entry_journal, of "''question_answered''" "\<lambda>_ _. x" "[]" ?f]
      by (simp add: br')
    ultimately show ?thesis
      using keeps_mail[OF ok, of br' who] f q_moves_trans[of "may_answer who br" br ?f br'] by (simp add: br' q_moves_same)
  qed
qed

lemma mark_keeps:
  assumes ok: "broker_ok br" and f: "\<And>q. qn_status (f q) = qn_status q" "\<And>q. qn_answer (f q) = qn_answer q"
      "\<And>q. qn_envelope (f q) = qn_envelope q"
      "\<And>q. qn_future q \<noteq> NoFuture \<Longrightarrow> qn_future (f q) \<in> {qn_future q, FutureCancelled}"
  shows "keeps who br (mark_question qid f br)"
proof (cases "dget (br_questions br) qid")
  case None
  then show ?thesis using keeps_refl[OF ok] by (simp add: mark_question_def)
next
  case (Some q)
  have fut: "qn_future q \<in> {future_of (qn_status q) (qn_answer q), FutureCancelled}"
    using ok map_of_SomeD[OF Some] by (auto simp: broker_ok_def quest_inv_def)
  then have "qn_future q \<noteq> NoFuture" by (auto simp: future_of_def split: if_splits)
  then have "qn_future (f q) \<in> {future_of (qn_status (f q)) (qn_answer (f q)), FutureCancelled}"
    using fut f(4)[of q] by (auto simp: f)
  note fut' = this
  have "quest_inv (mark_question qid f br)"
  proof (rule quest_inv_dset[OF _ Some fut'])
    show "quest_inv br" using ok by (simp add: broker_ok_def)
  qed (simp_all add: mark_question_def Some f)
  moreover have "same_mail br (mark_question qid f br)" by (simp add: same_mail_def mark_question_def Some deliveries_def)
  moreover have "q_moves (may_answer who br) br (mark_question qid f br)"
    using Some f by (auto simp: q_moves_def mark_question_def)
  ultimately show ?thesis by (intro keeps_mail[OF ok])
qed

lemma expire_keeps:
  assumes ok: "broker_ok br"
  shows "keeps who br (snd (wait_expire now qid br))"
proof -
  let ?c = "wait_cancel qid br"
  have c: "keeps who br ?c" unfolding wait_cancel_def by (rule mark_keeps[OF ok]) simp_all
  have "keeps who ?c (snd (wait_expire now qid br))"
  proof (cases "\<exists>q. dget (br_questions ?c) qid = Some q \<and> qn_status q = ''pending''")
    case False
    then have "snd (wait_expire now qid br) = ?c" by (auto simp: wait_expire_def Let_def split: option.splits)
    then show ?thesis using c keeps_refl by (simp add: keeps_def)
  next
    case True
    then obtain q where q: "dget (br_questions ?c) qid = Some q" "qn_status q = ''pending''" by blast
    let ?f = "finish_question now qid [] ''expired'' ?c"
    define x where "x = question_projection ?f (the (dget (br_questions ?f) qid))"
    have br': "snd (wait_expire now qid br) = journal_event ''question_timed_out'' x ?f"
      using q by (simp add: wait_expire_def Let_def x_def)
    have okc: "broker_ok ?c" using c by (simp add: keeps_def)
    have f: "quest_inv ?f \<and> q_moves (may_answer who ?c) ?c ?f"
      by (rule finish_question_keeps[OF _ q]) (use okc in \<open>simp_all add: broker_ok_def\<close>)
    have "same_mail ?c (journal_event ''question_timed_out'' x ?f)"
      by (rule same_mail_trans[OF _ same_mail_journal]) simp_all
    moreover have "quest_inv (journal_event ''question_timed_out'' x ?f)"
      using f plain_entry_keeps(3)[OF plain_entry_journal, of "''question_timed_out''" "\<lambda>_ _. x" "[]" ?f] by simp
    ultimately show ?thesis
      using keeps_mail[OF okc, of "journal_event ''question_timed_out'' x ?f" who] f
        q_moves_trans[of "may_answer who ?c" ?c ?f "journal_event ''question_timed_out'' x ?f"] by (simp add: br' q_moves_same)
  qed
  moreover have "may_answer who ?c k \<Longrightarrow> may_answer who br k" for k
    by (auto simp: may_answer_def wait_cancel_def mark_question_def split: option.splits if_splits)
  ultimately have "broker_ok (snd (wait_expire now qid br))" "q_moves (may_answer who br) ?c (snd (wait_expire now qid br))"
    unfolding keeps_def q_moves_def by blast+
  then show ?thesis using c q_moves_trans[of "may_answer who br" br ?c] by (simp add: keeps_def)
qed

theorem step_keeps:
  assumes step: "broker_step ft who br br'" and ok: "broker_ok br"
  shows "keeps who br br'"
  using step
proof cases
  case (joins) then show ?thesis by (rule join_keeps[OF ok])
next
  case (leaves now reason) then show ?thesis using leave_keeps[OF ok] by simp
next
  case (sends now uuid to kind content reply correlation wants ttl e)
  then show ?thesis using send_keeps[OF ok] by blast
next
  case (polls now limit es) then show ?thesis by (intro poll_keeps[OF ok])
next
  case (acknowledges mid s) then show ?thesis by (intro acknowledge_keeps[OF ok])
next
  case (asks now uuid to question context_text expected timeout p)
  then show ?thesis by (intro ask_keeps[OF ok])
next
  case (answers now qid a p) then show ?thesis by (intro answer_keeps[OF ok])
next
  case (refuses status now) then show ?thesis using refuse_keeps[OF ok] by simp
next
  case (starts_waiting qid)
  have "keeps who br (snd (wait_begin qid br))"
    using keeps_refl[OF ok] mark_keeps[OF ok] by (simp add: wait_begin_def split: option.split)
  then show ?thesis using starts_waiting by simp
next
  case (cancels_waiting qid)
  have "keeps who br (wait_cancel qid br)"
    unfolding wait_cancel_def by (rule mark_keeps[OF ok]) simp_all
  then show ?thesis using cancels_waiting by simp
next
  case (stops_waiting qid)
  have "keeps who br (snd (wait_end qid br))"
    using keeps_refl[OF ok] mark_keeps[OF ok] by (simp add: wait_end_def split: option.split fut.split)
  then show ?thesis using stops_waiting by simp
next
  case (gives_up now qid) then show ?thesis using expire_keeps[OF ok] by simp
next
  case (closes now) then show ?thesis using close_keeps[OF ok] by simp
qed

lemma broker_ok_init:
  assumes "broker_init conversation parent_run pool revision (Some []) timeout max_bytes max_mailbox max_questions = Inr br"
  shows "broker_ok br"
  using assms
  by (auto simp: broker_init_def broker_ok_def mail_inv_def ack_inv_def quest_inv_def pending_count_def deliveries_def
      arrivals_def List.map_filter_def msg_env_def addressed_def queued_def split: if_splits)

end
