(* ===== verification/Broker_Restart.thy ===== *)
theory Broker_Restart
  imports Broker_Laws
begin

text \<open>
  What a restart rebuilds: the broker that is folded from the journal tracks the live one, through every
  operation.
\<close>

section \<open>The relation between the live broker and the folded one\<close>

definition journaled_end :: "string \<Rightarrow> bool" where
  "journaled_end s \<longleftrightarrow> s = ''answered'' \<or> s = ''expired'' \<or> s = ''cancelled''"

definition same_question :: "question_record option \<Rightarrow> question_record option \<Rightarrow> bool" where
  "same_question live folded \<longleftrightarrow> (case (live, folded) of
       (None, None) \<Rightarrow> True
     | (Some q, Some q') \<Rightarrow> qn_envelope q' = qn_envelope q
         \<and> (if journaled_end (qn_status q) then qn_status q' = qn_status q \<and> qn_answer q' = qn_answer q
            else qn_status q' = ''pending'')
     | _ \<Rightarrow> False)"

definition same_ids :: "broker \<Rightarrow> broker \<Rightarrow> bool" where
  "same_ids br r \<longleftrightarrow> br_pool_id r = br_pool_id br \<and> br_conversation_id r = br_conversation_id br
     \<and> br_parent_run_id r = br_parent_run_id br"

text \<open>The folded broker has the members \<open>ms\<close>.\<close>

definition sim :: "string set \<Rightarrow> broker \<Rightarrow> broker \<Rightarrow> bool" where
  "sim ms br r \<longleftrightarrow> same_ids br r \<and> length (br_pool_id br) \<le> 128
     \<and> set (br_members r) = ms
     \<and> keys (br_messages r) = keys (br_messages br) \<and> msg_env r = msg_env br
     \<and> (\<forall>m. queued br m \<longrightarrow> queued r m)
     \<and> (\<forall>m e. msg_env br m = Some e \<and> en_recipient e \<noteq> ''pool'' \<longrightarrow> m \<in> set (br_mailboxes r (en_recipient e)))
     \<and> (\<forall>qid. same_question (dget (br_questions br) qid) (dget (br_questions r) qid))"

definition tracks :: "json_text \<Rightarrow> broker \<Rightarrow> string set \<Rightarrow> broker \<Rightarrow> bool" where
  "tracks jt r0 ms br \<longleftrightarrow> (\<exists>js r. br_journal br = Some js \<and> foldE (rehydrate_event jt) js r0 = Inr r \<and> sim ms br r)"

lemma tracks_silent:
  assumes "tracks jt r0 ms br" "br_journal br' = br_journal br" "\<And>r. sim ms br r \<Longrightarrow> sim ms br' r"
  shows "tracks jt r0 ms br'"
  using assms unfolding tracks_def by metis

lemma tracks_event:
  assumes "tracks jt r0 ms br" "br_journal br' = br_journal br"
    and "\<And>r. sim ms br r \<Longrightarrow> \<exists>r'. rehydrate_event jt (agent_message_event (br_pool_id br') (br_conversation_id br')
        (br_parent_run_id br') (br_policy_revision br') k p) r = Inr r' \<and> sim ms' br' r'"
  shows "tracks jt r0 ms' (journal_event k p br')"
proof -
  obtain js r where js: "br_journal br = Some js" "foldE (rehydrate_event jt) js r0 = Inr r" "sim ms br r"
    using assms(1) by (auto simp: tracks_def)
  obtain r' where r': "rehydrate_event jt (agent_message_event (br_pool_id br') (br_conversation_id br')
        (br_parent_run_id br') (br_policy_revision br') k p) r = Inr r'" "sim ms' br' r'"
    using assms(3)[OF js(3)] by blast
  have "sim ms' (journal_event k p br') r'" using r'(2) by (simp add: sim_def same_ids_def)
  moreover have "br_journal (journal_event k p br') = Some (js @ [agent_message_event (br_pool_id br') (br_conversation_id br')
        (br_parent_run_id br') (br_policy_revision br') k p])"
    using js(1) assms(2) by (simp add: journal_event_def)
  ultimately show ?thesis using js r' by (auto simp: tracks_def foldE_append)
qed

text \<open>An event of the pool is read with its own kind and payload.\<close>

lemma rehydrate_event_entry:
  assumes "br_pool_id r = pool" "length pool \<le> 128" "length k \<le> 64"
  shows "rehydrate_event jt (agent_message_event pool c u v k p) r =
    (if k = ''agent_message_sent'' then bindE (read_envelope jt p) (\<lambda>e. Inr (case e of None \<Rightarrow> r | Some e \<Rightarrow> rehydrate_sent e r))
     else if k = ''agent_pool_member'' then Inr (rehydrate_member jt p r)
     else if k = ''question_wait_started'' then Inr (rehydrate_question jt p r)
     else if k = ''question_answered'' then Inr (rehydrate_outcome jt ''answered'' p r)
     else if k = ''question_timed_out'' then Inr (rehydrate_outcome jt ''expired'' p r)
     else if k = ''question_cancelled'' then Inr (rehydrate_outcome jt ''cancelled'' p r)
     else if k = ''agent_message_delivered''
     then Inr (set_message_state (text_field (jt_float jt) p ''message_id'' []) ''delivered'' r)
     else if k = ''agent_message_acknowledged'' then Inr (rehydrate_acknowledged jt p r)
     else Inr r)"
proof -
  have "text_field (jt_float jt) (agent_message_event pool c u v k p) ''pool_id'' [] = pool"
    "text_field (jt_float jt) (agent_message_event pool c u v k p) ''event_kind'' [] = k"
    using assms by (simp_all add: text_field_def agent_message_event_def dget_or_def)
  then show ?thesis
    by (simp only: rehydrate_event_def assms(1) pget_agent_message_event mapping_of_of_dict option.case Let_def
        simp_thms if_False)
qed

lemma envelope_fields:
  "dget (envelope_to_dict e) ''message_id'' = Some (PStr (en_message_id e))"
  "dget (envelope_to_dict e) ''conversation_id'' = Some (PStr (en_conversation_id e))"
  "dget (envelope_to_dict e) ''parent_run_id'' = Some (PStr (en_parent_run_id e))"
  "dget (envelope_to_dict e) ''pool_id'' = Some (PStr (en_pool_id e))"
  "dget (envelope_to_dict e) ''sender'' = Some (PStr (en_sender e))"
  "dget (envelope_to_dict e) ''recipient'' = Some (PStr (en_recipient e))"
  "dget (envelope_to_dict e) ''kind'' = Some (PStr (en_kind e))"
  "dget (envelope_to_dict e) ''payload'' = Some (of_dict (en_payload e))"
  "dget (envelope_to_dict e) ''reply_to'' = Some (PStr (en_reply_to e))"
  "dget (envelope_to_dict e) ''correlation_id'' = Some (PStr (en_correlation_id e))"
  "dget (envelope_to_dict e) ''sequence'' = Some (PInt (en_sequence e))"
  "dget (envelope_to_dict e) ''created_at'' = Some (PFloat (en_created_at e))"
  "dget (envelope_to_dict e) ''expires_at'' = Some (of_opt_float (en_expires_at e))"
  "dget (envelope_to_dict e) ''requires_response'' = Some (PBool (en_requires_response e))"
  "dget (envelope_to_dict e) ''policy_revision'' = Some (PStr (en_policy_revision e))"
  by (simp_all add: envelope_to_dict_def)

lemma read_envelope_roundtrip: "read_envelope jt (envelope_to_dict e) = Inr (Some e)"
proof (cases "en_expires_at e")
  case None
  then show ?thesis
    by (simp add: read_envelope_def text_field_def dget_or_def pget_def envelope_fields)
next
  case (Some f)
  then show ?thesis
    by (simp add: read_envelope_def text_field_def dget_or_def pget_def envelope_fields)
qed

section \<open>Every operation is is_tracked\<close>

lemma tracks_mail:
  assumes "tracks jt r0 ms br" "br_journal br' = br_journal br" "br_messages br' = br_messages br"
    "br_questions br' = br_questions br" "same_ids br br'"
  shows "tracks jt r0 ms br'"
  using assms(1,2)
proof (rule tracks_silent)
  have views: "msg_env br' = msg_env br" "queued br' = queued br"
    by (simp_all add: msg_env_def queued_def fun_eq_iff assms)
  fix r assume "sim ms br r"
  then show "sim ms br' r" using assms(3-5) by (simp add: sim_def same_ids_def views)
qed

lemma sim_sent:
  assumes sim: "sim ms br r" and e: "same_ids br r \<Longrightarrow> en_conversation_id e = br_conversation_id br"
      "en_parent_run_id e = br_parent_run_id br" "en_pool_id e = br_pool_id br"
    and known: "en_sender e \<in> ms" "en_recipient e = ''pool'' \<or> en_recipient e \<in> ms"
    and fresh: "en_message_id e \<notin> set (keys (br_messages br))"
  shows "sim ms (post_message e br) (rehydrate_sent e r)"
proof -
  let ?id = "en_message_id e"
  let ?rec = "\<lparr>mr_envelope = e, mr_state = ''queued'', mr_acknowledged = False, mr_acknowledged_by = {}\<rparr>"
  have ks: "keys (br_messages r) = keys (br_messages br)" using sim by (simp add: sim_def)
  have none: "dget (br_messages r) ?id = None" using fresh by (simp add: ks map_of_NoneI)
  have r': "rehydrate_sent e r = accept_sent e r"
    using sim e known none unfolding rehydrate_sent_def by (auto simp: sim_def same_ids_def)
  have msgs: "br_messages (rehydrate_sent e r) = br_messages r @ [(?id, ?rec)]"
      "br_messages (post_message e br) = br_messages br @ [(?id, ?rec)]"
    using fresh ks by (simp_all add: r' accept_sent_def Let_def deliver_to_def post_message_def dset_fresh)
  have frame: "br_members (rehydrate_sent e r) = br_members r" "br_questions (rehydrate_sent e r) = br_questions r"
      "same_ids r (rehydrate_sent e r)" "same_ids br (post_message e br)"
    by (simp_all add: r' accept_sent_def Let_def deliver_to_def same_ids_def post_message_def)
  have box: "set (br_mailboxes r t) \<subseteq> set (br_mailboxes (rehydrate_sent e r) t)" for t
    by (auto simp: r' accept_sent_def Let_def deliver_to_def)
  have mine: "en_recipient e \<noteq> ''pool'' \<Longrightarrow> ?id \<in> set (br_mailboxes (rehydrate_sent e r) (en_recipient e))"
    by (simp add: r' accept_sent_def Let_def deliver_to_def message_targets_def)
  have env: "msg_env (rehydrate_sent e r) = (msg_env r)(?id \<mapsto> e)" "msg_env (post_message e br) = (msg_env br)(?id \<mapsto> e)"
    using fresh ks by (auto simp: msg_env_def msgs fun_eq_iff map_add_def map_of_NoneI split: option.splits)
  have q: "queued (post_message e br) m \<Longrightarrow> queued (rehydrate_sent e r) m" for m
    using sim fresh ks by (auto simp: sim_def queued_def msgs map_add_def map_of_NoneI split: option.splits)
  show ?thesis
    unfolding sim_def
  proof (intro conjI allI impI)
    show "same_ids (post_message e br) (rehydrate_sent e r)" "length (br_pool_id (post_message e br)) \<le> 128"
        "set (br_members (rehydrate_sent e r)) = ms"
      using sim frame by (simp_all add: sim_def same_ids_def)
    show "keys (br_messages (rehydrate_sent e r)) = keys (br_messages (post_message e br))" using ks by (simp add: msgs)
    show "msg_env (rehydrate_sent e r) = msg_env (post_message e br)" using sim by (simp add: env sim_def)
    fix m e' assume m: "msg_env (post_message e br) m = Some e' \<and> en_recipient e' \<noteq> ''pool''"
    show "m \<in> set (br_mailboxes (rehydrate_sent e r) (en_recipient e'))"
    proof (cases "m = ?id")
      case True
      then show ?thesis using m mine by (simp add: env)
    next
      case False
      then have "m \<in> set (br_mailboxes r (en_recipient e'))" using m sim by (simp add: env sim_def)
      then show ?thesis using box by blast
    qed
  qed (use q sim frame in \<open>simp_all add: sim_def\<close>)
qed

lemma tracks_send:
  assumes tr: "tracks jt r0 (set (br_members br)) br" and e: "en_conversation_id e = br_conversation_id br"
      "en_parent_run_id e = br_parent_run_id br" "en_pool_id e = br_pool_id br"
      "en_sender e \<in> set (br_members br)" "en_recipient e = ''pool'' \<or> en_recipient e \<in> set (br_members br)"
      "en_message_id e \<notin> set (keys (br_messages br))"
  shows "tracks jt r0 (set (br_members br)) (post_message e br)"
proof -
  let ?b = "deliver_to (message_targets (en_sender e) (en_recipient e) br) (en_message_id e)
          (br\<lparr>br_messages := dset (en_message_id e)
             \<lparr>mr_envelope = e, mr_state = ''queued'', mr_acknowledged = False, mr_acknowledged_by = {}\<rparr> (br_messages br)\<rparr>)
        \<lparr>br_sequence := (br_sequence br)(en_sender e := en_sequence e), br_message_event := True\<rparr>"
  have post: "post_message e br = journal_event ''agent_message_sent'' (envelope_to_dict e) ?b"
    by (simp add: post_message_def)
  show ?thesis
    unfolding post
  proof (rule tracks_event[OF tr])
    show "br_journal ?b = br_journal br" by (simp add: deliver_to_def)
    fix r assume sim: "sim (set (br_members br)) br r"
    have ids: "br_pool_id r = br_pool_id ?b" "length (br_pool_id ?b) \<le> 128"
      using sim by (simp_all add: sim_def same_ids_def deliver_to_def)
    have "sim (set (br_members br)) (post_message e br) (rehydrate_sent e r)"
      by (rule sim_sent[OF sim]) (use e in simp_all)
    then have "sim (set (br_members br)) ?b (rehydrate_sent e r)"
      by (simp add: post sim_def same_ids_def)
    moreover have "rehydrate_event jt (agent_message_event (br_pool_id ?b) (br_conversation_id ?b) (br_parent_run_id ?b)
        (br_policy_revision ?b) ''agent_message_sent'' (envelope_to_dict e)) r = Inr (rehydrate_sent e r)"
      by (subst rehydrate_event_entry[OF ids]) (simp_all add: read_envelope_roundtrip)
    ultimately show "\<exists>r'. rehydrate_event jt (agent_message_event (br_pool_id ?b) (br_conversation_id ?b) (br_parent_run_id ?b)
        (br_policy_revision ?b) ''agent_message_sent'' (envelope_to_dict e)) r = Inr r' \<and> sim (set (br_members br)) ?b r'"
      by blast
  qed
qed

lemma same_question_dset:
  "\<forall>k. same_question (dget d k) (dget d' k) \<Longrightarrow> same_question (Some x) (Some x') \<Longrightarrow>
   same_question (dget (dset qid x d) k) (dget (dset qid x' d') k)"
  by simp

text \<open>An ended question whose line follows at once.\<close>

lemma tracks_outcome:
  assumes tr: "tracks jt r0 ms br" and quest: "quest_inv br"
    and q: "dget (br_questions br) qid = Some q" "qn_status q = ''pending''"
    and k: "(k, s) \<in> {(''question_answered'', ''answered''), (''question_timed_out'', ''expired''), (''question_cancelled'', ''cancelled'')}"
    and p: "pget p ''question_id'' = PStr qid" "pget p ''answer'' = PStr a"
  shows "tracks jt r0 ms (journal_event k p (finish_question now qid a s br))"
proof (rule tracks_event[OF tr])
  let ?b = "finish_question now qid a s br"
  have s: "s \<noteq> ''pending''" "journaled_end s" "length k \<le> 64" using k by (auto simp: journaled_end_def)
  note map = finish_question_map[OF q s(1), of now a]
  show "br_journal ?b = br_journal br" by (simp add: finish_question_def Let_def q)
  have ids: "same_ids br ?b" by (simp add: finish_question_def Let_def q same_ids_def)
  fix r assume sim: "sim ms br r"
  have r: "br_pool_id r = br_pool_id ?b" "length (br_pool_id ?b) \<le> 128" using sim ids by (simp_all add: sim_def same_ids_def)
  have "same_question (Some q) (dget (br_questions r) qid)" using sim q(1) unfolding sim_def by metis
  then obtain q' where q': "dget (br_questions r) qid = Some q'" "qn_status q' = ''pending''" "qn_envelope q' = qn_envelope q"
    using q(2) by (auto simp: same_question_def journaled_end_def split: option.splits)
  have fields: "text_field (jt_float jt) p ''question_id'' [] = qid" "text_field (jt_float jt) p ''answer'' [] = a"
    using p by (auto simp: text_field_def pget_def dget_or_def split: option.splits)
  let ?r = "r\<lparr>br_questions := dset qid (q'\<lparr>qn_status := s, qn_answer := a\<rparr>) (br_questions r)\<rparr>"
  have out: "rehydrate_outcome jt s p r = ?r" by (simp add: rehydrate_outcome_def fields q')
  have ks: "k = ''question_answered'' \<and> s = ''answered'' \<or> k = ''question_timed_out'' \<and> s = ''expired''
      \<or> k = ''question_cancelled'' \<and> s = ''cancelled''"
    using k by simp
  have "rehydrate_event jt (agent_message_event (br_pool_id ?b) (br_conversation_id ?b) (br_parent_run_id ?b)
      (br_policy_revision ?b) k p) r = Inr (rehydrate_outcome jt s p r)"
    unfolding rehydrate_event_entry[OF r s(3)] using ks by (elim disjE conjE) (simp_all only:, simp_all)
  then have "rehydrate_event jt (agent_message_event (br_pool_id ?b) (br_conversation_id ?b) (br_parent_run_id ?b)
      (br_policy_revision ?b) k p) r = Inr ?r"
    by (simp only: out)
  moreover have "sim ms ?b ?r"
  proof -
    have "\<forall>x. same_question (dget (br_questions br) x) (dget (br_questions r) x)" using sim by (simp add: sim_def)
    then have "\<forall>x. same_question (dget (br_questions ?b) x) (dget (br_questions ?r) x)"
      using s(2) q' by (simp add: map same_question_def)
    moreover have "msg_env ?r = msg_env r" "queued ?r = queued r" "msg_env ?b = msg_env br" "queued ?b = queued br"
      by (simp_all add: msg_env_def queued_def fun_eq_iff)
    ultimately show ?thesis using sim ids by (simp add: sim_def same_ids_def)
  qed
  ultimately show "\<exists>r'. rehydrate_event jt (agent_message_event (br_pool_id ?b) (br_conversation_id ?b) (br_parent_run_id ?b)
      (br_policy_revision ?b) k p) r = Inr r' \<and> sim ms ?b r'" by blast
qed

text \<open>A question that ends without a line the fold reads.\<close>

lemma tracks_unread:
  assumes tr: "tracks jt r0 ms br" and quest: "quest_inv br"
    and q: "dget (br_questions br) qid = Some q" "qn_status q = ''pending''"
    and s: "s \<noteq> ''pending''" "\<not> journaled_end s"
  shows "tracks jt r0 ms (finish_question now qid a s br)"
proof (rule tracks_silent[OF tr])
  let ?b = "finish_question now qid a s br"
  note map = finish_question_map[OF q s(1), of now a]
  show "br_journal ?b = br_journal br" by (simp add: finish_question_def Let_def q)
  have ids: "same_ids br ?b" by (simp add: finish_question_def Let_def q same_ids_def)
  fix r assume sim: "sim ms br r"
  have all: "\<forall>x. same_question (dget (br_questions br) x) (dget (br_questions r) x)" using sim by (simp add: sim_def)
  have "same_question (dget (br_questions ?b) x) (dget (br_questions r) x)" for x
    using spec[OF all, of x] s q by (cases "x = qid") (auto simp: map same_question_def journaled_end_def split: option.splits)
  moreover have "msg_env ?b = msg_env br" "queued ?b = queued br"
    by (simp_all add: msg_env_def queued_def fun_eq_iff)
  ultimately show "sim ms ?b r" using sim ids by (simp add: sim_def same_ids_def)
qed

text \<open>A line the fold does not read.\<close>

lemma tracks_ignored:
  assumes "tracks jt r0 ms br" "k \<in> {''question_refused'', ''agent_message_rejected''}"
  shows "tracks jt r0 ms (journal_event k p br)"
proof (rule tracks_event[OF assms(1) refl])
  fix r assume sim: "sim ms br r"
  have r: "br_pool_id r = br_pool_id br" "length (br_pool_id br) \<le> 128" "length k \<le> 64"
    using sim assms(2) by (auto simp: sim_def same_ids_def)
  show "\<exists>r'. rehydrate_event jt (agent_message_event (br_pool_id br) (br_conversation_id br) (br_parent_run_id br)
      (br_policy_revision br) k p) r = Inr r' \<and> sim ms br r'"
    unfolding rehydrate_event_entry[OF r] using assms(2) sim by auto
qed

lemma tracks_member:
  assumes tr: "tracks jt r0 ms br" and w: "w \<noteq> []"
  shows "tracks jt r0 (insert w ms) (journal_event ''agent_pool_member'' [(''worker_id'', PStr w), (''state'', PStr ''registered'')] br)"
    "tracks jt r0 (ms - {w}) (journal_event ''agent_pool_member'' [(''worker_id'', PStr w), (''state'', PStr ''removed'')] br)"
proof -
  have *: "tracks jt r0 (if s = ''removed'' then ms - {w} else insert w ms)
      (journal_event ''agent_pool_member'' [(''worker_id'', PStr w), (''state'', PStr s)] br)" for s
  proof (rule tracks_event[OF tr refl])
    fix r assume sim: "sim ms br r"
    have r: "br_pool_id r = br_pool_id br" "length (br_pool_id br) \<le> 128" using sim by (simp_all add: sim_def same_ids_def)
    let ?r = "rehydrate_member jt [(''worker_id'', PStr w), (''state'', PStr s)] r"
    have m: "?r = r\<lparr>br_members := (if s = ''removed'' then removeAll w (br_members r)
        else if w \<in> set (br_members r) then br_members r else br_members r @ [w])\<rparr>"
      using w by (simp add: rehydrate_member_def text_field_def dget_or_def pget_def)
    have views: "msg_env ?r = msg_env r" "queued ?r = queued r" by (simp_all add: m msg_env_def queued_def fun_eq_iff)
    have "sim (if s = ''removed'' then ms - {w} else insert w ms) br ?r"
      using sim views by (auto simp: sim_def same_ids_def m)
    then show "\<exists>r'. rehydrate_event jt (agent_message_event (br_pool_id br) (br_conversation_id br) (br_parent_run_id br)
        (br_policy_revision br) ''agent_pool_member'' [(''worker_id'', PStr w), (''state'', PStr s)]) r = Inr r'
        \<and> sim (if s = ''removed'' then ms - {w} else insert w ms) br r'"
      by (intro exI[of _ ?r] conjI) (simp_all add: rehydrate_event_entry[OF r])
  qed
  show "tracks jt r0 (insert w ms) (journal_event ''agent_pool_member'' [(''worker_id'', PStr w), (''state'', PStr ''registered'')] br)"
    using *[of "''registered''"] by simp
  show "tracks jt r0 (ms - {w}) (journal_event ''agent_pool_member'' [(''worker_id'', PStr w), (''state'', PStr ''removed'')] br)"
    using *[of "''removed''"] by simp
qed

lemma tracks_nobody:
  assumes tr: "tracks jt r0 ms br" and w: "w = []"
  shows "tracks jt r0 ms (journal_event ''agent_pool_member'' [(''worker_id'', PStr w), (''state'', s)] br)"
  using tr
proof (rule tracks_event[OF _ refl])
  fix r assume sim: "sim ms br r"
  have r: "br_pool_id r = br_pool_id br" "length (br_pool_id br) \<le> 128" using sim by (simp_all add: sim_def same_ids_def)
  show "\<exists>r'. rehydrate_event jt (agent_message_event (br_pool_id br) (br_conversation_id br) (br_parent_run_id br)
      (br_policy_revision br) ''agent_pool_member'' [(''worker_id'', PStr w), (''state'', s)]) r = Inr r' \<and> sim ms br r'"
    by (intro exI[of _ r] conjI sim)
      (simp add: rehydrate_event_entry[OF r] rehydrate_member_def text_field_def dget_or_def w)
qed

text \<open>A message read, expired or acknowledged.\<close>

lemma sim_revise:
  assumes sim: "sim ms br r" and "keys (br_messages br') = keys (br_messages br)" "msg_env br' = msg_env br"
    "keys (br_messages r') = keys (br_messages r)" "msg_env r' = msg_env r"
    and q: "\<And>m. queued br' m \<Longrightarrow> queued br m \<and> (queued r m \<longrightarrow> queued r' m)"
    and "br_questions br' = br_questions br" "br_questions r' = br_questions r" "br_members r' = br_members r"
    "br_mailboxes r' = br_mailboxes r" "same_ids br br'" "same_ids r r'"
  shows "sim ms br' r'"
  using assms unfolding sim_def same_ids_def by auto

lemma set_message_state_ids [simp]: "same_ids br (set_message_state m s br)" "same_ids br br"
  by (simp_all add: same_ids_def set_message_state_def split: option.split)

lemma tracks_expired:
  assumes "tracks jt r0 ms br" "s \<noteq> ''queued''"
  shows "tracks jt r0 ms (set_message_state mid s br)"
  using assms(1)
proof (rule tracks_silent)
  fix r assume sim: "sim ms br r"
  show "sim ms (set_message_state mid s br) r"
    by (rule sim_revise[OF sim]) (use assms(2) in \<open>auto simp: set_message_state_views split: if_splits\<close>)
qed simp

lemma tracks_delivered:
  assumes "tracks jt r0 ms br"
  shows "tracks jt r0 ms (journal_event ''agent_message_delivered'' [(''message_id'', PStr mid), (''recipient'', PStr t)]
    (set_message_state mid ''delivered'' br))"
proof (rule tracks_event[OF assms])
  let ?b = "set_message_state mid ''delivered'' br"
  show "br_journal ?b = br_journal br" by simp
  fix r assume sim: "sim ms br r"
  have r: "br_pool_id r = br_pool_id ?b" "length (br_pool_id ?b) \<le> 128"
    using sim set_message_state_ids(1)[of br mid "''delivered''"] by (simp_all add: sim_def same_ids_def)
  have "sim ms ?b (set_message_state mid ''delivered'' r)"
    by (rule sim_revise[OF sim]) (auto simp: set_message_state_views split: if_splits)
  moreover have "text_field (jt_float jt) [(''message_id'', PStr mid), (''recipient'', PStr t)] ''message_id'' [] = mid"
    by (simp add: text_field_def dget_or_def)
  ultimately show "\<exists>r'. rehydrate_event jt (agent_message_event (br_pool_id ?b) (br_conversation_id ?b) (br_parent_run_id ?b)
      (br_policy_revision ?b) ''agent_message_delivered'' [(''message_id'', PStr mid), (''recipient'', PStr t)]) r = Inr r' \<and> sim ms ?b r'"
    by (intro exI[of _ "set_message_state mid ''delivered'' r"] conjI) (simp_all add: rehydrate_event_entry[OF r])
qed

lemma tracks_acknowledged:
  assumes tr: "tracks jt r0 ms br" and m: "dget (br_messages br) mid = Some x"
  shows "tracks jt r0 ms (journal_event ''agent_message_acknowledged'' [(''message_id'', PStr mid), (''recipient'', PStr t)]
    (br\<lparr>br_messages := dset mid (acknowledged_record t (br_members br) x) (br_messages br)\<rparr>))"
proof (rule tracks_event[OF tr])
  let ?b = "br\<lparr>br_messages := dset mid (acknowledged_record t (br_members br) x) (br_messages br)\<rparr>"
  let ?p = "[(''message_id'', PStr mid), (''recipient'', PStr t)]"
  show "br_journal ?b = br_journal br" by simp
  fix r assume sim: "sim ms br r"
  have r: "br_pool_id r = br_pool_id br" "length (br_pool_id br) \<le> 128" using sim by (simp_all add: sim_def same_ids_def)
  have fields: "text_field (jt_float jt) ?p ''message_id'' [] = mid" "text_field (jt_float jt) ?p ''recipient'' [] = t"
    by (simp_all add: text_field_def dget_or_def)
  have "dget (br_messages r) mid \<noteq> None"
    using sim m keys_eq_map_of[of "br_messages r" "br_messages br" mid] by (auto simp: sim_def)
  then obtain y where y: "dget (br_messages r) mid = Some y" by blast
  have "\<exists>y'. rehydrate_acknowledged jt ?p r = r\<lparr>br_messages := dset mid y' (br_messages r)\<rparr> \<and> mr_envelope y' = mr_envelope y"
    unfolding rehydrate_acknowledged_def Let_def fields y option.case by (intro exI conjI, rule refl) simp
  then obtain y' where r': "rehydrate_acknowledged jt ?p r = r\<lparr>br_messages := dset mid y' (br_messages r)\<rparr>"
      and y': "mr_envelope y' = mr_envelope y"
    by blast
  have ack: "mr_envelope (acknowledged_record t (br_members br) x) = mr_envelope x"
      "mr_state (acknowledged_record t (br_members br) x) \<noteq> ''queued''"
    by (auto simp: acknowledged_record_def Let_def)
  have "sim ms ?b (rehydrate_acknowledged jt ?p r)"
    unfolding r' by (rule sim_revise[OF sim])
      (use m y y' ack in \<open>auto simp: keys_update_state msg_env_def queued_def fun_eq_iff same_ids_def split: if_splits\<close>)
  then show "\<exists>r'. rehydrate_event jt (agent_message_event (br_pool_id ?b) (br_conversation_id ?b) (br_parent_run_id ?b)
      (br_policy_revision ?b) ''agent_message_acknowledged'' ?p) r = Inr r' \<and> sim ms ?b r'"
    by (intro exI[of _ "rehydrate_acknowledged jt ?p r"] conjI) (simp_all add: rehydrate_event_entry[OF r])
qed

lemma tracks_poll_loop:
  "tracks jt r0 ms br \<Longrightarrow> tracks jt r0 ms (snd (poll_loop now t limit br found))"
proof (induction now t limit br found rule: poll_loop.induct)
  case (1 now t limit br found)
  show ?case
  proof (cases "limit \<le> length found \<or> take_mail t br = None")
    case True
    then show ?thesis using "1.prems" by (auto simp: poll_loop.simps[of now t limit br found])
  next
    case False
    then obtain mid br1 where tm: "take_mail t br = Some (mid, br1)" by fastforce
    obtain e br2 where rm: "read_mail now t mid br1 = (e, br2)" by (cases "read_mail now t mid br1")
    have "tracks jt r0 ms br1"
      by (rule tracks_mail[OF "1.prems"])
        (use tm in \<open>auto simp: take_mail_def same_ids_def split: list.splits if_splits\<close>)
    then have "tracks jt r0 ms br2"
      using rm tracks_expired[of jt r0 ms br1 "''expired''" mid] tracks_delivered[of jt r0 ms br1 mid t]
      by (auto simp: read_mail_def split: option.splits if_splits)
    then show ?thesis using "1.IH"[OF _ tm refl rm[symmetric] refl] False tm rm
      by (simp add: poll_loop.simps[of now t limit br found])
  qed
qed

text \<open>A question asked: its message is already there.\<close>

lemma tracks_question:
  assumes tr: "tracks jt r0 ms br" and e: "msg_env br qid = Some (qn_envelope q)" and new: "dget (br_questions br) qid = None"
    and q: "qn_status q = ''pending''" and p: "pget p ''question_id'' = PStr qid"
  shows "tracks jt r0 ms (journal_event ''question_wait_started'' p
    (br\<lparr>br_questions := dset qid q (br_questions br), br_pending_event := True\<rparr>))"
proof (rule tracks_event[OF tr])
  let ?b = "br\<lparr>br_questions := dset qid q (br_questions br), br_pending_event := True\<rparr>"
  show "br_journal ?b = br_journal br" by simp
  fix r assume sim: "sim ms br r"
  have r: "br_pool_id r = br_pool_id br" "length (br_pool_id br) \<le> 128" using sim by (simp_all add: sim_def same_ids_def)
  have fields: "text_field (jt_float jt) p ''question_id'' [] = qid"
    using p by (auto simp: text_field_def pget_def dget_or_def split: option.splits)
  have all: "\<forall>x. same_question (dget (br_questions br) x) (dget (br_questions r) x)" using sim by (simp add: sim_def)
  have none: "dget (br_questions r) qid = None"
    using spec[OF all, of qid] new by (auto simp: same_question_def split: option.splits)
  have "msg_env r qid = Some (qn_envelope q)" using sim e by (simp add: sim_def)
  then obtain y where y: "dget (br_messages r) qid = Some y" "mr_envelope y = qn_envelope q"
    by (auto simp: msg_env_def)
  let ?q = "\<lparr>qn_envelope = mr_envelope y, qn_status = ''pending'', qn_answer = [], qn_future = NoFuture, qn_delivered = False\<rparr>"
  let ?r = "r\<lparr>br_questions := dset qid ?q (br_questions r)\<rparr>"
  have r': "rehydrate_question jt p r = ?r" by (simp add: rehydrate_question_def fields y none)
  have "\<forall>x. same_question (dget (br_questions ?b) x) (dget (br_questions ?r) x)"
    using all q y by (simp add: same_question_def journaled_end_def)
  moreover have "msg_env ?r = msg_env r" "queued ?r = queued r" "msg_env ?b = msg_env br" "queued ?b = queued br"
    by (simp_all add: msg_env_def queued_def fun_eq_iff)
  ultimately have "sim ms ?b ?r" using sim by (simp add: sim_def same_ids_def)
  then show "\<exists>r'. rehydrate_event jt (agent_message_event (br_pool_id ?b) (br_conversation_id ?b) (br_parent_run_id ?b)
      (br_policy_revision ?b) ''question_wait_started'' p) r = Inr r' \<and> sim ms ?b r'"
    by (intro exI[of _ ?r] conjI) (simp_all add: rehydrate_event_entry[OF r] r')
qed

lemma end_questions_tracks:
  assumes "quest_inv br" "\<And>qid q. P (qid, q) \<Longrightarrow> qn_status q = ''pending''"
    and "s \<noteq> ''pending''" "s \<noteq> ''answered''" "plain_entry g" "tracks jt r0 ms br"
    and "\<And>b qid q. tracks jt r0 ms b \<Longrightarrow> quest_inv b \<Longrightarrow> dget (br_questions b) qid = Some q \<Longrightarrow> qn_status q = ''pending''
      \<Longrightarrow> tracks jt r0 ms (g qid (finish_question now qid [] s b))"
  shows "tracks jt r0 ms (end_questions now s g P br)" "br_members (end_questions now s g P br) = br_members br"
proof -
  have p: "distinct (map fst (filter P (br_questions br)))"
    "\<forall>(qid, x) \<in> set (filter P (br_questions br)). \<exists>q. dget (br_questions br) qid = Some q \<and> qn_status q = ''pending''"
    by (rule pending_of_filter[OF assms(1) refl, of P], fact assms(2))+
  note f = finish_fold[OF assms(1) p assms(3-5), where ok = "\<lambda>_. True" and now = now and I = "tracks jt r0 ms", OF assms(6,7)]
  show "tracks jt r0 ms (end_questions now s g P br)" "br_members (end_questions now s g P br) = br_members br"
    using f by (simp_all add: end_questions_def same_mail_def)
qed

definition is_tracked :: "json_text \<Rightarrow> broker \<Rightarrow> broker \<Rightarrow> bool" where
  "is_tracked jt r0 br \<longleftrightarrow> broker_ok br \<and> tracks jt r0 (set (br_members br)) br \<and> [] \<notin> set (br_members br)"

lemma question_projection_fields:
  "pget (question_projection br q) ''question_id'' = PStr (en_message_id (qn_envelope q))"
  "pget (question_projection br q) ''answer'' = PStr (qn_answer q)"
  by (simp_all add: question_projection_def Let_def pget_def dget_or_def)

lemma finished_projection:
  fixes now a
  assumes quest: "quest_inv br" and q: "dget (br_questions br) qid = Some q" "qn_status q = ''pending''" and s: "s \<noteq> ''pending''"
  defines "b \<equiv> finish_question now qid a s br"
  defines "p \<equiv> question_projection b (the (dget (br_questions b) qid))"
  shows "pget p ''question_id'' = PStr qid" "pget p ''answer'' = PStr a"
proof -
  have m: "en_message_id (qn_envelope q) = qid"
    using quest map_of_SomeD[OF q(1)] by (auto simp: quest_inv_def)
  have "dget (br_questions b) qid = Some (q\<lparr>qn_answer := a, qn_status := s,
      qn_future := (if qn_future q = Waiting then future_of s a else qn_future q)\<rparr>)"
    unfolding b_def finish_question_map[OF q s] by simp
  then show "pget p ''question_id'' = PStr qid" "pget p ''answer'' = PStr a"
    by (simp_all add: p_def question_projection_fields m)
qed

lemma close_tracked:
  assumes "broker_ok br" "tracks jt r0 ms br"
  shows "tracks jt r0 ms (close_broker now br)" "br_members (close_broker now br) = br_members br"
proof -
  let ?g = "\<lambda>qid b. journal_event ''question_cancelled'' (question_projection b (the (dget (br_questions b) qid))) b"
  let ?P = "\<lambda>(qid, q). qn_status q = ''pending''"
  let ?b = "br\<lparr>br_closed := True\<rparr>" and ?s = "''cancelled''"
  have quest: "quest_inv ?b"
    by (rule quest_inv_same[of br]) (use assms(1) in \<open>simp_all add: broker_ok_def\<close>)
  have tr: "tracks jt r0 ms ?b" by (rule tracks_mail[OF assms(2)]) (simp_all add: same_ids_def)
  have g: "plain_entry ?g" by (rule plain_entry_journal) simp
  have eq: "close_broker now br = (end_questions now ?s ?g ?P ?b)\<lparr>br_pending_event := True, br_message_event := True\<rparr>"
    unfolding close_broker_def Let_def end_questions_def ..
  have step: "tracks jt r0 ms (?g qid (finish_question now qid [] ?s b))"
    if b: "tracks jt r0 ms b" "quest_inv b" and q: "dget (br_questions b) qid = Some q" "qn_status q = ''pending''" for b qid q
    by (rule tracks_outcome[OF b q])
      (use finished_projection[OF b(2) q, of ?s now "[]"] in simp_all)
  have *: "tracks jt r0 ms (end_questions now ?s ?g ?P ?b)"
    by (rule end_questions_tracks(1)[OF quest _ _ _ g tr step]) auto
  have mem: "br_members (end_questions now ?s ?g ?P ?b) = br_members ?b"
    by (rule end_questions_tracks(2)[OF quest _ _ _ g tr step]) auto
  show "tracks jt r0 ms (close_broker now br)"
    unfolding eq by (rule tracks_mail[OF *]) (simp_all add: same_ids_def)
  show "br_members (close_broker now br) = br_members br" unfolding eq using mem by simp
qed

lemma refuse_tracked:
  assumes "broker_ok br" "tracks jt r0 ms br"
    and s: "take 64 status \<notin> {''pending'', ''answered'', ''expired'', ''cancelled''}"
  shows "tracks jt r0 ms (snd (refuse_parent_questions now status br))"
    "br_members (snd (refuse_parent_questions now status br)) = br_members br"
proof -
  let ?g = "\<lambda>qid b. journal_event ''question_refused'' (question_projection b (the (dget (br_questions b) qid))) b"
  let ?P = "\<lambda>(qid, q). qn_status q = ''pending'' \<and> en_recipient (qn_envelope q) = ''main''"
  let ?b = "br\<lparr>br_parent_refusal := take 64 status\<rparr>" and ?s = "take 64 status"
  have quest: "quest_inv ?b"
    by (rule quest_inv_same[of br]) (use assms(1) in \<open>simp_all add: broker_ok_def\<close>)
  have tr: "tracks jt r0 ms ?b" by (rule tracks_mail[OF assms(2)]) (simp_all add: same_ids_def)
  have g: "plain_entry ?g" by (rule plain_entry_journal) simp
  have eq: "snd (refuse_parent_questions now status br) = end_questions now ?s ?g ?P ?b"
    unfolding refuse_parent_questions_def Let_def end_questions_def snd_conv ..
  have s': "?s \<noteq> ''pending''" "?s \<noteq> ''answered''" "\<not> journaled_end ?s" using s by (auto simp: journaled_end_def)
  have step: "tracks jt r0 ms (?g qid (finish_question now qid [] ?s b))"
    if b: "tracks jt r0 ms b" "quest_inv b" and q: "dget (br_questions b) qid = Some q" "qn_status q = ''pending''" for b qid q
    by (rule tracks_ignored[OF tracks_unread[OF b q s'(1,3)]]) simp
  have "tracks jt r0 ms (end_questions now ?s ?g ?P ?b)"
    by (rule end_questions_tracks(1)[OF quest _ s'(1,2) g tr step]) auto
  moreover have "br_members (end_questions now ?s ?g ?P ?b) = br_members ?b"
    by (rule end_questions_tracks(2)[OF quest _ s'(1,2) g tr step]) auto
  ultimately show "tracks jt r0 ms (snd (refuse_parent_questions now status br))"
    "br_members (snd (refuse_parent_questions now status br)) = br_members br" unfolding eq by simp_all
qed

lemma leave_tracked:
  assumes ok: "broker_ok br" and tr: "tracks jt r0 (set (br_members br)) br" and e: "[] \<notin> set (br_members br)"
  shows "tracks jt r0 (set (br_members (unregister_worker now w reason br))) (unregister_worker now w reason br)"
    "[] \<notin> set (br_members (unregister_worker now w reason br))"
proof -
  let ?b = "br\<lparr>br_members := removeAll w (br_members br)\<rparr>" and ?ms = "set (br_members br)"
  let ?P = "\<lambda>(qid, q). en_sender (qn_envelope q) = w \<and> qn_status q = ''pending''"
  let ?f = "end_questions now ''orphaned'' (\<lambda>qid b. b) ?P ?b"
  let ?j = "journal_event ''agent_message_rejected'' [(''sender'', PStr w), (''reason'', PStr reason)] ?f"
  have quest: "quest_inv ?b"
    by (rule quest_inv_same[of br]) (use ok in \<open>simp_all add: broker_ok_def\<close>)
  have tr': "tracks jt r0 ?ms ?b" by (rule tracks_mail[OF tr]) (simp_all add: same_ids_def)
  have g: "plain_entry (\<lambda>qid b. b)" by (simp add: plain_entry_def)
  have eq: "unregister_worker now w reason br = journal_event ''agent_pool_member'' [(''worker_id'', PStr w), (''state'', PStr ''removed'')] ?j"
    unfolding unregister_worker_def Let_def end_questions_def ..
  have step: "tracks jt r0 ?ms (finish_question now qid [] ''orphaned'' b)"
    if b: "tracks jt r0 ?ms b" "quest_inv b" and q: "dget (br_questions b) qid = Some q" "qn_status q = ''pending''" for b qid q
    by (rule tracks_unread[OF b q]) (simp_all add: journaled_end_def)
  have *: "tracks jt r0 ?ms ?f"
    by (rule end_questions_tracks(1)[OF quest _ _ _ g tr' step]) auto
  have mem: "br_members ?f = br_members ?b"
    by (rule end_questions_tracks(2)[OF quest _ _ _ g tr' step]) auto
  have m: "set (br_members (unregister_worker now w reason br)) = ?ms - {w}" using mem by (simp add: eq)
  then show "[] \<notin> set (br_members (unregister_worker now w reason br))" using e by simp
  have j: "tracks jt r0 ?ms ?j" by (rule tracks_ignored[OF *]) simp
  show "tracks jt r0 (set (br_members (unregister_worker now w reason br))) (unregister_worker now w reason br)"
  proof (cases "w = []")
    case False
    then show ?thesis unfolding m unfolding eq by (rule tracks_member(2)[OF j])
  next
    case True
    have "tracks jt r0 ?ms (unregister_worker now w reason br)" unfolding eq by (rule tracks_nobody[OF j True])
    then show ?thesis unfolding m using e True by simp
  qed
qed

lemma join_tracked:
  assumes ok: "broker_ok br" and tr: "tracks jt r0 (set (br_members br)) br" and e: "[] \<notin> set (br_members br)"
    and join: "register_worker w br = Inr br'"
  shows "tracks jt r0 (set (br_members br')) br' \<and> [] \<notin> set (br_members br')"
proof -
  let ?m = "br\<lparr>br_members := (if w \<in> set (br_members br) then br_members br else br_members br @ [w])\<rparr>"
  let ?j = "journal_event ''agent_pool_member'' [(''worker_id'', PStr w), (''state'', PStr ''registered'')] ?m"
  have d: "distinct (keys (br_messages ?j))" using ok by (simp add: broker_ok_def mail_inv_def)
  have w: "w \<noteq> []" and eq: "br' = put ?j w (map fst (filter (for_member w (br_mailboxes ?j w)) (br_messages ?j)))"
    using join adopt_fold[OF d, of w ?j] unfolding register_worker_def Let_def
    by (auto elim!: bindE_InrE simp: valid_identifier_def)
  have "tracks jt r0 (set (br_members br)) ?m" by (rule tracks_mail[OF tr]) (simp_all add: same_ids_def)
  then have "tracks jt r0 (insert w (set (br_members br))) ?j" by (rule tracks_member(1)[OF _ w])
  then have "tracks jt r0 (insert w (set (br_members br))) br'"
    by (rule tracks_mail) (simp_all add: eq put_def same_ids_def)
  moreover have "set (br_members br') = insert w (set (br_members br))" by (auto simp: eq put_def)
  ultimately show ?thesis using e w by simp
qed

lemma send_tracked:
  assumes ok: "broker_ok br" and tr: "tracks jt r0 (set (br_members br)) br"
    and send: "send_locked ft now uuid s to kind content reply correlation wants ttl br = Inr (e, br')"
    and fresh: "uuid \<notin> set (keys (br_messages br))"
  shows "tracks jt r0 (set (br_members br')) br' \<and> br_members br' = br_members br"
  using send
proof (cases rule: send_cases)
  case again
  then show ?thesis using tr by simp
next
  case post
  then show ?thesis using tracks_send[OF tr] fresh by simp
qed

lemma mark_tracked:
  assumes "tracks jt r0 ms br" and f: "\<And>q. qn_status (f q) = qn_status q" "\<And>q. qn_answer (f q) = qn_answer q"
      "\<And>q. qn_envelope (f q) = qn_envelope q"
  shows "tracks jt r0 ms (mark_question qid f br) \<and> br_members (mark_question qid f br) = br_members br"
proof (cases "dget (br_questions br) qid")
  case None
  then show ?thesis using assms(1) by (simp add: mark_question_def)
next
  case (Some q)
  let ?b = "mark_question qid f br"
  have b: "?b = br\<lparr>br_questions := dset qid (f q) (br_questions br)\<rparr>" by (simp add: mark_question_def Some)
  have "tracks jt r0 ms ?b"
  proof (rule tracks_silent[OF assms(1)])
    show "br_journal ?b = br_journal br" by (simp add: b)
    fix r assume sim: "sim ms br r"
    have all: "\<forall>x. same_question (dget (br_questions br) x) (dget (br_questions r) x)" using sim by (simp add: sim_def)
    have "same_question (dget (br_questions ?b) x) (dget (br_questions r) x)" for x
      using spec[OF all, of x] Some by (cases "x = qid") (auto simp: b same_question_def f split: option.splits)
    moreover have "msg_env ?b = msg_env br" "queued ?b = queued br" by (simp_all add: b msg_env_def queued_def fun_eq_iff)
    ultimately show "sim ms ?b r" using sim by (simp add: sim_def same_ids_def b)
  qed
  then show ?thesis by (simp add: b)
qed

lemma ask_tracked:
  assumes ok: "broker_ok br" and tr: "tracks jt r0 (set (br_members br)) br" and fresh: "uuid \<notin> set (keys (br_messages br))"
    and ask: "open_question ft now uuid s to question context_text expected timeout br = Inr (p, br')"
  shows "tracks jt r0 (set (br_members br')) br' \<and> br_members br' = br_members br"
proof -
  let ?q = "\<lambda>e. \<lparr>qn_envelope = e, qn_status = ''pending'', qn_answer = [], qn_future = Waiting, qn_delivered = False\<rparr>"
  obtain e b content where
    send: "send_locked ft now uuid s to ''clarification_request'' content [] [] True (Some timeout) br = Inr (e, b)"
    and out: "Inr (question_projection b (?q e), journal_event ''question_wait_started'' (question_projection b (?q e))
         (b\<lparr>br_questions := dset (en_message_id e) (?q e) (br_questions b), br_pending_event := True\<rparr>)) = (Inr (p, br') :: string + payload \<times> broker)"
    using ask unfolding open_question_def Let_def by (elim bindE_InrE) (auto elim!: bindE_InrE)
  have post: "b = post_message e br" "en_message_id e = uuid" using send_cases[OF send] by blast+
  have br': "br' = journal_event ''question_wait_started'' (question_projection b (?q e))
      (b\<lparr>br_questions := dset uuid (?q e) (br_questions b), br_pending_event := True\<rparr>)"
    using out[unfolded post(2)] by (simp only: sum.inject prod.inject) blast
  have b: "tracks jt r0 (set (br_members br)) b" using send_tracked[OF ok tr send fresh] post(1) by simp
  have none: "dget (br_questions b) uuid = None"
  proof (rule ccontr)
    assume "dget (br_questions b) uuid \<noteq> None"
    then obtain q where "dget (br_questions br) uuid = Some q" using post(1) by auto
    from map_of_SomeD[OF this] have "dget (br_messages br) uuid \<noteq> None"
      using ok by (auto simp: broker_ok_def quest_inv_def)
    then show False using fresh by (metis map_of_NoneI)
  qed
  have env: "msg_env b uuid = Some (qn_envelope (?q e))" using post by (simp add: msg_env_def)
  have id: "pget (question_projection b (?q e)) ''question_id'' = PStr uuid"
    by (simp add: question_projection_fields post(2))
  have "tracks jt r0 (set (br_members br)) br'"
    unfolding br' by (rule tracks_question[OF b env none _ id]) simp
  moreover have "br_members br' = br_members br" by (simp add: br' post(1))
  ultimately show ?thesis by simp
qed

lemma answer_tracked:
  assumes ok: "broker_ok br" and tr: "tracks jt r0 ms br"
    and answer: "answer_question now who qid a br = Inr (p, br')"
  shows "tracks jt r0 ms br' \<and> br_members br' = br_members br"
proof -
  obtain q where q: "dget (br_questions br) qid = Some q"
    using answer by (auto simp: answer_question_def split: if_splits option.splits)
  show ?thesis
  proof (cases "qn_status q = ''pending''")
    case False
    then show ?thesis using answer q tr by (auto simp: answer_question_def split: if_splits)
  next
    case True
    let ?c = "take (nat (br_max_message_bytes br)) a"
    let ?f = "finish_question now qid ?c ''answered'' br"
    define x where "x = dset ''answer'' (PStr ?c) (question_projection ?f (the (dget (br_questions ?f) qid)))"
    have br': "br' = journal_event ''question_answered'' x ?f"
      using answer q True by (auto simp: answer_question_def Let_def x_def split: if_splits)
    have quest: "quest_inv br" using ok by (simp add: broker_ok_def)
    have "pget x ''question_id'' = PStr qid" "pget x ''answer'' = PStr ?c"
      using finished_projection[OF quest q True, of "''answered''" now ?c] by (simp_all add: x_def pget_def)
    then have "tracks jt r0 ms br'"
      unfolding br' by (intro tracks_outcome[OF tr quest q True]) simp_all
    then show ?thesis by (simp add: br')
  qed
qed

lemma expire_tracked:
  assumes ok0: "broker_ok br" and tr0: "tracks jt r0 ms br"
  shows "tracks jt r0 ms (snd (wait_expire now qid br)) \<and> br_members (snd (wait_expire now qid br)) = br_members br"
proof -
  let ?c = "wait_cancel qid br"
  have tr: "tracks jt r0 ms ?c" and mem: "br_members ?c = br_members br"
    unfolding wait_cancel_def using mark_tracked[OF tr0] by simp_all
  have "broker_ok ?c" using step_keeps[OF cancels_waiting ok0] by (simp add: keeps_def)
  then have quest: "quest_inv ?c" by (simp add: broker_ok_def)
  show ?thesis
  proof (cases "\<exists>q. dget (br_questions ?c) qid = Some q \<and> qn_status q = ''pending''")
    case False
    then have "snd (wait_expire now qid br) = ?c" by (auto simp: wait_expire_def Let_def split: option.splits)
    then show ?thesis using tr mem by simp
  next
    case True
    then obtain q where q: "dget (br_questions ?c) qid = Some q" "qn_status q = ''pending''" by blast
    let ?f = "finish_question now qid [] ''expired'' ?c"
    define x where "x = question_projection ?f (the (dget (br_questions ?f) qid))"
    have br': "snd (wait_expire now qid br) = journal_event ''question_timed_out'' x ?f"
      using q by (simp add: wait_expire_def Let_def x_def)
    have "pget x ''question_id'' = PStr qid" "pget x ''answer'' = PStr []"
      using finished_projection[OF quest q, of "''expired''" now "[]"] by (simp_all add: x_def)
    then have "tracks jt r0 ms (snd (wait_expire now qid br))"
      unfolding br' by (intro tracks_outcome[OF tr quest q]) simp_all
    then show ?thesis by (simp add: br' mem)
  qed
qed

lemma poll_tracked:
  assumes tr: "tracks jt r0 ms br" and "poll now t limit br = Inr (es, br')"
  shows "tracks jt r0 ms br' \<and> br_members br' = br_members br"
proof -
  obtain found b where b: "poll_loop now t (nat (min limit 64)) br [] = (found, b)" by fastforce
  have br': "br' = b \<or> br' = b\<lparr>br_message_event := False\<rparr>"
    using assms(2) b by (auto simp: poll_def Let_def elim!: bindE_InrE split: if_splits)
  have "tracks jt r0 ms b" using tracks_poll_loop[OF tr, of now t "nat (min limit 64)" "[]"] b by simp
  moreover from this have "tracks jt r0 ms (b\<lparr>br_message_event := False\<rparr>)" by (rule tracks_mail) (simp_all add: same_ids_def)
  moreover have "br_members b = br_members br"
    using poll_loop_frame[of now t "nat (min limit 64)" br "[]"] b by simp
  ultimately show ?thesis using br' by auto
qed

lemma acknowledge_tracked:
  assumes tr: "tracks jt r0 ms br" and ack: "acknowledge t mid br = Inr (s, br')"
  shows "tracks jt r0 ms br' \<and> br_members br' = br_members br"
proof -
  obtain r where r: "dget (br_messages br) mid = Some r"
    using ack by (auto simp: acknowledge_def split: option.splits)
  have br': "br' = journal_event ''agent_message_acknowledged'' [(''message_id'', PStr mid), (''recipient'', PStr t)]
      (br\<lparr>br_messages := dset mid (acknowledged_record t (br_members br) r) (br_messages br)\<rparr>)"
    using ack r by (auto simp: acknowledge_def Let_def split: if_splits)
  show ?thesis using tracks_acknowledged[OF tr r] by (simp add: br')
qed

theorem step_tracked:
  assumes step: "broker_step ft who br br'" and tr: "is_tracked jt r0 br"
  shows "is_tracked jt r0 br'"
proof -
  have ok: "broker_ok br" and t: "tracks jt r0 (set (br_members br)) br" and e: "[] \<notin> set (br_members br)"
    using tr by (simp_all add: is_tracked_def)
  have ok': "broker_ok br'" using step_keeps[OF step ok] by (simp add: keeps_def)
  have "tracks jt r0 (set (br_members br')) br' \<and> [] \<notin> set (br_members br')"
    using step
  proof cases
    case joins then show ?thesis by (rule join_tracked[OF ok t e])
  next
    case (leaves now reason) then show ?thesis using leave_tracked[OF ok t e] by simp
  next
    case (sends now uuid to kind content reply correlation wants ttl e)
    then have "tracks jt r0 (set (br_members br')) br' \<and> br_members br' = br_members br"
      by (intro send_tracked[OF ok t])
    then show ?thesis using e by metis
  next
    case (polls now limit es) then show ?thesis using poll_tracked[OF t] e by simp
  next
    case (acknowledges mid s) then show ?thesis using acknowledge_tracked[OF t] e by simp
  next
    case (asks now uuid to question context_text expected timeout p)
    then have "tracks jt r0 (set (br_members br')) br' \<and> br_members br' = br_members br"
      by (intro ask_tracked[OF ok t])
    then show ?thesis using e by metis
  next
    case (answers now qid a p) then show ?thesis using answer_tracked[OF ok t] e by simp
  next
    case (refuses status now) then show ?thesis using refuse_tracked[OF ok t] e by simp
  next
    case (starts_waiting qid)
    have "tracks jt r0 (set (br_members br)) (snd (wait_begin qid br)) \<and> br_members (snd (wait_begin qid br)) = br_members br"
      using t mark_tracked[OF t] by (simp add: wait_begin_def split: option.split)
    then show ?thesis using starts_waiting e by simp
  next
    case (cancels_waiting qid)
    have "tracks jt r0 (set (br_members br)) (wait_cancel qid br) \<and> br_members (wait_cancel qid br) = br_members br"
      unfolding wait_cancel_def by (rule mark_tracked[OF t]) simp_all
    then show ?thesis using cancels_waiting e by simp
  next
    case (stops_waiting qid)
    have "tracks jt r0 (set (br_members br)) (snd (wait_end qid br)) \<and> br_members (snd (wait_end qid br)) = br_members br"
      using t mark_tracked[OF t] by (simp add: wait_end_def split: option.split fut.split)
    then show ?thesis using stops_waiting e by simp
  next
    case (gives_up now qid) then show ?thesis using expire_tracked[OF ok t] e by simp
  next
    case (closes now) then show ?thesis using close_tracked[OF ok t] e by simp
  qed
  then show ?thesis using ok' by (simp add: is_tracked_def)
qed

lemma drop_read_keeps:
  assumes "m \<in> set box" "\<forall>(k, r) \<in> set ms. mr_state r \<in> S \<longrightarrow> en_message_id (mr_envelope r) \<noteq> m"
  shows "m \<in> set (fold (\<lambda>(mid, r) box. if mr_state r \<in> S then remove1 (en_message_id (mr_envelope r)) box else box) ms box)"
  using assms
proof (induction ms arbitrary: box)
  case (Cons p ms)
  then show ?case by (cases p) (auto simp: in_set_remove1)
qed simp

lemma is_tracked_init:
  assumes init: "broker_init conversation parent_run pool revision (Some []) timeout max_bytes max_mailbox max_questions = Inr br0"
    and r0: "broker_init conversation parent_run pool revision' journal timeout' max_bytes' max_mailbox' max_questions' = Inr r0"
    and len: "length pool \<le> 128"
  shows "is_tracked jt r0 br0"
proof -
  have v: "br_journal br0 = Some []" "br_messages br0 = []" "br_questions br0 = []" "br_members br0 = [''main'']"
      "br_pool_id br0 = pool" "br_conversation_id br0 = conversation" "br_parent_run_id br0 = parent_run"
    using init by (auto simp: broker_init_def split: if_splits)
  have w: "br_messages r0 = []" "br_questions r0 = []" "br_members r0 = [''main'']"
      "br_pool_id r0 = pool" "br_conversation_id r0 = conversation" "br_parent_run_id r0 = parent_run"
    using r0 by (auto simp: broker_init_def split: if_splits)
  have "sim {''main''} br0 r0"
    using len by (simp add: sim_def same_ids_def v w msg_env_def queued_def same_question_def fun_eq_iff)
  then have "tracks jt r0 {''main''} br0" by (simp add: tracks_def v)
  then show ?thesis using broker_ok_init[OF init] by (simp add: is_tracked_def v)
qed

text \<open>From the fold to the rebuilt broker.\<close>

definition rebuilt :: "pyfloat \<Rightarrow> string set \<Rightarrow> broker \<Rightarrow> broker" where
  "rebuilt now active r =
     (let r2 = drop_read r; r3 = (if pending_questions now (Some ''main'') None r2 \<noteq> [] then r2\<lparr>br_pending_event := True\<rparr> else r2)
      in orphan_questions (r3\<lparr>br_members := filter (\<lambda>m. m \<in> insert ''main'' active) (br_members r3)\<rparr>))"

lemma rehydrate_rebuilt:
  assumes "broker_init conversation parent_run pool revision journal (Fin 300) 16384 256 16 = Inr r0"
    and "foldE (rehydrate_event jt) js r0 = Inr r"
  shows "rehydrate jt now conversation parent_run pool revision journal (Some js) stored active = Inr (rebuilt now active r)"
  using assms by (simp add: rehydrate_def rehydrate_events_def rebuilt_def Let_def)

lemma rebuilt_views:
  "br_messages (rebuilt now active r) = br_messages r"
  "br_mailboxes (rebuilt now active r) = br_mailboxes (drop_read r)"
  "set (br_members (rebuilt now active r)) = set (br_members r) \<inter> insert ''main'' active"
  by (auto simp: rebuilt_def orphan_questions_def drop_read_def Let_def)

lemma rebuilt_question:
  assumes "dget (br_questions r) qid = Some q"
  shows "\<exists>q'. dget (br_questions (rebuilt now active r)) qid = Some q' \<and> qn_envelope q' = qn_envelope q \<and> qn_answer q' = qn_answer q
    \<and> (if qn_status q = ''pending'' then qn_status q' = (if en_sender (qn_envelope q) \<in> set (br_members r) \<inter> insert ''main'' active
            \<and> en_recipient (qn_envelope q) \<in> set (br_members r) \<inter> insert ''main'' active \<union> {''main''} then ''pending'' else ''orphaned'')
       else qn_status q' = qn_status q)"
proof -
  let ?ms = "filter (\<lambda>m. m \<in> insert ''main'' active) (br_members r)"
  let ?f = "\<lambda>q. if qn_status q = ''pending'' \<and> (en_sender (qn_envelope q) \<notin> set ?ms
             \<or> en_recipient (qn_envelope q) \<noteq> ''main'' \<and> en_recipient (qn_envelope q) \<notin> set ?ms)
          then q\<lparr>qn_status := ''orphaned''\<rparr> else q"
  have "br_questions (rebuilt now active r) = map (\<lambda>(k, q). (k, ?f q)) (br_questions r)"
    by (simp add: rebuilt_def orphan_questions_def drop_read_def Let_def)
  then have "dget (br_questions (rebuilt now active r)) qid = Some (?f q)"
    using assms by (simp add: map_of_map)
  then show ?thesis by (intro exI[of _ "?f q"]) auto
qed

end
