(* ===== verification/Broker_Properties.thy ===== *)
theory Broker_Properties
  imports Broker_Restart
begin

text \<open>
  The properties of the message broker over every run that starts with a fresh broker and a journal:
  delivery at most once and in order, and questions that end once.
\<close>

definition broker_move :: "(pyfloat \<Rightarrow> string) \<Rightarrow> broker \<Rightarrow> broker \<Rightarrow> bool" where
  "broker_move ft br br' \<longleftrightarrow> (\<exists>who. broker_step ft who br br')"

lemma run_ok:
  assumes "(broker_move ft)\<^sup>*\<^sup>* br0 br" "broker_ok br0"
  shows "broker_ok br"
  using assms by (induction rule: rtranclp_induct) (auto simp: broker_move_def keeps_def dest: step_keeps)

lemma run_from_init:
  assumes "broker_init conversation parent_run pool revision (Some []) timeout max_bytes max_mailbox max_questions = Inr br0"
    and "(broker_move ft)\<^sup>*\<^sup>* br0 br"
  shows "broker_ok br"
  using run_ok[OF assms(2) broker_ok_init[OF assms(1)]] .


text \<open>
  C29. A question ends once, and who waits for it gets its end. Whatever happens after a question was
  asked, it keeps its envelope; once answered, expired, cancelled, orphaned or refused, its status and answer
  never change again; only the recipient it names (or, when it names the pool, a member) can answer
  it; its future, unless whoever waited gave up, is waiting exactly while it is pending and else holds its outcome; and there are never more pending
  questions than the quota.
\<close>

theorem broker_questions:
  assumes "broker_init conversation parent_run pool revision (Some []) timeout max_bytes max_mailbox max_questions = Inr br0"
    and "(broker_move ft)\<^sup>*\<^sup>* br0 br" and "broker_step ft who br br'" and "dget (br_questions br) qid = Some q"
  shows "\<exists>q'. dget (br_questions br') qid = Some q' \<and> qn_envelope q' = qn_envelope q
      \<and> (qn_status q \<noteq> ''pending'' \<longrightarrow> qn_status q' = qn_status q \<and> qn_answer q' = qn_answer q)
      \<and> (qn_status q = ''pending'' \<and> qn_status q' = ''answered'' \<longrightarrow>
           who = en_recipient (qn_envelope q) \<or> en_recipient (qn_envelope q) = ''pool'' \<and> who \<in> set (br_members br))
      \<and> (qn_future q' = future_of (qn_status q') (qn_answer q') \<or> qn_future q' = FutureCancelled)
      \<and> int (pending_count br') \<le> max 0 (br_max_pending_questions br')"
proof -
  have k: "keeps who br br'" using step_keeps[OF assms(3) run_from_init[OF assms(1,2)]] .
  then obtain q' where q': "dget (br_questions br') qid = Some q'" "qn_envelope q' = qn_envelope q"
      "qn_status q \<noteq> ''pending'' \<longrightarrow> qn_status q' = qn_status q \<and> qn_answer q' = qn_answer q"
      "qn_status q = ''pending'' \<and> qn_status q' = ''answered'' \<longrightarrow> may_answer who br qid"
    using assms(4) unfolding keeps_def q_moves_def by blast
  have "quest_inv br'" using k by (simp add: keeps_def broker_ok_def)
  then have "(qn_future q' = future_of (qn_status q') (qn_answer q') \<or> qn_future q' = FutureCancelled) \<and> int (pending_count br') \<le> max 0 (br_max_pending_questions br')"
    using map_of_SomeD[OF q'(1)] by (auto simp: quest_inv_def)
  then show ?thesis using q' assms(4) by (intro exI[of _ q']) (auto simp: may_answer_def)
qed


section \<open>A run\<close>

definition demo_text :: "pyfloat \<Rightarrow> string" where
  "demo_text f = ''0''"

definition demo_b0 :: broker where
  "demo_b0 = projr (broker_init ''c'' ''r'' ''p'' [] (Some []) (Fin 300) 16384 256 16)"

definition demo_b1 :: broker where
  "demo_b1 = projr (register_worker ''w1'' demo_b0)"

definition demo_b2 :: broker where
  "demo_b2 = snd (projr (send_locked demo_text (Fin 1) ''m1'' ''main'' ''w1'' ''information'' (Inl ''hi'') [] [] False None demo_b1))"

definition demo_b3 :: broker where
  "demo_b3 = snd (projr (poll (Fin 2) ''w1'' 16 demo_b2))"

definition demo_b4 :: broker where
  "demo_b4 = snd (projr (open_question demo_text (Fin 3) ''q1'' ''w1'' ''main'' ''which?'' [] ''text'' (Fin 10) demo_b3))"

lemma demo_b0_run: "broker_init ''c'' ''r'' ''p'' [] (Some []) (Fin 300) 16384 256 16 = Inr demo_b0"
  and demo_b0_views: "br_members demo_b0 = [''main'']" "br_messages demo_b0 = []" "br_mailboxes demo_b0 = (\<lambda>_. [])"
    "br_questions demo_b0 = []" "br_max_message_bytes demo_b0 = 16384" "br_max_mailbox_messages demo_b0 = 256"
    "br_max_pending_questions demo_b0 = 16" "br_parent_refusal demo_b0 = []" "\<not> br_closed demo_b0"
    "br_journal demo_b0 = Some []" "br_message_timeout_s demo_b0 = Fin 300"
  by (simp_all add: demo_b0_def broker_init_def f_le_def)

lemma demo_b1_run: "register_worker ''w1'' demo_b0 = Inr demo_b1"
  and demo_b1_views: "br_members demo_b1 = [''main'', ''w1'']" "br_messages demo_b1 = []" "br_mailboxes demo_b1 = (\<lambda>_. [])"
    "br_questions demo_b1 = []" "br_max_message_bytes demo_b1 = 16384" "br_max_mailbox_messages demo_b1 = 256"
    "br_max_pending_questions demo_b1 = 16" "br_parent_refusal demo_b1 = []" "br_journal demo_b1 \<noteq> None" "deliveries demo_b1 = []"
    "br_message_timeout_s demo_b1 = Fin 300"
  by (simp_all add: demo_b1_def demo_b0_views register_worker_def valid_identifier_def deliveries_journal)
    (simp add: deliveries_def demo_b0_views List.map_filter_def)

definition demo_e1 :: envelope where
  "demo_e1 = new_envelope (Fin 1) ''m1'' ''main'' ''w1'' ''information'' [(''text'', PStr ''hi'')] [] [] False None demo_b1"

lemma demo_e1_run: "en_message_id demo_e1 = ''m1''" "en_sender demo_e1 = ''main''" "en_recipient demo_e1 = ''w1''"
    "en_expires_at demo_e1 = Some (Fin 301)"
  by (simp_all add: demo_e1_def new_envelope_def demo_b1_views)

lemma demo_b2_run: "send_locked demo_text (Fin 1) ''m1'' ''main'' ''w1'' ''information'' (Inl ''hi'') [] [] False None demo_b1 = Inr (demo_e1, demo_b2)"
  and demo_b2_eq: "demo_b2 = post_message demo_e1 demo_b1"
  by (simp_all add: demo_b2_def demo_b1_views send_locked_def Let_def valid_sender_def valid_recipient_def valid_identifier_def
      message_kinds_def message_targets_def earlier_send_def demo_e1_def of_dict_def separated_def json_text_len_def json_char_len_def code_def)

definition demo_r1 :: "string \<Rightarrow> message_record" where
  "demo_r1 s = \<lparr>mr_envelope = demo_e1, mr_state = s, mr_acknowledged = False, mr_acknowledged_by = {}\<rparr>"

lemma demo_b2_views: "br_members demo_b2 = [''main'', ''w1'']" "br_messages demo_b2 = [(''m1'', demo_r1 ''queued'')]"
    "br_mailboxes demo_b2 = (\<lambda>_. [])(''w1'' := [''m1''])" "br_questions demo_b2 = []" "br_max_message_bytes demo_b2 = 16384"
    "br_max_mailbox_messages demo_b2 = 256" "br_max_pending_questions demo_b2 = 16" "br_parent_refusal demo_b2 = []"
    "br_journal demo_b2 \<noteq> None" "deliveries demo_b2 = []"
  using demo_b1_views(9,10)
  by (simp_all add: demo_b2_eq post_message_def demo_e1_run demo_b1_views message_targets_def deliver_to_def demo_r1_def
      deliveries_journal fun_eq_iff)
    (use demo_b1_views(10) in \<open>simp add: deliveries_def\<close>)

lemma fun_upd_const [simp]: "(\<lambda>_. x)(k := x) = (\<lambda>_. x)"
  by auto

definition demo_c :: broker where
  "demo_c = journal_event ''agent_message_delivered'' [(''message_id'', PStr ''m1''), (''recipient'', PStr ''w1'')]
      (set_message_state ''m1'' ''delivered'' (demo_b2\<lparr>br_mailboxes := (br_mailboxes demo_b2)(''w1'' := [])\<rparr>))"

lemma demo_b3_run: "poll (Fin 2) ''w1'' 16 demo_b2 = Inr ([demo_e1], demo_b3)"
  and demo_b3_eq: "demo_b3 = demo_c\<lparr>br_message_event := False\<rparr>"
proof -
  let ?b = "demo_b2\<lparr>br_mailboxes := (br_mailboxes demo_b2)(''w1'' := [])\<rparr>"
  have take: "take_mail ''w1'' demo_b2 = Some (''m1'', ?b)" by (simp add: take_mail_def demo_b2_views)
  have read: "read_mail (Fin 2) ''w1'' ''m1'' ?b = (Some demo_e1, demo_c)"
    by (simp add: read_mail_def demo_b2_views demo_r1_def expired_at_def demo_e1_run f_le_def demo_c_def)
  have mail: "br_mailboxes demo_c = (\<lambda>_. [])" by (simp add: demo_c_def demo_b2_views)
  then have "take_mail ''w1'' demo_c = None" by (simp add: take_mail_def)
  then have loop: "poll_loop (Fin 2) ''w1'' 16 demo_b2 [] = ([demo_e1], demo_c)"
    by (simp add: poll_loop.simps[of _ _ _ demo_b2] take read poll_loop.simps[of _ _ _ demo_c])
  then show "poll (Fin 2) ''w1'' 16 demo_b2 = Inr ([demo_e1], demo_b3)" "demo_b3 = demo_c\<lparr>br_message_event := False\<rparr>"
    by (simp_all add: demo_b3_def poll_def valid_recipient_def valid_identifier_def demo_b2_views mail)
qed

lemma demo_b3_views: "br_members demo_b3 = [''main'', ''w1'']" "br_messages demo_b3 = [(''m1'', demo_r1 ''delivered'')]"
    "br_mailboxes demo_b3 = (\<lambda>_. [])" "br_questions demo_b3 = []" "br_max_message_bytes demo_b3 = 16384"
    "br_max_mailbox_messages demo_b3 = 256" "br_max_pending_questions demo_b3 = 16" "br_parent_refusal demo_b3 = []"
  by (simp_all add: demo_b3_eq demo_c_def demo_b2_views set_message_state_def demo_r1_def)


definition demo_e2 :: envelope where
  "demo_e2 = new_envelope (Fin 3) ''q1'' ''w1'' ''main'' ''clarification_request''
     [(''question'', PStr ''which?''), (''context'', PStr []), (''expected_answer'', PStr ''text'')] [] [] True (Some (Fin 10)) demo_b3"

definition demo_q1 :: question_record where
  "demo_q1 = \<lparr>qn_envelope = demo_e2, qn_status = ''pending'', qn_answer = [], qn_future = Waiting, qn_delivered = False\<rparr>"

lemma demo_b4_run: "\<exists>p. open_question demo_text (Fin 3) ''q1'' ''w1'' ''main'' ''which?'' [] ''text'' (Fin 10) demo_b3 = Inr (p, demo_b4)"
  and demo_b4_question: "dget (br_questions demo_b4) ''q1'' = Some demo_q1"
proof -
  have send: "send_locked demo_text (Fin 3) ''q1'' ''w1'' ''main'' ''clarification_request''
     (Inr [(''question'', PStr ''which?''), (''context'', PStr []), (''expected_answer'', PStr ''text'')]) [] [] True (Some (Fin 10)) demo_b3
     = Inr (demo_e2, post_message demo_e2 demo_b3)"
    by (simp add: demo_b3_views send_locked_def Let_def valid_sender_def valid_recipient_def valid_identifier_def
      message_kinds_def message_targets_def earlier_send_def demo_e2_def of_dict_def separated_def json_text_len_def json_char_len_def code_def)
  have strip: "py_strip ''which?'' \<noteq> []" by code_simp
  have id: "en_message_id demo_e2 = ''q1''" by (simp add: demo_e2_def new_envelope_def)
  show "\<exists>p. open_question demo_text (Fin 3) ''q1'' ''w1'' ''main'' ''which?'' [] ''text'' (Fin 10) demo_b3 = Inr (p, demo_b4)"
      "dget (br_questions demo_b4) ''q1'' = Some demo_q1"
    using strip by (simp_all add: demo_b4_def open_question_def f_le_def demo_b3_views send id demo_q1_def Let_def)
qed

definition demo_b5 :: broker where
  "demo_b5 = snd (projr (answer_question (Fin 4) ''main'' ''q1'' ''that'' demo_b4))"

lemma demo_b5_run: "\<exists>p. answer_question (Fin 4) ''main'' ''q1'' ''that'' demo_b4 = Inr (p, demo_b5)"
proof -
  have strip: "py_strip ''that'' \<noteq> []" by code_simp
  show ?thesis using strip
    by (simp add: demo_b5_def answer_question_def demo_b4_question demo_q1_def Let_def demo_e2_def new_envelope_def)
qed

lemma demo_run: "(broker_move demo_text)\<^sup>*\<^sup>* demo_b0 demo_b3" "(broker_move demo_text)\<^sup>*\<^sup>* demo_b0 demo_b4"
  "broker_step demo_text ''main'' demo_b4 demo_b5"
proof -
  obtain p where b4: "open_question demo_text (Fin 3) ''q1'' ''w1'' ''main'' ''which?'' [] ''text'' (Fin 10) demo_b3 = Inr (p, demo_b4)"
    using demo_b4_run by blast
  have s1: "broker_move demo_text demo_b0 demo_b1"
    unfolding broker_move_def by (rule exI, rule joins[OF demo_b1_run])
  have s2: "broker_move demo_text demo_b1 demo_b2"
    unfolding broker_move_def by (rule exI, rule sends[OF demo_b2_run]) (simp add: demo_b1_views)
  have s3: "broker_move demo_text demo_b2 demo_b3"
    unfolding broker_move_def by (rule exI, rule polls[OF demo_b3_run])
  have s4: "broker_move demo_text demo_b3 demo_b4"
    unfolding broker_move_def by (rule exI, rule asks[OF b4]) (simp add: demo_b3_views)
  show run: "(broker_move demo_text)\<^sup>*\<^sup>* demo_b0 demo_b3"
    by (rule converse_rtranclp_into_rtranclp, rule s1)
      (rule converse_rtranclp_into_rtranclp, rule s2, rule converse_rtranclp_into_rtranclp, rule s3, rule rtranclp.rtrancl_refl)
  show "(broker_move demo_text)\<^sup>*\<^sup>* demo_b0 demo_b4"
    by (rule rtranclp.rtrancl_into_rtrancl, rule run, rule s4)
  show "broker_step demo_text ''main'' demo_b4 demo_b5" using demo_b5_run answers by blast
qed


theorem broker_questions_witness:
  "\<exists>q'. dget (br_questions demo_b5) ''q1'' = Some q' \<and> qn_envelope q' = demo_e2
     \<and> int (pending_count demo_b5) \<le> max 0 (br_max_pending_questions demo_b5)"
  using broker_questions[OF demo_b0_run demo_run(2,3) demo_b4_question] by (auto simp: demo_q1_def)


end
