(* ===== verification/Journal.thy ===== *)
theory Journal
  imports Conversions
begin

text \<open>
  The conversation journal (\<open>src/agenthicc/memory/journal.py\<close>): the file of JSON lines and how a line gets
  there, the fold to provider messages, turn and step markers with the turn to resume, and the
  auxiliary tool-exchange and workflow records.

  A line of the file is a JSON object, other JSON, or no JSON; blank lines are skipped everywhere and not
  represented. What follows the last newline is the tail: nothing, an unfinished record, or a whole
  record without its newline. A record appended after a tail that is not empty joins it to one line that is
  no JSON. How the disk answers the next writes is part of the state; an empty list means that every
  write succeeds. The writer thread is the step \<open>writer_flush\<close>. Values are those JSON gives back as they are.
\<close>

section \<open>The file and its writes\<close>

datatype jline = JObj payload | JOther pyval | JBad
datatype jtail = Clean | Torn | Bare payload

record jfile =
  jf_lines :: "jline list"
  jf_tail :: jtail

definition read_lines :: "jfile \<Rightarrow> jline list" where
  "read_lines f = jf_lines f @ (case jf_tail f of Clean \<Rightarrow> [] | Torn \<Rightarrow> [JBad] | Bare e \<Rightarrow> [JObj e])"

definition append_line :: "payload \<Rightarrow> jfile \<Rightarrow> jfile" where
  "append_line e f = \<lparr>jf_lines = jf_lines f @ [if jf_tail f = Clean then JObj e else JBad], jf_tail = Clean\<rparr>"

text \<open>
  What the disk does with a write: everything is written; record \<open>n\<close> of the queue fails and leaves something of
  itself, which nothing takes back; the record itself fails and the old end of file is restored; or it
  fails and the restoring fails too. What is left of a record is nothing, a part of it, or all but its newline.
\<close>

datatype residue = Nothing | Part | AllButNewline

datatype disk = DiskOk | DiskQueueFails nat residue | DiskFails | DiskFailsTorn residue

definition leave_residue :: "residue \<Rightarrow> payload \<Rightarrow> jfile \<Rightarrow> jfile" where
  "leave_residue r e f = (case r of
     Nothing \<Rightarrow> f
   | Part \<Rightarrow> f\<lparr>jf_tail := Torn\<rparr>
   | AllButNewline \<Rightarrow> f\<lparr>jf_tail := (if jf_tail f = Clean then Bare e else Torn)\<rparr>)"

record journal =
  j_file :: jfile
  j_seq :: int
  j_pending :: "payload list"
  j_corrupt :: nat
  j_view :: "payload list option"
  j_closed :: bool
  j_disk :: "disk list"

type_synonym 'a jm = "journal \<Rightarrow> (string + 'a) \<times> journal"

definition jbind :: "'a jm \<Rightarrow> ('a \<Rightarrow> 'b jm) \<Rightarrow> 'b jm" where
  "jbind m f = (\<lambda>j. case m j of (Inl e, j') \<Rightarrow> (Inl e, j') | (Inr a, j') \<Rightarrow> f a j')"

definition jret :: "'a \<Rightarrow> 'a jm" where
  "jret a = (\<lambda>j. (Inr a, j))"

definition journal_open :: "jfile \<Rightarrow> disk list \<Rightarrow> journal" where
  "journal_open f ds = \<lparr>j_file = f, j_seq = int (length (read_lines f)), j_pending = [], j_corrupt = 0,
     j_view = None, j_closed = False, j_disk = ds\<rparr>"

definition entry_kind :: "payload \<Rightarrow> string" where
  "entry_kind e = (case dget e ''kind'' of Some (PStr k) \<Rightarrow> k | _ \<Rightarrow> [])"

definition advisory :: "payload \<Rightarrow> bool" where
  "advisory e \<longleftrightarrow> entry_kind e = ''usage_record''"

definition projected :: "payload \<Rightarrow> bool" where
  "projected e \<longleftrightarrow> starts_with (entry_kind e) ''subagent_'' \<or> entry_kind e = ''agent_message_event''"

definition take_disk :: "journal \<Rightarrow> disk \<times> journal" where
  "take_disk j = (case j_disk j of [] \<Rightarrow> (DiskOk, j) | d # ds \<Rightarrow> (d, j\<lparr>j_disk := ds\<rparr>))"

text \<open>\<open>_write_pending_locked\<close>: the queue is emptied before its records are written.\<close>

definition write_pending :: "disk \<Rightarrow> journal \<Rightarrow> (string + unit) \<times> journal" where
  "write_pending d j =
     (let batch = j_pending j; j0 = j\<lparr>j_pending := []\<rparr> in
      case d of
        DiskQueueFails n r \<Rightarrow>
          (if n < length batch
           then (Inl ''OSError'', j0\<lparr>j_file := leave_residue r (batch ! n) (fold append_line (take n batch) (j_file j))\<rparr>)
           else (Inr (), j0\<lparr>j_file := fold append_line batch (j_file j)\<rparr>))
      | _ \<Rightarrow> (Inr (), j0\<lparr>j_file := fold append_line batch (j_file j)\<rparr>))"

definition write_durable :: "disk \<Rightarrow> payload \<Rightarrow> journal \<Rightarrow> (string + unit) \<times> journal" where
  "write_durable d e j =
     (case write_pending d j of
        (Inl err, j1) \<Rightarrow> (Inl err, j1)
      | (Inr _, j1) \<Rightarrow>
          (case d of
             DiskFails \<Rightarrow> (Inl ''OSError'', j1)
           | DiskFailsTorn r \<Rightarrow> (Inl ''OSError'', j1\<lparr>j_file := leave_residue r e (j_file j1)\<rparr>)
           | _ \<Rightarrow> (Inr (), j1\<lparr>j_file := append_line e (j_file j1), j_seq := j_seq j1 + 1,
                   j_view := (if projected e then map_option (\<lambda>v. v @ [e]) (j_view j1) else j_view j1)\<rparr>)))"

definition journal_write :: "payload \<Rightarrow> unit jm" where
  "journal_write e j =
     (if advisory e
      then (if j_closed j then (Inl ''OSError'', j)
            else (Inr (), j\<lparr>j_pending := j_pending j @ [e], j_seq := j_seq j + 1\<rparr>))
      else if j_closed j then (Inl ''ValueError'', j)
      else let (d, j0) = take_disk j in write_durable d e j0)"

text \<open>An entry gets the next sequence number; \<open>_drain\<close> and one round of the writer thread.\<close>

definition journal_emit :: "payload \<Rightarrow> unit jm" where
  "journal_emit kvs j = journal_write ((''seq'', PInt (j_seq j)) # kvs) j"

definition drain :: "unit jm" where
  "drain j = (if j_pending j = [] then (Inr (), j) else let (d, j0) = take_disk j in write_pending d j0)"

definition writer_flush :: "journal \<Rightarrow> journal" where
  "writer_flush j = (if j_pending j = [] then j else let (d, j0) = take_disk j in snd (write_pending d j0))"

definition journal_close :: "journal \<Rightarrow> journal" where
  "journal_close j = (writer_flush j)\<lparr>j_closed := True\<rparr>"

section \<open>The fold to messages\<close>

record fold_state =
  fs_messages :: "pyval list"
  fs_summary :: pyval
  fs_pending :: "(string \<times> pyval list \<times> pyval) option"

definition fold_start :: fold_state where
  "fold_start = \<lparr>fs_messages = [], fs_summary = PNone, fs_pending = None\<rparr>"

definition rollback_pending :: "fold_state \<Rightarrow> fold_state" where
  "rollback_pending fs = (case fs_pending fs of
     None \<Rightarrow> fs
   | Some (_, ms, s) \<Rightarrow> \<lparr>fs_messages = ms, fs_summary = s, fs_pending = None\<rparr>)"

definition owns :: "payload \<Rightarrow> fold_state \<Rightarrow> bool" where
  "owns e fs \<longleftrightarrow> (case fs_pending fs of None \<Rightarrow> False | Some (t, _) \<Rightarrow> pget e ''transaction_id'' = PStr t)"

definition fold_entry :: "payload \<Rightarrow> fold_state \<Rightarrow> string + fold_state" where
  "fold_entry e fs =
     (let kind = pget e ''kind'' in
      if kind = PStr ''state_replace_prepare''
      then let fs1 = rollback_pending fs in
        (case pget e ''transaction_id'' of
           PStr t \<Rightarrow> bindE (py_list (dget_or e ''previous_messages'' (PList []))) (\<lambda>ms.
             Inr (fs1\<lparr>fs_pending := Some (t, ms, pget e ''previous_summary'')\<rparr>))
         | _ \<Rightarrow> Inr fs1)
      else if kind = PStr ''reset''
      then let fs1 = (if owns e fs then fs else rollback_pending fs) in
        bindE (py_list (dget_or e ''messages'' (PList []))) (\<lambda>ms.
          Inr (fs1\<lparr>fs_messages := ms, fs_summary := pget e ''summary''\<rparr>))
      else if kind = PStr ''state_replace_commit''
      then Inr (if owns e fs then fs\<lparr>fs_pending := None\<rparr> else fs)
      else if kind = PStr ''append''
      then let fs1 = rollback_pending fs in
        bindE (item e ''message'') (\<lambda>m. Inr (fs1\<lparr>fs_messages := fs_messages fs1 @ [m]\<rparr>))
      else Inr fs)"

text \<open>Folding stops at the first line that is no JSON; a JSON line that is no object raises.\<close>

fun fold_lines :: "jline list \<Rightarrow> fold_state \<Rightarrow> string + fold_state \<times> nat" where
  "fold_lines [] fs = Inr (fs, 0)"
| "fold_lines (JBad # ls) fs = Inr (fs, 1 + length ls)"
| "fold_lines (JOther v # ls) fs = Inl ''AttributeError''"
| "fold_lines (JObj e # ls) fs = bindE (fold_entry e fs) (fold_lines ls)"

definition fold_path_with_report :: "jfile \<Rightarrow> string + pyval list \<times> pyval \<times> nat" where
  "fold_path_with_report f =
     bindE (fold_lines (read_lines f) fold_start) (\<lambda>(fs, n).
       let fs1 = rollback_pending fs in Inr (fs_messages fs1, fs_summary fs1, n))"

definition lift_result :: "(journal \<Rightarrow> string + 'a) \<Rightarrow> 'a jm" where
  "lift_result f = (\<lambda>j. (f j, j))"

definition journal_fold :: "(pyval list \<times> pyval) jm" where
  "journal_fold =
     jbind drain (\<lambda>_ j. case fold_path_with_report (j_file j) of
        Inl e \<Rightarrow> (Inl e, j)
      | Inr (ms, s, n) \<Rightarrow> (Inr (ms, s), j\<lparr>j_corrupt := n\<rparr>))"

section \<open>Messages, resets and replacements\<close>

definition append_entry :: "pyval \<Rightarrow> string \<Rightarrow> payload" where
  "append_entry m mid = [(''kind'', PStr ''append''), (''message'', m)]
     @ (if mid = [] then [] else [(''message_id'', PStr (take 160 mid))])"

definition append_message :: "pyval \<Rightarrow> string \<Rightarrow> unit jm" where
  "append_message m mid = journal_emit (append_entry m mid)"

text \<open>The objects before the first line that is no JSON; other JSON lines are skipped by these readers.\<close>

fun objects :: "jline list \<Rightarrow> payload list" where
  "objects [] = []"
| "objects (JObj e # ls) = e # objects ls"
| "objects (JOther v # ls) = objects ls"
| "objects (JBad # ls) = []"

definition has_message_id :: "string \<Rightarrow> bool jm" where
  "has_message_id mid =
     jbind drain (\<lambda>_. lift_result (\<lambda>j. Inr (mid \<noteq> []
       \<and> (\<exists>e \<in> set (objects (read_lines (j_file j))). pget e ''kind'' = PStr ''append'' \<and> pget e ''message_id'' = PStr mid))))"

definition reset_entry :: "pyval list \<Rightarrow> pyval \<Rightarrow> string \<Rightarrow> string \<Rightarrow> string \<Rightarrow> payload" where
  "reset_entry ms s turn step reason =
     [(''kind'', PStr ''reset''), (''messages'', PList ms), (''summary'', s)]
     @ (if turn = [] \<and> step = [] \<and> reason = [] then []
        else [(''schema_version'', PInt 1), (''turn_id'', PStr (take 128 turn)), (''step_id'', PStr (take 160 step)),
          (''reason'', PStr (take 96 reason))])"

definition journal_reset :: "pyval list \<Rightarrow> pyval \<Rightarrow> string \<Rightarrow> string \<Rightarrow> string \<Rightarrow> unit jm" where
  "journal_reset ms s turn step reason = journal_emit (reset_entry ms s turn step reason)"

text \<open>The three records of a replacement under the transaction \<open>tid\<close>.\<close>

definition prepare_entry :: "string \<Rightarrow> pyval list \<Rightarrow> pyval \<Rightarrow> payload" where
  "prepare_entry tid ms s = [(''kind'', PStr ''state_replace_prepare''), (''transaction_id'', PStr tid),
     (''previous_messages'', PList ms), (''previous_summary'', s)]"

definition candidate_entry :: "string \<Rightarrow> pyval list \<Rightarrow> pyval \<Rightarrow> payload" where
  "candidate_entry tid ms s = [(''kind'', PStr ''reset''), (''transaction_id'', PStr tid), (''messages'', PList ms), (''summary'', s)]"

definition commit_entry :: "string \<Rightarrow> payload" where
  "commit_entry tid = [(''kind'', PStr ''state_replace_commit''), (''transaction_id'', PStr tid)]"

definition replace_state :: "string \<Rightarrow> pyval list \<Rightarrow> pyval \<Rightarrow> unit jm" where
  "replace_state tid ms s =
     jbind journal_fold (\<lambda>(old, old_summary).
     jbind (journal_emit (prepare_entry tid old old_summary)) (\<lambda>_.
     jbind (journal_emit (candidate_entry tid ms s)) (\<lambda>_.
       journal_emit (commit_entry tid))))"

section \<open>Turns and provider steps\<close>

definition partial_fragment :: "string \<Rightarrow> string \<Rightarrow> string \<Rightarrow> string \<Rightarrow> bool \<Rightarrow> unit jm" where
  "partial_fragment turn step attempt content interrupted =
     journal_emit [(''kind'', PStr ''partial_fragment''), (''schema_version'', PInt 1), (''turn_id'', PStr (take 128 turn)),
       (''step_id'', PStr (take 160 step)), (''attempt_id'', PStr (take 160 attempt)), (''text'', PStr (take 16384 content)),
       (''interrupted'', PBool interrupted)]"

definition turn_started :: "string \<Rightarrow> pyval \<Rightarrow> int \<Rightarrow> string \<Rightarrow> int option \<Rightarrow> string \<Rightarrow> unit jm" where
  "turn_started turn user_message base_count conversation base_cursor run j =
     journal_emit ([(''kind'', PStr ''turn_started''), (''schema_version'', PInt 3),
       (''execution_kind'', PStr (if run \<noteq> [] then ''workflow'' else ''direct'')), (''turn_id'', PStr (take 128 turn)),
       (''conversation_id'', PStr (take 128 conversation)), (''user_message'', user_message),
       (''base_count'', PInt (max 0 base_count)),
       (''base_cursor'', PInt (case base_cursor of None \<Rightarrow> j_seq j | Some c \<Rightarrow> c))]
       @ (if run \<noteq> [] then [(''workflow_run_id'', PStr (take 128 run))] else [])) j"

definition turn_completed :: "string \<Rightarrow> unit jm" where
  "turn_completed turn = journal_emit [(''kind'', PStr ''turn_completed''), (''turn_id'', PStr turn)]"

definition turn_aborted :: "string \<Rightarrow> string \<Rightarrow> unit jm" where
  "turn_aborted turn reason = journal_emit [(''kind'', PStr ''turn_aborted''), (''turn_id'', PStr turn), (''reason'', PStr reason)]"

definition turn_failed :: "string \<Rightarrow> string \<Rightarrow> int option \<Rightarrow> string \<Rightarrow> bool \<Rightarrow> unit jm" where
  "turn_failed turn last_step cursor error_kind retryable j =
     journal_emit [(''kind'', PStr ''turn_failed''), (''turn_id'', PStr turn), (''last_committed_step'', PStr last_step),
       (''cursor'', PInt (case cursor of None \<Rightarrow> j_seq j | Some c \<Rightarrow> c)), (''error_kind'', PStr (take 96 error_kind)),
       (''retryable'', PBool retryable)] j"

definition step_started :: "string \<Rightarrow> string \<Rightarrow> string \<Rightarrow> int \<Rightarrow> int option \<Rightarrow> unit jm" where
  "step_started turn step attempt index base_cursor j =
     journal_emit [(''kind'', PStr ''step_started''), (''schema_version'', PInt 1), (''turn_id'', PStr (take 128 turn)),
       (''step_id'', PStr (take 160 step)), (''attempt_id'', PStr (take 160 attempt)), (''step_index'', PInt (max 0 index)),
       (''base_cursor'', PInt (case base_cursor of None \<Rightarrow> j_seq j | Some c \<Rightarrow> c))] j"

definition step_committed :: "string \<Rightarrow> string \<Rightarrow> int \<Rightarrow> int option \<Rightarrow> int \<Rightarrow> unit jm" where
  "step_committed turn step index cursor count j =
     journal_emit [(''kind'', PStr ''step_committed''), (''schema_version'', PInt 1), (''turn_id'', PStr (take 128 turn)),
       (''step_id'', PStr (take 160 step)), (''step_index'', PInt (max 0 index)),
       (''cursor'', PInt (case cursor of None \<Rightarrow> j_seq j | Some c \<Rightarrow> c)), (''message_count'', PInt (max 0 count))] j"

definition step_interrupted :: "string \<Rightarrow> string \<Rightarrow> string \<Rightarrow> string \<Rightarrow> int \<Rightarrow> bool \<Rightarrow> unit jm" where
  "step_interrupted turn step attempt error_kind partial_chars retryable =
     journal_emit [(''kind'', PStr ''step_interrupted''), (''schema_version'', PInt 1), (''turn_id'', PStr (take 128 turn)),
       (''step_id'', PStr (take 160 step)), (''attempt_id'', PStr (take 160 attempt)), (''error_kind'', PStr (take 96 error_kind)),
       (''partial_chars'', PInt (max 0 partial_chars)), (''retryable'', PBool retryable)]"

definition turn_recovered :: "string \<Rightarrow> unit jm" where
  "turn_recovered turn = journal_emit [(''kind'', PStr ''turn_recovered''), (''turn_id'', PStr turn)]"

definition turn_recovery_started :: "string \<Rightarrow> unit jm" where
  "turn_recovery_started turn = journal_emit [(''kind'', PStr ''turn_recovery_started''), (''schema_version'', PInt 1),
     (''turn_id'', PStr (take 128 turn))]"

definition tool_recorded :: "string \<Rightarrow> string \<Rightarrow> pyval \<Rightarrow> unit jm" where
  "tool_recorded turn key result = journal_emit [(''kind'', PStr ''tool_recorded''), (''turn_id'', PStr turn), (''key'', PStr key),
     (''result'', result)]"

section \<open>The turn to resume\<close>

text \<open>
  The identifier of a turn is whatever JSON value the line has; \<open>base_count\<close> and the cursor of a step are integers, a
  Boolean being one for Python.
\<close>

record incomplete_turn =
  it_turn_id :: pyval
  it_user_message :: pyval
  it_base_count :: int
  it_tool_records :: "(pyval \<times> pyval) list"
  it_last_committed_step :: string
  it_last_committed_cursor :: "int option"
  it_interrupted :: "(string \<times> string) option"
  it_workflow_run_id :: "string option"
  it_execution_kind :: "string option"

record resume_fold =
  rf_started :: "(pyval \<times> pyval \<times> int) list"
  rf_runs :: "(pyval \<times> string option) list"
  rf_kinds :: "(pyval \<times> string option) list"
  rf_completed :: "pyval set"
  rf_records :: "(pyval \<times> (pyval \<times> pyval) list) list"
  rf_committed :: "(string \<times> string \<times> int option) list"
  rf_stopped :: "(string \<times> string \<times> string) list"

definition resume_start :: resume_fold where
  "resume_start = \<lparr>rf_started = [], rf_runs = [], rf_kinds = [], rf_completed = {}, rf_records = [], rf_committed = [], rf_stopped = []\<rparr>"

definition setdefault :: "'k \<Rightarrow> 'v \<Rightarrow> ('k \<times> 'v) list \<Rightarrow> ('k \<times> 'v) list" where
  "setdefault k v d = (if dget d k = None then dset k v d else d)"

definition whole_number :: "pyval \<Rightarrow> int option" where
  "whole_number v = (case v of PInt i \<Rightarrow> Some i | PBool b \<Rightarrow> Some (if b then 1 else 0) | _ \<Rightarrow> None)"

text \<open>The workflow run and the kind of a turn, which a later record of the same turn can only make more specific.\<close>

definition turn_run :: "payload \<Rightarrow> pyval \<Rightarrow> (pyval \<times> string option) list \<Rightarrow> (pyval \<times> string option) list" where
  "turn_run e tid runs =
     (case pget e ''workflow_run_id'' of
        PStr r \<Rightarrow> (if r \<noteq> [] then dset tid (Some (take 128 r)) runs else setdefault tid None runs)
      | _ \<Rightarrow> setdefault tid None runs)"

definition turn_kind :: "payload \<Rightarrow> pyval \<Rightarrow> (pyval \<times> string option) list \<Rightarrow> (pyval \<times> string option) list
    \<Rightarrow> (pyval \<times> string option) list" where
  "turn_kind e tid runs kinds =
     (if pget e ''execution_kind'' = PStr ''workflow'' then dset tid (Some ''workflow'') kinds
      else if pget e ''execution_kind'' = PStr ''direct''
      then (if dget kinds tid = Some (Some ''workflow'') then kinds else dset tid (Some ''direct'') kinds)
      else if dget kinds tid = None \<and> dget runs tid \<noteq> Some None then dset tid (Some ''workflow'') kinds
      else setdefault tid None kinds)"

definition resume_turn_started :: "json_text \<Rightarrow> payload \<Rightarrow> resume_fold \<Rightarrow> string + resume_fold" where
  "resume_turn_started jt e rf =
     bindE (item e ''turn_id'') (\<lambda>tid.
     bindE (conv_int (jt_parse_int jt) (dget_or e ''base_count'' (PInt 0))) (\<lambda>base.
       case base of
         None \<Rightarrow> Inl ''ValueError''
       | Some n \<Rightarrow>
           let runs = turn_run e tid (rf_runs rf) in
           Inr (rf\<lparr>rf_started := rf_started rf @ [(tid, dget_or e ''user_message'' (PStr []), n)], rf_runs := runs,
             rf_kinds := turn_kind e tid runs (rf_kinds rf), rf_records := setdefault tid [] (rf_records rf)\<rparr>)))"

definition resume_entry :: "json_text \<Rightarrow> payload \<Rightarrow> resume_fold \<Rightarrow> string + resume_fold" where
  "resume_entry jt e rf =
     (let kind = pget e ''kind''; turn = text_field (jt_float jt) e ''turn_id'' []; step = text_field (jt_float jt) e ''step_id'' [] in
      if kind = PStr ''turn_started'' then resume_turn_started jt e rf
      else if kind \<in> {PStr ''turn_completed'', PStr ''turn_aborted'', PStr ''turn_failed'', PStr ''turn_recovered''}
      then bindE (item e ''turn_id'') (\<lambda>tid. Inr (rf\<lparr>rf_completed := insert tid (rf_completed rf)\<rparr>))
      else if kind = PStr ''tool_recorded''
      then bindE (item e ''turn_id'') (\<lambda>tid. bindE (item e ''key'') (\<lambda>key.
        Inr (rf\<lparr>rf_records := dset tid (dget_or (rf_records rf) tid [] @ [(key, pget e ''result'')]) (rf_records rf)\<rparr>)))
      else if kind = PStr ''step_committed''
      then Inr (if turn = [] then rf
        else rf\<lparr>rf_committed := dset turn (step, whole_number (pget e ''cursor'')) (rf_committed rf)\<rparr>)
      else if kind = PStr ''step_interrupted''
      then Inr (if turn = [] then rf
        else rf\<lparr>rf_stopped := dset turn (step, text_field (jt_float jt) e ''attempt_id'' []) (rf_stopped rf)\<rparr>)
      else Inr rf)"

fun resume_lines :: "json_text \<Rightarrow> jline list \<Rightarrow> resume_fold \<Rightarrow> string + resume_fold" where
  "resume_lines jt [] rf = Inr rf"
| "resume_lines jt (JBad # ls) rf = Inr rf"
| "resume_lines jt (JOther v # ls) rf = Inl ''AttributeError''"
| "resume_lines jt (JObj e # ls) rf = bindE (resume_entry jt e rf) (resume_lines jt ls)"

definition turn_of :: "resume_fold \<Rightarrow> pyval \<times> pyval \<times> int \<Rightarrow> incomplete_turn" where
  "turn_of rf s = (case s of (tid, user_message, base) \<Rightarrow>
     let key = (case tid of PStr t \<Rightarrow> t | _ \<Rightarrow> []); committed = dget_or (rf_committed rf) key ([], None) in
     \<lparr>it_turn_id = tid, it_user_message = user_message, it_base_count = base,
      it_tool_records = dget_or (rf_records rf) tid [],
      it_last_committed_step = fst committed, it_last_committed_cursor = snd committed,
      it_interrupted = dget (rf_stopped rf) key,
      it_workflow_run_id = dget_or (rf_runs rf) tid None, it_execution_kind = dget_or (rf_kinds rf) tid None\<rparr>)"

definition fold_resume_state :: "json_text \<Rightarrow> jfile \<Rightarrow> string + incomplete_turn option" where
  "fold_resume_state jt f =
     bindE (resume_lines jt (read_lines f) resume_start) (\<lambda>rf.
       Inr (map_option (turn_of rf) (find (\<lambda>(tid, _). tid \<notin> rf_completed rf) (rev (rf_started rf)))))"

definition resume_state :: "json_text \<Rightarrow> incomplete_turn option jm" where
  "resume_state jt = jbind drain (\<lambda>_. lift_result (\<lambda>j. fold_resume_state jt (j_file j)))"

section \<open>Workflow boundaries, tool exchanges and usage\<close>

definition workflow_phase_boundary ::
  "string \<Rightarrow> string \<Rightarrow> string \<Rightarrow> string option \<Rightarrow> int \<Rightarrow> int \<Rightarrow> string \<Rightarrow> string \<Rightarrow> string \<Rightarrow> unit jm" where
  "workflow_phase_boundary run workflow completed next_phase index iteration outcome version key =
     journal_emit [(''kind'', PStr ''workflow_phase_boundary''), (''run_id'', PStr (take 128 run)), (''workflow_name'', PStr (take 128 workflow)),
       (''completed_phase'', PStr (take 128 completed)), (''next_phase'', of_opt_str (map_option (take 128) next_phase)),
       (''phase_index'', PInt (max 0 index)), (''phase_iteration'', PInt (max 0 iteration)), (''outcome'', PStr (take 96 outcome)),
       (''plan_version'', PStr (take 128 version)), (''boundary_key'', PStr (take 512 key))]"

definition valid_boundary :: "string \<Rightarrow> string \<Rightarrow> payload \<Rightarrow> bool" where
  "valid_boundary run workflow e \<longleftrightarrow>
     pget e ''kind'' = PStr ''workflow_phase_boundary'' \<and> pget e ''run_id'' = PStr run \<and> pget e ''workflow_name'' = PStr workflow
     \<and> (case str_of (pget e ''completed_phase'') of None \<Rightarrow> False | Some c \<Rightarrow> py_strip c \<noteq> [])
     \<and> (case int_of (pget e ''phase_index'') of None \<Rightarrow> False | Some i \<Rightarrow> 0 \<le> i)
     \<and> (case int_of (pget e ''phase_iteration'') of None \<Rightarrow> False | Some i \<Rightarrow> 0 \<le> i)"

definition fold_workflow_phase_boundaries :: "string \<Rightarrow> string \<Rightarrow> payload list jm" where
  "fold_workflow_phase_boundaries run workflow =
     jbind drain (\<lambda>_. lift_result (\<lambda>j. Inr (filter (valid_boundary run workflow) (objects (read_lines (j_file j))))))"

text \<open>\<open>digest\<close> is the first twelve characters of the SHA-256 of a text.\<close>

definition tool_exchange_started :: "(string \<Rightarrow> string) \<Rightarrow> string \<Rightarrow> string option \<Rightarrow> int \<Rightarrow> string list \<Rightarrow> unit jm" where
  "tool_exchange_started digest exchange run count calls =
     journal_emit [(''kind'', PStr ''tool_exchange_started''), (''exchange_id'', PStr exchange), (''run_id'', of_opt_str run),
       (''call_count'', PInt count), (''call_ids'', PList (map (PStr \<circ> digest) calls))]"

definition tool_exchange_committed :: "string \<Rightarrow> int \<Rightarrow> int \<Rightarrow> int \<Rightarrow> unit jm" where
  "tool_exchange_committed exchange calls completed synthetic =
     journal_emit [(''kind'', PStr ''tool_exchange_committed''), (''exchange_id'', PStr exchange), (''call_count'', PInt calls),
       (''completed_count'', PInt completed), (''synthetic_count'', PInt synthetic)]"

definition tool_exchange_result_recorded :: "(string \<Rightarrow> string) \<Rightarrow> string \<Rightarrow> string \<Rightarrow> string \<Rightarrow> bool \<Rightarrow> unit jm" where
  "tool_exchange_result_recorded digest exchange tool_use status synthetic =
     journal_emit [(''kind'', PStr ''tool_exchange_result_recorded''), (''exchange_id'', PStr exchange),
       (''tool_use_id_hash'', PStr (digest tool_use)), (''status'', PStr status), (''synthetic'', PBool synthetic)]"

definition tool_exchange_aborted :: "string \<Rightarrow> int \<Rightarrow> bool \<Rightarrow> string \<Rightarrow> unit jm" where
  "tool_exchange_aborted exchange calls repaired event =
     journal_emit [(''kind'', PStr ''tool_exchange_aborted''), (''schema_version'', PInt 2), (''exchange_id'', PStr exchange),
       (''call_count'', PInt calls), (''repaired'', PBool repaired), (''event_id'', PStr (take 128 event))]"

definition pending_exchange :: "payload \<Rightarrow> string list pydict \<Rightarrow> string list pydict" where
  "pending_exchange e pending =
     (case pget e ''exchange_id'' of
        PStr x \<Rightarrow>
          (if x = [] then pending
           else if pget e ''kind'' = PStr ''tool_exchange_started''
           then (case pget e ''call_ids'' of
               PList vs \<Rightarrow> dset x (filter (\<lambda>s. s \<noteq> []) (some_strs vs)) pending
             | _ \<Rightarrow> pending)
           else if pget e ''kind'' \<in> {PStr ''tool_exchange_committed'', PStr ''tool_exchange_aborted''} then dpop x pending
           else pending)
      | _ \<Rightarrow> pending)"

definition fold_pending_tool_exchange_call_hashes :: "string set jm" where
  "fold_pending_tool_exchange_call_hashes =
     jbind drain (\<lambda>_. lift_result (\<lambda>j. Inr (\<Union>(set ` snd ` set (fold pending_exchange (objects (read_lines (j_file j))) [])))))"

definition fold_tool_exchange_recoveries :: "payload list jm" where
  "fold_tool_exchange_recoveries =
     jbind drain (\<lambda>_. lift_result (\<lambda>j. Inr (filter (\<lambda>e. pget e ''kind'' = PStr ''tool_exchange_aborted''
       \<and> pget e ''repaired'' = PBool True \<and> (\<exists>s. pget e ''event_id'' = PStr s \<and> s \<noteq> [])) (objects (read_lines (j_file j))))))"

definition append_usage_record :: "payload \<Rightarrow> unit jm" where
  "append_usage_record r = journal_emit [(''kind'', PStr ''usage_record''), (''schema_version'', PInt 1), (''record'', of_dict r)]"

text \<open>A JSON line that is no object raises here.\<close>

fun usage_lines :: "jline list \<Rightarrow> payload pydict \<Rightarrow> string + payload pydict" where
  "usage_lines [] latest = Inr latest"
| "usage_lines (JBad # ls) latest = Inr latest"
| "usage_lines (JOther v # ls) latest = Inl ''AttributeError''"
| "usage_lines (JObj e # ls) latest = usage_lines ls
     (if pget e ''kind'' = PStr ''usage_record''
      then (case mapping_of (pget e ''record'') of
          None \<Rightarrow> latest
        | Some r \<Rightarrow> (case pget r ''record_id'' of PStr x \<Rightarrow> (if x \<noteq> [] then dset x r latest else latest) | _ \<Rightarrow> latest))
      else latest)"

definition fold_usage_lines :: "payload list jm" where
  "fold_usage_lines = jbind drain (\<lambda>_. lift_result (\<lambda>j.
     bindE (usage_lines (read_lines (j_file j)) []) (\<lambda>latest. Inr (map snd latest))))"

end
