(* ===== verification/Journal_Laws.thy ===== *)
theory Journal_Laws
  imports Journal
begin

text \<open>
  What a journal holds: as long as no write leaves a tail behind, the file and the queue are one list of
  lines that every operation only j_appends to; the fold of that list; and what a crash in the middle
  of a write leaves.
\<close>

section \<open>A journal as a list of lines\<close>

definition mild :: "disk \<Rightarrow> bool" where
  "mild d \<longleftrightarrow> d = DiskOk \<or> d = DiskFails"

definition calm :: "journal \<Rightarrow> bool" where
  "calm j \<longleftrightarrow> jf_tail (j_file j) = Clean \<and> list_all mild (j_disk j)"

definition content :: "journal \<Rightarrow> jline list" where
  "content j = read_lines (j_file j) @ map JObj (j_pending j)"

lemma append_lines_clean:
  assumes "jf_tail f = Clean"
  shows "fold append_line es f = \<lparr>jf_lines = jf_lines f @ map JObj es, jf_tail = Clean\<rparr>"
  using assms
proof (induction es arbitrary: f)
  case Nil
  then show ?case by (cases f) simp
next
  case (Cons e es)
  then show ?case using Cons.IH[of "append_line e f"] by (simp add: append_line_def)
qed

lemma write_pending_mild:
  assumes "mild d"
  shows "write_pending d j = (Inr (), j\<lparr>j_pending := [], j_file := fold append_line (j_pending j) (j_file j)\<rparr>)"
  using assms by (cases d) (auto simp: write_pending_def mild_def Let_def)

lemma take_disk_mild:
  assumes "calm j"
  obtains d ds where "take_disk j = (d, j\<lparr>j_disk := ds\<rparr>)" "mild d" "list_all mild ds"
proof (cases "j_disk j")
  case Nil
  then have "take_disk j = (DiskOk, j\<lparr>j_disk := []\<rparr>)" by (simp add: take_disk_def)
  then show ?thesis using that by (simp add: mild_def)
next
  case (Cons d ds)
  then have "take_disk j = (d, j\<lparr>j_disk := ds\<rparr>)" by (simp add: take_disk_def)
  then show ?thesis using that assms Cons by (simp add: calm_def)
qed

lemma content_simps [simp]:
  "content (j\<lparr>j_corrupt := n\<rparr>) = content j" "content (j\<lparr>j_view := v\<rparr>) = content j"
  "content (j\<lparr>j_disk := ds\<rparr>) = content j" "content (j\<lparr>j_seq := k\<rparr>) = content j" "content (j\<lparr>j_closed := c\<rparr>) = content j"
  by (simp_all add: content_def)

lemma content_clean: "jf_tail (j_file j) = Clean \<Longrightarrow> content j = jf_lines (j_file j) @ map JObj (j_pending j)"
  by (simp add: content_def read_lines_def)

lemma drain_calm:
  assumes "calm j"
  obtains j' where "drain j = (Inr (), j')" "calm j'" "content j' = content j" "read_lines (j_file j') = content j"
    "j_pending j' = []" "j_closed j' = j_closed j" "j_seq j' = j_seq j" "j_view j' = j_view j"
proof (cases "j_pending j = []")
  case True
  show ?thesis
    by (rule that[of j]) (use True assms in \<open>simp_all add: drain_def content_def\<close>)
next
  case False
  obtain d ds where d: "take_disk j = (d, j\<lparr>j_disk := ds\<rparr>)" "mild d" "list_all mild ds"
    using take_disk_mild[OF assms] .
  have tail: "jf_tail (j_file j) = Clean" using assms by (simp add: calm_def)
  let ?j = "j\<lparr>j_disk := ds, j_pending := [], j_file := fold append_line (j_pending j) (j_file j)\<rparr>"
  have "drain j = (Inr (), ?j)" using False d by (simp add: drain_def write_pending_mild)
  then show ?thesis
    by (rule that[of ?j]) (use d(3) tail in \<open>simp_all add: calm_def content_def append_lines_clean read_lines_def\<close>)
qed

text \<open>A record is appended, or nothing changes.\<close>

lemma journal_write_calm:
  assumes calm: "calm j"
  shows "\<exists>r j'. journal_write e j = (r, j') \<and> calm j' \<and> j_closed j' = j_closed j
    \<and> (case r of Inr u \<Rightarrow> content j' = content j @ [JObj e] \<and> j_seq j' = j_seq j + 1
          \<and> j_view j' = (if projected e then map_option (\<lambda>v. v @ [e]) (j_view j) else j_view j)
        | Inl err \<Rightarrow> content j' = content j \<and> j_seq j' = j_seq j \<and> j_view j' = j_view j)"
proof (cases "advisory e \<or> j_closed j")
  case True
  then show ?thesis using calm by (auto simp: journal_write_def content_def calm_def advisory_def projected_def starts_with_iff)
next
  case False
  obtain d ds where d: "take_disk j = (d, j\<lparr>j_disk := ds\<rparr>)" "mild d" "list_all mild ds"
    using take_disk_mild[OF calm] .
  have tail: "jf_tail (j_file j) = Clean" using calm by (simp add: calm_def)
  have w: "write_pending d (j\<lparr>j_disk := ds\<rparr>) = (Inr (), j\<lparr>j_disk := ds, j_pending := [],
      j_file := \<lparr>jf_lines = jf_lines (j_file j) @ map JObj (j_pending j), jf_tail = Clean\<rparr>\<rparr>)"
    using write_pending_mild[OF d(2)] append_lines_clean[OF tail] by simp
  show ?thesis
    using d False tail w
    by (cases d) (auto simp: journal_write_def write_durable_def mild_def calm_def content_def read_lines_def append_line_def)
qed

definition stamped :: "journal \<Rightarrow> payload \<Rightarrow> payload" where
  "stamped j kvs = (''seq'', PInt (j_seq j)) # kvs"

lemma emit_calm:
  assumes "calm j"
  obtains (ok) j' where "journal_emit kvs j = (Inr (), j')" "calm j'" "content j' = content j @ [JObj (stamped j kvs)]" "j_closed j' = j_closed j"
      "j_seq j' = j_seq j + 1"
      "j_view j' = (if projected (stamped j kvs) then map_option (\<lambda>v. v @ [stamped j kvs]) (j_view j) else j_view j)"
  | (failed) err j' where "journal_emit kvs j = (Inl err, j')" "calm j'" "content j' = content j" "j_closed j' = j_closed j"
      "j_seq j' = j_seq j" "j_view j' = j_view j"
proof -
  obtain r j' where w: "journal_write (stamped j kvs) j = (r, j')" "calm j'" "j_closed j' = j_closed j"
    "case r of Inr u \<Rightarrow> content j' = content j @ [JObj (stamped j kvs)] \<and> j_seq j' = j_seq j + 1
          \<and> j_view j' = (if projected (stamped j kvs) then map_option (\<lambda>v. v @ [stamped j kvs]) (j_view j) else j_view j)
      | Inl err \<Rightarrow> content j' = content j \<and> j_seq j' = j_seq j \<and> j_view j' = j_view j"
    using journal_write_calm[OF assms, of "stamped j kvs"] by blast
  show ?thesis
  proof (cases r)
    case (Inl err)
    then show ?thesis using failed[of err j'] w by (simp add: journal_emit_def stamped_def)
  next
    case (Inr u)
    then show ?thesis using ok[of j'] w by (simp add: journal_emit_def stamped_def)
  qed
qed

lemma pget_stamped [simp]: "k \<noteq> ''seq'' \<Longrightarrow> pget (stamped j kvs) k = pget kvs k"
  "k \<noteq> ''seq'' \<Longrightarrow> dget (stamped j kvs) k = dget kvs k" "k \<noteq> ''seq'' \<Longrightarrow> dget_or (stamped j kvs) k x = dget_or kvs k x"
  by (simp_all add: stamped_def pget_def dget_or_def)

section \<open>Numbered journals\<close>

text \<open>
  In a journal that was only written through \<open>emit\<close>, the records carry their position as sequence number, and the
  projection of the subagent records, once it is built, is the one the lines give.
\<close>

definition j_numbered :: "journal \<Rightarrow> bool" where
  "j_numbered j \<longleftrightarrow> (\<exists>es. content j = map JObj es \<and> map (\<lambda>e. pget e ''seq'') es = map (\<lambda>k. PInt (int k)) [0..<length es]
     \<and> j_seq j = int (length es) \<and> (\<forall>v. j_view j = Some v \<longrightarrow> v = filter projected es))"

definition clean :: "journal \<Rightarrow> bool" where
  "clean j \<longleftrightarrow> calm j \<and> j_numbered j"

lemma j_numbered_cong:
  assumes "j_numbered j" "content j' = content j" "j_seq j' = j_seq j" "j_view j' = j_view j"
  shows "j_numbered j'"
  using assms by (simp add: j_numbered_def)

lemma j_numbered_simps [simp]: "j_numbered (j\<lparr>j_corrupt := n\<rparr>) = j_numbered j" "j_numbered (j\<lparr>j_closed := c\<rparr>) = j_numbered j"
  by (simp_all add: j_numbered_def)

lemma calm_simps [simp]: "calm (j\<lparr>j_corrupt := n\<rparr>) = calm j" "calm (j\<lparr>j_closed := c\<rparr>) = calm j" "calm (j\<lparr>j_view := v\<rparr>) = calm j"
  by (simp_all add: calm_def)

lemma j_numbered_snoc:
  assumes "j_numbered j" "content j' = content j @ [JObj (stamped j kvs)]" "j_seq j' = j_seq j + 1"
    "j_view j' = (if projected (stamped j kvs) then map_option (\<lambda>v. v @ [stamped j kvs]) (j_view j) else j_view j)"
  shows "j_numbered j'"
proof -
  obtain es where es: "content j = map JObj es" "map (\<lambda>e. pget e ''seq'') es = map (\<lambda>k. PInt (int k)) [0..<length es]"
      "j_seq j = int (length es)" "\<forall>v. j_view j = Some v \<longrightarrow> v = filter projected es"
    using assms(1) by (auto simp: j_numbered_def)
  have "pget (stamped j kvs) ''seq'' = PInt (int (length es))" using es(3) by (simp add: stamped_def pget_def dget_or_def)
  then have "map (\<lambda>e. pget e ''seq'') (es @ [stamped j kvs]) = map (\<lambda>k. PInt (int k)) [0..<length (es @ [stamped j kvs])]"
    using es(2) by simp
  moreover have "\<forall>v. j_view j' = Some v \<longrightarrow> v = filter projected (es @ [stamped j kvs])" using es(4) assms(4) by auto
  moreover have "content j' = map JObj (es @ [stamped j kvs])" using assms(2) es(1) by simp
  moreover have "j_seq j' = int (length (es @ [stamped j kvs]))" using assms(3) es(3) by simp
  ultimately show ?thesis unfolding j_numbered_def by blast
qed

lemma drain_clean:
  assumes "clean j"
  obtains j' where "drain j = (Inr (), j')" "clean j'" "content j' = content j" "read_lines (j_file j') = content j"
    "j_pending j' = []" "j_closed j' = j_closed j" "j_seq j' = j_seq j" "j_view j' = j_view j"
proof -
  obtain j' where j': "drain j = (Inr (), j')" "calm j'" "content j' = content j" "read_lines (j_file j') = content j"
    "j_pending j' = []" "j_closed j' = j_closed j" "j_seq j' = j_seq j" "j_view j' = j_view j"
    using drain_calm[of j] assms by (auto simp: clean_def)
  have "j_numbered j'" using j_numbered_cong[of j j'] assms j' by (simp add: clean_def)
  then show ?thesis using that[of j'] j' by (simp add: clean_def)
qed

lemma emit_clean:
  assumes "clean j"
  obtains (ok) j' where "journal_emit kvs j = (Inr (), j')" "clean j'" "content j' = content j @ [JObj (stamped j kvs)]" "j_closed j' = j_closed j"
      "j_seq j' = j_seq j + 1"
  | (failed) err j' where "journal_emit kvs j = (Inl err, j')" "clean j'" "content j' = content j" "j_closed j' = j_closed j"
proof -
  have calm: "calm j" and num: "j_numbered j" using assms by (simp_all add: clean_def)
  show ?thesis
    using calm
  proof (cases rule: emit_calm[of j kvs])
    case (ok j1)
    have "j_numbered j1" by (rule j_numbered_snoc[OF num ok(3,5,6)])
    then show thesis using that(1)[of j1] ok by (simp add: clean_def)
  next
    case (failed err j1)
    have "j_numbered j1" by (rule j_numbered_cong[OF num failed(3,5,6)])
    then show thesis using that(2)[of err j1] failed by (simp add: clean_def)
  qed
qed

section \<open>The fold of the lines\<close>

lemma fold_lines_append:
  assumes "fold_lines ls fs = Inr (fs', 0)"
  shows "fold_lines (ls @ ls') fs = fold_lines ls' fs'"
  using assms
proof (induction ls fs rule: fold_lines.induct)
  case (4 e ls fs)
  then show ?case by (cases "fold_entry e fs") auto
qed simp_all

definition held :: "jline list \<Rightarrow> pyval list \<Rightarrow> pyval \<Rightarrow> bool" where
  "held ls ms s \<longleftrightarrow> (\<exists>fs. fold_lines ls fold_start = Inr (fs, 0) \<and> fs_messages (rollback_pending fs) = ms
     \<and> fs_summary (rollback_pending fs) = s)"

lemma held_empty: "held [] [] PNone"
  by (simp add: held_def fold_start_def rollback_pending_def)

lemma rollback_idem [simp]: "rollback_pending (rollback_pending fs) = rollback_pending fs"
  by (simp add: rollback_pending_def split: option.split prod.split)

lemma rollback_pending_None [simp]: "fs_pending (rollback_pending fs) = None"
  by (simp add: rollback_pending_def split: option.split prod.split)

lemma rollback_no_pending: "fs_pending fs = None \<Longrightarrow> rollback_pending fs = fs"
  by (simp add: rollback_pending_def)

definition neutral :: "payload \<Rightarrow> bool" where
  "neutral e \<longleftrightarrow> pget e ''kind'' \<notin> {PStr ''state_replace_prepare'', PStr ''reset'', PStr ''state_replace_commit'', PStr ''append''}"

lemma held_neutral:
  assumes "held ls ms s" "neutral e"
  shows "held (ls @ [JObj e]) ms s"
proof -
  obtain fs where fs: "fold_lines ls fold_start = Inr (fs, 0)" "fs_messages (rollback_pending fs) = ms" "fs_summary (rollback_pending fs) = s"
    using assms(1) by (auto simp: held_def)
  have "fold_entry e fs = Inr fs" using assms(2) by (simp add: fold_entry_def Let_def neutral_def)
  then show ?thesis using fs fold_lines_append[OF fs(1), of "[JObj e]"] by (simp add: held_def)
qed

lemma held_neutrals:
  assumes "held ls ms s" "list_all neutral es"
  shows "held (ls @ map JObj es) ms s"
  using assms
proof (induction es arbitrary: ls)
  case (Cons e es)
  then show ?case using Cons.IH[of "ls @ [JObj e]"] held_neutral[of ls ms s e] by simp
qed simp

lemma held_append:
  assumes "held ls ms s"
  shows "held (ls @ [JObj (stamped j (append_entry m mid))]) (ms @ [m]) s"
proof -
  obtain fs where fs: "fold_lines ls fold_start = Inr (fs, 0)" "fs_messages (rollback_pending fs) = ms" "fs_summary (rollback_pending fs) = s"
    using assms(1) by (auto simp: held_def)
  let ?fs = "(rollback_pending fs)\<lparr>fs_messages := ms @ [m]\<rparr>"
  have "fold_entry (stamped j (append_entry m mid)) fs = Inr ?fs"
    using fs by (simp add: fold_entry_def Let_def append_entry_def pget_def dget_or_def item_def stamped_def)
  then show ?thesis using fs fold_lines_append[OF fs(1), of "[JObj (stamped j (append_entry m mid))]"]
    by (simp add: held_def rollback_no_pending)
qed

lemma held_reset:
  assumes "held ls ms s"
  shows "held (ls @ [JObj (stamped j (reset_entry ms' s' turn step reason))]) ms' s'"
proof -
  let ?e = "stamped j (reset_entry ms' s' turn step reason)"
  obtain fs where fs: "fold_lines ls fold_start = Inr (fs, 0)"
    using assms(1) by (auto simp: held_def)
  have tid: "pget ?e ''transaction_id'' = PNone" "pget ?e ''kind'' = PStr ''reset''" "dget_or ?e ''messages'' (PList []) = PList ms'"
      "pget ?e ''summary'' = s'"
    by (simp_all add: reset_entry_def pget_def dget_or_def stamped_def)
  then have "\<not> owns ?e fs" by (simp add: owns_def split: option.split prod.split)
  then have "fold_entry ?e fs = Inr ((rollback_pending fs)\<lparr>fs_messages := ms', fs_summary := s'\<rparr>)"
    by (simp add: fold_entry_def Let_def tid)
  then show ?thesis using fold_lines_append[OF fs, of "[JObj ?e]"] by (simp add: held_def rollback_no_pending)
qed

text \<open>The three records of a replacement.\<close>

lemma fold_prepare:
  assumes "held ls ms s"
  obtains fs where "fold_lines (ls @ [JObj (stamped j (prepare_entry tid ms s))]) fold_start = Inr (fs, 0)"
    "fs_messages fs = ms" "fs_summary fs = s" "fs_pending fs = Some (tid, ms, s)"
proof -
  let ?e = "stamped j (prepare_entry tid ms s)"
  obtain fs where fs: "fold_lines ls fold_start = Inr (fs, 0)" "fs_messages (rollback_pending fs) = ms" "fs_summary (rollback_pending fs) = s"
    using assms(1) by (auto simp: held_def)
  have "fold_entry ?e fs = Inr ((rollback_pending fs)\<lparr>fs_pending := Some (tid, ms, s)\<rparr>)"
    by (simp add: fold_entry_def Let_def prepare_entry_def pget_def dget_or_def stamped_def)
  then show ?thesis
    using that[of "(rollback_pending fs)\<lparr>fs_pending := Some (tid, ms, s)\<rparr>"] fs(2,3) fold_lines_append[OF fs(1), of "[JObj ?e]"] by simp
qed

lemma fold_candidate:
  assumes "fold_lines ls fold_start = Inr (fs, 0)" "fs_pending fs = Some (tid, ms, s)"
  shows "fold_lines (ls @ [JObj (stamped j (candidate_entry tid ms' s'))]) fold_start
    = Inr (fs\<lparr>fs_messages := ms', fs_summary := s'\<rparr>, 0)"
proof -
  let ?e = "stamped j (candidate_entry tid ms' s')"
  have "owns ?e fs" using assms(2) by (simp add: owns_def candidate_entry_def pget_def dget_or_def stamped_def)
  then have "fold_entry ?e fs = Inr (fs\<lparr>fs_messages := ms', fs_summary := s'\<rparr>)"
    by (simp add: fold_entry_def Let_def candidate_entry_def pget_def dget_or_def stamped_def)
  then show ?thesis using fold_lines_append[OF assms(1), of "[JObj ?e]"] by simp
qed

lemma fold_commit:
  assumes "fold_lines ls fold_start = Inr (fs, 0)" "fs_pending fs = Some (tid, ms, s)"
  shows "fold_lines (ls @ [JObj (stamped j (commit_entry tid))]) fold_start = Inr (fs\<lparr>fs_pending := None\<rparr>, 0)"
proof -
  let ?e = "stamped j (commit_entry tid)"
  have "owns ?e fs" using assms(2) by (simp add: owns_def commit_entry_def pget_def dget_or_def stamped_def)
  then have "fold_entry ?e fs = Inr (fs\<lparr>fs_pending := None\<rparr>)"
    by (simp add: fold_entry_def Let_def commit_entry_def pget_def dget_or_def stamped_def)
  then show ?thesis using fold_lines_append[OF assms(1), of "[JObj ?e]"] by simp
qed

lemma journal_fold_held:
  assumes "clean j" "held (content j) ms s"
  obtains j' where "journal_fold j = (Inr (ms, s), j')" "clean j'" "content j' = content j" "j_closed j' = j_closed j"
    "j_seq j' = j_seq j" "j_corrupt j' = 0"
proof -
  obtain j1 where d: "drain j = (Inr (), j1)" "clean j1" "content j1 = content j" "read_lines (j_file j1) = content j"
      "j_closed j1 = j_closed j" "j_seq j1 = j_seq j"
    using drain_clean[OF assms(1)] by metis
  have "fold_path_with_report (j_file j1) = Inr (ms, s, 0)"
    using assms(2) d(4) by (auto simp: fold_path_with_report_def held_def Let_def)
  then have "journal_fold j = (Inr (ms, s), j1\<lparr>j_corrupt := 0\<rparr>)" by (simp add: journal_fold_def jbind_def d(1))
  then show ?thesis using that[of "j1\<lparr>j_corrupt := 0\<rparr>"] d by (simp add: clean_def)
qed

text \<open>A replacement succeeds as a whole or leaves what was held.\<close>

lemma replace_state_clean:
  assumes clean: "clean j" and held: "held (content j) ms s"
  shows "\<exists>r j'. replace_state tid ms' s' j = (r, j') \<and> clean j' \<and> j_closed j' = j_closed j
    \<and> (case r of Inr u \<Rightarrow> held (content j') ms' s' | Inl err \<Rightarrow> held (content j') ms s)
    \<and> (\<exists>es. content j' = content j @ map JObj es)"
proof -
  obtain j0 where j0: "journal_fold j = (Inr (ms, s), j0)" "clean j0" "content j0 = content j" "j_closed j0 = j_closed j"
    using journal_fold_held[OF assms] by metis
  have unfold: "replace_state tid ms' s' j = jbind (journal_emit (prepare_entry tid ms s)) (\<lambda>_. jbind (journal_emit (candidate_entry tid ms' s')) (\<lambda>_.
       journal_emit (commit_entry tid))) j0"
    by (simp add: replace_state_def jbind_def j0(1))
  show ?thesis
    using j0(2)
  proof (cases rule: emit_clean[of j0 "prepare_entry tid ms s"])
    case (failed err j1)
    then show ?thesis using held j0 by (auto simp: unfold jbind_def)
  next
    case (ok j1)
    obtain fs where fs: "fold_lines (content j1) fold_start = Inr (fs, 0)" "fs_messages fs = ms" "fs_summary fs = s"
        "fs_pending fs = Some (tid, ms, s)"
      using fold_prepare[OF held, of j0 tid] ok(3) j0(3) by metis
    have old: "held (content j1) ms s" using fs by (simp add: held_def rollback_pending_def)
    show ?thesis
      using ok(2)
    proof (cases rule: emit_clean[of j1 "candidate_entry tid ms' s'"])
      case (failed err j2)
      then show ?thesis using old ok j0 by (auto simp: unfold jbind_def intro!: exI[of _ "[stamped j0 (prepare_entry tid ms s)]"])
    next
      case second: (ok j2)
      have fs2: "fold_lines (content j2) fold_start = Inr (fs\<lparr>fs_messages := ms', fs_summary := s'\<rparr>, 0)"
        using fold_candidate[OF fs(1,4), of j1 ms' s'] second(3) by simp
      have old2: "held (content j2) ms s" using fs2 fs(4) by (simp add: held_def rollback_pending_def)
      show ?thesis
        using second(2)
      proof (cases rule: emit_clean[of j2 "commit_entry tid"])
        case (failed err j3)
        then show ?thesis using old2 ok j0 second
          by (auto simp: unfold jbind_def
              intro!: exI[of _ "[stamped j0 (prepare_entry tid ms s), stamped j1 (candidate_entry tid ms' s')]"])
      next
        case third: (ok j3)
        have "fold_lines (content j3) fold_start = Inr (fs\<lparr>fs_messages := ms', fs_summary := s', fs_pending := None\<rparr>, 0)"
          using fold_commit[OF fs2, of tid ms s j2] fs(4) third(3) by simp
        then have "held (content j3) ms' s'" by (simp add: held_def rollback_pending_def)
        then show ?thesis using ok j0 second third
          by (auto simp: unfold jbind_def intro!: exI[of _ "[stamped j0 (prepare_entry tid ms s),
              stamped j1 (candidate_entry tid ms' s'), stamped j2 (commit_entry tid)]"])
      qed
    qed
  qed
qed

end
