(* ===== verification/Journal_Memory.thy ===== *)
theory Journal_Memory
  imports Journal
begin

text \<open>
  The journaled short-term memory (\<open>src/agenthicc/memory/journaled.py\<close>): the live projection of the journal,
  and the repair of an interrupted tool history (\<open>memory/tool_history.py\<close>).

  \<open>lauren_ai\<close> is a parameter: the messages a base-class append adds are an argument of the operation, and
  \<open>report\<close> and \<open>heal\<close> are its history validator and its deterministic repair (\<open>ensure_valid\<close>). A deep copy
  of values is the value. The exchange in progress is its identifier, its call identifiers and whether it is started.
\<close>

section \<open>The repair of a tool history\<close>

record issue =
  is_code :: string
  is_assistant_index :: "int option"
  is_expected_ids :: "string list"
  is_observed_ids :: "string list"
  is_repairable :: bool

text \<open>\<open>value.get(a) or value.get(b) or value.get(c)\<close>, when that is text.\<close>

definition result_id :: "payload \<Rightarrow> string" where
  "result_id b =
     (let v = (if truthy (pget b ''tool_use_id'') then pget b ''tool_use_id''
               else if truthy (pget b ''tool_call_id'') then pget b ''tool_call_id'' else pget b ''id'')
      in case v of PStr s \<Rightarrow> s | _ \<Rightarrow> [])"

definition tool_role_block :: "payload \<Rightarrow> payload" where
  "tool_role_block m =
     [(''type'', PStr ''tool_result''),
      (''tool_use_id'', if truthy (pget m ''tool_call_id'') then pget m ''tool_call_id''
        else if truthy (pget m ''tool_use_id'') then pget m ''tool_use_id'' else PStr []),
      (''content'', dget_or m ''content'' (PStr []))]
     @ (case dget m ''is_error'' of None \<Rightarrow> [] | Some v \<Rightarrow> [(''is_error'', v)])"

definition wanted_block :: "string set \<Rightarrow> pyval \<Rightarrow> payload option" where
  "wanted_block wanted v =
     (case mapping_of v of
        None \<Rightarrow> None
      | Some b \<Rightarrow> (if pget b ''type'' = PStr ''tool_result'' \<and> result_id b \<in> wanted then Some b else None))"

text \<open>The matching results of a message, and the message without them (\<open>None\<close>: nothing is left of it).\<close>

definition matching_result_blocks :: "pyval \<Rightarrow> string set \<Rightarrow> payload list \<times> pyval option \<times> bool" where
  "matching_result_blocks message wanted =
     (case mapping_of message of
        None \<Rightarrow> ([], Some message, False)
      | Some m \<Rightarrow>
          if pget m ''type'' = PStr ''tool_result''
          then (if result_id m \<in> wanted then ([m], None, True) else ([], Some message, False))
          else if pget m ''role'' = PStr ''tool''
          then (let b = tool_role_block m in
                if result_id b \<in> wanted then ([b], None, True) else ([], Some message, False))
          else case seq_of (pget m ''content'') of
            None \<Rightarrow> ([], Some message, False)
          | Some content \<Rightarrow>
              let matches = List.map_filter (wanted_block wanted) content;
                  rest = filter (\<lambda>v. wanted_block wanted v = None) content
              in if matches = [] then ([], Some message, False)
                 else (matches, if rest = [] then None else Some (of_dict (dset ''content'' (PList rest) m)), True))"

definition interrupted_text :: string where
  "interrupted_text = ''[Tool execution was interrupted before an adjacent result was available.]''"

definition interruption_block :: "string \<Rightarrow> payload" where
  "interruption_block tool_use = [(''type'', PStr ''tool_result''), (''tool_use_id'', PStr tool_use),
     (''content'', PStr interrupted_text), (''is_error'', PBool True)]"

text \<open>
  The late results of the assistant message at \<open>i\<close>, taken out of the messages behind it from the last one on.
  \<open>None\<close> is a duplicated result. The message right behind it is cleaned at the end only.
\<close>

fun add_found :: "payload list \<Rightarrow> payload pydict \<Rightarrow> payload pydict option" where
  "add_found [] found = Some found"
| "add_found (b # bs) found =
     (if result_id b = [] then add_found bs found
      else if dget found (result_id b) \<noteq> None then None
      else add_found bs (dset (result_id b) b found))"

fun collect_late :: "nat \<Rightarrow> string set \<Rightarrow> nat \<Rightarrow> pyval list \<Rightarrow> payload pydict \<Rightarrow> pyval option option
    \<Rightarrow> (pyval list \<times> payload pydict \<times> pyval option option) option" where
  "collect_late i wanted 0 ms found near = Some (ms, found, near)"
| "collect_late i wanted (Suc k) ms found near =
     (let n = i + Suc k; (matches, cleaned, removed) = matching_result_blocks (ms ! n) wanted in
      if \<not> removed then collect_late i wanted k ms found near
      else case add_found matches found of
        None \<Rightarrow> None
      | Some found1 \<Rightarrow>
          if k = 0 then collect_late i wanted k ms found1 (Some cleaned)
          else collect_late i wanted k (case cleaned of None \<Rightarrow> take n ms @ drop (Suc n) ms | Some c \<Rightarrow> ms[n := c]) found1 near)"

definition result_blocks :: "(string \<Rightarrow> string) \<Rightarrow> string set option \<Rightarrow> payload pydict \<Rightarrow> string list \<Rightarrow> payload list option" where
  "result_blocks digest allowed found ids =
     (if \<forall>x \<in> set ids. dget found x \<noteq> None \<or> (case allowed of None \<Rightarrow> True | Some hs \<Rightarrow> digest x \<in> hs)
      then Some (map (\<lambda>x. case dget found x of Some b \<Rightarrow> b | None \<Rightarrow> interruption_block x) ids)
      else None)"

definition repair_batch :: "(string \<Rightarrow> string) \<Rightarrow> string set option \<Rightarrow> nat \<Rightarrow> string list \<Rightarrow> pyval list \<Rightarrow> pyval list option" where
  "repair_batch digest allowed i ids ms =
     (case collect_late i (set ids) (length ms - 1 - i) ms [] None of
        None \<Rightarrow> None
      | Some (ms1, found, near) \<Rightarrow>
          map_option (\<lambda>blocks.
            let ms2 = (case near of None \<Rightarrow> ms1
                  | Some None \<Rightarrow> take (Suc i) ms1 @ drop (Suc (Suc i)) ms1
                  | Some (Some c) \<Rightarrow> ms1[Suc i := c])
            in take (Suc i) ms2 @ [of_dict [(''role'', PStr ''user''), (''content'', PList (map of_dict blocks))]] @ drop (Suc i) ms2)
            (result_blocks digest allowed found ids))"

text \<open>\<open>int(index or -1)\<close> of the sort key: an index of zero counts as minus one.\<close>

definition batch_key :: "issue \<Rightarrow> int" where
  "batch_key x = (case is_assistant_index x of None \<Rightarrow> - 1 | Some i \<Rightarrow> if i = 0 then - 1 else i)"

definition batches :: "issue list \<Rightarrow> issue list" where
  "batches issues = rev (sort_key batch_key (rev (filter (\<lambda>x. is_code x = ''non_adjacent_results'') issues)))"

fun repair_all :: "(string \<Rightarrow> string) \<Rightarrow> string set option \<Rightarrow> issue list \<Rightarrow> pyval list \<Rightarrow> bool \<Rightarrow> (pyval list \<times> bool) option" where
  "repair_all digest allowed [] ms changed = Some (ms, changed)"
| "repair_all digest allowed (x # xs) ms changed =
     (case is_assistant_index x of
        Some i \<Rightarrow>
          (if is_expected_ids x = [] \<or> i < 0 \<or> int (length ms) \<le> i then repair_all digest allowed xs ms changed
           else case repair_batch digest allowed (nat i) (is_expected_ids x) ms of
             None \<Rightarrow> None
           | Some ms1 \<Rightarrow> repair_all digest allowed xs ms1 True)
      | None \<Rightarrow> repair_all digest allowed xs ms changed)"

text \<open>With \<open>commit=False\<close>: the repaired messages, when something changed.\<close>

definition repair_non_adjacent :: "(string \<Rightarrow> string) \<Rightarrow> string set option \<Rightarrow> issue list \<Rightarrow> pyval list \<Rightarrow> pyval list option" where
  "repair_non_adjacent digest allowed issues ms =
     (case repair_all digest allowed (batches issues) ms False of
        Some (ms1, True) \<Rightarrow> Some ms1
      | _ \<Rightarrow> None)"

section \<open>The memory\<close>

datatype history_status = HistoryReady | HistoryRepaired | RepairRequired | Irrecoverable | JournalCorrupt

record recovery_state =
  rs_status :: history_status
  rs_issue_codes :: "string list"
  rs_repair_attempted :: bool

definition provider_ready :: "recovery_state \<Rightarrow> bool" where
  "provider_ready s \<longleftrightarrow> rs_status s = HistoryReady \<or> rs_status s = HistoryRepaired"

record exchange =
  ex_exchange_id :: string
  ex_call_ids :: "string list"
  ex_started :: bool

record memory =
  mem_messages :: "pyval list"
  mem_summary :: pyval
  mem_exchange :: "exchange option"
  mem_recovery :: recovery_state
  mem_journal :: journal

record checkpoint =
  cp_messages :: "pyval list"
  cp_summary :: pyval
  cp_exchange :: "exchange option"

type_synonym 'a mm = "memory \<Rightarrow> (string + 'a) \<times> memory"

definition mbind :: "'a mm \<Rightarrow> ('a \<Rightarrow> 'b mm) \<Rightarrow> 'b mm" where
  "mbind a f = (\<lambda>m. case a m of (Inl e, m') \<Rightarrow> (Inl e, m') | (Inr x, m') \<Rightarrow> f x m')"

definition on_journal :: "'a jm \<Rightarrow> 'a mm" where
  "on_journal a m = (let (r, j) = a (mem_journal m) in (r, m\<lparr>mem_journal := j\<rparr>))"

definition ready_state :: recovery_state where
  "ready_state = \<lparr>rs_status = HistoryReady, rs_issue_codes = [], rs_repair_attempted = False\<rparr>"

text \<open>\<open>_journal_new\<close>: the appended messages are written one after the other.\<close>

fun journal_new :: "pyval list \<Rightarrow> unit jm" where
  "journal_new [] = jret ()"
| "journal_new (m # ms) = jbind (append_message m []) (\<lambda>_. journal_new ms)"

text \<open>\<open>add_user\<close>, \<open>add_assistant\<close>, \<open>add_tool_result\<close> and \<open>add_tool_results\<close>, whose base class j_appends \<open>added\<close>.\<close>

definition add_messages :: "pyval list \<Rightarrow> unit mm" where
  "add_messages added m = on_journal (journal_new added) (m\<lparr>mem_messages := mem_messages m @ added\<rparr>)"

fun journal_once :: "string \<Rightarrow> nat \<Rightarrow> pyval list \<Rightarrow> unit jm" where
  "journal_once mid n [] = jret ()"
| "journal_once mid n (m # ms) =
     jbind (append_message m (if n = 0 then mid else mid @ '':'' @ nat_digits n)) (\<lambda>_. journal_once mid (Suc n) ms)"

definition add_user_once :: "pyval list \<Rightarrow> string \<Rightarrow> bool mm" where
  "add_user_once added mid =
     (if mid = [] then (\<lambda>m. (Inl ''message_id must be non-empty'', m))
      else mbind (on_journal (has_message_id mid)) (\<lambda>known m.
        if known then (Inr False, m)
        else mbind (on_journal (journal_once mid 0 added)) (\<lambda>_ m. (Inr (added \<noteq> []), m))
          (m\<lparr>mem_messages := mem_messages m @ added\<rparr>)))"

definition snapshot :: "memory \<Rightarrow> checkpoint" where
  "snapshot m = \<lparr>cp_messages = mem_messages m, cp_summary = mem_summary m, cp_exchange = mem_exchange m\<rparr>"

definition restore :: "checkpoint \<Rightarrow> string \<Rightarrow> string \<Rightarrow> string \<Rightarrow> unit mm" where
  "restore c turn step reason m =
     on_journal (journal_reset (cp_messages c) (cp_summary c) turn step reason)
       (m\<lparr>mem_messages := cp_messages c, mem_summary := cp_summary c, mem_exchange := cp_exchange c\<rparr>)"

text \<open>A late commit of an exchange that is no longer the active one is refused before the base class sees it.\<close>

definition owns_exchange :: "string \<Rightarrow> memory \<Rightarrow> bool" where
  "owns_exchange x m \<longleftrightarrow> (case mem_exchange m of None \<Rightarrow> False | Some e \<Rightarrow> ex_exchange_id e = x)"

definition commit_tool_exchange :: "string \<Rightarrow> pyval list \<Rightarrow> unit mm" where
  "commit_tool_exchange x added m =
     (if \<not> owns_exchange x m then (Inl ''exchange_owner_mismatch'', m)
      else mbind (add_messages added) (\<lambda>_ m. (Inr (), m\<lparr>mem_exchange := None\<rparr>)) m)"

text \<open>
  The base class calls these hooks; it alone sets the exchange in progress. \<open>event\<close> is the identifier
  \<open>tool_exchange_recovery_event_id\<close> derives.
\<close>

definition on_tool_exchange_started :: "(string \<Rightarrow> string) \<Rightarrow> exchange \<Rightarrow> string option \<Rightarrow> unit mm" where
  "on_tool_exchange_started digest x run =
     on_journal (tool_exchange_started digest (ex_exchange_id x) run (int (length (ex_call_ids x))) (ex_call_ids x))"

definition on_tool_exchange_committed :: "exchange \<Rightarrow> int \<Rightarrow> int \<Rightarrow> unit mm" where
  "on_tool_exchange_committed x outcomes synthetic =
     on_journal (tool_exchange_committed (ex_exchange_id x) (int (length (ex_call_ids x))) outcomes synthetic)"

definition on_tool_exchange_result_recorded :: "(string \<Rightarrow> string) \<Rightarrow> exchange \<Rightarrow> string \<Rightarrow> string \<Rightarrow> bool \<Rightarrow> unit mm" where
  "on_tool_exchange_result_recorded digest x tool_use status synthetic =
     on_journal (tool_exchange_result_recorded digest (ex_exchange_id x) tool_use status synthetic)"

definition on_tool_exchange_aborted :: "(string \<Rightarrow> bool \<Rightarrow> string) \<Rightarrow> exchange \<Rightarrow> bool \<Rightarrow> unit mm" where
  "on_tool_exchange_aborted event x repaired =
     on_journal (tool_exchange_aborted (ex_exchange_id x) (int (length (ex_call_ids x))) repaired (event (ex_exchange_id x) repaired))"

text \<open>The compactor replaces the projection in place, then records it.\<close>

definition compact_in_place :: "pyval list \<Rightarrow> pyval \<Rightarrow> unit mm" where
  "compact_in_place ms s m =
     on_journal (journal_reset ms s [] [] []) (m\<lparr>mem_messages := ms, mem_summary := s\<rparr>)"

definition exchange_running :: "memory \<Rightarrow> bool" where
  "exchange_running m \<longleftrightarrow> (case mem_exchange m of None \<Rightarrow> False | Some e \<Rightarrow> ex_started e)"

definition memory_replace_state :: "string \<Rightarrow> pyval list \<Rightarrow> pyval \<Rightarrow> unit mm" where
  "memory_replace_state tid ms s =
     (\<lambda>m. if exchange_running m then (Inl ''compaction_during_tool_exchange'', m)
      else mbind (on_journal (replace_state tid ms s)) (\<lambda>_ m. (Inr (), m\<lparr>mem_messages := ms, mem_summary := s\<rparr>)) m)"

definition rollback_to :: "nat \<Rightarrow> unit mm" where
  "rollback_to count m =
     (let ms = take count (mem_messages m) in
      on_journal (journal_reset ms (mem_summary m) [] [] []) (m\<lparr>mem_messages := ms\<rparr>))"

text \<open>The provider-step contract.\<close>

definition begin_logical_turn :: "string \<Rightarrow> string \<Rightarrow> string \<Rightarrow> unit mm" where
  "begin_logical_turn turn user_message conversation m =
     on_journal (turn_started turn (PStr user_message) (int (length (mem_messages m))) conversation
       (Some (j_seq (mem_journal m))) []) m"

definition begin_provider_step :: "string \<Rightarrow> string \<Rightarrow> string \<Rightarrow> int \<Rightarrow> checkpoint mm" where
  "begin_provider_step turn step attempt index =
     mbind (\<lambda>m. on_journal (step_started turn step attempt index (Some (j_seq (mem_journal m)))) m) (\<lambda>_ m. (Inr (snapshot m), m))"

definition commit_provider_step :: "string \<Rightarrow> string \<Rightarrow> int \<Rightarrow> int option \<Rightarrow> unit mm" where
  "commit_provider_step turn step index count m =
     on_journal (step_committed turn step index (Some (j_seq (mem_journal m)))
       (case count of None \<Rightarrow> int (length (mem_messages m)) | Some n \<Rightarrow> n)) m"

definition rollback_uncommitted_attempt :: "checkpoint \<Rightarrow> string \<Rightarrow> string \<Rightarrow> unit mm" where
  "rollback_uncommitted_attempt c turn step = restore c turn step ''provider_attempt_rollback''"

definition record_partial_fragment :: "string \<Rightarrow> string \<Rightarrow> string \<Rightarrow> string \<Rightarrow> unit mm" where
  "record_partial_fragment turn content step attempt = on_journal (partial_fragment turn step attempt content True)"

definition finalize_turn_failure :: "string \<Rightarrow> string \<Rightarrow> string \<Rightarrow> bool \<Rightarrow> unit mm" where
  "finalize_turn_failure turn last_step error_kind retryable m =
     on_journal (turn_failed turn last_step (Some (j_seq (mem_journal m))) error_kind retryable) m"

text \<open>Committing a repaired history: validated, journaled, then published; the stale exchange is given up.\<close>

record lauren =
  la_report :: "pyval list \<Rightarrow> issue list"
  la_heal :: "pyval list \<Rightarrow> pyval list"
  la_digest :: "string \<Rightarrow> string"

definition history_ok :: "lauren \<Rightarrow> pyval list \<Rightarrow> bool" where
  "history_ok la ms \<longleftrightarrow> la_report la ms = []"

text \<open>The code of the error raised for a history that does not validate: that of the first issue.\<close>

definition integrity_code :: "lauren \<Rightarrow> pyval list \<Rightarrow> string" where
  "integrity_code la ms = (case la_report la ms of [] \<Rightarrow> ''validation_failed'' | i # is \<Rightarrow> take 64 (is_code i))"

definition commit_repaired :: "lauren \<Rightarrow> string \<Rightarrow> (string \<Rightarrow> bool \<Rightarrow> string) \<Rightarrow> pyval list \<Rightarrow> pyval \<Rightarrow> unit mm" where
  "commit_repaired la tid event ms s m =
     (if \<not> history_ok la ms then (Inl (integrity_code la ms), m)
      else mbind (on_journal (replace_state tid ms s)) (\<lambda>_ m1.
        let m2 = m1\<lparr>mem_messages := ms, mem_summary := s\<rparr> in
        case mem_exchange m of
          Some e \<Rightarrow>
            (if ex_started e
             then mbind (on_tool_exchange_aborted event e True)
               (\<lambda>_ m3. (Inr (), m3\<lparr>mem_exchange := None\<rparr>)) m2
             else (Inr (), m2\<lparr>mem_exchange := None\<rparr>))
        | None \<Rightarrow> (Inr (), m2)) m)"

definition ensure_valid_and_persist :: "lauren \<Rightarrow> string \<Rightarrow> (string \<Rightarrow> bool \<Rightarrow> string) \<Rightarrow> bool mm" where
  "ensure_valid_and_persist la tid event m =
     (if history_ok la (mem_messages m) then (Inr False, m)
      else let candidate = la_heal la (mem_messages m) in
        if \<not> history_ok la candidate then (Inl (integrity_code la candidate), m)
        else if candidate = mem_messages m then (Inr False, m)
        else mbind (commit_repaired la tid event candidate (mem_summary m)) (\<lambda>_ m. (Inr True, m)) m)"

definition repairable_hashes :: "lauren \<Rightarrow> issue list \<Rightarrow> string set" where
  "repairable_hashes la issues = set (map (la_digest la) (concat (map (\<lambda>i.
     filter (\<lambda>x. x \<noteq> [] \<and> count_list (is_expected_ids i) x = 1 \<and> x \<notin> set (is_observed_ids i)) (is_expected_ids i))
     (filter (\<lambda>i. is_code i \<in> {''missing_results'', ''non_adjacent_results''}) issues))))"

definition unanswered :: "issue \<Rightarrow> string list" where
  "unanswered i = filter (\<lambda>x. x \<notin> set (is_observed_ids i)) (is_expected_ids i)"

text \<open>The detached candidate of \<open>retry_tool_history_recovery\<close>: reordered, checked, healed, checked.\<close>

definition repair_candidate :: "lauren \<Rightarrow> string set \<Rightarrow> pyval list \<Rightarrow> string + pyval list" where
  "repair_candidate la pending ms =
     (let allowed = pending \<union> repairable_hashes la (la_report la ms);
          ms1 = (case repair_non_adjacent (la_digest la) (Some allowed) (la_report la ms) ms of None \<Rightarrow> ms | Some x \<Rightarrow> x)
      in if \<exists>i \<in> set (la_report la ms1). is_code i = ''missing_results''
            \<and> (unanswered i = [] \<or> (\<exists>x \<in> set (unanswered i). la_digest la x \<notin> allowed))
         then Inl (integrity_code la ms1)
         else let ms2 = la_heal la ms1 in if history_ok la ms2 then Inr ms2 else Inl (integrity_code la ms2))"

definition blocked_state :: "lauren \<Rightarrow> string option \<Rightarrow> pyval list \<Rightarrow> recovery_state" where
  "blocked_state la error ms =
     (let issues = la_report la ms;
          codes = dedup (map (take 64 \<circ> is_code) issues);
          codes1 = (case error of Some c \<Rightarrow> (if c \<noteq> [] \<and> c \<notin> set codes then codes @ [take 64 c] else codes) | None \<Rightarrow> codes);
          codes2 = (if codes1 = [] then [''history_repair_failed''] else codes1)
      in \<lparr>rs_status = (if error = Some ''journal_corrupt'' then JournalCorrupt
            else if issues \<noteq> [] \<and> (\<forall>i \<in> set issues. \<not> is_repairable i) then Irrecoverable else RepairRequired),
          rs_issue_codes = take 8 codes2, rs_repair_attempted = True\<rparr>)"

definition journal_error :: "string \<Rightarrow> string option" where
  "journal_error err = (if err = ''OSError'' then Some ''journal_write_failed'' else None)"

definition retry_tool_history_recovery :: "lauren \<Rightarrow> string \<Rightarrow> (string \<Rightarrow> bool \<Rightarrow> string) \<Rightarrow> memory \<Rightarrow> memory" where
  "retry_tool_history_recovery la tid event m =
     (if rs_status (mem_recovery m) = JournalCorrupt then m
      else
        let set_state = (\<lambda>s m. m\<lparr>mem_recovery := s\<rparr>);
            good = (\<lambda>b. \<lparr>rs_status = (if b then HistoryRepaired else HistoryReady), rs_issue_codes = [], rs_repair_attempted = True\<rparr>)
        in case on_journal fold_pending_tool_exchange_call_hashes m of
          (Inl err, m1) \<Rightarrow> set_state (blocked_state la (journal_error err) (mem_messages m1)) m1
        | (Inr pending, m1) \<Rightarrow>
            (case repair_candidate la pending (mem_messages m1) of
               Inl c \<Rightarrow> set_state (blocked_state la (Some c) (mem_messages m1)) m1
             | Inr candidate \<Rightarrow>
                 if candidate = mem_messages m1 then set_state (good False) m1
                 else (case commit_repaired la tid event candidate (mem_summary m1) m1 of
                     (Inl err, m2) \<Rightarrow> set_state (blocked_state la (journal_error err) (mem_messages m2)) m2
                   | (Inr _, m2) \<Rightarrow> set_state (good True) m2)))"

definition ensure_provider_ready :: "lauren \<Rightarrow> string \<Rightarrow> (string \<Rightarrow> bool \<Rightarrow> string) \<Rightarrow> bool mm" where
  "ensure_provider_ready la tid event m =
     (if provider_ready (mem_recovery m) \<and> history_ok la (mem_messages m) then (Inr False, m)
      else let m1 = retry_tool_history_recovery la tid event m in
        if provider_ready (mem_recovery m1) then (Inr (rs_status (mem_recovery m1) = HistoryRepaired), m1)
        else (Inl ''ToolHistoryRecoveryRequired'', m1))"

text \<open>Opening the memory of a journal.\<close>

definition memory_open :: "lauren \<Rightarrow> string \<Rightarrow> (string \<Rightarrow> bool \<Rightarrow> string) \<Rightarrow> journal \<Rightarrow> string + memory" where
  "memory_open la tid event j0 =
     (case journal_fold j0 of
        (Inl e, j) \<Rightarrow> Inl e
      | (Inr (ms, s), j) \<Rightarrow>
          let m = \<lparr>mem_messages = ms, mem_summary = s, mem_exchange = None, mem_recovery = ready_state, mem_journal = j\<rparr> in
          if j_corrupt j \<noteq> 0
          then Inr (m\<lparr>mem_recovery := \<lparr>rs_status = JournalCorrupt,
             rs_issue_codes = [''corrupt_trailing_records:'' @ nat_digits (min (j_corrupt j) 1000000)], rs_repair_attempted = False\<rparr>\<rparr>)
          else Inr (retry_tool_history_recovery la tid event m))"

end
