(* ===== verification/Journal_Steps.thy ===== *)
theory Journal_Steps
  imports Journal_Laws Journal_Memory
begin

text \<open>
  The steps of a session on its memory: every operation of the memory, the records written through its
  journal, the writer thread, the exchange the base class opens, and a restart. What they keep, while a
  disk at worst refuses a write: the fold of the journal is the memory, and records are only added.
\<close>

section \<open>What every operation keeps\<close>

definition mem_ok :: "memory \<Rightarrow> bool" where
  "mem_ok m \<longleftrightarrow> clean (mem_journal m) \<and> held (content (mem_journal m)) (mem_messages m) (mem_summary m)"

definition j_grows :: "journal \<Rightarrow> journal \<Rightarrow> bool" where
  "j_grows j j' \<longleftrightarrow> (\<exists>es. content j' = content j @ map JObj es)"

lemma j_grows_same: "content j' = content j \<Longrightarrow> j_grows j j'"
  by (simp add: j_grows_def)

lemma j_grows_refl [simp]: "j_grows j j"
  by (simp add: j_grows_same)

lemma j_grows_trans: "j_grows j j' \<Longrightarrow> j_grows j' j'' \<Longrightarrow> j_grows j j''"
  unfolding j_grows_def by (metis append.assoc map_append)

lemma j_grows_one: "content j' = content j @ [JObj e] \<Longrightarrow> j_grows j j'"
  unfolding j_grows_def by (metis list.simps(8,9))

definition mem_keeps :: "memory \<Rightarrow> memory \<Rightarrow> bool" where
  "mem_keeps m m' \<longleftrightarrow> mem_ok m' \<and> j_grows (mem_journal m) (mem_journal m')"

lemma mem_keeps_trans: "mem_keeps m m' \<Longrightarrow> mem_keeps m' m'' \<Longrightarrow> mem_keeps m m''"
  unfolding mem_keeps_def using j_grows_trans by metis

lemma mem_keeps_refl: "mem_ok m \<Longrightarrow> mem_keeps m m"
  by (simp add: mem_keeps_def)

section \<open>Records that are neutral to the fold\<close>

definition jots :: "'a jm \<Rightarrow> bool" where
  "jots a \<longleftrightarrow> (\<forall>j r j'. clean j \<longrightarrow> a j = (r, j') \<longrightarrow> clean j' \<and> (\<exists>es. content j' = content j @ map JObj es \<and> list_all neutral es))"

lemma jots_emit:
  assumes "neutral kvs"
  shows "jots (journal_emit kvs)"
  unfolding jots_def
proof (intro allI impI)
  fix j r j'
  assume clean: "clean j" and run: "journal_emit kvs j = (r, j')"
  have n: "neutral (stamped j kvs)" using assms by (simp add: neutral_def)
  show "clean j' \<and> (\<exists>es. content j' = content j @ map JObj es \<and> list_all neutral es)"
    using clean
  proof (cases rule: emit_clean[of j kvs])
    case (ok j1)
    then show ?thesis using run n by (auto intro!: exI[of _ "[stamped j kvs]"])
  next
    case (failed err j1)
    then show ?thesis using run by (auto intro!: exI[of _ "[]"])
  qed
qed

lemma jots_apply: "(\<And>j. jots (a j)) \<Longrightarrow> jots (\<lambda>j. a j j)"
  by (simp add: jots_def)

lemma neutral_kind: "pget e ''kind'' = PStr k \<Longrightarrow>
    k \<notin> {''state_replace_prepare'', ''reset'', ''state_replace_commit'', ''append''} \<Longrightarrow> neutral e"
  by (simp add: neutral_def)

lemma markers_jot:
  "jots (partial_fragment turn step attempt content' interrupted)" "jots (turn_completed turn)" "jots (turn_aborted turn reason)"
  "jots (step_interrupted turn step attempt kind n b)" "jots (turn_recovered turn)" "jots (turn_recovery_started turn)"
  "jots (tool_recorded turn key result)" "jots (workflow_phase_boundary run workflow c nx ix it oc v k)"
  "jots (tool_exchange_started digest x orun n calls)" "jots (tool_exchange_committed x n1 n2 n3)"
  "jots (tool_exchange_result_recorded digest x t st b)" "jots (tool_exchange_aborted x n b ev)" "jots (append_usage_record rec)"
  unfolding partial_fragment_def turn_completed_def turn_aborted_def step_interrupted_def turn_recovered_def
    turn_recovery_started_def tool_recorded_def workflow_phase_boundary_def tool_exchange_started_def
    tool_exchange_committed_def tool_exchange_result_recorded_def tool_exchange_aborted_def append_usage_record_def
  by (rule jots_emit, simp add: neutral_def pget_def)+

lemma cursor_markers_jot:
  "jots (turn_started turn um n conv c run)" "jots (turn_failed turn step c kind b)"
  "jots (step_started turn step attempt n c)" "jots (step_committed turn step n c k)"
proof -
  show "jots (turn_started turn um n conv c run)"
    unfolding turn_started_def by (rule jots_apply, rule jots_emit) (simp add: neutral_def pget_def)
  show "jots (turn_failed turn step c kind b)"
    unfolding turn_failed_def by (rule jots_apply, rule jots_emit) (simp add: neutral_def pget_def)
  show "jots (step_started turn step attempt n c)"
    unfolding step_started_def by (rule jots_apply, rule jots_emit) (simp add: neutral_def pget_def)
  show "jots (step_committed turn step n c k)"
    unfolding step_committed_def by (rule jots_apply, rule jots_emit) (simp add: neutral_def pget_def)
qed

lemma jots_drain: "jots drain"
  unfolding jots_def
proof (intro allI impI)
  fix j r j'
  assume clean: "clean j" and run: "drain j = (r, j')"
  obtain j1 where "drain j = (Inr (), j1)" "clean j1" "content j1 = content j" using drain_clean[OF clean] by metis
  then have "clean j' \<and> content j' = content j @ map JObj [] \<and> list_all neutral []" using run by simp
  then show "clean j' \<and> (\<exists>es. content j' = content j @ map JObj es \<and> list_all neutral es)" by blast
qed

lemma jots_read: "jots (jbind drain (\<lambda>_. lift_result f))"
  unfolding jots_def jbind_def lift_result_def using jots_drain[unfolded jots_def] by (auto split: prod.splits sum.splits)

lemma keeps_note:
  assumes "jots a" "mem_ok m" "on_journal a m = (r, m')"
  shows "mem_keeps m m'"
proof -
  obtain r' j' where a: "a (mem_journal m) = (r', j')" by (cases "a (mem_journal m)") blast
  then have m': "m' = m\<lparr>mem_journal := j'\<rparr>" using assms(3) by (simp add: on_journal_def)
  have "clean j'" "\<exists>es. content j' = content (mem_journal m) @ map JObj es \<and> list_all neutral es"
    using assms(1,2) a by (auto simp: jots_def mem_ok_def)
  then show ?thesis using m' assms(2) held_neutrals by (auto simp: mem_keeps_def mem_ok_def j_grows_def)
qed

section \<open>Appends and resets\<close>

definition j_appends :: "unit jm \<Rightarrow> pyval list \<Rightarrow> bool" where
  "j_appends a added \<longleftrightarrow> (\<forall>j j' ms s. clean j \<longrightarrow> held (content j) ms s \<longrightarrow> a j = (Inr (), j') \<longrightarrow>
     clean j' \<and> held (content j') (ms @ added) s \<and> j_grows j j')"

lemma appends_one: "j_appends (append_message m mid) [m]"
  unfolding j_appends_def
proof (intro allI impI)
  fix j j' ms s
  assume clean: "clean j" and held: "held (content j) ms s" and run: "append_message m mid j = (Inr (), j')"
  show "clean j' \<and> held (content j') (ms @ [m]) s \<and> j_grows j j'"
    using clean
  proof (cases rule: emit_clean[of j "append_entry m mid"])
    case (ok j1)
    then show ?thesis using run held_append[OF held, of j m mid] j_grows_one by (auto simp: append_message_def)
  next
    case (failed err j1)
    then show ?thesis using run by (simp add: append_message_def)
  qed
qed

lemma appends_bind:
  assumes "j_appends a xs" "j_appends b ys"
  shows "j_appends (jbind a (\<lambda>_. b)) (xs @ ys)"
  unfolding j_appends_def
proof (intro allI impI)
  fix j j' ms s
  assume clean: "clean j" and held: "held (content j) ms s" and run: "jbind a (\<lambda>_. b) j = (Inr (), j')"
  obtain j1 where a: "a j = (Inr (), j1)" "b j1 = (Inr (), j')"
    using run by (auto simp: jbind_def split: prod.splits sum.splits)
  have one: "clean j1" "held (content j1) (ms @ xs) s" "j_grows j j1"
    using assms(1) clean held a(1) by (auto simp: j_appends_def)
  then have two: "clean j'" "held (content j') ((ms @ xs) @ ys) s" "j_grows j1 j'"
    using assms(2) a(2) unfolding j_appends_def by blast+
  then show "clean j' \<and> held (content j') (ms @ xs @ ys) s \<and> j_grows j j'"
    using j_grows_trans[OF one(3)] by simp
qed

lemma appends_nothing: "j_appends (jret ()) []"
  by (simp add: j_appends_def jret_def)

lemma appends_new: "j_appends (journal_new added) added"
proof (induction added)
  case Nil
  then show ?case by (simp add: appends_nothing)
next
  case (Cons m ms)
  then show ?case using appends_bind[OF appends_one, of _ _ m "[]"] by simp
qed

lemma appends_once: "j_appends (journal_once mid n added) added"
proof (induction added arbitrary: n)
  case Nil
  then show ?case by (simp add: appends_nothing)
next
  case (Cons m ms)
  then show ?case using appends_bind[OF appends_one Cons.IH[of "Suc n"]] by simp
qed

lemma keeps_append:
  assumes "j_appends a added" "mem_ok m" "on_journal a (m\<lparr>mem_messages := mem_messages m @ added\<rparr>) = (Inr (), m')"
  shows "mem_keeps m m'" "mem_messages m' = mem_messages m @ added"
proof -
  obtain r j where a: "a (mem_journal m) = (r, j)" by (cases "a (mem_journal m)") blast
  then have r: "r = Inr ()" and m': "m' = m\<lparr>mem_messages := mem_messages m @ added, mem_journal := j\<rparr>"
    using assms(3) by (simp_all add: on_journal_def)
  have "clean j \<and> held (content j) (mem_messages m @ added) (mem_summary m) \<and> j_grows (mem_journal m) j"
    using assms(1,2) a r by (auto simp: j_appends_def mem_ok_def)
  then show "mem_keeps m m'" "mem_messages m' = mem_messages m @ added" using m' by (simp_all add: mem_keeps_def mem_ok_def)
qed

lemma keeps_reset:
  assumes "mem_ok m" "on_journal (journal_reset ms s turn step reason) (m\<lparr>mem_messages := ms, mem_summary := s, mem_exchange := x\<rparr>) = (Inr (), m')"
  shows "mem_keeps m m'"
proof -
  have clean: "clean (mem_journal m)" and held: "held (content (mem_journal m)) (mem_messages m) (mem_summary m)"
    using assms(1) by (simp_all add: mem_ok_def)
  show ?thesis
    using clean
  proof (cases rule: emit_clean[of "mem_journal m" "reset_entry ms s turn step reason"])
    case (ok j1)
    then have "m' = m\<lparr>mem_messages := ms, mem_summary := s, mem_exchange := x, mem_journal := j1\<rparr>"
      using assms(2) by (simp add: on_journal_def journal_reset_def)
    then show ?thesis using ok held_reset[OF held, of "mem_journal m" ms s turn step reason]
      by (auto simp: mem_keeps_def mem_ok_def intro: j_grows_one)
  next
    case (failed err j1)
    then show ?thesis using assms(2) by (simp add: on_journal_def journal_reset_def)
  qed
qed

lemma keeps_replace:
  assumes "mem_ok m" "on_journal (replace_state tid ms s) m = (r, m')"
  shows "case r of Inl err \<Rightarrow> mem_keeps m m' | Inr u \<Rightarrow> mem_keeps m (m'\<lparr>mem_messages := ms, mem_summary := s\<rparr>)"
    "\<exists>j. m' = m\<lparr>mem_journal := j\<rparr>"
proof -
  obtain r' j' where a: "replace_state tid ms s (mem_journal m) = (r', j')" by (cases "replace_state tid ms s (mem_journal m)") blast
  then have m': "r = r'" "m' = m\<lparr>mem_journal := j'\<rparr>" using assms(2) by (auto simp: on_journal_def)
  have "clean j' \<and> (case r' of Inr u \<Rightarrow> held (content j') ms s | Inl err \<Rightarrow> held (content j') (mem_messages m) (mem_summary m))
      \<and> (\<exists>es. content j' = content (mem_journal m) @ map JObj es)"
    using replace_state_clean[of "mem_journal m" "mem_messages m" "mem_summary m" tid ms s] assms(1) a by (auto simp: mem_ok_def)
  then show "case r of Inl err \<Rightarrow> mem_keeps m m' | Inr u \<Rightarrow> mem_keeps m (m'\<lparr>mem_messages := ms, mem_summary := s\<rparr>)"
    using m' by (cases r') (simp_all add: mem_keeps_def mem_ok_def j_grows_def)
  show "\<exists>j. m' = m\<lparr>mem_journal := j\<rparr>" using m' by blast
qed

section \<open>The operations of the memory\<close>

lemma on_journal_run:
  obtains r j where "a (mem_journal m) = (r, j)" "on_journal a m = (r, m\<lparr>mem_journal := j\<rparr>)"
  by (cases "a (mem_journal m)") (auto simp: on_journal_def)

lemma mem_ok_parts [simp]: "mem_ok (m\<lparr>mem_exchange := x\<rparr>) = mem_ok m" "mem_ok (m\<lparr>mem_recovery := rs\<rparr>) = mem_ok m"
  by (simp_all add: mem_ok_def)

lemma keeps_parts [simp]: "mem_keeps m (m'\<lparr>mem_exchange := x\<rparr>) = mem_keeps m m'" "mem_keeps m (m'\<lparr>mem_recovery := rs\<rparr>) = mem_keeps m m'"
  by (simp_all add: mem_keeps_def)

lemma keeps_add_messages:
  assumes "mem_ok m" "add_messages added m = (Inr (), m')"
  shows "mem_keeps m m'" "mem_messages m' = mem_messages m @ added"
  using keeps_append[OF appends_new assms(1)] assms(2) by (simp_all add: add_messages_def)

lemma keeps_commit_exchange:
  assumes "mem_ok m" "commit_tool_exchange x added m = (Inr (), m')"
  shows "mem_keeps m m'"
proof -
  obtain m1 where "add_messages added m = (Inr (), m1)" "m' = m1\<lparr>mem_exchange := None\<rparr>"
    using assms(2) by (auto simp: commit_tool_exchange_def mbind_def split: if_splits prod.splits sum.splits)
  then show ?thesis using keeps_add_messages[OF assms(1)] by simp
qed

lemma known_message_run:
  assumes "mem_ok m"
  obtains j where "on_journal (has_message_id mid) m = (Inr (mid \<noteq> []
      \<and> (\<exists>e \<in> set (objects (content (mem_journal m))). pget e ''kind'' = PStr ''append'' \<and> pget e ''message_id'' = PStr mid)),
      m\<lparr>mem_journal := j\<rparr>)"
    "clean j" "content j = content (mem_journal m)" "mem_keeps m (m\<lparr>mem_journal := j\<rparr>)"
proof -
  have clean: "clean (mem_journal m)" using assms by (simp add: mem_ok_def)
  obtain j where j: "drain (mem_journal m) = (Inr (), j)" "clean j" "content j = content (mem_journal m)"
      "read_lines (j_file j) = content (mem_journal m)"
    using drain_clean[OF clean] by metis
  show ?thesis
  proof (rule that[of j])
    show "on_journal (has_message_id mid) m = (Inr (mid \<noteq> []
      \<and> (\<exists>e \<in> set (objects (content (mem_journal m))). pget e ''kind'' = PStr ''append'' \<and> pget e ''message_id'' = PStr mid)),
      m\<lparr>mem_journal := j\<rparr>)"
      using j(1) j(4) by (simp add: on_journal_def has_message_id_def jbind_def lift_result_def)
    show "clean j" by (rule j(2))
    show "content j = content (mem_journal m)" by (rule j(3))
    show "mem_keeps m (m\<lparr>mem_journal := j\<rparr>)" using assms j(2,3) by (simp add: mem_keeps_def mem_ok_def j_grows_same)
  qed
qed

lemma keeps_add_user_once:
  assumes "mem_ok m" "add_user_once added mid m = (Inr b, m')"
  shows "mem_keeps m m'"
proof -
  have mid: "mid \<noteq> []" using assms(2) by (auto simp: add_user_once_def)
  obtain known j where k: "on_journal (has_message_id mid) m = (Inr known, m\<lparr>mem_journal := j\<rparr>)" "mem_keeps m (m\<lparr>mem_journal := j\<rparr>)"
    by (rule known_message_run[OF assms(1), of mid])
  show ?thesis
  proof (cases known)
    case True
    then show ?thesis using assms(2) mid k by (simp add: add_user_once_def mbind_def)
  next
    case False
    let ?m = "m\<lparr>mem_journal := j\<rparr>"
    obtain m1 where "on_journal (journal_once mid 0 added) (?m\<lparr>mem_messages := mem_messages ?m @ added\<rparr>) = (Inr (), m1)" "m' = m1"
      using assms(2) mid k False by (auto simp: add_user_once_def mbind_def split: prod.splits sum.splits)
    moreover have "mem_ok ?m" using k(2) by (simp add: mem_keeps_def)
    ultimately have "mem_keeps ?m m'" using keeps_append(1)[OF appends_once] by blast
    then show ?thesis using mem_keeps_trans[OF k(2)] by blast
  qed
qed

lemma keeps_restore:
  assumes "mem_ok m" "restore c turn step reason m = (Inr (), m')"
  shows "mem_keeps m m'"
  using keeps_reset[OF assms(1)] assms(2) by (simp add: restore_def)

lemma keeps_compact:
  assumes "mem_ok m" "compact_in_place ms s m = (Inr (), m')"
  shows "mem_keeps m m'"
  using keeps_reset[OF assms(1), of ms s "[]" "[]" "[]" "mem_exchange m" m'] assms(2) by (simp add: compact_in_place_def)

lemma keeps_rollback:
  assumes "mem_ok m" "rollback_to n m = (Inr (), m')"
  shows "mem_keeps m m'"
  using keeps_reset[OF assms(1), of "take n (mem_messages m)" "mem_summary m" "[]" "[]" "[]" "mem_exchange m" m'] assms(2)
  by (simp add: rollback_to_def Let_def)

lemma keeps_replace_state:
  assumes "mem_ok m" "memory_replace_state tid ms s m = (r, m')"
  shows "mem_keeps m m'"
proof (cases "exchange_running m")
  case True
  then show ?thesis using assms by (simp add: memory_replace_state_def mem_keeps_refl)
next
  case False
  obtain r1 j where a: "on_journal (replace_state tid ms s) m = (r1, m\<lparr>mem_journal := j\<rparr>)" using on_journal_run .
  show ?thesis
    using keeps_replace(1)[OF assms(1) a] assms(2) a False
    by (cases r1) (auto simp: memory_replace_state_def mbind_def)
qed

lemma keeps_commit_repaired:
  assumes "mem_ok m" "commit_repaired la tid event ms s m = (r, m')"
  shows "mem_keeps m m'"
proof (cases "history_ok la ms")
  case False
  then show ?thesis using assms by (simp add: commit_repaired_def mem_keeps_refl)
next
  case True
  obtain r1 j where a: "on_journal (replace_state tid ms s) m = (r1, m\<lparr>mem_journal := j\<rparr>)" using on_journal_run .
  have k: "case r1 of Inl err \<Rightarrow> mem_keeps m (m\<lparr>mem_journal := j\<rparr>)
      | Inr u \<Rightarrow> mem_keeps m (m\<lparr>mem_journal := j, mem_messages := ms, mem_summary := s\<rparr>)"
    using keeps_replace(1)[OF assms(1) a] .
  show ?thesis
  proof (cases r1)
    case (Inl err)
    then have "m' = m\<lparr>mem_journal := j\<rparr>" using assms(2) True a by (simp add: commit_repaired_def mbind_def)
    then show ?thesis using k Inl by simp
  next
    case (Inr u)
    let ?m = "m\<lparr>mem_journal := j, mem_messages := ms, mem_summary := s\<rparr>"
    have m: "mem_keeps m ?m" using k Inr by simp
    show ?thesis
    proof (cases "mem_exchange m")
      case None
      then show ?thesis using assms(2) True a Inr m by (simp add: commit_repaired_def mbind_def Let_def)
    next
      case (Some x)
      show ?thesis
      proof (cases "ex_started x")
        case False
        then show ?thesis using assms(2) True a Inr m Some by (auto simp: commit_repaired_def mbind_def Let_def)
      next
        case started: True
        obtain r2 m2 where e: "on_tool_exchange_aborted event x True ?m = (r2, m2)" by (cases "on_tool_exchange_aborted event x True ?m") blast
        have "mem_keeps ?m m2"
          by (rule keeps_note[OF markers_jot(12) _ e[unfolded on_tool_exchange_aborted_def]]) (use m in \<open>simp add: mem_keeps_def\<close>)
        then have "mem_keeps m m2" using mem_keeps_trans[OF m] by blast
        then show ?thesis using assms(2) True a Inr Some started e
          by (cases r2) (auto simp: commit_repaired_def mbind_def Let_def)
      qed
    qed
  qed
qed

lemma keeps_retry:
  assumes "mem_ok m"
  shows "mem_keeps m (retry_tool_history_recovery la tid event m)"
proof (cases "rs_status (mem_recovery m) = JournalCorrupt")
  case True
  then show ?thesis using assms by (simp add: retry_tool_history_recovery_def mem_keeps_refl)
next
  case False
  obtain r j where a: "on_journal fold_pending_tool_exchange_call_hashes m = (r, m\<lparr>mem_journal := j\<rparr>)" using on_journal_run .
  have k: "mem_keeps m (m\<lparr>mem_journal := j\<rparr>)"
    by (rule keeps_note[OF _ assms a]) (simp add: fold_pending_tool_exchange_call_hashes_def jots_read)
  then have ok: "mem_ok (m\<lparr>mem_journal := j\<rparr>)" by (simp add: mem_keeps_def)
  have c: "mem_keeps m (snd (commit_repaired la tid event cand (mem_summary m) (m\<lparr>mem_journal := j\<rparr>)))" for cand
    using mem_keeps_trans[OF k keeps_commit_repaired[OF ok]] by (metis prod.collapse)
  show ?thesis
  proof (cases r)
    case (Inl err)
    then show ?thesis using False a k by (simp add: retry_tool_history_recovery_def Let_def)
  next
    case (Inr pending)
    show ?thesis
    proof (cases "repair_candidate la pending (mem_messages m)")
      case (Inl x)
      then show ?thesis using False a k Inr by (simp add: retry_tool_history_recovery_def Let_def)
    next
      case cand: (Inr cand)
      obtain r2 m2 where e: "commit_repaired la tid event cand (mem_summary m) (m\<lparr>mem_journal := j\<rparr>) = (r2, m2)"
        by (cases "commit_repaired la tid event cand (mem_summary m) (m\<lparr>mem_journal := j\<rparr>)") blast
      then have "mem_keeps m m2" using c[of cand] by simp
      then show ?thesis using False a k Inr cand e
        by (cases r2) (simp_all add: retry_tool_history_recovery_def Let_def)
    qed
  qed
qed

lemma keeps_ensure_valid:
  assumes "mem_ok m" "ensure_valid_and_persist la tid event m = (r, m')"
  shows "mem_keeps m m'"
  using assms(2) mem_keeps_refl[OF assms(1)] keeps_commit_repaired[OF assms(1), of la tid event]
  by (auto simp: ensure_valid_and_persist_def Let_def mbind_def split: if_splits prod.splits sum.splits)

lemma keeps_ensure_ready:
  assumes "mem_ok m" "ensure_provider_ready la tid event m = (r, m')"
  shows "mem_keeps m m'"
  using assms(2) mem_keeps_refl[OF assms(1)] keeps_retry[OF assms(1), of la tid event]
  by (auto simp: ensure_provider_ready_def Let_def split: if_splits)

section \<open>Restarts\<close>

lemma clean_flush:
  assumes "clean j"
  shows "clean (writer_flush j)" "content (writer_flush j) = content j" "jf_lines (j_file (writer_flush j)) = content j"
    "j_pending (writer_flush j) = []" "jf_tail (j_file (writer_flush j)) = Clean"
proof -
  obtain j1 where d: "drain j = (Inr (), j1)" "clean j1" "content j1 = content j" "read_lines (j_file j1) = content j" "j_pending j1 = []"
    using drain_clean[OF assms] by metis
  have "writer_flush j = snd (drain j)" by (auto simp: writer_flush_def drain_def Let_def split: prod.splits)
  then have w: "writer_flush j = j1" using d(1) by simp
  have tail: "jf_tail (j_file j1) = Clean" using d(2) by (simp add: clean_def calm_def)
  then have "jf_lines (j_file j1) = content j" using d(4) by (simp add: read_lines_def)
  then show "clean (writer_flush j)" "content (writer_flush j) = content j" "jf_lines (j_file (writer_flush j)) = content j"
    "j_pending (writer_flush j) = []" "jf_tail (j_file (writer_flush j)) = Clean"
    using d w tail by simp_all
qed

text \<open>The journal of the next process on the same file.\<close>

definition reopened :: "journal \<Rightarrow> disk list \<Rightarrow> journal" where
  "reopened j ds = journal_open (j_file (journal_close j)) ds"

lemma clean_reopened:
  assumes "clean j" "list_all mild ds"
  shows "clean (reopened j ds)" "content (reopened j ds) = content j"
proof -
  have "j_file (journal_close j) = \<lparr>jf_lines = content j, jf_tail = Clean\<rparr>"
    using clean_flush(3,5)[OF assms(1)] by (simp add: journal_close_def)
  then have r: "reopened j ds = journal_open \<lparr>jf_lines = content j, jf_tail = Clean\<rparr> ds" by (simp add: reopened_def)
  then show c: "content (reopened j ds) = content j" by (simp add: journal_open_def content_def read_lines_def)
  have "j_numbered (reopened j ds)"
    using assms(1) unfolding clean_def j_numbered_def c by (auto simp: r journal_open_def read_lines_def)
  then show "clean (reopened j ds)" using assms(2) by (simp add: r clean_def calm_def journal_open_def)
qed

lemma memory_open_ok:
  assumes "clean j" "held (content j) ms s"
  obtains m where "memory_open la tid event j = Inr m" "mem_ok m" "j_grows j (mem_journal m)"
proof -
  obtain j1 where f: "journal_fold j = (Inr (ms, s), j1)" "clean j1" "content j1 = content j" "j_corrupt j1 = 0"
    using journal_fold_held[OF assms] by metis
  let ?m = "\<lparr>mem_messages = ms, mem_summary = s, mem_exchange = None, mem_recovery = ready_state, mem_journal = j1\<rparr>"
  have ok: "mem_ok ?m" using f assms(2) by (simp add: mem_ok_def)
  have k: "mem_keeps ?m (retry_tool_history_recovery la tid event ?m)" by (rule keeps_retry[OF ok])
  show ?thesis
  proof (rule that[of "retry_tool_history_recovery la tid event ?m"])
    show "memory_open la tid event j = Inr (retry_tool_history_recovery la tid event ?m)"
      using f by (simp add: memory_open_def Let_def)
    show "mem_ok (retry_tool_history_recovery la tid event ?m)" using k by (simp add: mem_keeps_def)
    show "j_grows j (mem_journal (retry_tool_history_recovery la tid event ?m))"
      using k j_grows_trans[of j j1] f(3) j_grows_same by (auto simp: mem_keeps_def)
  qed
qed

section \<open>The steps\<close>

text \<open>
  A step that publishes before it journals is a step when the journal took the record; every other operation is
  one whatever its outcome.
\<close>

inductive memory_step :: "lauren \<Rightarrow> memory \<Rightarrow> memory \<Rightarrow> bool" for la where
  step_add: "add_messages added m = (Inr (), m') \<Longrightarrow> memory_step la m m'"
| step_once: "add_user_once added mid m = (Inr b, m') \<Longrightarrow> memory_step la m m'"
| step_restore: "restore c turn step reason m = (Inr (), m') \<Longrightarrow> memory_step la m m'"
| step_commit: "commit_tool_exchange x added m = (Inr (), m') \<Longrightarrow> memory_step la m m'"
| step_compact: "compact_in_place ms s m = (Inr (), m') \<Longrightarrow> memory_step la m m'"
| step_rollback: "rollback_to n m = (Inr (), m') \<Longrightarrow> memory_step la m m'"
| step_replace: "memory_replace_state tid ms s m = (r, m') \<Longrightarrow> memory_step la m m'"
| step_turn: "begin_logical_turn turn um conv m = (r, m') \<Longrightarrow> memory_step la m m'"
| step_begin: "begin_provider_step turn step attempt ix m = (rc, m') \<Longrightarrow> memory_step la m m'"
| step_done: "commit_provider_step turn step ix count m = (r, m') \<Longrightarrow> memory_step la m m'"
| step_fragment: "record_partial_fragment turn chars step attempt m = (r, m') \<Longrightarrow> memory_step la m m'"
| step_failed: "finalize_turn_failure turn last_step kind b m = (r, m') \<Longrightarrow> memory_step la m m'"
| step_ensure: "ensure_valid_and_persist la tid event m = (rb, m') \<Longrightarrow> memory_step la m m'"
| step_ready: "ensure_provider_ready la tid event m = (rb, m') \<Longrightarrow> memory_step la m m'"
| step_exchange: "memory_step la m (m\<lparr>mem_exchange := x\<rparr>)"
| step_note: "neutral e \<Longrightarrow> on_journal (journal_emit e) m = (r, m') \<Longrightarrow> memory_step la m m'"
| step_flush: "memory_step la m (m\<lparr>mem_journal := writer_flush (mem_journal m)\<rparr>)"
| step_restart: "list_all mild ds \<Longrightarrow> memory_open la tid event (reopened (mem_journal m) ds) = Inr m' \<Longrightarrow> memory_step la m m'"

lemma keeps_begin_step:
  assumes "mem_ok m" "begin_provider_step turn step attempt ix m = (r, m')"
  shows "mem_keeps m m'"
proof -
  obtain r1 m1 where e: "on_journal (step_started turn step attempt ix (Some (j_seq (mem_journal m)))) m = (r1, m1)"
    by (cases "on_journal (step_started turn step attempt ix (Some (j_seq (mem_journal m)))) m") blast
  have "mem_keeps m m1" by (rule keeps_note[OF cursor_markers_jot(3) assms(1) e])
  then show ?thesis using assms(2) e by (cases r1) (auto simp: begin_provider_step_def mbind_def)
qed

lemma memory_step_keeps:
  assumes "memory_step la m m'" "mem_ok m"
  shows "mem_keeps m m'"
  using assms
proof (cases rule: memory_step.cases)
  case step_flush
  have "clean (mem_journal m)" using assms(2) by (simp add: mem_ok_def)
  then show ?thesis using step_flush clean_flush assms(2) by (simp add: mem_keeps_def mem_ok_def j_grows_same)
next
  case (step_restart ds tid event)
  have j: "clean (mem_journal m)" "held (content (mem_journal m)) (mem_messages m) (mem_summary m)"
    using assms(2) by (simp_all add: mem_ok_def)
  have r: "clean (reopened (mem_journal m) ds)" "content (reopened (mem_journal m) ds) = content (mem_journal m)"
    by (rule clean_reopened[OF j(1) step_restart(1)])+
  obtain m1 where "memory_open la tid event (reopened (mem_journal m) ds) = Inr m1" "mem_ok m1"
      "j_grows (reopened (mem_journal m) ds) (mem_journal m1)"
    using memory_open_ok[OF r(1) j(2)[folded r(2)]] by metis
  then show ?thesis using step_restart r(2) by (simp add: mem_keeps_def j_grows_def)
next
  case (step_turn turn um conv r)
  then show ?thesis using keeps_note[OF cursor_markers_jot(1) assms(2)] by (simp add: begin_logical_turn_def)
next
  case (step_done turn step ix count r)
  then show ?thesis using keeps_note[OF cursor_markers_jot(4) assms(2)] by (simp add: commit_provider_step_def)
next
  case (step_fragment turn chars step attempt r)
  then show ?thesis using keeps_note[OF markers_jot(1) assms(2)] by (simp add: record_partial_fragment_def)
next
  case (step_failed turn last_step kind b r)
  then show ?thesis using keeps_note[OF cursor_markers_jot(2) assms(2)] by (simp add: finalize_turn_failure_def)
next
  case (step_note e r)
  then show ?thesis using keeps_note[OF jots_emit assms(2)] by blast
qed (use assms(2) keeps_add_messages keeps_add_user_once keeps_restore keeps_commit_exchange keeps_compact keeps_rollback
      keeps_replace_state keeps_begin_step keeps_ensure_valid keeps_ensure_ready mem_keeps_refl in \<open>simp_all\<close>)

lemma memory_run_keeps:
  assumes "(memory_step la)\<^sup>*\<^sup>* m m'" "mem_ok m"
  shows "mem_keeps m m'"
  using assms(1)
proof (induction rule: rtranclp_induct)
  case base
  show ?case by (rule mem_keeps_refl[OF assms(2)])
next
  case (step m1 m2)
  then have "mem_keeps m1 m2" using memory_step_keeps by (simp add: mem_keeps_def)
  then show ?case using mem_keeps_trans step.IH by blast
qed

lemma memory_start_ok:
  assumes "list_all mild ds" "memory_open la tid event (journal_open \<lparr>jf_lines = [], jf_tail = Clean\<rparr> ds) = Inr m"
  shows "mem_ok m"
proof -
  have c: "clean (journal_open \<lparr>jf_lines = [], jf_tail = Clean\<rparr> ds)" "content (journal_open \<lparr>jf_lines = [], jf_tail = Clean\<rparr> ds) = []"
    using assms(1) by (simp_all add: journal_open_def clean_def calm_def j_numbered_def content_def read_lines_def)
  show ?thesis using memory_open_ok[OF c(1), unfolded c(2), OF held_empty] assms(2) by (metis sum.inject(2))
qed

section \<open>Lines and objects\<close>

lemma fold_lines_objects:
  assumes "fold_lines ls fs = Inr (fs', 0)"
  shows "\<exists>es. ls = map JObj es"
  using assms
proof (induction ls fs rule: fold_lines.induct)
  case (4 e ls fs)
  then obtain fs1 where "fold_entry e fs = Inr fs1" "fold_lines ls fs1 = Inr (fs', 0)" by (cases "fold_entry e fs") auto
  then obtain es where "ls = map JObj es" using "4.IH" by blast
  then show ?case by (metis list.simps(9))
qed auto

lemma objects_map [simp]: "objects (map JObj es) = es"
  by (induction es) simp_all

lemma held_objects: "held ls ms s \<Longrightarrow> \<exists>es. ls = map JObj es"
  unfolding held_def using fold_lines_objects by blast

lemma known_message_grows:
  assumes "mem_ok m" "mem_ok m'" "j_grows (mem_journal m) (mem_journal m')"
  shows "set (objects (content (mem_journal m))) \<subseteq> set (objects (content (mem_journal m')))"
proof -
  obtain es where es: "content (mem_journal m) = map JObj es"
    using assms(1) held_objects unfolding mem_ok_def by blast
  obtain es' where "content (mem_journal m') = map JObj es @ map JObj es'" using assms(3) es by (auto simp: j_grows_def)
  then have "content (mem_journal m') = map JObj (es @ es')" by simp
  then show ?thesis using es by (simp only: objects_map) auto
qed

end
