(* ===== verification/Journal_Tears.thy ===== *)
theory Journal_Tears
  imports Journal_Laws
begin

text \<open>
  A disk that leaves part of a record behind, as a process killed in the middle of a write does: what the file then
  folds to, and that nothing journaled after an unfinished record is ever read.
\<close>

section \<open>What a file folds to\<close>

definition folds_to :: "jfile \<Rightarrow> pyval list \<Rightarrow> pyval \<Rightarrow> bool" where
  "folds_to f ms s \<longleftrightarrow> (\<exists>n. fold_path_with_report f = Inr (ms, s, n))"

lemma fold_lines_bad:
  assumes "fold_lines ls fs = Inr (fs', 0)"
  shows "fold_lines (ls @ JBad # ls') fs = Inr (fs', 1 + length ls')"
  using fold_lines_append[OF assms, of "JBad # ls'"] by simp

text \<open>The lines before the tail decide, unless the tail is a whole record.\<close>

lemma folds_to_clean: "held (jf_lines f) ms s \<Longrightarrow> jf_tail f = Clean \<Longrightarrow> folds_to f ms s"
  by (auto simp: folds_to_def held_def fold_path_with_report_def read_lines_def Let_def)

lemma folds_to_torn: "held (jf_lines f) ms s \<Longrightarrow> jf_tail f = Torn \<Longrightarrow> folds_to f ms s"
  using fold_lines_bad[of "jf_lines f" fold_start _ "[]"]
  by (auto simp: folds_to_def held_def fold_path_with_report_def read_lines_def Let_def)

lemma folds_to_bare: "held (jf_lines f @ [JObj e]) ms s \<Longrightarrow> jf_tail f = Bare e \<Longrightarrow> folds_to f ms s"
  by (auto simp: folds_to_def held_def fold_path_with_report_def read_lines_def Let_def)

section \<open>One record on any disk\<close>

text \<open>
  From a file without tail: written; refused with the file as it was but for queued records; or refused with
  something of a record left, which is a queued one or the record itself.
\<close>

inductive written :: "payload \<Rightarrow> journal \<Rightarrow> string + unit \<Rightarrow> journal \<Rightarrow> bool" where
  w_ok: "\<lbrakk>j_file j' = \<lparr>jf_lines = jf_lines (j_file j) @ map JObj q @ [JObj e], jf_tail = Clean\<rparr>; set q \<subseteq> set (j_pending j);
     set (j_pending j') \<subseteq> set (j_pending j); j_seq j' = j_seq j + 1\<rbrakk> \<Longrightarrow> written e j (Inr ()) j'"
| w_refused: "\<lbrakk>j_file j' = \<lparr>jf_lines = jf_lines (j_file j) @ map JObj q, jf_tail = Clean\<rparr>; set q \<subseteq> set (j_pending j);
     set (j_pending j') \<subseteq> set (j_pending j)\<rbrakk> \<Longrightarrow> written e j (Inl err) j'"
| w_torn: "\<lbrakk>j_file j' = \<lparr>jf_lines = jf_lines (j_file j) @ map JObj q, jf_tail = Torn\<rparr>; set q \<subseteq> set (j_pending j);
     set (j_pending j') \<subseteq> set (j_pending j)\<rbrakk> \<Longrightarrow> written e j (Inl err) j'"
| w_bare: "\<lbrakk>j_file j' = \<lparr>jf_lines = jf_lines (j_file j) @ map JObj q, jf_tail = Bare e'\<rparr>; e' = e \<or> e' \<in> set (j_pending j);
     set q \<subseteq> set (j_pending j); set (j_pending j') \<subseteq> set (j_pending j)\<rbrakk> \<Longrightarrow> written e j (Inl err) j'"

lemma take_disk_any: obtains d ds where "take_disk j = (d, j\<lparr>j_disk := ds\<rparr>)"
proof (cases "j_disk j")
  case Nil
  then have "take_disk j = (DiskOk, j\<lparr>j_disk := []\<rparr>)" by (simp add: take_disk_def)
  then show ?thesis by (rule that)
next
  case (Cons d ds)
  then have "take_disk j = (d, j\<lparr>j_disk := ds\<rparr>)" by (simp add: take_disk_def)
  then show ?thesis by (rule that)
qed

text \<open>The queue is written as a whole, or a part of it and something of the next record.\<close>

lemma write_pending_any:
  assumes "jf_tail (j_file j) = Clean" "write_pending d j = (r, j')"
  shows "j_pending j' = [] \<and> j_seq j' = j_seq j \<and> (\<exists>q. set q \<subseteq> set (j_pending j) \<and> jf_lines (j_file j') = jf_lines (j_file j) @ map JObj q
    \<and> (case r of Inr u \<Rightarrow> jf_tail (j_file j') = Clean
       | Inl err \<Rightarrow> jf_tail (j_file j') = Clean \<or> jf_tail (j_file j') = Torn \<or> (\<exists>e' \<in> set (j_pending j). jf_tail (j_file j') = Bare e')))"
proof (cases "\<exists>n res. d = DiskQueueFails n res \<and> n < length (j_pending j)")
  case True
  then obtain n res where d: "d = DiskQueueFails n res" "n < length (j_pending j)" by blast
  let ?f = "\<lparr>jf_lines = jf_lines (j_file j) @ map JObj (take n (j_pending j)), jf_tail = Clean\<rparr>"
  have f: "fold append_line (take n (j_pending j)) (j_file j) = ?f" by (rule append_lines_clean[OF assms(1)])
  have j': "r = Inl ''OSError''" "j' = j\<lparr>j_pending := [], j_file := leave_residue res (j_pending j ! n) ?f\<rparr>"
    using assms(2) d f by (simp_all add: write_pending_def Let_def)
  have "j_pending j ! n \<in> set (j_pending j)" using d(2) by simp
  then have "jf_tail (leave_residue res (j_pending j ! n) ?f) \<in> {Clean, Torn} \<union> Bare ` set (j_pending j)"
    "jf_lines (leave_residue res (j_pending j ! n) ?f) = jf_lines (j_file j) @ map JObj (take n (j_pending j))"
    by (cases res; simp add: leave_residue_def)+
  then show ?thesis using j' set_take_subset[of n "j_pending j"] by (auto intro!: exI[of _ "take n (j_pending j)"])
next
  case False
  then have "write_pending d j = (Inr (), j\<lparr>j_pending := [], j_file := fold append_line (j_pending j) (j_file j)\<rparr>)"
    by (cases d) (auto simp: write_pending_def Let_def)
  then show ?thesis using assms append_lines_clean[OF assms(1)] by (auto intro!: exI[of _ "j_pending j"])
qed

lemma emit_written:
  assumes tail: "jf_tail (j_file j) = Clean" and kind: "\<not> advisory (stamped j kvs)" and run: "journal_emit kvs j = (r, j')"
  shows "written (stamped j kvs) j r j'"
proof (cases "j_closed j")
  case True
  then have "r = Inl ''ValueError''" "j' = j" using run kind by (simp_all add: journal_emit_def journal_write_def stamped_def)
  then show ?thesis using w_refused[of j' j "[]"] tail by simp
next
  case False
  let ?e = "stamped j kvs"
  obtain d ds where d: "take_disk j = (d, j\<lparr>j_disk := ds\<rparr>)" by (rule take_disk_any)
  have run1: "write_durable d ?e (j\<lparr>j_disk := ds\<rparr>) = (r, j')"
    using run kind False d by (simp add: journal_emit_def journal_write_def stamped_def)
  obtain r1 j1 where p: "write_pending d (j\<lparr>j_disk := ds\<rparr>) = (r1, j1)" by (cases "write_pending d (j\<lparr>j_disk := ds\<rparr>)") blast
  let ?done = "\<lambda>q. set q \<subseteq> set (j_pending j) \<and> jf_lines (j_file j1) = jf_lines (j_file j) @ map JObj q
    \<and> (case r1 of Inr u \<Rightarrow> jf_tail (j_file j1) = Clean
       | Inl err \<Rightarrow> jf_tail (j_file j1) = Clean \<or> jf_tail (j_file j1) = Torn \<or> (\<exists>e' \<in> set (j_pending j). jf_tail (j_file j1) = Bare e'))"
  have "j_pending j1 = [] \<and> j_seq j1 = j_seq j \<and> (\<exists>q. ?done q)" using write_pending_any[OF _ p] tail by (cases r1) simp_all
  then obtain q where "j_pending j1 = []" "j_seq j1 = j_seq j" "?done q" by blast
  note q = this(1,2) this(3)[THEN conjunct1] this(3)[THEN conjunct2, THEN conjunct1] this(3)[THEN conjunct2, THEN conjunct2]
  show ?thesis
  proof (cases r1)
    case (Inl err)
    then have j': "r = Inl err" "j' = j1" using run1 p by (simp_all add: write_durable_def)
    have f1: "j_file j1 = \<lparr>jf_lines = jf_lines (j_file j) @ map JObj q, jf_tail = jf_tail (j_file j1)\<rparr>" using q(4) by simp
    consider "jf_tail (j_file j1) = Clean" | "jf_tail (j_file j1) = Torn" | e' where "e' \<in> set (j_pending j)" "jf_tail (j_file j1) = Bare e'"
      using q(5) Inl by auto
    then show ?thesis
    proof cases
      case 1
      then show ?thesis using j' f1 q(1,3) w_refused[of j1 j q] by simp
    next
      case 2
      then show ?thesis using j' f1 q(1,3) w_torn[of j1 j q] by simp
    next
      case 3
      then show ?thesis using j' f1 q(1,3) w_bare[of j1 j q e'] by simp
    qed
  next
    case (Inr u)
    then have clean: "jf_tail (j_file j1) = Clean" using q(5) by simp
    have f1: "j_file j1 = \<lparr>jf_lines = jf_lines (j_file j) @ map JObj q, jf_tail = Clean\<rparr>" using q(4) clean by simp
    show ?thesis
    proof (cases d)
      case DiskFails
      then show ?thesis using run1 p Inr f1 q(1,3) w_refused[of j1 j q] by (auto simp: write_durable_def)
    next
      case (DiskFailsTorn res)
      then have "r = Inl ''OSError''" "j' = j1\<lparr>j_file := leave_residue res ?e (j_file j1)\<rparr>"
        using run1 p Inr by (auto simp: write_durable_def)
      then show ?thesis
        using f1 q(1,3) w_refused[of j' j q] w_torn[of j' j q] w_bare[of j' j q ?e]
        by (cases res) (simp_all add: leave_residue_def)
    next
      case DiskOk
      then show ?thesis using run1 p Inr f1 q w_ok[of j' j q ?e] by (auto simp: write_durable_def append_line_def)
    next
      case (DiskQueueFails n res)
      then show ?thesis using run1 p Inr f1 q w_ok[of j' j q ?e] by (auto simp: write_durable_def append_line_def)
    qed
  qed
qed

section \<open>A replacement on any disk\<close>

lemma list_all_subset: "list_all P ys \<Longrightarrow> set xs \<subseteq> set ys \<Longrightarrow> list_all P xs"
  by (auto simp: list_all_iff)

text \<open>What a refused record leaves folds to what was held, or to what the record leads to when all but its newline is there.\<close>

lemma written_refused:
  assumes w: "written e j (Inl err) j'" and q: "list_all neutral (j_pending j)" and held: "held (jf_lines (j_file j)) ms s"
    and bare: "\<And>q. list_all neutral q \<Longrightarrow> held (jf_lines (j_file j) @ map JObj q @ [JObj e]) ms1 s1"
  shows "folds_to (j_file j') ms s \<or> jf_tail (j_file j') = Bare e \<and> folds_to (j_file j') ms1 s1"
  using w
proof (cases rule: written.cases)
  case (w_refused qs)
  then show ?thesis using held_neutrals[OF held list_all_subset[OF q]] by (simp add: folds_to_clean)
next
  case (w_torn qs)
  then show ?thesis using held_neutrals[OF held list_all_subset[OF q]] by (simp add: folds_to_torn)
next
  case (w_bare qs e')
  have qs: "list_all neutral qs" using list_all_subset[OF q] w_bare(3) by blast
  have "e' \<in> set (j_pending j) \<Longrightarrow> held (jf_lines (j_file j) @ map JObj (qs @ [e'])) ms s"
    using held_neutrals[OF held, of "qs @ [e']"] qs q by (auto simp: list_all_iff)
  moreover have "held (jf_lines (j_file j) @ map JObj qs @ [JObj e]) ms1 s1" by (rule bare[OF qs])
  ultimately show ?thesis using w_bare(1,2) folds_to_bare[of "j_file j'"] by auto
qed

definition in_replacement :: "string \<Rightarrow> pyval list \<Rightarrow> pyval \<Rightarrow> pyval list \<Rightarrow> pyval \<Rightarrow> jline list \<Rightarrow> bool" where
  "in_replacement tid ms s ms' s' ls \<longleftrightarrow> (\<exists>fs. fold_lines ls fold_start = Inr (fs, 0) \<and> fs_messages fs = ms' \<and> fs_summary fs = s'
     \<and> fs_pending fs = Some (tid, ms, s))"

lemma in_replacement_held: "in_replacement tid ms s ms' s' ls \<Longrightarrow> held ls ms s"
  by (auto simp: in_replacement_def held_def rollback_pending_def)

lemma in_replacement_neutral:
  assumes "in_replacement tid ms s ms' s' ls" "list_all neutral es"
  shows "in_replacement tid ms s ms' s' (ls @ map JObj es)"
  using assms
proof (induction es arbitrary: ls)
  case (Cons e es)
  obtain fs where fs: "fold_lines ls fold_start = Inr (fs, 0)" "fs_messages fs = ms'" "fs_summary fs = s'" "fs_pending fs = Some (tid, ms, s)"
    using Cons.prems(1) by (auto simp: in_replacement_def)
  have "fold_entry e fs = Inr fs" using Cons.prems(2) by (simp add: fold_entry_def Let_def neutral_def)
  then have "in_replacement tid ms s ms' s' (ls @ [JObj e])"
    using fs fold_lines_append[OF fs(1), of "[JObj e]"] by (simp add: in_replacement_def)
  then show ?case using Cons.IH[of "ls @ [JObj e]"] Cons.prems(2) by simp
qed simp

lemma in_replacement_prepare:
  "held ls ms s \<Longrightarrow> in_replacement tid ms s ms s (ls @ [JObj (stamped j (prepare_entry tid ms s))])"
  using fold_prepare[of ls ms s j tid] unfolding in_replacement_def by metis

lemma in_replacement_candidate:
  assumes "in_replacement tid ms s ms1 s1 ls"
  shows "in_replacement tid ms s ms' s' (ls @ [JObj (stamped j (candidate_entry tid ms' s'))])"
proof -
  obtain fs where "fold_lines ls fold_start = Inr (fs, 0)" "fs_pending fs = Some (tid, ms, s)"
    using assms by (auto simp: in_replacement_def)
  then show ?thesis using fold_candidate[of ls fs tid ms s j ms' s'] by (auto simp: in_replacement_def)
qed

lemma in_replacement_commit:
  assumes "in_replacement tid ms s ms' s' ls"
  shows "held (ls @ [JObj (stamped j (commit_entry tid))]) ms' s'"
proof -
  obtain fs where fs: "fold_lines ls fold_start = Inr (fs, 0)" "fs_messages fs = ms'" "fs_summary fs = s'" "fs_pending fs = Some (tid, ms, s)"
    using assms by (auto simp: in_replacement_def)
  show ?thesis using fold_commit[OF fs(1,4), of j] fs(2,3) by (simp add: held_def rollback_pending_def)
qed

lemma written_ok_lines:
  assumes "written e j (Inr u) j'" "list_all neutral (j_pending j)"
  obtains q where "jf_lines (j_file j') = jf_lines (j_file j) @ map JObj q @ [JObj e]" "jf_tail (j_file j') = Clean"
    "list_all neutral q" "list_all neutral (j_pending j')"
  using assms(1)
proof (cases rule: written.cases)
  case (w_ok q)
  then show ?thesis using that[of q] list_all_subset[OF assms(2)] by simp
qed

lemma journal_fold_any:
  assumes tail: "jf_tail (j_file j) = Clean" and q: "list_all neutral (j_pending j)" and held: "held (jf_lines (j_file j)) ms s"
    and run: "journal_fold j = (r, j')"
  shows "(case r of Inr x \<Rightarrow> x = (ms, s) \<and> jf_tail (j_file j') = Clean \<and> j_pending j' = [] \<and> held (jf_lines (j_file j')) ms s
     | Inl err \<Rightarrow> folds_to (j_file j') ms s)"
proof -
  obtain d ds where d: "take_disk j = (d, j\<lparr>j_disk := ds\<rparr>)" by (rule take_disk_any)
  obtain r1 j1 where p: "drain j = (r1, j1)" by (cases "drain j") blast
  have drained: "j_pending j1 = [] \<and> (\<exists>qs. list_all neutral qs \<and> jf_lines (j_file j1) = jf_lines (j_file j) @ map JObj qs
    \<and> (case r1 of Inr u \<Rightarrow> jf_tail (j_file j1) = Clean
       | Inl err \<Rightarrow> jf_tail (j_file j1) = Clean \<or> jf_tail (j_file j1) = Torn \<or> (\<exists>e'. neutral e' \<and> jf_tail (j_file j1) = Bare e')))"
  proof (cases "j_pending j = []")
    case True
    then show ?thesis using p tail by (auto simp: drain_def intro!: exI[of _ "[]"])
  next
    case False
    then have "write_pending d (j\<lparr>j_disk := ds\<rparr>) = (r1, j1)" using p d by (simp add: drain_def)
    from write_pending_any[OF _ this] tail obtain qs where "set qs \<subseteq> set (j_pending j)" "j_pending j1 = []"
      "jf_lines (j_file j1) = jf_lines (j_file j) @ map JObj qs"
      "case r1 of Inr u \<Rightarrow> jf_tail (j_file j1) = Clean
       | Inl err \<Rightarrow> jf_tail (j_file j1) = Clean \<or> jf_tail (j_file j1) = Torn
         \<or> (\<exists>e' \<in> set (j_pending (j\<lparr>j_disk := ds\<rparr>)). jf_tail (j_file j1) = Bare e')"
      by auto
    then show ?thesis using q list_all_subset[OF q] by (cases r1) (auto simp: list_all_iff)
  qed
  then obtain qs where qs: "j_pending j1 = []" "list_all neutral qs" "jf_lines (j_file j1) = jf_lines (j_file j) @ map JObj qs"
    "case r1 of Inr u \<Rightarrow> jf_tail (j_file j1) = Clean
       | Inl err \<Rightarrow> jf_tail (j_file j1) = Clean \<or> jf_tail (j_file j1) = Torn \<or> (\<exists>e'. neutral e' \<and> jf_tail (j_file j1) = Bare e')"
    by blast
  have h: "held (jf_lines (j_file j1)) ms s" using held_neutrals[OF held qs(2)] qs(3) by simp
  show ?thesis
  proof (cases r1)
    case (Inl err)
    then have "r = Inl err" "j' = j1" using run p by (simp_all add: journal_fold_def jbind_def)
    moreover have "folds_to (j_file j1) ms s"
      using qs(4) Inl h held_neutral[OF h] folds_to_clean[OF h] folds_to_torn[OF h] folds_to_bare[of "j_file j1"] by auto
    ultimately show ?thesis by simp
  next
    case (Inr u)
    then have tail1: "jf_tail (j_file j1) = Clean" using qs(4) by simp
    have "fold_path_with_report (j_file j1) = Inr (ms, s, 0)"
      using h tail1 by (auto simp: fold_path_with_report_def held_def read_lines_def Let_def)
    then have "r = Inr (ms, s)" "j' = j1\<lparr>j_corrupt := 0\<rparr>" using run p Inr by (simp_all add: journal_fold_def jbind_def)
    then show ?thesis using h tail1 qs(1) by simp
  qed
qed

lemma replacement_kinds:
  "\<not> advisory (stamped j (prepare_entry tid ms s))" "\<not> advisory (stamped j (candidate_entry tid ms s))"
  "\<not> advisory (stamped j (commit_entry tid))"
  by (simp_all add: advisory_def entry_kind_def stamped_def prepare_entry_def candidate_entry_def commit_entry_def)

text \<open>Whatever the disk does, the file folds to the state before the replacement or to the one after it.\<close>

lemma replace_state_any:
  assumes tail: "jf_tail (j_file j) = Clean" and q: "list_all neutral (j_pending j)" and held: "held (jf_lines (j_file j)) ms s"
    and run: "replace_state tid ms' s' j = (r, j')"
  shows "case r of Inr u \<Rightarrow> folds_to (j_file j') ms' s'
     | Inl err \<Rightarrow> folds_to (j_file j') ms s
         \<or> (\<exists>e. jf_tail (j_file j') = Bare e \<and> pget e ''kind'' = PStr ''state_replace_commit'') \<and> folds_to (j_file j') ms' s'"
proof -
  obtain r0 j0 where f: "journal_fold j = (r0, j0)" by (cases "journal_fold j") blast
  note fold = journal_fold_any[OF tail q held f]
  show ?thesis
  proof (cases r0)
    case (Inl err)
    then have "r = Inl err" "j' = j0" using run f by (simp_all add: replace_state_def jbind_def)
    then show ?thesis using fold Inl by simp
  next
    case (Inr x)
    then have x: "x = (ms, s)" and tail0: "jf_tail (j_file j0) = Clean" and q0: "list_all neutral (j_pending j0)"
      and held0: "held (jf_lines (j_file j0)) ms s" using fold by simp_all
    have run0: "jbind (journal_emit (prepare_entry tid ms s)) (\<lambda>_. jbind (journal_emit (candidate_entry tid ms' s')) (\<lambda>_. journal_emit (commit_entry tid))) j0 = (r, j')"
      using run f Inr x by (simp add: replace_state_def jbind_def)
    obtain r1 j1 where e1: "journal_emit (prepare_entry tid ms s) j0 = (r1, j1)" by (cases "journal_emit (prepare_entry tid ms s) j0") blast
    note w1 = emit_written[OF tail0 replacement_kinds(1) e1]
    have b1: "in_replacement tid ms s ms s (jf_lines (j_file j0) @ map JObj qs @ [JObj (stamped j0 (prepare_entry tid ms s))])"
      if "list_all neutral qs" for qs
      using in_replacement_prepare[OF held_neutrals[OF held0 that]] by simp
    show ?thesis
    proof (cases r1)
      case (Inl err)
      then have "r = Inl err" "j' = j1" using run0 e1 by (simp_all add: jbind_def)
      then show ?thesis using written_refused[OF w1[unfolded Inl] q0 held0 in_replacement_held[OF b1]] by auto
    next
      case (Inr u)
      obtain q1 where q1: "jf_lines (j_file j1) = jf_lines (j_file j0) @ map JObj q1 @ [JObj (stamped j0 (prepare_entry tid ms s))]"
          "jf_tail (j_file j1) = Clean" "list_all neutral q1" "list_all neutral (j_pending j1)"
        by (rule written_ok_lines[OF w1[unfolded Inr] q0])
      have rep1: "in_replacement tid ms s ms s (jf_lines (j_file j1))" using b1[OF q1(3)] q1(1) by simp
      obtain r2 j2 where e2: "journal_emit (candidate_entry tid ms' s') j1 = (r2, j2)" by (cases "journal_emit (candidate_entry tid ms' s') j1") blast
      note w2 = emit_written[OF q1(2) replacement_kinds(2) e2]
      have b2: "in_replacement tid ms s ms' s' (jf_lines (j_file j1) @ map JObj qs @ [JObj (stamped j1 (candidate_entry tid ms' s'))])"
        if "list_all neutral qs" for qs
        using in_replacement_candidate[OF in_replacement_neutral[OF rep1 that]] by simp
      show ?thesis
      proof (cases r2)
        case (Inl err)
        then have "r = Inl err" "j' = j2" using run0 e1 Inr e2 by (simp_all add: jbind_def)
        then show ?thesis
          using written_refused[OF w2[unfolded Inl] q1(4) in_replacement_held[OF rep1] in_replacement_held[OF b2]] by auto
      next
        case second: (Inr u2)
        obtain q2 where q2: "jf_lines (j_file j2) = jf_lines (j_file j1) @ map JObj q2 @ [JObj (stamped j1 (candidate_entry tid ms' s'))]"
            "jf_tail (j_file j2) = Clean" "list_all neutral q2" "list_all neutral (j_pending j2)"
          by (rule written_ok_lines[OF w2[unfolded second] q1(4)])
        have rep2: "in_replacement tid ms s ms' s' (jf_lines (j_file j2))" using b2[OF q2(3)] q2(1) by simp
        have e3: "journal_emit (commit_entry tid) j2 = (r, j')" using run0 e1 Inr e2 second by (simp add: jbind_def)
        note w3 = emit_written[OF q2(2) replacement_kinds(3) e3]
        have b3: "held (jf_lines (j_file j2) @ map JObj qs @ [JObj (stamped j2 (commit_entry tid))]) ms' s'"
          if "list_all neutral qs" for qs
          using in_replacement_commit[OF in_replacement_neutral[OF rep2 that]] by simp
        have kind: "pget (stamped j2 (commit_entry tid)) ''kind'' = PStr ''state_replace_commit''"
          by (simp add: commit_entry_def pget_def)
        show ?thesis
        proof (cases r)
          case (Inl err)
          then show ?thesis
            using written_refused[OF w3[unfolded Inl] q2(4) in_replacement_held[OF rep2] b3] kind by auto
        next
          case third: (Inr u3)
          obtain q3 where "jf_lines (j_file j') = jf_lines (j_file j2) @ map JObj q3 @ [JObj (stamped j2 (commit_entry tid))]"
              "jf_tail (j_file j') = Clean" "list_all neutral q3"
            by (rule written_ok_lines[OF w3[unfolded third] q2(4)])
          then show ?thesis using third b3 folds_to_clean[of "j_file j'"] by simp
        qed
      qed
    qed
  qed
qed

section \<open>After an unfinished record\<close>

text \<open>A record written behind a tail joins it: the fold ends there, whatever follows.\<close>

definition cut_off :: "jfile \<Rightarrow> jfile \<Rightarrow> bool" where
  "cut_off f f' \<longleftrightarrow> (\<exists>ls. read_lines f' = jf_lines f @ JBad # ls)"

lemma cut_off_append: "jf_tail f \<noteq> Clean \<Longrightarrow> cut_off f (append_line e f)"
  by (simp add: cut_off_def append_line_def read_lines_def)

lemma cut_off_more:
  assumes "jf_lines f' = jf_lines f @ JBad # ls"
  shows "\<exists>ls'. jf_lines (append_line e f') = jf_lines f @ JBad # ls'"
  using assms by (simp add: append_line_def)

lemma fold_cut_off:
  assumes "held (jf_lines f) ms s" "cut_off f f'"
  shows "\<exists>n. fold_path_with_report f' = Inr (ms, s, Suc n)"
proof -
  obtain fs where fs: "fold_lines (jf_lines f) fold_start = Inr (fs, 0)" "fs_messages (rollback_pending fs) = ms" "fs_summary (rollback_pending fs) = s"
    using assms(1) by (auto simp: held_def)
  obtain ls where "read_lines f' = jf_lines f @ JBad # ls" using assms(2) by (auto simp: cut_off_def)
  then show ?thesis using fold_lines_bad[OF fs(1), of ls] fs(2,3) by (simp add: fold_path_with_report_def Let_def)
qed

end
