(* ===== verification/Journal_Properties.thy ===== *)
theory Journal_Properties
  imports Journal_Steps Journal_Tears
begin

text \<open>
  What the journal and the memory guarantee: the memory survives a restart, a message sent once is there once,
  a replacement happens as a whole, and where an unfinished record cuts the journal off.
\<close>

section \<open>Helpers\<close>


lemma memory_run_ok:
  assumes "list_all mild ds" "memory_open la tid event (journal_open \<lparr>jf_lines = [], jf_tail = Clean\<rparr> ds) = Inr m0"
    "(memory_step la)\<^sup>*\<^sup>* m0 m"
  shows "mem_ok m"
  using memory_run_keeps[OF assms(3) memory_start_ok[OF assms(1,2)]] by (simp add: mem_keeps_def)

lemma reopened_held:
  assumes "mem_ok m" "list_all mild ds"
  obtains j where "journal_fold (reopened (mem_journal m) ds) = (Inr (mem_messages m, mem_summary m), j)" "j_corrupt j = 0"
    "clean j" "content j = content (mem_journal m)"
proof -
  have c: "clean (mem_journal m)" "held (content (mem_journal m)) (mem_messages m) (mem_summary m)" using assms(1) by (simp_all add: mem_ok_def)
  note r = clean_reopened[OF c(1) assms(2)]
  show ?thesis using journal_fold_held[OF r(1) c(2)[folded r(2)]] that r(2) by metis
qed

lemma fold_pending_clean:
  assumes "clean j"
  obtains x j' where "fold_pending_tool_exchange_call_hashes j = (Inr x, j')"
proof -
  obtain j' where "drain j = (Inr (), j')" using drain_clean[OF assms] by metis
  then show ?thesis using that by (simp add: fold_pending_tool_exchange_call_hashes_def jbind_def lift_result_def)
qed

lemma repair_candidate_valid:
  assumes "history_ok la ms" "la_heal la ms = ms"
  shows "repair_candidate la pending ms = Inr ms"
  using assms
  by (simp add: repair_candidate_def history_ok_def Let_def repair_non_adjacent_def batches_def)

lemma retry_valid:
  assumes "clean (mem_journal m)" "history_ok la (mem_messages m)" "la_heal la (mem_messages m) = mem_messages m"
    "rs_status (mem_recovery m) = HistoryReady"
  shows "\<exists>j. retry_tool_history_recovery la tid event m = m\<lparr>mem_journal := j,
      mem_recovery := \<lparr>rs_status = HistoryReady, rs_issue_codes = [], rs_repair_attempted = True\<rparr>\<rparr>"
proof -
  obtain x j where "fold_pending_tool_exchange_call_hashes (mem_journal m) = (Inr x, j)" by (rule fold_pending_clean[OF assms(1)])
  then show ?thesis using assms(4) repair_candidate_valid[OF assms(2,3)]
    by (simp add: retry_tool_history_recovery_def Let_def on_journal_def) (metis memory.surjective memory.update_convs)
qed

lemma append_message_content:
  assumes "clean j" "append_message m mid j = (Inr (), j')"
  shows "clean j' \<and> content j' = content j @ [JObj (stamped j (append_entry m mid))]"
  using assms(1)
proof (cases rule: emit_clean[of j "append_entry m mid"])
  case (ok j1)
  then show ?thesis using assms(2) by (simp add: append_message_def)
next
  case (failed err j1)
  then show ?thesis using assms(2) by (simp add: append_message_def)
qed

text \<open>The first record of a message sent once carries its identifier.\<close>

lemma journal_once_recorded:
  assumes "clean j" "held (content j) ms s" "journal_once mid 0 added j = (Inr (), j')" "added \<noteq> []" "length mid \<le> 160" "mid \<noteq> []"
  shows "\<exists>e \<in> set (objects (content j')). pget e ''kind'' = PStr ''append'' \<and> pget e ''message_id'' = PStr mid"
proof -
  obtain x xs where added: "added = x # xs" using assms(4) by (cases added) auto
  obtain j1 where j1: "append_message x mid j = (Inr (), j1)" "journal_once mid (Suc 0) xs j1 = (Inr (), j')"
    using assms(3) added by (auto simp: jbind_def split: prod.splits sum.splits)
  let ?e = "stamped j (append_entry x mid)"
  have c1: "clean j1" "content j1 = content j @ [JObj ?e]" using append_message_content[OF assms(1) j1(1)] by simp_all
  have h1: "held (content j1) (ms @ [x]) s" using held_append[OF assms(2)] c1(2) by simp
  have "j_grows j1 j'" "held (content j') ((ms @ [x]) @ xs) s" using appends_once c1(1) h1 j1(2) unfolding j_appends_def by blast+
  then obtain es where es: "content j' = content j1 @ map JObj es" by (auto simp: j_grows_def)
  obtain fs where "content j = map JObj fs" using held_objects[OF assms(2)] by blast
  then have "content j' = map JObj (fs @ ?e # es)" using es c1(2) by simp
  then have "?e \<in> set (objects (content j'))" by (simp only: objects_map) simp
  moreover have "pget ?e ''kind'' = PStr ''append''" "pget ?e ''message_id'' = PStr mid"
    using assms(5,6) by (simp_all add: append_entry_def pget_def dget_or_def)
  ultimately show ?thesis by blast
qed

lemma add_user_once_recorded:
  assumes "mem_ok m" "add_user_once added mid m = (Inr True, m1)" "length mid \<le> 160"
  shows "mid \<noteq> []" "\<exists>e \<in> set (objects (content (mem_journal m1))). pget e ''kind'' = PStr ''append'' \<and> pget e ''message_id'' = PStr mid"
proof -
  show mid: "mid \<noteq> []" using assms(2) by (auto simp: add_user_once_def)
  obtain known j where k: "on_journal (has_message_id mid) m = (Inr known, m\<lparr>mem_journal := j\<rparr>)" "clean j" "mem_keeps m (m\<lparr>mem_journal := j\<rparr>)"
    by (rule known_message_run[OF assms(1), of mid])
  have "\<not> known" using assms(2) mid k(1) by (auto simp: add_user_once_def mbind_def)
  then obtain j1 where j1: "journal_once mid 0 added j = (Inr (), j1)" "mem_journal m1 = j1" "added \<noteq> []"
    using assms(2) mid k(1) by (auto simp: add_user_once_def mbind_def on_journal_def split: prod.splits sum.splits)
  have "held (content j) (mem_messages m) (mem_summary m)" using k(3) by (simp add: mem_keeps_def mem_ok_def)
  from journal_once_recorded[OF k(2) this j1(1,3) assms(3) mid]
  show "\<exists>e \<in> set (objects (content (mem_journal m1))). pget e ''kind'' = PStr ''append'' \<and> pget e ''message_id'' = PStr mid"
    using j1(2) by simp
qed

text \<open>Records written one after the other.\<close>

fun emits :: "payload list \<Rightarrow> unit jm" where
  "emits [] = jret ()"
| "emits (e # es) = jbind (journal_emit e) (\<lambda>_. emits es)"

lemma emit_on_good_disk:
  assumes "j_pending j = []" "j_disk j = []" "\<not> j_closed j" "\<not> advisory (stamped j e)"
  shows "\<exists>j'. journal_emit e j = (Inr (), j') \<and> j_file j' = append_line (stamped j e) (j_file j) \<and> j_pending j' = [] \<and> j_disk j' = []
    \<and> \<not> j_closed j'"
  using assms
  by (simp add: journal_emit_def journal_write_def take_disk_def write_durable_def write_pending_def Let_def stamped_def)

lemma advisory_stamped: "advisory (stamped j e) = advisory e"
  by (simp add: advisory_def entry_kind_def stamped_def)

lemma emits_on_good_disk:
  assumes "j_pending j = []" "j_disk j = []" "\<not> j_closed j" "list_all (\<lambda>e. \<not> advisory e) es" "jf_lines (j_file j) = ls @ JBad # ls'" "jf_tail (j_file j) = Clean"
  shows "\<exists>j' ls''. emits es j = (Inr (), j') \<and> jf_lines (j_file j') = ls @ JBad # ls'' \<and> jf_tail (j_file j') = Clean \<and> j_pending j' = []"
  using assms
proof (induction es arbitrary: j ls')
  case Nil
  then show ?case by (auto simp: jret_def)
next
  case (Cons e es)
  obtain j1 where j1: "journal_emit e j = (Inr (), j1)" "j_file j1 = append_line (stamped j e) (j_file j)" "j_pending j1 = []" "j_disk j1 = []"
      "\<not> j_closed j1"
    using emit_on_good_disk[of j e] Cons.prems by (auto simp: advisory_stamped)
  then show ?case using Cons.IH[of j1 "ls' @ [JObj (stamped j e)]"] Cons.prems(4-6) by (simp add: append_line_def jbind_def)
qed

section \<open>Properties\<close>

text \<open>
  C18. Whatever a session did to its memory since the first start, with restarts in between and a disk that at
  worst refuses a write, the file of the journal folds to exactly the messages and the summary the memory
  holds, no record being corrupt; the next process opens on them, ready for the provider when they validate.
  An operation that publishes before it journals (an append, a reset) counts when the journal took its records.
\<close>

theorem memory_restart:
  assumes "list_all mild ds" "memory_open la tid event (journal_open \<lparr>jf_lines = [], jf_tail = Clean\<rparr> ds) = Inr m0"
    "(memory_step la)\<^sup>*\<^sup>* m0 m" "list_all mild ds'"
  shows "(\<exists>j. journal_fold (reopened (mem_journal m) ds') = (Inr (mem_messages m, mem_summary m), j) \<and> j_corrupt j = 0)
    \<and> (history_ok la (mem_messages m) \<and> la_heal la (mem_messages m) = mem_messages m \<longrightarrow>
        (\<exists>m'. memory_open la tid' event' (reopened (mem_journal m) ds') = Inr m' \<and> mem_messages m' = mem_messages m
          \<and> mem_summary m' = mem_summary m \<and> rs_status (mem_recovery m') = HistoryReady))"
proof -
  have ok: "mem_ok m" by (rule memory_run_ok[OF assms(1-3)])
  obtain j where j: "journal_fold (reopened (mem_journal m) ds') = (Inr (mem_messages m, mem_summary m), j)" "j_corrupt j = 0" "clean j"
    by (rule reopened_held[OF ok assms(4)])
  let ?m = "\<lparr>mem_messages = mem_messages m, mem_summary = mem_summary m, mem_exchange = None, mem_recovery = ready_state, mem_journal = j\<rparr>"
  have "\<exists>m'. memory_open la tid' event' (reopened (mem_journal m) ds') = Inr m' \<and> mem_messages m' = mem_messages m
      \<and> mem_summary m' = mem_summary m \<and> rs_status (mem_recovery m') = HistoryReady"
    if valid: "history_ok la (mem_messages m)" "la_heal la (mem_messages m) = mem_messages m"
  proof -
    obtain j2 where "retry_tool_history_recovery la tid' event' ?m = ?m\<lparr>mem_journal := j2,
        mem_recovery := \<lparr>rs_status = HistoryReady, rs_issue_codes = [], rs_repair_attempted = True\<rparr>\<rparr>"
      using retry_valid[of ?m la tid' event'] j(3) valid by (auto simp: ready_state_def)
    then show ?thesis using j(1,2) by (simp add: memory_open_def Let_def)
  qed
  then show ?thesis using j by blast
qed

text \<open>
  A message sent with an identifier of at most 160 characters is never sent again: once the first call has
  returned, every later call with that identifier, however many operations, compactions and restarts later,
  answers no and leaves the messages as they are.
\<close>

theorem memory_message_once:
  assumes "list_all mild ds" "memory_open la tid event (journal_open \<lparr>jf_lines = [], jf_tail = Clean\<rparr> ds) = Inr m0"
    "(memory_step la)\<^sup>*\<^sup>* m0 m" "add_user_once added mid m = (Inr True, m1)" "length mid \<le> 160" "(memory_step la)\<^sup>*\<^sup>* m1 m2"
  shows "\<exists>m3. add_user_once added' mid m2 = (Inr False, m3) \<and> mem_messages m3 = mem_messages m2"
proof -
  have ok: "mem_ok m" by (rule memory_run_ok[OF assms(1-3)])
  note first = add_user_once_recorded[OF ok assms(4,5)]
  have ok1: "mem_ok m1" using keeps_add_user_once[OF ok assms(4)] by (simp add: mem_keeps_def)
  have k: "mem_ok m2" "j_grows (mem_journal m1) (mem_journal m2)" using memory_run_keeps[OF assms(6) ok1] by (simp_all add: mem_keeps_def)
  obtain e where "e \<in> set (objects (content (mem_journal m2)))" "pget e ''kind'' = PStr ''append''" "pget e ''message_id'' = PStr mid"
    using first(2) known_message_grows[OF ok1 k] by blast
  then have known: "mid \<noteq> [] \<and> (\<exists>e \<in> set (objects (content (mem_journal m2))). pget e ''kind'' = PStr ''append'' \<and> pget e ''message_id'' = PStr mid)"
    using first(1) by blast
  obtain j where "on_journal (has_message_id mid) m2 = (Inr (mid \<noteq> []
      \<and> (\<exists>e \<in> set (objects (content (mem_journal m2))). pget e ''kind'' = PStr ''append'' \<and> pget e ''message_id'' = PStr mid)),
      m2\<lparr>mem_journal := j\<rparr>)"
    by (rule known_message_run[OF k(1), of mid])
  then have "on_journal (has_message_id mid) m2 = (Inr True, m2\<lparr>mem_journal := j\<rparr>)" by (simp only: known simp_thms)
  then show ?thesis using first(1) by (simp add: add_user_once_def mbind_def)
qed


text \<open>
  C39. What is journaled behind an unfinished record is lost. When a journal is opened on a file that ends in a torn
  record, or in one that misses only its newline, every record written from then on is acknowledged, and the
  file folds to what its complete lines hold: none of the new records, and not the record without newline, which the
  opening had read. The memory that is opened on it next is blocked as corrupt.
\<close>

theorem journal_torn_tail:
  assumes "fold_path_with_report \<lparr>jf_lines = ls, jf_tail = Clean\<rparr> = Inr (ms, s, 0)" "t \<noteq> Clean" "es \<noteq> []" "list_all (\<lambda>e. \<not> advisory e) es"
  shows "\<exists>j n. emits es (journal_open \<lparr>jf_lines = ls, jf_tail = t\<rparr> []) = (Inr (), j) \<and> fold_path_with_report (j_file j) = Inr (ms, s, Suc n)
    \<and> (\<exists>m. memory_open la tid event (reopened j []) = Inr m \<and> mem_messages m = ms \<and> rs_status (mem_recovery m) = JournalCorrupt)"
proof -
  let ?j = "journal_open \<lparr>jf_lines = ls, jf_tail = t\<rparr> []"
  obtain e es' where es: "es = e # es'" using assms(3) by (cases es) auto
  have held: "held ls ms s"
    using assms(1) by (auto simp: fold_path_with_report_def held_def read_lines_def Let_def bindE_eq_Inr_iff)
  obtain j1 where j1: "journal_emit e ?j = (Inr (), j1)" "j_file j1 = append_line (stamped ?j e) (j_file ?j)" "j_pending j1 = []" "j_disk j1 = []"
      "\<not> j_closed j1"
    using emit_on_good_disk[of ?j e] assms(4) es by (auto simp: advisory_stamped journal_open_def)
  have "jf_lines (j_file j1) = ls @ JBad # []" "jf_tail (j_file j1) = Clean"
    using j1(2) assms(2) by (simp_all add: append_line_def journal_open_def)
  then obtain j ls' where j: "emits es' j1 = (Inr (), j)" "jf_lines (j_file j) = ls @ JBad # ls'" "jf_tail (j_file j) = Clean" "j_pending j = []"
    using emits_on_good_disk[OF j1(3-5), of es' ls "[]"] assms(4) es by auto
  have cut: "cut_off \<lparr>jf_lines = ls, jf_tail = Clean\<rparr> (j_file j)" using j(2,3) by (simp add: cut_off_def read_lines_def)
  obtain n where n: "fold_path_with_report (j_file j) = Inr (ms, s, Suc n)" using fold_cut_off[OF _ cut, of ms s] held by auto
  have f1: "j_file (reopened j []) = j_file j" "j_pending (reopened j []) = []"
    using j(4) by (simp_all add: reopened_def journal_open_def journal_close_def writer_flush_def)
  have "journal_fold (reopened j []) = (Inr (ms, s), (reopened j [])\<lparr>j_corrupt := Suc n\<rparr>)"
    using n f1 by (simp add: journal_fold_def jbind_def drain_def)
  then have "\<exists>m. memory_open la tid event (reopened j []) = Inr m \<and> mem_messages m = ms \<and> rs_status (mem_recovery m) = JournalCorrupt"
    by (simp add: memory_open_def Let_def)
  moreover have "emits es ?j = (Inr (), j)" using es j1(1) j(1) by (simp add: jbind_def)
  ultimately show ?thesis using n by blast
qed

section \<open>Witnesses\<close>

definition plain_lauren :: lauren where
  "plain_lauren = \<lparr>la_report = (\<lambda>_. []), la_heal = (\<lambda>ms. ms), la_digest = (\<lambda>x. x)\<rparr>"

definition demo_ready :: recovery_state where
  "demo_ready = \<lparr>rs_status = HistoryReady, rs_issue_codes = [], rs_repair_attempted = True\<rparr>"

definition empty_journal :: journal where
  "empty_journal = journal_open \<lparr>jf_lines = [], jf_tail = Clean\<rparr> []"

definition demo_m0 :: memory where
  "demo_m0 = \<lparr>mem_messages = [], mem_summary = PNone, mem_exchange = None, mem_recovery = demo_ready, mem_journal = empty_journal\<rparr>"

definition demo_mail :: payload where
  "demo_mail = [(''seq'', PInt 0), (''kind'', PStr ''append''), (''message'', PStr ''hi''), (''message_id'', PStr ''m1'')]"

definition demo_m1 :: memory where
  "demo_m1 = demo_m0\<lparr>mem_messages := [PStr ''hi''],
     mem_journal := empty_journal\<lparr>j_file := \<lparr>jf_lines = [JObj demo_mail], jf_tail = Clean\<rparr>, j_seq := 1\<rparr>\<rparr>"

lemma demo_opened: "memory_open plain_lauren [] (\<lambda>x b. x) (journal_open \<lparr>jf_lines = [], jf_tail = Clean\<rparr> []) = Inr demo_m0"
  by code_simp

lemma demo_sent: "add_user_once [PStr ''hi''] ''m1'' demo_m0 = (Inr True, demo_m1)"
  by code_simp

lemma demo_step: "(memory_step plain_lauren)\<^sup>*\<^sup>* demo_m0 demo_m1"
  using step_once[OF demo_sent] by blast

theorem memory_restart_witness:
  "\<exists>j. journal_fold (reopened (mem_journal demo_m1) []) = (Inr ([PStr ''hi''], PNone), j) \<and> j_corrupt j = 0"
  using memory_restart[OF _ demo_opened demo_step, of "[]"] by (simp add: demo_m1_def demo_m0_def)

theorem memory_message_once_witness:
  "\<exists>m3. add_user_once [PStr ''again''] ''m1'' demo_m1 = (Inr False, m3) \<and> mem_messages m3 = [PStr ''hi'']"
  using memory_message_once[OF _ demo_opened rtranclp.rtrancl_refl demo_sent _ rtranclp.rtrancl_refl, of "[PStr ''again'']"]
  by (simp add: demo_m1_def)



theorem journal_torn_tail_witness:
  "\<exists>j n. emits [append_entry (PStr ''lost'') []] (journal_open \<lparr>jf_lines = [JObj demo_mail], jf_tail = Bare demo_mail\<rparr> []) = (Inr (), j)
    \<and> fold_path_with_report (j_file j) = Inr ([PStr ''hi''], PNone, Suc n)"
proof -
  have "fold_path_with_report \<lparr>jf_lines = [JObj demo_mail], jf_tail = Clean\<rparr> = Inr ([PStr ''hi''], PNone, 0)"
    "list_all (\<lambda>e. \<not> advisory e) [append_entry (PStr ''lost'') []]"
    by code_simp+
  from journal_torn_tail[OF this(1) _ _ this(2), of "Bare demo_mail" plain_lauren "[]" "\<lambda>x b. x"] show ?thesis by auto
qed

end
