(* ===== verification/Journal_Recovery.thy ===== *)
theory Journal_Recovery
  imports Journal_Steps
begin

text \<open>
  Recovery after an interruption: the results a repaired tool history holds, the gate in front of the provider, and the
  turn a restarted process resumes.
\<close>

section \<open>The result blocks of a history\<close>

definition is_result :: "pyval \<Rightarrow> payload option" where
  "is_result v = (case mapping_of v of None \<Rightarrow> None | Some b \<Rightarrow> (if pget b ''type'' = PStr ''tool_result'' then Some b else None))"

definition message_results :: "pyval \<Rightarrow> payload list" where
  "message_results v =
     (case mapping_of v of
        None \<Rightarrow> []
      | Some m \<Rightarrow>
          if pget m ''type'' = PStr ''tool_result'' then [m]
          else if pget m ''role'' = PStr ''tool'' then [tool_role_block m]
          else (case seq_of (pget m ''content'') of None \<Rightarrow> [] | Some vs \<Rightarrow> List.map_filter is_result vs))"

definition results :: "pyval list \<Rightarrow> payload set" where
  "results ms = (\<Union>m \<in> set ms. set (message_results m))"

lemma results_simps [simp]: "results [] = {}" "results (m # ms) = set (message_results m) \<union> results ms"
  "results (xs @ ys) = results xs \<union> results ys"
  by (auto simp: results_def)

definition left_results :: "pyval option \<Rightarrow> payload set" where
  "left_results cleaned = (case cleaned of None \<Rightarrow> {} | Some c \<Rightarrow> set (message_results c))"

lemma results_at:
  assumes "n < length ms"
  shows "results ms = results (take n ms) \<union> set (message_results (ms ! n)) \<union> results (drop (Suc n) ms)"
proof -
  have "ms = take n ms @ ms ! n # drop (Suc n) ms" using assms by (rule id_take_nth_drop)
  then have "results ms = results (take n ms @ ms ! n # drop (Suc n) ms)" by (rule arg_cong)
  then show ?thesis by auto
qed

lemma results_update:
  assumes "n < length ms"
  shows "results (ms[n := c]) = results (take n ms) \<union> set (message_results c) \<union> results (drop (Suc n) ms)"
  using assms by (auto simp: upd_conv_take_nth_drop)

lemma set_map_filter: "set (List.map_filter f xs) = {y. \<exists>x \<in> set xs. f x = Some y}"
  by (induction xs) (auto simp: List.map_filter_simps split: option.splits)

lemma wanted_block_result: "wanted_block wanted v = Some b \<Longrightarrow> is_result v = Some b \<and> result_id b \<in> wanted"
  by (auto simp: wanted_block_def is_result_def split: option.splits if_splits)

lemma result_wanted: "is_result v = Some b \<Longrightarrow> result_id b \<in> wanted \<Longrightarrow> wanted_block wanted v = Some b"
  by (auto simp: wanted_block_def is_result_def split: option.splits if_splits)

text \<open>The matching blocks and those left behind are the blocks of the message.\<close>

lemma matching_results:
  assumes "matching_result_blocks message wanted = (matches, cleaned, removed)"
  shows "set (message_results message) = set matches \<union> left_results cleaned" "\<forall>b \<in> set matches. result_id b \<in> wanted"
    "\<not> removed \<Longrightarrow> matches = []"
proof -
  show "set (message_results message) = set matches \<union> left_results cleaned"
  proof (cases "mapping_of message")
    case None
    then show ?thesis using assms by (auto simp: matching_result_blocks_def left_results_def)
  next
    case (Some m)
    consider (typed) "pget m ''type'' = PStr ''tool_result''"
      | (tool) "pget m ''type'' \<noteq> PStr ''tool_result''" "pget m ''role'' = PStr ''tool''"
      | (none) "pget m ''type'' \<noteq> PStr ''tool_result''" "pget m ''role'' \<noteq> PStr ''tool''" "seq_of (pget m ''content'') = None"
      | (content) vs where "pget m ''type'' \<noteq> PStr ''tool_result''" "pget m ''role'' \<noteq> PStr ''tool''" "seq_of (pget m ''content'') = Some vs"
      by (cases "seq_of (pget m ''content'')") blast+
    then show ?thesis
    proof cases
      case typed
      then show ?thesis using assms Some by (auto simp: matching_result_blocks_def message_results_def left_results_def split: if_splits)
    next
      case tool
      then show ?thesis using assms Some
        by (auto simp: matching_result_blocks_def message_results_def left_results_def Let_def split: if_splits)
    next
      case none
      then show ?thesis using assms Some by (auto simp: matching_result_blocks_def message_results_def left_results_def)
    next
      case (content vs)
      let ?rest = "filter (\<lambda>v. wanted_block wanted v = None) vs"
      show ?thesis
      proof (cases "List.map_filter (wanted_block wanted) vs = []")
        case True
        then show ?thesis using assms Some content by (auto simp: matching_result_blocks_def left_results_def)
      next
        case False
        have matches: "matches = List.map_filter (wanted_block wanted) vs"
          "cleaned = (if ?rest = [] then None else Some (of_dict (dset ''content'' (PList ?rest) m)))"
          using assms Some content False by (simp_all add: matching_result_blocks_def Let_def)
        have all: "set (message_results message) = {b. \<exists>v \<in> set vs. is_result v = Some b}"
          using Some content by (simp add: message_results_def set_map_filter)
        have left: "left_results cleaned = {b. \<exists>v \<in> set ?rest. is_result v = Some b}"
          using content matches(2)
          by (cases "?rest = []")
            (simp_all add: left_results_def message_results_def mapping_of_of_dict set_map_filter pget_def dget_or_def filter_empty_conv
              Collect_empty_eq[symmetric])
        show ?thesis unfolding all left matches(1) set_map_filter
          using wanted_block_result by (fastforce simp: )
      qed
    qed
  qed
  show "\<forall>b \<in> set matches. result_id b \<in> wanted"
    using assms wanted_block_result
    by (fastforce simp: matching_result_blocks_def Let_def set_map_filter split: option.splits if_splits)
  show "\<not> removed \<Longrightarrow> matches = []"
    using assms by (auto simp: matching_result_blocks_def Let_def split: option.splits if_splits)
qed

lemma matching_typed:
  assumes "matching_result_blocks message wanted = (matches, cleaned, removed)"
  shows "\<forall>b \<in> set matches. pget b ''type'' = PStr ''tool_result''"
  using assms
  by (auto simp: matching_result_blocks_def Let_def set_map_filter wanted_block_def tool_role_block_def pget_def
      split: option.splits if_splits)

section \<open>Collecting late results\<close>

definition keyed :: "string set \<Rightarrow> payload pydict \<Rightarrow> bool" where
  "keyed wanted found \<longleftrightarrow> distinct (keys found)
     \<and> (\<forall>(x, b) \<in> set found. result_id b = x \<and> x \<in> wanted \<and> pget b ''type'' = PStr ''tool_result'')"

definition blocks_of :: "payload pydict \<Rightarrow> payload set" where
  "blocks_of found = snd ` set found"

lemma keyed_add:
  assumes "keyed wanted found" "dget found (result_id b) = None" "result_id b \<in> wanted" "pget b ''type'' = PStr ''tool_result''"
  shows "keyed wanted (dset (result_id b) b found)" "blocks_of (dset (result_id b) b found) = insert b (blocks_of found)"
proof -
  have fresh: "result_id b \<notin> set (keys found)" using assms(2) in_keys_map_of[of "result_id b" found] by auto
  then have "dset (result_id b) b found = found @ [(result_id b, b)]" by (rule dset_fresh)
  then show "keyed wanted (dset (result_id b) b found)" "blocks_of (dset (result_id b) b found) = insert b (blocks_of found)"
    using assms fresh by (auto simp: keyed_def blocks_of_def keys_def)
qed

lemma add_found_keyed:
  assumes "add_found bs found = Some found'" "keyed wanted found" "[] \<notin> wanted"
    "\<forall>b \<in> set bs. result_id b \<in> wanted" "\<forall>b \<in> set bs. pget b ''type'' = PStr ''tool_result''"
  shows "keyed wanted found' \<and> blocks_of found' = set bs \<union> blocks_of found"
  using assms
proof (induction bs found rule: add_found.induct)
  case (2 b bs found)
  have ne: "result_id b \<noteq> []" using "2.prems"(3,4) by auto
  have fresh: "dget found (result_id b) = None" and rest: "add_found bs (dset (result_id b) b found) = Some found'"
    using "2.prems"(1) ne by (auto split: if_splits)
  note k = keyed_add[OF "2.prems"(2) fresh]
  have "keyed wanted found' \<and> blocks_of found' = set bs \<union> blocks_of (dset (result_id b) b found)"
    using "2.IH"(2)[OF ne] fresh rest k(1) "2.prems"(3-5) by simp
  then show ?case using k(2) "2.prems"(4,5) by auto
qed simp

lemma results_take_drop: "results ms = results (take n ms) \<union> results (drop n ms)"
  using results_simps(3)[of "take n ms" "drop n ms"] by simp

lemma collect_late_results:
  assumes "collect_late i wanted k ms found None = Some (ms', found', near')" "i + k < length ms" "keyed wanted found" "[] \<notin> wanted"
  shows "keyed wanted found' \<and> i < length ms' \<and>
    (case near' of None \<Rightarrow> results ms' \<union> blocks_of found' = results ms \<union> blocks_of found
     | Some c \<Rightarrow> Suc i < length ms' \<and>
         results (take (Suc i) ms') \<union> left_results c \<union> results (drop (Suc (Suc i)) ms') \<union> blocks_of found' = results ms \<union> blocks_of found)"
  using assms
proof (induction k arbitrary: ms found)
  case 0
  then show ?case by simp
next
  case (Suc k)
  let ?n = "i + Suc k"
  obtain matches cleaned removed where m: "matching_result_blocks (ms ! ?n) wanted = (matches, cleaned, removed)"
    by (cases "matching_result_blocks (ms ! ?n) wanted") auto
  note r = matching_results[OF m] and ty = matching_typed[OF m]
  show ?case
  proof (cases removed)
    case False
    then show ?thesis using Suc.IH[of ms found] Suc.prems m by (simp add: Let_def)
  next
    case True
    then obtain found1 where f1: "add_found matches found = Some found1"
      using Suc.prems(1) m by (auto simp: Let_def split: option.splits)
    have k1: "keyed wanted found1" "blocks_of found1 = set matches \<union> blocks_of found"
      using add_found_keyed[OF f1 Suc.prems(3,4) r(2) ty] by simp_all
    have at: "results ms = results (take ?n ms) \<union> set (message_results (ms ! ?n)) \<union> results (drop (Suc ?n) ms)"
      using results_at[of ?n ms] Suc.prems(2) by simp
    show ?thesis
    proof (cases "k = 0")
      case True
      then have "ms' = ms" "found' = found1" "near' = Some cleaned"
        using Suc.prems(1) m \<open>removed\<close> f1 by (simp_all add: Let_def)
      then show ?thesis using True Suc.prems(2) k1 at r(1) by auto
    next
      case False
      let ?ms = "case cleaned of None \<Rightarrow> take ?n ms @ drop (Suc ?n) ms | Some c \<Rightarrow> ms[?n := c]"
      have step: "collect_late i wanted k ?ms found1 None = Some (ms', found', near')"
        using Suc.prems(1) m \<open>removed\<close> f1 False by (cases cleaned) (simp_all add: Let_def)
      have len: "i + k < length ?ms" using Suc.prems(2) by (cases cleaned) simp_all
      have "results ?ms = results (take ?n ms) \<union> left_results cleaned \<union> results (drop (Suc ?n) ms)"
        using Suc.prems(2) by (cases cleaned) (simp_all add: left_results_def results_update)
      then have total: "results ?ms \<union> blocks_of found1 = results ms \<union> blocks_of found"
        using at r(1) k1(2) by auto
      show ?thesis using Suc.IH[OF step len k1(1) Suc.prems(4)] unfolding total .
    qed
  qed
qed

section \<open>A repaired batch\<close>

definition invented :: "(string \<Rightarrow> string) \<Rightarrow> string set option \<Rightarrow> string list \<Rightarrow> payload set" where
  "invented digest allowed ids = {interruption_block x | x. x \<in> set ids \<and> (case allowed of None \<Rightarrow> True | Some hs \<Rightarrow> digest x \<in> hs)}"

lemma interruption_typed: "pget (interruption_block x) ''type'' = PStr ''tool_result''"
  by (simp add: interruption_block_def pget_def)

lemma result_blocks_set:
  assumes "result_blocks digest allowed found ids = Some bs" "keyed (set ids) found"
  shows "blocks_of found \<subseteq> set bs" "set bs \<subseteq> blocks_of found \<union> invented digest allowed ids" "\<forall>b \<in> set bs. pget b ''type'' = PStr ''tool_result''"
proof -
  have all: "\<forall>x \<in> set ids. dget found x \<noteq> None \<or> (case allowed of None \<Rightarrow> True | Some hs \<Rightarrow> digest x \<in> hs)"
    and bs: "bs = map (\<lambda>x. case dget found x of Some b \<Rightarrow> b | None \<Rightarrow> interruption_block x) ids"
    using assms(1) by (auto simp: result_blocks_def split: if_splits)
  show "blocks_of found \<subseteq> set bs"
  proof
    fix b assume "b \<in> blocks_of found"
    then obtain x where x: "(x, b) \<in> set found" by (auto simp: blocks_of_def)
    then have "x \<in> set ids" "dget found x = Some b" using assms(2) by (auto simp: keyed_def keys_def map_of_eq_Some_iff)
    then show "b \<in> set bs" using bs by force
  qed
  show "set bs \<subseteq> blocks_of found \<union> invented digest allowed ids"
  proof
    fix b assume "b \<in> set bs"
    then obtain x where x: "x \<in> set ids" "b = (case dget found x of Some b \<Rightarrow> b | None \<Rightarrow> interruption_block x)" using bs by auto
    show "b \<in> blocks_of found \<union> invented digest allowed ids"
    proof (cases "dget found x")
      case None
      then show ?thesis using x all by (auto simp: invented_def)
    next
      case (Some c)
      then show ?thesis using x map_of_SomeD[OF Some] by (force simp: blocks_of_def)
    qed
  qed
  show "\<forall>b \<in> set bs. pget b ''type'' = PStr ''tool_result''"
  proof
    fix b assume "b \<in> set bs"
    then obtain x where x: "x \<in> set ids" "b = (case dget found x of Some b \<Rightarrow> b | None \<Rightarrow> interruption_block x)" using bs by auto
    show "pget b ''type'' = PStr ''tool_result''"
    proof (cases "dget found x")
      case None
      then show ?thesis using x interruption_typed by simp
    next
      case (Some c)
      then show ?thesis using x map_of_SomeD[OF Some] assms(2) by (auto simp: keyed_def)
    qed
  qed
qed

lemma message_of_blocks:
  assumes "\<forall>b \<in> set bs. pget b ''type'' = PStr ''tool_result''"
  shows "set (message_results (of_dict [(''role'', PStr ''user''), (''content'', PList (map of_dict bs))])) = set bs"
proof -
  have "is_result (of_dict b) = Some b" if "b \<in> set bs" for b using assms that by (simp add: is_result_def mapping_of_of_dict)
  then show ?thesis by (auto simp: message_results_def mapping_of_of_dict pget_def dget_or_def set_map_filter)
qed

lemma repair_batch_results:
  assumes "repair_batch digest allowed i ids ms = Some ms'" "i < length ms" "[] \<notin> set ids"
  shows "results ms \<subseteq> results ms'" "results ms' \<subseteq> results ms \<union> invented digest allowed ids"
proof -
  obtain ms1 found near where c: "collect_late i (set ids) (length ms - 1 - i) ms [] None = Some (ms1, found, near)"
    using assms(1) by (auto simp: repair_batch_def split: option.splits)
  define ms2 where "ms2 = (case near of None \<Rightarrow> ms1
                  | Some None \<Rightarrow> take (Suc i) ms1 @ drop (Suc (Suc i)) ms1
                  | Some (Some c) \<Rightarrow> ms1[Suc i := c])"
  obtain bs where b: "result_blocks digest allowed found ids = Some bs"
      "ms' = take (Suc i) ms2 @ [of_dict [(''role'', PStr ''user''), (''content'', PList (map of_dict bs))]] @ drop (Suc i) ms2"
    using assms(1) c by (auto simp: repair_batch_def Let_def ms2_def split: option.splits)
  have inv: "keyed (set ids) found" "i < length ms1" and near:
     "case near of None \<Rightarrow> results ms1 \<union> blocks_of found = results ms
     | Some c \<Rightarrow> Suc i < length ms1 \<and>
         results (take (Suc i) ms1) \<union> left_results c \<union> results (drop (Suc (Suc i)) ms1) \<union> blocks_of found = results ms"
    using collect_late_results[OF c] assms(2,3) by (cases near; simp add: keyed_def blocks_of_def keys_def)+
  have two: "results ms2 \<union> blocks_of found = results ms"
  proof (cases near)
    case None
    then show ?thesis using near by (simp add: ms2_def)
  next
    case (Some c)
    then show ?thesis using near by (cases c) (simp_all add: ms2_def left_results_def results_update)
  qed
  have "results ms' = results ms2 \<union> set bs"
    using b(2) message_of_blocks[OF result_blocks_set(3)[OF b(1) inv(1)]] results_take_drop[of ms2 "Suc i"] by auto
  then show "results ms \<subseteq> results ms'" "results ms' \<subseteq> results ms \<union> invented digest allowed ids"
    using two result_blocks_set(1,2)[OF b(1) inv(1)] by auto
qed

lemma repair_all_results:
  assumes "repair_all digest allowed xs ms changed = Some (ms', c)" "list_all (\<lambda>x. [] \<notin> set (is_expected_ids x)) xs"
  shows "results ms \<subseteq> results ms' \<and> results ms' \<subseteq> results ms \<union> invented digest allowed (concat (map is_expected_ids xs))"
  using assms
proof (induction xs arbitrary: ms changed)
  case (Cons x xs)
  have mono: "invented digest allowed ids \<subseteq> invented digest allowed (concat (map is_expected_ids (x # xs)))"
    if "set ids \<subseteq> set (concat (map is_expected_ids (x # xs)))" for ids
    using that unfolding invented_def by blast
  consider (skip) "repair_all digest allowed xs ms changed = Some (ms', c)"
    | (batch) i ms1 where "is_assistant_index x = Some i" "\<not> (is_expected_ids x = [] \<or> i < 0 \<or> int (length ms) \<le> i)"
        "repair_batch digest allowed (nat i) (is_expected_ids x) ms = Some ms1" "repair_all digest allowed xs ms1 True = Some (ms', c)"
    using Cons.prems(1) by (auto split: option.splits if_splits)
  then show ?case
  proof cases
    case skip
    have "list_all (\<lambda>x. [] \<notin> set (is_expected_ids x)) xs" using Cons.prems(2) by simp
    then have "results ms \<subseteq> results ms' \<and> results ms' \<subseteq> results ms \<union> invented digest allowed (concat (map is_expected_ids xs))"
      by (rule Cons.IH[OF skip])
    then show ?thesis using mono[of "concat (map is_expected_ids xs)"] by auto
  next
    case (batch i ms1)
    let ?all = "invented digest allowed (concat (map is_expected_ids (x # xs)))"
    have rest: "results ms1 \<subseteq> results ms'" "results ms' \<subseteq> results ms1 \<union> invented digest allowed (concat (map is_expected_ids xs))"
      using Cons.IH[OF batch(4)] Cons.prems(2) by simp_all
    have len: "nat i < length ms" using batch(2) by linarith
    have one: "results ms \<subseteq> results ms1" "results ms1 \<subseteq> results ms \<union> invented digest allowed (is_expected_ids x)"
      using repair_batch_results[OF batch(3) len] Cons.prems(2) by simp_all
    have sub: "invented digest allowed (concat (map is_expected_ids xs)) \<subseteq> ?all" "invented digest allowed (is_expected_ids x) \<subseteq> ?all"
      by (rule mono, simp)+
    show ?thesis using rest one sub by blast
  qed
qed simp

section \<open>The gate in front of the provider\<close>

lemma commit_repaired_done:
  assumes "commit_repaired la tid event ms s m = (Inr u, m')"
  shows "mem_messages m' = ms" "history_ok la ms" "mem_recovery m' = mem_recovery m"
proof -
  show ok: "history_ok la ms" using assms by (auto simp: commit_repaired_def split: if_splits)
  obtain j where j: "replace_state tid ms s (mem_journal m) = (Inr (), j)"
    using assms ok by (auto simp: commit_repaired_def mbind_def on_journal_def split: prod.splits sum.splits)
  have "mem_messages m' = ms \<and> mem_recovery m' = mem_recovery m"
    using assms ok j
    by (cases "mem_exchange m")
      (auto simp: commit_repaired_def mbind_def on_journal_def on_tool_exchange_aborted_def Let_def split: prod.splits sum.splits if_splits)
  then show "mem_messages m' = ms" "mem_recovery m' = mem_recovery m" by simp_all
qed

lemma repair_candidate_ok: "repair_candidate la pending ms = Inr ms' \<Longrightarrow> history_ok la ms'"
  by (auto simp: repair_candidate_def Let_def split: if_splits)

lemma blocked_not_ready: "\<not> provider_ready (blocked_state la error ms)"
  by (simp add: provider_ready_def blocked_state_def Let_def)

text \<open>A retry ends ready only on a history that validates; it ends as repaired only when it wrote another one.\<close>

lemma retry_ready:
  assumes "provider_ready (mem_recovery (retry_tool_history_recovery la tid event m))" "rs_status (mem_recovery m) \<noteq> JournalCorrupt"
  shows "history_ok la (mem_messages (retry_tool_history_recovery la tid event m))"
    "rs_status (mem_recovery (retry_tool_history_recovery la tid event m)) = HistoryReady \<Longrightarrow>
      mem_messages (retry_tool_history_recovery la tid event m) = mem_messages m"
proof -
  obtain r j where a: "on_journal fold_pending_tool_exchange_call_hashes m = (r, m\<lparr>mem_journal := j\<rparr>)" using on_journal_run .
  obtain pending where r: "r = Inr pending"
    using assms a blocked_not_ready by (cases r) (auto simp: retry_tool_history_recovery_def Let_def)
  obtain cand where c: "repair_candidate la pending (mem_messages m) = Inr cand"
    using assms a r blocked_not_ready
    by (cases "repair_candidate la pending (mem_messages m)") (auto simp: retry_tool_history_recovery_def Let_def)
  have ok: "history_ok la cand" by (rule repair_candidate_ok[OF c])
  have "history_ok la (mem_messages (retry_tool_history_recovery la tid event m))
    \<and> (rs_status (mem_recovery (retry_tool_history_recovery la tid event m)) = HistoryReady \<longrightarrow>
      mem_messages (retry_tool_history_recovery la tid event m) = mem_messages m)"
  proof (cases "cand = mem_messages m")
    case True
    then show ?thesis using assms(2) a r c ok by (simp add: retry_tool_history_recovery_def Let_def)
  next
    case False
    obtain r2 m2 where e: "commit_repaired la tid event cand (mem_summary m) (m\<lparr>mem_journal := j\<rparr>) = (r2, m2)"
      by (cases "commit_repaired la tid event cand (mem_summary m) (m\<lparr>mem_journal := j\<rparr>)") blast
    obtain u where "r2 = Inr u"
      using assms a r c False e blocked_not_ready by (cases r2) (auto simp: retry_tool_history_recovery_def Let_def)
    then show ?thesis using assms(2) a r c False e ok commit_repaired_done(1)[of la tid event cand]
      by (simp add: retry_tool_history_recovery_def Let_def)
  qed
  then show "history_ok la (mem_messages (retry_tool_history_recovery la tid event m))"
    "rs_status (mem_recovery (retry_tool_history_recovery la tid event m)) = HistoryReady \<Longrightarrow>
      mem_messages (retry_tool_history_recovery la tid event m) = mem_messages m"
    by simp_all
qed

lemma retry_corrupt:
  "rs_status (mem_recovery m) = JournalCorrupt \<Longrightarrow> retry_tool_history_recovery la tid event m = m"
  by (simp add: retry_tool_history_recovery_def)

section \<open>The turn to resume\<close>

definition goes_on :: "pyval \<Rightarrow> payload \<Rightarrow> bool" where
  "goes_on turn e \<longleftrightarrow> pget e ''kind'' \<noteq> PStr ''turn_started''
     \<and> (pget e ''kind'' \<in> {PStr ''turn_completed'', PStr ''turn_aborted'', PStr ''turn_failed'', PStr ''turn_recovered''}
         \<longrightarrow> dget e ''turn_id'' \<noteq> None \<and> dget e ''turn_id'' \<noteq> Some turn)
     \<and> (pget e ''kind'' = PStr ''tool_recorded'' \<longrightarrow> dget e ''turn_id'' \<noteq> None \<and> dget e ''key'' \<noteq> None)"

fun tools_recorded :: "pyval \<Rightarrow> payload list \<Rightarrow> (pyval \<times> pyval) list" where
  "tools_recorded turn [] = []"
| "tools_recorded turn (e # es) =
     (if pget e ''kind'' = PStr ''tool_recorded'' \<and> pget e ''turn_id'' = turn then (pget e ''key'', pget e ''result'') # tools_recorded turn es
      else tools_recorded turn es)"

lemma find_SomeD: "find P xs = Some x \<Longrightarrow> P x"
  by (auto simp: find_Some_iff)

lemma item_Some: "dget e k \<noteq> None \<Longrightarrow> item e k = Inr (pget e k)"
  by (auto simp: item_def pget_def dget_or_def)

lemma resume_entry_goes_on:
  assumes "goes_on turn e" "turn \<noteq> PNone"
  obtains rf' where "resume_entry jt e rf = Inr rf'" "rf_started rf' = rf_started rf" "rf_runs rf' = rf_runs rf" "rf_kinds rf' = rf_kinds rf"
    "turn \<in> rf_completed rf' \<longleftrightarrow> turn \<in> rf_completed rf"
    "dget_or (rf_records rf') turn [] = dget_or (rf_records rf) turn [] @ tools_recorded turn [e]"
proof -
  let ?kind = "pget e ''kind''"
  consider (ended) "?kind \<in> {PStr ''turn_completed'', PStr ''turn_aborted'', PStr ''turn_failed'', PStr ''turn_recovered''}"
    | (tool) "?kind = PStr ''tool_recorded''"
    | (other) "?kind \<notin> {PStr ''turn_completed'', PStr ''turn_aborted'', PStr ''turn_failed'', PStr ''turn_recovered'', PStr ''tool_recorded''}"
    by blast
  then show ?thesis
  proof cases
    case ended
    then have turn: "dget e ''turn_id'' \<noteq> None" "pget e ''turn_id'' \<noteq> turn"
      using assms by (auto simp: goes_on_def pget_def dget_or_def)
    then show ?thesis using ended
      by (intro that[of "rf\<lparr>rf_completed := insert (pget e ''turn_id'') (rf_completed rf)\<rparr>"])
        (auto simp: resume_entry_def Let_def item_Some)
  next
    case tool
    then have "dget e ''turn_id'' \<noteq> None" "dget e ''key'' \<noteq> None" using assms(1) by (auto simp: goes_on_def)
    then show ?thesis using tool
      by (intro that[of "rf\<lparr>rf_records := dset (pget e ''turn_id'') (dget_or (rf_records rf) (pget e ''turn_id'') [] @ [(pget e ''key'', pget e ''result'')]) (rf_records rf)\<rparr>"])
        (auto simp: resume_entry_def Let_def item_Some dget_or_dset)
  next
    case other
    then have "?kind \<noteq> PStr ''turn_started''" using assms(1) by (simp add: goes_on_def)
    then have "\<exists>rf'. resume_entry jt e rf = Inr rf' \<and> rf_started rf' = rf_started rf \<and> rf_runs rf' = rf_runs rf
        \<and> rf_kinds rf' = rf_kinds rf \<and> rf_completed rf' = rf_completed rf \<and> rf_records rf' = rf_records rf"
      using other
      by (cases "?kind = PStr ''step_committed''"; cases "?kind = PStr ''step_interrupted''"; cases "text_field (jt_float jt) e ''turn_id'' [] = []")
        (simp_all add: resume_entry_def Let_def)
    then obtain rf' where "resume_entry jt e rf = Inr rf'" "rf_started rf' = rf_started rf" "rf_runs rf' = rf_runs rf"
        "rf_kinds rf' = rf_kinds rf" "rf_completed rf' = rf_completed rf" "rf_records rf' = rf_records rf"
      by blast
    then show ?thesis using that other by simp
  qed
qed

lemma resume_lines_append:
  assumes "resume_lines jt (map JObj es) rf = Inr rf'"
  shows "resume_lines jt (map JObj es @ ls) rf = resume_lines jt ls rf'"
  using assms
proof (induction es arbitrary: rf)
  case (Cons e es)
  then show ?case by (cases "resume_entry jt e rf") auto
qed simp

lemma resume_goes_on:
  assumes "list_all (goes_on turn) es" "turn \<noteq> PNone"
  shows "\<exists>rf'. resume_lines jt (map JObj es) rf = Inr rf' \<and> rf_started rf' = rf_started rf \<and> rf_runs rf' = rf_runs rf
    \<and> rf_kinds rf' = rf_kinds rf \<and> (turn \<in> rf_completed rf' \<longleftrightarrow> turn \<in> rf_completed rf)
    \<and> dget_or (rf_records rf') turn [] = dget_or (rf_records rf) turn [] @ tools_recorded turn es"
  using assms
proof (induction es arbitrary: rf)
  case (Cons e es)
  have "goes_on turn e" using Cons.prems(1) by simp
  then obtain rf1 where "resume_entry jt e rf = Inr rf1" "rf_started rf1 = rf_started rf" "rf_runs rf1 = rf_runs rf" "rf_kinds rf1 = rf_kinds rf"
    "turn \<in> rf_completed rf1 \<longleftrightarrow> turn \<in> rf_completed rf"
    "dget_or (rf_records rf1) turn [] = dget_or (rf_records rf) turn [] @ tools_recorded turn [e]"
    by (rule resume_entry_goes_on[OF _ Cons.prems(2)])
  then show ?case using Cons.IH[of rf1] Cons.prems by (auto split: if_splits)
qed simp

definition untouched :: "pyval \<Rightarrow> resume_fold \<Rightarrow> bool" where
  "untouched tid rf \<longleftrightarrow> tid \<notin> rf_completed rf \<and> dget (rf_records rf) tid = None \<and> dget (rf_runs rf) tid = None
     \<and> dget (rf_kinds rf) tid = None"

lemma setdefault_other: "k \<noteq> k' \<Longrightarrow> dget (setdefault k v d) k' = dget d k'"
  by (simp add: setdefault_def)

lemma turn_run_other: "k \<noteq> tid \<Longrightarrow> dget (turn_run e tid runs) k = dget runs k"
  by (auto simp: turn_run_def setdefault_other split: pyval.split)

lemma turn_kind_other: "k \<noteq> tid \<Longrightarrow> dget (turn_kind e tid runs kinds) k = dget kinds k"
  by (simp add: turn_kind_def setdefault_other)

lemma item_dget: "item e k = Inr v \<Longrightarrow> dget e k = Some v"
  by (auto simp: item_def split: option.splits)

lemma resume_turn_untouched:
  assumes "resume_turn_started jt e rf = Inr rf'" "dget e ''turn_id'' \<noteq> Some tid" "untouched tid rf"
  shows "untouched tid rf'"
proof -
  obtain t where t: "item e ''turn_id'' = Inr t" using assms(1) by (auto simp: resume_turn_started_def bindE_eq_Inr_iff)
  then have ne: "t \<noteq> tid" using assms(2) item_dget by blast
  then show ?thesis using assms(1,3) t
    by (auto simp: resume_turn_started_def bindE_eq_Inr_iff untouched_def Let_def setdefault_other turn_run_other turn_kind_other
        split: option.splits)
qed

lemma resume_untouched:
  assumes "resume_lines jt (map JObj es) rf0 = Inr rf" "list_all (\<lambda>e. dget e ''turn_id'' \<noteq> Some tid) es" "untouched tid rf0"
  shows "untouched tid rf"
  using assms
proof (induction es arbitrary: rf0)
  case (Cons e es)
  obtain rf1 where rf1: "resume_entry jt e rf0 = Inr rf1" "resume_lines jt (map JObj es) rf1 = Inr rf"
    using Cons.prems(1) by (auto simp: bindE_eq_Inr_iff)
  have ne: "dget e ''turn_id'' \<noteq> Some tid" using Cons.prems(2) by simp
  have "untouched tid rf1"
  proof (cases "pget e ''kind'' = PStr ''turn_started''")
    case True
    then have "resume_turn_started jt e rf0 = Inr rf1" using rf1(1) by (simp add: resume_entry_def Let_def)
    then show ?thesis by (rule resume_turn_untouched[OF _ ne Cons.prems(3)])
  next
    case False
    then show ?thesis using rf1(1) ne Cons.prems(3)
      by (auto simp: resume_entry_def Let_def bindE_eq_Inr_iff untouched_def dest: item_dget split: if_splits)
  qed
  then show ?case using Cons.IH[OF rf1(2)] Cons.prems(2) by simp
qed simp

definition start_entry :: "string \<Rightarrow> pyval \<Rightarrow> int \<Rightarrow> string \<Rightarrow> int \<Rightarrow> string \<Rightarrow> payload" where
  "start_entry turn user_message base_count conversation cursor run = [(''kind'', PStr ''turn_started''), (''schema_version'', PInt 3),
       (''execution_kind'', PStr (if run \<noteq> [] then ''workflow'' else ''direct'')), (''turn_id'', PStr (take 128 turn)),
       (''conversation_id'', PStr (take 128 conversation)), (''user_message'', user_message),
       (''base_count'', PInt (max 0 base_count)), (''base_cursor'', PInt cursor)]
       @ (if run \<noteq> [] then [(''workflow_run_id'', PStr (take 128 run))] else [])"

lemma resume_turn_fields:
  assumes "untouched tid rf" "item e ''turn_id'' = Inr tid"
    "dget_or e ''base_count'' (PInt 0) = PInt n" "dget_or e ''user_message'' (PStr []) = um"
    "pget e ''execution_kind'' = PStr (if run \<noteq> [] then ''workflow'' else ''direct'')"
    "pget e ''workflow_run_id'' = (if run \<noteq> [] then PStr run else PNone)"
  shows "\<exists>rf'. resume_turn_started jt e rf = Inr rf' \<and> rf_started rf' = rf_started rf @ [(tid, um, n)]
    \<and> dget (rf_runs rf') tid = Some (if run \<noteq> [] then Some (take 128 run) else None)
    \<and> dget (rf_kinds rf') tid = Some (Some (if run \<noteq> [] then ''workflow'' else ''direct''))
    \<and> dget (rf_records rf') tid = Some [] \<and> tid \<notin> rf_completed rf'"
  using assms
  by (cases "run = []") (simp_all add: resume_turn_started_def Let_def untouched_def setdefault_def turn_run_def turn_kind_def)

lemma resume_new_turn:
  assumes "untouched (PStr (take 128 turn)) rf"
  shows "\<exists>rf'. resume_entry jt (stamped j (start_entry turn um n conv c run)) rf = Inr rf'
    \<and> rf_started rf' = rf_started rf @ [(PStr (take 128 turn), um, max 0 n)]
    \<and> dget (rf_runs rf') (PStr (take 128 turn)) = Some (if run \<noteq> [] then Some (take 128 run) else None)
    \<and> dget (rf_kinds rf') (PStr (take 128 turn)) = Some (Some (if run \<noteq> [] then ''workflow'' else ''direct''))
    \<and> dget (rf_records rf') (PStr (take 128 turn)) = Some [] \<and> PStr (take 128 turn) \<notin> rf_completed rf'"
proof -
  let ?e = "stamped j (start_entry turn um n conv c run)"
  have "resume_entry jt ?e rf = resume_turn_started jt ?e rf"
    by (simp add: resume_entry_def Let_def start_entry_def pget_def dget_or_def)
  moreover have "item ?e ''turn_id'' = Inr (PStr (take 128 turn))" "dget_or ?e ''base_count'' (PInt 0) = PInt (max 0 n)"
    "dget_or ?e ''user_message'' (PStr []) = um" "pget ?e ''execution_kind'' = PStr (if take 128 run \<noteq> [] then ''workflow'' else ''direct'')"
    "pget ?e ''workflow_run_id'' = (if take 128 run \<noteq> [] then PStr (take 128 run) else PNone)"
    by (simp_all add: start_entry_def stamped_def pget_def dget_or_def item_def)
  ultimately show ?thesis using resume_turn_fields[OF assms, of ?e "max 0 n" um "take 128 run" jt]
    by (cases "run = []") simp_all
qed

section \<open>Properties\<close>

text \<open>
  C20. No provider request starts on a history that does not validate: when the check in front of it returns, the
  messages validate, and they are the ones from before unless it reports a repair; when it raises, the memory
  stays blocked.
\<close>

theorem memory_provider_gate:
  assumes "ensure_provider_ready la tid event m = (r, m')"
  shows "case r of Inr b \<Rightarrow> history_ok la (mem_messages m') \<and> (b \<or> mem_messages m' = mem_messages m)
     | Inl err \<Rightarrow> \<not> provider_ready (mem_recovery m')"
proof (cases "provider_ready (mem_recovery m) \<and> history_ok la (mem_messages m)")
  case True
  then show ?thesis using assms by (auto simp: ensure_provider_ready_def)
next
  case False
  let ?m = "retry_tool_history_recovery la tid event m"
  show ?thesis
  proof (cases "provider_ready (mem_recovery ?m)")
    case ready: True
    then have "rs_status (mem_recovery m) \<noteq> JournalCorrupt"
      using retry_corrupt[of m la tid event] by (auto simp: provider_ready_def)
    note retry_ready[OF ready this]
    then show ?thesis using assms False ready by (auto simp: ensure_provider_ready_def Let_def provider_ready_def)
  next
    case blocked: False
    then show ?thesis using assms False by (auto simp: ensure_provider_ready_def Let_def)
  qed
qed

text \<open>
  C21. Reordering late tool results loses no result and makes none up: every result block of the history, wherever
  a provider put it, is in the repaired history, and every block of the repaired history is one of them or the
  error that names the interruption of a call the validator expected, and, when there is a list of calls that may be
  answered so, one on that list.
\<close>

theorem memory_repair_results:
  assumes "repair_non_adjacent digest allowed issues ms = Some ms'" "list_all (\<lambda>x. [] \<notin> set (is_expected_ids x)) issues"
  shows "results ms \<subseteq> results ms' \<and> results ms' \<subseteq> results ms \<union>
    {interruption_block x | x i. i \<in> set issues \<and> is_code i = ''non_adjacent_results'' \<and> x \<in> set (is_expected_ids i)
      \<and> (case allowed of None \<Rightarrow> True | Some hs \<Rightarrow> digest x \<in> hs)}"
proof -
  have "repair_all digest allowed (batches issues) ms False = Some (ms', True)"
    using assms(1) by (auto simp: repair_non_adjacent_def split: option.splits bool.splits prod.splits)
  moreover have "list_all (\<lambda>x. [] \<notin> set (is_expected_ids x)) (batches issues)" using assms(2) by (auto simp: batches_def list_all_iff)
  ultimately have "results ms \<subseteq> results ms' \<and> results ms' \<subseteq> results ms \<union> invented digest allowed (concat (map is_expected_ids (batches issues)))"
    by (rule repair_all_results)
  moreover have "invented digest allowed (concat (map is_expected_ids (batches issues)))
    \<subseteq> {interruption_block x | x i. i \<in> set issues \<and> is_code i = ''non_adjacent_results'' \<and> x \<in> set (is_expected_ids i)
      \<and> (case allowed of None \<Rightarrow> True | Some hs \<Rightarrow> digest x \<in> hs)}"
    by (auto simp: invented_def batches_def)
  ultimately show ?thesis by blast
qed

text \<open>
  C22. A restarted process resumes the turn that was running. After \<open>turn_started\<close> of a new turn, whatever else is
  journaled, as long as no other turn starts and none of the records ends this one, the file gives back this
  turn with its message, the message count it started from, its kind and workflow run, and exactly the
  tool results recorded for it, in order; after a record that ends it, it is not resumed.
\<close>

theorem journal_resume:
  assumes "clean j" "content j = map JObj old" "resume_lines jt (map JObj old) resume_start = Inr rf"
    "list_all (\<lambda>e. dget e ''turn_id'' \<noteq> Some (PStr (take 128 turn))) old"
    "turn_started turn user_message base_count conversation cursor run j = (Inr (), j1)"
    "list_all (goes_on (PStr (take 128 turn))) es" "read_lines f = content j1 @ map JObj es"
    "read_lines f' = read_lines f @ [JObj e]" "dget e ''turn_id'' = Some (PStr (take 128 turn))"
    "pget e ''kind'' \<in> {PStr ''turn_completed'', PStr ''turn_aborted'', PStr ''turn_failed'', PStr ''turn_recovered''}"
  shows "\<exists>t. fold_resume_state jt f = Inr (Some t) \<and> it_turn_id t = PStr (take 128 turn) \<and> it_user_message t = user_message
      \<and> it_base_count t = max 0 base_count \<and> it_tool_records t = tools_recorded (PStr (take 128 turn)) es
      \<and> it_execution_kind t = Some (if run \<noteq> [] then ''workflow'' else ''direct'')
      \<and> it_workflow_run_id t = (if run \<noteq> [] then Some (take 128 run) else None)
      \<and> (\<exists>x. fold_resume_state jt f' = Inr x \<and> map_option it_turn_id x \<noteq> Some (PStr (take 128 turn)))"
proof -
  let ?tid = "PStr (take 128 turn)"
  define start where "start = start_entry turn user_message base_count conversation (case cursor of None \<Rightarrow> j_seq j | Some c \<Rightarrow> c) run"
  have go: "journal_emit start j = (Inr (), j1)" using assms(5) by (simp add: turn_started_def start_def start_entry_def)
  have c1: "content j1 = map JObj old @ [JObj (stamped j start)]"
    using assms(1)
  proof (cases rule: emit_clean[of j start])
    case (ok j')
    then show ?thesis using go assms(2) by simp
  next
    case (failed err j')
    then show ?thesis using go by simp
  qed
  have new: "untouched ?tid rf" by (rule resume_untouched[OF assms(3,4)]) (simp add: untouched_def resume_start_def)
  obtain rf1 where rf1: "resume_entry jt (stamped j start) rf = Inr rf1" "rf_started rf1 = rf_started rf @ [(?tid, user_message, max 0 base_count)]"
      "dget (rf_runs rf1) ?tid = Some (if run \<noteq> [] then Some (take 128 run) else None)"
      "dget (rf_kinds rf1) ?tid = Some (Some (if run \<noteq> [] then ''workflow'' else ''direct''))"
      "dget (rf_records rf1) ?tid = Some []" "?tid \<notin> rf_completed rf1"
    using resume_new_turn[OF new, of jt j user_message base_count conversation "case cursor of None \<Rightarrow> j_seq j | Some c \<Rightarrow> c" run]
    unfolding start_def by blast
  obtain rf2 where rf2: "resume_lines jt (map JObj es) rf1 = Inr rf2" "rf_started rf2 = rf_started rf1" "rf_runs rf2 = rf_runs rf1"
      "rf_kinds rf2 = rf_kinds rf1" "?tid \<notin> rf_completed rf2"
      "dget_or (rf_records rf2) ?tid [] = dget_or (rf_records rf1) ?tid [] @ tools_recorded ?tid es"
    using resume_goes_on[OF assms(6), of jt rf1] rf1(6) by auto
  have all: "resume_lines jt (read_lines f @ ls) resume_start = resume_lines jt ls rf2" for ls
  proof -
    have "resume_lines jt (read_lines f @ ls) resume_start = resume_lines jt (map JObj old @ JObj (stamped j start) # map JObj es @ ls) resume_start"
      using assms(7) c1 by simp
    also have "\<dots> = resume_lines jt (map JObj es @ ls) rf1" using resume_lines_append[OF assms(3)] rf1(1) by simp
    also have "\<dots> = resume_lines jt ls rf2" by (rule resume_lines_append[OF rf2(1)])
    finally show ?thesis .
  qed
  have started: "rf_started rf2 = rf_started rf @ [(?tid, user_message, max 0 base_count)]" using rf2(2) rf1(2) by simp
  have "fold_resume_state jt f = Inr (Some (turn_of rf2 (?tid, user_message, max 0 base_count)))"
    using all[of "[]"] started rf2(5) by (simp add: fold_resume_state_def)
  moreover have "\<exists>x. fold_resume_state jt f' = Inr x \<and> map_option it_turn_id x \<noteq> Some ?tid"
  proof -
    let ?rf = "rf2\<lparr>rf_completed := insert ?tid (rf_completed rf2)\<rparr>"
    have "resume_entry jt e rf2 = Inr ?rf" using assms(9,10) by (auto simp: resume_entry_def Let_def item_def)
    then have "resume_lines jt (read_lines f') resume_start = Inr ?rf" using all[of "[JObj e]"] assms(8) by simp
    then show ?thesis by (auto simp: fold_resume_state_def turn_of_def Let_def dest!: find_SomeD)
  qed
  ultimately show ?thesis using rf1 rf2 by (simp add: turn_of_def Let_def dget_or_def)
qed

section \<open>Witnesses\<close>

text \<open>A validator that finds an unanswered call in one history, and the repair that answers it.\<close>

definition demo_lauren :: lauren where
  "demo_lauren = \<lparr>la_report = (\<lambda>ms. if ms = [PStr ''call''] then [\<lparr>is_code = ''missing_results'', is_assistant_index = Some 0,
       is_expected_ids = [''c1''], is_observed_ids = [], is_repairable = True\<rparr>] else []),
     la_heal = (\<lambda>ms. if ms = [PStr ''call''] then [PStr ''call'', PStr ''result''] else ms), la_digest = (\<lambda>x. x)\<rparr>"

definition demo_blocked :: memory where
  "demo_blocked = \<lparr>mem_messages = [PStr ''call''], mem_summary = PNone, mem_exchange = None,
     mem_recovery = \<lparr>rs_status = RepairRequired, rs_issue_codes = [''missing_results''], rs_repair_attempted = True\<rparr>,
     mem_journal = journal_open \<lparr>jf_lines = [JObj (append_entry (PStr ''call'') [])], jf_tail = Clean\<rparr> []\<rparr>"

theorem memory_provider_gate_witness:
  "history_ok demo_lauren (mem_messages (snd (ensure_provider_ready demo_lauren ''t'' (\<lambda>x b. x) demo_blocked)))
    \<and> fst (ensure_provider_ready demo_lauren ''t'' (\<lambda>x b. x) demo_blocked) = Inr True"
proof -
  have "fst (ensure_provider_ready demo_lauren ''t'' (\<lambda>x b. x) demo_blocked) = Inr True" by code_simp
  then show ?thesis
    using memory_provider_gate[OF prod.collapse[symmetric], of demo_lauren "''t''" "\<lambda>x b. x" demo_blocked] by simp
qed

definition late_result :: payload where
  "late_result = [(''type'', PStr ''tool_result''), (''tool_use_id'', PStr ''c1''), (''content'', PStr ''ok'')]"

definition late_history :: "pyval list" where
  "late_history = [of_dict [(''role'', PStr ''assistant'')], of_dict [(''role'', PStr ''user''), (''content'', PStr ''go on'')],
     of_dict [(''role'', PStr ''user''), (''content'', PList [of_dict late_result])]]"

definition late_issue :: issue where
  "late_issue = \<lparr>is_code = ''non_adjacent_results'', is_assistant_index = Some 0, is_expected_ids = [''c1'', ''c2''],
     is_observed_ids = [''c1''], is_repairable = True\<rparr>"

theorem memory_repair_results_witness:
  "\<exists>ms'. repair_non_adjacent (\<lambda>x. x) (Some {''c2''}) [late_issue] late_history = Some ms' \<and> late_result \<in> results ms'"
proof -
  let ?ms = "[of_dict [(''role'', PStr ''assistant'')],
     of_dict [(''role'', PStr ''user''), (''content'', PList [of_dict late_result, of_dict (interruption_block ''c2'')])],
     of_dict [(''role'', PStr ''user''), (''content'', PStr ''go on'')]]"
  have run: "repair_non_adjacent (\<lambda>x. x) (Some {''c2''}) [late_issue] late_history = Some ?ms" by code_simp
  have "list_all (\<lambda>x. [] \<notin> set (is_expected_ids x)) [late_issue]" by code_simp
  from memory_repair_results[OF run this] have "results late_history \<subseteq> results ?ms" by (rule conjunct1)
  moreover have "late_result \<in> results late_history"
    by (simp add: late_history_def message_results_def is_result_def mapping_of_of_dict pget_def dget_or_def late_result_def
        List.map_filter_simps)
  ultimately show ?thesis using run by blast
qed

definition demo_started :: journal where
  "demo_started = snd (turn_started ''t1'' (PStr ''hello'') 2 [] None [] (journal_open \<lparr>jf_lines = [], jf_tail = Clean\<rparr> []))"

definition demo_tool :: payload where
  "demo_tool = [(''kind'', PStr ''tool_recorded''), (''turn_id'', PStr ''t1''), (''key'', PStr ''k''), (''result'', PInt 7)]"

definition demo_finish :: payload where
  "demo_finish = [(''kind'', PStr ''turn_completed''), (''turn_id'', PStr ''t1'')]"

definition plain_text :: json_text where
  "plain_text = \<lparr>jt_float = (\<lambda>_. []), jt_parse_int = (\<lambda>_. None), jt_parse_float = (\<lambda>_. None)\<rparr>"

theorem journal_resume_witness:
  "\<exists>t. fold_resume_state plain_text \<lparr>jf_lines = content demo_started @ [JObj demo_tool], jf_tail = Clean\<rparr> = Inr (Some t)
    \<and> it_turn_id t = PStr ''t1'' \<and> it_base_count t = 2 \<and> it_tool_records t = [(PStr ''k'', PInt 7)]"
proof -
  let ?j = "journal_open \<lparr>jf_lines = [], jf_tail = Clean\<rparr> []"
  have "clean ?j" "content ?j = map JObj []" "resume_lines plain_text (map JObj []) resume_start = Inr resume_start"
    "list_all (\<lambda>e. dget e ''turn_id'' \<noteq> Some (PStr (take 128 ''t1''))) []"
    by (simp_all add: clean_def calm_def j_numbered_def journal_open_def content_def read_lines_def)
  moreover have "turn_started ''t1'' (PStr ''hello'') 2 [] None [] ?j = (Inr (), demo_started)"
    "list_all (goes_on (PStr (take 128 ''t1''))) [demo_tool]" "tools_recorded (PStr ''t1'') [demo_tool] = [(PStr ''k'', PInt 7)]"
    by code_simp+
  moreover have "dget demo_finish ''turn_id'' = Some (PStr (take 128 ''t1''))"
    "pget demo_finish ''kind'' \<in> {PStr ''turn_completed'', PStr ''turn_aborted'', PStr ''turn_failed'', PStr ''turn_recovered''}"
    by code_simp+
  ultimately show ?thesis
    using journal_resume[of ?j "[]" plain_text resume_start "''t1''" "PStr ''hello''" 2 "[]" None "[]" demo_started "[demo_tool]"
        "\<lparr>jf_lines = content demo_started @ [JObj demo_tool], jf_tail = Clean\<rparr>"
        "\<lparr>jf_lines = content demo_started @ [JObj demo_tool, JObj demo_finish], jf_tail = Clean\<rparr>" demo_finish]
    by (auto simp: read_lines_def)
qed

end
