(* ===== verification/Journal_Pools.thy ===== *)
theory Journal_Pools
  imports Journal_Memory Broker
begin

text \<open>
  The subagent pools in the conversation journal (\<open>src/agenthicc/memory/journal.py\<close>): worker results and pool
  records, the lifecycle they fold to, the recovery of pools a crash left active, and the notices that tell the
  parent about finished background pools and about questions their workers ask (\<open>subagents/delivery.py\<close>).

  The kinds of the lifecycle are a Python set, iterated in an order that is an argument; the check mark and the
  cross of an aggregate, which are outside the characters modelled, are arguments too. \<open>pe_clock\<close> gives \<open>time.time()\<close> when the
  record with that sequence number is built.
\<close>

record pool_env =
  pe_clock :: "int \<Rightarrow> pyfloat"
  pe_float :: "pyfloat \<Rightarrow> string"
  pe_order :: "string list"
  pe_done :: string
  pe_failed :: string

section \<open>The records\<close>

text \<open>The projection of the subagent records: one pass over the file, then kept current by every write.\<close>

definition subagent_view :: "payload list jm" where
  "subagent_view j =
     (case j_view j of
        Some v \<Rightarrow> (Inr v, j)
      | None \<Rightarrow> jbind drain (\<lambda>_ j1. let v = filter projected (objects (read_lines (j_file j1))) in (Inr v, j1\<lparr>j_view := Some v\<rparr>)) j)"

definition subagent_kind :: "string \<Rightarrow> payload list jm" where
  "subagent_kind k = jbind subagent_view (\<lambda>v. jret (filter (\<lambda>e. pget e ''kind'' = PStr k) v))"

definition subagent_pool_records :: "string \<Rightarrow> payload list jm" where
  "subagent_pool_records pid = jbind subagent_view (\<lambda>v. jret (filter (\<lambda>e. pget e ''pool_id'' = PStr pid
     \<and> starts_with (entry_kind e) ''subagent_'') v))"

definition timed :: "pool_env \<Rightarrow> string \<Rightarrow> payload \<Rightarrow> unit jm" where
  "timed env kind rest j =
     journal_emit ([(''kind'', PStr kind), (''at'', PFloat (pe_clock env (j_seq j))), (''schema_version'', PInt 1)] @ rest) j"

record worker_result =
  wr_pool_id :: string
  wr_fingerprint :: string
  wr_task_id :: string
  wr_agent_type :: string
  wr_label :: string
  wr_ok :: bool
  wr_text :: string
  wr_error :: string
  wr_duration_ms :: pyfloat
  wr_tool_calls :: "string list"
  wr_changed_paths :: "string list"
  wr_status :: "string option"
  wr_error_code :: string
  wr_value :: "payload option"
  wr_partial :: bool
  wr_stop_reason :: string
  wr_undelivered_messages :: int
  wr_request_id :: string
  wr_stop_mode :: "string option"
  wr_stop_source :: string
  wr_phase :: "string option"
  wr_attempt :: int
  wr_cleanup_error :: string
  wr_not_started :: bool

definition opt_entry :: "bool \<Rightarrow> string \<Rightarrow> pyval \<Rightarrow> payload" where
  "opt_entry b k v = (if b then [(k, v)] else [])"

definition opt_text :: "string \<Rightarrow> string option \<Rightarrow> payload" where
  "opt_text k v = (case v of None \<Rightarrow> [] | Some s \<Rightarrow> [(k, PStr s)])"

definition subagent_worker_result :: "pool_env \<Rightarrow> worker_result \<Rightarrow> unit jm" where
  "subagent_worker_result env w =
     timed env ''subagent_worker_result''
       ([(''pool_id'', PStr (wr_pool_id w)), (''fingerprint'', PStr (wr_fingerprint w)), (''task_id'', PStr (wr_task_id w)),
         (''agent_type'', PStr (wr_agent_type w)), (''label'', PStr (wr_label w)), (''ok'', PBool (wr_ok w)),
         (''text'', PStr (wr_text w)), (''error'', PStr (wr_error w)), (''duration_ms'', PFloat (wr_duration_ms w)),
         (''tool_calls'', PList (map PStr (wr_tool_calls w))), (''changed_paths'', PList (map PStr (wr_changed_paths w)))]
        @ opt_entry (wr_error_code w \<noteq> []) ''error_code'' (PStr (wr_error_code w))
        @ (case wr_value w of None \<Rightarrow> [] | Some v \<Rightarrow> [(''value'', of_dict v)])
        @ opt_text ''status'' (wr_status w)
        @ opt_entry (wr_partial w) ''partial'' (PBool True)
        @ opt_entry (wr_stop_reason w \<noteq> []) ''stop_reason'' (PStr (take 240 (wr_stop_reason w)))
        @ opt_entry (0 < wr_undelivered_messages w) ''undelivered_messages'' (PInt (max 0 (wr_undelivered_messages w)))
        @ opt_entry (wr_request_id w \<noteq> []) ''request_id'' (PStr (take 128 (wr_request_id w)))
        @ opt_text ''stop_mode'' (wr_stop_mode w)
        @ opt_entry (wr_stop_source w \<noteq> []) ''stop_source'' (PStr (take 80 (wr_stop_source w)))
        @ opt_text ''phase'' (wr_phase w)
        @ opt_entry (wr_attempt w \<noteq> 1) ''attempt'' (PInt (max 1 (wr_attempt w)))
        @ opt_entry (wr_cleanup_error w \<noteq> []) ''cleanup_error'' (PStr (take 240 (wr_cleanup_error w)))
        @ opt_entry (wr_not_started w) ''not_started'' (PBool True))"

definition value_list :: "payload list option \<Rightarrow> payload" where
  "value_list vs = (case vs of None \<Rightarrow> [] | Some ds \<Rightarrow> [(''values'', PList (map of_dict ds))])"

definition subagent_pool_result ::
  "pool_env \<Rightarrow> string \<Rightarrow> string \<Rightarrow> int \<Rightarrow> int \<Rightarrow> int \<Rightarrow> string \<Rightarrow> payload list option \<Rightarrow> unit jm" where
  "subagent_pool_result env pid fp tot succeeded failed answer vs =
     timed env ''subagent_pool_result''
       ([(''pool_id'', PStr pid), (''fingerprint'', PStr fp), (''total'', PInt tot), (''succeeded'', PInt succeeded),
         (''failed'', PInt failed), (''text'', PStr answer)] @ value_list vs)"

definition subagent_pool_started :: "pool_env \<Rightarrow> string \<Rightarrow> string \<Rightarrow> string \<Rightarrow> payload list \<Rightarrow> unit jm" where
  "subagent_pool_started env pid fp parent tasks =
     timed env ''subagent_pool_started''
       [(''pool_id'', PStr (take 128 pid)), (''fingerprint'', PStr (take 128 fp)), (''parent_run_id'', PStr (take 128 parent)),
        (''tasks'', PList (map of_dict tasks))]"

definition subagent_pool_backgrounded :: "pool_env \<Rightarrow> string \<Rightarrow> payload \<Rightarrow> unit jm" where
  "subagent_pool_backgrounded env pid receipt =
     timed env ''subagent_pool_backgrounded'' [(''pool_id'', PStr (take 128 pid)), (''tool_result'', of_dict receipt)]"

definition subagent_pool_finished ::
  "pool_env \<Rightarrow> string \<Rightarrow> int \<Rightarrow> int \<Rightarrow> int \<Rightarrow> string \<Rightarrow> payload list option \<Rightarrow> unit jm" where
  "subagent_pool_finished env pid tot succeeded failed answer vs =
     timed env ''subagent_pool_finished''
       ([(''pool_id'', PStr (take 128 pid)), (''total'', PInt (max 0 tot)), (''succeeded'', PInt (max 0 succeeded)),
         (''failed'', PInt (max 0 failed)), (''text'', PStr answer)] @ value_list vs)"

definition subagent_pool_notification_delivered :: "pool_env \<Rightarrow> string \<Rightarrow> string \<Rightarrow> unit jm" where
  "subagent_pool_notification_delivered env pid mid =
     timed env ''subagent_pool_notification_delivered'' [(''pool_id'', PStr (take 128 pid)), (''message_id'', PStr (take 160 mid))]"

definition delivered_subagent_pool_notifications :: "string set jm" where
  "delivered_subagent_pool_notifications =
     jbind (subagent_kind ''subagent_pool_notification_delivered'') (\<lambda>rs.
       jret (set (filter (\<lambda>p. p \<noteq> []) (some_strs (map (\<lambda>r. pget r ''pool_id'') rs)))))"

section \<open>The lifecycle\<close>

definition pool_kinds :: "string list" where
  "pool_kinds = [''subagent_pool_started'', ''subagent_pool_backgrounded'', ''subagent_pool_finished'',
     ''subagent_pool_interrupted'', ''subagent_pool_cancelled'', ''subagent_pool_stopped'']"

definition sequence :: "payload \<Rightarrow> int" where
  "sequence e = (case pget e ''seq'' of PInt i \<Rightarrow> i | _ \<Rightarrow> - 1)"

definition terminal_status :: "pyval \<Rightarrow> string option" where
  "terminal_status kind =
     (if kind = PStr ''subagent_pool_finished'' then Some ''completed''
      else if kind = PStr ''subagent_pool_interrupted'' then Some ''interrupted''
      else if kind = PStr ''subagent_pool_cancelled'' then Some ''cancelled''
      else if kind = PStr ''subagent_pool_stopped'' then Some ''stopped''
      else None)"

definition lifecycle_step :: "payload \<Rightarrow> payload pydict \<Rightarrow> payload pydict" where
  "lifecycle_step e latest =
     (case pget e ''pool_id'' of
        PStr p \<Rightarrow>
          (if p = [] then latest
           else if pget e ''kind'' = PStr ''subagent_pool_started''
           then dset p (dset ''backgrounded'' (PBool False) (dset ''status'' (PStr ''running'') e)) latest
           else case dget latest p of
             None \<Rightarrow> latest
           | Some v \<Rightarrow>
               let v1 = absorb e v in
               dset p (if pget e ''kind'' = PStr ''subagent_pool_backgrounded''
                       then dset ''backgrounded'' (PBool True) (dset ''status'' (PStr ''backgrounded'') v1)
                       else case terminal_status (pget e ''kind'') of None \<Rightarrow> v1 | Some s \<Rightarrow> dset ''status'' (PStr s) v1) latest)
      | _ \<Rightarrow> latest)"

definition lifecycle_of :: "string list \<Rightarrow> payload list \<Rightarrow> payload pydict" where
  "lifecycle_of order v =
     fold lifecycle_step (sort_key sequence (concat (map (\<lambda>k. filter (\<lambda>e. pget e ''kind'' = PStr k) v) order))) []"

definition fold_subagent_pool_lifecycle :: "pool_env \<Rightarrow> payload list jm" where
  "fold_subagent_pool_lifecycle env = jbind subagent_view (\<lambda>v. jret (map snd (lifecycle_of (pe_order env) v)))"

definition find_subagent_pool :: "pool_env \<Rightarrow> string \<Rightarrow> string \<Rightarrow> payload option jm" where
  "find_subagent_pool env parent fp =
     jbind (fold_subagent_pool_lifecycle env) (\<lambda>ls. jret (find (\<lambda>l. pget l ''parent_run_id'' = PStr parent \<and> pget l ''fingerprint'' = PStr fp) (rev ls)))"

definition unfinished :: "payload \<Rightarrow> bool" where
  "unfinished l \<longleftrightarrow> pget l ''status'' = PStr ''running'' \<or> pget l ''status'' = PStr ''backgrounded''"

definition completed_background_subagent_pools :: "pool_env \<Rightarrow> payload list jm" where
  "completed_background_subagent_pools env =
     jbind delivered_subagent_pool_notifications (\<lambda>told.
     jbind (fold_subagent_pool_lifecycle env) (\<lambda>ls. jret (filter (\<lambda>l. (\<forall>p \<in> told. pget l ''pool_id'' \<noteq> PStr p)
       \<and> pget l ''backgrounded'' = PBool True
       \<and> pget l ''status'' \<in> {PStr ''completed'', PStr ''stopped'', PStr ''interrupted'', PStr ''cancelled''}) ls)))"

text \<open>A pool result counts when its \<open>failed\<close> converts to zero; what does not convert is skipped, an infinite float raises.\<close>

definition valid_pool_result :: "json_text \<Rightarrow> payload \<Rightarrow> string + bool" where
  "valid_pool_result jt r =
     (let f = dget_or r ''failed'' (PInt 1) in
      if (case f of PInt _ \<Rightarrow> True | PFloat _ \<Rightarrow> True | PStr _ \<Rightarrow> True | _ \<Rightarrow> False)
      then bindE (conv_int (jt_parse_int jt) f) (\<lambda>n.
        Inr (n = Some 0 \<and> str_of (pget r ''fingerprint'') \<noteq> None \<and> str_of (pget r ''text'') \<noteq> None))
      else Inr False)"

fun filterE :: "('a \<Rightarrow> string + bool) \<Rightarrow> 'a list \<Rightarrow> string + 'a list" where
  "filterE f [] = Inr []"
| "filterE f (x # xs) = bindE (f x) (\<lambda>b. bindE (filterE f xs) (\<lambda>ys. Inr (if b then x # ys else ys)))"

definition fold_subagent_pool_results :: "json_text \<Rightarrow> payload list jm" where
  "fold_subagent_pool_results jt = jbind (subagent_kind ''subagent_pool_result'') (\<lambda>rs j. (filterE (valid_pool_result jt) rs, j))"

section \<open>Pools that did not finish\<close>

definition listed_tasks :: "payload \<Rightarrow> pyval list" where
  "listed_tasks l = (case pget l ''tasks'' of PList ts \<Rightarrow> ts | _ \<Rightarrow> [])"

definition latest_workers :: "string \<Rightarrow> payload list \<Rightarrow> payload pydict" where
  "latest_workers pid rs =
     fold (\<lambda>r d. case pget r ''task_id'' of PStr t \<Rightarrow> dset t r d | _ \<Rightarrow> d) (filter (\<lambda>r. pget r ''pool_id'' = PStr pid) rs) []"

definition missing_worker :: "pool_env \<Rightarrow> payload \<Rightarrow> string \<Rightarrow> string \<Rightarrow> string \<Rightarrow> nat \<Rightarrow> string \<Rightarrow> payload" where
  "missing_worker env l pid tid ty n reason =
     [(''pool_id'', PStr pid), (''fingerprint'', PStr (text_field (pe_float env) l ''fingerprint'' [])), (''task_id'', PStr tid),
      (''agent_type'', PStr ty), (''label'', PStr (ty @ '' #'' @ nat_digits n)),
      (''status'', PStr (if starts_with reason ''cancelled:'' then ''cancelled'' else ''interrupted'')),
      (''ok'', PBool False), (''text'', PStr []), (''error'', PStr reason), (''duration_ms'', PFloat (Fin 0)),
      (''tool_calls'', PList []), (''changed_paths'', PList [])]"

fun record_missing :: "pool_env \<Rightarrow> payload \<Rightarrow> string \<Rightarrow> string \<Rightarrow> pyval list \<Rightarrow> nat pydict \<Rightarrow> payload pydict \<Rightarrow> payload pydict jm" where
  "record_missing env l pid reason [] counts latest = jret latest"
| "record_missing env l pid reason (v # vs) counts latest =
     (case mapping_of v of
        None \<Rightarrow> record_missing env l pid reason vs counts latest
      | Some t \<Rightarrow>
          (case (pget t ''task_id'', pget t ''agent_type'') of
             (PStr tid, PStr ty) \<Rightarrow>
               (if tid = [] then record_missing env l pid reason vs counts latest
                else let n = dget_or counts ty 0 + 1; counts1 = dset ty n counts in
                  if dget latest tid \<noteq> None then record_missing env l pid reason vs counts1 latest
                  else let w = missing_worker env l pid tid ty n reason in
                    jbind (timed env ''subagent_worker_result'' w) (\<lambda>_. record_missing env l pid reason vs counts1 (dset tid w latest)))
           | _ \<Rightarrow> record_missing env l pid reason vs counts latest))"

definition worker_section :: "pool_env \<Rightarrow> string \<Rightarrow> payload pydict \<Rightarrow> pyval \<Rightarrow> string option" where
  "worker_section env reason latest v =
     (case mapping_of v of
        None \<Rightarrow> None
      | Some t \<Rightarrow>
          (case pget t ''task_id'' of
             PStr tid \<Rightarrow>
               (case dget latest tid of
                  None \<Rightarrow> None
                | Some w \<Rightarrow> Some (py_rstrip (''=== '' @ text_field (pe_float env) w ''label'' tid @ '' ('' @
                    (if pget w ''ok'' = PBool True then pe_done env else pe_failed env @ '' '' @ text_field (pe_float env) w ''error'' reason)
                    @ '') ==='' @ [CHR 0x0A] @ text_field (pe_float env) w ''text'' [])))
           | _ \<Rightarrow> None))"

definition record_unfinished :: "pool_env \<Rightarrow> payload \<Rightarrow> string \<Rightarrow> (nat \<times> nat \<times> string) jm" where
  "record_unfinished env l reason =
     (let pid = text_field (pe_float env) l ''pool_id'' []; tasks = listed_tasks l in
      jbind (subagent_kind ''subagent_worker_result'') (\<lambda>rs.
      jbind (record_missing env l pid reason tasks [] (latest_workers pid rs)) (\<lambda>latest.
        jret (length tasks, length (filter (\<lambda>(_, w). pget w ''ok'' = PBool True) latest),
          join [CHR 0x0A, CHR 0x0A] (List.map_filter (worker_section env reason latest) tasks)))))"

definition counted :: "nat \<Rightarrow> nat \<Rightarrow> string \<Rightarrow> payload" where
  "counted tot succeeded answer = [(''total'', PInt (int tot)), (''succeeded'', PInt (int succeeded)),
     (''failed'', PInt (max 0 (int tot - int succeeded))), (''text'', PStr answer)]"

definition active_pool :: "pool_env \<Rightarrow> string \<Rightarrow> payload option jm" where
  "active_pool env pid = jbind (fold_subagent_pool_lifecycle env) (\<lambda>ls. jret
     (case find (\<lambda>l. pget l ''pool_id'' = PStr pid) ls of None \<Rightarrow> None | Some l \<Rightarrow> if unfinished l then Some l else None))"

definition subagent_pool_stopped ::
  "pool_env \<Rightarrow> string \<Rightarrow> int \<Rightarrow> int \<Rightarrow> int \<Rightarrow> string \<Rightarrow> string \<Rightarrow> payload list option \<Rightarrow> unit jm" where
  "subagent_pool_stopped env pid tot succeeded failed answer reason vs =
     jbind (active_pool env pid) (\<lambda>a. case a of
        None \<Rightarrow> jret ()
      | Some l \<Rightarrow> jbind (record_unfinished env l (''cancelled: stopped by pool budget ('' @ reason @ '')'')) (\<lambda>_.
          timed env ''subagent_pool_stopped''
            ([(''pool_id'', PStr (take 128 pid)), (''total'', PInt (max 0 tot)), (''succeeded'', PInt (max 0 succeeded)),
              (''failed'', PInt (max 0 failed)), (''text'', PStr answer), (''reason'', PStr (take 256 reason))] @ value_list vs)))"

definition subagent_pool_cancelled :: "pool_env \<Rightarrow> string \<Rightarrow> string \<Rightarrow> unit jm" where
  "subagent_pool_cancelled env pid reason =
     jbind (active_pool env pid) (\<lambda>a. case a of
        None \<Rightarrow> jret ()
      | Some l \<Rightarrow> jbind (record_unfinished env l (''cancelled: '' @ reason)) (\<lambda>(tot, succeeded, answer).
          timed env ''subagent_pool_cancelled''
            ([(''pool_id'', PStr (take 128 pid)), (''reason'', PStr (take 256 reason))] @ counted tot succeeded answer)))"

fun recover_pools :: "pool_env \<Rightarrow> payload list \<Rightarrow> string list jm" where
  "recover_pools env [] = jret []"
| "recover_pools env (l # ls) =
     (if \<not> unfinished l then recover_pools env ls
      else case pget l ''pool_id'' of
        PStr pid \<Rightarrow>
          (if pid = [] then recover_pools env ls
           else jbind (record_unfinished env l ''interrupted by process restart'') (\<lambda>(tot, succeeded, answer).
             jbind (timed env ''subagent_pool_interrupted'' ((''pool_id'', PStr pid) # counted tot succeeded answer)) (\<lambda>_.
             jbind (recover_pools env ls) (\<lambda>ps. jret (pid # ps)))))
      | _ \<Rightarrow> recover_pools env ls)"

definition recover_interrupted_subagent_pools :: "pool_env \<Rightarrow> string list jm" where
  "recover_interrupted_subagent_pools env = jbind (fold_subagent_pool_lifecycle env) (recover_pools env)"

section \<open>Notices to the parent\<close>

definition known_stop_reasons :: "string set" where
  "known_stop_reasons = {''max_tokens_exceeded'', ''max_total_time_s_exceeded'', ''max_cost_usd_exceeded'',
     ''max_tool_calls_exceeded'', ''max_iterations_exceeded''}"

definition notice_count :: "payload \<Rightarrow> string \<Rightarrow> int" where
  "notice_count r k = (case dget_or r k (PInt 0) of PInt i \<Rightarrow> max 0 i | _ \<Rightarrow> 0)"

definition status_text :: "string \<Rightarrow> string \<Rightarrow> string" where
  "status_text status reason =
     (if status = ''completed'' then ''completed''
      else if status = ''stopped''
      then ''was stopped by the pool budget'' @ (if reason \<in> known_stop_reasons then '': '' @ reason else [])
      else if status = ''interrupted'' then ''was interrupted when the session stopped''
      else if status = ''cancelled'' then ''was cancelled when the session closed''
      else ''finished'')"

definition background_pool_notice :: "pool_env \<Rightarrow> payload \<Rightarrow> string" where
  "background_pool_notice env r =
     (let pid = take 128 (text_field (pe_float env) r ''pool_id'' []);
          reason = (case pget r ''reason'' of PStr s \<Rightarrow> s | _ \<Rightarrow> [])
      in ''Background subagent pool '' @ pid @ '' '' @ status_text (text_field (pe_float env) r ''status'' ''interrupted'') reason
         @ '' ('' @ int_text (notice_count r ''succeeded'') @ ''/'' @ int_text (notice_count r ''total'') @ '' succeeded, ''
         @ int_text (notice_count r ''failed'') @ '' failed). Its results are not included here: call collect_subagent_results(pool_id=''
         @ [CHR 0x22] @ pid @ [CHR 0x22] @ '') to read them.'')"

text \<open>\<open>added\<close> is what the base memory appends for a user message; the mirror of the conversation on the screen is left out.\<close>

definition notice_id :: "string \<Rightarrow> string" where
  "notice_id pid = ''subagent-completion:'' @ pid"

fun deliver_all :: "pool_env \<Rightarrow> (string \<Rightarrow> pyval list) \<Rightarrow> payload list \<Rightarrow> string list mm" where
  "deliver_all env added [] = (\<lambda>m. (Inr [], m))"
| "deliver_all env added (r # rs) =
     (case pget r ''pool_id'' of
        PStr pid \<Rightarrow>
          (if pid = [] then deliver_all env added rs
           else mbind (add_user_once (added (background_pool_notice env r)) (notice_id pid)) (\<lambda>_.
             mbind (on_journal (subagent_pool_notification_delivered env pid (notice_id pid))) (\<lambda>_.
             mbind (deliver_all env added rs) (\<lambda>ps m. (Inr (pid # ps), m)))))
      | _ \<Rightarrow> deliver_all env added rs)"

definition deliver_background_pool_notices :: "pool_env \<Rightarrow> (string \<Rightarrow> pyval list) \<Rightarrow> string list mm" where
  "deliver_background_pool_notices env added = mbind (on_journal (completed_background_subagent_pools env)) (deliver_all env added)"

definition deliver_session_background_notices :: "pool_env \<Rightarrow> (string \<Rightarrow> pyval list) \<Rightarrow> string list mm" where
  "deliver_session_background_notices env added m =
     (if provider_ready (mem_recovery m) then deliver_background_pool_notices env added m else (Inr [], m))"

definition background_question_notice :: "string \<Rightarrow> string \<Rightarrow> string \<Rightarrow> string" where
  "background_question_notice pid worker qid =
     ''A worker ('' @ take 64 worker @ '') of background subagent pool '' @ take 128 pid @ '' is waiting for your answer to question ''
     @ take 64 qid @ ''. Call collect_subagent_results(pool_id='' @ [CHR 0x22] @ take 128 pid @ [CHR 0x22]
     @ '') to read it, then answer_subagent(pool_id, question_id, answer).''"

text \<open>A handle of the session's registry: a pool, whether it was moved to the background, whether its task is done, and its broker.\<close>

record pool_handle =
  ph_pool_id :: string
  ph_backgrounded :: bool
  ph_done :: bool
  ph_broker :: broker

fun announce_questions :: "(string \<Rightarrow> pyval list) \<Rightarrow> string \<Rightarrow> question_record list \<Rightarrow> string list mm" where
  "announce_questions added pid [] = (\<lambda>m. (Inr [], m))"
| "announce_questions added pid (q # qs) =
     (let qid = en_message_id (qn_envelope q)
      in if qid = [] then announce_questions added pid qs
         else mbind (add_user_once (added (background_question_notice pid (en_sender (qn_envelope q)) qid)) (''subagent-question:'' @ qid)) (\<lambda>sent.
           if sent then mbind (announce_questions added pid qs) (\<lambda>ids m. (Inr (qid # ids), m))
           else announce_questions added pid qs))"

fun deliver_background_question_notices :: "pyfloat \<Rightarrow> (string \<Rightarrow> pyval list) \<Rightarrow> pool_handle list \<Rightarrow> string list mm" where
  "deliver_background_question_notices now added [] = (\<lambda>m. (Inr [], m))"
| "deliver_background_question_notices now added (h # hs) =
     (if \<not> ph_backgrounded h \<or> ph_done h then deliver_background_question_notices now added hs
      else mbind (announce_questions added (ph_pool_id h) (pending_questions now (Some ''main'') None (ph_broker h))) (\<lambda>ids.
        mbind (deliver_background_question_notices now added hs) (\<lambda>rest m. (Inr (ids @ rest), m))))"

end
