(* ===== verification/Pool_Laws.thy ===== *)
theory Pool_Laws
  imports Journal_Pools Journal_Steps "HOL-Library.Multiset"
begin

text \<open>
  What the pool records of a clean journal fold to: the order in which the kinds are collected does not matter, the
  lifecycle grows record by record, and recovery closes every pool that was left active.
\<close>

section \<open>The records in journal order\<close>

definition pool_record :: "payload \<Rightarrow> bool" where
  "pool_record e \<longleftrightarrow> (\<exists>k \<in> set pool_kinds. pget e ''kind'' = PStr k)"

definition pools :: "payload list \<Rightarrow> payload pydict" where
  "pools es = fold lifecycle_step (filter pool_record es) []"

definition any_order :: "pool_env \<Rightarrow> bool" where
  "any_order env \<longleftrightarrow> distinct (pe_order env) \<and> set (pe_order env) = set pool_kinds"

lemma entry_kind_PStr: "pget e ''kind'' = PStr k \<Longrightarrow> entry_kind e = k"
  by (auto simp: entry_kind_def pget_def dget_or_def split: option.splits)

lemma pool_record_projected: "pool_record e \<Longrightarrow> projected e"
  by (auto simp: pool_record_def pool_kinds_def projected_def starts_with_def dest!: entry_kind_PStr)

lemma clean_records:
  assumes "clean j"
  obtains es where "content j = map JObj es" "map sequence es = map int [0..<length es]" "j_seq j = int (length es)"
    "\<forall>v. j_view j = Some v \<longrightarrow> v = filter projected es"
proof -
  obtain es where es: "content j = map JObj es" "map (\<lambda>e. pget e ''seq'') es = map (\<lambda>k. PInt (int k)) [0..<length es]"
      "j_seq j = int (length es)" "\<forall>v. j_view j = Some v \<longrightarrow> v = filter projected es"
    using assms by (auto simp: clean_def j_numbered_def)
  have "map sequence es = map (\<lambda>x. case x of PInt i \<Rightarrow> i | _ \<Rightarrow> - 1) (map (\<lambda>e. pget e ''seq'') es)"
    by (simp add: sequence_def)
  also have "\<dots> = map int [0..<length es]" unfolding es(2) by simp
  finally show ?thesis using that es by blast
qed

lemma view_run:
  assumes "clean j" "content j = map JObj es"
  shows "\<exists>j'. subagent_view j = (Inr (filter projected es), j') \<and> clean j' \<and> content j' = content j"
proof -
  obtain es' where es': "content j = map JObj es'" "\<forall>v. j_view j = Some v \<longrightarrow> v = filter projected es'"
    using clean_records[OF assms(1)] by metis
  have eq: "es' = es" using es'(1) assms(2) by (simp add: inj_map_eq_map inj_def)
  show ?thesis
  proof (cases "j_view j")
    case (Some v)
    then show ?thesis using es'(2) eq assms(1) by (simp add: subagent_view_def)
  next
    case None
    obtain j1 where j1: "drain j = (Inr (), j1)" "clean j1" "content j1 = content j" "read_lines (j_file j1) = content j"
      using drain_clean[OF assms(1)] by metis
    let ?j = "j1\<lparr>j_view := Some (filter projected es)\<rparr>"
    have "subagent_view j = (Inr (filter projected es), ?j)"
      using None j1(1,4) assms(2) by (simp add: subagent_view_def jbind_def Let_def)
    moreover have "clean ?j" using j1(2,3) assms(2)
      by (auto simp: clean_def j_numbered_def inj_map_eq_map inj_def)
    ultimately show ?thesis using j1(3) by auto
  qed
qed

lemma kind_run:
  assumes "clean j" "content j = map JObj es" "k \<noteq> []" "starts_with k ''subagent_''"
  shows "\<exists>j'. subagent_kind k j = (Inr (filter (\<lambda>e. pget e ''kind'' = PStr k) es), j') \<and> clean j' \<and> content j' = content j"
proof -
  obtain j' where j': "subagent_view j = (Inr (filter projected es), j')" "clean j'" "content j' = content j"
    using view_run[OF assms(1,2)] by blast
  have "filter (\<lambda>e. pget e ''kind'' = PStr k) (filter projected es) = filter (\<lambda>e. pget e ''kind'' = PStr k) es"
    unfolding filter_filter by (rule filter_cong[OF refl]) (auto simp: projected_def entry_kind_PStr assms(3,4))
  then show ?thesis using j' by (simp add: subagent_kind_def jbind_def jret_def)
qed

text \<open>Whatever the order of the kinds, sorting by sequence number gives the records in journal order.\<close>

lemma mset_by_kind:
  "distinct ks \<Longrightarrow> mset (concat (map (\<lambda>k. filter (\<lambda>e. pget e ''kind'' = PStr k) v) ks)) = mset (filter (\<lambda>e. \<exists>k \<in> set ks. pget e ''kind'' = PStr k) v)"
proof (induction ks)
  case (Cons k ks)
  have "mset (filter (\<lambda>e. \<exists>k' \<in> set (k # ks). pget e ''kind'' = PStr k') v)
    = mset (filter (\<lambda>e. pget e ''kind'' = PStr k) v) + mset (filter (\<lambda>e. \<exists>k' \<in> set ks. pget e ''kind'' = PStr k') v)"
    using Cons.prems by (induction v) auto
  then show ?case using Cons by simp
qed simp

lemma lifecycle_any_order:
  assumes "any_order env" "map sequence es = map int [0..<length es]"
  shows "lifecycle_of (pe_order env) (filter projected es) = pools es"
proof -
  let ?rs = "filter pool_record es"
  have order: "(\<lambda>e. \<exists>k \<in> set (pe_order env). pget e ''kind'' = PStr k) = pool_record"
    using assms(1) by (simp add: any_order_def pool_record_def fun_eq_iff)
  have "filter pool_record (filter projected es) = ?rs"
    unfolding filter_filter by (rule filter_cong[OF refl]) (use pool_record_projected in blast)
  then have m: "mset (concat (map (\<lambda>k. filter (\<lambda>e. pget e ''kind'' = PStr k) (filter projected es)) (pe_order env))) = mset ?rs"
    using mset_by_kind[of "pe_order env" "filter projected es"] assms(1) order by (simp add: any_order_def)
  have d: "distinct (map sequence es)" unfolding assms(2) by (simp add: distinct_map)
  have s: "sorted (map sequence es)" unfolding assms(2) by (simp add: sorted_iff_nth_mono)
  have inj: "inj_on sequence (set es)" using d by (simp add: distinct_map)
  have "sort_key sequence (concat (map (\<lambda>k. filter (\<lambda>e. pget e ''kind'' = PStr k) (filter projected es)) (pe_order env))) = ?rs"
  proof (rule sort_key_inj_key_eq)
    show "mset (concat (map (\<lambda>k. filter (\<lambda>e. pget e ''kind'' = PStr k) (filter projected es)) (pe_order env))) = mset ?rs" by (rule m)
    show "inj_on sequence (set (concat (map (\<lambda>k. filter (\<lambda>e. pget e ''kind'' = PStr k) (filter projected es)) (pe_order env))))"
      using inj by (rule inj_on_subset) auto
    show "sorted (map sequence ?rs)" using s by (rule sorted_filter)
  qed
  then show ?thesis by (simp add: lifecycle_of_def pools_def)
qed

lemma lifecycle_run:
  assumes "clean j" "content j = map JObj es" "any_order env"
  shows "\<exists>j'. fold_subagent_pool_lifecycle env j = (Inr (map snd (pools es)), j') \<and> clean j' \<and> content j' = content j"
proof -
  obtain es' where "content j = map JObj es'" "map sequence es' = map int [0..<length es']" using clean_records[OF assms(1)] by metis
  then have seq: "map sequence es = map int [0..<length es]" using assms(2) by (simp add: inj_map_eq_map inj_def)
  obtain j' where "subagent_view j = (Inr (filter projected es), j')" "clean j'" "content j' = content j"
    using view_run[OF assms(1,2)] by blast
  then show ?thesis using lifecycle_any_order[OF assms(3) seq] by (simp add: fold_subagent_pool_lifecycle_def jbind_def jret_def)
qed

section \<open>The lifecycle, record by record\<close>

lemma pools_snoc: "pools (es @ [e]) = (if pool_record e then lifecycle_step e (pools es) else pools es)"
  by (simp add: pools_def)

lemma pools_others: "list_all (\<lambda>e. \<not> pool_record e) ws \<Longrightarrow> pools (es @ ws) = pools es"
  by (simp add: pools_def list_all_iff filter_False)

text \<open>Every lifecycle is filed under its own pool.\<close>

definition pools_ok :: "payload pydict \<Rightarrow> bool" where
  "pools_ok d \<longleftrightarrow> distinct (keys d) \<and> (\<forall>(p, v) \<in> set d. p \<noteq> [] \<and> pget v ''pool_id'' = PStr p)"

lemma pools_ok_dset: "pools_ok d \<Longrightarrow> p \<noteq> [] \<Longrightarrow> pget v ''pool_id'' = PStr p \<Longrightarrow> pools_ok (dset p v d)"
  using distinct_keys_dset[of d p v] by (auto simp: pools_ok_def dest: dset_in_setD)

lemma pget_PStr_dget: "pget e k = PStr p \<Longrightarrow> dget e k = Some (PStr p)"
  by (auto simp: pget_def dget_or_def split: option.splits)

lemma pools_ok_step: "pools_ok d \<Longrightarrow> pools_ok (lifecycle_step e d)"
  by (auto simp: lifecycle_step_def Let_def pget_absorb pget_PStr_dget pget_dset_key intro!: pools_ok_dset split: pyval.split option.split)

lemma pools_are_ok: "pools_ok (pools es)"
proof (induction es rule: rev_induct)
  case Nil
  show ?case by (simp add: pools_def pools_ok_def)
next
  case (snoc e es)
  then show ?case by (simp add: pools_snoc pools_ok_step)
qed

section \<open>Writing pool records\<close>

definition timed_entry :: "pool_env \<Rightarrow> journal \<Rightarrow> string \<Rightarrow> payload \<Rightarrow> payload" where
  "timed_entry env j kind rest =
     stamped j ([(''kind'', PStr kind), (''at'', PFloat (pe_clock env (j_seq j))), (''schema_version'', PInt 1)] @ rest)"

lemma pget_timed [simp]:
  "pget (timed_entry env j kind rest) ''kind'' = PStr kind"
  "k \<notin> {''seq'', ''kind'', ''at'', ''schema_version''} \<Longrightarrow> pget (timed_entry env j kind rest) k = pget rest k"
  by (auto simp: timed_entry_def stamped_def pget_def dget_or_def)

lemma timed_run:
  assumes "clean j" "content j = map JObj es" "timed env kind rest j = (Inr u, j')"
  shows "clean j' \<and> content j' = map JObj (es @ [timed_entry env j kind rest])"
  using assms(1)
proof (cases rule: emit_clean[of j "[(''kind'', PStr kind), (''at'', PFloat (pe_clock env (j_seq j))), (''schema_version'', PInt 1)] @ rest"])
  case (ok j1)
  then show ?thesis using assms(2,3) by (simp add: timed_def timed_entry_def)
next
  case (failed err j1)
  then show ?thesis using assms(3) by (simp add: timed_def)
qed

definition worker_record :: "payload \<Rightarrow> bool" where
  "worker_record e \<longleftrightarrow> pget e ''kind'' = PStr ''subagent_worker_result''"

lemma worker_not_pool: "worker_record e \<Longrightarrow> \<not> pool_record e"
  by (auto simp: worker_record_def pool_record_def pool_kinds_def)

text \<open>The missing workers of a pool are recorded, each once, and nothing else.\<close>

definition named_task :: "pyval \<Rightarrow> string option" where
  "named_task v =
     (case mapping_of v of
        None \<Rightarrow> None
      | Some t \<Rightarrow> (case (pget t ''task_id'', pget t ''agent_type'') of (PStr tid, PStr ty) \<Rightarrow> (if tid = [] then None else Some tid) | _ \<Rightarrow> None))"

lemma record_missing_step:
  "record_missing env l pid reason (v # vs) counts latest =
     (case named_task v of
        None \<Rightarrow> record_missing env l pid reason vs counts latest
      | Some tid \<Rightarrow>
          let ty = (case pget (the (mapping_of v)) ''agent_type'' of PStr ty \<Rightarrow> ty | _ \<Rightarrow> []);
              n = dget_or counts ty 0 + 1; counts1 = dset ty n counts in
          if dget latest tid \<noteq> None then record_missing env l pid reason vs counts1 latest
          else let w = missing_worker env l pid tid ty n reason in
            jbind (timed env ''subagent_worker_result'' w) (\<lambda>_. record_missing env l pid reason vs counts1 (dset tid w latest)))"
  by (simp add: named_task_def Let_def split: option.split pyval.split)

definition worker_of :: "string \<Rightarrow> string \<Rightarrow> payload \<Rightarrow> bool" where
  "worker_of pid tid e \<longleftrightarrow> worker_record e \<and> pget e ''pool_id'' = PStr pid \<and> pget e ''task_id'' = PStr tid"

lemma record_missing_run:
  assumes "clean j" "content j = map JObj es" "record_missing env l pid reason vs counts latest j = (Inr latest', j')"
    "\<forall>tid \<in> set (keys latest). \<exists>e \<in> set es. worker_of pid tid e"
  shows "\<exists>ws. clean j' \<and> content j' = map JObj (es @ ws) \<and> list_all worker_record ws
    \<and> (\<forall>tid \<in> set (keys latest'). \<exists>e \<in> set (es @ ws). worker_of pid tid e)
    \<and> (\<forall>v \<in> set vs. \<forall>tid. named_task v = Some tid \<longrightarrow> tid \<in> set (keys latest')) \<and> set (keys latest) \<subseteq> set (keys latest')"
  using assms
proof (induction vs arbitrary: j es counts latest)
  case Nil
  then show ?case by (auto simp: jret_def intro!: exI[of _ "[]"])
next
  case (Cons v vs)
  show ?case
  proof (cases "named_task v")
    case None
    then have "record_missing env l pid reason vs counts latest j = (Inr latest', j')"
      using Cons.prems(3) by (simp only: record_missing_step option.case)
    from Cons.IH[OF Cons.prems(1,2) this Cons.prems(4)] None show ?thesis by auto
  next
    case (Some tid)
    let ?ty = "case pget (the (mapping_of v)) ''agent_type'' of PStr ty \<Rightarrow> ty | _ \<Rightarrow> []"
    let ?n = "dget_or counts ?ty 0 + 1"
    show ?thesis
    proof (cases "dget latest tid \<noteq> None")
      case True
      then have "record_missing env l pid reason vs (dset ?ty ?n counts) latest j = (Inr latest', j')"
        using Cons.prems(3) Some by (simp only: record_missing_step option.case Let_def if_True simp_thms)
      from Cons.IH[OF Cons.prems(1,2) this Cons.prems(4)] have ih: "\<exists>ws. clean j' \<and> content j' = map JObj (es @ ws) \<and> list_all worker_record ws
        \<and> (\<forall>tid \<in> set (keys latest'). \<exists>e \<in> set (es @ ws). worker_of pid tid e)
        \<and> (\<forall>v \<in> set vs. \<forall>tid. named_task v = Some tid \<longrightarrow> tid \<in> set (keys latest')) \<and> set (keys latest) \<subseteq> set (keys latest')" .
      have "tid \<in> set (keys latest)" using True by (auto dest: map_of_in_keys)
      then show ?thesis using ih Some by auto
    next
      case False
      let ?w = "missing_worker env l pid tid ?ty ?n reason"
      have run: "jbind (timed env ''subagent_worker_result'' ?w) (\<lambda>_. record_missing env l pid reason vs (dset ?ty ?n counts) (dset tid ?w latest)) j
          = (Inr latest', j')"
        using Cons.prems(3) Some False by (simp only: record_missing_step option.case Let_def if_False)
      then obtain u j1 where j1: "timed env ''subagent_worker_result'' ?w j = (Inr u, j1)"
          "record_missing env l pid reason vs (dset ?ty ?n counts) (dset tid ?w latest) j1 = (Inr latest', j')"
        by (auto simp: jbind_def split: prod.splits sum.splits)
      let ?e = "timed_entry env j ''subagent_worker_result'' ?w"
      have c1: "clean j1" "content j1 = map JObj (es @ [?e])" using timed_run[OF Cons.prems(1,2) j1(1)] by simp_all
      have e: "worker_of pid tid ?e"
        by (simp add: worker_of_def worker_record_def missing_worker_def pget_def dget_or_def timed_entry_def stamped_def)
      have "\<forall>tid' \<in> set (keys (dset tid ?w latest)). \<exists>e \<in> set (es @ [?e]). worker_of pid tid' e"
        using Cons.prems(4) e by (auto simp: set_keys_dset)
      from Cons.IH[OF c1 j1(2) this] obtain ws where ws: "clean j'" "content j' = map JObj ((es @ [?e]) @ ws)" "list_all worker_record ws"
          "\<forall>tid \<in> set (keys latest'). \<exists>e \<in> set ((es @ [?e]) @ ws). worker_of pid tid e"
          "\<forall>v \<in> set vs. \<forall>tid. named_task v = Some tid \<longrightarrow> tid \<in> set (keys latest')" "set (keys (dset tid ?w latest)) \<subseteq> set (keys latest')"
        by blast
      have "worker_record ?e" using e by (simp add: worker_of_def)
      then show ?thesis using ws Some by (intro exI[of _ "?e # ws"]) (auto simp: set_keys_dset)
    qed
  qed
qed

lemma keys_latest_workers:
  "tid \<in> set (keys (fold (\<lambda>r d. case pget r ''task_id'' of PStr t \<Rightarrow> dset t r d | _ \<Rightarrow> d) rs d)) \<Longrightarrow>
    tid \<in> set (keys d) \<or> (\<exists>r \<in> set rs. pget r ''task_id'' = PStr tid)"
proof (induction rs arbitrary: d)
  case (Cons r rs)
  let ?d = "case pget r ''task_id'' of PStr t \<Rightarrow> dset t r d | _ \<Rightarrow> d"
  have "tid \<in> set (keys ?d) \<or> (\<exists>r \<in> set rs. pget r ''task_id'' = PStr tid)" using Cons.IH[of ?d] Cons.prems by simp
  moreover have "tid \<in> set (keys ?d) \<Longrightarrow> tid \<in> set (keys d) \<or> pget r ''task_id'' = PStr tid"
    by (cases "pget r ''task_id''") (auto simp: set_keys_dset)
  ultimately show ?case by auto
qed simp

lemma latest_workers_recorded:
  assumes "tid \<in> set (keys (latest_workers pid (filter worker_record es)))"
  shows "\<exists>e \<in> set es. worker_of pid tid e"
  using keys_latest_workers[OF assms[unfolded latest_workers_def]] by (auto simp: worker_of_def)

text \<open>Closing the unfinished workers of a lifecycle writes worker records only, and leaves no listed task without one.\<close>

lemma record_unfinished_run:
  assumes "clean j" "content j = map JObj es" "record_unfinished env l reason j = (Inr x, j')" "pget l ''pool_id'' = PStr pid"
  shows "\<exists>ws. clean j' \<and> content j' = map JObj (es @ ws) \<and> list_all worker_record ws
    \<and> (\<forall>v \<in> set (listed_tasks l). \<forall>tid. named_task v = Some tid \<longrightarrow> (\<exists>e \<in> set (es @ ws). worker_of pid tid e))"
proof -
  have pid: "text_field (pe_float env) l ''pool_id'' [] = pid"
    using pget_PStr_dget[OF assms(4)] by (simp add: text_field_def dget_or_def)
  obtain j1 where j1: "subagent_kind ''subagent_worker_result'' j = (Inr (filter worker_record es), j1)" "clean j1" "content j1 = map JObj es"
    using kind_run[OF assms(1,2), of "''subagent_worker_result''"] assms(2)
    by (auto simp: starts_with_def worker_record_def[abs_def])
  obtain latest where r: "record_missing env l pid reason (listed_tasks l) [] (latest_workers pid (filter worker_record es)) j1 = (Inr latest, j')"
    using assms(3) j1(1) pid by (auto simp: record_unfinished_def Let_def jbind_def jret_def split: prod.splits sum.splits)
  obtain ws where "clean j'" "content j' = map JObj (es @ ws)" "list_all worker_record ws"
     "\<forall>tid \<in> set (keys latest). \<exists>e \<in> set (es @ ws). worker_of pid tid e"
     "\<forall>v \<in> set (listed_tasks l). \<forall>tid. named_task v = Some tid \<longrightarrow> tid \<in> set (keys latest)"
    using record_missing_run[OF j1(2,3) r] latest_workers_recorded by blast
  then show ?thesis by blast
qed

section \<open>Recovery\<close>

definition answered_tasks :: "payload list \<Rightarrow> payload \<Rightarrow> bool" where
  "answered_tasks es l \<longleftrightarrow> (\<forall>v \<in> set (listed_tasks l). \<forall>tid. named_task v = Some tid \<longrightarrow>
     (\<exists>e \<in> set es. worker_record e \<and> pget e ''pool_id'' = pget l ''pool_id'' \<and> pget e ''task_id'' = PStr tid))"

lemma answered_more: "answered_tasks es l \<Longrightarrow> set es \<subseteq> set es' \<Longrightarrow> answered_tasks es' l"
  unfolding answered_tasks_def by blast

lemma set_keys_step: "set (keys d) \<subseteq> set (keys (lifecycle_step e d))"
  by (auto simp: lifecycle_step_def Let_def set_keys_dset split: pyval.split option.split)

definition open_ids :: "payload list \<Rightarrow> string list" where
  "open_ids ls = some_strs (map (\<lambda>l. pget l ''pool_id'') (filter unfinished ls))"

lemma some_strs_simps [simp]: "some_strs [] = []" "some_strs (PStr s # vs) = s # some_strs vs"
  by (simp_all add: some_strs_def)

lemma set_some_strs: "p \<in> set (some_strs vs) \<longleftrightarrow> PStr p \<in> set vs"
proof (induction vs)
  case (Cons v vs)
  then show ?case by (cases v) (auto simp: some_strs_def)
qed simp

lemma set_open_ids: "p \<in> set (open_ids ls) \<longleftrightarrow> (\<exists>l \<in> set ls. unfinished l \<and> pget l ''pool_id'' = PStr p)"
  by (auto simp: open_ids_def set_some_strs image_iff)

lemma interrupted_step:
  assumes "pget e ''kind'' = PStr ''subagent_pool_interrupted''" "pget e ''pool_id'' = PStr pid" "pid \<noteq> []" "dget d pid = Some v"
  shows "lifecycle_step e d = dset pid (dset ''status'' (PStr ''interrupted'') (absorb e v)) d"
  using assms by (simp add: lifecycle_step_def terminal_status_def)

lemma recover_pools_run:
  assumes "clean j" "content j = map JObj es" "recover_pools env ls j = (Inr ps, j')"
    "\<forall>l \<in> set ls. \<exists>p. p \<noteq> [] \<and> pget l ''pool_id'' = PStr p \<and> p \<in> set (keys (pools es))"
  shows "\<exists>ws. clean j' \<and> content j' = map JObj (es @ ws) \<and> ps = open_ids ls
    \<and> set (keys (pools (es @ ws))) = set (keys (pools es))
    \<and> (\<forall>p. p \<notin> set ps \<longrightarrow> dget (pools (es @ ws)) p = dget (pools es) p)
    \<and> (\<forall>p \<in> set ps. \<exists>v. dget (pools (es @ ws)) p = Some v \<and> pget v ''status'' = PStr ''interrupted'')
    \<and> (\<forall>l \<in> set ls. unfinished l \<longrightarrow> answered_tasks (es @ ws) l)"
  using assms
proof (induction ls arbitrary: j es ps)
  case Nil
  then show ?case by (auto simp: jret_def open_ids_def intro!: exI[of _ "[]"])
next
  case (Cons l ls)
  obtain pid where pid: "pid \<noteq> []" "pget l ''pool_id'' = PStr pid" "pid \<in> set (keys (pools es))" using Cons.prems(4) by auto
  show ?case
  proof (cases "unfinished l")
    case False
    then have "recover_pools env ls j = (Inr ps, j')" using Cons.prems(3) by simp
    from Cons.IH[OF Cons.prems(1,2) this] Cons.prems(4) False show ?thesis by (auto simp: open_ids_def)
  next
    case True
    obtain tot succ answer j1 where j1: "record_unfinished env l ''interrupted by process restart'' j = (Inr (tot, succ, answer), j1)"
      using Cons.prems(3) True pid by (auto simp: jbind_def split: prod.splits sum.splits)
    let ?rest = "(''pool_id'', PStr pid) # counted tot succ answer"
    obtain u j2 qs where j2: "timed env ''subagent_pool_interrupted'' ?rest j1 = (Inr u, j2)"
        "recover_pools env ls j2 = (Inr qs, j')" "ps = pid # qs"
      using Cons.prems(3) True pid j1 by (auto simp: jbind_def jret_def split: prod.splits sum.splits)
    obtain ws where ws: "clean j1" "content j1 = map JObj (es @ ws)" "list_all worker_record ws"
        "\<forall>v \<in> set (listed_tasks l). \<forall>tid. named_task v = Some tid \<longrightarrow> (\<exists>e \<in> set (es @ ws). worker_of pid tid e)"
      using record_unfinished_run[OF Cons.prems(1,2) j1 pid(2)] by blast
    let ?e = "timed_entry env j1 ''subagent_pool_interrupted'' ?rest"
    have c2: "clean j2" "content j2 = map JObj ((es @ ws) @ [?e])" using timed_run[OF ws(1,2) j2(1)] by simp_all
    have same: "pools (es @ ws) = pools es"
      by (rule pools_others) (use ws(3) worker_not_pool in \<open>auto simp: list_all_iff\<close>)
    obtain v where v: "dget (pools es) pid = Some v" using in_keys_map_of[OF pid(3)] by blast
    have fields: "pget ?e ''kind'' = PStr ''subagent_pool_interrupted''" "pget ?e ''pool_id'' = PStr pid"
      by (simp_all add: pget_def dget_or_def timed_entry_def stamped_def)
    have "pool_record ?e" by (auto simp: pool_record_def pool_kinds_def fields)
    then have p2: "pools ((es @ ws) @ [?e]) = dset pid (dset ''status'' (PStr ''interrupted'') (absorb ?e v)) (pools es)"
      using interrupted_step[OF fields pid(1) v] same by (simp add: pools_snoc del: append_assoc)
    have keys2: "set (keys (pools ((es @ ws) @ [?e]))) = set (keys (pools es))"
      unfolding p2 using pid(3) by (auto simp: set_keys_dset)
    have "\<forall>l \<in> set ls. \<exists>p. p \<noteq> [] \<and> pget l ''pool_id'' = PStr p \<and> p \<in> set (keys (pools ((es @ ws) @ [?e])))"
      using Cons.prems(4) keys2 by simp
    from Cons.IH[OF c2 j2(2) this] obtain zs where zs: "clean j'" "content j' = map JObj (((es @ ws) @ [?e]) @ zs)" "qs = open_ids ls"
        "set (keys (pools (((es @ ws) @ [?e]) @ zs))) = set (keys (pools ((es @ ws) @ [?e])))"
        "\<forall>p. p \<notin> set qs \<longrightarrow> dget (pools (((es @ ws) @ [?e]) @ zs)) p = dget (pools ((es @ ws) @ [?e])) p"
        "\<forall>p \<in> set qs. \<exists>v. dget (pools (((es @ ws) @ [?e]) @ zs)) p = Some v \<and> pget v ''status'' = PStr ''interrupted''"
        "\<forall>l \<in> set ls. unfinished l \<longrightarrow> answered_tasks (((es @ ws) @ [?e]) @ zs) l"
      by blast
    have here: "dget (pools ((es @ ws) @ [?e])) pid = Some (dset ''status'' (PStr ''interrupted'') (absorb ?e v))"
      unfolding p2 by simp
    have status: "pget (dset ''status'' (PStr ''interrupted'') (absorb ?e v)) ''status'' = PStr ''interrupted''" by (simp add: pget_dset_key)
    have tasks: "answered_tasks (es @ ws) l" using ws(4) pid(2) by (auto simp: answered_tasks_def worker_of_def)
    have all: "es @ (ws @ ?e # zs) = ((es @ ws) @ [?e]) @ zs" by simp
    show ?thesis
    proof (intro exI[of _ "ws @ ?e # zs"] conjI)
      show "clean j'" by (rule zs(1))
      show "content j' = map JObj (es @ (ws @ ?e # zs))" using zs(2) by simp
      show "ps = open_ids (l # ls)" using j2(3) zs(3) True pid(2) by (simp add: open_ids_def)
      show "set (keys (pools (es @ (ws @ ?e # zs)))) = set (keys (pools es))" unfolding all using zs(4) keys2 by simp
      show "\<forall>p. p \<notin> set ps \<longrightarrow> dget (pools (es @ (ws @ ?e # zs))) p = dget (pools es) p"
        unfolding all using zs(5) j2(3) p2 by simp
      show "\<forall>p \<in> set ps. \<exists>v. dget (pools (es @ (ws @ ?e # zs))) p = Some v \<and> pget v ''status'' = PStr ''interrupted''"
        unfolding all j2(3)
      proof
        fix p assume p: "p \<in> set (pid # qs)"
        show "\<exists>v. dget (pools (((es @ ws) @ [?e]) @ zs)) p = Some v \<and> pget v ''status'' = PStr ''interrupted''"
        proof (cases "p \<in> set qs")
          case True
          then show ?thesis using zs(6) by blast
        next
          case False
          then have "p = pid" using p by simp
          then show ?thesis using zs(5) False here status by auto
        qed
      qed
      show "\<forall>l' \<in> set (l # ls). unfinished l' \<longrightarrow> answered_tasks (es @ (ws @ ?e # zs)) l'"
      proof
        fix l' assume "l' \<in> set (l # ls)"
        moreover have "answered_tasks (((es @ ws) @ [?e]) @ zs) l" by (rule answered_more[OF tasks]) auto
        ultimately show "unfinished l' \<longrightarrow> answered_tasks (es @ (ws @ ?e # zs)) l'" unfolding all using zs(7) by auto
      qed
    qed
  qed
qed

end
