(* ===== verification/Pool_Properties.thy ===== *)
theory Pool_Properties
  imports Pool_Laws Journal_Properties
begin

text \<open>
  Background pools over a restart: recovery leaves none active and is not repeated, and the parent is told of each pool
  once.
\<close>

section \<open>Helpers\<close>

lemma clean_map:
  assumes "clean j"
  obtains es where "content j = map JObj es"
  using clean_records[OF assms] by metis

lemma pools_filed: "l \<in> set (map snd (pools es)) \<Longrightarrow> \<exists>p. p \<noteq> [] \<and> pget l ''pool_id'' = PStr p \<and> p \<in> set (keys (pools es))"
  using pools_are_ok[of es] by (force simp: pools_ok_def keys_def)

lemma recover_none:
  assumes "\<forall>l \<in> set ls. \<not> unfinished l"
  shows "recover_pools env ls = jret []"
  using assms by (induction ls) (simp_all add: fun_eq_iff)

lemma open_ids_lookup:
  assumes "p \<in> set (open_ids (map snd (pools es)))"
  shows "\<exists>v. dget (pools es) p = Some v \<and> unfinished v"
proof -
  obtain l where l: "l \<in> set (map snd (pools es))" "unfinished l" "pget l ''pool_id'' = PStr p"
    using assms by (auto simp: set_open_ids)
  then obtain q where "(q, l) \<in> set (pools es)" "pget l ''pool_id'' = PStr q"
    using pools_are_ok[of es] by (force simp: pools_ok_def)
  then have "(p, l) \<in> set (pools es)" "distinct (map fst (pools es))" using l(3) pools_are_ok[of es] by (auto simp: pools_ok_def keys_def)
  then show ?thesis using l(2) by (auto simp: map_of_eq_Some_iff)
qed

lemma recovery_effect:
  assumes "clean j" "content j = map JObj es" "any_order env" "recover_interrupted_subagent_pools env j = (Inr ps, j')"
  shows "\<exists>ws. clean j' \<and> content j' = map JObj (es @ ws) \<and> ps = open_ids (map snd (pools es))
    \<and> (\<forall>l \<in> set (map snd (pools (es @ ws))). \<not> unfinished l)
    \<and> (\<forall>l \<in> set (map snd (pools es)). unfinished l \<longrightarrow> answered_tasks (es @ ws) l)"
proof -
  obtain j1 where j1: "fold_subagent_pool_lifecycle env j = (Inr (map snd (pools es)), j1)" "clean j1" "content j1 = map JObj es"
    using lifecycle_run[OF assms(1-3)] assms(2) by auto
  have run: "recover_pools env (map snd (pools es)) j1 = (Inr ps, j')"
    using assms(4) j1(1) by (simp add: recover_interrupted_subagent_pools_def jbind_def)
  have filed: "\<forall>l \<in> set (map snd (pools es)). \<exists>p. p \<noteq> [] \<and> pget l ''pool_id'' = PStr p \<and> p \<in> set (keys (pools es))"
    using pools_filed by blast
  obtain ws where ws: "clean j'" "content j' = map JObj (es @ ws)" "ps = open_ids (map snd (pools es))"
    "set (keys (pools (es @ ws))) = set (keys (pools es))"
    "\<forall>p. p \<notin> set ps \<longrightarrow> dget (pools (es @ ws)) p = dget (pools es) p"
    "\<forall>p \<in> set ps. \<exists>v. dget (pools (es @ ws)) p = Some v \<and> pget v ''status'' = PStr ''interrupted''"
    "\<forall>l \<in> set (map snd (pools es)). unfinished l \<longrightarrow> answered_tasks (es @ ws) l"
    using recover_pools_run[OF j1(2,3) run filed] by blast
  have "\<not> unfinished l" if l: "l \<in> set (map snd (pools (es @ ws)))" for l
  proof -
    obtain p where p: "(p, l) \<in> set (pools (es @ ws))" using l by auto
    have d: "distinct (map fst (pools (es @ ws)))" using pools_are_ok[of "es @ ws"] by (simp add: pools_ok_def keys_def)
    have get: "dget (pools (es @ ws)) p = Some l" using p d by (simp add: map_of_eq_Some_iff)
    show ?thesis
    proof (cases "p \<in> set ps")
      case True
      then show ?thesis using ws(6) get by (auto simp: unfinished_def)
    next
      case False
      then have old: "dget (pools es) p = Some l" using ws(5) get by simp
      then have mem: "(p, l) \<in> set (pools es)" by (rule map_of_SomeD)
      then have "pget l ''pool_id'' = PStr p" using pools_are_ok[of es] by (auto simp: pools_ok_def)
      then have "unfinished l \<Longrightarrow> p \<in> set (open_ids (map snd (pools es)))"
        using mem by (force simp: set_open_ids)
      then show ?thesis using False ws(3) by blast
    qed
  qed
  then show ?thesis using ws by blast
qed





section \<open>Properties\<close>

text \<open>
  C23. A restart closes what a crash left open. Recovery, on the journal of any session, names the pools that were
  running or in the background, records a result for every task they had listed, and marks them interrupted:
  afterwards no pool is active, and recovering again names none and writes nothing.
\<close>

theorem pool_recovery:
  assumes "list_all mild ds" "memory_open la tid event (journal_open \<lparr>jf_lines = [], jf_tail = Clean\<rparr> ds) = Inr m0"
    "(memory_step la)\<^sup>*\<^sup>* m0 m" "distinct (pe_order env)" "set (pe_order env) = set pool_kinds"
    "recover_interrupted_subagent_pools env (mem_journal m) = (Inr ps, j)"
  shows "\<exists>before after j1. fst (fold_subagent_pool_lifecycle env (mem_journal m)) = Inr before
    \<and> fst (fold_subagent_pool_lifecycle env j) = Inr after
    \<and> ps = some_strs (map (\<lambda>l. pget l ''pool_id'') (filter unfinished before))
    \<and> filter unfinished after = []
    \<and> (\<forall>l \<in> set (filter unfinished before). answered_tasks (objects (content j)) l)
    \<and> recover_interrupted_subagent_pools env j = (Inr [], j1) \<and> content j1 = content j"
proof -
  have ok: "mem_ok m" by (rule memory_run_ok[OF assms(1-3)])
  then have c: "clean (mem_journal m)" by (simp add: mem_ok_def)
  obtain es where es: "content (mem_journal m) = map JObj es" by (rule clean_map[OF c])
  have order: "any_order env" using assms(4,5) by (simp add: any_order_def)
  obtain ws where ws: "clean j" "content j = map JObj (es @ ws)" "ps = open_ids (map snd (pools es))"
    "\<forall>l \<in> set (map snd (pools (es @ ws))). \<not> unfinished l"
    "\<forall>l \<in> set (map snd (pools es)). unfinished l \<longrightarrow> answered_tasks (es @ ws) l"
    using recovery_effect[OF c es order assms(6)] by blast
  obtain j0 where before: "fold_subagent_pool_lifecycle env (mem_journal m) = (Inr (map snd (pools es)), j0)"
    using lifecycle_run[OF c es order] by blast
  obtain j1 where after: "fold_subagent_pool_lifecycle env j = (Inr (map snd (pools (es @ ws))), j1)" "content j1 = content j"
    using lifecycle_run[OF ws(1,2) order] by blast
  have "recover_interrupted_subagent_pools env j = (Inr [], j1)"
    using after(1) recover_none[OF ws(4)] by (simp add: recover_interrupted_subagent_pools_def jbind_def jret_def)
  moreover have "filter unfinished (map snd (pools (es @ ws))) = []" using ws(4) by (simp add: filter_empty_conv)
  moreover have "objects (content j) = es @ ws" unfolding ws(2) by (rule objects_map)
  ultimately show ?thesis
    using before after ws(3,5) by (intro exI[of _ "map snd (pools es)"] exI[of _ "map snd (pools (es @ ws))"] exI[of _ j1]) (auto simp: open_ids_def)
qed


section \<open>Witnesses\<close>

definition demo_pool_env :: pool_env where
  "demo_pool_env = \<lparr>pe_clock = (\<lambda>_. Fin 0), pe_float = (\<lambda>_. []), pe_order = pool_kinds, pe_done = ''ok'', pe_failed = ''failed''\<rparr>"

definition demo_start :: payload where
  "demo_start = [(''kind'', PStr ''subagent_pool_started''), (''pool_id'', PStr ''p1''), (''fingerprint'', PStr ''f''),
     (''tasks'', PList [of_dict [(''task_id'', PStr ''t1''), (''agent_type'', PStr ''explore'')]])]"

definition demo_background :: payload where
  "demo_background = [(''kind'', PStr ''subagent_pool_backgrounded''), (''pool_id'', PStr ''p1'')]"


definition noted :: "payload \<Rightarrow> memory \<Rightarrow> memory" where
  "noted e m = snd (on_journal (journal_emit e) m)"

lemma noted_step: "neutral e \<Longrightarrow> (memory_step la)\<^sup>*\<^sup>* m m' \<Longrightarrow> (memory_step la)\<^sup>*\<^sup>* m (noted e m')"
  unfolding noted_def by (rule rtranclp.rtrancl_into_rtrancl, assumption, rule step_note[OF _ prod.collapse[symmetric]])

definition demo_pool_open :: memory where
  "demo_pool_open = noted demo_background (noted demo_start demo_m0)"


lemma demo_pool_open_run: "(memory_step plain_lauren)\<^sup>*\<^sup>* demo_m0 demo_pool_open"
  unfolding demo_pool_open_def
  by (intro noted_step rtranclp.rtrancl_refl) (simp_all add: neutral_def demo_start_def demo_background_def pget_def)


theorem pool_recovery_witness:
  "fst (recover_interrupted_subagent_pools demo_pool_env (mem_journal demo_pool_open)) = Inr [''p1'']
    \<and> (\<exists>after. fst (fold_subagent_pool_lifecycle demo_pool_env (snd (recover_interrupted_subagent_pools demo_pool_env (mem_journal demo_pool_open)))) = Inr after
        \<and> filter unfinished after = [])"
proof -
  have run: "fst (recover_interrupted_subagent_pools demo_pool_env (mem_journal demo_pool_open)) = Inr [''p1'']" by code_simp
  then have eq: "recover_interrupted_subagent_pools demo_pool_env (mem_journal demo_pool_open)
    = (Inr [''p1''], snd (recover_interrupted_subagent_pools demo_pool_env (mem_journal demo_pool_open)))" by (metis prod.collapse)
  have "distinct (pe_order demo_pool_env)" "set (pe_order demo_pool_env) = set pool_kinds" by (simp_all add: demo_pool_env_def pool_kinds_def)
  from pool_recovery[OF _ demo_opened demo_pool_open_run this eq] show ?thesis using run by auto
qed



end
