(* ===== verification/Question_Properties.thy ===== *)
theory Question_Properties
  imports Pool_Properties Broker_Properties
begin










section \<open>Witness\<close>



end
