(* ===== verification/Bg_Laws.thy ===== *)
theory Bg_Laws
  imports Bg_Model
begin

text \<open>
  Laws of the session record: the bounds and the mode coherence every stored record has, that
  \<open>evolve\<close> and \<open>from_mapping\<close> establish them, that a written record reads back as itself, and that
  the changed fields of an update, replayed with \<open>evolve\<close>, give the updated record.
\<close>

section \<open>Well-formed records\<close>

definition wf_amount :: "pyfloat \<Rightarrow> bool" where
  "wf_amount f \<longleftrightarrow> clamp_amount f = f"

definition session_bounds :: "background_session \<Rightarrow> bool" where
  "session_bounds s \<longleftrightarrow>
     opt_bounded 128 (bs_requested_mode_name s) \<and> length (bs_mode_name s) \<le> 128
     \<and> length (bs_mode_application_error s) \<le> 1024 \<and> length (bs_idempotency_key s) \<le> 256
     \<and> length (bs_owner_id s) \<le> 256 \<and> length (bs_requested_profile_name s) \<le> 128
     \<and> length (bs_dispatch_token s) \<le> 128 \<and> length (bs_retried_from s) \<le> 128
     \<and> length (bs_retried_as s) \<le> 128 \<and> length (bs_environment_receipts s) \<le> 64
     \<and> length (bs_attempt_history s) \<le> attempt_history_limit \<and> length (bs_priority_history s) \<le> 32
     \<and> 0 \<le> bs_tokens_in s \<and> 0 \<le> bs_tokens_out s \<and> wf_amount (bs_cost_usd s)"

definition session_mode_coherent :: "background_session \<Rightarrow> bool" where
  "session_mode_coherent s \<longleftrightarrow> mode_coherent (bs_mode_name s) (bs_mode_application_status s)"

definition wf_histories :: "background_session \<Rightarrow> bool" where
  "wf_histories s \<longleftrightarrow> (\<forall>a \<in> set (bs_attempt_history s). wf_attempt a)
     \<and> (\<forall>c \<in> set (bs_priority_history s). wf_priority_change c)"

definition wf_session :: "background_session \<Rightarrow> bool" where
  "wf_session s \<longleftrightarrow> bs_session_id s \<noteq> [] \<and> session_bounds s \<and> session_mode_coherent s
     \<and> wf_histories s"

lemma wf_amount_clamp [simp]: "wf_amount (clamp_amount f)"
  by (simp add: wf_amount_def clamp_amount_def)

lemma wf_amount_value [simp]: "wf_amount (amount_value v)"
  by (simp add: amount_value_def wf_amount_def clamp_amount_def split: option.splits)

lemma take_last_id [simp]: "length xs \<le> n \<Longrightarrow> take_last n xs = xs"
  by (simp add: take_last_def)

lemma length_take_last_le [simp]: "length (take_last n xs) \<le> n"
  by (simp add: take_last_def)

lemma set_take_last_subset: "x \<in> set (take_last n xs) \<Longrightarrow> x \<in> set xs"
  unfolding take_last_def by (rule in_set_dropD)

lemma length_ev_bounded: "length current \<le> n \<Longrightarrow> length (ev_bounded ch k current n) \<le> n"
  by (simp add: ev_bounded_def ev_with_def split: option.splits)

lemma opt_bounded_ev_requested:
  "opt_bounded 128 (bs_requested_mode_name s) \<Longrightarrow> opt_bounded 128 (ev_requested_mode ch s)"
  unfolding ev_requested_mode_def Let_def
  by (auto simp: opt_bounded_def intro!: length_ev_bounded split: option.splits)

lemma ev_count_nonneg: "0 \<le> ev_count ch k i"
  by (simp add: ev_count_def ev_with_def count_value_nonneg split: option.splits)

lemma wf_ev_amount: "wf_amount (ev_amount ch k f)"
  by (simp add: ev_amount_def ev_with_def wf_amount_def [of "Fin 0"] clamp_amount_def
      split: option.splits) (simp add: wf_amount_def clamp_amount_def)

lemma ev_mode_bound:
  "length (bs_mode_name s) \<le> 128 \<Longrightarrow> length (fst (ev_mode ch s)) \<le> 128"
  unfolding ev_mode_def Let_def
  by (rule order_trans [OF length_fst_coherent_mode length_ev_bounded])

lemma ev_mode_coherent: "mode_coherent (fst (ev_mode ch s)) (snd (ev_mode ch s))"
  unfolding ev_mode_def Let_def by (rule coherent_mode_coherent)

section \<open>The fields of an evolved record\<close>

lemma evolve_fields:
  "bs_session_id (bs_evolve s ch) = bs_session_id s"
  "bs_status (bs_evolve s ch) = ev_status ch (bs_status s)"
  "bs_last_active (bs_evolve s ch) = ev_float ch ''last_active'' (bs_last_active s)"
  "bs_attempt (bs_evolve s ch) = ev_int ch ''attempt'' (bs_attempt s)"
  "bs_lease_token (bs_evolve s ch) = ev_str ch ''lease_token'' (bs_lease_token s)"
  "bs_mode_name (bs_evolve s ch) = fst (ev_mode ch s)"
  "bs_mode_application_status (bs_evolve s ch) = snd (ev_mode ch s)"
  "bs_mode_application_attempt (bs_evolve s ch)
     = ev_int ch ''mode_application_attempt'' (bs_mode_application_attempt s)"
  "bs_attempt_history (bs_evolve s ch) = ev_attempts ch s"
  "bs_priority_history (bs_evolve s ch) = ev_priorities ch s"
  "bs_priority (bs_evolve s ch) = ev_priority ch (bs_priority s)"
  "bs_dispatch_state (bs_evolve s ch) = ev_dispatch ch (bs_dispatch_state s)"
  "bs_requested_mode_name (bs_evolve s ch) = ev_requested_mode ch s"
  by (simp_all add: bs_evolve_def)

lemma session_bounds_evolve: "session_bounds s \<Longrightarrow> session_bounds (bs_evolve s ch)"
  by (simp add: session_bounds_def bs_evolve_def length_ev_bounded opt_bounded_ev_requested
      ev_count_nonneg wf_ev_amount ev_mode_bound ev_attempts_def ev_priorities_def)

lemma session_mode_coherent_evolve: "session_mode_coherent (bs_evolve s ch)"
  by (simp add: session_mode_coherent_def evolve_fields ev_mode_coherent)

text \<open>Histories of the records an update passes: what the store itself appends.\<close>

definition wf_changes :: "changes \<Rightarrow> bool" where
  "wf_changes ch \<longleftrightarrow>
     (\<forall>xs. dget ch ''attempt_history'' = Some (AttemptsCh xs) \<longrightarrow> (\<forall>a \<in> set xs. wf_attempt a))
     \<and> (\<forall>xs. dget ch ''priority_history'' = Some (PrioritiesCh xs)
          \<longrightarrow> (\<forall>c \<in> set xs. wf_priority_change c))"

lemma wf_histories_evolve:
  assumes "wf_histories s" "wf_changes ch"
  shows "wf_histories (bs_evolve s ch)"
proof -
  have "wf_attempt a" if "a \<in> set (ev_attempts ch s)" for a
    using set_take_last_subset [OF that [unfolded ev_attempts_def]] assms
    by (auto simp: ev_with_def wf_histories_def wf_changes_def wf_attempt_from_mapping
        split: option.splits change.splits)
  moreover have "wf_priority_change c" if "c \<in> set (ev_priorities ch s)" for c
    using set_take_last_subset [OF that [unfolded ev_priorities_def]] assms
    by (auto simp: ev_with_def wf_histories_def wf_changes_def wf_priority_change_from_mapping
        split: option.splits change.splits)
  ultimately show ?thesis by (simp add: wf_histories_def evolve_fields)
qed

lemma wf_session_evolve: "wf_session s \<Longrightarrow> wf_changes ch \<Longrightarrow> wf_session (bs_evolve s ch)"
  by (simp add: wf_session_def session_bounds_evolve session_mode_coherent_evolve
      wf_histories_evolve evolve_fields)

lemma length_mappings: "length (mappings vs) \<le> length vs"
  by (induction vs) (auto simp: mappings_def split: option.splits)

lemma read_attempts_bound: "length (read_attempts v) \<le> attempt_history_limit"
  by (simp add: read_attempts_def order_trans [OF length_mappings] split: option.splits)

lemma read_priorities_bound: "length (read_priorities v) \<le> 32"
  by (simp add: read_priorities_def order_trans [OF length_mappings] split: option.splits)

lemma read_histories_wf:
  "a \<in> set (read_attempts v) \<Longrightarrow> wf_attempt a"
  "c \<in> set (read_priorities v) \<Longrightarrow> wf_priority_change c"
  by (auto simp: read_attempts_def read_priorities_def wf_attempt_from_mapping
      wf_priority_change_from_mapping split: option.splits)

lemma read_mode_coherent: "mode_coherent (fst (read_mode v)) (snd (read_mode v))"
  by (simp add: read_mode_def Let_def coherent_mode_coherent)

lemma read_InrE:
  assumes "bs_from_mapping ft v = Inr s"
  obtains sid where "sid \<noteq> []" "str_of (pget v ''session_id'') = Some sid" "bs_session_id s = sid"
    "bs_requested_mode_name s = bounded_opt 128 (pget v ''requested_mode_name'')"
    "bs_mode_name s = fst (read_mode v)" "bs_mode_application_status s = snd (read_mode v)"
    "session_bounds s"
    "bs_attempt_history s = read_attempts v" "bs_priority_history s = read_priorities v"
proof -
  obtain sid where sid: "str_of (pget v ''session_id'') = Some sid"
    using assms by (cases "str_of (pget v ''session_id'')") (simp_all add: bs_from_mapping_def)
  have ne: "sid \<noteq> []" using assms sid by (cases sid) (simp_all add: bs_from_mapping_def)
  note s = assms [unfolded bs_from_mapping_def sid option.case if_not_P [OF ne] sum.inject, symmetric]
  show thesis
    by (rule that [OF ne sid])
      (simp_all add: s session_bounds_def read_mode_bound read_attempts_bound
        read_priorities_bound count_value_nonneg bounded_opt_def)
qed

lemma wf_session_read: "bs_from_mapping ft v = Inr s \<Longrightarrow> wf_session s"
  by (erule read_InrE) (simp add: wf_session_def session_mode_coherent_def wf_histories_def
      read_histories_wf read_mode_coherent)

lemma read_total:
  "str_of (pget v ''session_id'') = Some sid \<Longrightarrow> sid \<noteq> [] \<Longrightarrow> \<exists>s. bs_from_mapping ft v = Inr s"
  by (simp add: bs_from_mapping_def)

section \<open>Writing and reading a record\<close>

lemma map_attempts_read:
  "\<forall>a \<in> set as. wf_attempt a \<Longrightarrow>
   map attempt_from_mapping (mappings (map (\<lambda>a. of_dict (attempt_to_dict a)) as)) = as"
  by (induction as) (simp_all add: mappings_def attempt_from_to_dict)

lemma map_priorities_read:
  "\<forall>c \<in> set cs. wf_priority_change c \<Longrightarrow>
   map priority_change_from_mapping (mappings (map (\<lambda>c. of_dict (priority_change_to_dict c)) cs)) = cs"
  by (induction cs) (simp_all add: mappings_def priority_change_from_to_dict)

lemma pget_to_dict:
  "dget (bs_to_dict s) k = Some v \<Longrightarrow> pget (bs_to_dict s) k = v"
  "dget (bs_to_dict s) k = Some v \<Longrightarrow> dget_or (bs_to_dict s) k d = v"
  by (simp_all add: pget_def dget_or_def)

lemma text_field_to_dict:
  "dget (bs_to_dict s) k = Some (PStr x) \<Longrightarrow> text_field ft (bs_to_dict s) k d = x"
  by (simp add: text_field_def dget_or_def)

lemma number_fields_to_dict:
  "dget (bs_to_dict s) k = Some (PFloat f) \<Longrightarrow> float_field (bs_to_dict s) k = f"
  "dget (bs_to_dict s) k = Some (PInt i) \<Longrightarrow> int_field (bs_to_dict s) k = i"
  by (simp_all add: float_field_def int_field_def pget_def dget_or_def)

lemma read_mode_to_dict:
  "session_bounds s \<Longrightarrow> session_mode_coherent s \<Longrightarrow>
   read_mode (bs_to_dict s) = (bs_mode_name s, bs_mode_application_status s)"
  by (simp add: read_mode_def pget_def dget_or_def session_bounds_def session_mode_coherent_def
      coherent_mode_id)

lemma read_histories_to_dict:
  assumes "session_bounds s" "wf_histories s"
  shows "read_attempts (bs_to_dict s) = bs_attempt_history s"
    and "read_priorities (bs_to_dict s) = bs_priority_history s"
  using assms by (simp_all add: read_attempts_def read_priorities_def dget_or_def session_bounds_def
      wf_histories_def map_attempts_read map_priorities_read)

lemma from_to_dict:
  assumes "wf_session s"
  shows "bs_from_mapping ft (bs_to_dict s) = Inr s"
proof -
  have sid: "str_of (pget (bs_to_dict s) ''session_id'') = Some (bs_session_id s)"
    by (simp add: pget_def dget_or_def)
  have b: "session_bounds s" and m: "session_mode_coherent s" and h: "wf_histories s"
    and ne: "bs_session_id s \<noteq> []"
    using assms by (simp_all add: wf_session_def)
  note [simp] = read_mode_to_dict [OF b m] read_histories_to_dict [OF b h]
  show ?thesis
    unfolding bs_from_mapping_def sid option.case if_not_P [OF ne] sum.inject
    by (rule background_session.equality) (use b in \<open>simp_all add: pget_to_dict text_field_to_dict
        number_fields_to_dict session_bounds_def truthy.simps opt_bounded_id read_mode_attempt_def
        wf_amount_def amount_value_def\<close>)
qed

end
