(* ===== verification/Bg_Replay.thy ===== *)
theory Bg_Replay
  imports Bg_Laws
begin

text \<open>
  Replay of the session log (\<open>src/agenthicc/background/store.py\<close>): the fields an \<open>updated\<close> event
  carries (\<open>_changed_fields\<close>), \<open>_apply_event\<close>, and the deferred fold \<open>_EventFolder\<close> with its
  equivalence to applying every event in order. Events are decoded JSON objects; \<open>now\<close> is the
  clock a replay falls back on for an event without a timestamp.
\<close>

section \<open>Changed fields\<close>

text \<open>
  \<open>before.get(name) != value\<close> on the serialized fields: only a NaN differs from itself.
\<close>

definition py_differs :: "pyval \<Rightarrow> pyval \<Rightarrow> bool" where
  "py_differs v w \<longleftrightarrow> v \<noteq> w \<or> w = PFloat NaN"

definition changed_fields :: "background_session \<Rightarrow> background_session \<Rightarrow> payload" where
  "changed_fields previous updated =
     (let before = bs_to_dict previous;
          after = bs_to_dict updated;
          changes = filter (\<lambda>(name, v). name \<noteq> ''session_id'' \<and> py_differs (pget before name) v) after;
          attested = (if dget changes ''mode_name'' \<noteq> None
             then dset ''mode_application_status'' (pget after ''mode_application_status'') changes
             else changes)
      in dset ''last_active'' (pget after ''last_active'') attested)"

definition as_changes :: "payload \<Rightarrow> changes" where
  "as_changes = map (\<lambda>(k, v). (k, Plain v))"

lemma dget_as_changes [simp]: "dget (as_changes p) k = map_option Plain (dget p k)"
  by (induction p) (auto simp: as_changes_def)

definition carries :: "changes \<Rightarrow> string \<Rightarrow> pyval \<Rightarrow> pyval \<Rightarrow> bool" where
  "carries ch k v w \<longleftrightarrow> dget ch k = Some (Plain w) \<or> dget ch k = None \<and> v = w"

lemma dget_changed_fields:
  assumes "dget (bs_to_dict c) k = Some v" "dget (bs_to_dict n) k = Some w" "k \<noteq> ''session_id''"
  shows "dget (changed_fields c n) k = Some w \<or> dget (changed_fields c n) k = None \<and> v = w"
proof -
  let ?ch = "filter (\<lambda>(name, v). name \<noteq> ''session_id'' \<and> py_differs (pget (bs_to_dict c) name) v) (bs_to_dict n)"
  have f: "dget ?ch k = (if py_differs v w then Some w else None)"
    using assms by (simp add: map_of_filter_entries [OF distinct_keys_bs_to_dict] pget_def dget_or_def)
  have "dget ?ch k = Some w \<or> dget ?ch k = None \<and> v = w"
    by (cases "py_differs v w") (simp_all only: f if_True if_False, simp_all add: py_differs_def)
  moreover have "pget (bs_to_dict n) k = w" using assms by (simp add: pget_def dget_or_def)
  ultimately show ?thesis
    unfolding changed_fields_def Let_def by auto
qed

lemma carried:
  assumes "dget (bs_to_dict c) k = Some v" "dget (bs_to_dict n) k = Some w" "k \<noteq> ''session_id''"
  shows "carries (as_changes (changed_fields c n)) k v w"
  using dget_changed_fields [OF assms] by (auto simp: carries_def)

lemma carried_mode_status:
  assumes "dget (changed_fields c n) ''mode_name'' \<noteq> None"
  shows "dget (changed_fields c n) ''mode_application_status''
    = Some (PStr (mode_value (bs_mode_application_status n)))"
  using assms unfolding changed_fields_def Let_def
  by (auto simp: pget_def dget_or_def split: if_splits)

named_theorems carries_intros

lemma ev_str_carried [carries_intros]: "carries ch k (PStr a) (PStr b) \<Longrightarrow> ev_str ch k a = b"
  by (auto simp: carries_def ev_str_def ev_with_def)

lemma ev_bounded_carried [carries_intros]:
  "carries ch k (PStr a) (PStr b) \<Longrightarrow> length b \<le> n \<Longrightarrow> ev_bounded ch k a n = b"
  by (auto simp: carries_def ev_bounded_def ev_with_def)

lemma ev_float_carried [carries_intros]:
  "carries ch k (PFloat a) (PFloat b) \<Longrightarrow> ev_float ch k a = b"
  by (auto simp: carries_def ev_float_def ev_with_def ch_num_def)

lemma ev_clearable_carried [carries_intros]:
  "carries ch k (of_opt_float a) (of_opt_float b) \<Longrightarrow> ev_clearable_float ch k a = b"
  by (cases a; cases b) (auto simp: carries_def ev_clearable_float_def ev_with_def ch_num_def)

lemma ev_int_carried [carries_intros]: "carries ch k (PInt a) (PInt b) \<Longrightarrow> ev_int ch k a = b"
  by (auto simp: carries_def ev_int_def ev_with_def ch_int_def)

lemma ev_opt_int_carried [carries_intros]:
  "carries ch k (of_opt_int a) (of_opt_int b) \<Longrightarrow> ev_opt_int ch k a = b"
  by (cases a; cases b) (auto simp: carries_def ev_opt_int_def ev_with_def ch_int_def)

lemma ev_opt_str_carried [carries_intros]:
  "carries ch k (of_opt_str a) (of_opt_str b) \<Longrightarrow> ev_opt_str ch k a = b"
  by (cases a; cases b) (auto simp: carries_def ev_opt_str_def ev_with_def)

lemma ev_bool_carried [carries_intros]: "carries ch k (PBool a) (PBool b) \<Longrightarrow> ev_bool ch k a = b"
  by (auto simp: carries_def ev_bool_def ev_with_def ch_bool_def)

lemma ev_opt_bool_carried [carries_intros]:
  "carries ch k (of_opt_bool a) (of_opt_bool b) \<Longrightarrow> ev_opt_bool ch k a = b"
  by (cases a; cases b) (auto simp: carries_def ev_opt_bool_def ev_with_def ch_bool_def)

lemma ev_strings_carried [carries_intros]:
  "carries ch k (of_strings a) (of_strings b) \<Longrightarrow> ev_strings ch k a = b"
proof -
  have "a = b" if "of_strings a = of_strings b" using that string_tuple_of_strings by metis
  then show "carries ch k (of_strings a) (of_strings b) \<Longrightarrow> ev_strings ch k a = b"
    by (auto simp: carries_def ev_strings_def ev_with_def)
qed

lemma ev_count_carried [carries_intros]:
  "carries ch k (PInt a) (PInt b) \<Longrightarrow> 0 \<le> b \<Longrightarrow> ev_count ch k a = b"
  by (auto simp: carries_def ev_count_def ev_with_def)

lemma ev_amount_carried [carries_intros]:
  "carries ch k (PFloat a) (PFloat b) \<Longrightarrow> wf_amount b \<Longrightarrow> ev_amount ch k a = b"
  by (auto simp: carries_def ev_amount_def ev_with_def wf_amount_def amount_value_def)

lemma ev_status_carried [carries_intros]:
  "carries ch ''status'' (PStr (status_value a)) (PStr (status_value b)) \<Longrightarrow> ev_status ch a = b"
  by (auto simp: carries_def ev_status_def ev_with_def status.label_inject)

lemma ev_priority_carried [carries_intros]:
  "carries ch ''priority'' (PStr (priority_value a)) (PStr (priority_value b)) \<Longrightarrow> ev_priority ch a = b"
  by (auto simp: carries_def ev_priority_def ev_with_def priority.label_inject)

lemma ev_dispatch_carried [carries_intros]:
  "carries ch ''dispatch_state'' (PStr (dispatch_value a)) (PStr (dispatch_value b)) \<Longrightarrow>
   ev_dispatch ch a = b"
  by (auto simp: carries_def ev_dispatch_def ev_with_def dispatch.label_inject)

lemma ev_attempts_carried:
  assumes c: "carries ch ''attempt_history'' (PList (map (\<lambda>a. of_dict (attempt_to_dict a)) (bs_attempt_history s)))
      (PList (map (\<lambda>a. of_dict (attempt_to_dict a)) bs))"
    and wf: "\<forall>a \<in> set (bs_attempt_history s). wf_attempt a" "\<forall>a \<in> set bs. wf_attempt a"
    and len: "length bs \<le> attempt_history_limit"
  shows "ev_attempts ch s = bs"
proof -
  have "bs_attempt_history s = bs"
    if "map (\<lambda>a. of_dict (attempt_to_dict a)) (bs_attempt_history s) = map (\<lambda>a. of_dict (attempt_to_dict a)) bs"
    using map_attempts_read [OF wf(1)] map_attempts_read [OF wf(2)] that by metis
  with c len show ?thesis
    by (auto simp: carries_def ev_attempts_def ev_with_def map_attempts_read [OF wf(2)])
qed

lemma ev_priorities_carried:
  assumes c: "carries ch ''priority_history'' (PList (map (\<lambda>a. of_dict (priority_change_to_dict a)) (bs_priority_history s)))
      (PList (map (\<lambda>a. of_dict (priority_change_to_dict a)) bs))"
    and wf: "\<forall>a \<in> set (bs_priority_history s). wf_priority_change a" "\<forall>a \<in> set bs. wf_priority_change a"
    and len: "length bs \<le> 32"
  shows "ev_priorities ch s = bs"
proof -
  have "bs_priority_history s = bs"
    if "map (\<lambda>a. of_dict (priority_change_to_dict a)) (bs_priority_history s)
      = map (\<lambda>a. of_dict (priority_change_to_dict a)) bs"
    using map_priorities_read [OF wf(1)] map_priorities_read [OF wf(2)] that by metis
  with c len show ?thesis
    by (auto simp: carries_def ev_priorities_def ev_with_def map_priorities_read [OF wf(2)])
qed

lemma ev_requested_mode_carried:
  assumes "carries ch ''requested_mode_name'' (of_opt_str (bs_requested_mode_name s)) (of_opt_str b)"
    and "opt_bounded 128 b"
  shows "ev_requested_mode ch s = b"
  using assms
  by (cases b; cases "bs_requested_mode_name s")
    (auto simp: carries_def ev_requested_mode_def ev_bounded_def ev_with_def opt_bounded_def)

text \<open>
  A set of changes brings record \<open>c\<close> to record \<open>n\<close>: every serialized field but the identifier and
  the activity time is given its new value or left out unchanged, a mode name comes with its
  application status, and the activity time is read right.
\<close>

definition brings :: "changes \<Rightarrow> background_session \<Rightarrow> background_session \<Rightarrow> bool" where
  "brings ch c n \<longleftrightarrow>
     (\<forall>k v w. k \<noteq> ''session_id'' \<longrightarrow> k \<noteq> ''last_active'' \<longrightarrow> dget (bs_to_dict c) k = Some v
        \<longrightarrow> dget (bs_to_dict n) k = Some w \<longrightarrow> carries ch k v w)
     \<and> (dget ch ''mode_name'' = None \<or> dget ch ''mode_application_status'' \<noteq> None
        \<or> bs_mode_name n = bs_mode_name c)
     \<and> ev_float ch ''last_active'' (bs_last_active c) = bs_last_active n"

lemma bringsD:
  assumes "brings ch c n" "dget (bs_to_dict c) k = Some v" "dget (bs_to_dict n) k = Some w"
    "k \<noteq> ''session_id''" "k \<noteq> ''last_active''"
  shows "carries ch k v w"
  using assms by (simp add: brings_def)

lemma ev_mode_brings:
  assumes br: "brings ch c n" and b: "session_bounds n" and m: "session_mode_coherent n"
  shows "ev_mode ch c = (bs_mode_name n, bs_mode_application_status n)"
proof -
  have name: "carries ch ''mode_name'' (PStr (bs_mode_name c)) (PStr (bs_mode_name n))"
    by (rule bringsD [OF br]) simp_all
  have st: "carries ch ''mode_application_status'' (PStr (mode_value (bs_mode_application_status c)))
      (PStr (mode_value (bs_mode_application_status n)))"
    by (rule bringsD [OF br]) simp_all
  have n: "ev_bounded ch ''mode_name'' (bs_mode_name c) 128 = bs_mode_name n"
    by (rule ev_bounded_carried [OF name]) (use b in \<open>simp add: session_bounds_def\<close>)
  have g: "\<not> (dget ch ''mode_name'' \<noteq> None \<and> dget ch ''mode_application_status'' = None
      \<and> bs_mode_name n \<noteq> bs_mode_name c)"
    using br by (auto simp: brings_def)
  have v: "ev_with ch ''mode_application_status'' (bs_mode_application_status c)
     (\<lambda>x. case x of ModeCh x \<Rightarrow> x | Plain v \<Rightarrow> mode_status_of v (bs_mode_application_status c)
       | _ \<Rightarrow> bs_mode_application_status c) = bs_mode_application_status n"
    using st by (auto simp: carries_def ev_with_def mode_application.label_inject)
  show ?thesis
    unfolding ev_mode_def n Let_def v if_not_P [OF g]
    using m by (simp add: coherent_mode_id session_mode_coherent_def)
qed

lemma evolve_brings:
  assumes br: "brings ch c n" and c: "wf_session c" and n: "wf_session n"
    and sid: "bs_session_id n = bs_session_id c"
  shows "bs_evolve c ch = n"
proof -
  have b: "session_bounds n" and m: "session_mode_coherent n" and hc: "wf_histories c" and hn: "wf_histories n"
    using c n by (simp_all add: wf_session_def)
  note carried = bringsD [OF br]
  have la: "ev_float ch ''last_active'' (bs_last_active c) = bs_last_active n"
    using br by (simp add: brings_def)
  have a: "ev_attempts ch c = bs_attempt_history n"
    by (rule ev_attempts_carried [OF carried])
      (use hc hn b in \<open>simp_all add: wf_histories_def session_bounds_def\<close>)
  have p: "ev_priorities ch c = bs_priority_history n"
    by (rule ev_priorities_carried [OF carried])
      (use hc hn b in \<open>simp_all add: wf_histories_def session_bounds_def\<close>)
  have r: "ev_requested_mode ch c = bs_requested_mode_name n"
    by (rule ev_requested_mode_carried [OF carried])
      (use b in \<open>simp_all add: session_bounds_def\<close>)
  have e: "take_last 64 (ev_strings ch ''environment_receipts''
      (bs_environment_receipts c)) = bs_environment_receipts n"
  proof -
    have "length (bs_environment_receipts n) \<le> 64" using b by (simp add: session_bounds_def)
    moreover have "ev_strings ch ''environment_receipts''
      (bs_environment_receipts c) = bs_environment_receipts n"
      by (rule ev_strings_carried, rule carried) simp_all
    ultimately show ?thesis by (simp only: take_last_id)
  qed
  note bounds = b [unfolded session_bounds_def]
  show ?thesis
    by (rule background_session.equality)
      (simp_all only: bs_evolve_def background_session.select_convs la a p r e sid
        ev_mode_brings [OF br b m] fst_conv snd_conv,
       ((rule carries_intros, rule carried); simp add: bounds)+, simp)
qed

lemma brings_changed_fields: "brings (as_changes (changed_fields c n)) c n"
  unfolding brings_def
proof (intro conjI allI impI)
  fix k v w
  assume "k \<noteq> ''session_id''" "dget (bs_to_dict c) k = Some v" "dget (bs_to_dict n) k = Some w"
  then show "carries (as_changes (changed_fields c n)) k v w" by (intro carried)
next
  show "dget (as_changes (changed_fields c n)) ''mode_name'' = None
    \<or> dget (as_changes (changed_fields c n)) ''mode_application_status'' \<noteq> None
    \<or> bs_mode_name n = bs_mode_name c"
    using carried_mode_status by (cases "dget (changed_fields c n) ''mode_name''") auto
next
  show "ev_float (as_changes (changed_fields c n)) ''last_active'' (bs_last_active c) = bs_last_active n"
    by (rule ev_float_carried, rule carried) simp_all
qed

lemma replay_changed_fields:
  assumes "wf_session c" "wf_session n" "bs_session_id n = bs_session_id c"
  shows "bs_evolve c (as_changes (changed_fields c n)) = n"
  using brings_changed_fields assms by (rule evolve_brings)

text \<open>Changes that do not touch the other fields move the activity time only.\<close>

lemma brings_activity:
  assumes "\<And>k. k \<noteq> ''last_active'' \<Longrightarrow> dget ch k = None"
  shows "brings ch c (c\<lparr>bs_last_active := ev_float ch ''last_active'' (bs_last_active c)\<rparr>)"
proof -
  let ?n = "c\<lparr>bs_last_active := ev_float ch ''last_active'' (bs_last_active c)\<rparr>"
  have same: "dget (bs_to_dict ?n) k = dget (bs_to_dict c) k" if "k \<noteq> ''last_active''" for k
  proof -
    have "filter (\<lambda>p. fst p \<noteq> ''last_active'') (bs_to_dict ?n)
        = filter (\<lambda>p. fst p \<noteq> ''last_active'') (bs_to_dict c)"
      by (simp add: bs_to_dict_def)
    then have "dget (filter (\<lambda>p. fst p \<noteq> ''last_active'') (bs_to_dict ?n)) k
        = dget (filter (\<lambda>p. fst p \<noteq> ''last_active'') (bs_to_dict c)) k" by simp
    moreover have "dget (filter (\<lambda>p. fst p \<noteq> ''last_active'') (bs_to_dict s)) k = dget (bs_to_dict s) k" for s
      using that by (simp add: map_of_filter_entries [OF distinct_keys_bs_to_dict] split: option.splits)
    ultimately show ?thesis by simp
  qed
  have "carries ch k v w"
    if "k \<noteq> ''last_active''" "dget (bs_to_dict c) k = Some v" "dget (bs_to_dict ?n) k = Some w" for k v w
    using that same [OF that(1)] assms [OF that(1)] by (simp add: carries_def)
  moreover have "dget ch ''mode_name'' = None" by (rule assms) simp
  ultimately show ?thesis unfolding brings_def by simp
qed

lemma evolve_activity:
  assumes "\<And>k. k \<noteq> ''last_active'' \<Longrightarrow> dget ch k = None" "wf_session c"
  shows "bs_evolve c ch = c\<lparr>bs_last_active := ev_float ch ''last_active'' (bs_last_active c)\<rparr>"
  by (rule evolve_brings [OF brings_activity [OF assms(1)] assms(2)])
    (use assms(2) in \<open>simp_all add: session_bounds_def session_mode_coherent_def wf_histories_def wf_session_def\<close>)

section \<open>One event\<close>

definition obj_field :: "payload \<Rightarrow> string \<Rightarrow> payload" where
  "obj_field event k = (case mapping_of (pget event k) of None \<Rightarrow> [] | Some d \<Rightarrow> d)"

definition event_kind :: "payload \<Rightarrow> string \<Rightarrow> bool" where
  "event_kind event t \<longleftrightarrow> pget event ''event_type'' = PStr t"

definition apply_created :: "(pyfloat \<Rightarrow> string) \<Rightarrow> payload \<Rightarrow> background_session option" where
  "apply_created ft p = (case bs_from_mapping ft p of Inl e \<Rightarrow> None | Inr s \<Rightarrow> Some s)"

text \<open>
  An update of \<open>last_active\<close> alone replaces that field; any other set of changes goes through
  \<open>evolve(**changes)\<close>, which fails on a change named \<open>self\<close>.
\<close>

definition apply_updated :: "background_session \<Rightarrow> payload \<Rightarrow> background_session option" where
  "apply_updated current ch =
     (if length ch = 1 \<and> dget ch ''last_active'' \<noteq> None
      then (case num_of (pget ch ''last_active'') of
              None \<Rightarrow> None
            | Some f \<Rightarrow> Some (current\<lparr>bs_last_active := f\<rparr>))
      else if dget ch ''self'' \<noteq> None then None
      else Some (bs_evolve current (as_changes ch)))"

text \<open>The heartbeat shortcut does what \<open>evolve\<close> does.\<close>

lemma apply_updated_evolve:
  assumes "wf_session c" "dget ch ''self'' = None"
  shows "(case apply_updated c ch of None \<Rightarrow> c | Some s \<Rightarrow> s) = bs_evolve c (as_changes ch)"
proof (cases "length ch = 1 \<and> dget ch ''last_active'' \<noteq> None")
  case True
  then obtain v where ch: "ch = [(''last_active'', v)]"
    by (cases ch) (auto split: if_splits)
  show ?thesis
    using evolve_activity [of "as_changes ch" c] assms
    by (simp add: ch apply_updated_def ev_float_def ev_with_def ch_num_def pget_def dget_or_def
        split: option.splits)
next
  case False
  then show ?thesis using assms by (auto simp: apply_updated_def)
qed

definition plain_str :: "string \<Rightarrow> change" where
  "plain_str s = Plain (PStr s)"

definition apply_deleted ::
  "(pyfloat \<Rightarrow> string) \<Rightarrow> pyfloat \<Rightarrow> background_session \<Rightarrow> payload \<Rightarrow> payload \<Rightarrow> background_session" where
  "apply_deleted ft now current event p =
     (let timestamp = (case num_of (pget event ''timestamp'') of None \<Rightarrow> now | Some f \<Rightarrow> f)
      in bs_evolve current
        [(''status'', StatusCh SDeleted),
         (''trash_dir'', plain_str (text_field ft p ''trash_dir'' (bs_trash_dir current))),
         (''artifact_dir'', plain_str []),
         (''last_active'', Plain (PFloat timestamp)),
         (''delete_operation_id'',
            plain_str (text_field ft p ''operation_id'' (bs_delete_operation_id current))),
         (''delete_phase'', plain_str ''completed''),
         (''delete_error'', plain_str [])])"

definition apply_priority_changed ::
  "background_session \<Rightarrow> payload \<Rightarrow> payload \<Rightarrow> background_session option" where
  "apply_priority_changed current event p =
     (if str_of (pget p ''previous'') = None \<or> str_of (pget p ''current'') = None then None
      else
        let change = priority_change_from_mapping
              [(''previous'', pget p ''previous''), (''current'', pget p ''current''),
               (''changed_at'', pget event ''timestamp''), (''changed_by'', pget p ''changed_by'')]
        in Some (bs_evolve current
             [(''priority'', PriorityCh (pc_current change)),
              (''priority_history'',
                 PrioritiesCh (take_last 32 (bs_priority_history current @ [change])))]))"

definition apply_event ::
  "(pyfloat \<Rightarrow> string) \<Rightarrow> pyfloat \<Rightarrow> background_session option \<Rightarrow> payload \<Rightarrow> background_session option" where
  "apply_event ft now current event =
     (let p = obj_field event ''payload''
      in if event_kind event ''created'' then apply_created ft p
         else case current of
           None \<Rightarrow> None
         | Some c \<Rightarrow>
             if event_kind event ''updated'' then apply_updated c (obj_field p ''changes'')
             else if event_kind event ''deleted'' then Some (apply_deleted ft now c event p)
             else if event_kind event ''priority_changed'' then apply_priority_changed c event p
             else None)"

lemma event_kind_distinct [simp]:
  "event_kind event a \<Longrightarrow> event_kind event b \<longleftrightarrow> a = b"
  by (auto simp: event_kind_def)

lemma session_bounds_last_active [simp]:
  "session_bounds (s\<lparr>bs_last_active := f\<rparr>) = session_bounds s"
  "session_mode_coherent (s\<lparr>bs_last_active := f\<rparr>) = session_mode_coherent s"
  "wf_histories (s\<lparr>bs_last_active := f\<rparr>) = wf_histories s"
  "wf_session (s\<lparr>bs_last_active := f\<rparr>) = wf_session s"
  by (simp_all add: session_bounds_def session_mode_coherent_def wf_histories_def wf_session_def)

lemma wf_as_changes: "wf_changes (as_changes p)"
  by (auto simp: wf_changes_def)

lemma apply_event_wf:
  assumes "apply_event ft now current event = Some s" "\<And>c. current = Some c \<Longrightarrow> wf_session c"
  shows "wf_session s"
proof -
  have created: "apply_created ft p = Some s \<Longrightarrow> wf_session s" for p
    by (auto simp: apply_created_def wf_session_read split: sum.splits)
  have updated: "apply_updated c ch = Some s \<Longrightarrow> wf_session c \<Longrightarrow> wf_session s" for c ch
    by (auto simp: apply_updated_def wf_session_evolve wf_as_changes split: if_splits option.splits)
  have deleted: "wf_session c \<Longrightarrow> wf_session (apply_deleted ft now c event p)" for c p
    by (simp add: apply_deleted_def Let_def, rule wf_session_evolve)
      (simp_all add: wf_changes_def)
  have snoc: "wf_priority_change x"
    if "x \<in> set (take_last n (bs_priority_history c @ [priority_change_from_mapping h]))" "wf_session c"
    for x c h n
    using set_take_last_subset [OF that(1)] that(2)
    by (auto simp: wf_session_def wf_histories_def wf_priority_change_from_mapping)
  have prio: "apply_priority_changed c event p = Some s \<Longrightarrow> wf_session c \<Longrightarrow> wf_session s" for c p
    by (auto simp: apply_priority_changed_def Let_def wf_changes_def intro!: wf_session_evolve dest: snoc split: if_splits)
  from assms show ?thesis
    by (auto simp: apply_event_def Let_def split: if_splits option.splits
        dest: created updated prio intro: deleted)
qed

text \<open>A \<open>created\<close> event of a session with an identifier always gives its record.\<close>

lemma apply_created_Some:
  assumes "event_kind event ''created''"
    and "str_of (pget (obj_field event ''payload'') ''session_id'') = Some sid" "sid \<noteq> []"
  shows "\<exists>s. apply_event ft now current event = Some s"
proof -
  obtain s where "bs_from_mapping ft (obj_field event ''payload'') = Inr s"
    using read_total [OF assms(2,3)] by blast
  then show ?thesis using assms(1) by (simp add: apply_event_def apply_created_def)
qed

section \<open>Folding the log\<close>

text \<open>\<open>_event_session_id\<close>: the session an event is about, when its payload names one.\<close>

definition event_session_id :: "payload \<Rightarrow> string option" where
  "event_session_id event =
     (case str_of (pget (obj_field event ''payload'') ''session_id'') of
        None \<Rightarrow> None
      | Some sid \<Rightarrow> if sid = [] then None else Some sid)"

record folder =
  fo_records :: "background_session pydict"
  fo_pending :: "pyfloat pydict"

definition load_record ::
  "(string \<Rightarrow> background_session option) \<Rightarrow> string \<Rightarrow> payload \<Rightarrow> background_session pydict
   \<Rightarrow> background_session pydict" where
  "load_record lookup sid event records =
     (if dget records sid = None \<and> \<not> event_kind event ''created'' then
        (case lookup sid of None \<Rightarrow> records | Some s \<Rightarrow> dset sid s records)
      else records)"

text \<open>A heartbeat: an \<open>updated\<close> event that only moves \<open>last_active\<close>, with the time it moves to.\<close>

definition heartbeat_time :: "payload \<Rightarrow> pyfloat option" where
  "heartbeat_time event =
     (let ch = obj_field (obj_field event ''payload'') ''changes''
      in if event_kind event ''updated'' \<and> length ch = 1 then num_of (pget ch ''last_active'') else None)"

definition touch :: "string \<Rightarrow> pyfloat \<Rightarrow> background_session pydict \<Rightarrow> background_session pydict" where
  "touch sid a records =
     (case dget records sid of
        None \<Rightarrow> records
      | Some c \<Rightarrow> dset sid (c\<lparr>bs_last_active := a\<rparr>) records)"

definition fold_one ::
  "(pyfloat \<Rightarrow> string) \<Rightarrow> pyfloat \<Rightarrow> string \<Rightarrow> payload \<Rightarrow> background_session pydict \<Rightarrow> pyfloat pydict \<Rightarrow> folder" where
  "fold_one ft now sid event records pending =
     (let touched = (case dget pending sid of
            Some a \<Rightarrow> if event_kind event ''created'' then records else touch sid a records
          | None \<Rightarrow> records)
      in \<lparr>fo_records = (case apply_event ft now (dget touched sid) event of
              None \<Rightarrow> touched
            | Some s \<Rightarrow> dset sid s touched),
          fo_pending = dpop sid pending\<rparr>)"

definition folder_apply ::
  "(pyfloat \<Rightarrow> string) \<Rightarrow> pyfloat \<Rightarrow> (string \<Rightarrow> background_session option) \<Rightarrow> payload \<Rightarrow> folder \<Rightarrow> folder" where
  "folder_apply ft now lookup event fo =
     (case event_session_id event of
        None \<Rightarrow> fo
      | Some sid \<Rightarrow>
          let records = load_record lookup sid event (fo_records fo)
          in case heartbeat_time event of
               Some a \<Rightarrow>
                 if dget records sid \<noteq> None
                 then \<lparr>fo_records = records, fo_pending = dset sid a (fo_pending fo)\<rparr>
                 else fold_one ft now sid event records (fo_pending fo)
             | None \<Rightarrow> fold_one ft now sid event records (fo_pending fo))"

definition folder_finish :: "folder \<Rightarrow> background_session pydict" where
  "folder_finish fo = fold (\<lambda>(sid, a). touch sid a) (fo_pending fo) (fo_records fo)"

definition folder_empty :: folder where
  "folder_empty = \<lparr>fo_records = [], fo_pending = []\<rparr>"

definition fold_events ::
  "(pyfloat \<Rightarrow> string) \<Rightarrow> pyfloat \<Rightarrow> (string \<Rightarrow> background_session option) \<Rightarrow> payload list
   \<Rightarrow> background_session pydict" where
  "fold_events ft now lookup events =
     folder_finish (fold (folder_apply ft now lookup) events folder_empty)"

text \<open>The specification: every event applied when it comes, nothing deferred.\<close>

definition replay_one ::
  "(pyfloat \<Rightarrow> string) \<Rightarrow> pyfloat \<Rightarrow> (string \<Rightarrow> background_session option) \<Rightarrow> payload
   \<Rightarrow> background_session pydict \<Rightarrow> background_session pydict" where
  "replay_one ft now lookup event records =
     (case event_session_id event of
        None \<Rightarrow> records
      | Some sid \<Rightarrow>
          let loaded = load_record lookup sid event records
          in case apply_event ft now (dget loaded sid) event of
               None \<Rightarrow> loaded
             | Some s \<Rightarrow> dset sid s loaded)"

definition replay ::
  "(pyfloat \<Rightarrow> string) \<Rightarrow> pyfloat \<Rightarrow> (string \<Rightarrow> background_session option) \<Rightarrow> payload list
   \<Rightarrow> background_session pydict \<Rightarrow> background_session pydict" where
  "replay ft now lookup events records = fold (replay_one ft now lookup) events records"

text \<open>The records a folder stands for: its own, with the deferred activity put in.\<close>

definition settled :: "pyfloat option \<Rightarrow> background_session \<Rightarrow> background_session" where
  "settled pending c = (case pending of None \<Rightarrow> c | Some a \<Rightarrow> c\<lparr>bs_last_active := a\<rparr>)"

definition folder_view :: "folder \<Rightarrow> string \<Rightarrow> background_session option" where
  "folder_view fo sid = map_option (settled (dget (fo_pending fo) sid)) (dget (fo_records fo) sid)"

lemma dget_touch: "dget (touch sid a records) =
    (\<lambda>k. if k = sid then map_option (\<lambda>c. c\<lparr>bs_last_active := a\<rparr>) (dget records k) else dget records k)"
  by (auto simp: touch_def fun_eq_iff split: option.splits)

lemma dget_fold_touch:
  "distinct (keys pending) \<Longrightarrow>
   dget (fold (\<lambda>(sid, a). touch sid a) pending records) k = map_option (settled (dget pending k)) (dget records k)"
proof (induction pending arbitrary: records)
  case Nil
  show ?case by (cases "dget records k") (simp_all add: settled_def)
next
  case (Cons p pending)
  obtain sid a where p: "p = (sid, a)" by (cases p)
  have none: "dget pending sid = None" using Cons.prems p by (auto intro: map_of_NoneI)
  show ?case
    using Cons.IH [of "touch sid a records"] Cons.prems none
    by (cases "dget records k") (auto simp: p dget_touch settled_def)
qed

lemma settled_last_active [simp]: "(settled p c)\<lparr>bs_last_active := a\<rparr> = c\<lparr>bs_last_active := a\<rparr>"
  by (simp add: settled_def split: option.splits)

lemma apply_heartbeat:
  "heartbeat_time event = Some a \<Longrightarrow> apply_event ft now (Some c) event = Some (c\<lparr>bs_last_active := a\<rparr>)"
  by (cases "dget (obj_field (obj_field event ''payload'') ''changes'') ''last_active''")
    (auto simp: heartbeat_time_def Let_def apply_event_def apply_updated_def pget_def dget_or_def
      split: if_splits)

lemma heartbeat_not_created: "heartbeat_time event = Some a \<Longrightarrow> \<not> event_kind event ''created''"
  by (auto simp: heartbeat_time_def Let_def split: if_splits)

definition folder_ok :: "folder \<Rightarrow> bool" where
  "folder_ok fo \<longleftrightarrow> distinct (keys (fo_pending fo))
     \<and> (\<forall>sid. dget (fo_records fo) sid = None \<longrightarrow> dget (fo_pending fo) sid = None)"

lemma dget_load_record:
  "dget (load_record lookup sid event records) k =
    (if k = sid \<and> dget records sid = None \<and> \<not> event_kind event ''created'' then lookup sid
     else dget records k)"
  by (auto simp: load_record_def split: option.splits)

lemma folder_step:
  assumes ok: "folder_ok fo" and view: "dget records = folder_view fo"
  shows "folder_ok (folder_apply ft now lookup event fo)
    \<and> dget (replay_one ft now lookup event records) = folder_view (folder_apply ft now lookup event fo)"
proof (cases "event_session_id event")
  case None
  with ok view show ?thesis by (simp add: folder_apply_def replay_one_def)
next
  case (Some sid)
  let ?R = "load_record lookup sid event (fo_records fo)"
  let ?L = "load_record lookup sid event records"
  let ?p = "dget (fo_pending fo) sid"
  have same: "dget records sid = None \<longleftrightarrow> dget (fo_records fo) sid = None"
    by (simp add: view folder_view_def)
  have pend: "dget (fo_records fo) k = None \<Longrightarrow> dget (fo_pending fo) k = None" for k
    using ok by (simp add: folder_ok_def)
  have L: "dget ?L k = map_option (settled (dget (fo_pending fo) k)) (dget ?R k)" for k
    using pend [of sid]
    by (cases "lookup sid") (auto simp: dget_load_record view folder_view_def settled_def)
  have one: "folder_ok (fold_one ft now sid event ?R (fo_pending fo))
    \<and> dget (replay_one ft now lookup event records) = folder_view (fold_one ft now sid event ?R (fo_pending fo))"
  proof -
    define T where
      "T = (case ?p of Some a \<Rightarrow> if event_kind event ''created'' then ?R else touch sid a ?R | None \<Rightarrow> ?R)"
    have fold_one: "fold_one ft now sid event ?R (fo_pending fo) =
       \<lparr>fo_records = (case apply_event ft now (dget T sid) event of None \<Rightarrow> T | Some s \<Rightarrow> dset sid s T),
        fo_pending = dpop sid (fo_pending fo)\<rparr>"
      unfolding fold_one_def T_def Let_def by (rule refl)
    have T: "dget T k = (if k = sid \<and> \<not> event_kind event ''created'' then dget ?L k else dget ?R k)" for k
      unfolding T_def by (cases ?p; cases "dget ?R k") (auto simp: L dget_touch settled_def)
    have created: "event_kind event ''created'' \<Longrightarrow> \<exists>s. \<forall>c. apply_event ft now c event = Some s"
    proof -
      assume k: "event_kind event ''created''"
      obtain s where "bs_from_mapping ft (obj_field event ''payload'') = Inr s"
        using Some read_total by (fastforce simp: event_session_id_def split: option.splits if_splits)
      with k show ?thesis by (simp add: apply_event_def apply_created_def)
    qed
    have res: "apply_event ft now (dget T sid) event = apply_event ft now (dget ?L sid) event"
      using created by (cases "event_kind event ''created''") (auto simp: T)
    have distinct': "distinct (keys (dpop sid (fo_pending fo)))"
      using ok by (simp add: folder_ok_def)
    show ?thesis
    proof (cases "apply_event ft now (dget ?L sid) event")
      case None
      then have nc: "\<not> event_kind event ''created''" using created by auto
      have "dget ?L k = map_option (settled (if k = sid then None else dget (fo_pending fo) k)) (dget T k)" for k
        by (cases "dget ?L k"; cases "dget ?R k") (auto simp: T nc settled_def L)
      moreover have "dget T k = None \<Longrightarrow> k \<noteq> sid \<Longrightarrow> dget (fo_pending fo) k = None" for k
        using pend [of k] by (auto simp: T dget_load_record split: if_splits)
      ultimately show ?thesis
        using Some None res distinct'
        by (simp add: fold_one folder_ok_def replay_one_def folder_view_def fun_eq_iff)
    next
      case (Some s)
      have "dget T k = None \<Longrightarrow> k \<noteq> sid \<Longrightarrow> dget (fo_pending fo) k = None" for k
        using pend [of k] by (auto simp: T dget_load_record split: if_splits)
      moreover have "k \<noteq> sid \<Longrightarrow> dget T k = dget ?R k" for k by (simp add: T)
      ultimately show ?thesis
        using \<open>event_session_id event = Some sid\<close> Some res distinct' L
        by (auto simp: fold_one folder_ok_def replay_one_def folder_view_def fun_eq_iff settled_def)
    qed
  qed
  show ?thesis
  proof (cases "heartbeat_time event")
    case None
    with one Some show ?thesis by (simp add: folder_apply_def)
  next
    case hb: (Some a)
    show ?thesis
    proof (cases "dget ?R sid")
      case None
      with one Some hb show ?thesis by (simp add: folder_apply_def)
    next
      case rec: (Some c)
      have "dget ?L sid = Some (settled ?p c)" using L [of sid] rec by simp
      then have "dget (replay_one ft now lookup event records) =
          (dget ?L)(sid \<mapsto> c\<lparr>bs_last_active := a\<rparr>)"
        using Some hb by (simp add: replay_one_def apply_heartbeat fun_eq_iff)
      moreover have "dget ?R k = None \<Longrightarrow> k \<noteq> sid \<Longrightarrow> dget (fo_pending fo) k = None" for k
        using pend [of k] by (auto simp: dget_load_record split: if_splits)
      ultimately show ?thesis
        using Some hb rec ok L
        by (auto simp: folder_apply_def folder_ok_def folder_view_def fun_eq_iff settled_def)
    qed
  qed
qed

lemma folder_run:
  assumes "folder_ok fo" "dget records = folder_view fo"
  shows "folder_ok (fold (folder_apply ft now lookup) events fo)
    \<and> dget (replay ft now lookup events records) = folder_view (fold (folder_apply ft now lookup) events fo)"
  using assms
proof (induction events arbitrary: fo records)
  case Nil
  then show ?case by (simp add: replay_def)
next
  case (Cons event events)
  note step = folder_step [OF Cons.prems, of ft now lookup event]
  show ?case using Cons.IH [OF conjunct1 [OF step] conjunct2 [OF step]] by (simp add: replay_def)
qed

lemma fold_events_replay: "dget (fold_events ft now lookup events) = dget (replay ft now lookup events [])"
proof -
  have "folder_ok folder_empty" "dget [] = folder_view folder_empty"
    by (simp_all add: folder_ok_def folder_empty_def folder_view_def fun_eq_iff)
  note run = folder_run [OF this, of ft now lookup events]
  let ?fo = "fold (folder_apply ft now lookup) events folder_empty"
  have "dget (folder_finish ?fo) k = folder_view ?fo k" for k
    using conjunct1 [OF run] unfolding folder_finish_def folder_view_def folder_ok_def
    by (intro dget_fold_touch) simp
  then show ?thesis using run by (simp add: fold_events_def fun_eq_iff)
qed

end
