(* ===== verification/Bg_Store.thy ===== *)
theory Bg_Store
  imports Bg_Replay
begin

text \<open>
  The operations of \<open>BackgroundStore\<close> (\<open>src/agenthicc/background/store.py\<close>). A store is the log of
  complete events, the index of one record per session and the last sequence number; the file, the
  locks and the SQLite tables under them are not modelled, and no notification coordinator is
  attached. Every reading of the clock has its own call site: \<open>now site\<close> is what \<open>time.time()\<close>
  returned there. Moving artifacts to and from the trash is the argument \<open>moved\<close>.
\<close>

datatype store_error =
    SessionNotFound string
  | SessionExists string
  | ExpectedStatus session_status session_status
  | LeaseStale | AttemptStale | ActivityChanged | DispatchChanged | DeleteNotOwner
  | UnknownFields "string list"
  | ModeNotAttested
  | BadModeName | BadModeAttempt
  | BadOperationId
  | BeingDeleted string string
  | DeletedFrozen
  | CannotTransition session_status session_status
  | PriorityOfInactive session_status
  | NotDispatched | DispatchLeaseStale
  | CannotClaim session_status
  | EmptyTitle
  | NotArchived | NotRecoverable
  | DeletedByOther
  | CancelFirst
  | MoveFailed string

record bg_store =
  st_events :: "payload list"
  st_index :: "background_session pydict"
  st_sequence :: int

type_synonym clock = "string \<Rightarrow> pyfloat"
type_synonym 'a store_result = "store_error + 'a \<times> bg_store"

definition store_empty :: bg_store where
  "store_empty = \<lparr>st_events = [], st_index = [], st_sequence = 0\<rparr>"

section \<open>The log\<close>

definition event_record :: "int \<Rightarrow> string \<Rightarrow> pyfloat \<Rightarrow> payload \<Rightarrow> payload" where
  "event_record sequence event_type timestamp p =
     [(''seq'', PInt sequence), (''event_type'', PStr event_type),
      (''timestamp'', PFloat timestamp), (''payload'', of_dict p)]"

definition event_sequence :: "payload \<Rightarrow> int option" where
  "event_sequence event = int_of (pget event ''seq'')"

text \<open>\<open>_index_own_append\<close>: the event just written, applied to the indexed record.\<close>

definition index_event ::
  "(pyfloat \<Rightarrow> string) \<Rightarrow> pyfloat \<Rightarrow> payload \<Rightarrow> background_session pydict \<Rightarrow> background_session pydict" where
  "index_event ft now event index =
     (case event_session_id event of
        None \<Rightarrow> index
      | Some sid \<Rightarrow> (case apply_event ft now (dget index sid) event of
            None \<Rightarrow> index
          | Some s \<Rightarrow> dset sid s index))"

definition append_event ::
  "(pyfloat \<Rightarrow> string) \<Rightarrow> clock \<Rightarrow> string \<Rightarrow> payload \<Rightarrow> bg_store \<Rightarrow> bg_store" where
  "append_event ft now event_type p st =
     (let sequence = st_sequence st + 1;
          event = event_record sequence event_type (now ''timestamp'') p
      in \<lparr>st_events = st_events st @ [event],
          st_index = index_event ft (now ''timestamp'') event (st_index st),
          st_sequence = sequence\<rparr>)"

text \<open>
  \<open>_apply_tail\<close>: \<open>None\<close> when the sequence numbers of the events after the index's position are
  not consecutive, which asks for a rebuild; \<open>_rebuild\<close> folds the whole log.
\<close>

fun tail_sequence :: "int \<Rightarrow> payload list \<Rightarrow> int option" where
  "tail_sequence sequence [] = Some sequence"
| "tail_sequence sequence (event # events) =
     (case event_sequence event of
        None \<Rightarrow> tail_sequence sequence events
      | Some n \<Rightarrow>
          if n \<le> sequence \<or> (0 < sequence \<and> n \<noteq> sequence + 1) then None
          else tail_sequence n events)"

definition upsert :: "background_session pydict \<Rightarrow> background_session pydict \<Rightarrow> background_session pydict" where
  "upsert changed index = fold (\<lambda>(sid, s). dset sid s) changed index"

definition apply_tail ::
  "(pyfloat \<Rightarrow> string) \<Rightarrow> pyfloat \<Rightarrow> payload list \<Rightarrow> background_session pydict \<Rightarrow> int
   \<Rightarrow> (background_session pydict \<times> int) option" where
  "apply_tail ft now events index sequence =
     map_option (\<lambda>n. (upsert (fold_events ft now (dget index) events) index, n))
       (tail_sequence sequence events)"

definition max_sequence :: "payload list \<Rightarrow> int" where
  "max_sequence events =
     fold (\<lambda>event m. case event_sequence event of None \<Rightarrow> m | Some n \<Rightarrow> max m n) events 0"

definition rebuild ::
  "(pyfloat \<Rightarrow> string) \<Rightarrow> pyfloat \<Rightarrow> payload list \<Rightarrow> background_session pydict \<times> int" where
  "rebuild ft now events = (fold_events ft now (\<lambda>_. None) events, max_sequence events)"

section \<open>Reading and creating\<close>

definition get_session :: "bool \<Rightarrow> string \<Rightarrow> bg_store \<Rightarrow> store_error + background_session" where
  "get_session include_deleted sid st =
     (case dget (st_index st) sid of
        None \<Rightarrow> Inl (SessionNotFound sid)
      | Some s \<Rightarrow>
          if bs_status s = SDeleted \<and> \<not> include_deleted then Inl (SessionNotFound sid) else Inr s)"

definition create_session ::
  "(pyfloat \<Rightarrow> string) \<Rightarrow> clock \<Rightarrow> background_session \<Rightarrow> bg_store \<Rightarrow> background_session store_result" where
  "create_session ft now s st =
     (case dget (st_index st) (bs_session_id s) of
        Some e \<Rightarrow>
          if bs_status e \<noteq> SDeleted then Inl (SessionExists (bs_session_id s))
          else Inr (s, append_event ft now ''created'' (bs_to_dict s) st)
      | None \<Rightarrow> Inr (s, append_event ft now ''created'' (bs_to_dict s) st))"

section \<open>\<open>update\<close>\<close>

text \<open>The optional \<open>expected_*\<close> arguments: what the caller last saw of the record.\<close>

record expectation =
  ex_status :: "session_status option"
  ex_lease_token :: "string option"
  ex_attempt :: "int option"
  ex_last_active :: "pyfloat option"
  ex_dispatch_state :: "queue_dispatch_state option"
  ex_delete_operation_id :: "string option"

definition expect_nothing :: expectation where
  "expect_nothing = \<lparr>ex_status = None, ex_lease_token = None, ex_attempt = None,
     ex_last_active = None, ex_dispatch_state = None, ex_delete_operation_id = None\<rparr>"

definition met :: "('a \<Rightarrow> 'a \<Rightarrow> bool) \<Rightarrow> 'a option \<Rightarrow> 'a \<Rightarrow> bool" where
  "met eq expected actual = (case expected of None \<Rightarrow> True | Some x \<Rightarrow> eq actual x)"

definition check_expectation :: "expectation \<Rightarrow> background_session \<Rightarrow> store_error + unit" where
  "check_expectation ex current =
     bindE (case ex_status ex of
              None \<Rightarrow> Inr ()
            | Some x \<Rightarrow> guardE (bs_status current = x) (ExpectedStatus x (bs_status current)))
     (\<lambda>_. bindE (guardE (met (=) (ex_lease_token ex) (bs_lease_token current)) LeaseStale)
     (\<lambda>_. bindE (guardE (met (=) (ex_attempt ex) (bs_attempt current)) AttemptStale)
     (\<lambda>_. bindE (guardE (met f_eq (ex_last_active ex) (bs_last_active current)) ActivityChanged)
     (\<lambda>_. bindE (guardE (met (=) (ex_dispatch_state ex) (bs_dispatch_state current)) DispatchChanged)
     (\<lambda>_. guardE (met (=) (ex_delete_operation_id ex) (bs_delete_operation_id current)) DeleteNotOwner)))))"

definition unknown_fields :: "changes \<Rightarrow> string list" where
  "unknown_fields ch = filter (\<lambda>k. k \<notin> set bs_keys \<or> k = ''session_id'') (keys ch)"

definition ch_get :: "changes \<Rightarrow> string \<Rightarrow> (change \<Rightarrow> 'a option) \<Rightarrow> 'a option" where
  "ch_get ch k f = Option.bind (dget ch k) f"

text \<open>
  An applied mode must be attested by the running worker attempt that owns the lease.
\<close>

definition attests :: "expectation \<Rightarrow> changes \<Rightarrow> background_session \<Rightarrow> bool" where
  "attests ex ch current \<longleftrightarrow>
     bs_status current = SRunning \<and> ex_status ex = Some SRunning
     \<and> ex_attempt ex \<noteq> None
     \<and> ex_lease_token ex \<noteq> None \<and> ex_lease_token ex \<noteq> Some []
     \<and> ch_get ch ''mode_name'' ch_str \<noteq> None \<and> ch_get ch ''mode_name'' ch_str \<noteq> Some []
     \<and> ch_get ch ''mode_application_attempt'' ch_int = ex_attempt ex"

definition claims_applied :: "changes \<Rightarrow> bool" where
  "claims_applied ch \<longleftrightarrow> ch_get ch ''mode_application_status'' ch_str = Some ''applied''"

definition ch_default :: "string \<Rightarrow> change \<Rightarrow> changes \<Rightarrow> changes" where
  "ch_default k c ch = (if dget ch k = None then dset k c ch else ch)"

definition ch_truncate :: "string \<Rightarrow> nat \<Rightarrow> changes \<Rightarrow> changes" where
  "ch_truncate k n ch =
     (case ch_get ch k ch_str of None \<Rightarrow> ch | Some s \<Rightarrow> dset k (plain_str (take n s)) ch)"

definition status_changes :: "changes \<Rightarrow> background_session \<Rightarrow> bool" where
  "status_changes ch current \<longleftrightarrow>
     dget ch ''status'' \<noteq> None
     \<and> ch_get ch ''status'' ch_str \<noteq> Some (status_value (bs_status current))"

definition complete_changes :: "clock \<Rightarrow> changes \<Rightarrow> background_session \<Rightarrow> changes" where
  "complete_changes now ch current =
     ch_default ''last_active'' (Plain (PFloat (now ''last_active'')))
       (ch_truncate ''error'' 2000
         (ch_truncate ''latest_activity'' 512
           (if status_changes ch current
            then ch_default ''state_changed_at'' (Plain (PFloat (now ''state_changed_at''))) ch
            else ch)))"

definition update_payload :: "string \<Rightarrow> background_session \<Rightarrow> background_session \<Rightarrow> payload" where
  "update_payload sid current updated =
     [(''session_id'', PStr sid), (''changes'', of_dict (changed_fields current updated))]
     @ (if bs_status current \<noteq> bs_status updated
        then [(''previous_status'', PStr (status_value (bs_status current))),
              (''current_status'', PStr (status_value (bs_status updated)))]
        else [])"

definition update ::
  "(pyfloat \<Rightarrow> string) \<Rightarrow> clock \<Rightarrow> expectation \<Rightarrow> changes \<Rightarrow> string \<Rightarrow> bg_store \<Rightarrow> background_session store_result" where
  "update ft now ex ch sid st =
     bindE (get_session True sid st) (\<lambda>current.
     bindE (check_expectation ex current) (\<lambda>_.
     bindE (guardE (unknown_fields ch = []) (UnknownFields (unknown_fields ch))) (\<lambda>_.
     bindE (guardE (claims_applied ch \<longrightarrow> attests ex ch current) ModeNotAttested) (\<lambda>_.
     let updated = bs_evolve current (complete_changes now ch current)
     in Inr (updated, append_event ft now ''updated'' (update_payload sid current updated) st)))))"

definition record_mode_application ::
  "(pyfloat \<Rightarrow> string) \<Rightarrow> clock \<Rightarrow> string option \<Rightarrow> string \<Rightarrow> int \<Rightarrow> string \<Rightarrow> string \<Rightarrow> bg_store
   \<Rightarrow> background_session store_result" where
  "record_mode_application ft now requested effective attempt lease sid st =
     bindE (guardE (py_strip effective \<noteq> []) BadModeName) (\<lambda>_.
     bindE (guardE (1 \<le> attempt \<and> lease \<noteq> []) BadModeAttempt) (\<lambda>_.
     update ft now
       (expect_nothing\<lparr>ex_status := Some SRunning, ex_attempt := Some attempt,
          ex_lease_token := Some lease\<rparr>)
       [(''requested_mode_name'', Plain (of_opt_str requested)),
        (''mode_name'', plain_str (py_strip effective)),
        (''mode_application_status'', ModeCh ModeApplied),
        (''mode_application_attempt'', Plain (PInt attempt)),
        (''mode_application_error'', plain_str [])] sid st))"

section \<open>Deletion marks\<close>

text \<open>\<open>value.replace("-", "").isalnum()\<close> on ASCII text.\<close>

definition is_alnum :: "char \<Rightarrow> bool" where
  "is_alnum c \<longleftrightarrow> 48 \<le> code c \<and> code c \<le> 57 \<or> 65 \<le> code c \<and> code c \<le> 90 \<or> 97 \<le> code c \<and> code c \<le> 122"

definition identifier_like :: "string \<Rightarrow> bool" where
  "identifier_like s \<longleftrightarrow>
     s \<noteq> [] \<and> removeAll (CHR ''-'') s \<noteq> [] \<and> list_all is_alnum (removeAll (CHR ''-'') s)"

definition mark_delete_requested ::
  "(pyfloat \<Rightarrow> string) \<Rightarrow> clock \<Rightarrow> string \<Rightarrow> string \<Rightarrow> string \<Rightarrow> bg_store \<Rightarrow> background_session store_result" where
  "mark_delete_requested ft now operation_id requested_by sid st =
     bindE (guardE (identifier_like operation_id) BadOperationId) (\<lambda>_.
     bindE (get_session True sid st) (\<lambda>current.
     if bs_status current = SDeleted then Inr (current, st)
     else if bs_delete_operation_id current \<noteq> [] \<and> bs_delete_operation_id current \<noteq> operation_id
             \<and> bs_delete_phase current \<noteq> ''failed'' \<and> bs_delete_phase current \<noteq> []
     then Inl (BeingDeleted sid (bs_delete_operation_id current))
     else update ft now
       (expect_nothing\<lparr>ex_delete_operation_id := Some (bs_delete_operation_id current)\<rparr>)
       [(''delete_operation_id'', plain_str operation_id),
        (''delete_phase'', plain_str ''requested''),
        (''delete_error'', plain_str []),
        (''delete_requested_at'',
           Plain (of_opt_float (opt_or (bs_delete_requested_at current) (Some (now ''delete_requested_at''))))),
        (''delete_attempt'', Plain (PInt (bs_delete_attempt current + 1))),
        (''latest_activity'',
           plain_str (''Delete requested''
             @ (if requested_by \<noteq> [] then '' by '' @ take 80 requested_by else [])))] sid st))"

definition mark_delete_progress ::
  "(pyfloat \<Rightarrow> string) \<Rightarrow> clock \<Rightarrow> string \<Rightarrow> string \<Rightarrow> string \<Rightarrow> string \<Rightarrow> bg_store \<Rightarrow> background_session store_result" where
  "mark_delete_progress ft now operation_id phase activity sid st =
     bindE (get_session True sid st) (\<lambda>current.
     if bs_status current = SDeleted then Inr (current, st)
     else if bs_delete_operation_id current \<noteq> operation_id then Inl DeleteNotOwner
     else update ft now (expect_nothing\<lparr>ex_delete_operation_id := Some operation_id\<rparr>)
       [(''delete_phase'', plain_str (take 64 phase)),
        (''delete_error'', plain_str []),
        (''latest_activity'', plain_str (take 512 (str_or activity (''Deleting: '' @ phase))))] sid st)"

definition mark_delete_failed ::
  "(pyfloat \<Rightarrow> string) \<Rightarrow> clock \<Rightarrow> string \<Rightarrow> string \<Rightarrow> bool \<Rightarrow> string \<Rightarrow> bg_store \<Rightarrow> background_session store_result" where
  "mark_delete_failed ft now operation_id error retryable sid st =
     bindE (get_session True sid st) (\<lambda>current.
     if bs_status current = SDeleted then Inr (current, st)
     else if bs_delete_operation_id current \<noteq> operation_id then Inl DeleteNotOwner
     else update ft now (expect_nothing\<lparr>ex_delete_operation_id := Some operation_id\<rparr>)
       [(''delete_phase'', plain_str ''failed''),
        (''delete_error'', plain_str (take 2000 error)),
        (''error'', plain_str (take 2000 error)),
        (''failure_category'', plain_str (if retryable then ''delete_retryable'' else ''delete_failed'')),
        (''latest_activity'', plain_str ''Deletion failed; retry or inspect trash recovery'')] sid st)"

section \<open>Transitions\<close>

definition has_attempt :: "background_session \<Rightarrow> bool" where
  "has_attempt s \<longleftrightarrow> (\<exists>a \<in> set (bs_attempt_history s). at_attempt a = bs_attempt s)"

definition push_attempt :: "background_session \<Rightarrow> attempt_record \<Rightarrow> changes \<Rightarrow> changes" where
  "push_attempt current a ch =
     dset ''attempt_history''
       (AttemptsCh (take_last attempt_history_limit (bs_attempt_history current @ [a]))) ch"

text \<open>
  The changes of a transition to another status: the status itself, the completion time of a
  terminal one, and a snapshot of the attempt that ends, once per attempt. The second case keeps
  the outcome of records that ended before attempts were recorded.
\<close>

definition transition_changes ::
  "clock \<Rightarrow> session_status \<Rightarrow> changes \<Rightarrow> background_session \<Rightarrow> changes" where
  "transition_changes now target ch current =
     (let ch1 = dset ''status'' (StatusCh target) ch;
          ch2 = (if target \<in> {SCompleted, SFailed, SCancelled}
                 then ch_default ''completed_at'' (Plain (PFloat (now ''completed_at''))) ch1 else ch1)
      in if target \<in> {SCompleted, SFailed, SCancelled, SOrphaned}
            \<and> 0 < bs_attempt current \<and> \<not> has_attempt current
         then push_attempt current (attempt_from_session (bs_evolve current ch2)) ch2
         else if target \<in> {SStarting, SRetrying}
            \<and> bs_status current \<in> {SCompleted, SFailed, SCancelled, SOrphaned, SArchived}
            \<and> 0 < bs_attempt current \<and> \<not> has_attempt current
         then push_attempt current (attempt_from_session current) ch2
         else ch2)"

text \<open>
  \<open>transition\<close> reads the record, decides on it without holding the registry lock, and leaves the
  write to \<open>update\<close>, which reads the record again under the lock. \<open>transition_from\<close> is the part
  after the first read.
\<close>

definition transition_from ::
  "(pyfloat \<Rightarrow> string) \<Rightarrow> clock \<Rightarrow> expectation \<Rightarrow> session_status \<Rightarrow> changes \<Rightarrow> string \<Rightarrow> background_session
   \<Rightarrow> bg_store \<Rightarrow> background_session store_result" where
  "transition_from ft now ex target ch sid current st =
     (if bs_status current = target then update ft now ex ch sid st
      else if bs_status current = SDeleted then Inl DeletedFrozen
      else if \<not> legal_transition (bs_status current) target
      then Inl (CannotTransition (bs_status current) target)
      else update ft now ex (transition_changes now target ch current) sid st)"

definition transition ::
  "(pyfloat \<Rightarrow> string) \<Rightarrow> clock \<Rightarrow> expectation \<Rightarrow> session_status \<Rightarrow> changes \<Rightarrow> string \<Rightarrow> bg_store
   \<Rightarrow> background_session store_result" where
  "transition ft now ex target ch sid st =
     bindE (get_session True sid st) (\<lambda>current. transition_from ft now ex target ch sid current st)"

section \<open>The worker's operations\<close>

definition change_priority ::
  "(pyfloat \<Rightarrow> string) \<Rightarrow> clock \<Rightarrow> queue_priority \<Rightarrow> string \<Rightarrow> string \<Rightarrow> bg_store \<Rightarrow> background_session store_result" where
  "change_priority ft now prio changed_by sid st =
     bindE (get_session True sid st) (\<lambda>current.
     if bs_status current \<notin> set active_statuses then Inl (PriorityOfInactive (bs_status current))
     else if bs_priority current = prio then Inr (current, st)
     else
       let st' = append_event ft now ''priority_changed''
             [(''session_id'', PStr sid), (''previous'', PStr (priority_value (bs_priority current))),
              (''current'', PStr (priority_value prio)), (''changed_by'', PStr (take 128 changed_by))] st
       in bindE (get_session True sid st') (\<lambda>s. Inr (s, st')))"

definition check_dispatch :: "string option \<Rightarrow> background_session \<Rightarrow> store_error + unit" where
  "check_dispatch token current =
     (let none = (token = None \<or> token = Some [])
      in if bs_dispatch_state current = DPending \<and> none then Inl NotDispatched
         else if bs_dispatch_state current = DClaimed then
           guardE (\<not> none \<and> token = Some (bs_dispatch_token current)) DispatchLeaseStale
         else guardE (token \<noteq> None \<longrightarrow> token = Some (bs_dispatch_token current)) DispatchLeaseStale)"

definition claim_changes ::
  "clock \<Rightarrow> int \<Rightarrow> string \<Rightarrow> string option \<Rightarrow> background_session \<Rightarrow> changes" where
  "claim_changes now pid lease token current =
     [(''worker_pid'', Plain (PInt pid)),
      (''lease_token'', plain_str lease),
      (''attempt'', Plain (PInt (bs_attempt current + 1))),
      (''started_at'', Plain (of_opt_float (opt_or (bs_started_at current) (Some (now ''started_at''))))),
      (''worker_started_at'', Plain (PFloat (now ''worker_started_at''))),
      (''worker_finished_at'', Plain PNone),
      (''worker_exit_code'', Plain PNone),
      (''worker_exit_reason'', plain_str []),
      (''worker_finalization_attempts'', Plain (PInt 0)),
      (''worker_cleanup_error'', plain_str []),
      (''completed_at'', Plain PNone),
      (''error'', Plain PNone),
      (''failure_category'', plain_str []),
      (''cancellation_reason'', plain_str []),
      (''exit_reason'', plain_str []),
      (''attempt_started_at'', Plain (PFloat (now ''now''))),
      (''heartbeat_stale'', Plain (PBool False)),
      (''mode_name'', plain_str []),
      (''mode_application_status'', ModeCh ModePending),
      (''mode_application_attempt'', Plain (PInt (bs_attempt current + 1))),
      (''mode_application_error'', plain_str []),
      (''latest_activity'', plain_str ''Worker started''),
      (''last_active'', Plain (PFloat (now ''now''))),
      (''dispatch_state'',
         DispatchCh (if token \<noteq> None then DStarted else bs_dispatch_state current))]"

definition claim ::
  "(pyfloat \<Rightarrow> string) \<Rightarrow> clock \<Rightarrow> clock \<Rightarrow> int \<Rightarrow> string \<Rightarrow> string option \<Rightarrow> string \<Rightarrow> bg_store
   \<Rightarrow> background_session store_result" where
  "claim ft now_starting now pid lease token sid st =
     bindE (get_session False sid st) (\<lambda>s0.
     bindE (check_dispatch token s0) (\<lambda>_.
     bindE (if bs_status s0 = SQueued \<or> bs_status s0 = SRetrying
            then transition ft now_starting expect_nothing SStarting [] sid st
            else if bs_status s0 = SStarting \<or> bs_status s0 = SOrphaned then Inr (s0, st)
            else Inl (CannotClaim (bs_status s0))) (\<lambda>(current, st1).
     transition ft now
       (expect_nothing\<lparr>ex_status := Some (bs_status current), ex_attempt := Some (bs_attempt current)\<rparr>)
       SRunning (claim_changes now pid lease token current) sid st1)))"

definition heartbeat ::
  "(pyfloat \<Rightarrow> string) \<Rightarrow> clock \<Rightarrow> string \<Rightarrow> int option \<Rightarrow> string \<Rightarrow> string \<Rightarrow> int option \<Rightarrow> int option
   \<Rightarrow> pyfloat option \<Rightarrow> string \<Rightarrow> bg_store \<Rightarrow> background_session store_result" where
  "heartbeat ft now lease attempt phase activity tokens_in tokens_out cost sid st =
     bindE (get_session False sid st) (\<lambda>current.
     update ft now
       (expect_nothing\<lparr>ex_status := Some (bs_status current), ex_lease_token := Some lease,
          ex_attempt := attempt\<rparr>)
       [(''current_phase'', plain_str (str_or phase (bs_current_phase current))),
        (''latest_activity'', plain_str (str_or activity (bs_latest_activity current))),
        (''last_active'', Plain (PFloat (now ''last_active''))),
        (''heartbeat_stale'', Plain (PBool False)),
        (''tokens_in'', Plain (PInt (case tokens_in of None \<Rightarrow> bs_tokens_in current | Some n \<Rightarrow> n))),
        (''tokens_out'', Plain (PInt (case tokens_out of None \<Rightarrow> bs_tokens_out current | Some n \<Rightarrow> n))),
        (''cost_usd'', Plain (PFloat (case cost of None \<Rightarrow> bs_cost_usd current | Some c \<Rightarrow> c)))] sid st)"

definition record_worker_exit ::
  "(pyfloat \<Rightarrow> string) \<Rightarrow> clock \<Rightarrow> int option \<Rightarrow> string \<Rightarrow> int \<Rightarrow> string \<Rightarrow> int option \<Rightarrow> string \<Rightarrow> bg_store
   \<Rightarrow> background_session store_result" where
  "record_worker_exit ft now worker_pid exit_reason exit_code cleanup_error expected sid st =
     bindE (get_session True sid st) (\<lambda>current.
     bindE (guardE (met (=) expected (bs_attempt current)) AttemptStale) (\<lambda>_.
     Inr (current, append_event ft now ''worker_exited''
       [(''session_id'', PStr sid), (''run_id'', PStr (bs_run_id current)),
        (''attempt'', PInt (bs_attempt current)), (''worker_pid'', of_opt_int worker_pid),
        (''exit_reason'', PStr (take 128 exit_reason)), (''exit_code'', PInt exit_code),
        (''cleanup_error'', PStr (take 2000 cleanup_error)),
        (''timestamp'', PFloat (now ''exit''))] st)))"

definition mark_orphaned ::
  "(pyfloat \<Rightarrow> string) \<Rightarrow> clock \<Rightarrow> expectation \<Rightarrow> string \<Rightarrow> bg_store \<Rightarrow> background_session store_result" where
  "mark_orphaned ft now ex sid st =
     bindE (get_session False sid st) (\<lambda>current.
     if bs_status current \<in> set active_statuses \<and> bs_status current \<noteq> SCancelling then
       transition ft now ex SOrphaned [(''latest_activity'', plain_str ''Worker disappeared'')] sid st
     else if bs_status current = SCancelling then
       transition ft now ex SOrphaned [(''latest_activity'', plain_str ''Cancellation cleanup expired'')] sid st
     else Inr (current, st))"

section \<open>The user's operations\<close>

definition archive ::
  "(pyfloat \<Rightarrow> string) \<Rightarrow> clock \<Rightarrow> string \<Rightarrow> bg_store \<Rightarrow> background_session store_result" where
  "archive ft now sid st = transition ft now expect_nothing SArchived [] sid st"

definition squeeze :: "string \<Rightarrow> string" where
  "squeeze s = py_strip (join '' '' (py_split s))"

definition rename ::
  "(pyfloat \<Rightarrow> string) \<Rightarrow> clock \<Rightarrow> string \<Rightarrow> string \<Rightarrow> bg_store \<Rightarrow> background_session store_result" where
  "rename ft now title sid st =
     bindE (guardE (squeeze title \<noteq> []) EmptyTitle) (\<lambda>_.
     update ft now expect_nothing [(''title'', plain_str (take 160 (squeeze title)))] sid st)"

text \<open>A label is compared in full with the labels kept so far, which are cut to 48 characters.\<close>

fun normalize_labels :: "string list \<Rightarrow> string list \<Rightarrow> string list" where
  "normalize_labels acc [] = acc"
| "normalize_labels acc (label # labels) =
     normalize_labels
       (if squeeze label \<noteq> [] \<and> squeeze label \<notin> set acc then acc @ [take 48 (squeeze label)] else acc)
       labels"

definition set_labels ::
  "(pyfloat \<Rightarrow> string) \<Rightarrow> clock \<Rightarrow> string list \<Rightarrow> string \<Rightarrow> bg_store \<Rightarrow> background_session store_result" where
  "set_labels ft now labels sid st =
     update ft now expect_nothing
       [(''labels'', Plain (PTuple (map PStr (take 16 (normalize_labels [] labels)))))] sid st"

definition restore_archive ::
  "(pyfloat \<Rightarrow> string) \<Rightarrow> clock \<Rightarrow> string \<Rightarrow> bg_store \<Rightarrow> background_session store_result" where
  "restore_archive ft now sid st =
     bindE (get_session False sid st) (\<lambda>current.
     bindE (guardE (bs_status current = SArchived) NotArchived) (\<lambda>_.
     update ft now expect_nothing
       [(''status'', StatusCh SCompleted), (''latest_activity'', plain_str ''Restored'')] sid st))"

definition delete_session ::
  "(pyfloat \<Rightarrow> string) \<Rightarrow> clock \<Rightarrow> bool \<Rightarrow> string \<Rightarrow> store_error + string \<Rightarrow> string \<Rightarrow> bg_store
   \<Rightarrow> background_session store_result" where
  "delete_session ft now force operation_id moved sid st =
     bindE (get_session True sid st) (\<lambda>current.
     if bs_status current = SDeleted then
       (if operation_id = [] \<or> bs_delete_operation_id current = []
           \<or> bs_delete_operation_id current = operation_id
        then Inr (current, st) else Inl DeletedByOther)
     else if bs_status current \<in> set active_statuses \<and> \<not> force then Inl CancelFirst
     else if operation_id \<noteq> [] \<and> bs_delete_operation_id current \<noteq> []
             \<and> bs_delete_operation_id current \<noteq> operation_id
     then Inl DeleteNotOwner
     else bindE moved (\<lambda>trash.
       let operation = str_or operation_id (bs_delete_operation_id current)
       in Inr (bs_evolve current
                 [(''status'', StatusCh SDeleted), (''artifact_dir'', plain_str []),
                  (''trash_dir'', plain_str trash), (''delete_operation_id'', plain_str operation),
                  (''delete_phase'', plain_str ''completed''), (''delete_error'', plain_str [])],
               append_event ft now ''deleted''
                 [(''session_id'', PStr sid), (''trash_dir'', PStr trash),
                  (''operation_id'', PStr operation)] st)))"

definition restore_deleted ::
  "(pyfloat \<Rightarrow> string) \<Rightarrow> clock \<Rightarrow> store_error + string \<Rightarrow> string \<Rightarrow> bg_store \<Rightarrow> background_session store_result" where
  "restore_deleted ft now moved sid st =
     bindE (get_session True sid st) (\<lambda>current.
     bindE (guardE (bs_status current = SDeleted \<and> bs_trash_dir current \<noteq> []) NotRecoverable) (\<lambda>_.
     bindE moved (\<lambda>original.
     let restored = bs_evolve current
           [(''status'', StatusCh SCompleted), (''artifact_dir'', plain_str original),
            (''trash_dir'', plain_str []), (''delete_operation_id'', plain_str []),
            (''delete_phase'', plain_str []), (''delete_error'', plain_str []),
            (''delete_requested_at'', Plain PNone), (''delete_attempt'', Plain (PInt 0)),
            (''latest_activity'', plain_str ''Restored from trash'')]
     in Inr (restored, append_event ft now ''updated''
          [(''session_id'', PStr sid), (''changes'', of_dict (changed_fields current restored))] st))))"

end
