(* ===== verification/Bg_Store_Laws.thy ===== *)
theory Bg_Store_Laws
  imports Bg_Store
begin

text \<open>
  Laws of the store: every indexed record is well-formed and is the replay of the log, for every
  append and so for every operation; the rebuilt and the caught-up index agree with it; the record
  an update returns is the record the log replays; and how each operation moves the status.
\<close>

section \<open>Appended events\<close>

lemma event_record_simps [simp]:
  "obj_field (event_record n t ts p) ''payload'' = p"
  "event_kind (event_record n t ts p) t' \<longleftrightarrow> t = t'"
  "pget (event_record n t ts p) ''timestamp'' = PFloat ts"
  "event_sequence (event_record n t ts p) = Some n"
  by (simp_all add: obj_field_def event_record_def event_kind_def event_sequence_def)

lemma event_session_id_record:
  "event_session_id (event_record n t ts p) =
    (case str_of (pget p ''session_id'') of None \<Rightarrow> None | Some sid \<Rightarrow> if sid = [] then None else Some sid)"
  by (simp add: event_session_id_def)

lemma apply_event_id:
  assumes "apply_event ft now current event = Some s" "event_session_id event = Some sid"
    "\<And>c. current = Some c \<Longrightarrow> bs_session_id c = sid"
  shows "bs_session_id s = sid"
proof -
  have created: "apply_created ft (obj_field event ''payload'') = Some s \<Longrightarrow> bs_session_id s = sid"
    using assms(2)
    by (auto simp: apply_created_def event_session_id_def split: sum.splits option.splits if_splits
        elim!: read_InrE)
  have updated: "apply_updated c ch = Some s \<Longrightarrow> bs_session_id s = bs_session_id c" for c ch
    by (auto simp: apply_updated_def evolve_fields split: if_splits option.splits)
  have prio: "apply_priority_changed c event p = Some s \<Longrightarrow> bs_session_id s = bs_session_id c" for c p
    by (auto simp: apply_priority_changed_def Let_def evolve_fields split: if_splits)
  show ?thesis
    using assms(1,3)
    by (auto simp: apply_event_def Let_def apply_deleted_def evolve_fields split: if_splits option.splits
        dest: created updated prio)
qed

text \<open>Replaying an appended event does not need the reader's clock.\<close>

lemma apply_event_record_clock:
  "apply_event ft now c (event_record n t ts p) = apply_event ft now' c (event_record n t ts p)"
  by (simp add: apply_event_def apply_deleted_def Let_def split: option.splits)

section \<open>The index is the replay of the log\<close>

definition index_ok :: "background_session pydict \<Rightarrow> bool" where
  "index_ok index \<longleftrightarrow>
     (\<forall>sid s. dget index sid = Some s \<longrightarrow> sid \<noteq> [] \<and> wf_session s \<and> bs_session_id s = sid)"

definition numbered :: "payload list \<Rightarrow> bool" where
  "numbered events \<longleftrightarrow> (\<forall>i < length events. event_sequence (events ! i) = Some (int i + 1))"

definition store_ok :: "(pyfloat \<Rightarrow> string) \<Rightarrow> bg_store \<Rightarrow> bool" where
  "store_ok ft st \<longleftrightarrow> index_ok (st_index st)
     \<and> (\<forall>now. dget (st_index st) = dget (replay ft now (\<lambda>_. None) (st_events st) []))
     \<and> numbered (st_events st) \<and> st_sequence st = int (length (st_events st))"

lemma store_ok_empty: "store_ok ft store_empty"
  by (simp add: store_ok_def store_empty_def index_ok_def replay_def numbered_def)

lemma index_ok_event: "index_ok index \<Longrightarrow> index_ok (index_event ft now event index)"
proof (cases "event_session_id event")
  case None
  then show "index_ok index \<Longrightarrow> ?thesis" by (simp add: index_event_def)
next
  case (Some sid)
  assume ok: "index_ok index"
  have "sid \<noteq> []" using Some by (auto simp: event_session_id_def split: option.splits if_splits)
  moreover have "wf_session s" "bs_session_id s = sid"
    if "apply_event ft now (dget index sid) event = Some s" for s
    using apply_event_wf [OF that] apply_event_id [OF that Some] ok by (auto simp: index_ok_def)
  ultimately show ?thesis
    using ok Some by (auto simp: index_event_def index_ok_def split: option.splits)
qed

lemma replay_one_event:
  assumes "dget records = dget index"
  shows "dget (replay_one ft now (\<lambda>_. None) event records) = dget (index_event ft now event index)"
proof (cases "event_session_id event")
  case None
  with assms show ?thesis by (simp add: replay_one_def index_event_def)
next
  case (Some sid)
  have "load_record (\<lambda>_. None) sid event records = records" by (simp add: load_record_def)
  with Some assms show ?thesis
    by (cases "apply_event ft now (dget index sid) event")
      (simp_all add: replay_one_def index_event_def)
qed

lemma index_event_record_clock:
  "index_event ft now (event_record n t ts p) index = index_event ft now' (event_record n t ts p) index"
  by (cases "event_session_id (event_record n t ts p)")
    (simp_all only: index_event_def option.case apply_event_record_clock [of ft now _ n t ts p now'])

lemma numbered_append:
  "numbered events \<Longrightarrow> event_sequence event = Some (int (length events) + 1) \<Longrightarrow> numbered (events @ [event])"
  by (auto simp: numbered_def nth_append less_Suc_eq)

lemma store_ok_append:
  assumes "store_ok ft st"
  shows "store_ok ft (append_event ft now t p st)"
proof -
  let ?ev = "event_record (st_sequence st + 1) t (now ''timestamp'') p"
  have "dget (replay ft now' (\<lambda>_. None) (st_events st @ [?ev]) [])
      = dget (index_event ft (now ''timestamp'') ?ev (st_index st))" for now'
  proof -
    have "dget (replay ft now' (\<lambda>_. None) (st_events st) []) = dget (st_index st)"
      using assms by (simp add: store_ok_def)
    from replay_one_event [OF this, of ft now' ?ev] show ?thesis
      unfolding index_event_record_clock [of ft now' _ _ _ _ _ "now ''timestamp''"]
      by (simp add: replay_def)
  qed
  then show ?thesis
    using assms by (simp add: store_ok_def append_event_def Let_def index_ok_event numbered_append)
qed

text \<open>A rebuild from the log gives the index and the sequence of the running store.\<close>

lemma max_sequence_numbered: "numbered events \<Longrightarrow> max_sequence events = int (length events)"
proof (induction events rule: rev_induct)
  case Nil
  show ?case by (simp add: max_sequence_def)
next
  case (snoc event events)
  have "numbered events" "event_sequence event = Some (int (length events) + 1)"
    using snoc.prems by (auto simp: numbered_def nth_append split: if_splits)
  with snoc.IH show ?case by (simp add: max_sequence_def)
qed

lemma rebuild_store:
  assumes "store_ok ft st"
  shows "dget (fst (rebuild ft now (st_events st))) = dget (st_index st)"
    and "snd (rebuild ft now (st_events st)) = st_sequence st"
  using assms
  by (simp_all add: rebuild_def fold_events_replay max_sequence_numbered store_ok_def)

text \<open>Catching up: the index of a prefix, with the tail of the log applied to it.\<close>

definition overlay ::
  "background_session pydict \<Rightarrow> (string \<Rightarrow> background_session option) \<Rightarrow> string \<Rightarrow> background_session option" where
  "overlay records lookup k = (case dget records k of None \<Rightarrow> lookup k | Some s \<Rightarrow> Some s)"

lemma overlay_replay_one:
  assumes "overlay records lookup = dget index"
  shows "overlay (replay_one ft now lookup event records) lookup
    = dget (index_event ft now event index)"
proof (cases "event_session_id event")
  case None
  with assms show ?thesis by (simp add: replay_one_def index_event_def)
next
  case (Some sid)
  let ?L = "load_record lookup sid event records"
  have o: "overlay ?L lookup = dget index"
  proof (rule ext)
    show "overlay ?L lookup k = dget index k" for k
      using fun_cong [OF assms, of k] by (auto simp: overlay_def dget_load_record split: option.splits)
  qed
  have cur: "apply_event ft now (dget ?L sid) event = apply_event ft now (dget index sid) event"
  proof (cases "event_kind event ''created''")
    case True
    then show ?thesis by (simp add: apply_event_def)
  next
    case False
    then have "dget ?L sid = overlay ?L lookup sid"
      by (simp add: overlay_def dget_load_record split: option.splits)
    with o show ?thesis by simp
  qed
  have "overlay (dset sid s ?L) lookup = (overlay ?L lookup)(sid \<mapsto> s)" for s
    by (auto simp: overlay_def fun_eq_iff)
  with Some cur o show ?thesis
    by (cases "apply_event ft now (dget index sid) event")
      (simp_all add: replay_one_def index_event_def fun_eq_iff)
qed

definition index_events ::
  "(pyfloat \<Rightarrow> string) \<Rightarrow> pyfloat \<Rightarrow> payload list \<Rightarrow> background_session pydict \<Rightarrow> background_session pydict" where
  "index_events ft now events index = fold (index_event ft now) events index"

lemma overlay_replay:
  "overlay records lookup = dget index \<Longrightarrow>
   overlay (replay ft now lookup events records) lookup = dget (index_events ft now events index)"
  by (induction events arbitrary: records index)
    (simp_all add: replay_def index_events_def overlay_replay_one)

lemma index_events_replay:
  "dget records = dget index \<Longrightarrow>
   dget (replay ft now (\<lambda>_. None) events records) = dget (index_events ft now events index)"
  by (induction events arbitrary: records index)
    (simp_all add: replay_def index_events_def replay_one_event)

lemma index_events_cong:
  "dget index = dget index' \<Longrightarrow> dget (index_events ft now events index) = dget (index_events ft now events index')"
  by (metis index_events_replay)

lemma touch_keys: "set (keys (touch sid a records)) = set (keys records)"
  "distinct (keys records) \<Longrightarrow> distinct (keys (touch sid a records))"
  by (auto simp: touch_def dest: map_of_in_keys split: option.splits)

lemma distinct_load: "distinct (keys records) \<Longrightarrow> distinct (keys (load_record lookup sid event records))"
  by (simp add: load_record_def split: option.splits)

lemma distinct_folder_apply:
  "distinct (keys (fo_records fo)) \<Longrightarrow> distinct (keys (fo_records (folder_apply ft now lookup event fo)))"
  by (auto simp: folder_apply_def Let_def fold_one_def distinct_load touch_keys split: option.splits)

lemma distinct_fold_events: "distinct (keys (fold_events ft now lookup events))"
proof -
  have "distinct (keys (fo_records fo)) \<Longrightarrow>
      distinct (keys (fo_records (fold (folder_apply ft now lookup) events fo)))" for fo
    by (induction events arbitrary: fo) (simp_all add: distinct_folder_apply)
  moreover have "distinct (keys r) \<Longrightarrow> distinct (keys (fold (\<lambda>(sid, a). touch sid a) p r))" for p r
    by (induction p arbitrary: r) (auto simp: touch_keys)
  ultimately show ?thesis by (simp add: fold_events_def folder_finish_def folder_empty_def)
qed

lemma dget_upsert:
  "distinct (keys changed) \<Longrightarrow> dget (upsert changed index) = overlay changed (dget index)"
proof (induction changed arbitrary: index)
  case Nil
  show ?case by (simp add: upsert_def overlay_def fun_eq_iff)
next
  case (Cons p changed)
  obtain sid s where p: "p = (sid, s)" by (cases p)
  have "dget changed sid = None" using Cons.prems p by (auto intro: map_of_NoneI)
  with Cons show ?case by (auto simp: upsert_def p overlay_def fun_eq_iff split: option.split)
qed

lemma apply_tail_index:
  assumes "apply_tail ft now events index sequence = Some (index', n)"
  shows "dget index' = dget (index_events ft now events index)"
proof -
  have "overlay [] (dget index) = dget index" by (simp add: overlay_def fun_eq_iff)
  from overlay_replay [OF this, of ft now events] assms show ?thesis
    by (auto simp: apply_tail_def dget_upsert [OF distinct_fold_events] overlay_def [abs_def]
        fold_events_replay)
qed

lemma tail_sequence_numbered:
  "(\<forall>i < length events. event_sequence (events ! i) = Some (sequence + int i + 1)) \<Longrightarrow> 0 \<le> sequence \<Longrightarrow>
   tail_sequence sequence events = Some (sequence + int (length events))"
proof (induction events arbitrary: sequence)
  case Nil
  show ?case by simp
next
  case (Cons event events)
  have "event_sequence event = Some (sequence + 1)" using Cons.prems(1) by force
  moreover have "\<forall>i < length events. event_sequence (events ! i) = Some ((sequence + 1) + int i + 1)"
    using Cons.prems(1) by fastforce
  ultimately show ?case using Cons.IH [of "sequence + 1"] Cons.prems(2) by simp
qed

lemma numbered_appendD:
  assumes "numbered (xs @ ys)"
  shows "numbered xs" and "\<forall>i < length ys. event_sequence (ys ! i) = Some (int (length xs) + int i + 1)"
proof -
  have n: "event_sequence ((xs @ ys) ! i) = Some (int i + 1)" if "i < length xs + length ys" for i
    using assms that by (simp add: numbered_def)
  show "numbered xs"
    unfolding numbered_def
  proof (intro allI impI)
    fix i assume "i < length xs"
    then show "event_sequence (xs ! i) = Some (int i + 1)" using n [of i] by (simp add: nth_append)
  qed
  show "\<forall>i < length ys. event_sequence (ys ! i) = Some (int (length xs) + int i + 1)"
    using n [of "length xs + _"] by (simp add: nth_append)
qed

lemma catch_up:
  assumes ok: "store_ok ft st" and log: "st_events st = past @ tail"
    and past: "dget index = dget (fst (rebuild ft now past))"
  shows "\<exists>index'. apply_tail ft now tail index (snd (rebuild ft now past)) = Some (index', st_sequence st)
    \<and> dget index' = dget (st_index st)"
proof -
  have n: "numbered (past @ tail)" and len: "st_sequence st = int (length past) + int (length tail)"
    using ok log by (simp_all add: store_ok_def)
  have seq: "tail_sequence (snd (rebuild ft now past)) tail = Some (st_sequence st)"
    using tail_sequence_numbered [OF numbered_appendD(2) [OF n]] len
    by (simp add: rebuild_def max_sequence_numbered [OF numbered_appendD(1) [OF n]])
  define index' where "index' = upsert (fold_events ft now (dget index) tail) index"
  have tail: "apply_tail ft now tail index (snd (rebuild ft now past)) = Some (index', st_sequence st)"
    by (simp add: apply_tail_def seq index'_def)
  have "dget (replay ft now (\<lambda>_. None) past []) = dget index"
    using past by (simp add: rebuild_def fold_events_replay)
  from index_events_replay [OF this, of ft now tail]
  have "dget (replay ft now (\<lambda>_. None) (st_events st) []) = dget (index_events ft now tail index)"
    by (simp add: replay_def log)
  moreover have "dget (st_index st) = dget (replay ft now (\<lambda>_. None) (st_events st) [])"
    using ok by (simp add: store_ok_def)
  ultimately have "dget index' = dget (st_index st)"
    using apply_tail_index [OF tail] by simp
  with tail show ?thesis by blast
qed

section \<open>The record an update writes\<close>

lemma get_session_InrD:
  "get_session b sid st = Inr s \<Longrightarrow> dget (st_index st) sid = Some s \<and> (bs_status s = SDeleted \<longrightarrow> b)"
  by (auto simp: get_session_def split: option.splits if_splits)

lemma update_InrE:
  assumes "update ft now ex ch sid st = Inr (s, st')"
  obtains current where "dget (st_index st) sid = Some current"
    "check_expectation ex current = Inr ()" "unknown_fields ch = []"
    "claims_applied ch \<longrightarrow> attests ex ch current"
    "s = bs_evolve current (complete_changes now ch current)"
    "st' = append_event ft now ''updated'' (update_payload sid current s) st"
  using assms
  by (auto simp: update_def Let_def dest!: get_session_InrD elim!: bindE_InrE)

lemma check_expectation_iff:
  "check_expectation ex c = Inr () \<longleftrightarrow>
     (\<forall>x. ex_status ex = Some x \<longrightarrow> bs_status c = x)
     \<and> met (=) (ex_lease_token ex) (bs_lease_token c) \<and> met (=) (ex_attempt ex) (bs_attempt c)
     \<and> met f_eq (ex_last_active ex) (bs_last_active c)
     \<and> met (=) (ex_dispatch_state ex) (bs_dispatch_state c)
     \<and> met (=) (ex_delete_operation_id ex) (bs_delete_operation_id c)"
  by (auto simp: check_expectation_def bindE_eq_Inr_iff split: option.splits)

lemma update_payload_simps [simp]:
  "pget (update_payload sid c n) ''session_id'' = PStr sid"
  "obj_field (update_payload sid c n) ''changes'' = changed_fields c n"
  by (simp_all add: update_payload_def obj_field_def)

lemma updated_event_id [simp]:
  "sid \<noteq> [] \<Longrightarrow> event_session_id (event_record m ''updated'' ts (update_payload sid c n)) = Some sid"
  by (simp add: event_session_id_record)

lemma keys_changed_fields: "k \<notin> set bs_keys \<Longrightarrow> dget (changed_fields c n) k = None"
proof -
  assume k: "k \<notin> set bs_keys"
  have ms: "''mode_application_status'' \<in> set bs_keys" "''last_active'' \<in> set bs_keys"
    by (simp_all add: bs_keys_def)
  have "dget (filter P (bs_to_dict n)) k = None" for P
    using k by (simp add: map_of_filter_entries [OF distinct_keys_bs_to_dict] map_of_NoneI)
  with k ms show ?thesis by (auto simp: changed_fields_def Let_def)
qed

lemma no_self: "dget (changed_fields c n) ''self'' = None"
  by (rule keys_changed_fields) (simp add: bs_keys_def)

lemma apply_changed_fields:
  assumes c: "wf_session c" and n: "wf_session n" and sid: "bs_session_id n = bs_session_id c"
  shows "apply_updated c (changed_fields c n) = Some n"
proof (cases "apply_updated c (changed_fields c n)")
  case None
  have "num_of (pget (changed_fields c n) ''last_active'') = Some (bs_last_active n)"
    using dget_changed_fields [of c "''last_active''" "PFloat (bs_last_active c)" n "PFloat (bs_last_active n)"]
    by (auto simp: changed_fields_def Let_def pget_def dget_or_def)
  with None show ?thesis by (auto simp: apply_updated_def no_self split: if_splits)
next
  case (Some s)
  with apply_updated_evolve [OF c no_self [of c n]] replay_changed_fields [OF c n sid] show ?thesis
    by simp
qed

lemma apply_changed_status:
  "\<exists>d. apply_updated c (changed_fields c n) = Some d \<and> bs_status d = bs_status n
    \<and> bs_attempt d = bs_attempt n \<and> bs_lease_token d = bs_lease_token n"
proof -
  let ?ch = "as_changes (changed_fields c n)"
  have f: "num_of (pget (changed_fields c n) ''last_active'') = Some (bs_last_active n)"
    by (auto simp: changed_fields_def Let_def pget_def dget_or_def)
  have e: "ev_status ?ch (bs_status c) = bs_status n"
    "ev_int ?ch ''attempt'' (bs_attempt c) = bs_attempt n"
    "ev_str ?ch ''lease_token'' (bs_lease_token c) = bs_lease_token n"
    by ((rule carries_intros, rule carried); simp)+
  show ?thesis
  proof (cases "length (changed_fields c n) = 1 \<and> dget (changed_fields c n) ''last_active'' \<noteq> None")
    case True
    then obtain v where "changed_fields c n = [(''last_active'', v)]"
      by (cases "changed_fields c n") (auto split: if_splits)
    with e f show ?thesis
      by (simp add: apply_updated_def ev_status_def ev_int_def ev_str_def ev_with_def)
  next
    case False
    then show ?thesis using e no_self [of c n] by (auto simp: apply_updated_def evolve_fields)
  qed
qed

lemma updated_index:
  assumes "dget (st_index st) sid = Some c" "sid \<noteq> []"
  shows "dget (st_index (append_event ft now ''updated'' (update_payload sid c n) st))
    = (dget (st_index st))(sid \<mapsto> the (apply_updated c (changed_fields c n)))"
proof -
  obtain d where d: "apply_updated c (changed_fields c n) = Some d"
    using apply_changed_status by blast
  let ?ev = "event_record (st_sequence st + 1) ''updated'' (now ''timestamp'') (update_payload sid c n)"
  have "apply_event ft (now ''timestamp'') (Some c) ?ev = Some d"
    by (simp add: apply_event_def d)
  then have "index_event ft (now ''timestamp'') ?ev (st_index st) = dset sid d (st_index st)"
    by (simp add: index_event_def updated_event_id [OF assms(2)] assms(1))
  then have "st_index (append_event ft now ''updated'' (update_payload sid c n) st) = dset sid d (st_index st)"
    unfolding append_event_def Let_def bg_store.select_convs .
  then show ?thesis by (simp only: map_of_dset d option.sel)
qed

lemma ch_default_other: "k' \<noteq> k \<Longrightarrow> dget (ch_default k c ch) k' = dget ch k'"
  by (simp add: ch_default_def)

lemma ch_truncate_other: "k' \<noteq> k \<Longrightarrow> dget (ch_truncate k n ch) k' = dget ch k'"
  by (cases "ch_get ch k ch_str") (simp_all add: ch_truncate_def)

lemma complete_changes_get:
  "k \<notin> {''last_active'', ''error'', ''latest_activity'', ''state_changed_at''} \<Longrightarrow>
   dget (complete_changes now ch c) k = dget ch k"
  by (simp add: complete_changes_def ch_default_other ch_truncate_other)

lemma wf_complete_changes: "wf_changes ch \<Longrightarrow> wf_changes (complete_changes now ch c)"
  by (simp add: wf_changes_def complete_changes_get)

lemma update_durable:
  assumes ok: "store_ok ft st" and ch: "wf_changes ch" and up: "update ft now ex ch sid st = Inr (s, st')"
  shows "store_ok ft st'" and "dget (st_index st') = (dget (st_index st))(sid \<mapsto> s)" and "wf_session s"
proof -
  from up obtain c where c: "dget (st_index st) sid = Some c"
    and s: "s = bs_evolve c (complete_changes now ch c)"
    and st': "st' = append_event ft now ''updated'' (update_payload sid c s) st"
    by (rule update_InrE)
  have wf: "wf_session c" "bs_session_id c = sid" "sid \<noteq> []"
    using ok c by (auto simp: store_ok_def index_ok_def)
  show "store_ok ft st'" unfolding st' by (rule store_ok_append [OF ok])
  show s_wf: "wf_session s" unfolding s by (rule wf_session_evolve [OF wf(1) wf_complete_changes [OF ch]])
  have "apply_updated c (changed_fields c s) = Some s"
    by (rule apply_changed_fields [OF wf(1) s_wf]) (simp add: s evolve_fields)
  then show "dget (st_index st') = (dget (st_index st))(sid \<mapsto> s)"
    unfolding st' updated_index [OF c wf(3)] by (simp add: fun_eq_iff)
qed

lemma update_status:
  assumes ok: "index_ok (st_index st)" and up: "update ft now ex ch sid st = Inr (s, st')"
  obtains c d where "dget (st_index st) sid = Some c"
    "dget (st_index st') = (dget (st_index st))(sid \<mapsto> d)"
    "bs_status d = bs_status s" "bs_attempt d = bs_attempt s" "bs_lease_token d = bs_lease_token s"
    "bs_status s = ev_status ch (bs_status c)" "bs_attempt s = ev_int ch ''attempt'' (bs_attempt c)"
proof -
  from up obtain c where c: "dget (st_index st) sid = Some c"
    and s: "s = bs_evolve c (complete_changes now ch c)"
    and st': "st' = append_event ft now ''updated'' (update_payload sid c s) st"
    by (rule update_InrE)
  have sid: "sid \<noteq> []" using ok c by (auto simp: index_ok_def)
  obtain d where d: "apply_updated c (changed_fields c s) = Some d" "bs_status d = bs_status s"
    "bs_attempt d = bs_attempt s" "bs_lease_token d = bs_lease_token s"
    using apply_changed_status by blast
  have "bs_status s = ev_status ch (bs_status c)" "bs_attempt s = ev_int ch ''attempt'' (bs_attempt c)"
    by (simp_all add: s evolve_fields ev_status_def ev_int_def ev_with_def complete_changes_get)
  with c d show thesis
    by (intro that [of c d]) (simp_all add: st' updated_index [OF c sid] fun_eq_iff)
qed

end
