(* ===== verification/Bg_Lifecycle.thy ===== *)
theory Bg_Lifecycle
  imports Bg_Store_Laws
begin

text \<open>
  The lifecycle of background sessions: a step relation with one rule per operation of the store
  that appends an event, the reachable stores, which moves of the status each kind of step makes,
  and who may attest an applied mode. Operations of the store that are built from others
  (\<open>claim\<close>, \<open>heartbeat\<close>, \<open>archive\<close>, ...) are shown to be sequences of steps.
\<close>

section \<open>Steps\<close>

datatype store_op =
  OpCreate | OpUpdate | OpTransition | OpPriority | OpExit | OpUnarchive | OpDelete | OpRestore

inductive store_step :: "(pyfloat \<Rightarrow> string) \<Rightarrow> store_op \<Rightarrow> bg_store \<Rightarrow> bg_store \<Rightarrow> bool" for ft where
  step_create: "create_session ft now s st = Inr (r, st') \<Longrightarrow> store_step ft OpCreate st st'"
| step_update: "update ft now ex ch sid st = Inr (r, st') \<Longrightarrow> dget ch ''status'' = None
    \<Longrightarrow> store_step ft OpUpdate st st'"
| step_transition: "transition ft now ex target ch sid st = Inr (r, st') \<Longrightarrow> dget ch ''status'' = None
    \<Longrightarrow> store_step ft OpTransition st st'"
| step_priority: "change_priority ft now prio who sid st = Inr (r, st') \<Longrightarrow> store_step ft OpPriority st st'"
| step_exit: "record_worker_exit ft now pid reason exit_code cleanup expected sid st = Inr (r, st')
    \<Longrightarrow> store_step ft OpExit st st'"
| step_unarchive: "restore_archive ft now sid st = Inr (r, st') \<Longrightarrow> store_step ft OpUnarchive st st'"
| step_delete: "delete_session ft now force operation moved sid st = Inr (r, st')
    \<Longrightarrow> store_step ft OpDelete st st'"
| step_restore: "restore_deleted ft now moved sid st = Inr (r, st') \<Longrightarrow> store_step ft OpRestore st st'"

inductive store_steps :: "(pyfloat \<Rightarrow> string) \<Rightarrow> bg_store \<Rightarrow> bg_store \<Rightarrow> bool" for ft where
  steps_refl [intro]: "store_steps ft st st"
| steps_step: "store_steps ft st st' \<Longrightarrow> store_step ft op st' st'' \<Longrightarrow> store_steps ft st st''"

lemma store_step_steps [intro]: "store_step ft op st st' \<Longrightarrow> store_steps ft st st'"
  by (rule steps_step [OF steps_refl])

lemma store_steps_trans: "store_steps ft st' st'' \<Longrightarrow> store_steps ft st st' \<Longrightarrow> store_steps ft st st''"
  by (induction rule: store_steps.induct) (auto intro: steps_step)

text \<open>Every step leaves the log as it was or appends one event.\<close>

definition appended :: "(pyfloat \<Rightarrow> string) \<Rightarrow> bg_store \<Rightarrow> bg_store \<Rightarrow> bool" where
  "appended ft st st' \<longleftrightarrow> st' = st \<or> (\<exists>now t p. st' = append_event ft now t p st)"

lemma appendedI [intro]: "appended ft st st" "appended ft st (append_event ft now t p st)"
  by (auto simp: appended_def)

lemma update_appended: "update ft now ex ch sid st = Inr (r, st') \<Longrightarrow> appended ft st st'"
  by (erule update_InrE) blast

lemma transition_from_updateE:
  assumes "transition_from ft now ex target ch sid current st = Inr (r, st')"
  obtains ch' where "update ft now ex ch' sid st = Inr (r, st')"
    "ch' = ch \<and> bs_status current = target
     \<or> ch' = transition_changes now target ch current \<and> legal_transition (bs_status current) target
       \<and> bs_status current \<noteq> target"
  using assms by (auto simp: transition_from_def split: if_splits)

lemma transition_updateE:
  assumes "transition ft now ex target ch sid st = Inr (r, st')"
  obtains current ch' where "dget (st_index st) sid = Some current"
    "update ft now ex ch' sid st = Inr (r, st')"
    "ch' = ch \<and> bs_status current = target
     \<or> ch' = transition_changes now target ch current \<and> legal_transition (bs_status current) target
       \<and> bs_status current \<noteq> target"
proof -
  from assms obtain current where "get_session True sid st = Inr current"
    "transition_from ft now ex target ch sid current st = Inr (r, st')"
    unfolding transition_def by (rule bindE_InrE)
  with that show thesis by (metis get_session_InrD transition_from_updateE)
qed

lemma store_step_appended: "store_step ft op st st' \<Longrightarrow> appended ft st st'"
proof (induction rule: store_step.induct)
  case (step_create now s st r st')
  then show ?case by (auto simp: create_session_def split: option.splits if_splits)
next
  case (step_update now ex ch sid st r st')
  then show ?case by (blast intro: update_appended)
next
  case (step_transition now ex target ch sid st r st')
  then show ?case by (blast elim: transition_updateE intro: update_appended)
next
  case (step_priority now prio who sid st r st')
  then show ?case by (auto simp: change_priority_def Let_def elim!: bindE_InrE split: if_splits)
next
  case (step_exit now pid reason exit_code cleanup expected sid st r st')
  then show ?case by (auto simp: record_worker_exit_def elim!: bindE_InrE)
next
  case (step_unarchive now sid st r st')
  then show ?case by (auto simp: restore_archive_def elim!: bindE_InrE intro: update_appended)
next
  case (step_delete now force operation moved sid st r st')
  then show ?case by (auto simp: delete_session_def Let_def elim!: bindE_InrE split: if_splits)
next
  case (step_restore now moved sid st r st')
  then show ?case by (auto simp: restore_deleted_def Let_def elim!: bindE_InrE)
qed

lemma store_ok_appended: "store_ok ft st \<Longrightarrow> appended ft st st' \<Longrightarrow> store_ok ft st'"
  by (auto simp: appended_def store_ok_append)

lemma store_ok_steps: "store_steps ft st st' \<Longrightarrow> store_ok ft st \<Longrightarrow> store_ok ft st'"
  by (induction rule: store_steps.induct) (auto intro: store_ok_appended store_step_appended)

section \<open>Composed operations\<close>

lemma plain_status_free [simp]:
  "dget (claim_changes now pid lease token c) ''status'' = None"
  by (simp add: claim_changes_def)

lemma steps_update:
  "update ft now ex ch sid st = Inr (r, st') \<Longrightarrow> dget ch ''status'' = None \<Longrightarrow> store_steps ft st st'"
  by (blast intro: step_update)

lemma steps_transition:
  "transition ft now ex target ch sid st = Inr (r, st') \<Longrightarrow> dget ch ''status'' = None \<Longrightarrow> store_steps ft st st'"
  by (blast intro: step_transition)

lemma composed_steps:
  "record_mode_application ft now requested effective attempt lease sid st = Inr (r, st') \<Longrightarrow> store_steps ft st st'"
  "mark_delete_requested ft now operation who sid st = Inr (r, st') \<Longrightarrow> store_steps ft st st'"
  "mark_delete_progress ft now operation phase activity sid st = Inr (r, st') \<Longrightarrow> store_steps ft st st'"
  "mark_delete_failed ft now operation err retryable sid st = Inr (r, st') \<Longrightarrow> store_steps ft st st'"
  "heartbeat ft now lease att phase activity tin tout cost sid st = Inr (r, st') \<Longrightarrow> store_steps ft st st'"
  "rename ft now title sid st = Inr (r, st') \<Longrightarrow> store_steps ft st st'"
  "set_labels ft now labels sid st = Inr (r, st') \<Longrightarrow> store_steps ft st st'"
  "archive ft now sid st = Inr (r, st') \<Longrightarrow> store_steps ft st st'"
  "mark_orphaned ft now ex sid st = Inr (r, st') \<Longrightarrow> store_steps ft st st'"
  unfolding record_mode_application_def mark_delete_requested_def mark_delete_progress_def
    mark_delete_failed_def heartbeat_def rename_def set_labels_def archive_def mark_orphaned_def
  by ((auto elim!: bindE_InrE split: if_split_asm simp del: append.simps
        intro: steps_update steps_transition)[1])+

lemma claim_InrE:
  assumes "claim ft now0 now pid lease token sid st = Inr (r, st')"
  obtains s0 current st1 where "get_session False sid st = Inr s0"
    "check_dispatch token s0 = Inr ()"
    "(bs_status s0 = SQueued \<or> bs_status s0 = SRetrying)
        \<and> transition ft now0 expect_nothing SStarting [] sid st = Inr (current, st1)
      \<or> (bs_status s0 = SStarting \<or> bs_status s0 = SOrphaned) \<and> current = s0 \<and> st1 = st"
    "transition ft now
       (expect_nothing\<lparr>ex_status := Some (bs_status current), ex_attempt := Some (bs_attempt current)\<rparr>)
       SRunning (claim_changes now pid lease token current) sid st1 = Inr (r, st')"
  using assms unfolding claim_def by (auto elim!: bindE_InrE split: if_splits)

lemma claim_steps:
  assumes "claim ft now0 now pid lease token sid st = Inr (r, st')"
  shows "store_steps ft st st'"
proof -
  from assms obtain s0 current st1 where
    first: "(bs_status s0 = SQueued \<or> bs_status s0 = SRetrying)
        \<and> transition ft now0 expect_nothing SStarting [] sid st = Inr (current, st1)
      \<or> (bs_status s0 = SStarting \<or> bs_status s0 = SOrphaned) \<and> current = s0 \<and> st1 = st"
    and second: "transition ft now
       (expect_nothing\<lparr>ex_status := Some (bs_status current), ex_attempt := Some (bs_attempt current)\<rparr>)
       SRunning (claim_changes now pid lease token current) sid st1 = Inr (r, st')"
    by (rule claim_InrE)
  have "store_steps ft st st1"
    using first by (auto intro: steps_transition)
  then show ?thesis
    by (rule steps_step) (rule step_transition [OF second], simp)
qed

section \<open>How the status moves\<close>

definition status_move :: "session_status \<Rightarrow> session_status \<Rightarrow> bool" where
  "status_move old new \<longleftrightarrow> old = new \<or> legal_transition old new"

definition allowed_move :: "store_op \<Rightarrow> session_status \<Rightarrow> session_status \<Rightarrow> bool" where
  "allowed_move op old new \<longleftrightarrow> status_move old new
     \<or> op = OpDelete \<and> new = SDeleted
     \<or> op = OpRestore \<and> old = SDeleted \<and> new = SCompleted
     \<or> op = OpCreate \<and> old = SDeleted"

text \<open>What a step does to the record of one session.\<close>

definition record_moves ::
  "store_op \<Rightarrow> background_session pydict \<Rightarrow> background_session pydict \<Rightarrow> bool" where
  "record_moves op index index' \<longleftrightarrow>
     (\<forall>k c. dget index k = Some c \<longrightarrow>
        (\<exists>d. dget index' k = Some d \<and> allowed_move op (bs_status c) (bs_status d)))"

lemma record_moves_refl [intro]: "record_moves op index index"
  by (auto simp: record_moves_def allowed_move_def status_move_def)

lemma record_movesI:
  assumes "dget index' = (dget index)(sid \<mapsto> d)"
    and "\<And>c. dget index sid = Some c \<Longrightarrow> allowed_move op (bs_status c) (bs_status d)"
  shows "record_moves op index index'"
  using assms by (auto simp: record_moves_def allowed_move_def status_move_def)

text \<open>An appended event touches the record of its own session only.\<close>

lemma append_index:
  assumes "event_session_id (event_record (st_sequence st + 1) t (now ''timestamp'') p) = Some sid"
  shows "st_index (append_event ft now t p st) =
    (case apply_event ft (now ''timestamp'') (dget (st_index st) sid)
        (event_record (st_sequence st + 1) t (now ''timestamp'') p) of
       None \<Rightarrow> st_index st | Some s \<Rightarrow> dset sid s (st_index st))"
  unfolding append_event_def Let_def bg_store.select_convs index_event_def assms option.case by (rule refl)

lemma moves_append:
  assumes sid: "event_session_id (event_record (st_sequence st + 1) t (now ''timestamp'') p) = Some sid"
    and move: "\<And>c d. dget (st_index st) sid = Some c \<Longrightarrow>
      apply_event ft (now ''timestamp'') (Some c)
        (event_record (st_sequence st + 1) t (now ''timestamp'') p) = Some d \<Longrightarrow>
      allowed_move op (bs_status c) (bs_status d)"
  shows "record_moves op (st_index st) (st_index (append_event ft now t p st))"
proof (cases "apply_event ft (now ''timestamp'') (dget (st_index st) sid)
    (event_record (st_sequence st + 1) t (now ''timestamp'') p)")
  case None
  then show ?thesis by (simp add: append_index [where st = st and t = t and now = now and p = p, OF sid] record_moves_refl)
next
  case (Some d)
  show ?thesis
  proof (rule record_movesI)
    show "dget (st_index (append_event ft now t p st)) = (dget (st_index st))(sid \<mapsto> d)"
      by (simp only: append_index [where st = st and t = t and now = now and p = p, OF sid] Some option.case map_of_dset)
  qed (use Some move in auto)
qed

lemma moves_update:
  assumes ok: "index_ok (st_index st)" and up: "update ft now ex ch sid st = Inr (r, st')"
    and move: "\<And>c. dget (st_index st) sid = Some c \<Longrightarrow> allowed_move op (bs_status c) (ev_status ch (bs_status c))"
  shows "record_moves op (st_index st) (st_index st')"
proof -
  from update_status [OF ok up] obtain c d where "dget (st_index st) sid = Some c"
    "dget (st_index st') = (dget (st_index st))(sid \<mapsto> d)" "bs_status d = ev_status ch (bs_status c)"
    by metis
  with move show ?thesis by (intro record_movesI) auto
qed

lemma transition_status:
  "dget (transition_changes now target ch c) ''status'' = Some (StatusCh target)"
  by (simp add: transition_changes_def Let_def push_attempt_def ch_default_def)

lemma ev_status_transition [simp]: "ev_status (transition_changes now target ch c) s = target"
  by (simp add: ev_status_def ev_with_def transition_status)

lemma ev_status_unchanged: "dget ch ''status'' = None \<Longrightarrow> ev_status ch s = s"
  by (simp add: ev_status_def ev_with_def)

lemma update_payload_id:
  "sid \<noteq> [] \<Longrightarrow> event_session_id (event_record m t ts ((''session_id'', PStr sid) # p)) = Some sid"
  by (simp add: event_session_id_record)

lemma moves_append_sid:
  assumes "sid \<noteq> []"
    and "\<And>m ts c d. dget (st_index st) sid = Some c \<Longrightarrow>
      apply_event ft ts (Some c) (event_record m t ts ((''session_id'', PStr sid) # p)) = Some d \<Longrightarrow>
      allowed_move op (bs_status c) (bs_status d)"
  shows "record_moves op (st_index st) (st_index (append_event ft now t ((''session_id'', PStr sid) # p) st))"
  by (rule moves_append [where sid = sid]) (use assms update_payload_id in auto)

definition appends :: "(pyfloat \<Rightarrow> string) \<Rightarrow> string \<Rightarrow> string \<Rightarrow> bg_store \<Rightarrow> bg_store \<Rightarrow> bool" where
  "appends ft t sid st st' \<longleftrightarrow>
     st' = st \<or> (\<exists>now p. st' = append_event ft now t ((''session_id'', PStr sid) # p) st)"

lemma appendsI [intro]:
  "appends ft t sid st st" "appends ft t sid st (append_event ft now t ((''session_id'', PStr sid) # p) st)"
  by (auto simp: appends_def)

lemma moves_appends:
  assumes "appends ft t sid st st'" "sid \<noteq> []"
    and "\<And>m ts p c d. dget (st_index st) sid = Some c \<Longrightarrow>
      apply_event ft ts (Some c) (event_record m t ts ((''session_id'', PStr sid) # p)) = Some d \<Longrightarrow>
      allowed_move op (bs_status c) (bs_status d)"
  shows "record_moves op (st_index st) (st_index st')"
  using assms by (auto simp: appends_def intro: moves_append_sid)

lemma appends_of:
  "change_priority ft now prio who sid st = Inr (r, st') \<Longrightarrow>
     dget (st_index st) sid \<noteq> None \<and> appends ft ''priority_changed'' sid st st'"
  "record_worker_exit ft now pid reason exit_code cleanup expected sid st = Inr (r, st') \<Longrightarrow>
     dget (st_index st) sid \<noteq> None \<and> appends ft ''worker_exited'' sid st st'"
  "delete_session ft now force operation moved sid st = Inr (r, st') \<Longrightarrow>
     dget (st_index st) sid \<noteq> None \<and> appends ft ''deleted'' sid st st'"
  by (auto simp: change_priority_def record_worker_exit_def delete_session_def Let_def
      dest!: get_session_InrD elim!: bindE_InrE split: if_splits)

lemma restore_deletedD:
  "restore_deleted ft now moved sid st = Inr (n, st') \<Longrightarrow>
   \<exists>c. dget (st_index st) sid = Some c \<and> bs_status c = SDeleted \<and> bs_status n = SCompleted
     \<and> st' = append_event ft now ''updated''
         [(''session_id'', PStr sid), (''changes'', of_dict (changed_fields c n))] st"
  by (auto simp: restore_deleted_def Let_def evolve_fields ev_status_def ev_with_def
      dest!: get_session_InrD elim!: bindE_InrE)

lemma store_step_moves:
  "store_step ft op st st' \<Longrightarrow> index_ok (st_index st) \<Longrightarrow> record_moves op (st_index st) (st_index st')"
proof (induction rule: store_step.induct)
  case (step_create now s st r st')
  have fresh: "dget (st_index st) (bs_session_id s) = Some c \<Longrightarrow> bs_status c = SDeleted" for c
    using step_create by (auto simp: create_session_def split: option.splits if_splits)
  have st': "st' = append_event ft now ''created'' (bs_to_dict s) st"
    using step_create by (auto simp: create_session_def split: option.splits if_splits)
  show ?case
  proof (cases "bs_session_id s = []")
    case True
    then have "event_session_id (event_record (st_sequence st + 1) ''created'' (now ''timestamp'') (bs_to_dict s)) = None"
      by (simp add: event_session_id_record pget_def dget_or_def)
    then have "st_index st' = st_index st"
      unfolding st' append_event_def Let_def bg_store.select_convs index_event_def by simp
    then show ?thesis by (simp add: record_moves_refl)
  next
    case False
    then have "event_session_id (event_record (st_sequence st + 1) ''created'' (now ''timestamp'') (bs_to_dict s))
        = Some (bs_session_id s)"
      by (simp add: event_session_id_record pget_def dget_or_def)
    then show ?thesis
      unfolding st' by (rule moves_append) (auto simp: allowed_move_def fresh)
  qed
next
  case (step_update now ex ch sid st r st')
  show ?case
    by (rule moves_update [OF step_update.prems step_update.hyps(1)])
      (simp add: ev_status_unchanged [OF step_update.hyps(2)] allowed_move_def status_move_def)
next
  case (step_transition now ex target ch sid st r st')
  from step_transition.hyps(1) obtain current ch' where c: "dget (st_index st) sid = Some current"
    and up: "update ft now ex ch' sid st = Inr (r, st')"
    and ch': "ch' = ch \<and> bs_status current = target
      \<or> ch' = transition_changes now target ch current \<and> legal_transition (bs_status current) target
        \<and> bs_status current \<noteq> target"
    by (rule transition_updateE)
  show ?case
    by (rule moves_update [OF step_transition.prems up])
      (use c ch' step_transition.hyps(2) in \<open>auto simp: ev_status_unchanged allowed_move_def status_move_def\<close>)
next
  case (step_priority now prio who sid st r st')
  obtain c where c: "dget (st_index st) sid = Some c" and st': "appends ft ''priority_changed'' sid st st'"
    using appends_of(1) [OF step_priority.hyps] by blast
  have sid: "sid \<noteq> []" using c step_priority.prems by (auto simp: index_ok_def)
  show ?case
    by (rule moves_appends [OF st' sid])
      (auto simp: apply_event_def apply_priority_changed_def Let_def evolve_fields ev_status_unchanged
        allowed_move_def status_move_def split: if_splits)
next
  case (step_exit now pid reason exit_code cleanup expected sid st r st')
  obtain c where c: "dget (st_index st) sid = Some c" and st': "appends ft ''worker_exited'' sid st st'"
    using appends_of(2) [OF step_exit.hyps] by blast
  have sid: "sid \<noteq> []" using c step_exit.prems by (auto simp: index_ok_def)
  show ?case
    by (rule moves_appends [OF st' sid]) (simp add: apply_event_def)
next
  case (step_unarchive now sid st r st')
  from step_unarchive.hyps obtain c where "get_session False sid st = Inr c" "bs_status c = SArchived"
    and up: "update ft now expect_nothing
       [(''status'', StatusCh SCompleted), (''latest_activity'', plain_str ''Restored'')] sid st = Inr (r, st')"
    by (auto simp: restore_archive_def elim!: bindE_InrE)
  then have c: "dget (st_index st) sid = Some c" "bs_status c = SArchived"
    using get_session_InrD by auto
  show ?case
    by (rule moves_update [OF step_unarchive.prems up])
      (use c in \<open>simp add: ev_status_def ev_with_def allowed_move_def status_move_def legal_transition_def\<close>)
next
  case (step_delete now force operation moved sid st r st')
  obtain c where c: "dget (st_index st) sid = Some c" and st': "appends ft ''deleted'' sid st st'"
    using appends_of(3) [OF step_delete.hyps] by blast
  have sid: "sid \<noteq> []" using c step_delete.prems by (auto simp: index_ok_def)
  show ?case
    by (rule moves_appends [OF st' sid])
      (auto simp: apply_event_def apply_deleted_def Let_def evolve_fields ev_status_def ev_with_def
        allowed_move_def)
next
  case (step_restore now moved sid st n st')
  obtain c where c: "dget (st_index st) sid = Some c" and deleted: "bs_status c = SDeleted"
    and n: "st' = append_event ft now ''updated''
        [(''session_id'', PStr sid), (''changes'', of_dict (changed_fields c n))] st" "bs_status n = SCompleted"
    using restore_deletedD [OF step_restore.hyps] by blast
  have sid: "sid \<noteq> []" using c step_restore.prems by (auto simp: index_ok_def)
  obtain d where d: "apply_updated c (changed_fields c n) = Some d" "bs_status d = SCompleted"
    using apply_changed_status [of c n] n(2) by auto
  have ch: "obj_field [(''session_id'', PStr sid), (''changes'', of_dict (changed_fields x n))] ''changes''
      = changed_fields x n" for x
    by (simp add: obj_field_def)
  show ?case
    unfolding n(1)
    by (rule moves_append_sid [OF sid])
      (use c d deleted in \<open>auto simp: apply_event_def ch allowed_move_def\<close>)
qed

section \<open>Attested modes\<close>

lemma dget_complete_other [simp]:
  "dget (complete_changes now ch c) ''mode_name'' = dget ch ''mode_name''"
  "dget (complete_changes now ch c) ''mode_application_status'' = dget ch ''mode_application_status''"
  "dget (complete_changes now ch c) ''mode_application_attempt'' = dget ch ''mode_application_attempt''"
  "dget (complete_changes now ch c) ''attempt'' = dget ch ''attempt''"
  "dget (complete_changes now ch c) ''lease_token'' = dget ch ''lease_token''"
  "dget (complete_changes now ch c) ''dispatch_state'' = dget ch ''dispatch_state''"
  "dget (complete_changes now ch c) ''attempt_history'' = dget ch ''attempt_history''"
  "dget (complete_changes now ch c) ''status'' = dget ch ''status''"
  by (simp_all add: complete_changes_get)

lemma evolve_complete [simp]:
  "ev_mode (complete_changes now ch c) s = ev_mode ch s"
  "ev_int (complete_changes now ch c) ''mode_application_attempt'' i = ev_int ch ''mode_application_attempt'' i"
  "ev_int (complete_changes now ch c) ''attempt'' i = ev_int ch ''attempt'' i"
  "ev_str (complete_changes now ch c) ''lease_token'' x = ev_str ch ''lease_token'' x"
  "ev_dispatch (complete_changes now ch c) d = ev_dispatch ch d"
  "ev_status (complete_changes now ch c) z = ev_status ch z"
  "ev_attempts (complete_changes now ch c) s = ev_attempts ch s"
  by (simp_all add: ev_mode_def ev_int_def ev_str_def ev_dispatch_def ev_status_def ev_attempts_def
      ev_bounded_def ev_with_def)

text \<open>The text or member given for the application status is one the enumeration knows.\<close>

definition known_mode_status :: "changes \<Rightarrow> bool" where
  "known_mode_status ch \<longleftrightarrow> (case dget ch ''mode_application_status'' of
     None \<Rightarrow> True | Some c \<Rightarrow> (\<exists>m. c = ModeCh m \<or> c = Plain (PStr (mode_value m))))"

lemma known_mode_statusE:
  assumes "known_mode_status ch"
  obtains "dget ch ''mode_application_status'' = None"
  | m where "dget ch ''mode_application_status'' = Some (ModeCh m)"
  | m where "dget ch ''mode_application_status'' = Some (Plain (PStr (mode_value m)))"
  using assms by (cases "dget ch ''mode_application_status''") (auto simp: known_mode_status_def)

lemma applied_status_given:
  assumes "dget ch ''mode_application_status'' = Some x" "x = ModeCh m \<or> x = Plain (PStr (mode_value m))"
    and "snd (ev_mode ch c) = ModeApplied"
  shows "claims_applied ch"
proof -
  have "m = ModeApplied"
    using assms by (auto simp: ev_mode_def Let_def ev_with_def coherent_mode_def split: if_splits)
  with assms(1,2) show ?thesis by (auto simp: claims_applied_def ch_get_def)
qed

lemma ev_mode_unstated:
  assumes "dget ch ''mode_application_status'' = None" "snd (ev_mode ch c) = ModeApplied"
    "length (bs_mode_name c) \<le> 128"
  shows "bs_mode_application_status c = ModeApplied \<and> fst (ev_mode ch c) = bs_mode_name c"
  using assms
  by (cases "dget ch ''mode_name''")
    (auto simp: ev_mode_def Let_def ev_with_def ev_bounded_def coherent_mode_def split: if_splits)

lemma update_attested:
  assumes ok: "index_ok (st_index st)" and up: "update ft now ex ch sid st = Inr (s, st')"
    and known: "known_mode_status ch" and applied: "bs_mode_application_status s = ModeApplied"
  shows "\<exists>c. dget (st_index st) sid = Some c \<and>
    (bs_mode_application_status c = ModeApplied \<and> bs_mode_name s = bs_mode_name c
     \<or> bs_status c = SRunning \<and> ex_lease_token ex = Some (bs_lease_token c) \<and> bs_lease_token c \<noteq> []
       \<and> ex_attempt ex = Some (bs_attempt c) \<and> bs_mode_application_attempt s = bs_attempt c)"
proof -
  from up obtain c where c: "dget (st_index st) sid = Some c" and ex: "check_expectation ex c = Inr ()"
    and att: "claims_applied ch \<longrightarrow> attests ex ch c"
    and s: "s = bs_evolve c (complete_changes now ch c)"
    by (rule update_InrE)
  have mode: "snd (ev_mode ch c) = ModeApplied" "fst (ev_mode ch c) = bs_mode_name s"
    and attempt: "bs_mode_application_attempt s
      = ev_int ch ''mode_application_attempt'' (bs_mode_application_attempt c)"
    using applied by (simp_all add: s evolve_fields)
  have bound: "length (bs_mode_name c) \<le> 128"
    using ok c by (simp add: index_ok_def wf_session_def session_bounds_def)
  have attested: ?thesis if "claims_applied ch"
  proof -
    from att that have a: "bs_status c = SRunning" "ex_attempt ex \<noteq> None"
      "ex_lease_token ex \<noteq> None" "ex_lease_token ex \<noteq> Some []"
      "ch_get ch ''mode_application_attempt'' ch_int = ex_attempt ex"
      by (auto simp: attests_def)
    with ex have b: "ex_lease_token ex = Some (bs_lease_token c)" "ex_attempt ex = Some (bs_attempt c)"
      by (auto simp: check_expectation_iff met_def)
    then have "ev_int ch ''mode_application_attempt'' (bs_mode_application_attempt c) = bs_attempt c"
      using a(5) by (auto simp: ev_int_def ev_with_def ch_get_def split: option.splits)
    with a b c attempt show ?thesis by auto
  qed
  from known show ?thesis
  proof (cases rule: known_mode_statusE)
    case 1
    from ev_mode_unstated [OF this mode(1) bound] mode(2) c show ?thesis by auto
  next
    case (2 m)
    then show ?thesis using attested applied_status_given [OF 2 _ mode(1)] by blast
  next
    case (3 m)
    then show ?thesis using attested applied_status_given [OF 3 _ mode(1)] by blast
  qed
qed

section \<open>What \<open>claim\<close> returns\<close>

lemma wf_changes_claim: "wf_changes (claim_changes now pid lease token c)"
  by (simp add: wf_changes_def claim_changes_def)

lemma transition_changes_plain:
  "target \<in> {SStarting, SRunning} \<Longrightarrow> bs_status c \<in> {SQueued, SRetrying, SStarting} \<Longrightarrow>
   transition_changes now target ch c = dset ''status'' (StatusCh target) ch"
  by (auto simp: transition_changes_def Let_def)

lemma wf_changes_dset_status [simp]: "wf_changes (dset ''status'' (StatusCh t) ch) = wf_changes ch"
  by (simp add: wf_changes_def)

lemma claim_evolved:
  fixes c now pid lease token
  defines "r \<equiv> bs_evolve c (complete_changes now
      (dset ''status'' (StatusCh SRunning) (claim_changes now pid lease token c)) c)"
  shows "bs_status r = SRunning" "bs_attempt r = bs_attempt c + 1" "bs_lease_token r = lease"
    "bs_mode_application_status r = ModePending" "bs_mode_name r = []"
    "bs_attempt_history r = take_last attempt_history_limit (bs_attempt_history c)"
    "bs_dispatch_state r = (if token = None then bs_dispatch_state c else DStarted)"
  unfolding r_def evolve_fields evolve_complete
  by (simp_all add: claim_changes_def ev_status_def ev_int_def ev_str_def ev_with_def plain_str_def
      ch_int_def ev_mode_def Let_def coherent_mode_def ev_attempts_def ev_dispatch_def)

lemma transition_running:
  assumes ok: "store_ok ft st" and c: "dget (st_index st) sid = Some c" and st: "bs_status c = SStarting"
    and tr: "transition ft now ex SRunning (claim_changes now pid lease token c) sid st = Inr (r, st')"
  shows "r = bs_evolve c (complete_changes now
      (dset ''status'' (StatusCh SRunning) (claim_changes now pid lease token c)) c)"
    and "dget (st_index st') sid = Some r" and "store_ok ft st'"
proof -
  from tr obtain ch' where up: "update ft now ex ch' sid st = Inr (r, st')"
    and ch': "ch' = dset ''status'' (StatusCh SRunning) (claim_changes now pid lease token c)"
    by (rule transition_updateE) (use c st in \<open>auto simp: transition_changes_plain\<close>)
  show "r = bs_evolve c (complete_changes now
      (dset ''status'' (StatusCh SRunning) (claim_changes now pid lease token c)) c)"
    using up c unfolding ch' by (auto elim!: update_InrE)
  have "wf_changes ch'" by (simp add: ch' wf_changes_claim)
  from update_durable [OF ok this up] show "dget (st_index st') sid = Some r" "store_ok ft st'"
    by simp_all
qed

lemma transition_starting:
  assumes ok: "store_ok ft st" and c: "dget (st_index st) sid = Some c"
    and st: "bs_status c = SQueued \<or> bs_status c = SRetrying"
    and tr: "transition ft now expect_nothing SStarting [] sid st = Inr (s, st')"
  shows "bs_status s = SStarting" and "bs_attempt s = bs_attempt c" and "bs_attempt_history s = bs_attempt_history c"
    and "bs_dispatch_state s = bs_dispatch_state c"
    and "dget (st_index st') sid = Some s" and "store_ok ft st'"
proof -
  from tr obtain ch' where up: "update ft now expect_nothing ch' sid st = Inr (s, st')"
    and ch': "ch' = [(''status'', StatusCh SStarting)]"
    by (rule transition_updateE) (use c st in \<open>auto simp: transition_changes_plain\<close>)
  have s: "s = bs_evolve c (complete_changes now ch' c)"
    using up c by (auto elim!: update_InrE)
  have "length (bs_attempt_history c) \<le> attempt_history_limit"
    using ok c by (simp add: store_ok_def index_ok_def wf_session_def session_bounds_def)
  then show "bs_status s = SStarting" "bs_attempt s = bs_attempt c" "bs_attempt_history s = bs_attempt_history c"
    "bs_dispatch_state s = bs_dispatch_state c"
    unfolding s evolve_fields evolve_complete
    by (simp_all add: ch' ev_status_def ev_int_def ev_attempts_def ev_dispatch_def ev_with_def)
  have "wf_changes ch'" by (simp add: ch' wf_changes_def)
  from update_durable [OF ok this up] show "dget (st_index st') sid = Some s" "store_ok ft st'"
    by simp_all
qed

lemma claim_result:
  assumes ok: "store_ok ft st" and claim: "claim ft now0 now pid lease token sid st = Inr (r, st')"
  shows "\<exists>c. dget (st_index st) sid = Some c \<and> bs_status c \<in> {SQueued, SRetrying, SStarting}
    \<and> check_dispatch token c = Inr ()
    \<and> bs_status r = SRunning \<and> bs_attempt r = bs_attempt c + 1 \<and> bs_lease_token r = lease
    \<and> bs_mode_application_status r = ModePending \<and> bs_mode_name r = []
    \<and> bs_attempt_history r = bs_attempt_history c
    \<and> bs_dispatch_state r = (if token = None then bs_dispatch_state c else DStarted)
    \<and> dget (st_index st') sid = Some r"
proof -
  from claim obtain c current st1 where get: "get_session False sid st = Inr c"
    and check: "check_dispatch token c = Inr ()"
    and first: "(bs_status c = SQueued \<or> bs_status c = SRetrying)
        \<and> transition ft now0 expect_nothing SStarting [] sid st = Inr (current, st1)
      \<or> (bs_status c = SStarting \<or> bs_status c = SOrphaned) \<and> current = c \<and> st1 = st"
    and second: "transition ft now
       (expect_nothing\<lparr>ex_status := Some (bs_status current), ex_attempt := Some (bs_attempt current)\<rparr>)
       SRunning (claim_changes now pid lease token current) sid st1 = Inr (r, st')"
    by (rule claim_InrE)
  have c: "dget (st_index st) sid = Some c" using get_session_InrD [OF get] by simp
  have orphan: "bs_status c \<noteq> SOrphaned"
  proof
    assume o: "bs_status c = SOrphaned"
    with first have "current = c" "st1 = st" by auto
    with second c o show False
      by (auto elim!: transition_updateE simp: legal_transition_def)
  qed
  have s: "bs_status current = SStarting \<and> bs_attempt current = bs_attempt c
    \<and> bs_attempt_history current = bs_attempt_history c \<and> bs_dispatch_state current = bs_dispatch_state c
    \<and> dget (st_index st1) sid = Some current \<and> store_ok ft st1"
    using first
  proof (elim disjE conjE)
    assume q: "bs_status c = SQueued"
      and tr: "transition ft now0 expect_nothing SStarting [] sid st = Inr (current, st1)"
    show ?thesis using transition_starting [OF ok c _ tr] q by blast
  next
    assume q: "bs_status c = SRetrying"
      and tr: "transition ft now0 expect_nothing SStarting [] sid st = Inr (current, st1)"
    show ?thesis using transition_starting [OF ok c _ tr] q by blast
  qed (use orphan ok c in simp_all)
  note r = transition_running [OF _ _ _ second]
  have hist: "length (bs_attempt_history c) \<le> attempt_history_limit"
    using ok c by (simp add: store_ok_def index_ok_def wf_session_def session_bounds_def)
  have res: "r = bs_evolve current (complete_changes now
      (dset ''status'' (StatusCh SRunning) (claim_changes now pid lease token current)) current)"
    and stored: "dget (st_index st') sid = Some r"
    using r s by simp_all
  have status: "bs_status c \<in> {SQueued, SRetrying, SStarting}" using first orphan by auto
  show ?thesis
    using claim_evolved [of current now pid lease token, folded res] s hist
    by (intro exI [of _ c] conjI c check status stored) simp_all
qed

end
