(* ===== verification/Bg_Properties.thy ===== *)
theory Bg_Properties
  imports Bg_Lifecycle
begin

text \<open>
  The properties of background sessions: the log as the authority, replay, the lifecycle, attempts
  and attested modes, with a small concrete store for their witnesses.
\<close>

section \<open>A concrete store\<close>

definition demo_ft :: "pyfloat \<Rightarrow> string" where
  "demo_ft f = ''0.0''"

definition demo_now :: clock where
  "demo_now site = Fin 5"

definition demo_session :: background_session where
  "demo_session = bs_default ''s1'' ''Title'' ''/w'' ''review'' ''intent''"

lemma created_index:
  assumes "wf_session s" "dget (st_index st) (bs_session_id s) = None"
  shows "create_session ft now s st = Inr (s, append_event ft now ''created'' (bs_to_dict s) st)"
    and "st_index (append_event ft now ''created'' (bs_to_dict s) st) = dset (bs_session_id s) s (st_index st)"
proof -
  show "create_session ft now s st = Inr (s, append_event ft now ''created'' (bs_to_dict s) st)"
    using assms(2) by (simp add: create_session_def)
  have ne: "bs_session_id s \<noteq> []" using assms(1) by (simp add: wf_session_def)
  have sid: "event_session_id (event_record (st_sequence st + 1) ''created'' (now ''timestamp'') (bs_to_dict s))
      = Some (bs_session_id s)"
    using ne by (simp add: event_session_id_record pget_def dget_or_def)
  show "st_index (append_event ft now ''created'' (bs_to_dict s) st) = dset (bs_session_id s) s (st_index st)"
    by (simp add: append_index [where st = st and t = "''created''" and now = now and p = "bs_to_dict s", OF sid]
        apply_event_def apply_created_def from_to_dict [OF assms(1)])
qed

definition store_of :: "background_session \<Rightarrow> bg_store" where
  "store_of s = append_event demo_ft demo_now ''created'' (bs_to_dict s) store_empty"

lemma store_of_index [simp]: "wf_session s \<Longrightarrow> st_index (store_of s) = [(bs_session_id s, s)]"
  using created_index(2) [of s store_empty] by (simp add: store_of_def store_empty_def)

lemma store_of_steps: "wf_session s \<Longrightarrow> store_steps demo_ft store_empty (store_of s)"
proof -
  assume "wf_session s"
  then have "create_session demo_ft demo_now s store_empty = Inr (s, store_of s)"
    using created_index(1) [of s store_empty] by (simp add: store_of_def store_empty_def)
  then show ?thesis by (blast intro: step_create)
qed

lemma wf_demo:
  "sid \<noteq> [] \<Longrightarrow> wf_session (bs_default sid title cwd workflow intent)"
  by (simp add: wf_session_def bs_default_def session_bounds_def session_mode_coherent_def
      wf_histories_def mode_coherent_def opt_bounded_def wf_amount_def clamp_amount_def)

lemma wf_demo_session [simp]: "wf_session demo_session"
  unfolding demo_session_def by (rule wf_demo) simp

lemma demo_session_fields [simp]:
  "bs_session_id demo_session = ''s1''" "bs_status demo_session = SQueued"
  "bs_dispatch_state demo_session = DLegacy" "bs_dispatch_token demo_session = []"
  "bs_attempt demo_session = 0" "bs_attempt_history demo_session = []"
  "bs_mode_application_status demo_session = ModePending"
  by (simp_all add: demo_session_def bs_default_def)

text \<open>The same session while its worker runs, with a mode already attested.\<close>

definition demo_running :: background_session where
  "demo_running = demo_session\<lparr>bs_status := SRunning, bs_attempt := 1, bs_lease_token := ''lease'',
     bs_mode_name := ''plan'', bs_mode_application_status := ModeApplied,
     bs_mode_application_attempt := 1\<rparr>"

lemma wf_demo_running [simp]: "wf_session demo_running"
  by (simp add: demo_running_def demo_session_def wf_session_def bs_default_def session_bounds_def
      session_mode_coherent_def wf_histories_def mode_coherent_def opt_bounded_def wf_amount_def
      clamp_amount_def)

lemma demo_running_fields [simp]:
  "bs_session_id demo_running = ''s1''" "bs_status demo_running = SRunning" "bs_attempt demo_running = 1"
  "bs_lease_token demo_running = ''lease''" "bs_mode_application_status demo_running = ModeApplied"
  "bs_mode_name demo_running = ''plan''" "bs_attempt_history demo_running = []"
  by (simp_all add: demo_running_def)

lemma reachable_ok: "store_steps ft store_empty st \<Longrightarrow> store_ok ft st"
  by (rule store_ok_steps [OF _ store_ok_empty])

lemma reachable_index: "store_steps ft store_empty st \<Longrightarrow> index_ok (st_index st)"
  using reachable_ok by (auto simp: store_ok_def)

lemma update_Inr:
  assumes "dget (st_index st) sid = Some c" "check_expectation ex c = Inr ()" "unknown_fields ch = []"
    "claims_applied ch \<longrightarrow> attests ex ch c"
  shows "update ft now ex ch sid st = Inr (bs_evolve c (complete_changes now ch c),
    append_event ft now ''updated'' (update_payload sid c (bs_evolve c (complete_changes now ch c))) st)"
  using assms by (simp add: update_def get_session_def Let_def)

lemma expect_nothing_ok [simp]: "check_expectation expect_nothing c = Inr ()"
  by (simp add: check_expectation_def expect_nothing_def met_def)

section \<open>The log\<close>

text \<open>
  C1. The event log is the authority: in every store that the operations reach from an empty one,
  the records and the sequence number a rebuild folds from \<open>events.jsonl\<close> are those of the index, every
  indexed record satisfies the bounds and the mode coherence of the record type, and it is filed
  under its own identifier.
\<close>

theorem bg_log_is_authority:
  assumes "store_steps ft store_empty st"
  shows "dget (fst (rebuild ft now (st_events st))) = dget (st_index st)
    \<and> snd (rebuild ft now (st_events st)) = st_sequence st
    \<and> (\<forall>sid s. dget (st_index st) sid = Some s \<longrightarrow> wf_session s \<and> bs_session_id s = sid)"
  using rebuild_store [OF reachable_ok [OF assms]] reachable_index [OF assms]
  by (simp add: index_ok_def)

theorem bg_log_is_authority_witness:
  "dget (fst (rebuild demo_ft (Fin 0) (st_events (store_of demo_session)))) = dget (st_index (store_of demo_session))
    \<and> snd (rebuild demo_ft (Fin 0) (st_events (store_of demo_session))) = st_sequence (store_of demo_session)
    \<and> wf_session demo_session"
  using bg_log_is_authority [OF store_of_steps [OF wf_demo_session], of "Fin 0"]
    store_of_index [of demo_session] by auto

text \<open>
  C2. Deferring heartbeats changes nothing: the fold that applies only each session's newest
  heartbeat, just before the session's next other event or at the end, gives the same records as
  applying every event in order.
\<close>

theorem bg_deferred_fold:
  "dget (fold_events ft now lookup events) = dget (replay ft now lookup events [])"
  by (rule fold_events_replay)

text \<open>
  C5. Catching up equals rebuilding: an index built from the first part of the log of a reachable
  store accepts the rest of the log, without asking for a rebuild, and ends with the records and
  the sequence number of that store.
\<close>

theorem bg_catch_up:
  assumes "store_steps ft store_empty st" and "st_events st = past @ tail"
    and "dget index = dget (fst (rebuild ft now past))"
  shows "\<exists>index'. apply_tail ft now tail index (snd (rebuild ft now past)) = Some (index', st_sequence st)
    \<and> dget index' = dget (st_index st)"
  by (rule catch_up [OF reachable_ok [OF assms(1)] assms(2,3)])

theorem bg_catch_up_witness:
  "\<exists>index'. apply_tail demo_ft (Fin 0) (st_events (store_of demo_session)) []
      (snd (rebuild demo_ft (Fin 0) [])) = Some (index', st_sequence (store_of demo_session))
    \<and> dget index' = dget (st_index (store_of demo_session))"
  by (rule bg_catch_up [OF store_of_steps [OF wf_demo_session]])
    (simp_all add: rebuild_def fold_events_def folder_empty_def folder_finish_def)

text \<open>
  What an update returns is what the log replays: after a successful \<open>update\<close> of a reachable
  store, whose typed history arguments hold well-formed records, both the index and a rebuild from
  the log have exactly the returned record under the session's identifier, and every other record
  is unchanged.
\<close>

theorem bg_update_durable:
  assumes "store_steps ft store_empty st" and "wf_changes ch"
    and "update ft now ex ch sid st = Inr (s, st')"
  shows "dget (st_index st') = (dget (st_index st))(sid \<mapsto> s)
    \<and> dget (fst (rebuild ft clock (st_events st'))) = (dget (st_index st))(sid \<mapsto> s)"
proof -
  note u = update_durable [OF reachable_ok [OF assms(1)] assms(2,3)]
  show ?thesis using u(2) rebuild_store(1) [OF u(1)] by (simp only: simp_thms)
qed

lemma demo_rename:
  "update demo_ft demo_now expect_nothing [(''title'', plain_str ''New'')] ''s1'' (store_of demo_session)
    = Inr (bs_evolve demo_session (complete_changes demo_now [(''title'', plain_str ''New'')] demo_session),
        append_event demo_ft demo_now ''updated'' (update_payload ''s1'' demo_session
          (bs_evolve demo_session (complete_changes demo_now [(''title'', plain_str ''New'')] demo_session)))
          (store_of demo_session))"
  by (rule update_Inr) (simp_all add: unknown_fields_def bs_keys_def claims_applied_def ch_get_def)

theorem bg_update_durable_witness:
  "\<exists>s st'. update demo_ft demo_now expect_nothing [(''title'', plain_str ''New'')] ''s1'' (store_of demo_session)
      = Inr (s, st')
    \<and> dget (st_index st') = (dget (st_index (store_of demo_session)))(''s1'' \<mapsto> s)
    \<and> dget (fst (rebuild demo_ft (Fin 0) (st_events st'))) = (dget (st_index (store_of demo_session)))(''s1'' \<mapsto> s)"
  using bg_update_durable [OF store_of_steps [OF wf_demo_session] _ demo_rename, of "Fin 0"] demo_rename
  by (auto simp: wf_changes_def)

text \<open>
  C40. A stored record reads back as itself: what \<open>from_mapping\<close> returns for any mapping is
  well-formed, and writing it with \<open>to_dict\<close> and reading it again gives the same record.
\<close>

theorem bg_record_roundtrip:
  assumes "bs_from_mapping ft v = Inr s"
  shows "wf_session s \<and> bs_from_mapping ft (bs_to_dict s) = Inr s"
  using wf_session_read [OF assms] from_to_dict by blast

theorem bg_record_roundtrip_witness:
  "wf_session demo_session \<and> bs_from_mapping demo_ft (bs_to_dict demo_session) = Inr demo_session"
  by (rule bg_record_roundtrip [of demo_ft "bs_to_dict demo_session"]) (rule from_to_dict, simp)

section \<open>The lifecycle\<close>



lemma known_key [simp]:
  "''status'' \<in> set bs_keys" "''completed_at'' \<in> set bs_keys" "''attempt_history'' \<in> set bs_keys"
  by (simp_all add: bs_keys_def)

lemma unknown_dset: "k \<in> set bs_keys \<Longrightarrow> k \<noteq> ''session_id'' \<Longrightarrow> unknown_fields (dset k x ch) = unknown_fields ch"
  by (simp add: unknown_fields_def keys_dset)

lemma unknown_transition_changes:
  "unknown_fields (transition_changes now target ch c) = unknown_fields ch"
  by (simp add: transition_changes_def Let_def push_attempt_def ch_default_def unknown_dset)

lemma transition_changes_mode:
  "k \<in> {''mode_name'', ''mode_application_status'', ''mode_application_attempt''} \<Longrightarrow>
   dget (transition_changes now target ch c) k = dget ch k"
  by (auto simp: transition_changes_def Let_def push_attempt_def ch_default_def)

lemma claims_transition: "claims_applied (transition_changes now target ch c) = claims_applied ch"
  by (simp add: claims_applied_def ch_get_def transition_changes_mode)

lemma attests_transition: "attests ex (transition_changes now target ch c) c = attests ex ch c"
  by (simp add: attests_def ch_get_def transition_changes_mode)

text \<open>
  \<open>transition\<close> to another status, given changes without a status, succeeds exactly when the
  session exists, the table has the move, every expectation holds, the changed fields exist and a
  claimed mode is attested; it then returns a record with the target status.
\<close>

theorem bg_transition_iff:
  assumes "dget ch ''status'' = None" and "dget (st_index st) sid = Some c" and "bs_status c \<noteq> target"
  shows "(\<exists>s st'. transition ft now ex target ch sid st = Inr (s, st') \<and> bs_status s = target)
    \<longleftrightarrow> legal_transition (bs_status c) target \<and> check_expectation ex c = Inr ()
      \<and> unknown_fields ch = [] \<and> (claims_applied ch \<longrightarrow> attests ex ch c)"
  (is "?L \<longleftrightarrow> ?R")
proof
  assume ?L
  then obtain s st' where "transition ft now ex target ch sid st = Inr (s, st')" by blast
  then obtain ch' where legal: "legal_transition (bs_status c) target"
    and up: "update ft now ex ch' sid st = Inr (s, st')" and ch': "ch' = transition_changes now target ch c"
    by (rule transition_updateE) (use assms in auto)
  from up show ?R
    by (rule update_InrE)
      (use assms(2) legal ch' in \<open>simp add: unknown_transition_changes claims_transition attests_transition\<close>)
next
  assume r: ?R
  then have nd: "bs_status c \<noteq> SDeleted" by (auto simp: legal_transition_def)
  let ?ch = "transition_changes now target ch c"
  have "update ft now ex ?ch sid st = Inr (bs_evolve c (complete_changes now ?ch c),
      append_event ft now ''updated'' (update_payload sid c (bs_evolve c (complete_changes now ?ch c))) st)"
    by (rule update_Inr)
      (use assms(2) r in \<open>simp_all add: unknown_transition_changes claims_transition attests_transition\<close>)
  then show ?L
    using assms r nd
    by (simp add: transition_def transition_from_def get_session_def evolve_fields)
qed

theorem bg_transition_iff_witness:
  "(\<exists>s st'. transition demo_ft demo_now expect_nothing SStarting [] ''s1'' (store_of demo_session) = Inr (s, st')
      \<and> bs_status s = SStarting)
   \<and> \<not> (\<exists>s st'. transition demo_ft demo_now expect_nothing SCompleted [] ''s1'' (store_of demo_session) = Inr (s, st')
      \<and> bs_status s = SCompleted)"
  using bg_transition_iff [of "[]" "store_of demo_session" "''s1''" demo_session SStarting demo_ft demo_now expect_nothing]
    bg_transition_iff [of "[]" "store_of demo_session" "''s1''" demo_session SCompleted demo_ft demo_now expect_nothing]
  by (simp add: legal_transition_def unknown_fields_def claims_applied_def ch_get_def)

text \<open>
  The tombstone can be lost in an interleaving: \<open>transition\<close> decides on a record it read
  without the registry lock, so when a finished session is deleted between that read and the
  update, a transition without an expected status takes it out of the deleted state.
\<close>

theorem bg_tombstone_race:
  assumes "dget (st_index st) sid = Some d" and "bs_status d = SDeleted" and "wf_session d"
    and "bs_status seen = SCompleted"
  shows "\<exists>s st'. transition_from ft now expect_nothing SArchived [] sid seen st = Inr (s, st')
    \<and> bs_status s = SArchived"
proof -
  let ?ch = "transition_changes now SArchived [] seen"
  have plain: "unknown_fields ?ch = []" "\<not> claims_applied ?ch"
    unfolding unknown_transition_changes claims_transition
    by (simp_all add: unknown_fields_def claims_applied_def ch_get_def)
  have "update ft now expect_nothing ?ch sid st = Inr (bs_evolve d (complete_changes now ?ch d),
      append_event ft now ''updated'' (update_payload sid d (bs_evolve d (complete_changes now ?ch d))) st)"
    by (rule update_Inr [OF assms(1)]) (simp_all add: plain)
  then show ?thesis
    using assms(4) by (simp add: transition_from_def legal_transition_def evolve_fields)
qed

theorem bg_tombstone_race_witness:
  "\<exists>s st'. transition_from demo_ft demo_now expect_nothing SArchived [] ''s1''
      (demo_session\<lparr>bs_status := SCompleted\<rparr>) (store_of (demo_session\<lparr>bs_status := SDeleted\<rparr>)) = Inr (s, st')
    \<and> bs_status s = SArchived"
proof -
  have wf: "wf_session (demo_session\<lparr>bs_status := SDeleted\<rparr>)"
    using wf_demo_session by (simp add: wf_session_def session_bounds_def session_mode_coherent_def wf_histories_def)
  show ?thesis
    by (rule bg_tombstone_race [where d = "demo_session\<lparr>bs_status := SDeleted\<rparr>"]) (simp_all add: wf)
qed

section \<open>Attempts\<close>

lemma take_last_snoc_in: "0 < n \<Longrightarrow> x \<in> set (take_last n (xs @ [x]))"
  by (cases n) (auto simp: take_last_def)

lemma ev_attempts_given:
  "dget ch ''attempt_history'' = Some (AttemptsCh (take_last attempt_history_limit xs)) \<Longrightarrow>
   ev_attempts ch s = take_last attempt_history_limit xs"
  by (simp add: ev_attempts_def ev_with_def)

lemma attempt_history_limit_pos: "0 < attempt_history_limit"
  by (simp add: attempt_history_limit_def)

text \<open>
  The outcome of an attempt is recorded once: a transition to a completed, failed, cancelled or
  orphaned status appends one record of the current attempt, with the new status, when the history
  has none for it, keeps the newest sixteen, and leaves the history alone when the attempt is
  already recorded; afterwards the current attempt is in the history.
\<close>

theorem bg_attempt_recorded:
  assumes "store_steps ft store_empty st" and "dget (st_index st) sid = Some c"
    and "target \<in> {SCompleted, SFailed, SCancelled, SOrphaned}" and "bs_status c \<noteq> target"
    and "0 < bs_attempt c" and "dget ch ''attempt'' = None" and "dget ch ''attempt_history'' = None"
    and "transition ft now ex target ch sid st = Inr (s, st')"
  shows "(if has_attempt c then bs_attempt_history s = bs_attempt_history c
      else \<exists>a. at_attempt a = bs_attempt c \<and> at_status a = target
        \<and> bs_attempt_history s = take_last 16 (bs_attempt_history c @ [a]))
    \<and> has_attempt s"
proof -
  from assms(8) obtain ch' where up: "update ft now ex ch' sid st = Inr (s, st')"
    and ch': "ch' = transition_changes now target ch c"
    by (rule transition_updateE) (use assms(2,4) in auto)
  have s: "s = bs_evolve c (complete_changes now ch' c)"
    using up by (rule update_InrE) (use assms(2) in simp)
  have len: "length (bs_attempt_history c) \<le> attempt_history_limit"
    using reachable_index [OF assms(1)] assms(2) by (simp add: index_ok_def wf_session_def session_bounds_def)
  have att: "bs_attempt s = bs_attempt c"
    using assms(6) by (simp add: s evolve_fields ch' ev_int_def ev_with_def transition_changes_def Let_def
        push_attempt_def ch_default_def)
  show ?thesis
  proof (cases "has_attempt c")
    case True
    then have "dget ch' ''attempt_history'' = None"
      using assms(3,7) by (auto simp: ch' transition_changes_def Let_def ch_default_def)
    then have "bs_attempt_history s = bs_attempt_history c"
      using len by (simp add: s evolve_fields ev_attempts_def ev_with_def)
    with True att show ?thesis by (simp add: has_attempt_def)
  next
    case False
    define ch2 where "ch2 = (if target \<in> {SCompleted, SFailed, SCancelled}
        then ch_default ''completed_at'' (Plain (PFloat (now ''completed_at''))) (dset ''status'' (StatusCh target) ch)
        else dset ''status'' (StatusCh target) ch)"
    let ?a = "attempt_from_session (bs_evolve c ch2)"
    have a: "at_attempt ?a = bs_attempt c" "at_status ?a = target"
      using assms(6) by (simp_all add: attempt_from_session_def evolve_fields ch2_def ev_int_def ev_status_def
          ev_with_def ch_default_def)
    have "ch' = push_attempt c ?a ch2"
      unfolding ch' transition_changes_def Let_def ch2_def using assms(3,5) False by auto
    then have h: "bs_attempt_history s = take_last attempt_history_limit (bs_attempt_history c @ [?a])"
      by (simp add: s evolve_fields push_attempt_def ev_attempts_given)
    have "?a \<in> set (bs_attempt_history s)"
      unfolding h by (rule take_last_snoc_in [OF attempt_history_limit_pos])
    then have "has_attempt s" using a(1) att by (auto simp: has_attempt_def)
    with False a h show ?thesis by (auto simp: attempt_history_limit_def)
  qed
qed

theorem bg_attempt_recorded_witness:
  "\<exists>s st' a. transition demo_ft demo_now expect_nothing SCompleted [] ''s1'' (store_of demo_running) = Inr (s, st')
    \<and> at_attempt a = 1 \<and> at_status a = SCompleted \<and> bs_attempt_history s = take_last 16 ([] @ [a])
    \<and> has_attempt s"
proof -
  have "legal_transition SRunning SCompleted \<and> unknown_fields [] = [] \<and> \<not> claims_applied []"
    by (simp add: legal_transition_def unknown_fields_def claims_applied_def ch_get_def)
  then obtain s st' where tr: "transition demo_ft demo_now expect_nothing SCompleted [] ''s1''
      (store_of demo_running) = Inr (s, st')"
    using update_Inr [of "store_of demo_running" "''s1''" demo_running expect_nothing
        "transition_changes demo_now SCompleted [] demo_running" demo_ft demo_now]
    by (simp add: transition_def transition_from_def get_session_def unknown_transition_changes claims_transition)
  have "\<not> has_attempt demo_running" by (simp add: has_attempt_def)
  then show ?thesis
    using bg_attempt_recorded [OF store_of_steps [OF wf_demo_running] _ _ _ _ _ _ tr, of demo_running] tr
    by auto
qed

text \<open>
  Claiming: a claim that returns was made on a queued, retrying or starting session whose
  dispatch lease the token matches; the session then runs under the new lease and the next attempt
  number, its mode is unattested until the worker attests one, its attempt history is unchanged,
  and this is the record the store holds.
\<close>

theorem bg_claim:
  assumes "store_steps ft store_empty st" and "claim ft now0 now pid lease token sid st = Inr (r, st')"
  shows "\<exists>c. dget (st_index st) sid = Some c \<and> bs_status c \<in> {SQueued, SRetrying, SStarting}
    \<and> check_dispatch token c = Inr ()
    \<and> bs_status r = SRunning \<and> bs_attempt r = bs_attempt c + 1 \<and> bs_lease_token r = lease
    \<and> bs_mode_application_status r = ModePending \<and> bs_mode_name r = []
    \<and> bs_attempt_history r = bs_attempt_history c
    \<and> bs_dispatch_state r = (if token = None then bs_dispatch_state c else DStarted)
    \<and> dget (st_index st') sid = Some r"
  by (rule claim_result [OF reachable_ok [OF assms(1)] assms(2)])

definition demo_starting :: background_session where
  "demo_starting = demo_session\<lparr>bs_status := SStarting\<rparr>"

lemma wf_demo_starting [simp]: "wf_session demo_starting"
  using wf_demo_session
  by (simp add: demo_starting_def wf_session_def session_bounds_def session_mode_coherent_def wf_histories_def)

lemma demo_starting_fields [simp]:
  "bs_session_id demo_starting = ''s1''" "bs_status demo_starting = SStarting"
  "bs_dispatch_state demo_starting = DLegacy" "bs_attempt demo_starting = 0"
  by (simp_all add: demo_starting_def)

lemma claim_keys: "keys (claim_changes now pid lease token c) =
   [''worker_pid'', ''lease_token'', ''attempt'', ''started_at'', ''worker_started_at'', ''worker_finished_at'',
    ''worker_exit_code'', ''worker_exit_reason'', ''worker_finalization_attempts'', ''worker_cleanup_error'',
    ''completed_at'', ''error'', ''failure_category'', ''cancellation_reason'', ''exit_reason'',
    ''attempt_started_at'', ''heartbeat_stale'', ''mode_name'', ''mode_application_status'',
    ''mode_application_attempt'', ''mode_application_error'', ''latest_activity'', ''last_active'', ''dispatch_state'']"
  by (simp add: claim_changes_def)

lemma claim_known: "unknown_fields (claim_changes now pid lease token c) = []"
proof -
  have "list_all (\<lambda>k. k \<in> set bs_keys \<and> k \<noteq> ''session_id'') (keys (claim_changes now pid lease token c))"
    unfolding claim_keys bs_keys_def by code_simp
  then show ?thesis by (auto simp: unknown_fields_def filter_empty_conv list_all_iff)
qed

lemma claim_unapplied: "\<not> claims_applied (claim_changes now pid lease token c)"
  by (simp add: claims_applied_def ch_get_def claim_changes_def)

theorem bg_claim_witness:
  "\<exists>r st'. claim demo_ft demo_now demo_now 7 ''l1'' None ''s1'' (store_of demo_starting) = Inr (r, st')
    \<and> bs_status r = SRunning \<and> bs_attempt r = 1 \<and> dget (st_index st') ''s1'' = Some r"
proof -
  let ?ch = "transition_changes demo_now SRunning (claim_changes demo_now 7 ''l1'' None demo_starting) demo_starting"
  let ?ex = "expect_nothing\<lparr>ex_status := Some SStarting, ex_attempt := Some 0\<rparr>"
  have "check_expectation ?ex demo_starting = Inr ()"
    by (simp add: check_expectation_iff expect_nothing_def met_def)
  then have "\<exists>r st'. update demo_ft demo_now ?ex ?ch ''s1'' (store_of demo_starting) = Inr (r, st')"
    using update_Inr [of "store_of demo_starting" "''s1''" demo_starting ?ex ?ch demo_ft demo_now]
    by (simp add: unknown_transition_changes claim_known claims_transition claim_unapplied)
  then obtain r st' where c: "claim demo_ft demo_now demo_now 7 ''l1'' None ''s1'' (store_of demo_starting) = Inr (r, st')"
    by (auto simp: claim_def get_session_def check_dispatch_def transition_def transition_from_def
        legal_transition_def)
  from bg_claim [OF store_of_steps [OF wf_demo_starting] c] c show ?thesis by auto
qed

text \<open>
  An orphaned session cannot be claimed: \<open>claim\<close> lets the status through, but the transition
  table has no move from orphaned to running, so the claim always fails.
\<close>

theorem bg_claim_orphaned:
  assumes "dget (st_index st) sid = Some c" and "bs_status c = SOrphaned"
  shows "\<exists>e. claim ft now0 now pid lease token sid st = Inl e"
proof (cases "claim ft now0 now pid lease token sid st")
  case (Inr p)
  obtain r st' where "p = (r, st')" by (cases p)
  with Inr obtain s0 current st1 where get: "get_session False sid st = Inr s0"
    and first: "(bs_status s0 = SQueued \<or> bs_status s0 = SRetrying)
        \<and> transition ft now0 expect_nothing SStarting [] sid st = Inr (current, st1)
      \<or> (bs_status s0 = SStarting \<or> bs_status s0 = SOrphaned) \<and> current = s0 \<and> st1 = st"
    and second: "transition ft now
       (expect_nothing\<lparr>ex_status := Some (bs_status current), ex_attempt := Some (bs_attempt current)\<rparr>)
       SRunning (claim_changes now pid lease token current) sid st1 = Inr (r, st')"
    by (auto elim!: claim_InrE)
  have "s0 = c" using get_session_InrD [OF get] assms(1) by simp
  with first assms(2) have "current = c" "st1 = st" by auto
  with second assms have False by (auto elim!: transition_updateE simp: legal_transition_def)
  then show ?thesis ..
qed blast

theorem bg_claim_orphaned_witness:
  "\<exists>e. claim demo_ft demo_now demo_now 7 ''l1'' None ''s1'' (store_of (demo_session\<lparr>bs_status := SOrphaned\<rparr>)) = Inl e"
proof -
  have "wf_session (demo_session\<lparr>bs_status := SOrphaned\<rparr>)"
    using wf_demo_session by (simp add: wf_session_def session_bounds_def session_mode_coherent_def wf_histories_def)
  then show ?thesis
    by (intro bg_claim_orphaned [where c = "demo_session\<lparr>bs_status := SOrphaned\<rparr>"]) simp_all
qed

text \<open>
  A stale worker cannot report: a heartbeat that is recorded was sent for a session that is not
  deleted, under the session's current lease and, when it names one, its current attempt; it leaves
  the status, the attempt and the lease as they were.
\<close>

theorem bg_heartbeat_current:
  assumes "heartbeat ft now lease attempt phase activity tokens_in tokens_out cost sid st = Inr (s, st')"
  shows "\<exists>c. dget (st_index st) sid = Some c \<and> bs_status c \<noteq> SDeleted \<and> bs_lease_token c = lease
    \<and> (attempt = None \<or> attempt = Some (bs_attempt c))
    \<and> bs_status s = bs_status c \<and> bs_attempt s = bs_attempt c \<and> bs_lease_token s = bs_lease_token c"
proof -
  from assms obtain c ch where get: "get_session False sid st = Inr c"
    and up: "update ft now (expect_nothing\<lparr>ex_status := Some (bs_status c), ex_lease_token := Some lease,
        ex_attempt := attempt\<rparr>) ch sid st = Inr (s, st')"
    and ch: "dget ch ''status'' = None" "dget ch ''attempt'' = None" "dget ch ''lease_token'' = None"
    unfolding heartbeat_def by (rule bindE_InrE) simp
  have c: "dget (st_index st) sid = Some c" "bs_status c \<noteq> SDeleted"
    using get_session_InrD [OF get] by auto
  from up have "check_expectation (expect_nothing\<lparr>ex_status := Some (bs_status c), ex_lease_token := Some lease,
        ex_attempt := attempt\<rparr>) c = Inr ()" and s: "s = bs_evolve c (complete_changes now ch c)"
    by (rule update_InrE; use c in simp)+
  then have "bs_lease_token c = lease" "attempt = None \<or> attempt = Some (bs_attempt c)"
    by (auto simp: check_expectation_iff met_def split: option.splits)
  moreover have "bs_status s = bs_status c" "bs_attempt s = bs_attempt c" "bs_lease_token s = bs_lease_token c"
    using ch by (simp_all add: s evolve_fields ev_status_def ev_int_def ev_str_def ev_with_def)
  ultimately show ?thesis using c by blast
qed

lemma heartbeat_known:
  "unknown_fields [(''current_phase'', a), (''latest_activity'', b), (''last_active'', c), (''heartbeat_stale'', d),
     (''tokens_in'', e), (''tokens_out'', f), (''cost_usd'', g)] = []"
  by (simp add: unknown_fields_def bs_keys_def)

theorem bg_heartbeat_current_witness:
  "\<exists>s st'. heartbeat demo_ft demo_now ''lease'' (Some 1) [] ''working'' None None None ''s1'' (store_of demo_running)
      = Inr (s, st') \<and> bs_status s = SRunning \<and> bs_attempt s = 1"
proof -
  have "check_expectation (expect_nothing\<lparr>ex_status := Some SRunning, ex_lease_token := Some ''lease'',
      ex_attempt := Some 1\<rparr>) demo_running = Inr ()"
    by (simp add: check_expectation_iff expect_nothing_def met_def)
  then obtain s st' where h: "heartbeat demo_ft demo_now ''lease'' (Some 1) [] ''working'' None None None ''s1''
      (store_of demo_running) = Inr (s, st')"
    by (simp add: heartbeat_def get_session_def update_def Let_def heartbeat_known claims_applied_def ch_get_def)
  from bg_heartbeat_current [OF h] h show ?thesis by auto
qed

section \<open>Attested modes\<close>




text \<open>
  The attestation has a hole: an application status the enumeration does not have (here
  \<open>None\<close>) is not checked by \<open>update\<close>, and \<open>evolve\<close> reads it as the current one, so on a session whose
  mode is applied any caller can replace the mode's name and keep it applied.
\<close>

theorem bg_mode_unattested:
  assumes "dget (st_index st) sid = Some c" and "bs_mode_application_status c = ModeApplied"
    and "name \<noteq> []"
  shows "\<exists>s st'. update ft now expect_nothing
      [(''mode_name'', plain_str name), (''mode_application_status'', Plain PNone)] sid st = Inr (s, st')
    \<and> bs_mode_name s = take 128 name \<and> bs_mode_application_status s = ModeApplied"
  using update_Inr [OF assms(1) expect_nothing_ok,
      of "[(''mode_name'', plain_str name), (''mode_application_status'', Plain PNone)]" ft now] assms(2,3)
  by (simp add: unknown_fields_def bs_keys_def claims_applied_def ch_get_def evolve_fields ev_mode_def
      ev_bounded_def ev_with_def coherent_mode_def plain_str_def mode_status_of_def enum_or_def)

theorem bg_mode_unattested_witness:
  "\<exists>s st'. update demo_ft demo_now expect_nothing
      [(''mode_name'', plain_str ''auto''), (''mode_application_status'', Plain PNone)] ''s1'' (store_of demo_running)
      = Inr (s, st')
    \<and> bs_mode_name s = take 128 ''auto'' \<and> bs_mode_application_status s = ModeApplied"
  by (rule bg_mode_unattested [where c = demo_running]) simp_all

section \<open>Labels\<close>

text \<open>Labels that agree on their first 48 characters are kept twice.\<close>

lemma labels_kept_twice:
  "normalize_labels [] [replicate 49 (CHR ''a''), replicate 49 (CHR ''a'')]
   = [replicate 48 (CHR ''a''), replicate 48 (CHR ''a'')]"
  by code_simp

end
