(* ===== verification/Bg_Queue.thy ===== *)
theory Bg_Queue
  imports Bg_Model "HOL-Library.Multiset"
begin

text \<open>
  The queue policy of \<open>src/agenthicc/background/queue.py\<close> and the arbitration of
  \<open>src/agenthicc/background/recovery.py\<close> and \<open>deletion.py\<close>: which sessions wait, how their priority
  ages, the order in which they are dispatched, and which recovery path owns an interrupted turn.
  The order is compared on finite creation times; a rank that Python cannot compute (an infinite
  age, a zero interval) is \<open>None\<close>.
\<close>

section \<open>Pending sessions\<close>

definition is_pending_queue_record :: "background_session \<Rightarrow> bool" where
  "is_pending_queue_record s \<longleftrightarrow> bs_status s = SQueued \<and> bs_dispatch_state s = DPending"

definition occupies_worker_slot :: "background_session \<Rightarrow> bool" where
  "occupies_worker_slot s \<longleftrightarrow>
     (if bs_status s = SQueued then \<not> is_pending_queue_record s
      else bs_status s \<in> {SStarting, SRunning, SWaitingApproval, SWaitingInput, SRetrying, SCancelling})"

fun priority_base :: "queue_priority \<Rightarrow> int" where
  "priority_base PrioLow = 0"
| "priority_base PrioNormal = 1"
| "priority_base PrioUrgent = 2"

text \<open>\<open>int(age // aging_interval_s)\<close>.\<close>

fun floor_div :: "pyfloat \<Rightarrow> pyfloat \<Rightarrow> int option" where
  "floor_div (Fin a) (Fin b) = (if b = 0 then None else Some \<lfloor>a / b\<rfloor>)"
| "floor_div (Fin a) PosInf = Some (if a < 0 then - 1 else 0)"
| "floor_div (Fin a) NegInf = Some (if 0 < a then - 1 else 0)"
| "floor_div _ _ = None"

definition queue_age :: "pyfloat \<Rightarrow> background_session \<Rightarrow> pyfloat" where
  "queue_age now s = f_max (Fin 0) (f_sub now (bs_created_at s))"

definition effective_priority_rank :: "pyfloat \<Rightarrow> pyfloat \<Rightarrow> background_session \<Rightarrow> int option" where
  "effective_priority_rank now interval s =
     map_option (\<lambda>n. priority_base (bs_priority s) + n) (floor_div (queue_age now s) interval)"

section \<open>Dispatch order\<close>

definition queue_key :: "pyfloat \<Rightarrow> pyfloat \<Rightarrow> background_session \<Rightarrow> int \<times> pyfloat \<times> string" where
  "queue_key now interval s =
     (- the (effective_priority_rank now interval s), bs_created_at s, bs_session_id s)"

text \<open>Round \<open>i\<close> takes the \<open>i\<close>-th record of every project that has one, until a round adds none.\<close>

definition queue_round :: "'a list list \<Rightarrow> nat \<Rightarrow> 'a list" where
  "queue_round groups i = concat (map (\<lambda>g. if i < length g then [g ! i] else []) groups)"

function fair_rounds :: "'a list list \<Rightarrow> nat \<Rightarrow> 'a list" where
  "fair_rounds groups i =
     (if queue_round groups i = [] then [] else queue_round groups i @ fair_rounds groups (Suc i))"
  by pat_completeness auto

lemma queue_round_bound: "queue_round groups i \<noteq> [] \<Longrightarrow> i < sum_list (map length groups)"
proof (induction groups)
  case Nil
  then show ?case by (simp add: queue_round_def)
next
  case (Cons g groups)
  then show ?case by (cases "i < length g") (auto simp: queue_round_def)
qed

termination fair_rounds
  by (relation "measure (\<lambda>(groups, i). sum_list (map length groups) - i)")
    (auto dest: queue_round_bound)

declare fair_rounds.simps [simp del]

definition rotate_after :: "string \<Rightarrow> string list \<Rightarrow> string list" where
  "rotate_after previous projects =
     (if previous \<in> set projects
      then (let pivot = length (takeWhile (\<lambda>p. p \<noteq> previous) projects) + 1
            in drop pivot projects @ take pivot projects)
      else projects)"

definition project_queue :: "pyfloat \<Rightarrow> pyfloat \<Rightarrow> background_session list \<Rightarrow> string \<Rightarrow> background_session list" where
  "project_queue now interval pending project =
     sort_key (queue_key now interval) (filter (\<lambda>s. bs_cwd s = project) pending)"

definition queue_projects :: "string \<Rightarrow> background_session list \<Rightarrow> string list" where
  "queue_projects last_project pending = rotate_after last_project (sort (dedup (map bs_cwd pending)))"

definition fair_queue_order ::
  "pyfloat \<Rightarrow> pyfloat \<Rightarrow> string \<Rightarrow> background_session list \<Rightarrow> background_session list option" where
  "fair_queue_order now interval last_project sessions =
     (let pending = filter is_pending_queue_record sessions
      in if \<exists>s \<in> set pending. effective_priority_rank now interval s = None then None
         else Some (fair_rounds
           (map (project_queue now interval pending) (queue_projects last_project pending)) 0))"

definition queue_position_map ::
  "pyfloat \<Rightarrow> pyfloat \<Rightarrow> string \<Rightarrow> background_session list \<Rightarrow> (string \<times> int) list option" where
  "queue_position_map now interval last_project sessions =
     map_option (\<lambda>order. fold (\<lambda>(i, s). dset (bs_session_id s) (int i + 1)) (enumerate 0 order) [])
       (fair_queue_order now interval last_project sessions)"

definition parse_priority_text :: "string \<Rightarrow> queue_priority option" where
  "parse_priority_text s = priority_parse (py_lower (py_strip s))"

section \<open>Laws of the order\<close>

lemma mset_queue_round:
  "mset (queue_round groups i) = (\<Sum>g\<leftarrow>groups. mset (take 1 (drop i g)))"
  by (induction groups) (auto simp: queue_round_def take_Suc_conv_app_nth [of 0, simplified] Cons_nth_drop_Suc [symmetric])

lemma queue_round_Nil: "queue_round groups i = [] \<longleftrightarrow> (\<forall>g \<in> set groups. length g \<le> i)"
  by (induction groups) (auto simp: queue_round_def)

lemma sum_take_drop:
  "(\<Sum>g\<leftarrow>groups. mset (take 1 (drop i g))) + (\<Sum>g\<leftarrow>groups. mset (drop (Suc i) g))
    = (\<Sum>g\<leftarrow>groups. mset (drop i g))"
proof (induction groups)
  case Nil
  show ?case by simp
next
  case (Cons g groups)
  have "mset (take 1 (drop i g)) + mset (drop (Suc i) g) = mset (drop i g)"
    by (metis append_take_drop_id drop_drop mset_append plus_1_eq_Suc)
  with Cons show ?case by (simp add: algebra_simps)
qed

lemma mset_fair_rounds: "mset (fair_rounds groups i) = (\<Sum>g\<leftarrow>groups. mset (drop i g))"
proof (induction groups i rule: fair_rounds.induct)
  case (1 groups i)
  show ?case
  proof (cases "queue_round groups i = []")
    case True
    then have "\<forall>g \<in> set groups. drop i g = []" by (simp add: queue_round_Nil)
    then have "(\<Sum>g\<leftarrow>groups. mset (drop i g)) = {#}" by (induction groups) simp_all
    with True show ?thesis by (simp add: fair_rounds.simps [of groups i])
  next
    case False
    with 1 show ?thesis
      by (simp add: fair_rounds.simps [of groups i] mset_queue_round sum_take_drop [simplified One_nat_def])
  qed
qed

lemma mset_partition_keys:
  "distinct ks \<Longrightarrow> f ` set xs \<subseteq> set ks \<Longrightarrow>
   (\<Sum>k\<leftarrow>ks. mset (filter (\<lambda>x. f x = k) xs)) = mset xs"
proof (induction xs)
  case Nil
  show ?case by (induction ks) simp_all
next
  case (Cons x xs)
  have one: "distinct ks \<Longrightarrow> (\<Sum>k\<leftarrow>ks. if f x = k then {#x#} else {#}) = (if f x \<in> set ks then {#x#} else {#})"
    by (induction ks) auto
  have "(\<Sum>k\<leftarrow>ks. mset (filter (\<lambda>y. f y = k) (x # xs)))
      = (\<Sum>k\<leftarrow>ks. if f x = k then {#x#} else {#}) + (\<Sum>k\<leftarrow>ks. mset (filter (\<lambda>y. f y = k) xs))"
    by (simp add: sum_list_addf [symmetric] if_distrib cong: if_cong) (rule arg_cong [where f = sum_list], auto)
  with Cons one show ?case by auto
qed

lemma set_rotate_after: "set (rotate_after previous ps) = set ps"
  by (auto simp: rotate_after_def Let_def dest: in_set_takeD in_set_dropD)
    (metis Un_iff append_take_drop_id set_append)

lemma distinct_rotate_after: "distinct ps \<Longrightarrow> distinct (rotate_after previous ps)"
proof -
  assume d: "distinct ps"
  have "distinct (drop n ps @ take n ps)" for n
    using d by (metis append_take_drop_id distinct_append inf_commute)
  with d show ?thesis by (simp add: rotate_after_def Let_def)
qed

lemma queue_projects_set: "set (queue_projects previous pending) = bs_cwd ` set pending"
  by (simp add: queue_projects_def set_rotate_after)

lemma queue_projects_distinct: "distinct (queue_projects previous pending)"
  by (simp add: queue_projects_def distinct_rotate_after)

lemma fair_queue_SomeD:
  assumes "fair_queue_order now interval previous sessions = Some order"
  shows "order = fair_rounds (map (project_queue now interval (filter is_pending_queue_record sessions))
    (queue_projects previous (filter is_pending_queue_record sessions))) 0"
  using assms by (simp add: fair_queue_order_def Let_def split: if_splits)

lemma fair_queue_permutation:
  assumes "fair_queue_order now interval previous sessions = Some order"
  shows "mset order = mset (filter is_pending_queue_record sessions)"
proof -
  let ?P = "filter is_pending_queue_record sessions"
  have "mset order = (\<Sum>p\<leftarrow>queue_projects previous ?P. mset (filter (\<lambda>s. bs_cwd s = p) ?P))"
    by (simp add: fair_queue_SomeD [OF assms] mset_fair_rounds project_queue_def comp_def del: filter_filter)
  also have "\<dots> = mset ?P"
    by (rule mset_partition_keys [OF queue_projects_distinct]) (simp add: queue_projects_set)
  finally show ?thesis .
qed

text \<open>Every group keeps its own order, and one project is never more than one item ahead of another.\<close>

definition groups_of :: "('a \<Rightarrow> 'k) \<Rightarrow> 'k list \<Rightarrow> 'a list list \<Rightarrow> bool" where
  "groups_of f ks groups \<longleftrightarrow> distinct ks \<and> length ks = length groups
     \<and> (\<forall>j < length ks. \<forall>x \<in> set (groups ! j). f x = ks ! j)"

lemma filter_queue_round:
  assumes "groups_of f ks groups" "j < length ks"
  shows "filter (\<lambda>x. f x = ks ! j) (queue_round groups i) = take 1 (drop i (groups ! j))"
  using assms
proof (induction groups arbitrary: ks j)
  case Nil
  then show ?case by (simp add: groups_of_def)
next
  case (Cons g groups)
  from Cons.prems obtain k ks' where ks: "ks = k # ks'"
    by (cases ks) (simp_all add: groups_of_def)
  have g: "\<forall>x \<in> set g. f x = k" and gs: "groups_of f ks' groups" and k: "k \<notin> set ks'"
    using Cons.prems(1) unfolding groups_of_def ks by (force, force, simp)
  have one: "(if i < length g then [g ! i] else []) = take 1 (drop i g)"
    by (auto simp: take_Suc_conv_app_nth [of 0, simplified] Cons_nth_drop_Suc [symmetric])
  have other: "filter (\<lambda>x. f x = q) (take 1 (drop i g)) = []" if "q \<noteq> k" for q
    using g that by (auto simp: filter_empty_conv dest!: in_set_takeD in_set_dropD)
  have same: "filter (\<lambda>x. f x = k) (take 1 (drop i g)) = take 1 (drop i g)"
    using g by (auto simp: filter_id_conv dest!: in_set_takeD in_set_dropD)
  have rest: "filter (\<lambda>x. f x = k) (queue_round groups i) = []"
  proof -
    have "f x \<in> set ks'" if "x \<in> set (queue_round groups i)" for x
    proof -
      from that obtain g' where g': "g' \<in> set groups" "x \<in> set g'"
        by (auto simp: queue_round_def split: if_splits)
      then obtain m where "m < length groups" "x \<in> set (groups ! m)"
        unfolding in_set_conv_nth [of g'] by blast
      with gs show ?thesis by (auto simp: groups_of_def)
    qed
    with k show ?thesis by (auto simp: filter_empty_conv)
  qed
  have round: "queue_round (g # groups) i = take 1 (drop i g) @ queue_round groups i"
    by (simp add: queue_round_def one)
  show ?case
  proof (cases j)
    case 0
    then show ?thesis by (simp add: ks round same [simplified] rest)
  next
    case (Suc j')
    then have "ks' ! j' \<noteq> k" using Cons.prems(2) k ks by auto
    with Suc Cons.IH [OF gs] Cons.prems(2) ks show ?thesis by (simp add: round other [simplified])
  qed
qed

lemma filter_fair_rounds:
  assumes "groups_of f ks groups" "j < length ks"
  shows "filter (\<lambda>x. f x = ks ! j) (fair_rounds groups i) = drop i (groups ! j)"
  using assms(1)
proof (induction groups i rule: fair_rounds.induct)
  case (1 groups i)
  have len: "j < length groups" using 1(2) assms(2) by (simp add: groups_of_def)
  show ?case
  proof (cases "queue_round groups i = []")
    case True
    then have "length (groups ! j) \<le> i" using len by (simp add: queue_round_Nil)
    with True show ?thesis by (simp add: fair_rounds.simps [of groups i])
  next
    case False
    have "take 1 (drop i (groups ! j)) @ drop (Suc i) (groups ! j) = drop i (groups ! j)"
      by (metis append_take_drop_id drop_drop plus_1_eq_Suc)
    with False 1 show ?thesis
      by (simp add: fair_rounds.simps [of groups i] filter_queue_round [OF 1(2) assms(2)])
  qed
qed

lemma fair_rounds_fair:
  assumes g: "groups_of f ks groups" and p: "p < length ks" and q: "q < length ks"
    and split: "fair_rounds groups i = xs @ ys" and waits: "\<exists>y \<in> set ys. f y = ks ! q"
  shows "length (filter (\<lambda>x. f x = ks ! p) xs) \<le> length (filter (\<lambda>x. f x = ks ! q) xs) + 1"
  using g split waits
proof (induction groups i arbitrary: xs ys rule: fair_rounds.induct)
  case (1 groups i)
  let ?row = "queue_round groups i"
  have ne: "?row \<noteq> []"
    using 1(3,4) by (auto simp: fair_rounds.simps [of groups i] split: if_splits)
  have all: "?row @ fair_rounds groups (Suc i) = xs @ ys"
    using 1(3) ne by (simp add: fair_rounds.simps [of groups i])
  have one: "length (filter (\<lambda>x. f x = ks ! p) ?row) \<le> 1"
    by (simp add: filter_queue_round [OF 1(2) p])
  from all consider us where "?row = xs @ us" "ys = us @ fair_rounds groups (Suc i)"
    | us where "xs = ?row @ us" "fair_rounds groups (Suc i) = us @ ys"
    by (auto simp: append_eq_append_conv2)
  then show ?case
  proof cases
    case 1
    then have "length (filter (\<lambda>x. f x = ks ! p) xs) \<le> 1" using one by simp
    then show ?thesis by simp
  next
    case (2 us)
    have "drop (Suc i) (groups ! q) \<noteq> []"
    proof -
      have "filter (\<lambda>x. f x = ks ! q) (fair_rounds groups (Suc i)) \<noteq> []"
        using 1(4) 2(2) by (auto simp: filter_empty_conv)
      then show ?thesis unfolding filter_fair_rounds [OF 1(2) q] .
    qed
    then have "i < length (groups ! q)" by simp
    then have "length (filter (\<lambda>x. f x = ks ! q) ?row) = 1"
      unfolding filter_queue_round [OF 1(2) q] by simp
    moreover from 1(1) [OF ne 1(2) 2(2) 1(4)]
    have "length (filter (\<lambda>x. f x = ks ! p) us) \<le> length (filter (\<lambda>x. f x = ks ! q) us) + 1" .
    ultimately show ?thesis using 2(1) one by simp
  qed
qed

lemma project_groups:
  "groups_of bs_cwd (queue_projects previous pending)
     (map (project_queue now interval pending) (queue_projects previous pending))"
  by (simp add: groups_of_def queue_projects_distinct project_queue_def)

section \<open>Aging\<close>

lemma effective_rank_finite:
  assumes "bs_created_at s = Fin c" "w \<noteq> 0"
  shows "effective_priority_rank (Fin now) (Fin w) s
    = Some (priority_base (bs_priority s) + \<lfloor>max 0 (now - c) / w\<rfloor>)"
  using assms by (simp add: effective_priority_rank_def queue_age_def)

lemma priority_base_bounds: "0 \<le> priority_base p" "priority_base p \<le> 2"
  by (cases p; simp)+

text \<open>An item accepted two aging intervals earlier has at least the rank of any later one.\<close>

lemma aged_rank:
  assumes s: "bs_created_at s = Fin c" and t: "bs_created_at t = Fin d" and w: "0 < w"
    and older: "c + 2 * w \<le> d" and now: "d \<le> now"
  shows "the (effective_priority_rank (Fin now) (Fin w) t) \<le> the (effective_priority_rank (Fin now) (Fin w) s)"
proof -
  have "(now - d) / w + 2 \<le> (now - c) / w"
  proof -
    have "(now - d) / w + 2 = (now - d + 2 * w) / w" using w by (simp add: field_simps)
    also have "\<dots> \<le> (now - c) / w" using w older by (intro divide_right_mono) simp_all
    finally show ?thesis .
  qed
  then have "\<lfloor>(now - d) / w\<rfloor> + 2 \<le> \<lfloor>(now - c) / w\<rfloor>" by linarith
  moreover have "max 0 (now - d) = now - d" "max 0 (now - c) = now - c"
    using now older w by simp_all
  ultimately show ?thesis
    using priority_base_bounds [of "bs_priority s"] priority_base_bounds [of "bs_priority t"] w
    by (simp add: effective_rank_finite [OF s] effective_rank_finite [OF t])
qed

lemma sorted_key_index:
  fixes f :: "'a \<Rightarrow> 'b :: linorder"
  assumes "sorted (map f xs)" "xs = us @ t # vs" "s \<in> set xs" "f s < f t"
  shows "s \<in> set us"
proof (rule ccontr)
  assume "s \<notin> set us"
  with assms(2,3) have "s = t \<or> s \<in> set vs" by auto
  with assms(1,2) have "f t \<le> f s" by (auto simp: sorted_append)
  with assms(4) show False by simp
qed

lemma queue_key_less:
  assumes s: "bs_created_at s = Fin c" and t: "bs_created_at t = Fin d" and w: "0 < w"
    and older: "c + 2 * w \<le> d" and now: "d \<le> now"
  shows "queue_key (Fin now) (Fin w) s < queue_key (Fin now) (Fin w) t"
  using aged_rank [OF assms] w older by (auto simp: queue_key_def less_prod_def s t)

lemma aged_first:
  assumes order: "fair_queue_order (Fin now) (Fin w) previous sessions = Some order"
    and mem: "s \<in> set order" and same: "bs_cwd s = bs_cwd t"
    and s: "bs_created_at s = Fin c" and t: "bs_created_at t = Fin d" and w: "0 < w"
    and older: "c + 2 * w \<le> d" and now: "d \<le> now" and split: "order = us @ t # vs"
  shows "s \<in> set us"
proof -
  let ?P = "filter is_pending_queue_record sessions"
  let ?ps = "queue_projects previous ?P"
  note o = fair_queue_SomeD [OF order]
  have "t \<in> set ?P" using fair_queue_permutation [OF order] split
    by (metis in_set_conv_decomp set_mset_mset)
  then obtain j where j: "j < length ?ps" "?ps ! j = bs_cwd t"
    by (metis image_eqI in_set_conv_nth queue_projects_set)
  have f: "filter (\<lambda>x. bs_cwd x = bs_cwd t) order = project_queue (Fin now) (Fin w) ?P (bs_cwd t)"
    using filter_fair_rounds [OF project_groups j(1), of "Fin now" "Fin w" 0] j by (simp add: o)
  have "sorted (map (queue_key (Fin now) (Fin w)) (filter (\<lambda>x. bs_cwd x = bs_cwd t) order))"
    unfolding f project_queue_def by (rule sorted_sort_key)
  from sorted_key_index [OF this, of "filter (\<lambda>x. bs_cwd x = bs_cwd t) us" t
      "filter (\<lambda>x. bs_cwd x = bs_cwd t) vs" s] split mem same queue_key_less [OF s t w older now]
  show ?thesis by simp
qed

section \<open>Positions\<close>

lemma positions_fold:
  assumes "distinct (map f xs)"
  shows "dget (fold (\<lambda>(i, s). dset (f s) (int i + 1)) (enumerate n xs) d) k =
    (case find (\<lambda>p. f (snd p) = k) (enumerate n xs) of None \<Rightarrow> dget d k | Some p \<Rightarrow> Some (int (fst p) + 1))"
  using assms
proof (induction xs arbitrary: n d)
  case Nil
  show ?case by simp
next
  case (Cons x xs)
  have none: "find (\<lambda>p. f (snd p) = f x) (enumerate (Suc n) xs) = None"
  proof -
    have "snd p \<in> set xs" if "p \<in> set (enumerate (Suc n) xs)" for p
      using imageI [OF that, of snd] by (metis list.set_map map_snd_enumerate)
    then have "f (snd p) \<noteq> f x" if "p \<in> set (enumerate (Suc n) xs)" for p
      using that Cons.prems by (metis distinct.simps(2) image_eqI list.set_map list.simps(9))
    then show ?thesis unfolding find_None_iff by blast
  qed
  show ?case
  proof (cases "f x = k")
    case True
    with Cons none show ?thesis by simp
  next
    case False
    with Cons show ?thesis by (simp split: option.split)
  qed
qed

section \<open>Recovery arbitration\<close>

datatype recovery_owner = OwnerNone | OwnerDirectTurn | OwnerWorkflow | OwnerUnresolved

datatype recovery_reason =
    NoReason | KindConflict | DirectRecorded | WorkflowWithoutRun | InspectionFailed string
  | LinkedRecoverable | LinkedUnusable | LinkedMissing | OtherRun
  | LegacyUnique | LegacyUnusable | LegacyAmbiguous | HistoricalTurn | NoWorkflowOwner

record recovery_assessment =
  ra_owner :: recovery_owner
  ra_turn_id :: "string option"
  ra_workflow_run_id :: "string option"
  ra_related_run_ids :: "string list"
  ra_reason :: recovery_reason

definition assessment ::
  "recovery_owner \<Rightarrow> string \<Rightarrow> string option \<Rightarrow> string list \<Rightarrow> recovery_reason \<Rightarrow> recovery_assessment" where
  "assessment owner turn run related reason =
     \<lparr>ra_owner = owner, ra_turn_id = Some turn, ra_workflow_run_id = run,
      ra_related_run_ids = related, ra_reason = reason\<rparr>"

definition named_ids :: "string list \<Rightarrow> string list" where
  "named_ids ids = dedup (filter (\<lambda>x. x \<noteq> []) ids)"

definition assess_recovery_owner ::
  "string option \<Rightarrow> string option \<Rightarrow> string option \<Rightarrow> string list \<Rightarrow> string list \<Rightarrow> string list
   \<Rightarrow> string list \<Rightarrow> string \<Rightarrow> recovery_assessment" where
  "assess_recovery_owner turn run kind recoverable_ids invalid_ids active_ids correlated_ids inspection_error =
     (case turn of
        None \<Rightarrow> \<lparr>ra_owner = OwnerNone, ra_turn_id = None, ra_workflow_run_id = None,
                 ra_related_run_ids = [], ra_reason = NoReason\<rparr>
      | Some t \<Rightarrow>
     let recoverable = named_ids recoverable_ids;
         correlated = named_ids correlated_ids;
         known = dedup (recoverable @ named_ids invalid_ids @ named_ids active_ids);
         linked = (case run of None \<Rightarrow> [] | Some r \<Rightarrow> r)
     in if kind = Some ''direct'' then
          (if linked \<noteq> [] then assessment OwnerUnresolved t run known KindConflict
           else assessment OwnerDirectTurn t None known DirectRecorded)
        else if kind = Some ''workflow'' \<and> linked = [] then
          assessment OwnerUnresolved t None [] WorkflowWithoutRun
        else if inspection_error \<noteq> [] then
          assessment OwnerUnresolved t run known (InspectionFailed inspection_error)
        else if linked \<noteq> [] then
          (if linked \<in> set recoverable then assessment OwnerWorkflow t run [linked] LinkedRecoverable
           else if linked \<in> set known then assessment OwnerUnresolved t run [linked] LinkedUnusable
           else if known = [] then assessment OwnerUnresolved t run [] LinkedMissing
           else assessment OwnerDirectTurn t run known OtherRun)
        else if length correlated = 1 then
          (if hd correlated \<in> set recoverable
           then assessment OwnerWorkflow t (Some (hd correlated)) [hd correlated] LegacyUnique
           else assessment OwnerUnresolved t (Some (hd correlated)) [hd correlated] LegacyUnusable)
        else if 1 < length correlated then assessment OwnerUnresolved t None correlated LegacyAmbiguous
        else if known \<noteq> [] then assessment OwnerUnresolved t None known HistoricalTurn
        else assessment OwnerDirectTurn t None [] NoWorkflowOwner)"

lemma assessment_simps [simp]:
  "ra_owner (assessment o' t r rel why) = o'" "ra_turn_id (assessment o' t r rel why) = Some t"
  "ra_workflow_run_id (assessment o' t r rel why) = r" "ra_related_run_ids (assessment o' t r rel why) = rel"
  by (simp_all add: assessment_def)

lemma set_named_ids [simp]: "set (named_ids ids) = {x \<in> set ids. x \<noteq> []}"
  by (auto simp: named_ids_def)

section \<open>Delete results\<close>

record delete_failure =
  df_session_id :: string
  df_code :: string
  df_message :: string
  df_retryable :: bool

record delete_result =
  dr_operation_id :: string
  dr_deleted :: "string list"
  dr_failures :: "delete_failure list"

definition delete_ok :: "delete_result \<Rightarrow> bool" where
  "delete_ok r \<longleftrightarrow> dr_failures r = []"

definition delete_result_phase :: "delete_result \<Rightarrow> string" where
  "delete_result_phase r = (if delete_ok r then ''completed'' else ''failed'')"

section \<open>Properties\<close>

definition queued_demo :: "string \<Rightarrow> string \<Rightarrow> queue_priority \<Rightarrow> rat \<Rightarrow> background_session" where
  "queued_demo sid project prio created =
     (bs_default sid ''t'' project ''wf'' ''i'')
       \<lparr>bs_dispatch_state := DPending, bs_priority := prio, bs_created_at := Fin created\<rparr>"

lemma queued_demo_simps [simp]:
  "is_pending_queue_record (queued_demo sid project prio created)"
  "bs_cwd (queued_demo sid project prio created) = project"
  "bs_created_at (queued_demo sid project prio created) = Fin created"
  "bs_session_id (queued_demo sid project prio created) = sid"
  "bs_priority (queued_demo sid project prio created) = prio"
  by (simp_all add: queued_demo_def is_pending_queue_record_def bs_default_def)

definition demo_queue :: "background_session list" where
  "demo_queue = [queued_demo ''b'' ''/p'' PrioUrgent 10, queued_demo ''a'' ''/p'' PrioLow 0,
     queued_demo ''c'' ''/q'' PrioNormal 4]"

lemma demo_queue_order:
  obtains order where "fair_queue_order (Fin 10) (Fin 5) ''/p'' demo_queue = Some order"
    "mset order = mset demo_queue"
proof -
  obtain order where o: "fair_queue_order (Fin 10) (Fin 5) ''/p'' demo_queue = Some order"
    by (simp add: fair_queue_order_def Let_def demo_queue_def effective_rank_finite)
  moreover from fair_queue_permutation [OF o] have "mset order = mset demo_queue"
    by (simp add: demo_queue_def)
  ultimately show thesis by (rule that)
qed

text \<open>
  The dispatch order is a permutation of the pending sessions, and within a project it is the
  order of the aged rank (highest first), then of the creation time, then of the identifier.
\<close>

theorem bg_queue_order:
  assumes "fair_queue_order now interval previous sessions = Some order"
  shows "mset order = mset (filter is_pending_queue_record sessions)
    \<and> sorted (map (queue_key now interval) (filter (\<lambda>s. bs_cwd s = project) order))"
proof -
  let ?P = "filter is_pending_queue_record sessions"
  let ?ps = "queue_projects previous ?P"
  have "sorted (map (queue_key now interval) (filter (\<lambda>s. bs_cwd s = project) order))"
  proof (cases "project \<in> set ?ps")
    case True
    then obtain j where j: "j < length ?ps" "?ps ! j = project" by (auto simp: in_set_conv_nth)
    have f: "filter (\<lambda>x. bs_cwd x = project) order = project_queue now interval ?P project"
      using filter_fair_rounds [OF project_groups j(1), of now interval 0] j
      by (simp add: fair_queue_SomeD [OF assms])
    show ?thesis unfolding f project_queue_def by (rule sorted_sort_key)
  next
    case False
    then have "project \<notin> bs_cwd ` set ?P" by (simp add: queue_projects_set)
    moreover have "set order = set ?P"
      using fair_queue_permutation [OF assms] by (metis set_mset_mset)
    ultimately have "filter (\<lambda>s. bs_cwd s = project) order = []" by (auto simp: filter_empty_conv)
    then show ?thesis by (simp del: filter_filter)
  qed
  with fair_queue_permutation [OF assms] show ?thesis by blast
qed

theorem bg_queue_order_witness:
  "\<exists>order. fair_queue_order (Fin 10) (Fin 5) ''/p'' demo_queue = Some order
    \<and> mset order = mset (filter is_pending_queue_record demo_queue)
    \<and> sorted (map (queue_key (Fin 10) (Fin 5)) (filter (\<lambda>s. bs_cwd s = ''/p'') order))"
  using demo_queue_order bg_queue_order by metis

text \<open>
  C38. Projects take turns: at every point of the dispatch order, a project has been served at most
  once more than any project that still has a session waiting.
\<close>

theorem bg_queue_fair:
  assumes "fair_queue_order now interval previous sessions = Some (served @ waiting)"
    and "\<exists>s \<in> set waiting. bs_cwd s = q"
  shows "length (filter (\<lambda>s. bs_cwd s = p) served) \<le> length (filter (\<lambda>s. bs_cwd s = q) served) + 1"
proof -
  let ?P = "filter is_pending_queue_record sessions"
  let ?ps = "queue_projects previous ?P"
  have set: "set (served @ waiting) = set ?P"
    using fair_queue_permutation [OF assms(1)] by (metis set_mset_mset)
  show ?thesis
  proof (cases "p \<in> set ?ps")
    case True
    then obtain i where i: "i < length ?ps" "?ps ! i = p" by (auto simp: in_set_conv_nth)
    have "q \<in> set ?ps" using assms(2) set by (auto simp: queue_projects_set)
    then obtain j where j: "j < length ?ps" "?ps ! j = q" by (auto simp: in_set_conv_nth)
    from fair_rounds_fair [OF project_groups i(1) j(1) fair_queue_SomeD [OF assms(1), symmetric]]
    show ?thesis using assms(2) i(2) j(2) by simp
  next
    case False
    then have "filter (\<lambda>s. bs_cwd s = p) served = []"
      using set by (auto simp: queue_projects_set filter_empty_conv)
    then show ?thesis by (simp only: list.size)
  qed
qed

theorem bg_queue_fair_witness:
  "\<exists>served waiting. fair_queue_order (Fin 10) (Fin 5) ''/p'' demo_queue = Some (served @ waiting)
    \<and> (\<exists>s \<in> set waiting. bs_cwd s = ''/q'')
    \<and> length (filter (\<lambda>s. bs_cwd s = ''/p'') served) \<le> length (filter (\<lambda>s. bs_cwd s = ''/q'') served) + 1"
proof -
  obtain order where o: "fair_queue_order (Fin 10) (Fin 5) ''/p'' demo_queue = Some order"
    and m: "mset order = mset demo_queue"
    by (rule demo_queue_order)
  have "queued_demo ''c'' ''/q'' PrioNormal 4 \<in> set order"
    using m by (metis demo_queue_def in_multiset_in_set list.set_intros)
  then obtain us vs where "order = us @ queued_demo ''c'' ''/q'' PrioNormal 4 # vs"
    by (meson split_list)
  then have "fair_queue_order (Fin 10) (Fin 5) ''/p'' demo_queue
      = Some (us @ queued_demo ''c'' ''/q'' PrioNormal 4 # vs)"
    and w: "\<exists>s \<in> set (queued_demo ''c'' ''/q'' PrioNormal 4 # vs). bs_cwd s = ''/q''"
    using o by simp_all
  from this(1) bg_queue_fair [OF this] w show ?thesis by blast
qed

text \<open>
  Aging: whatever their priorities, a pending session accepted two aging intervals before
  another one of the same project is dispatched before it.
\<close>

theorem bg_queue_aging:
  assumes "fair_queue_order (Fin now) (Fin w) previous sessions = Some (us @ t # vs)"
    and "s \<in> set (us @ t # vs)" and "bs_cwd s = bs_cwd t"
    and "bs_created_at s = Fin c" and "bs_created_at t = Fin d"
    and "0 < w" and "c + 2 * w \<le> d" and "d \<le> now"
  shows "s \<in> set us"
  by (rule aged_first [OF assms(1-8)]) simp

theorem bg_queue_aging_witness:
  "\<exists>us vs. fair_queue_order (Fin 10) (Fin 5) ''/p'' demo_queue
      = Some (us @ queued_demo ''b'' ''/p'' PrioUrgent 10 # vs)
    \<and> queued_demo ''a'' ''/p'' PrioLow 0 \<in> set us"
proof -
  let ?t = "queued_demo ''b'' ''/p'' PrioUrgent 10" and ?s = "queued_demo ''a'' ''/p'' PrioLow 0"
  obtain order where o: "fair_queue_order (Fin 10) (Fin 5) ''/p'' demo_queue = Some order"
    and m: "mset order = mset demo_queue"
    by (rule demo_queue_order)
  have mem: "?t \<in> set order" "?s \<in> set order"
    using m by (metis demo_queue_def in_multiset_in_set list.set_intros)+
  then obtain us vs where split: "order = us @ ?t # vs" by (meson split_list)
  have o': "fair_queue_order (Fin 10) (Fin 5) ''/p'' demo_queue = Some (us @ ?t # vs)"
    using o split by simp
  have "?s \<in> set us"
    by (rule bg_queue_aging [OF o', where c = 0 and d = 10]) (use mem split in simp_all)
  with o' show ?thesis by blast
qed

text \<open>
  Recovery never guesses: a workflow owns an interrupted turn only as a recoverable run that
  the turn names itself, or, for a turn that names no run and was not recorded as direct, that is
  the only correlated one; a turn is replayed directly only when it names no recoverable run and no
  run at all is known or the journal says whose it is; without a turn nobody owns it.
\<close>

theorem bg_recovery_owner:
  assumes "a = assess_recovery_owner turn run kind recoverable invalid active correlated inspection"
  shows "(ra_owner a = OwnerNone \<longleftrightarrow> turn = None)
    \<and> (ra_owner a = OwnerWorkflow \<longrightarrow> (\<exists>r. ra_workflow_run_id a = Some r \<and> r \<in> set recoverable \<and> r \<noteq> []
         \<and> inspection = [] \<and> kind \<noteq> Some ''direct''
         \<and> (run = Some r \<or> (run = None \<or> run = Some []) \<and> named_ids correlated = [r])))
    \<and> (ra_owner a = OwnerDirectTurn \<longrightarrow>
         kind = Some ''direct'' \<and> (run = None \<or> run = Some [])
         \<or> inspection = [] \<and> (\<exists>r. run = Some r \<and> r \<noteq> [] \<and> r \<notin> set (recoverable @ invalid @ active))
         \<or> inspection = [] \<and> kind \<noteq> Some ''workflow'' \<and> (run = None \<or> run = Some [])
             \<and> named_ids (recoverable @ invalid @ active @ correlated) = [])"
proof (cases turn)
  case None
  then show ?thesis by (simp add: assms assess_recovery_owner_def)
next
  case (Some t)
  define linked where "linked = (case run of None \<Rightarrow> [] | Some r \<Rightarrow> r)"
  have unlinked: "linked = [] \<longleftrightarrow> run = None \<or> run = Some []" and link: "linked \<noteq> [] \<Longrightarrow> run = Some linked"
    by (auto simp: linked_def split: option.splits)
  have single: "length xs = 1 \<Longrightarrow> xs = [hd xs]" for xs :: "string list"
    by (cases xs) auto
  define rec where "rec = named_ids recoverable"
  define cor where "cor = named_ids correlated"
  define known where "known = dedup (rec @ named_ids invalid @ named_ids active)"
  have rec: "x \<in> set rec \<longleftrightarrow> x \<in> set recoverable \<and> x \<noteq> []" for x by (simp add: rec_def)
  have known: "x \<in> set known \<longleftrightarrow> x \<in> set (recoverable @ invalid @ active) \<and> x \<noteq> []" for x
    by (auto simp: known_def rec_def)
  have none: "known = [] \<Longrightarrow> cor = [] \<Longrightarrow> named_ids (recoverable @ invalid @ active @ correlated) = []"
    by (auto simp: known_def rec_def cor_def named_ids_def)
  have cor: "cor \<noteq> [] \<Longrightarrow> \<not> 1 < length cor \<Longrightarrow> cor = [hd cor]" by (cases cor) auto
  note a = assms [unfolded assess_recovery_owner_def Some option.case Let_def,
      folded linked_def rec_def cor_def, folded known_def]
  have "ra_owner a \<noteq> OwnerNone" by (simp add: a)
  moreover have "\<exists>r. ra_workflow_run_id a = Some r \<and> r \<in> set recoverable \<and> r \<noteq> []
         \<and> inspection = [] \<and> kind \<noteq> Some ''direct''
         \<and> (run = Some r \<or> (run = None \<or> run = Some []) \<and> named_ids correlated = [r])"
    if "ra_owner a = OwnerWorkflow"
    using that unlinked link single [of cor] unfolding a
    by (auto simp: rec cor_def [symmetric] split: if_split_asm)
  moreover have "kind = Some ''direct'' \<and> (run = None \<or> run = Some [])
         \<or> inspection = [] \<and> (\<exists>r. run = Some r \<and> r \<noteq> [] \<and> r \<notin> set (recoverable @ invalid @ active))
         \<or> inspection = [] \<and> kind \<noteq> Some ''workflow'' \<and> (run = None \<or> run = Some [])
             \<and> named_ids (recoverable @ invalid @ active @ correlated) = []"
    if "ra_owner a = OwnerDirectTurn"
  proof -
    have "kind = Some ''direct'' \<and> linked = [] \<or> inspection = [] \<and> linked \<noteq> [] \<and> linked \<notin> set known
      \<or> inspection = [] \<and> kind \<noteq> Some ''workflow'' \<and> linked = [] \<and> known = [] \<and> length cor \<noteq> 1 \<and> \<not> 1 < length cor"
      using that unfolding a by (simp split: if_split_asm)
    then consider "kind = Some ''direct''" "linked = []"
      | "inspection = []" "linked \<noteq> []" "linked \<notin> set known"
      | "inspection = []" "kind \<noteq> Some ''workflow''" "linked = []" "known = []" "cor = []"
      by (cases cor) auto
    then show ?thesis
    proof cases
      case 1
      then show ?thesis using unlinked by blast
    next
      case 2
      then have "run = Some linked" "linked \<notin> set (recoverable @ invalid @ active)"
        using link known by blast+
      with 2 show ?thesis by blast
    next
      case 3
      then show ?thesis using unlinked none by blast
    qed
  qed
  ultimately show ?thesis using Some by blast
qed

theorem bg_recovery_owner_witness:
  "ra_owner (assess_recovery_owner (Some ''t1'') (Some ''r1'') (Some ''workflow'') [''r1''] [] [] [] []) = OwnerWorkflow
   \<and> (\<exists>r. ra_workflow_run_id (assess_recovery_owner (Some ''t1'') (Some ''r1'') (Some ''workflow'') [''r1''] [] [] [] [])
         = Some r \<and> r \<in> set [''r1''])"
proof -
  let ?a = "assess_recovery_owner (Some ''t1'') (Some ''r1'') (Some ''workflow'') [''r1''] [] [] [] []"
  have "ra_owner ?a = OwnerWorkflow"
    by (simp add: assess_recovery_owner_def named_ids_def Let_def)
  then show ?thesis using bg_recovery_owner [OF refl, of "Some ''t1''" "Some ''r1''" "Some ''workflow''" "[''r1'']" "[]" "[]" "[]" "[]"]
    by auto
qed

end
