(* ===== verification/Inbox.thy ===== *)
theory Inbox
  imports Bg_Store Journal
begin

text \<open>
  The durable input queue of a background session (\<open>src/agenthicc/background/input_inbox.py\<close>): a log of JSON lines
  per session, the records it folds to, and the operations of the manager and of the worker that owns the session.

  The file is that of \<open>Journal\<close>: a short write leaves a tail, to which the next line is joined. Lines that are no
  JSON object are skipped. The lock of the file makes an operation one step; what the session store answers is an
  argument of it, and so are the clock, a fresh identifier and the digest of a lease. A state that is a list or an object,
  which no writer produces, raises a \<open>TypeError\<close> in the code and here is the state of no message.
\<close>

datatype inbox_error =
    InboxValue string
  | InboxTransition string
  | InboxKey string
  | InboxStore store_error

type_synonym 'a inbox_result = "(inbox_error + 'a) \<times> jfile"

record background_input =
  bi_message_id :: string
  bi_session_id :: string
  bi_owner_attempt :: int
  bi_text :: string
  bi_accepted_at :: pyfloat
  bi_state :: string
  bi_state_changed_at :: pyfloat
  bi_error :: string
  bi_deferred :: bool
  bi_recovery_error :: string

definition max_input_chars :: nat where "max_input_chars = 64000"
definition max_pending_messages :: nat where "max_pending_messages = 64"

definition safe_id :: "string \<Rightarrow> bool" where
  "safe_id s \<longleftrightarrow> 1 \<le> length s \<and> length s \<le> 128
     \<and> list_all (\<lambda>c. CHR ''A'' \<le> c \<and> c \<le> CHR ''Z'' \<or> CHR ''a'' \<le> c \<and> c \<le> CHR ''z'' \<or> CHR ''0'' \<le> c \<and> c \<le> CHR ''9''
         \<or> c = CHR ''_'' \<or> c = CHR ''-'') s"

section \<open>The log and its records\<close>

definition inbox_events :: "jfile \<Rightarrow> payload list" where
  "inbox_events f = List.map_filter (\<lambda>l. case l of JObj e \<Rightarrow> Some e | _ \<Rightarrow> None) (read_lines f)"

definition update_actions :: "string list" where
  "update_actions = [''claimed'', ''delivered'', ''completed'', ''failed'', ''rejected'', ''rebound'', ''deferred'',
     ''waiting_recovery'', ''recovery_rearmed'']"

definition project_event :: "payload \<Rightarrow> payload pydict \<Rightarrow> payload pydict" where
  "project_event e records =
     (case pget e ''message_id'' of
        PStr mid \<Rightarrow>
          (if pget e ''action'' = PStr ''accepted'' then dset mid e records
           else if pget e ''action'' \<in> PStr ` set update_actions
           then (case dget records mid of None \<Rightarrow> records | Some r \<Rightarrow> dset mid (absorb e r) records)
           else records)
      | _ \<Rightarrow> records)"

definition projection :: "payload list \<Rightarrow> payload pydict" where
  "projection events = fold project_event events []"

definition inbox_records :: "jfile \<Rightarrow> payload pydict" where
  "inbox_records f = projection (inbox_events f)"

text \<open>\<open>isinstance(value, (int, float))\<close>, where a boolean is an integer.\<close>

definition number_or_zero :: "pyval \<Rightarrow> pyfloat" where
  "number_or_zero v = (case v of PBool b \<Rightarrow> Fin (if b then 1 else 0) | _ \<Rightarrow> (case num_of v of None \<Rightarrow> Fin 0 | Some x \<Rightarrow> x))"

definition accepted_at :: "payload \<Rightarrow> pyfloat" where
  "accepted_at r = (case num_of (pget r ''accepted_at'') of None \<Rightarrow> Fin 0 | Some x \<Rightarrow> x)"

definition input_states :: "string list" where
  "input_states = [''accepted'', ''claimed'', ''delivered'', ''completed'', ''failed'', ''rejected'']"

definition as_input :: "(pyfloat \<Rightarrow> string) \<Rightarrow> payload \<Rightarrow> background_input" where
  "as_input ft r =
     \<lparr>bi_message_id = text_field ft r ''message_id'' [], bi_session_id = text_field ft r ''session_id'' [],
      bi_owner_attempt = (case pget r ''owner_attempt'' of PInt i \<Rightarrow> i | _ \<Rightarrow> 0), bi_text = text_field ft r ''text'' [],
      bi_accepted_at = number_or_zero (dget_or r ''accepted_at'' (PFloat (Fin 0))),
      bi_state = (case dget_or r ''state'' (PStr ''accepted'') of PStr s \<Rightarrow> if s \<in> set input_states then s else ''rejected'' | _ \<Rightarrow> ''rejected''),
      bi_state_changed_at = number_or_zero (dget_or r ''state_changed_at'' (dget_or r ''accepted_at'' (PFloat (Fin 0)))),
      bi_error = take 240 (text_field ft r ''error'' []), bi_deferred = (pget r ''deferred'' = PBool True),
      bi_recovery_error = take 240 (text_field ft r ''recovery_error'' [])\<rparr>"

definition in_state :: "string list \<Rightarrow> payload \<Rightarrow> bool" where
  "in_state ss r \<longleftrightarrow> pget r ''state'' \<in> PStr ` set ss"

definition is_deferred :: "payload \<Rightarrow> bool" where
  "is_deferred r \<longleftrightarrow> pget r ''deferred'' = PBool True"

definition owned_by :: "int \<Rightarrow> string \<Rightarrow> payload \<Rightarrow> bool" where
  "owned_by attempt hash r \<longleftrightarrow> same_int (pget r ''owner_attempt'') attempt \<and> pget r ''owner_hash'' = PStr hash"

definition waiting_count :: "payload pydict \<Rightarrow> nat" where
  "waiting_count records = length (filter (in_state [''accepted'', ''claimed'']) (map snd records))"

definition by_acceptance :: "payload pydict \<Rightarrow> payload list" where
  "by_acceptance records = sort_key accepted_at (map snd records)"

section \<open>The events\<close>

definition accepted_event :: "string \<Rightarrow> string \<Rightarrow> int \<Rightarrow> string \<Rightarrow> string \<Rightarrow> pyfloat \<Rightarrow> payload" where
  "accepted_event mid sid attempt hash body now =
     [(''action'', PStr ''accepted''), (''message_id'', PStr mid), (''session_id'', PStr sid), (''owner_attempt'', PInt attempt),
      (''owner_hash'', PStr hash), (''text'', PStr body), (''accepted_at'', PFloat now), (''state'', PStr ''accepted''),
      (''state_changed_at'', PFloat now)]"

definition deferred_event :: "string \<Rightarrow> int \<Rightarrow> pyfloat \<Rightarrow> payload" where
  "deferred_event mid attempt now =
     [(''action'', PStr ''deferred''), (''message_id'', PStr mid), (''owner_attempt'', PInt attempt), (''owner_hash'', PStr []),
      (''deferred'', PBool True), (''state'', PStr ''accepted''), (''state_changed_at'', PFloat now)]"

definition rebound_event :: "pyval \<Rightarrow> int \<Rightarrow> string \<Rightarrow> pyfloat \<Rightarrow> payload" where
  "rebound_event mid attempt hash now =
     [(''action'', PStr ''rebound''), (''message_id'', mid), (''owner_attempt'', PInt attempt), (''owner_hash'', PStr hash),
      (''deferred'', PBool False), (''recovery_error'', PStr []), (''state'', PStr ''accepted''), (''state_changed_at'', PFloat now)]"

definition waiting_event :: "string \<Rightarrow> string \<Rightarrow> int \<Rightarrow> string \<Rightarrow> pyfloat \<Rightarrow> payload" where
  "waiting_event action mid attempt reason now =
     [(''action'', PStr action), (''message_id'', PStr mid), (''owner_attempt'', PInt attempt), (''owner_hash'', PStr []),
      (''deferred'', PBool True), (''recovery_error'', PStr reason), (''state'', PStr ''accepted''), (''state_changed_at'', PFloat now)]"

definition state_event :: "string \<Rightarrow> pyval \<Rightarrow> pyfloat \<Rightarrow> payload" where
  "state_event state mid now =
     [(''action'', PStr state), (''message_id'', mid), (''state'', PStr state), (''state_changed_at'', PFloat now)]"

section \<open>Accepting input\<close>

definition validate_current_owner :: "background_session \<Rightarrow> int \<Rightarrow> string \<Rightarrow> inbox_error + unit" where
  "validate_current_owner s attempt lease =
     (if bs_status s \<notin> set active_statuses
      then Inl (InboxTransition (''Session is '' @ status_value (bs_status s) @ ''; live input is unavailable''))
      else if bs_attempt s \<noteq> attempt \<or> bs_lease_token s \<noteq> lease \<or> bs_worker_pid s = None
      then Inl (InboxTransition ''Background session owner changed; reopen details'')
      else Inr ())"

definition found :: "store_error + background_session \<Rightarrow> inbox_error + background_session" where
  "found cur = (case cur of Inl e \<Rightarrow> Inl (InboxStore e) | Inr s \<Rightarrow> Inr s)"

definition live_owner :: "store_error + background_session \<Rightarrow> int \<Rightarrow> string \<Rightarrow> inbox_error + unit" where
  "live_owner cur attempt lease = bindE (found cur) (\<lambda>s. validate_current_owner s attempt lease)"

definition inbox_paths :: "string \<Rightarrow> inbox_error + unit" where
  "inbox_paths sid = guardE (safe_id sid) (InboxValue ''session_id must be a safe identifier'')"

definition check_input :: "string \<Rightarrow> inbox_error + unit" where
  "check_input body = bindE (guardE (py_strip body \<noteq> []) (InboxValue ''Input must not be empty'')) (\<lambda>_.
     guardE (length body \<le> max_input_chars) (InboxValue ''Input exceeds 64000 characters''))"

definition with_lock :: "inbox_error + unit \<Rightarrow> (jfile \<Rightarrow> 'a inbox_result) \<Rightarrow> jfile \<Rightarrow> 'a inbox_result" where
  "with_lock check act f = (case check of Inl e \<Rightarrow> (Inl e, f) | Inr _ \<Rightarrow> act f)"

text \<open>\<open>before\<close> and \<open>cur\<close>: what the store answers before the lock is taken and right before the message is written.\<close>

definition accept_live ::
  "(pyfloat \<Rightarrow> string) \<Rightarrow> (string \<Rightarrow> string) \<Rightarrow> string \<Rightarrow> string \<Rightarrow> int \<Rightarrow> string \<Rightarrow> string
   \<Rightarrow> store_error + background_session \<Rightarrow> pyfloat \<Rightarrow> jfile \<Rightarrow> background_input inbox_result" where
  "accept_live ft hash sid body attempt lease mid cur now f =
     (case dget (inbox_records f) mid of
        Some r \<Rightarrow>
          (if pget r ''session_id'' \<noteq> PStr sid \<or> \<not> same_int (pget r ''owner_attempt'') attempt \<or> pget r ''text'' \<noteq> PStr body
           then (Inl (InboxValue ''message_id was already used for different input''), f)
           else (Inr (as_input ft r), f))
      | None \<Rightarrow>
          (if waiting_count (inbox_records f) \<ge> max_pending_messages then (Inl (InboxTransition ''Background input queue is full''), f)
           else with_lock (live_owner cur attempt lease)
             (\<lambda>f. let e = accepted_event mid sid attempt (hash lease) body now in (Inr (as_input ft e), append_line e f)) f))"

definition enqueue ::
  "(pyfloat \<Rightarrow> string) \<Rightarrow> (string \<Rightarrow> string) \<Rightarrow> string \<Rightarrow> string \<Rightarrow> int \<Rightarrow> string \<Rightarrow> string option \<Rightarrow> string
   \<Rightarrow> store_error + background_session \<Rightarrow> store_error + background_session \<Rightarrow> pyfloat \<Rightarrow> jfile \<Rightarrow> background_input inbox_result" where
  "enqueue ft hash sid body attempt lease mid uuid before cur now =
     (let identifier = (case mid of None \<Rightarrow> uuid | Some m \<Rightarrow> if m = [] then uuid else m) in
      with_lock
        (bindE (check_input body) (\<lambda>_.
         bindE (guardE (1 \<le> attempt) (InboxValue ''owner_attempt must be a positive integer'')) (\<lambda>_.
         bindE (guardE (lease \<noteq> []) (InboxValue ''a live owner lease is required'')) (\<lambda>_.
         bindE (guardE (safe_id identifier) (InboxValue ''message_id must be a safe identifier'')) (\<lambda>_.
         bindE (inbox_paths sid) (\<lambda>_. live_owner before attempt lease))))))
        (accept_live ft hash sid body attempt lease identifier cur now))"

text \<open>\<open>first\<close> and \<open>cur\<close>: what the store answers when the lock is taken and right before the message is written.\<close>

definition same_session :: "int \<Rightarrow> string option \<Rightarrow> background_session \<Rightarrow> bool" where
  "same_session attempt lease s \<longleftrightarrow> bs_attempt s = attempt \<and> lease = Some (bs_lease_token s)"

definition deferrable :: "int \<Rightarrow> string option \<Rightarrow> store_error + background_session \<Rightarrow> inbox_error + unit" where
  "deferrable attempt lease first = bindE (found first) (\<lambda>s.
     bindE (guardE (bs_status s \<noteq> SDeleted) (InboxTransition ''Deleted sessions cannot receive input'')) (\<lambda>_.
     guardE (same_session attempt lease s) (InboxTransition ''Session changed; reopen details and retry'')))"

definition still_deferrable :: "int \<Rightarrow> string option \<Rightarrow> store_error + background_session \<Rightarrow> inbox_error + unit" where
  "still_deferrable attempt lease cur = bindE (found cur) (\<lambda>s.
     guardE (bs_status s \<noteq> SDeleted \<and> same_session attempt lease s) (InboxTransition ''Session changed; reopen details and retry''))"

definition accept_deferred ::
  "(pyfloat \<Rightarrow> string) \<Rightarrow> string \<Rightarrow> string \<Rightarrow> int \<Rightarrow> string option \<Rightarrow> string
   \<Rightarrow> store_error + background_session \<Rightarrow> pyfloat \<Rightarrow> jfile \<Rightarrow> background_input inbox_result" where
  "accept_deferred ft sid body attempt lease mid cur now f =
     (case dget (inbox_records f) mid of
        Some r \<Rightarrow>
          (if pget r ''session_id'' \<noteq> PStr sid \<or> pget r ''text'' \<noteq> PStr body
           then (Inl (InboxValue ''message_id was already used for different input''), f)
           else if in_state [''accepted''] r \<and> \<not> is_deferred r
           then let e = deferred_event mid attempt now in (Inr (as_input ft (absorb e r)), append_line e f)
           else (Inr (as_input ft r), f))
      | None \<Rightarrow>
          (if waiting_count (inbox_records f) \<ge> max_pending_messages then (Inl (InboxTransition ''Background input queue is full''), f)
           else with_lock (still_deferrable attempt lease cur)
             (\<lambda>f. let e = accepted_event mid sid attempt [] body now @ [(''deferred'', PBool True)]
                  in (Inr (as_input ft e), append_line e f)) f))"

definition enqueue_deferred ::
  "(pyfloat \<Rightarrow> string) \<Rightarrow> string \<Rightarrow> string \<Rightarrow> int \<Rightarrow> string option \<Rightarrow> string option \<Rightarrow> string
   \<Rightarrow> store_error + background_session \<Rightarrow> store_error + background_session \<Rightarrow> pyfloat \<Rightarrow> jfile \<Rightarrow> background_input inbox_result" where
  "enqueue_deferred ft sid body attempt lease mid uuid first cur now =
     (let identifier = (case mid of None \<Rightarrow> uuid | Some m \<Rightarrow> if m = [] then uuid else m) in
      with_lock
        (bindE (check_input body) (\<lambda>_.
         bindE (guardE (0 \<le> attempt) (InboxValue ''expected_attempt must be a non-negative integer'')) (\<lambda>_.
         bindE (guardE (safe_id identifier) (InboxValue ''message_id must be a safe identifier'')) (\<lambda>_.
         bindE (inbox_paths sid) (\<lambda>_. deferrable attempt lease first)))))
        (accept_deferred ft sid body attempt lease identifier cur now))"

section \<open>The worker\<close>

text \<open>A message without a live owner is bound to the attempt that takes it. \<open>now\<close> and \<open>now'\<close>: the clock at the two events.\<close>

definition rebind :: "pyval \<Rightarrow> int \<Rightarrow> string \<Rightarrow> pyfloat \<Rightarrow> payload \<times> jfile \<Rightarrow> payload \<times> jfile" where
  "rebind mid attempt hash now = (\<lambda>(r, f).
     if is_deferred r then let e = rebound_event mid attempt hash now in (absorb e r, append_line e f) else (r, f))"

fun claim_from ::
  "(pyfloat \<Rightarrow> string) \<Rightarrow> int \<Rightarrow> string \<Rightarrow> pyfloat \<Rightarrow> pyfloat \<Rightarrow> payload list \<Rightarrow> jfile \<Rightarrow> background_input option \<times> jfile" where
  "claim_from ft attempt hash now now' [] f = (None, f)"
| "claim_from ft attempt hash now now' (r # rs) f =
     (if \<not> in_state [''accepted''] r then claim_from ft attempt hash now now' rs f
      else let (r1, f1) = rebind (pget r ''message_id'') attempt hash now (r, f) in
        if \<not> owned_by attempt hash r1 then claim_from ft attempt hash now now' rs f1
        else let e = state_event ''delivered'' (pget r1 ''message_id'') now' in (Some (as_input ft (absorb e r1)), append_line e f1))"

definition claim_next ::
  "(pyfloat \<Rightarrow> string) \<Rightarrow> (string \<Rightarrow> string) \<Rightarrow> string \<Rightarrow> int \<Rightarrow> string \<Rightarrow> store_error + background_session
   \<Rightarrow> pyfloat \<Rightarrow> pyfloat \<Rightarrow> jfile \<Rightarrow> background_input option inbox_result" where
  "claim_next ft hash sid attempt lease cur now now' =
     with_lock (bindE (inbox_paths sid) (\<lambda>_. live_owner cur attempt lease))
       (\<lambda>f. map_prod Inr id (claim_from ft attempt (hash lease) now now' (by_acceptance (inbox_records f)) f))"

definition claim_by_id ::
  "(pyfloat \<Rightarrow> string) \<Rightarrow> (string \<Rightarrow> string) \<Rightarrow> string \<Rightarrow> string \<Rightarrow> int \<Rightarrow> string \<Rightarrow> store_error + background_session
   \<Rightarrow> pyfloat \<Rightarrow> pyfloat \<Rightarrow> jfile \<Rightarrow> background_input option inbox_result" where
  "claim_by_id ft hash sid mid attempt lease cur now now' =
     with_lock (bindE (inbox_paths sid) (\<lambda>_. live_owner cur attempt lease))
       (\<lambda>f. case dget (inbox_records f) mid of
          None \<Rightarrow> (Inr None, f)
        | Some r \<Rightarrow>
            (if \<not> in_state [''accepted''] r then (Inr None, f)
             else let (r1, f1) = rebind (PStr mid) attempt (hash lease) now (r, f) in
               if \<not> owned_by attempt (hash lease) r1 then (Inr None, f1)
               else let e = state_event ''delivered'' (PStr mid) now' in (Inr (Some (as_input ft (absorb e r1))), append_line e f1)))"

definition peek_next ::
  "(pyfloat \<Rightarrow> string) \<Rightarrow> (string \<Rightarrow> string) \<Rightarrow> string \<Rightarrow> int \<Rightarrow> string \<Rightarrow> store_error + background_session
   \<Rightarrow> jfile \<Rightarrow> background_input option inbox_result" where
  "peek_next ft hash sid attempt lease cur =
     with_lock (bindE (inbox_paths sid) (\<lambda>_. live_owner cur attempt lease))
       (\<lambda>f. (Inr (map_option (as_input ft) (find (\<lambda>r. in_state [''accepted''] r \<and> (is_deferred r \<or> owned_by attempt (hash lease) r))
          (by_acceptance (inbox_records f)))), f))"

text \<open>
  The loops over \<open>records.items()\<close>: each record may get one event, which is appended and merged. \<open>change\<close>
  gives the event of a message.
\<close>

fun change_records :: "(string \<Rightarrow> payload \<Rightarrow> payload option) \<Rightarrow> payload pydict \<Rightarrow> jfile \<Rightarrow> payload pydict \<times> jfile" where
  "change_records change [] f = ([], f)"
| "change_records change ((mid, r) # rs) f =
     (case change mid r of
        None \<Rightarrow> (let (rs', f') = change_records change rs f in ((mid, r) # rs', f'))
      | Some e \<Rightarrow> (let (rs', f') = change_records change rs (append_line e f) in ((mid, absorb e r) # rs', f')))"

definition inputs_of :: "(pyfloat \<Rightarrow> string) \<Rightarrow> payload pydict \<times> jfile \<Rightarrow> background_input list inbox_result" where
  "inputs_of ft = (\<lambda>(records, f). (Inr (map (as_input ft) (by_acceptance records)), f))"

definition waiting_change :: "int \<Rightarrow> string \<Rightarrow> string \<Rightarrow> pyfloat \<Rightarrow> string \<Rightarrow> payload \<Rightarrow> payload option" where
  "waiting_change attempt hash reason now mid r =
     (if in_state [''accepted'', ''claimed''] r \<and> (is_deferred r \<or> owned_by attempt hash r)
      then Some (waiting_event ''waiting_recovery'' mid attempt reason now) else None)"

definition mark_waiting_recovery ::
  "(pyfloat \<Rightarrow> string) \<Rightarrow> (string \<Rightarrow> string) \<Rightarrow> string \<Rightarrow> int \<Rightarrow> string \<Rightarrow> string \<Rightarrow> store_error + background_session
   \<Rightarrow> pyfloat \<Rightarrow> jfile \<Rightarrow> background_input list inbox_result" where
  "mark_waiting_recovery ft hash sid attempt lease reason cur now =
     (let safe = take 240 (py_strip reason);
          safe_reason = (if safe = [] then ''Waiting for explicit recovery action.'' else safe)
      in with_lock (bindE (inbox_paths sid) (\<lambda>_. live_owner cur attempt lease))
        (\<lambda>f. inputs_of ft (change_records (waiting_change attempt (hash lease) safe_reason now) (inbox_records f) f)))"

definition rearm_change :: "int \<Rightarrow> pyfloat \<Rightarrow> string \<Rightarrow> payload \<Rightarrow> payload option" where
  "rearm_change attempt now mid r =
     (if in_state [''accepted''] r \<and> is_deferred r \<and> truthy (pget r ''recovery_error'')
      then Some (waiting_event ''recovery_rearmed'' mid attempt [] now) else None)"

definition recoverable_statuses :: "session_status list" where
  "recoverable_statuses = [SCompleted, SFailed, SOrphaned, SCancelled, SArchived]"

definition rearm_recovery_wait ::
  "(pyfloat \<Rightarrow> string) \<Rightarrow> string \<Rightarrow> int \<Rightarrow> string \<Rightarrow> store_error + background_session
   \<Rightarrow> pyfloat \<Rightarrow> jfile \<Rightarrow> background_input list inbox_result" where
  "rearm_recovery_wait ft sid attempt lease cur now =
     with_lock
       (bindE (inbox_paths sid) (\<lambda>_. bindE (found cur) (\<lambda>s.
          guardE (bs_status s \<in> set recoverable_statuses \<and> same_session attempt (Some lease) s)
            (InboxTransition ''Session is not the same recoverable owner; reopen details and retry''))))
       (\<lambda>f. inputs_of ft (change_records (rearm_change attempt now) (inbox_records f) f))"

definition reject ::
  "(pyfloat \<Rightarrow> string) \<Rightarrow> (string \<Rightarrow> string) \<Rightarrow> string \<Rightarrow> string \<Rightarrow> int \<Rightarrow> string \<Rightarrow> string \<Rightarrow> pyfloat \<Rightarrow> jfile
   \<Rightarrow> background_input inbox_result" where
  "reject ft hash sid mid attempt lease reason now =
     with_lock (inbox_paths sid)
       (\<lambda>f. case dget (inbox_records f) mid of
          None \<Rightarrow> (Inl (InboxKey (''Unknown background input '' @ mid)), f)
        | Some r \<Rightarrow>
            (if \<not> in_state [''accepted'', ''claimed'', ''delivered''] r \<or> \<not> owned_by attempt (hash lease) r
             then (Inl (InboxTransition ''Input is not pending for this worker attempt''), f)
             else let e = state_event ''rejected'' (PStr mid) now @ [(''error'', PStr (take 240 reason))]
               in (Inr (as_input ft (absorb e r)), append_line e f)))"

definition acknowledge_input ::
  "(pyfloat \<Rightarrow> string) \<Rightarrow> (string \<Rightarrow> string) \<Rightarrow> string \<Rightarrow> string \<Rightarrow> int \<Rightarrow> string \<Rightarrow> store_error + background_session
   \<Rightarrow> pyfloat \<Rightarrow> jfile \<Rightarrow> background_input inbox_result" where
  "acknowledge_input ft hash sid mid attempt lease cur now =
     with_lock (inbox_paths sid)
       (\<lambda>f. case dget (inbox_records f) mid of
          None \<Rightarrow> (Inl (InboxKey (''Unknown background input '' @ mid)), f)
        | Some r \<Rightarrow>
            (if in_state [''delivered''] r then (Inr (as_input ft r), f)
             else if \<not> in_state [''claimed''] r \<or> \<not> owned_by attempt (hash lease) r
             then (Inl (InboxTransition ''Input is not claimed by this worker attempt''), f)
             else with_lock (live_owner cur attempt lease)
               (\<lambda>f. let e = state_event ''delivered'' (PStr mid) now in (Inr (as_input ft (absorb e r)), append_line e f)) f))"

section \<open>Closing receipts\<close>

definition rejected_receipt :: "string \<Rightarrow> string \<Rightarrow> pyfloat \<Rightarrow> payload" where
  "rejected_receipt reason mid now = state_event ''rejected'' (PStr mid) now @ [(''error'', PStr reason)]"

definition receipt_change :: "(string \<Rightarrow> string) \<Rightarrow> background_session \<Rightarrow> pyfloat \<Rightarrow> string \<Rightarrow> payload \<Rightarrow> payload option" where
  "receipt_change hash s now mid r =
     (if \<not> in_state [''accepted'', ''claimed'', ''delivered''] r then None
      else if is_deferred r
      then (if bs_status s = SDeleted
            then Some (rejected_receipt ''The session was deleted before this input could be delivered.'' mid now) else None)
      else if bs_status s \<in> set active_statuses \<and> owned_by (bs_attempt s) (hash (bs_lease_token s)) r then None
      else Some (rejected_receipt
        ''The owning worker ended or changed before delivery was confirmed; reopen details and resend.'' mid now))"

definition receipts ::
  "(pyfloat \<Rightarrow> string) \<Rightarrow> (string \<Rightarrow> string) \<Rightarrow> string \<Rightarrow> store_error + background_session \<Rightarrow> pyfloat \<Rightarrow> jfile
   \<Rightarrow> background_input list inbox_result" where
  "receipts ft hash sid cur now =
     with_lock (inbox_paths sid)
       (\<lambda>f. inputs_of ft (case cur of
          Inl _ \<Rightarrow> (inbox_records f, f)
        | Inr s \<Rightarrow> change_records (receipt_change hash s now) (inbox_records f) f))"

definition settle_change ::
  "int \<Rightarrow> string \<Rightarrow> string set \<Rightarrow> string set \<Rightarrow> bool \<Rightarrow> pyfloat \<Rightarrow> string \<Rightarrow> payload \<Rightarrow> payload option" where
  "settle_change attempt hash delivered completed succeeded now mid r =
     (if \<not> owned_by attempt hash r then None
      else if mid \<in> delivered \<and> in_state [''delivered''] r
      then (if succeeded \<or> mid \<in> completed then Some (state_event ''completed'' (PStr mid) now)
            else Some (state_event ''failed'' (PStr mid) now
              @ [(''error'', PStr ''The owning worker failed after accepting this input.'')]))
      else if in_state [''accepted'', ''claimed''] r \<and> \<not> is_deferred r
      then Some (rejected_receipt ''Worker finished before this input reached a safe turn boundary; reopen details and resend.'' mid now)
      else None)"

text \<open>\<open>later\<close> and \<open>now'\<close>: the store and the clock when nothing was settled and the receipts are read.\<close>

definition settle_attempt ::
  "(pyfloat \<Rightarrow> string) \<Rightarrow> (string \<Rightarrow> string) \<Rightarrow> string \<Rightarrow> int \<Rightarrow> string \<Rightarrow> string set \<Rightarrow> string set \<Rightarrow> bool
   \<Rightarrow> store_error + background_session \<Rightarrow> pyfloat \<Rightarrow> pyfloat \<Rightarrow> jfile \<Rightarrow> background_input list inbox_result" where
  "settle_attempt ft hash sid attempt lease delivered completed succeeded later now now' =
     with_lock (inbox_paths sid)
       (\<lambda>f. let change = settle_change attempt (hash lease) delivered completed succeeded now in
          if \<exists>(mid, r) \<in> set (inbox_records f). change mid r \<noteq> None
          then inputs_of ft (change_records change (inbox_records f) f)
          else receipts ft hash sid later now' f)"

end
