(* ===== verification/Inbox_Laws.thy ===== *)
theory Inbox_Laws
  imports Inbox
begin

text \<open>
  The life of a queued message as an automaton, the events an operation may append, and what every operation keeps:
  each message follows the automaton, the queue stays within its bound, and only the live owner takes delivery.
\<close>

section \<open>The life of a message\<close>

datatype life = LUnknown | LWaiting | LDelivered | LClosed

definition moves :: "string set" where
  "moves = {''rebound'', ''deferred'', ''waiting_recovery'', ''recovery_rearmed''}"

fun life_step :: "string \<Rightarrow> life \<Rightarrow> life option" where
  "life_step a LUnknown = (if a = ''accepted'' then Some LWaiting else None)"
| "life_step a LWaiting = (if a \<in> moves then Some LWaiting else if a = ''delivered'' then Some LDelivered
     else if a = ''rejected'' then Some LClosed else None)"
| "life_step a LDelivered = (if a \<in> {''completed'', ''failed'', ''rejected''} then Some LClosed else None)"
| "life_step a LClosed = None"

fun life_run :: "life \<Rightarrow> string list \<Rightarrow> life option" where
  "life_run l [] = Some l"
| "life_run l (a # as) = Option.bind (life_step a l) (\<lambda>l'. life_run l' as)"

lemma life_run_append: "life_run l (as @ bs) = Option.bind (life_run l as) (\<lambda>l'. life_run l' bs)"
  by (induction as arbitrary: l) (simp_all split: bind_splits)

text \<open>The actions of one message, in the order of the log.\<close>

definition actions_of :: "string \<Rightarrow> payload list \<Rightarrow> string list" where
  "actions_of mid es = List.map_filter (\<lambda>e. str_of (pget e ''action'')) (filter (\<lambda>e. pget e ''message_id'' = PStr mid) es)"

lemma actions_of_Nil [simp]: "actions_of mid [] = []"
  by (simp add: actions_of_def map_filter_simps)

lemma actions_of_snoc:
  "actions_of mid (es @ [e]) = actions_of mid es
     @ (if pget e ''message_id'' = PStr mid then (case pget e ''action'' of PStr a \<Rightarrow> [a] | _ \<Rightarrow> []) else [])"
  by (cases "pget e ''action''") (simp_all add: actions_of_def map_filter_def)

definition life_of :: "payload option \<Rightarrow> life" where
  "life_of r = (case r of
     None \<Rightarrow> LUnknown
   | Some r \<Rightarrow> if in_state [''accepted''] r then LWaiting else if in_state [''delivered''] r then LDelivered else LClosed)"

section \<open>The events that fit\<close>

text \<open>
  An event fits when it is the next one in the life of its message. \<open>P\<close> holds of the attempt and the lease digest of the live owner.
\<close>

definition fresh_event :: "string \<Rightarrow> payload \<Rightarrow> bool" where
  "fresh_event mid e \<longleftrightarrow> pget e ''message_id'' = PStr mid \<and> pget e ''action'' = PStr ''accepted'' \<and> pget e ''state'' = PStr ''accepted''
     \<and> (\<exists>body. pget e ''text'' = PStr body)"

definition next_event :: "(int \<Rightarrow> string \<Rightarrow> bool) \<Rightarrow> string \<Rightarrow> payload \<Rightarrow> payload \<Rightarrow> bool" where
  "next_event P mid r e \<longleftrightarrow> pget e ''message_id'' = PStr mid \<and> dget e ''text'' = None
     \<and> (\<exists>a. pget e ''action'' = PStr a \<and> life_step a (life_of (Some r)) \<noteq> None
       \<and> pget e ''state'' = PStr (if a \<in> moves then ''accepted'' else a)
       \<and> (a = ''delivered'' \<longrightarrow> dget e ''owner_attempt'' = None \<and> dget e ''owner_hash'' = None \<and> (\<exists>n h. P n h \<and> owned_by n h r)))"

definition fits :: "(int \<Rightarrow> string \<Rightarrow> bool) \<Rightarrow> payload pydict \<Rightarrow> payload \<Rightarrow> bool" where
  "fits P rs e \<longleftrightarrow> (\<exists>mid. case dget rs mid of
       None \<Rightarrow> fresh_event mid e \<and> waiting_count rs < max_pending_messages
     | Some r \<Rightarrow> next_event P mid r e)"

fun fits_all :: "(int \<Rightarrow> string \<Rightarrow> bool) \<Rightarrow> payload pydict \<Rightarrow> payload list \<Rightarrow> bool" where
  "fits_all P rs [] = True"
| "fits_all P rs (e # es) = (fits P rs e \<and> fits_all P (project_event e rs) es)"

lemma fits_all_append: "fits_all P rs (es @ es') \<longleftrightarrow> fits_all P rs es \<and> fits_all P (fold project_event es rs) es'"
  by (induction es arbitrary: rs) simp_all

lemma project_fresh: "fresh_event mid e \<Longrightarrow> project_event e rs = dset mid e rs"
  by (simp add: project_event_def fresh_event_def)

lemma life_step_actions:
  assumes "life_step a l \<noteq> None"
  shows "a = ''accepted'' \<and> l = LUnknown \<or> a \<in> set update_actions \<and> a \<noteq> ''accepted'' \<and> l \<noteq> LUnknown"
  using assms by (cases l) (auto simp: update_actions_def moves_def split: if_splits)

lemma project_next:
  assumes "next_event P mid r e" "dget rs mid = Some r"
  shows "project_event e rs = dset mid (absorb e r) rs"
proof -
  obtain a where a: "pget e ''action'' = PStr a" "life_step a (life_of (Some r)) \<noteq> None" using assms(1) by (auto simp: next_event_def)
  have "life_of (Some r) \<noteq> LUnknown" by (simp add: life_of_def)
  then have "a \<in> set update_actions" "a \<noteq> ''accepted''" using life_step_actions[OF a(2)] by blast+
  then show ?thesis using assms a(1) by (simp add: project_event_def next_event_def)
qed

lemma life_after_fresh: "fresh_event mid e \<Longrightarrow> life_of (Some e) = LWaiting"
  by (simp add: fresh_event_def life_of_def in_state_def)

lemma pget_absorbed: "pget e k = PStr s \<Longrightarrow> pget (absorb e r) k = PStr s"
  by (cases "dget e k") (simp_all add: pget_absorb, simp add: pget_def dget_or_def)

lemma life_after_next:
  assumes "next_event P mid r e" "pget e ''action'' = PStr a"
  shows "life_step a (life_of (Some r)) = Some (life_of (Some (absorb e r)))"
proof -
  have a: "life_step a (life_of (Some r)) \<noteq> None" "pget e ''state'' = PStr (if a \<in> moves then ''accepted'' else a)"
    using assms by (auto simp: next_event_def)
  then have "pget (absorb e r) ''state'' = PStr (if a \<in> moves then ''accepted'' else a)" by (simp add: pget_absorbed)
  then have "life_of (Some (absorb e r)) = (if a \<in> moves \<or> a = ''accepted'' then LWaiting else if a = ''delivered'' then LDelivered else LClosed)"
    by (simp add: life_of_def in_state_def moves_def)
  moreover have "life_of (Some r) \<noteq> LUnknown" by (simp add: life_of_def)
  ultimately show ?thesis using a(1) by (cases "life_of (Some r)") (auto simp: moves_def split: if_splits)
qed

section \<open>What a log of fitting events keeps\<close>

definition sound :: "payload list \<Rightarrow> bool" where
  "sound es \<longleftrightarrow> distinct (keys (projection es)) \<and> waiting_count (projection es) \<le> max_pending_messages
     \<and> (\<forall>mid. life_run LUnknown (actions_of mid es) = Some (life_of (dget (projection es) mid)))
     \<and> (\<forall>(mid, r) \<in> set (projection es). pget r ''message_id'' = PStr mid \<and> (\<exists>body. pget r ''text'' = PStr body)
         \<and> in_state [''accepted'', ''delivered'', ''completed'', ''failed'', ''rejected''] r)"

lemma sound_Nil: "sound []"
  by (simp add: sound_def projection_def waiting_count_def life_of_def)

lemma projection_snoc: "projection (es @ [e]) = project_event e (projection es)"
  by (simp add: projection_def)

lemma count_replaced:
  assumes "dget d k = Some r" "Q v \<Longrightarrow> Q r"
  shows "length (filter Q (map snd (dset k v d))) \<le> length (filter Q (map snd d))"
  using assms(1)
proof (induction d)
  case (Cons p d)
  then show ?case using assms(2) by (cases "fst p = k") (auto simp: dset_def)
qed simp

lemma absorbed_text: "next_event P mid r e \<Longrightarrow> pget (absorb e r) ''text'' = pget r ''text''"
  by (simp add: next_event_def pget_absorb)

lemma absorbed_id: "next_event P mid r e \<Longrightarrow> pget (absorb e r) ''message_id'' = PStr mid"
  by (simp add: next_event_def pget_absorbed)

lemma next_state:
  assumes "next_event P mid r e"
  shows "in_state [''accepted'', ''delivered'', ''completed'', ''failed'', ''rejected''] (absorb e r)"
    "in_state [''accepted'', ''claimed''] (absorb e r) \<Longrightarrow> in_state [''accepted'', ''claimed''] r"
proof -
  obtain a where a: "life_step a (life_of (Some r)) \<noteq> None" "pget e ''state'' = PStr (if a \<in> moves then ''accepted'' else a)"
    using assms by (auto simp: next_event_def)
  have s: "pget (absorb e r) ''state'' = PStr (if a \<in> moves then ''accepted'' else a)" by (rule pget_absorbed[OF a(2)])
  have l: "life_of (Some r) \<noteq> LUnknown" by (simp add: life_of_def)
  show "in_state [''accepted'', ''delivered'', ''completed'', ''failed'', ''rejected''] (absorb e r)"
    using s a(1) l by (cases "life_of (Some r)") (auto simp: in_state_def split: if_splits)
  assume "in_state [''accepted'', ''claimed''] (absorb e r)"
  then have "a \<in> moves" using s a(1) l by (cases "life_of (Some r)") (auto simp: in_state_def split: if_splits)
  then have "life_of (Some r) = LWaiting" using a(1) l by (cases "life_of (Some r)") (auto simp: moves_def)
  then show "in_state [''accepted'', ''claimed''] r" by (auto simp: life_of_def in_state_def split: if_splits)
qed

lemma sound_next:
  assumes "sound es" "dget (projection es) mid = Some r" "next_event P mid r e"
  shows "sound (es @ [e])"
proof -
  let ?rs = "projection es"
  have p: "projection (es @ [e]) = dset mid (absorb e r) ?rs"
    unfolding projection_snoc by (rule project_next[OF assms(3,2)])
  obtain a where a: "pget e ''action'' = PStr a" "pget e ''message_id'' = PStr mid" using assms(3) by (auto simp: next_event_def)
  have pend: "waiting_count (dset mid (absorb e r) ?rs) \<le> waiting_count ?rs"
    unfolding waiting_count_def by (rule count_replaced[OF assms(2)]) (rule next_state(2)[OF assms(3)])
  have run: "life_run LUnknown (actions_of m (es @ [e])) = Some (life_of (dget (projection (es @ [e])) m))" for m
  proof (cases "m = mid")
    case True
    have "life_run LUnknown (actions_of mid es) = Some (life_of (Some r))" using assms(1,2) by (simp add: sound_def)
    then show ?thesis using a life_after_next[OF assms(3) a(1)] by (simp add: p actions_of_snoc life_run_append True)
  next
    case False
    then show ?thesis using a(2) assms(1) by (simp add: p actions_of_snoc sound_def)
  qed
  have "(mid, r) \<in> set ?rs" using assms(2) by (rule map_of_SomeD)
  then have body: "\<exists>body. pget r ''text'' = PStr body" using assms(1) by (auto simp: sound_def)
  have "pget r' ''message_id'' = PStr m \<and> (\<exists>body. pget r' ''text'' = PStr body)
      \<and> in_state [''accepted'', ''delivered'', ''completed'', ''failed'', ''rejected''] r'"
    if mem: "(m, r') \<in> set (dset mid (absorb e r) ?rs)" for m r'
  proof -
    consider "m = mid" "r' = absorb e r" | "(m, r') \<in> set ?rs" using dset_in_setD[OF mem] by auto
    then show ?thesis
    proof cases
      case 1
      then show ?thesis using absorbed_id[OF assms(3)] absorbed_text[OF assms(3)] next_state(1)[OF assms(3)] body by simp
    next
      case 2
      then show ?thesis using assms(1) by (auto simp: sound_def)
    qed
  qed
  then show ?thesis using assms(1) pend run by (auto simp: sound_def p)
qed

lemma sound_fresh:
  assumes "sound es" "dget (projection es) mid = None" "fresh_event mid e" "waiting_count (projection es) < max_pending_messages"
  shows "sound (es @ [e])"
proof -
  let ?rs = "projection es"
  have p: "projection (es @ [e]) = ?rs @ [(mid, e)]"
    using assms(2,3) by (simp add: projection_snoc project_fresh dset_fresh keys_def map_of_eq_None_iff)
  have get: "dget (projection (es @ [e])) = (dget ?rs)(mid \<mapsto> e)" using assms(3) by (simp add: projection_snoc project_fresh fun_eq_iff)
  have pend: "waiting_count (?rs @ [(mid, e)]) \<le> max_pending_messages" using assms(4) by (simp add: waiting_count_def)
  have e: "pget e ''message_id'' = PStr mid" "pget e ''action'' = PStr ''accepted''" "pget e ''state'' = PStr ''accepted''"
    "\<exists>body. pget e ''text'' = PStr body" using assms(3) by (auto simp: fresh_event_def)
  have run: "life_run LUnknown (actions_of m (es @ [e])) = Some (life_of (dget (projection (es @ [e])) m))" for m
  proof (cases "m = mid")
    case True
    have "life_run LUnknown (actions_of mid es) = Some LUnknown" using assms(1,2) by (simp add: sound_def life_of_def)
    then show ?thesis using e assms(2) life_after_fresh[OF assms(3)] True
      by (simp add: get actions_of_snoc life_run_append)
  next
    case False
    then show ?thesis using e(1) assms(1) by (simp add: get actions_of_snoc sound_def)
  qed
  have "mid \<notin> set (keys ?rs)" using assms(2) by (simp add: keys_def map_of_eq_None_iff)
  then have "distinct (keys (?rs @ [(mid, e)]))" using assms(1) by (simp add: sound_def)
  moreover have "in_state [''accepted'', ''delivered'', ''completed'', ''failed'', ''rejected''] e" using e(3) by (simp add: in_state_def)
  ultimately show ?thesis using assms(1) pend run e by (auto simp: sound_def p)
qed

lemma sound_fits:
  assumes "sound es" "fits P (projection es) e"
  shows "sound (es @ [e])"
proof -
  obtain mid where m: "case dget (projection es) mid of
       None \<Rightarrow> fresh_event mid e \<and> waiting_count (projection es) < max_pending_messages
     | Some r \<Rightarrow> next_event P mid r e" using assms(2) by (auto simp: fits_def)
  show ?thesis
  proof (cases "dget (projection es) mid")
    case None
    with m show ?thesis using sound_fresh[OF assms(1) None] by simp
  next
    case (Some r)
    with m show ?thesis using sound_next[OF assms(1) Some] by simp
  qed
qed

lemma sound_fits_all: "sound es \<Longrightarrow> fits_all P (projection es) es' \<Longrightarrow> sound (es @ es')"
proof (induction es' arbitrary: es)
  case (Cons e es')
  then have "sound (es @ [e])" using sound_fits[of es P e] by simp
  then show ?case using Cons.IH[of "es @ [e]"] Cons.prems(2) by (simp add: projection_snoc)
qed simp

section \<open>What an operation appends\<close>

definition neat :: "jfile \<Rightarrow> bool" where
  "neat f \<longleftrightarrow> jf_tail f = Clean \<and> sound (inbox_events f)"

definition extends :: "(int \<Rightarrow> string \<Rightarrow> bool) \<Rightarrow> jfile \<Rightarrow> jfile \<Rightarrow> bool" where
  "extends P f f' \<longleftrightarrow> jf_tail f' = Clean \<and> (\<exists>es. inbox_events f' = inbox_events f @ es \<and> fits_all P (inbox_records f) es)"

lemma events_append: "jf_tail f = Clean \<Longrightarrow> inbox_events (append_line e f) = inbox_events f @ [e] \<and> jf_tail (append_line e f) = Clean"
  by (simp add: inbox_events_def append_line_def read_lines_def map_filter_def)

lemma records_append: "jf_tail f = Clean \<Longrightarrow> inbox_records (append_line e f) = project_event e (inbox_records f)"
  by (simp add: inbox_records_def events_append projection_snoc)

lemma extends_refl: "jf_tail f = Clean \<Longrightarrow> extends P f f"
  by (auto simp: extends_def intro: exI[of _ "[]"])

lemma extends_trans: "extends P f g \<Longrightarrow> extends P g h \<Longrightarrow> extends P f h"
  unfolding extends_def by (auto simp: fits_all_append inbox_records_def projection_def)

lemma extends_one: "jf_tail f = Clean \<Longrightarrow> fits P (inbox_records f) e \<Longrightarrow> extends P f (append_line e f)"
  by (auto simp: extends_def events_append intro: exI[of _ "[e]"])

lemma extends_next:
  assumes "jf_tail f = Clean" "dget (inbox_records f) mid = Some r" "next_event P mid r e"
  shows "extends P f (append_line e f) \<and> inbox_records (append_line e f) = dset mid (absorb e r) (inbox_records f)"
proof
  have "fits P (inbox_records f) e" using assms(2,3) unfolding fits_def by (intro exI[of _ mid]) simp
  then show "extends P f (append_line e f)" by (rule extends_one[OF assms(1)])
  show "inbox_records (append_line e f) = dset mid (absorb e r) (inbox_records f)"
    by (simp add: records_append[OF assms(1)] project_next[OF assms(3,2)])
qed

lemma extends_neat: "neat f \<Longrightarrow> extends P f f' \<Longrightarrow> neat f'"
  unfolding neat_def extends_def inbox_records_def using sound_fits_all by fastforce

lemma dset_at: "k \<notin> set (keys xs) \<Longrightarrow> k \<notin> set (keys ys) \<Longrightarrow> dset k v (xs @ (k, r) # ys) = xs @ (k, v) # ys"
  by (induction xs) (auto simp: dset_def map_idI)

lemma change_run:
  assumes "jf_tail f = Clean" "inbox_records f = xs @ rs" "distinct (keys (xs @ rs))"
    "\<And>mid r e. (mid, r) \<in> set rs \<Longrightarrow> change mid r = Some e \<Longrightarrow> next_event P mid r e"
    "change_records change rs f = (rs', f')"
  shows "extends P f f' \<and> inbox_records f' = xs @ rs'"
  using assms
proof (induction rs arbitrary: f xs rs')
  case Nil
  then show ?case by (simp add: extends_refl)
next
  case (Cons p rs)
  obtain mid r where p: "p = (mid, r)" by fastforce
  show ?case
  proof (cases "change mid r")
    case None
    then obtain rs1 where rs1: "change_records change rs f = (rs1, f')" "rs' = (mid, r) # rs1"
      using Cons.prems(5) p by (auto split: prod.splits)
    have "extends P f f' \<and> inbox_records f' = (xs @ [(mid, r)]) @ rs1"
      by (rule Cons.IH[OF Cons.prems(1) _ _ _ rs1(1)]) (use Cons.prems(2-4) p in auto)
    then show ?thesis using rs1(2) by simp
  next
    case (Some e)
    let ?f = "append_line e f"
    obtain rs1 where rs1: "change_records change rs ?f = (rs1, f')" "rs' = (mid, absorb e r) # rs1"
      using Cons.prems(5) p Some by (auto split: prod.splits)
    have next1: "next_event P mid r e" using Cons.prems(4) p Some by simp
    have fresh: "mid \<notin> set (keys xs)" "mid \<notin> set (keys rs)" using Cons.prems(3) p by auto
    then have "dget (inbox_records f) mid = Some r" using Cons.prems(2) p by (simp add: map_add_def map_of_NoneI)
    from extends_next[OF Cons.prems(1) this next1]
    have e: "extends P f ?f" "inbox_records ?f = xs @ (mid, absorb e r) # rs"
      using Cons.prems(2) p dset_at[OF fresh] by simp_all
    have "extends P ?f f' \<and> inbox_records f' = (xs @ [(mid, absorb e r)]) @ rs1"
      by (rule Cons.IH[OF _ _ _ _ rs1(1)]) (use Cons.prems(3,4) p e in \<open>auto simp: extends_def\<close>)
    then show ?thesis using rs1(2) extends_trans[OF e(1)] by simp
  qed
qed

end
