(* ===== verification/Inbox_Steps.thy ===== *)
theory Inbox_Steps
  imports Inbox_Laws
begin

text \<open>
  The operations as steps on the log of one session, and what each of them appends.
\<close>

section \<open>The steps\<close>

text \<open>\<open>cur\<close>: what the session store answers under the lock.\<close>

inductive inbox_step ::
  "(pyfloat \<Rightarrow> string) \<Rightarrow> (string \<Rightarrow> string) \<Rightarrow> string \<Rightarrow> store_error + background_session \<Rightarrow> jfile \<Rightarrow> jfile \<Rightarrow> bool"
  for ft hash sid cur where
  step_enqueue: "enqueue ft hash sid body attempt lease mid uuid before cur now f = (r, f') \<Longrightarrow> inbox_step ft hash sid cur f f'"
| step_enqueue_deferred: "enqueue_deferred ft sid body attempt expected mid uuid first cur now f = (r, f') \<Longrightarrow> inbox_step ft hash sid cur f f'"
| step_claim_next: "claim_next ft hash sid attempt lease cur now now' f = (ro, f') \<Longrightarrow> inbox_step ft hash sid cur f f'"
| step_claim_by_id: "claim_by_id ft hash sid m attempt lease cur now now' f = (ro, f') \<Longrightarrow> inbox_step ft hash sid cur f f'"
| step_peek: "peek_next ft hash sid attempt lease cur f = (ro, f') \<Longrightarrow> inbox_step ft hash sid cur f f'"
| step_waiting: "mark_waiting_recovery ft hash sid attempt lease reason cur now f = (rs, f') \<Longrightarrow> inbox_step ft hash sid cur f f'"
| step_rearm: "rearm_recovery_wait ft sid attempt lease cur now f = (rs, f') \<Longrightarrow> inbox_step ft hash sid cur f f'"
| step_reject: "reject ft hash sid m attempt lease reason now f = (r, f') \<Longrightarrow> inbox_step ft hash sid cur f f'"
| step_acknowledge: "acknowledge_input ft hash sid m attempt lease cur now f = (r, f') \<Longrightarrow> inbox_step ft hash sid cur f f'"
| step_receipts: "receipts ft hash sid cur now f = (rs, f') \<Longrightarrow> inbox_step ft hash sid cur f f'"
| step_settle: "settle_attempt ft hash sid attempt lease delivered completed succeeded cur now now' f = (rs, f') \<Longrightarrow> inbox_step ft hash sid cur f f'"

definition inbox_moves :: "(pyfloat \<Rightarrow> string) \<Rightarrow> (string \<Rightarrow> string) \<Rightarrow> string \<Rightarrow> jfile \<Rightarrow> jfile \<Rightarrow> bool" where
  "inbox_moves ft hash sid f f' \<longleftrightarrow> (\<exists>cur. inbox_step ft hash sid cur f f')"

definition empty_inbox :: jfile where
  "empty_inbox = \<lparr>jf_lines = [], jf_tail = Clean\<rparr>"

section \<open>The live owner and the lock\<close>

definition live :: "(string \<Rightarrow> string) \<Rightarrow> store_error + background_session \<Rightarrow> int \<Rightarrow> string \<Rightarrow> bool" where
  "live hash cur n h \<longleftrightarrow> (\<exists>s. cur = Inr s \<and> bs_status s \<in> set active_statuses \<and> bs_worker_pid s \<noteq> None
     \<and> n = bs_attempt s \<and> h = hash (bs_lease_token s))"

lemma live_ownerD: "live_owner cur attempt lease = Inr u \<Longrightarrow> live hash cur attempt (hash lease)"
  by (cases cur) (auto simp: live_owner_def found_def validate_current_owner_def live_def split: if_splits)

lemma with_lockE:
  assumes "with_lock check act f = (r, f')"
  obtains "f' = f" "\<exists>e. r = Inl e" "\<exists>e. check = Inl e" | "check = Inr ()" "act f = (r, f')"
  using assms by (cases check) (auto simp: with_lock_def)

section \<open>The events of the operations\<close>

lemma accepted_fits: "fresh_event mid (accepted_event mid sid n h body now)" "fresh_event mid (accepted_event mid sid n h body now @ d)"
  by (simp_all add: fresh_event_def accepted_event_def pget_def dget_or_def)

lemma waiting_life: "in_state [''accepted''] r \<Longrightarrow> life_of (Some r) = LWaiting"
  by (simp add: life_of_def)

lemma delivered_life: "in_state [''delivered''] r \<Longrightarrow> life_of (Some r) = LDelivered"
  by (auto simp: life_of_def in_state_def)

lemma deferred_next: "in_state [''accepted''] r \<Longrightarrow> next_event P mid r (deferred_event mid n now)"
  by (simp add: next_event_def deferred_event_def waiting_life moves_def pget_def dget_or_def)

lemma rebound_next: "in_state [''accepted''] r \<Longrightarrow> next_event P mid r (rebound_event (PStr mid) n h now)"
  by (simp add: next_event_def rebound_event_def waiting_life moves_def pget_def dget_or_def)

lemma waiting_next: "in_state [''accepted''] r \<Longrightarrow> a \<in> moves \<Longrightarrow> next_event P mid r (waiting_event a mid n reason now)"
  by (auto simp: next_event_def waiting_event_def waiting_life moves_def pget_def dget_or_def)

lemma delivered_next:
  "in_state [''accepted''] r \<Longrightarrow> P n h \<Longrightarrow> owned_by n h r \<Longrightarrow> next_event P mid r (state_event ''delivered'' (PStr mid) now)"
  by (auto simp: next_event_def state_event_def waiting_life moves_def pget_def dget_or_def)

lemma rejected_next:
  "in_state [''accepted'', ''delivered''] r \<Longrightarrow> next_event P mid r (rejected_receipt reason mid now)"
  by (auto simp: next_event_def rejected_receipt_def state_event_def life_of_def in_state_def moves_def pget_def dget_or_def)

lemma closed_next:
  "in_state [''delivered''] r \<Longrightarrow> a = ''completed'' \<or> a = ''failed'' \<Longrightarrow> dget d ''text'' = None
    \<Longrightarrow> next_event P mid r (state_event a (PStr mid) now @ d)"
  by (auto simp: next_event_def state_event_def delivered_life moves_def pget_def dget_or_def)

text \<open>No operation leaves a message claimed.\<close>

definition held_state :: "payload \<Rightarrow> bool" where
  "held_state r \<longleftrightarrow> in_state [''accepted'', ''delivered'', ''completed'', ''failed'', ''rejected''] r"

lemma neat_record:
  assumes "neat f" "(mid, r) \<in> set (inbox_records f)"
  shows "pget r ''message_id'' = PStr mid \<and> held_state r \<and> (\<exists>body. pget r ''text'' = PStr body) \<and> dget (inbox_records f) mid = Some r"
  using assms by (auto simp: neat_def sound_def inbox_records_def held_state_def keys_def intro: map_of_is_SomeI)

lemma neat_dget: "neat f \<Longrightarrow> dget (inbox_records f) mid = Some r \<Longrightarrow> held_state r \<and> pget r ''message_id'' = PStr mid"
  using neat_record map_of_SomeD by metis

lemma neat_parts: "neat f \<Longrightarrow> jf_tail f = Clean \<and> distinct (keys (inbox_records f))"
  by (simp add: neat_def sound_def inbox_records_def)

lemma not_claimed: "held_state r \<Longrightarrow> \<not> in_state [''claimed''] r"
  "held_state r \<Longrightarrow> in_state [''accepted'', ''claimed''] r \<longleftrightarrow> in_state [''accepted''] r"
  "held_state r \<Longrightarrow> in_state [''accepted'', ''claimed'', ''delivered''] r \<longleftrightarrow> in_state [''accepted'', ''delivered''] r"
  by (auto simp: held_state_def in_state_def)

lemma changes_next:
  assumes "held_state r"
  shows "waiting_change n h reason now mid r = Some e \<Longrightarrow> next_event P mid r e"
    "rearm_change n now mid r = Some e \<Longrightarrow> next_event P mid r e"
    "receipt_change hash s now mid r = Some e \<Longrightarrow> next_event P mid r e"
    "settle_change n h ds cs ok now mid r = Some e \<Longrightarrow> next_event P mid r e"
proof -
  show "waiting_change n h reason now mid r = Some e \<Longrightarrow> next_event P mid r e"
    using waiting_next[of r "''waiting_recovery''" P mid n reason now] not_claimed(2)[OF assms]
    by (auto simp: waiting_change_def moves_def split: if_splits)
  show "rearm_change n now mid r = Some e \<Longrightarrow> next_event P mid r e"
    using waiting_next[of r "''recovery_rearmed''" P mid n "[]" now] by (auto simp: rearm_change_def moves_def split: if_splits)
  show "receipt_change hash s now mid r = Some e \<Longrightarrow> next_event P mid r e"
    using rejected_next[of r P mid _ now] not_claimed(3)[OF assms] by (auto simp: receipt_change_def split: if_splits)
  have a: "in_state [''accepted''] r \<Longrightarrow> in_state [''accepted'', ''delivered''] r" by (simp add: in_state_def)
  show "settle_change n h ds cs ok now mid r = Some e \<Longrightarrow> next_event P mid r e"
    using rejected_next[OF a, of P mid _ now] closed_next[of r _ "[]" P mid now] closed_next[of r _ "[(''error'', _)]" P mid now]
      not_claimed(2)[OF assms]
    by (auto simp: settle_change_def split: if_splits)
qed

lemma change_all:
  assumes "neat f" "\<And>mid r e. held_state r \<Longrightarrow> change mid r = Some e \<Longrightarrow> next_event P mid r e"
    "change_records change (inbox_records f) f = (rs, f')"
  shows "extends P f f' \<and> inbox_records f' = rs"
proof -
  have "extends P f f' \<and> inbox_records f' = [] @ rs"
  proof (rule change_run[OF _ _ _ _ assms(3)])
    show "next_event P mid r e" if "(mid, r) \<in> set (inbox_records f)" "change mid r = Some e" for mid r e
      using neat_record[OF assms(1) that(1)] assms(2) that(2) by blast
  qed (use neat_parts[OF assms(1)] in simp_all)
  then show ?thesis by simp
qed

section \<open>Taking a message\<close>

definition takeable :: "int \<Rightarrow> string \<Rightarrow> payload \<Rightarrow> bool" where
  "takeable n h r \<longleftrightarrow> in_state [''accepted''] r \<and> (is_deferred r \<or> owned_by n h r)"

lemma dget_rebound:
  "dget (absorb (rebound_event m n h now) r) ''message_id'' = Some m"
  "dget (absorb (rebound_event m n h now) r) ''state'' = Some (PStr ''accepted'')"
  "dget (absorb (rebound_event m n h now) r) ''owner_attempt'' = Some (PInt n)"
  "dget (absorb (rebound_event m n h now) r) ''owner_hash'' = Some (PStr h)"
  by (simp_all add: rebound_event_def dget_absorb)

lemma pget_rebound: "pget (absorb (rebound_event m n h now) r) ''message_id'' = m"
  by (simp add: dget_rebound pget_def dget_or_def)

lemma dget_delivered:
  "dget (absorb (state_event ''delivered'' m now) r) ''state'' = Some (PStr ''delivered'')"
  "dget (absorb (state_event ''delivered'' m now) r) ''owner_attempt'' = dget r ''owner_attempt''"
  "dget (absorb (state_event ''delivered'' m now) r) ''owner_hash'' = dget r ''owner_hash''"
  by (simp_all add: state_event_def dget_absorb)

lemma owned_by_rebound: "owned_by n h (absorb (rebound_event m n h now) r)"
  by (simp add: owned_by_def dget_rebound same_int_def pget_def dget_or_def)

lemma rebind_owned: "rebind m n h now (r, f) = (r1, f1) \<Longrightarrow> owned_by n h r1 \<longleftrightarrow> is_deferred r \<or> owned_by n h r"
  by (auto simp: rebind_def Let_def owned_by_rebound split: if_splits)

lemma rebind_id: "rebind m n h now (r, f) = (r1, f1) \<Longrightarrow> pget r ''message_id'' = m \<Longrightarrow> pget r1 ''message_id'' = m"
  by (auto simp: rebind_def Let_def pget_rebound split: if_splits)

text \<open>The event of a delivery, after the message was bound to the worker.\<close>

definition deliver ::
  "(pyfloat \<Rightarrow> string) \<Rightarrow> int \<Rightarrow> string \<Rightarrow> pyfloat \<Rightarrow> pyfloat \<Rightarrow> payload \<Rightarrow> jfile \<Rightarrow> background_input \<times> jfile" where
  "deliver ft n h now now' r f =
     (let (r1, f1) = rebind (pget r ''message_id'') n h now (r, f); e = state_event ''delivered'' (pget r ''message_id'') now'
      in (as_input ft (absorb e r1), append_line e f1))"

lemma claim_from_first:
  "claim_from ft n h now now' rs f =
     (case find (takeable n h) rs of None \<Rightarrow> (None, f) | Some r \<Rightarrow> map_prod Some id (deliver ft n h now now' r f))"
proof (induction rs)
  case (Cons r rs)
  obtain r1 f1 where r1: "rebind (pget r ''message_id'') n h now (r, f) = (r1, f1)" by fastforce
  then have "f1 = f" if "\<not> is_deferred r" using that by (simp add: rebind_def)
  then show ?case
    using Cons.IH rebind_owned[OF r1] rebind_id[OF r1] r1 by (auto simp: takeable_def deliver_def Let_def)
qed simp

lemma rebind_run:
  assumes "neat f" "dget (inbox_records f) mid = Some r" "in_state [''accepted''] r" "rebind (PStr mid) n h now (r, f) = (r1, f1)"
  shows "extends P f f1 \<and> dget (inbox_records f1) mid = Some r1 \<and> in_state [''accepted''] r1 \<and> pget r1 ''text'' = pget r ''text''
    \<and> (\<forall>m. m \<noteq> mid \<longrightarrow> dget (inbox_records f1) m = dget (inbox_records f) m)"
proof (cases "is_deferred r")
  case True
  let ?e = "rebound_event (PStr mid) n h now"
  have e: "next_event P mid r ?e" by (rule rebound_next[OF assms(3)])
  have eq: "r1 = absorb ?e r" "f1 = append_line ?e f" using assms(4) True by (simp_all add: rebind_def Let_def)
  have "extends P f f1 \<and> inbox_records f1 = dset mid r1 (inbox_records f)"
    unfolding eq by (rule extends_next[OF _ assms(2) e]) (use neat_parts[OF assms(1)] in simp)
  moreover have "in_state [''accepted''] r1"
    unfolding eq by (simp add: in_state_def dget_rebound pget_def dget_or_def)
  moreover have "pget r1 ''text'' = pget r ''text''" unfolding eq by (rule absorbed_text[OF e])
  ultimately show ?thesis by simp
next
  case False
  then show ?thesis using assms neat_parts[OF assms(1)] by (simp add: rebind_def extends_refl)
qed

lemma delivery_run:
  assumes "neat f" "dget (inbox_records f) mid = Some r" "takeable n h r" "P n h" "deliver ft n h now now' r f = (i, f')"
  shows "extends P f f'" "\<exists>r'. dget (inbox_records f') mid = Some r' \<and> in_state [''delivered''] r' \<and> owned_by n h r'
      \<and> pget r' ''text'' = pget r ''text'' \<and> i = as_input ft r' \<and> pget r' ''message_id'' = PStr mid"
    "m \<noteq> mid \<Longrightarrow> dget (inbox_records f') m = dget (inbox_records f) m"
proof -
  let ?e = "state_event ''delivered'' (PStr mid) now'"
  have id: "pget r ''message_id'' = PStr mid" using neat_dget[OF assms(1,2)] by blast
  obtain r1 f1 where r1: "rebind (PStr mid) n h now (r, f) = (r1, f1)" by fastforce
  have acc: "in_state [''accepted''] r" using assms(3) by (simp add: takeable_def)
  note bound = rebind_run[OF assms(1,2) acc r1, of P]
  have eq: "i = as_input ft (absorb ?e r1)" "f' = append_line ?e f1" using assms(5) r1 id by (simp_all add: deliver_def Let_def)
  have own: "owned_by n h r1" using rebind_owned[OF r1] assms(3) by (simp add: takeable_def)
  have e: "next_event P mid r1 ?e" by (rule delivered_next[where P = P and n = n and h = h, OF _ assms(4) own]) (use bound in simp)
  have neat1: "neat f1" using extends_neat[OF assms(1)] bound by blast
  have x: "extends P f1 f' \<and> inbox_records f' = dset mid (absorb ?e r1) (inbox_records f1)"
    unfolding eq by (rule extends_next[OF _ _ e]) (use neat_parts[OF neat1] bound in simp_all)
  then show "extends P f f'" using extends_trans bound by blast
  have "in_state [''delivered''] (absorb ?e r1)" "owned_by n h (absorb ?e r1)"
    using own by (simp_all add: in_state_def owned_by_def dget_delivered pget_def dget_or_def)
  then show "\<exists>r'. dget (inbox_records f') mid = Some r' \<and> in_state [''delivered''] r' \<and> owned_by n h r'
      \<and> pget r' ''text'' = pget r ''text'' \<and> i = as_input ft r' \<and> pget r' ''message_id'' = PStr mid"
    using x eq absorbed_text[OF e] absorbed_id[OF e] bound by (intro exI[of _ "absorb ?e r1"]) simp
  show "m \<noteq> mid \<Longrightarrow> dget (inbox_records f') m = dget (inbox_records f) m" using x bound by simp
qed

lemma first_record:
  assumes "neat f" "find Q (by_acceptance (inbox_records f)) = Some r"
  obtains mid where "dget (inbox_records f) mid = Some r" "pget r ''message_id'' = PStr mid" "Q r"
    "\<forall>r' \<in> set (map snd (inbox_records f)). Q r' \<longrightarrow> accepted_at r \<le> accepted_at r'"
proof -
  let ?rs = "by_acceptance (inbox_records f)"
  obtain i where i: "i < length ?rs" "?rs ! i = r" "Q r" "\<forall>j<i. \<not> Q (?rs ! j)"
    using assms(2) unfolding find_Some_iff by blast
  have "r \<in> set ?rs" using nth_mem[OF i(1)] i(2) by simp
  then have "r \<in> set (map snd (inbox_records f))" by (simp add: by_acceptance_def)
  then obtain mid where mid: "(mid, r) \<in> set (inbox_records f)" by auto
  have "accepted_at r \<le> accepted_at r'" if "r' \<in> set (map snd (inbox_records f))" "Q r'" for r'
  proof -
    have "r' \<in> set ?rs" using that(1) by (simp add: by_acceptance_def)
    then obtain j where j: "j < length ?rs" "?rs ! j = r'" by (auto simp: in_set_conv_nth)
    then have "i \<le> j" using i(4) that(2) by (metis not_less)
    moreover have "sorted (map accepted_at ?rs)" by (simp add: by_acceptance_def)
    ultimately have "map accepted_at ?rs ! i \<le> map accepted_at ?rs ! j" using j(1) by (intro sorted_nth_mono) simp_all
    then show ?thesis using i(1,2) j by simp
  qed
  then show thesis using that[of mid] neat_record[OF assms(1) mid] i(3) by blast
qed

lemma claim_next_run:
  assumes "neat f" "claim_next ft hash sid n lease cur now now' f = (ro, f')"
  shows "extends (live hash cur) f f'"
  using assms(2) unfolding claim_next_def
proof (rule with_lockE)
  assume c: "bindE (inbox_paths sid) (\<lambda>_. live_owner cur n lease) = Inr ()"
    and run: "map_prod Inr id (claim_from ft n (hash lease) now now' (by_acceptance (inbox_records f)) f) = (ro, f')"
  have live: "live hash cur n (hash lease)" using c live_ownerD by (auto simp: bindE_eq_Inr_iff)
  show ?thesis
  proof (cases "find (takeable n (hash lease)) (by_acceptance (inbox_records f))")
    case None
    then show ?thesis using run neat_parts[OF assms(1)] by (simp add: claim_from_first extends_refl)
  next
    case (Some r)
    obtain mid where mid: "dget (inbox_records f) mid = Some r" "takeable n (hash lease) r" using first_record[OF assms(1) Some] by metis
    obtain i where "deliver ft n (hash lease) now now' r f = (i, f')" using run Some by (auto simp: claim_from_first map_prod_def split: prod.splits)
    then show ?thesis using delivery_run(1)[where P = "live hash cur", OF assms(1) mid live] by blast
  qed
qed (use neat_parts[OF assms(1)] in \<open>simp add: extends_refl\<close>)

section \<open>Every operation appends what fits\<close>

lemma extends_id: "neat f \<Longrightarrow> extends P f f"
  by (simp add: extends_refl neat_parts)

lemma extends_event:
  "neat f \<Longrightarrow> dget (inbox_records f) mid = Some r \<Longrightarrow> next_event P mid r e \<Longrightarrow> extends P f (append_line e f)"
  by (rule conjunct1[OF extends_next]) (simp_all add: neat_parts)

lemma extends_accept:
  assumes "neat f" "dget (inbox_records f) mid = None" "fresh_event mid e" "waiting_count (inbox_records f) < max_pending_messages"
  shows "extends P f (append_line e f)"
proof (rule extends_one)
  show "jf_tail f = Clean" using neat_parts[OF assms(1)] by simp
  show "fits P (inbox_records f) e" unfolding fits_def by (intro exI[of _ mid]) (simp add: assms)
qed

lemma accept_live_run:
  assumes "neat f" "accept_live ft hash sid body attempt lease mid cur now f = (r, f')"
  shows "extends P f f'"
  using assms accepted_fits(1) unfolding accept_live_def
  by (auto simp: Let_def extends_id not_le elim!: with_lockE intro: extends_accept split: option.splits if_splits)

lemma accept_deferred_run:
  assumes "neat f" "accept_deferred ft sid body attempt expected mid cur now f = (r, f')"
  shows "extends P f f'"
  using assms accepted_fits(2) deferred_next unfolding accept_deferred_def
  by (auto simp: Let_def extends_id not_le elim!: with_lockE intro: extends_accept extends_event split: option.splits if_splits)

lemma claim_by_id_run:
  assumes "neat f" "claim_by_id ft hash sid mid n lease cur now now' f = (ro, f')"
  shows "extends (live hash cur) f f'"
  using assms(2) unfolding claim_by_id_def
proof (rule with_lockE)
  assume c: "bindE (inbox_paths sid) (\<lambda>_. live_owner cur n lease) = Inr ()"
    and run: "(case dget (inbox_records f) mid of
          None \<Rightarrow> (Inr None, f)
        | Some r \<Rightarrow>
            (if \<not> in_state [''accepted''] r then (Inr None, f)
             else let (r1, f1) = rebind (PStr mid) n (hash lease) now (r, f) in
               if \<not> owned_by n (hash lease) r1 then (Inr None, f1)
               else let e = state_event ''delivered'' (PStr mid) now' in (Inr (Some (as_input ft (absorb e r1))), append_line e f1))) = (ro, f')"
  have live: "live hash cur n (hash lease)" using c live_ownerD by (auto simp: bindE_eq_Inr_iff)
  show ?thesis
  proof (cases "\<exists>r. dget (inbox_records f) mid = Some r \<and> in_state [''accepted''] r")
    case False
    then show ?thesis using run extends_id[OF assms(1)] by (auto split: option.splits)
  next
    case True
    then obtain r where r: "dget (inbox_records f) mid = Some r" "in_state [''accepted''] r" by blast
    obtain r1 f1 where r1: "rebind (PStr mid) n (hash lease) now (r, f) = (r1, f1)" by fastforce
    note bound = rebind_run[where P = "live hash cur", OF assms(1) r r1]
    show ?thesis
    proof (cases "owned_by n (hash lease) r1")
      case False
      then have "f' = f1" using run r r1 by simp
      then show ?thesis using bound by simp
    next
      case True
      then have "takeable n (hash lease) r" using rebind_owned[OF r1] r(2) by (simp add: takeable_def)
      moreover have "deliver ft n (hash lease) now now' r f = (as_input ft (absorb (state_event ''delivered'' (PStr mid) now') r1), f')"
        using run r r1 True neat_dget[OF assms(1) r(1)] by (simp add: deliver_def Let_def)
      ultimately show ?thesis using delivery_run(1)[where P = "live hash cur", OF assms(1) r(1) _ live] by blast
    qed
  qed
qed (simp add: extends_id assms(1))

lemma inputs_of_run:
  assumes "inputs_of ft (change_records change (inbox_records f) f) = (rs, f')" "neat f"
    "\<And>mid r e. held_state r \<Longrightarrow> change mid r = Some e \<Longrightarrow> next_event P mid r e"
  shows "extends P f f' \<and> rs = Inr (map (as_input ft) (by_acceptance (inbox_records f')))"
proof -
  obtain rs1 where "change_records change (inbox_records f) f = (rs1, f')" "rs = Inr (map (as_input ft) (by_acceptance rs1))"
    using assms(1) by (auto simp: inputs_of_def split: prod.splits)
  then show ?thesis using change_all[OF assms(2,3)] by simp
qed

text \<open>An operation that answers with the receipts answers with those of the log it leaves.\<close>

definition answers_log :: "(pyfloat \<Rightarrow> string) \<Rightarrow> inbox_error + background_input list \<Rightarrow> jfile \<Rightarrow> bool" where
  "answers_log ft rs f \<longleftrightarrow> (\<forall>is. rs = Inr is \<longrightarrow> is = map (as_input ft) (by_acceptance (inbox_records f)))"

lemma mark_waiting_run:
  assumes "neat f" "mark_waiting_recovery ft hash sid attempt lease reason cur now f = (rs, f')"
  shows "extends P f f' \<and> answers_log ft rs f'"
  using assms(2) unfolding mark_waiting_recovery_def Let_def
proof (rule with_lockE)
  assume "inputs_of ft (change_records (waiting_change attempt (hash lease) (if take 240 (py_strip reason) = [] then
      ''Waiting for explicit recovery action.'' else take 240 (py_strip reason)) now) (inbox_records f) f) = (rs, f')"
  from inputs_of_run[OF this assms(1) changes_next(1)] show ?thesis by (simp add: answers_log_def)
qed (auto simp: extends_id assms(1) answers_log_def)

lemma rearm_run:
  assumes "neat f" "rearm_recovery_wait ft sid attempt lease cur now f = (rs, f')"
  shows "extends P f f' \<and> answers_log ft rs f'"
  using assms(2) unfolding rearm_recovery_wait_def
proof (rule with_lockE)
  assume "inputs_of ft (change_records (rearm_change attempt now) (inbox_records f) f) = (rs, f')"
  from inputs_of_run[OF this assms(1) changes_next(2)] show ?thesis by (simp add: answers_log_def)
qed (auto simp: extends_id assms(1) answers_log_def)

lemma receipts_run:
  assumes "neat f" "receipts ft hash sid cur now f = (rs, f')"
  shows "extends P f f' \<and> answers_log ft rs f'"
  using assms(2) unfolding receipts_def
proof (rule with_lockE)
  assume run: "inputs_of ft (case cur of Inl _ \<Rightarrow> (inbox_records f, f)
    | Inr s \<Rightarrow> change_records (receipt_change hash s now) (inbox_records f) f) = (rs, f')"
  show ?thesis
  proof (cases cur)
    case (Inl e)
    then show ?thesis using run extends_id[OF assms(1)] by (auto simp: inputs_of_def answers_log_def)
  next
    case (Inr s)
    then have "inputs_of ft (change_records (receipt_change hash s now) (inbox_records f) f) = (rs, f')" using run by simp
    from inputs_of_run[OF this assms(1) changes_next(3)] show ?thesis by (simp add: answers_log_def)
  qed
qed (auto simp: extends_id assms(1) answers_log_def)

lemma settle_run:
  assumes "neat f" "settle_attempt ft hash sid attempt lease delivered completed succeeded cur now now' f = (rs, f')"
  shows "extends P f f' \<and> answers_log ft rs f'"
  using assms(2) unfolding settle_attempt_def Let_def
proof (rule with_lockE)
  let ?change = "settle_change attempt (hash lease) delivered completed succeeded now"
  assume run: "(if \<exists>(mid, r) \<in> set (inbox_records f). ?change mid r \<noteq> None
    then inputs_of ft (change_records ?change (inbox_records f) f) else receipts ft hash sid cur now' f) = (rs, f')"
  show ?thesis
  proof (cases "\<exists>(mid, r) \<in> set (inbox_records f). ?change mid r \<noteq> None")
    case True
    then have "inputs_of ft (change_records ?change (inbox_records f) f) = (rs, f')" using run by simp
    from inputs_of_run[OF this assms(1) changes_next(4)] show ?thesis by (simp add: answers_log_def)
  next
    case False
    then show ?thesis using run receipts_run[OF assms(1)] by simp
  qed
qed (auto simp: extends_id assms(1) answers_log_def)

lemma reject_run:
  assumes "neat f" "reject ft hash sid mid attempt lease reason now f = (r, f')"
  shows "extends P f f'"
  using assms(2) unfolding reject_def
proof (rule with_lockE)
  assume run: "(case dget (inbox_records f) mid of
          None \<Rightarrow> (Inl (InboxKey (''Unknown background input '' @ mid)), f)
        | Some r \<Rightarrow>
            (if \<not> in_state [''accepted'', ''claimed'', ''delivered''] r \<or> \<not> owned_by attempt (hash lease) r
             then (Inl (InboxTransition ''Input is not pending for this worker attempt''), f)
             else let e = state_event ''rejected'' (PStr mid) now @ [(''error'', PStr (take 240 reason))]
               in (Inr (as_input ft (absorb e r)), append_line e f))) = (r, f')"
  have "next_event P mid q (state_event ''rejected'' (PStr mid) now @ [(''error'', PStr (take 240 reason))])"
    if "dget (inbox_records f) mid = Some q" "in_state [''accepted'', ''claimed'', ''delivered''] q" for q
    using rejected_next[of q P mid "take 240 reason" now] not_claimed(3) neat_dget[OF assms(1) that(1)] that(2)
    by (simp add: rejected_receipt_def)
  then show ?thesis
    using run extends_id[OF assms(1)] extends_event[OF assms(1)] by (auto simp: Let_def split: option.splits if_splits)
qed (simp add: extends_id assms(1))

lemma acknowledge_run:
  assumes "neat f" "acknowledge_input ft hash sid mid attempt lease cur now f = (r, f')"
  shows "f' = f"
proof -
  have "\<not> in_state [''claimed''] q" if "dget (inbox_records f) mid = Some q" for q
    using neat_dget[OF assms(1) that] not_claimed(1) by blast
  then show ?thesis using assms(2) unfolding acknowledge_input_def
    by (auto elim!: with_lockE split: option.splits if_splits)
qed

theorem step_extends:
  assumes "inbox_step ft hash sid cur f f'" "neat f"
  shows "extends (live hash cur) f f'"
  using assms(1)
proof cases
  case step_enqueue
  then show ?thesis using accept_live_run[OF assms(2)] extends_id[OF assms(2)]
    by (auto simp: enqueue_def Let_def elim!: with_lockE)
next
  case step_enqueue_deferred
  then show ?thesis using accept_deferred_run[OF assms(2)] extends_id[OF assms(2)]
    by (auto simp: enqueue_deferred_def Let_def elim!: with_lockE)
next
  case step_claim_next
  then show ?thesis using claim_next_run[OF assms(2)] by blast
next
  case step_claim_by_id
  then show ?thesis using claim_by_id_run[OF assms(2)] by blast
next
  case step_peek
  then show ?thesis using extends_id[OF assms(2)] by (auto simp: peek_next_def elim!: with_lockE)
next
  case step_waiting
  then show ?thesis using mark_waiting_run[OF assms(2)] by blast
next
  case step_rearm
  then show ?thesis using rearm_run[OF assms(2)] by blast
next
  case step_reject
  then show ?thesis using reject_run[OF assms(2)] by blast
next
  case step_acknowledge
  then show ?thesis using acknowledge_run[OF assms(2)] extends_id[OF assms(2)] by blast
next
  case step_receipts
  then show ?thesis using receipts_run[OF assms(2)] by blast
next
  case step_settle
  then show ?thesis using settle_run[OF assms(2)] by blast
qed

lemma moves_neat: "(inbox_moves ft hash sid)\<^sup>*\<^sup>* f f' \<Longrightarrow> neat f \<Longrightarrow> neat f'"
  by (induction rule: rtranclp_induct) (auto simp: inbox_moves_def dest: step_extends extends_neat)

lemma empty_neat: "neat empty_inbox"
  by (simp add: neat_def empty_inbox_def inbox_events_def read_lines_def map_filter_simps sound_Nil)

end
