(* ===== verification/Inbox_Properties.thy ===== *)
theory Inbox_Properties
  imports Inbox_Steps
begin

text \<open>
  The input queue of a background session: the life of a message, who takes it and in which order, what the receipts
  say, and what a short write loses.
\<close>

section \<open>Helpers\<close>

lemma life_run_past_accept: "life_run l as = Some l' \<Longrightarrow> l \<noteq> LUnknown \<Longrightarrow> ''accepted'' \<notin> set as \<and> l' \<noteq> LUnknown"
proof (induction as arbitrary: l)
  case (Cons a as)
  then obtain l1 where l1: "life_step a l = Some l1" "life_run l1 as = Some l'" by (auto simp: bind_eq_Some_conv)
  then have "a \<noteq> ''accepted'' \<and> l1 \<noteq> LUnknown" using Cons.prems(2) by (cases l) (auto simp: moves_def split: if_splits)
  then show ?case using Cons.IH[OF l1(2)] by auto
qed simp

lemma life_run_past_delivery: "life_run l as = Some l' \<Longrightarrow> l \<in> {LDelivered, LClosed} \<Longrightarrow> ''delivered'' \<notin> set as"
proof (induction as arbitrary: l)
  case (Cons a as)
  then obtain l1 where l1: "life_step a l = Some l1" "life_run l1 as = Some l'" by (auto simp: bind_eq_Some_conv)
  then have "a \<noteq> ''delivered'' \<and> l1 \<in> {LDelivered, LClosed}" using Cons.prems(2) by (auto split: if_splits)
  then show ?case using Cons.IH[OF l1(2)] by auto
qed simp

lemma life_run_once:
  assumes "life_run l as = Some l'"
  shows "count_list as ''accepted'' \<le> 1 \<and> count_list as ''delivered'' \<le> 1"
  using assms
proof (induction as arbitrary: l)
  case (Cons a as)
  then obtain l1 where l1: "life_step a l = Some l1" "life_run l1 as = Some l'" by (auto simp: bind_eq_Some_conv)
  have "''accepted'' \<notin> set as" if "a = ''accepted''"
    using life_run_past_accept[OF l1(2)] l1(1) that by (cases l) (auto simp: moves_def split: if_splits)
  moreover have "''delivered'' \<notin> set as" if "a = ''delivered''"
    using life_run_past_delivery[OF l1(2)] l1(1) that by (cases l) (auto simp: moves_def split: if_splits)
  ultimately show ?case using Cons.IH[OF l1(2)] by (auto simp: count_list_0_iff)
qed simp

lemma next_other: "next_event P mid r e \<Longrightarrow> pget e ''message_id'' \<noteq> PStr m \<Longrightarrow> m \<noteq> mid"
  by (auto simp: next_event_def)

text \<open>A record that is delivered after fitting events was so before, or was waiting and bound to the live owner.\<close>

lemma new_delivery:
  assumes "sound es" "fits_all P (projection es) es'" "dget (projection (es @ es')) mid = Some r'" "in_state [''delivered''] r'"
  shows "(\<exists>r. dget (projection es) mid = Some r \<and> in_state [''delivered''] r)
    \<or> (\<exists>n h. P n h \<and> owned_by n h r')"
  using assms
proof (induction es' arbitrary: r' rule: rev_induct)
  case (snoc e es')
  have before: "fits_all P (projection es) es'" "fits P (projection (es @ es')) e"
    using snoc.prems(2) by (simp_all add: fits_all_append projection_def)
  let ?rs = "projection (es @ es')"
  have after: "projection (es @ es' @ [e]) = project_event e ?rs" using projection_snoc[of "es @ es'" e] by simp
  obtain m where m: "case dget ?rs m of None \<Rightarrow> fresh_event m e \<and> waiting_count ?rs < max_pending_messages
     | Some r \<Rightarrow> next_event P m r e" using before(2) by (auto simp: fits_def)
  show ?case
  proof (cases "dget ?rs m")
    case None
    then have "project_event e ?rs = dset m e ?rs" "\<not> in_state [''delivered''] e"
      using m by (auto simp: project_fresh fresh_event_def in_state_def)
    then have "dget ?rs mid = Some r'" using snoc.prems(3,4) after by (auto split: if_splits)
    then show ?thesis using snoc.IH[OF snoc.prems(1) before(1)] snoc.prems(4) by blast
  next
    case (Some r)
    then have n: "next_event P m r e" using m by simp
    have p: "project_event e ?rs = dset m (absorb e r) ?rs" by (rule project_next[OF n Some])
    show ?thesis
    proof (cases "m = mid")
      case False
      then have "dget ?rs mid = Some r'" using snoc.prems(3) after p by simp
      then show ?thesis using snoc.IH[OF snoc.prems(1) before(1)] snoc.prems(4) by blast
    next
      case True
      then have r': "r' = absorb e r" using snoc.prems(3) after p by simp
      obtain a where a: "pget e ''action'' = PStr a" using n by (auto simp: next_event_def)
      have "life_step a (life_of (Some r)) = Some LDelivered"
        using life_after_next[OF n a] delivered_life snoc.prems(4) r' by simp
      then have "a = ''delivered''" by (cases "life_of (Some r)") (auto split: if_splits)
      then obtain k h where "P k h" "owned_by k h r" "dget e ''owner_attempt'' = None" "dget e ''owner_hash'' = None"
        using n a by (auto simp: next_event_def)
      then show ?thesis unfolding r' by (auto simp: owned_by_def pget_absorb)
    qed
  qed
qed simp

lemma change_records_eq:
  "fst (change_records change rs f) = map (\<lambda>(mid, r). (mid, case change mid r of None \<Rightarrow> r | Some e \<Rightarrow> absorb e r)) rs"
  by (induction change rs f rule: change_records.induct) (auto split: option.splits prod.splits)

lemma change_records_none:
  "(\<And>mid r. (mid, r) \<in> set rs \<Longrightarrow> change mid r = None) \<Longrightarrow> change_records change rs f = (rs, f)"
  by (induction change rs f rule: change_records.induct) (auto split: option.splits)

lemma rejected_state: "\<not> in_state [''accepted'', ''claimed'', ''delivered''] (absorb (rejected_receipt reason mid now) r)"
  by (simp add: in_state_def pget_absorb rejected_receipt_def state_event_def)

lemma receipt_change_ends:
  assumes "r' = (case receipt_change hash s now mid r of None \<Rightarrow> r | Some e \<Rightarrow> absorb e r)"
  shows "receipt_change hash s now' mid r' = None"
  using assms rejected_state[of _ mid now r] by (auto simp: receipt_change_def split: if_splits)

lemma text_field_shown: "pget r k = PStr body \<Longrightarrow> text_field ft r k d = body"
  by (cases "dget r k") (simp_all add: pget_def dget_or_def text_field_def)

section \<open>Properties\<close>

text \<open>
  C14. Every message lives its life once. Whatever the managers and the workers of a session do, the events of a message in the log
  are accepted, moved between owners any number of times, and then delivered and closed, or rejected; it is accepted
  once and delivered at most once, its record shows the state it has reached, and at most 64 messages wait.
\<close>

theorem inbox_life:
  assumes "(inbox_moves ft hash sid)\<^sup>*\<^sup>* empty_inbox f"
  shows "life_run LUnknown (actions_of mid (inbox_events f)) = Some (life_of (dget (inbox_records f) mid))
    \<and> count_list (actions_of mid (inbox_events f)) ''accepted'' \<le> 1
    \<and> count_list (actions_of mid (inbox_events f)) ''delivered'' \<le> 1
    \<and> waiting_count (inbox_records f) \<le> 64"
proof -
  have "sound (inbox_events f)" using moves_neat[OF assms empty_neat] by (simp add: neat_def)
  then have s: "life_run LUnknown (actions_of mid (inbox_events f)) = Some (life_of (dget (inbox_records f) mid))"
    "waiting_count (inbox_records f) \<le> 64"
    by (simp_all add: sound_def inbox_records_def max_pending_messages_def)
  then show ?thesis using life_run_once[OF s(1)] by blast
qed

text \<open>
  C15. Only the live owner takes delivery. When an operation brings a message to the delivered state, the store showed
  the session active under that very attempt and lease, with a worker, and the message is bound to them.
\<close>

theorem inbox_fenced:
  assumes "(inbox_moves ft hash sid)\<^sup>*\<^sup>* empty_inbox f" "inbox_step ft hash sid cur f f'"
    "dget (inbox_records f') mid = Some r'" "in_state [''delivered''] r'"
  shows "(\<exists>r. dget (inbox_records f) mid = Some r \<and> in_state [''delivered''] r)
    \<or> (\<exists>s. cur = Inr s \<and> bs_status s \<in> set active_statuses \<and> bs_worker_pid s \<noteq> None
        \<and> owned_by (bs_attempt s) (hash (bs_lease_token s)) r')"
proof -
  have neat: "neat f" by (rule moves_neat[OF assms(1) empty_neat])
  obtain es where es: "inbox_events f' = inbox_events f @ es" "fits_all (live hash cur) (inbox_records f) es"
    using step_extends[OF assms(2) neat] by (auto simp: extends_def)
  have "sound (inbox_events f)" using neat by (simp add: neat_def)
  from new_delivery[OF this es(2)[unfolded inbox_records_def] _ assms(4)] assms(3) es(1) show ?thesis
    unfolding inbox_records_def live_def by auto
qed

text \<open>
  The live owner takes the oldest message. A claim by the owner the store shows never fails: it answers nothing,
  and writes nothing, exactly when no message waits for this owner; otherwise it delivers, with its text and bound to the
  owner, a message that no other waiting for it precedes in time of acceptance, and leaves all others as they are.
\<close>

theorem inbox_claim:
  assumes "(inbox_moves ft hash sid)\<^sup>*\<^sup>* empty_inbox f" "safe_id sid" "live_owner cur n lease = Inr ()"
  shows "case claim_next ft hash sid n lease cur now now' f of
      (Inl _, _) \<Rightarrow> False
    | (Inr None, f') \<Rightarrow> f' = f \<and> (\<forall>r \<in> set (map snd (inbox_records f)). \<not> takeable n (hash lease) r)
    | (Inr (Some i), f') \<Rightarrow> \<exists>mid r r'. dget (inbox_records f) mid = Some r \<and> takeable n (hash lease) r
        \<and> (\<forall>q \<in> set (map snd (inbox_records f)). takeable n (hash lease) q \<longrightarrow> accepted_at r \<le> accepted_at q)
        \<and> dget (inbox_records f') mid = Some r' \<and> in_state [''delivered''] r' \<and> owned_by n (hash lease) r'
        \<and> bi_message_id i = mid \<and> PStr (bi_text i) = pget r ''text''
        \<and> (\<forall>m. m \<noteq> mid \<longrightarrow> dget (inbox_records f') m = dget (inbox_records f) m)"
proof -
  have neat: "neat f" by (rule moves_neat[OF assms(1) empty_neat])
  let ?found = "find (takeable n (hash lease)) (by_acceptance (inbox_records f))"
  have run: "claim_next ft hash sid n lease cur now now' f
    = map_prod Inr id (case ?found of None \<Rightarrow> (None, f) | Some r \<Rightarrow> map_prod Some id (deliver ft n (hash lease) now now' r f))"
    using assms(2,3) by (simp add: claim_next_def with_lock_def inbox_paths_def guardE_def claim_from_first)
  show ?thesis
  proof (cases ?found)
    case None
    then have "\<forall>r \<in> set (map snd (inbox_records f)). \<not> takeable n (hash lease) r"
      unfolding find_None_iff by (simp add: by_acceptance_def)
    then show ?thesis unfolding run None by simp
  next
    case (Some r)
    obtain mid where mid: "dget (inbox_records f) mid = Some r" "pget r ''message_id'' = PStr mid" "takeable n (hash lease) r"
      "\<forall>q \<in> set (map snd (inbox_records f)). takeable n (hash lease) q \<longrightarrow> accepted_at r \<le> accepted_at q"
      by (rule first_record[OF neat Some])
    obtain i f' where d: "deliver ft n (hash lease) now now' r f = (i, f')" by fastforce
    note taken = delivery_run[where P = "\<lambda>_ _. True", OF neat mid(1,3) TrueI d]
    obtain r' where r': "dget (inbox_records f') mid = Some r'" "in_state [''delivered''] r'" "owned_by n (hash lease) r'"
      "pget r' ''text'' = pget r ''text''" "i = as_input ft r'" "pget r' ''message_id'' = PStr mid" using taken(2) by blast
    obtain body where body: "pget r ''text'' = PStr body" using neat_record[OF neat map_of_SomeD[OF mid(1)]] by blast
    have shown: "bi_message_id i = mid" "bi_text i = body" using r'(4,5,6) body by (simp_all add: as_input_def text_field_shown)
    have "claim_next ft hash sid n lease cur now now' f = (Inr (Some i), f')" unfolding run Some by (simp add: d)
    moreover have "\<forall>m. m \<noteq> mid \<longrightarrow> dget (inbox_records f') m = dget (inbox_records f) m" using taken(3) by blast
    ultimately show ?thesis using mid r'(1-3) shown body
      by (simp only: prod.case sum.case option.case) (intro exI[of _ mid] exI[of _ r] exI[of _ r'] conjI; simp)
  qed
qed

text \<open>
  C16. Receipts are the truth. They are the records of the log they leave; a message they still show as waiting or delivered is in
  the hands of the current owner of an active session, or waits for the next owner of a session that is not deleted;
  and reading them again changes nothing.
\<close>

theorem inbox_receipts:
  assumes "(inbox_moves ft hash sid)\<^sup>*\<^sup>* empty_inbox f" "safe_id sid" "receipts ft hash sid (Inr s) now f = (rs, f')"
  shows "rs = Inr (map (as_input ft) (by_acceptance (inbox_records f')))
    \<and> (\<forall>(mid, r) \<in> set (inbox_records f'). life_of (Some r) = LClosed
        \<or> is_deferred r \<and> bs_status s \<noteq> SDeleted
        \<or> \<not> is_deferred r \<and> bs_status s \<in> set active_statuses \<and> owned_by (bs_attempt s) (hash (bs_lease_token s)) r)
    \<and> receipts ft hash sid (Inr s) now' f' = (rs, f')"
proof -
  have neat: "neat f" by (rule moves_neat[OF assms(1) empty_neat])
  obtain rs1 where run: "change_records (receipt_change hash s now) (inbox_records f) f = (rs1, f')"
    "rs = Inr (map (as_input ft) (by_acceptance rs1))"
    using assms(2,3) by (auto simp: receipts_def with_lock_def inbox_paths_def inputs_of_def guardE_def split: prod.splits)
  have rec: "inbox_records f' = rs1" using change_all[OF neat changes_next(3) run(1)] by simp
  have settled: "receipt_change hash s t mid r = None" if m: "(mid, r) \<in> set (inbox_records f')" for mid r t
  proof -
    have "rs1 = fst (change_records (receipt_change hash s now) (inbox_records f) f)" using run(1) by simp
    then obtain q where "r = (case receipt_change hash s now mid q of None \<Rightarrow> q | Some e \<Rightarrow> absorb e q)"
      using m rec by (auto simp: change_records_eq)
    then show ?thesis by (rule receipt_change_ends)
  qed
  have "receipts ft hash sid (Inr s) now' f' = (rs, f')"
    using assms(2) run(2) rec settled
    by (simp add: receipts_def with_lock_def inbox_paths_def inputs_of_def guardE_def change_records_none)
  moreover have "life_of (Some r) = LClosed \<or> is_deferred r \<and> bs_status s \<noteq> SDeleted
      \<or> \<not> is_deferred r \<and> bs_status s \<in> set active_statuses \<and> owned_by (bs_attempt s) (hash (bs_lease_token s)) r"
    if "(mid, r) \<in> set (inbox_records f')" for mid r
    using settled[OF that, of now] by (auto simp: receipt_change_def life_of_def in_state_def split: if_splits)
  ultimately show ?thesis using run(2) rec by auto
qed

text \<open>
  C17. What a short write costs. The writer ignores how much of a line the system took. Behind an unfinished line the
  next event is lost although its operation succeeds: a message delivered to its owner there is not in the log as
  delivered, and the owner's next claim delivers it again.
\<close>

theorem inbox_short_write:
  assumes "jf_tail f = Torn" "dget (inbox_records f) mid = Some r" "\<not> is_deferred r"
    "claim_by_id ft hash sid mid n lease cur now now' f = (Inr (Some i), f')"
  shows "bi_state i = ''delivered'' \<and> inbox_records f' = inbox_records f
    \<and> (\<exists>f''. claim_by_id ft hash sid mid n lease cur now now' f' = (Inr (Some i), f''))"
proof -
  let ?e = "state_event ''delivered'' (PStr mid) now'"
  have lost: "inbox_records (append_line e f) = inbox_records f" for e
    using assms(1) by (simp add: inbox_records_def inbox_events_def read_lines_def append_line_def map_filter_def)
  have check: "bindE (inbox_paths sid) (\<lambda>_. live_owner cur n lease) = Inr ()"
    and r: "in_state [''accepted''] r" "owned_by n (hash lease) r" "i = as_input ft (absorb ?e r)" "f' = append_line ?e f"
    using assms(2-4) unfolding claim_by_id_def
    by (auto simp: rebind_def Let_def elim!: with_lockE split: if_splits)
  have "bi_state i = ''delivered''"
    unfolding r(3) by (simp add: as_input_def input_states_def dget_or_def dget_delivered)
  moreover have "inbox_records f' = inbox_records f" unfolding r(4) by (rule lost)
  ultimately show ?thesis using check r assms(2,3) by (simp add: claim_by_id_def with_lock_def rebind_def Let_def)
qed

section \<open>Witnesses\<close>

definition demo_digest :: "string \<Rightarrow> string" where
  "demo_digest s = ''h'' @ s"

definition demo_owner :: background_session where
  "demo_owner = (bs_default ''s1'' ''Title'' ''/w'' ''review'' ''intent'')
     \<lparr>bs_status := SRunning, bs_worker_pid := Some 7, bs_lease_token := ''lease'', bs_attempt := 1\<rparr>"

definition demo_queued :: jfile where
  "demo_queued = snd (enqueue (\<lambda>_. []) demo_digest ''s1'' ''hi'' 1 ''lease'' (Some ''m1'') [] (Inr demo_owner) (Inr demo_owner) (Fin 5) empty_inbox)"

definition demo_taken :: jfile where
  "demo_taken = snd (claim_next (\<lambda>_. []) demo_digest ''s1'' 1 ''lease'' (Inr demo_owner) (Fin 6) (Fin 7) demo_queued)"

definition demo_mail_event :: payload where
  "demo_mail_event = accepted_event ''m1'' ''s1'' 1 ''hlease'' ''hi'' (Fin 5)"

definition demo_taken_event :: payload where
  "demo_taken_event = state_event ''delivered'' (PStr ''m1'') (Fin 7)"

lemma demo_ids: "safe_id ''m1''" "safe_id ''s1''" "inbox_paths ''s1'' = Inr ()" "check_input ''hi'' = Inr ()"
proof -
  show "safe_id ''m1''" "safe_id ''s1''" by (simp_all add: safe_id_def less_eq_char_def)
  then show "inbox_paths ''s1'' = Inr ()" by (simp add: inbox_paths_def)
  have "py_strip ''hi'' \<noteq> []" by code_simp
  then show "check_input ''hi'' = Inr ()" by (simp add: check_input_def max_input_chars_def)
qed

lemma demo_live: "live_owner (Inr demo_owner) 1 ''lease'' = Inr ()"
  by code_simp

lemma demo_queued_eq: "demo_queued = \<lparr>jf_lines = [JObj demo_mail_event], jf_tail = Clean\<rparr>"
proof -
  have "inbox_records empty_inbox = []" by code_simp
  then show ?thesis
    by (simp add: demo_queued_def enqueue_def with_lock_def demo_ids demo_live accept_live_def waiting_count_def max_pending_messages_def
        Let_def demo_mail_event_def demo_digest_def append_line_def) (simp add: empty_inbox_def)
qed

lemma demo_queued_records: "t = Clean \<or> t = Torn \<Longrightarrow> inbox_records \<lparr>jf_lines = [JObj demo_mail_event], jf_tail = t\<rparr> = [(''m1'', demo_mail_event)]"
  by (auto simp: inbox_records_def inbox_events_def read_lines_def map_filter_simps projection_def project_event_def
      demo_mail_event_def accepted_event_def pget_def dget_or_def)

lemma demo_mail_claimable: "takeable 1 ''hlease'' demo_mail_event" "\<not> is_deferred demo_mail_event"
  "in_state [''accepted''] demo_mail_event" "owned_by 1 ''hlease'' demo_mail_event" "pget demo_mail_event ''message_id'' = PStr ''m1''"
  by (simp_all add: takeable_def in_state_def is_deferred_def owned_by_def same_int_def demo_mail_event_def accepted_event_def pget_def dget_or_def)

lemma demo_taken_eq: "demo_taken = \<lparr>jf_lines = [JObj demo_mail_event, JObj demo_taken_event], jf_tail = Clean\<rparr>"
  by (simp add: demo_taken_def claim_next_def with_lock_def demo_ids demo_live demo_queued_eq demo_queued_records by_acceptance_def
      claim_from_first demo_digest_def demo_mail_claimable deliver_def Let_def rebind_def append_line_def demo_taken_event_def)

lemma demo_taken_records: "inbox_records demo_taken = [(''m1'', absorb demo_taken_event demo_mail_event)]"
  by (simp add: demo_taken_eq inbox_records_def inbox_events_def read_lines_def map_filter_simps projection_def project_event_def
      demo_mail_event_def accepted_event_def demo_taken_event_def state_event_def update_actions_def pget_def dget_or_def)

lemma demo_taken_state: "in_state [''delivered''] (absorb demo_taken_event demo_mail_event)"
  by (simp add: in_state_def demo_taken_event_def dget_delivered pget_def dget_or_def)

lemma demo_queued_run: "(inbox_moves (\<lambda>_. []) demo_digest ''s1'')\<^sup>*\<^sup>* empty_inbox demo_queued"
  unfolding demo_queued_def inbox_moves_def
  by (rule r_into_rtranclp) (intro exI[of _ "Inr demo_owner"], rule step_enqueue, rule prod.collapse[symmetric])

lemma demo_taken_step: "inbox_step (\<lambda>_. []) demo_digest ''s1'' (Inr demo_owner) demo_queued demo_taken"
  unfolding demo_taken_def by (rule step_claim_next, rule prod.collapse[symmetric])

lemma demo_taken_run: "(inbox_moves (\<lambda>_. []) demo_digest ''s1'')\<^sup>*\<^sup>* empty_inbox demo_taken"
  by (rule rtranclp.rtrancl_into_rtrancl[OF demo_queued_run]) (use demo_taken_step in \<open>auto simp: inbox_moves_def\<close>)

theorem inbox_life_witness:
  "actions_of ''m1'' (inbox_events demo_taken) = [''accepted'', ''delivered'']
    \<and> life_of (dget (inbox_records demo_taken) ''m1'') = LDelivered"
proof -
  have "actions_of ''m1'' (inbox_events demo_taken) = [''accepted'', ''delivered'']"
    by (simp add: demo_taken_eq inbox_events_def read_lines_def map_filter_simps actions_of_def demo_mail_event_def accepted_event_def
        demo_taken_event_def state_event_def pget_def dget_or_def)
  then show ?thesis using inbox_life[OF demo_taken_run, of "''m1''"] by (simp add: moves_def)
qed

theorem inbox_fenced_witness:
  "owned_by 1 ''hlease'' (absorb demo_taken_event demo_mail_event)"
proof -
  have "dget (inbox_records demo_taken) ''m1'' = Some (absorb demo_taken_event demo_mail_event)" by (simp add: demo_taken_records)
  moreover have "\<not> in_state [''delivered''] demo_mail_event" using demo_mail_claimable(3) by (auto simp: in_state_def)
  ultimately show ?thesis
    using inbox_fenced[OF demo_queued_run demo_taken_step _ demo_taken_state, of "''m1''"]
    by (auto simp: demo_queued_eq demo_queued_records demo_owner_def demo_digest_def)
qed

theorem inbox_claim_witness:
  "\<exists>i. fst (claim_next (\<lambda>_. []) demo_digest ''s1'' 1 ''lease'' (Inr demo_owner) (Fin 6) (Fin 7) demo_queued) = Inr (Some i)
    \<and> bi_message_id i = ''m1'' \<and> bi_text i = ''hi''"
proof -
  note c = inbox_claim[OF demo_queued_run demo_ids(2) demo_live, of "Fin 6" "Fin 7"]
  have "inbox_records demo_queued = [(''m1'', demo_mail_event)]" by (simp add: demo_queued_eq demo_queued_records)
  moreover have "pget demo_mail_event ''text'' = PStr ''hi''" by (simp add: demo_mail_event_def accepted_event_def pget_def dget_or_def)
  ultimately show ?thesis using c demo_mail_claimable(1)
    by (auto simp: demo_digest_def split: prod.splits sum.splits option.splits if_splits)
qed

theorem inbox_receipts_witness:
  "\<exists>rs f'. receipts (\<lambda>_. []) demo_digest ''s1'' (Inr (demo_owner\<lparr>bs_status := SOrphaned\<rparr>)) (Fin 9) demo_taken = (rs, f')
    \<and> (\<forall>(mid, r) \<in> set (inbox_records f'). life_of (Some r) = LClosed \<or> is_deferred r)"
proof -
  obtain rs f' where run: "receipts (\<lambda>_. []) demo_digest ''s1'' (Inr (demo_owner\<lparr>bs_status := SOrphaned\<rparr>)) (Fin 9) demo_taken = (rs, f')"
    by fastforce
  from inbox_receipts[OF demo_taken_run demo_ids(2) this] run show ?thesis by (auto simp: active_statuses_def)
qed

theorem inbox_short_write_witness:
  "\<exists>i f' f''. claim_by_id (\<lambda>_. []) demo_digest ''s1'' ''m1'' 1 ''lease'' (Inr demo_owner) (Fin 6) (Fin 7) (demo_queued\<lparr>jf_tail := Torn\<rparr>)
      = (Inr (Some i), f')
    \<and> claim_by_id (\<lambda>_. []) demo_digest ''s1'' ''m1'' 1 ''lease'' (Inr demo_owner) (Fin 6) (Fin 7) f' = (Inr (Some i), f'')"
proof -
  let ?claim = "claim_by_id (\<lambda>_. []) demo_digest ''s1'' ''m1'' 1 ''lease'' (Inr demo_owner) (Fin 6) (Fin 7)"
  let ?f = "demo_queued\<lparr>jf_tail := Torn\<rparr>"
  have r: "dget (inbox_records ?f) ''m1'' = Some demo_mail_event" by (simp add: demo_queued_eq demo_queued_records)
  then have "\<exists>i f'. ?claim ?f = (Inr (Some i), f')"
    using demo_mail_claimable by (simp add: claim_by_id_def with_lock_def demo_ids demo_live demo_digest_def rebind_def Let_def)
  then obtain i f' where i: "?claim ?f = (Inr (Some i), f')" by blast
  show ?thesis using inbox_short_write[OF _ r demo_mail_claimable(2) i] i by auto
qed

end
