(* ===== verification/Recurrence.thy ===== *)
theory Recurrence
  imports Prelude
begin

text \<open>
  Recurrence of scheduled workflows (\<open>src/agenthicc/schedules/recurrence.py\<close>): durations, numeric
  five-field cron expressions, the next occurrence and the coalescing of missed ticks. Timestamps
  are finite numbers. A wall-clock time is the number of seconds since the midnight that starts
  ordinal day 0 of the proleptic Gregorian calendar, so its day is \<open>\<lfloor>w / 86400\<rfloor>\<close>. What a time zone
  does is data of the zone database: a pair of functions, from an instant to the wall-clock time
  shown there and from a wall-clock time to the (earlier) instant that shows it.
\<close>

section \<open>Calendar\<close>

text \<open>\<open>datetime.date\<close>: ordinals, month lengths and weekdays.\<close>

definition leap_year :: "int \<Rightarrow> bool" where
  "leap_year y \<longleftrightarrow> y mod 4 = 0 \<and> (y mod 100 \<noteq> 0 \<or> y mod 400 = 0)"

definition month_lengths :: "int \<Rightarrow> int list" where
  "month_lengths y = [31, if leap_year y then 29 else 28, 31, 30, 31, 30, 31, 31, 30, 31, 30, 31]"

fun month_day :: "int list \<Rightarrow> int \<Rightarrow> int \<Rightarrow> int \<times> int" where
  "month_day [] m n = (m, n + 1)"
| "month_day (k # ks) m n = (if n < k then (m, n + 1) else month_day ks (m + 1) (n - k))"

definition days_before_year :: "int \<Rightarrow> int" where
  "days_before_year y = (y - 1) * 365 + (y - 1) div 4 - (y - 1) div 100 + (y - 1) div 400"

definition year_of_ordinal :: "int \<Rightarrow> int" where
  "year_of_ordinal day =
     (let n = day - 1;
          q400 = n div 146097; r400 = n mod 146097;
          q100 = r400 div 36524; r100 = r400 mod 36524;
          q4 = r100 div 1461; r4 = r100 mod 1461;
          q1 = r4 div 365;
          y = q400 * 400 + q100 * 100 + q4 * 4 + q1 + 1
      in if q1 = 4 \<or> q100 = 4 then y - 1 else y)"

definition date_of_ordinal :: "int \<Rightarrow> int \<times> int" where
  "date_of_ordinal day =
     (let y = year_of_ordinal day in month_day (month_lengths y) 1 (day - 1 - days_before_year y))"

definition cron_weekday :: "int \<Rightarrow> int" where
  "cron_weekday day = ((day + 6) mod 7 + 1) mod 7"

record zone =
  to_wall :: "rat \<Rightarrow> rat"
  of_wall :: "rat \<Rightarrow> rat"

section \<open>Durations\<close>

definition duration_unit :: "char \<Rightarrow> nat option" where
  "duration_unit c =
     (let u = lower_char c in
      if u = CHR ''s'' then Some 1 else if u = CHR ''m'' then Some 60
      else if u = CHR ''h'' then Some 3600 else if u = CHR ''d'' then Some 86400 else None)"

definition duration_parts :: "string \<Rightarrow> (string \<times> nat) option" where
  "duration_parts s =
     (let t = py_strip s in
      if length t < 2 \<or> \<not> list_all is_decimal (butlast t) \<or> hd t = CHR ''0'' then None
      else map_option (\<lambda>u. (butlast t, u)) (duration_unit (last t)))"

definition parse_interval :: "string \<Rightarrow> string + int" where
  "parse_interval spec =
     (case duration_parts spec of
        None \<Rightarrow> Inl ''interval must be a positive integer followed by s, m, h, or d''
      | Some (n, u) \<Rightarrow>
          (case py_int n of
             None \<Rightarrow> Inl ''Exceeds the limit (4300 digits) for integer string conversion''
           | Some k \<Rightarrow>
               if 2 ^ 31 - 1 < int (k * u) then Inl ''interval exceeds the supported maximum''
               else Inr (int (k * u))))"

section \<open>Cron expressions\<close>

definition cron_int :: "string \<Rightarrow> string + int" where
  "cron_int s = (case py_int s of None \<Rightarrow> Inl ''invalid literal for int()'' | Some n \<Rightarrow> Inr (int n))"

function cron_range :: "int \<Rightarrow> int \<Rightarrow> int \<Rightarrow> int list" where
  "cron_range start stop step =
     (if step \<le> 0 \<or> stop < start then [] else start # cron_range (start + step) stop step)"
  by pat_completeness auto

termination cron_range
  by (relation "measure (\<lambda>(start, stop, step). nat (stop - start + 1))") auto

declare cron_range.simps [simp del]

definition cron_step :: "bool \<Rightarrow> string \<Rightarrow> string + int" where
  "cron_step slash raw =
     (if \<not> slash then Inr 1
      else if \<not> py_isdigit raw then Inl ''cron step must be a positive integer''
      else bindE (cron_int raw)
        (\<lambda>n. if n \<le> 0 then Inl ''cron step must be a positive integer'' else Inr n))"

definition cron_bounds :: "string \<Rightarrow> string \<Rightarrow> bool \<Rightarrow> int \<Rightarrow> int \<Rightarrow> string + int \<times> int" where
  "cron_bounds component base slash minimum maximum =
     (if base = ''*'' then Inr (minimum, maximum)
      else if CHR ''-'' \<in> set base then
        (case py_partition (CHR ''-'') base of (start_raw, sep, end_raw) \<Rightarrow>
           if \<not> sep \<or> \<not> py_isdigit start_raw \<or> \<not> py_isdigit end_raw
           then Inl (''invalid cron range: '' @ py_repr component)
           else bindE (cron_int start_raw) (\<lambda>a. bindE (cron_int end_raw) (\<lambda>b.
             if b < a then Inl (''descending cron ranges are not supported: '' @ py_repr component)
             else Inr (a, b))))
      else if py_isdigit base then
        bindE (cron_int base) (\<lambda>a. Inr (a, if slash then maximum else a))
      else Inl (''invalid cron field: '' @ py_repr component))"

definition cron_component :: "int \<Rightarrow> int \<Rightarrow> string \<Rightarrow> string + int list" where
  "cron_component minimum maximum component =
     (if component = [] then Inl ''cron fields cannot contain empty list items''
      else case py_partition (CHR ''/'') component of (base, slash, step_raw) \<Rightarrow>
        bindE (cron_step slash step_raw) (\<lambda>step.
        bindE (cron_bounds component base slash minimum maximum) (\<lambda>(a, b).
        if a < minimum \<or> maximum < b
        then Inl (''cron value '' @ py_repr component @ '' is outside '' @ int_text minimum @ ''..'' @ int_text maximum)
        else Inr (cron_range a b step))))"

definition parse_field :: "string \<Rightarrow> int \<Rightarrow> int \<Rightarrow> string + int set" where
  "parse_field raw minimum maximum =
     bindE (mapE (cron_component minimum maximum) (split_on (CHR '','') raw)) (\<lambda>vss.
       if concat vss = [] then Inl ''cron field selects no values'' else Inr (set (concat vss)))"

record cron_expression =
  cr_minutes :: "int set"
  cr_hours :: "int set"
  cr_days :: "int set"
  cr_months :: "int set"
  cr_weekdays :: "int set"
  cr_day_wildcard :: bool
  cr_weekday_wildcard :: bool

definition cron_parse :: "string \<Rightarrow> string + cron_expression" where
  "cron_parse expression =
     (case py_split expression of
        [f1, f2, f3, f4, f5] \<Rightarrow>
          bindE (parse_field f1 0 59) (\<lambda>minutes.
          bindE (parse_field f2 0 23) (\<lambda>hours.
          bindE (parse_field f3 1 31) (\<lambda>days.
          bindE (parse_field f4 1 12) (\<lambda>months.
          bindE (parse_field f5 0 7) (\<lambda>weekdays.
            Inr \<lparr>cr_minutes = minutes, cr_hours = hours, cr_days = days, cr_months = months,
                 cr_weekdays = (\<lambda>d. if d = 7 then 0 else d) ` weekdays,
                 cr_day_wildcard = (f3 = ''*''), cr_weekday_wildcard = (f5 = ''*'')\<rparr>)))))
      | _ \<Rightarrow> Inl ''cron expression must contain five fields: minute hour day month weekday'')"

definition matches_date :: "cron_expression \<Rightarrow> int \<Rightarrow> bool" where
  "matches_date c day =
     (let (month, d) = date_of_ordinal day;
          dom = (d \<in> cr_days c);
          dow = (cron_weekday day \<in> cr_weekdays c)
      in if month \<notin> cr_months c then False
         else if cr_day_wildcard c \<and> cr_weekday_wildcard c then True
         else if cr_day_wildcard c then dow
         else if cr_weekday_wildcard c then dom
         else dom \<or> dow)"

section \<open>The next occurrence\<close>

definition wall_time :: "int \<Rightarrow> int \<Rightarrow> int \<Rightarrow> rat" where
  "wall_time day hour minute = of_int (day * 86400 + hour * 3600 + minute * 60)"

definition wall_day :: "rat \<Rightarrow> int" where
  "wall_day w = \<lfloor>w / 86400\<rfloor>"

text \<open>One candidate: skipped when it is not after the present on the first day, or not a real time.\<close>

definition candidate_instant :: "zone \<Rightarrow> rat \<Rightarrow> rat \<Rightarrow> int \<Rightarrow> rat \<Rightarrow> rat option" where
  "candidate_instant z timestamp now_wall offset w =
     (if offset = 0 \<and> w \<le> now_wall then None
      else if to_wall z (of_wall z w) \<noteq> w then None
      else if timestamp < of_wall z w then Some (of_wall z w)
      else None)"

fun first_some :: "('a \<Rightarrow> 'b option) \<Rightarrow> 'a list \<Rightarrow> 'b option" where
  "first_some f [] = None"
| "first_some f (x # xs) = (case f x of None \<Rightarrow> first_some f xs | Some y \<Rightarrow> Some y)"

definition day_times :: "cron_expression \<Rightarrow> int \<Rightarrow> rat list" where
  "day_times c day =
     concat (map (\<lambda>hour. map (\<lambda>minute. wall_time day hour minute) (sorted_list_of_set (cr_minutes c)))
       (sorted_list_of_set (cr_hours c)))"

definition horizon :: int where
  "horizon = 366 * 8 + 2"

definition cron_next_after :: "zone \<Rightarrow> cron_expression \<Rightarrow> rat \<Rightarrow> string + rat" where
  "cron_next_after z c timestamp =
     (let now_wall = to_wall z timestamp;
          first_day = wall_day now_wall;
          on_day = (\<lambda>offset.
            if \<not> matches_date c (first_day + offset) then None
            else first_some (candidate_instant z timestamp now_wall offset) (day_times c (first_day + offset)))
      in case first_some on_day [0..horizon - 1] of
           None \<Rightarrow> Inl ''cron expression has no occurrence within the next eight years''
         | Some t \<Rightarrow> Inr t)"

section \<open>Recurrence kinds\<close>

datatype recurrence_kind = RecOnce | RecInterval | RecCron

fun recurrence_value :: "recurrence_kind \<Rightarrow> string" where
  "recurrence_value RecOnce = ''once''"
| "recurrence_value RecInterval = ''interval''"
| "recurrence_value RecCron = ''cron''"

definition recurrence_kind_parse :: "string \<Rightarrow> recurrence_kind option" where
  "recurrence_kind_parse = enum_find recurrence_value [RecOnce, RecInterval, RecCron]"

interpretation recurrence: string_enum recurrence_value recurrence_kind_parse
proof
  show "recurrence_kind_parse (recurrence_value x) = Some x" for x
    by (cases x) (simp_all add: recurrence_kind_parse_def enum_find_def)
  show "recurrence_kind_parse s = Some x \<Longrightarrow> recurrence_value x = s" for s x
    unfolding recurrence_kind_parse_def by (rule enum_find_label)
qed

definition parse_recurrence :: "string \<Rightarrow> string + recurrence_kind \<times> string" where
  "parse_recurrence value =
     (case py_partition (CHR '':'') value of (kind_text, separator, spec) \<Rightarrow>
        if \<not> separator \<or> spec = []
        then Inl ''recurrence must be once:<ISO-8601>, interval:<duration>, or cron:<5 fields>''
        else if py_casefold kind_text = ''every'' then Inr (RecInterval, spec)
        else case recurrence_kind_parse (py_casefold kind_text) of
               None \<Rightarrow> Inl ''recurrence kind must be once, interval, or cron''
             | Some k \<Rightarrow> Inr (k, spec))"

text \<open>
  What \<open>datetime.fromisoformat\<close> makes of a text is the argument \<open>read_iso\<close>: a wall-clock time, an
  instant when the text has an offset, or nothing.
\<close>

datatype iso_time = IsoWall rat | IsoInstant rat

definition utc_suffix :: "string \<Rightarrow> string" where
  "utc_suffix s = concat (map (\<lambda>c. if c = CHR ''Z'' then ''+00:00'' else [c]) s)"

definition parse_one_shot :: "(string \<Rightarrow> iso_time option) \<Rightarrow> zone \<Rightarrow> string \<Rightarrow> string + rat" where
  "parse_one_shot read_iso z spec =
     (case read_iso (utc_suffix (py_strip spec)) of
        None \<Rightarrow> Inl ''one-shot time must be an ISO-8601 date/time''
      | Some (IsoInstant t) \<Rightarrow> Inr t
      | Some (IsoWall w) \<Rightarrow>
          if to_wall z (of_wall z w) \<noteq> w
          then Inl ''one-shot local time does not exist because of a DST transition''
          else Inr (of_wall z w))"

definition validate_timezone :: "(string \<Rightarrow> zone option) \<Rightarrow> string \<Rightarrow> string + zone" where
  "validate_timezone zones name =
     (case zones name of None \<Rightarrow> Inl (''unknown IANA timezone: '' @ py_repr name) | Some z \<Rightarrow> Inr z)"

definition validate_recurrence ::
  "(string \<Rightarrow> zone option) \<Rightarrow> (string \<Rightarrow> iso_time option) \<Rightarrow> recurrence_kind \<Rightarrow> string \<Rightarrow> string \<Rightarrow> string + unit" where
  "validate_recurrence zones read_iso kind spec timezone =
     bindE (validate_timezone zones timezone) (\<lambda>z.
       case kind of
         RecInterval \<Rightarrow> bindE (parse_interval spec) (\<lambda>_. Inr ())
       | RecCron \<Rightarrow> bindE (cron_parse spec) (\<lambda>_. Inr ())
       | RecOnce \<Rightarrow> bindE (parse_one_shot read_iso z spec) (\<lambda>_. Inr ()))"

definition first_run_at ::
  "(string \<Rightarrow> zone option) \<Rightarrow> (string \<Rightarrow> iso_time option) \<Rightarrow> recurrence_kind \<Rightarrow> string \<Rightarrow> string \<Rightarrow> rat \<Rightarrow> string + rat" where
  "first_run_at zones read_iso kind spec timezone now =
     bindE (validate_timezone zones timezone) (\<lambda>z.
       case kind of
         RecOnce \<Rightarrow> bindE (parse_one_shot read_iso z spec)
           (\<lambda>t. if t \<le> now then Inl ''one-shot schedule must be in the future'' else Inr t)
       | RecInterval \<Rightarrow> bindE (parse_interval spec) (\<lambda>i. Inr (now + of_int i))
       | RecCron \<Rightarrow> bindE (cron_parse spec) (\<lambda>c. cron_next_after z c now))"

definition next_run_after ::
  "(string \<Rightarrow> zone option) \<Rightarrow> recurrence_kind \<Rightarrow> string \<Rightarrow> string \<Rightarrow> rat \<Rightarrow> rat \<Rightarrow> string + rat option" where
  "next_run_after zones kind spec timezone previous now =
     (if kind = RecOnce then Inr None
      else bindE (validate_timezone zones timezone) (\<lambda>z.
        case kind of
          RecInterval \<Rightarrow> bindE (parse_interval spec) (\<lambda>i.
            Inr (Some (previous + of_int (max 1 (\<lfloor>(now - previous) / of_int i\<rfloor> + 1) * i))))
        | _ \<Rightarrow> bindE (cron_parse spec) (\<lambda>c. map_sum id Some (cron_next_after z c now))))"

section \<open>Laws\<close>

lemma cron_range_set: "0 < step \<Longrightarrow> set (cron_range a b step) = {x. a \<le> x \<and> x \<le> b \<and> (x - a) mod step = 0}"
proof (induction a b step rule: cron_range.induct)
  case (1 a b step)
  show ?case
  proof (cases "b < a")
    case True
    then show ?thesis by (auto simp: cron_range.simps [of a])
  next
    case False
    have eq: "x = a \<or> a + step \<le> x \<and> x \<le> b \<and> (x - (a + step)) mod step = 0 \<longleftrightarrow>
        a \<le> x \<and> x \<le> b \<and> (x - a) mod step = 0" for x
    proof -
      have m: "(x - (a + step)) mod step = (x - a) mod step"
        by (metis diff_diff_eq minus_mod_self2)
      have far: "a + step \<le> x" if "a \<le> x" "x \<noteq> a" "(x - a) mod step = 0"
      proof -
        have "step dvd x - a" using that(3) by (rule mod_0_imp_dvd)
        then have "step \<le> x - a" using that by (intro zdvd_imp_le) simp_all
        then show ?thesis by simp
      qed
      have near: "a \<le> x \<and> x \<noteq> a" if "a + step \<le> x" using that 1(2) by linarith
      have self: "a \<le> x \<and> x \<le> b \<and> (x - a) mod step = 0" if "x = a" using that False by simp
      show ?thesis unfolding m using far near self by metis
    qed
    have c: "cron_range a b step = a # cron_range (a + step) b step"
      using False 1(2) by (subst cron_range.simps) simp
    have ih: "set (cron_range (a + step) b step) =
        {x. a + step \<le> x \<and> x \<le> b \<and> (x - (a + step)) mod step = 0}"
      using False 1(2) by (intro 1(1)) simp_all
    show ?thesis
      by (intro set_eqI, unfold c list.set ih insert_iff mem_Collect_eq, rule eq)
  qed
qed

lemma first_some_SomeD:
  "first_some f xs = Some y \<Longrightarrow> \<exists>us x vs. xs = us @ x # vs \<and> f x = Some y \<and> (\<forall>u \<in> set us. f u = None)"
proof (induction xs)
  case Nil
  then show ?case by simp
next
  case (Cons x xs)
  show ?case
  proof (cases "f x")
    case None
    with Cons obtain us x' vs where "xs = us @ x' # vs" "f x' = Some y" "\<forall>u \<in> set us. f u = None" by auto
    with None show ?thesis by (intro exI [of _ "x # us"] exI [of _ x'] exI [of _ vs]) simp
  next
    case (Some z)
    with Cons.prems show ?thesis by (intro exI [of _ "[]"] exI [of _ x] exI [of _ xs]) simp
  qed
qed

lemma first_some_None: "first_some f xs = None \<longleftrightarrow> (\<forall>x \<in> set xs. f x = None)"
  by (induction xs) (auto split: option.splits)

definition cron_wf :: "cron_expression \<Rightarrow> bool" where
  "cron_wf c \<longleftrightarrow> cr_minutes c \<subseteq> {0..59} \<and> cr_hours c \<subseteq> {0..23} \<and> cr_days c \<subseteq> {1..31}
     \<and> cr_months c \<subseteq> {1..12} \<and> cr_weekdays c \<subseteq> {0..6}
     \<and> cr_minutes c \<noteq> {} \<and> cr_hours c \<noteq> {} \<and> cr_days c \<noteq> {} \<and> cr_months c \<noteq> {} \<and> cr_weekdays c \<noteq> {}"

lemma cron_step_pos: "cron_step slash raw = Inr n \<Longrightarrow> 0 < n"
  by (auto simp: cron_step_def elim!: bindE_InrE split: if_splits)

lemma cron_component_bounds:
  assumes "cron_component lo hi component = Inr vs" "x \<in> set vs"
  shows "lo \<le> x \<and> x \<le> hi"
proof -
  obtain base slash step_raw where p: "py_partition (CHR ''/'') component = (base, slash, step_raw)"
    by (metis prod_cases3)
  from assms(1) obtain step a b where "cron_step slash step_raw = Inr step" "lo \<le> a" "b \<le> hi"
    "vs = cron_range a b step"
    by (auto simp: cron_component_def p not_less elim!: bindE_InrE split: if_splits)
  with assms(2) cron_range_set [OF cron_step_pos] show ?thesis by auto
qed

lemma parse_field_bounds:
  assumes "parse_field raw lo hi = Inr vs"
  shows "vs \<subseteq> {lo..hi}" and "vs \<noteq> {}"
proof -
  from assms obtain vss where m: "mapE (cron_component lo hi) (split_on (CHR '','') raw) = Inr vss"
    and vs: "vs = set (concat vss)" "concat vss \<noteq> []"
    by (auto simp: parse_field_def elim!: bindE_InrE split: if_splits)
  from m have "list_all2 (\<lambda>x y. cron_component lo hi x = Inr y) (split_on (CHR '','') raw) vss"
    by (simp add: mapE_Inr_iff)
  then have "\<forall>ys \<in> set vss. \<exists>x. cron_component lo hi x = Inr ys"
    by (induction rule: list_all2_induct) auto
  then show "vs \<subseteq> {lo..hi}" using cron_component_bounds by (fastforce simp: vs(1))
  show "vs \<noteq> {}" using vs by (metis set_empty)
qed

lemma cron_parse_wf:
  assumes "cron_parse e = Inr c"
  shows "cron_wf c"
proof -
  have "\<exists>f1 f2 f3 f4 f5. py_split e = [f1, f2, f3, f4, f5]"
    using assms by (simp add: cron_parse_def split: list.splits)
  then obtain f1 f2 f3 f4 f5 where f: "py_split e = [f1, f2, f3, f4, f5]" by blast
  from assms obtain minutes hours days months weekdays where
    p: "parse_field f1 0 59 = Inr minutes" "parse_field f2 0 23 = Inr hours" "parse_field f3 1 31 = Inr days"
      "parse_field f4 1 12 = Inr months" "parse_field f5 0 7 = Inr weekdays"
    and c: "c = \<lparr>cr_minutes = minutes, cr_hours = hours, cr_days = days, cr_months = months,
       cr_weekdays = (\<lambda>d. if d = 7 then 0 else d) ` weekdays,
       cr_day_wildcard = (f3 = ''*''), cr_weekday_wildcard = (f5 = ''*'')\<rparr>"
    unfolding cron_parse_def f by (auto elim!: bindE_InrE)
  have w: "(\<lambda>d. if d = 7 then 0 else d) ` weekdays \<subseteq> {0..6}" "(\<lambda>d. if d = 7 then 0 else d) ` weekdays \<noteq> {}"
    using parse_field_bounds [OF p(5)] by force+
  then show ?thesis
    using parse_field_bounds [OF p(1)] parse_field_bounds [OF p(2)] parse_field_bounds [OF p(3)]
      parse_field_bounds [OF p(4)] w
    unfolding cron_wf_def c by (simp only: cron_expression.simps)
qed

lemma cron_wf_finite: "cron_wf c \<Longrightarrow> finite (cr_minutes c) \<and> finite (cr_hours c)"
  by (meson cron_wf_def finite_atLeastAtMost_int finite_subset)

lemma day_times_iff:
  "cron_wf c \<Longrightarrow> w \<in> set (day_times c day) \<longleftrightarrow>
   (\<exists>h m. h \<in> cr_hours c \<and> m \<in> cr_minutes c \<and> w = wall_time day h m)"
  using cron_wf_finite [of c] by (auto simp: day_times_def)

lemma wall_time_less:
  assumes "0 \<le> h" "h \<le> 23" "0 \<le> m" "m \<le> 59" "0 \<le> h'" "0 \<le> m'" "day < day' \<or> day = day' \<and> (h < h' \<or> h = h' \<and> m < m')"
  shows "wall_time day h m < wall_time day' h' m'"
  unfolding wall_time_def of_int_less_iff using assms by linarith

lemma sorted_times:
  assumes "sorted_wrt (<) hs" "sorted_wrt (<) ms" "\<forall>h \<in> set hs. 0 \<le> h \<and> h \<le> 23" "\<forall>m \<in> set ms. 0 \<le> m \<and> m \<le> 59"
  shows "sorted (concat (map (\<lambda>h. map (\<lambda>m. wall_time day h m) ms) hs))"
  using assms
proof (induction hs)
  case Nil
  show ?case by simp
next
  case (Cons h hs)
  have "sorted (map (\<lambda>m. wall_time day h m) ms)"
    using Cons.prems(2,4) by (induction ms) (auto simp: wall_time_def)
  moreover have "wall_time day h m \<le> wall_time day h' m'"
    if "h' \<in> set hs" "m \<in> set ms" "m' \<in> set ms" for h' m m'
    using wall_time_less [of h m h' m' day day] Cons.prems that by (force intro: less_imp_le)
  ultimately show ?case using Cons by (auto simp: sorted_append)
qed

lemma day_times_sorted: "cron_wf c \<Longrightarrow> sorted (day_times c day)"
  unfolding day_times_def
  by (rule sorted_times) (use cron_wf_finite [of c] in \<open>auto simp: cron_wf_def strict_sorted_list_of_set\<close>)

lemma cron_next_InrE:
  assumes "cron_next_after z c t0 = Inr t" "cron_wf c"
  obtains offset us w vs where "0 \<le> offset" "offset < horizon"
    "matches_date c (wall_day (to_wall z t0) + offset)"
    "day_times c (wall_day (to_wall z t0) + offset) = us @ w # vs"
    "candidate_instant z t0 (to_wall z t0) offset w = Some t"
    "\<forall>u \<in> set us. candidate_instant z t0 (to_wall z t0) offset u = None"
    "\<forall>o' \<in> {0..<offset}. matches_date c (wall_day (to_wall z t0) + o') \<longrightarrow>
       (\<forall>u \<in> set (day_times c (wall_day (to_wall z t0) + o')). candidate_instant z t0 (to_wall z t0) o' u = None)"
proof -
  let ?first = "wall_day (to_wall z t0)"
  let ?on = "\<lambda>offset. if \<not> matches_date c (?first + offset) then None
      else first_some (candidate_instant z t0 (to_wall z t0) offset) (day_times c (?first + offset))"
  from assms(1) have "first_some ?on [0..horizon - 1] = Some t"
    by (simp add: cron_next_after_def Let_def split: option.splits)
  from first_some_SomeD [OF this] obtain os offset os' where
    split: "[0..horizon - 1] = os @ offset # os'" and on: "?on offset = Some t"
    and before: "\<forall>u \<in> set os. ?on u = None" by blast
  have mem: "offset \<in> {0..horizon - 1}" using split by (metis in_set_conv_decomp set_upto)
  have os: "{0..<offset} \<subseteq> set os"
  proof
    fix x assume x: "x \<in> {0..<offset}"
    with mem have "x \<in> set (os @ offset # os')" unfolding split [symmetric] by auto
    moreover have "sorted (os @ offset # os')" unfolding split [symmetric] by (rule sorted_upto)
    ultimately show "x \<in> set os" using x by (auto simp: sorted_append)
  qed
  from on have m: "matches_date c (?first + offset)"
    and fs: "first_some (candidate_instant z t0 (to_wall z t0) offset) (day_times c (?first + offset)) = Some t"
    by (auto split: if_splits)
  from first_some_SomeD [OF fs] obtain us w vs where
    "day_times c (?first + offset) = us @ w # vs" "candidate_instant z t0 (to_wall z t0) offset w = Some t"
    "\<forall>u \<in> set us. candidate_instant z t0 (to_wall z t0) offset u = None" by blast
  moreover have "\<forall>o' \<in> {0..<offset}. matches_date c (?first + o') \<longrightarrow>
       (\<forall>u \<in> set (day_times c (?first + o')). candidate_instant z t0 (to_wall z t0) o' u = None)"
  proof (intro ballI impI)
    fix o' u assume o: "o' \<in> {0..<offset}" "matches_date c (?first + o')"
      "u \<in> set (day_times c (?first + o'))"
    then have "?on o' = None" using before os by blast
    with o show "candidate_instant z t0 (to_wall z t0) o' u = None" by (simp add: first_some_None)
  qed
  ultimately show thesis using that mem m by (auto simp: horizon_def)
qed

lemma candidate_Some:
  "candidate_instant z t0 now offset w = Some t \<longleftrightarrow>
   \<not> (offset = 0 \<and> w \<le> now) \<and> to_wall z (of_wall z w) = w \<and> t0 < of_wall z w \<and> t = of_wall z w"
  by (auto simp: candidate_instant_def)

lemma foldl_digits: "foldl (\<lambda>n c. 10 * n + (code c - 48)) a s = a * 10 ^ length s + digits_val s"
proof (induction s arbitrary: a)
  case (Cons c s)
  from Cons [of "10 * a + (code c - 48)"] Cons [of "code c - 48"] show ?case
    by (simp add: digits_val_def algebra_simps)
qed (simp add: digits_val_def)

lemma digits_val_pos:
  assumes "s \<noteq> []" "list_all is_decimal s" "hd s \<noteq> CHR ''0''"
  shows "0 < digits_val s"
proof -
  obtain c s' where s: "s = c # s'" using assms(1) by (cases s) auto
  have "code c \<noteq> 48"
  proof
    assume "code c = 48"
    then have "c = char_of (48::nat)" by (metis char_of_char code_def of_char_of)
    also have "char_of (48::nat) = CHR ''0''" by code_simp
    finally show False using assms(3) s by simp
  qed
  with assms(2) s have "0 < code c - 48" by (simp add: is_decimal_def)
  then show ?thesis using foldl_digits [of "code c - 48" s'] by (simp add: s digits_val_def)
qed

lemma parse_interval_bounds:
  assumes "parse_interval spec = Inr i"
  shows "0 < i \<and> i < 2 ^ 31"
proof -
  from assms obtain n u k where p: "duration_parts spec = Some (n, u)" and k: "py_int n = Some k"
    and i: "i = int (k * u)" "int (k * u) < 2 ^ 31"
    by (auto simp: parse_interval_def split: option.splits if_splits)
  from p have n: "n = butlast (py_strip spec)" "2 \<le> length (py_strip spec)" "hd (py_strip spec) \<noteq> CHR ''0''"
    and u: "duration_unit (last (py_strip spec)) = Some u"
    by (auto simp: duration_parts_def Let_def split: if_splits)
  have "n \<noteq> []" "hd n = hd (py_strip spec)" using n by (cases "py_strip spec"; auto)+
  then have "0 < k" using k n(3) digits_val_pos by (auto simp: py_int_def split: if_splits)
  moreover have "0 < u" using u by (auto simp: duration_unit_def Let_def split: if_splits)
  ultimately show ?thesis using i by simp
qed

end
