(* ===== verification/Sched_Model.thy ===== *)
theory Sched_Model
  imports Recurrence
begin

text \<open>
  The durable records of scheduled workflows (\<open>src/agenthicc/schedules/model.py\<close>): the versioned
  definition of a schedule with its validation, the receipt of one occurrence, and their reading
  and writing. What \<open>Path.expanduser().resolve()\<close> makes of a path depends on the file system: it is
  the argument \<open>canonical\<close>. A member of a \<open>StrEnum\<close> is a string, so a mapping holds its text.
\<close>

section \<open>Enumerations\<close>

datatype coalesce_policy = CoalesceSkip | CoalesceQueueOne | CoalesceAllowBounded

fun coalesce_value :: "coalesce_policy \<Rightarrow> string" where
  "coalesce_value CoalesceSkip = ''skip''"
| "coalesce_value CoalesceQueueOne = ''queue_one''"
| "coalesce_value CoalesceAllowBounded = ''allow_bounded''"

definition coalesce_parse :: "string \<Rightarrow> coalesce_policy option" where
  "coalesce_parse = enum_find coalesce_value [CoalesceSkip, CoalesceQueueOne, CoalesceAllowBounded]"

interpretation coalesce: string_enum coalesce_value coalesce_parse
proof
  show "coalesce_parse (coalesce_value x) = Some x" for x
    by (cases x) (simp_all add: coalesce_parse_def enum_find_def)
  show "coalesce_parse s = Some x \<Longrightarrow> coalesce_value x = s" for s x
    unfolding coalesce_parse_def by (rule enum_find_label)
qed

datatype occurrence_state =
    OAwaitingService | OQueued | OPreparing | OWaitingCapacity | ORunning
  | OCompleted | OFailed | OBlocked | OSkipped | OCancelled

fun occurrence_value :: "occurrence_state \<Rightarrow> string" where
  "occurrence_value OAwaitingService = ''awaiting_service''"
| "occurrence_value OQueued = ''queued''"
| "occurrence_value OPreparing = ''preparing''"
| "occurrence_value OWaitingCapacity = ''waiting_capacity''"
| "occurrence_value ORunning = ''running''"
| "occurrence_value OCompleted = ''completed''"
| "occurrence_value OFailed = ''failed''"
| "occurrence_value OBlocked = ''blocked''"
| "occurrence_value OSkipped = ''skipped''"
| "occurrence_value OCancelled = ''cancelled''"

definition in_flight_states :: "occurrence_state list" where
  "in_flight_states = [OAwaitingService, OQueued, OPreparing, OWaitingCapacity, ORunning]"

section \<open>Schedules\<close>

text \<open>\<open>len(value.encode("utf-8"))\<close>, for code points below 256.\<close>

definition utf8_length :: "string \<Rightarrow> int" where
  "utf8_length s = sum_list (map (\<lambda>c. if code c < 128 then 1 else 2) s)"

definition check_text :: "bool \<Rightarrow> int \<Rightarrow> string \<Rightarrow> string \<Rightarrow> string + unit" where
  "check_text required limit field value =
     (if required \<and> py_strip value = [] then Inl (field @ '' must be a non-empty string'')
      else if limit < utf8_length value
      then Inl (field @ '' exceeds '' @ int_text limit @ '' UTF-8 bytes'')
      else Inr ())"

definition read_text :: "bool \<Rightarrow> int \<Rightarrow> string \<Rightarrow> pyval \<Rightarrow> string + string" where
  "read_text required limit field value =
     (case str_of value of
        None \<Rightarrow> Inl (field @ '' must be a '' @ (if required then ''non-empty '' else []) @ ''string'')
      | Some s \<Rightarrow> bindE (check_text required limit field s) (\<lambda>_. Inr s))"

record schedule =
  sd_schedule_id :: string
  sd_repository_root :: string
  sd_workflow_name :: string
  sd_prompt :: string
  sd_profile_name :: string
  sd_permission_ceiling :: string
  sd_recurrence_kind :: recurrence_kind
  sd_recurrence_spec :: string
  sd_timezone :: string
  sd_coalesce_policy :: coalesce_policy
  sd_max_in_flight :: int
  sd_next_run_at :: "pyfloat option"
  sd_enabled :: bool
  sd_creator :: string
  sd_revision :: int
  sd_created_at :: pyfloat
  sd_updated_at :: pyfloat
  sd_config_path :: string
  sd_deleted_at :: "pyfloat option"

definition schedule_deleted :: "schedule \<Rightarrow> bool" where
  "schedule_deleted s \<longleftrightarrow> sd_deleted_at s \<noteq> None"

definition finite_opt :: "pyfloat option \<Rightarrow> bool" where
  "finite_opt x = (case x of None \<Rightarrow> True | Some f \<Rightarrow> is_finite f)"

text \<open>\<open>__post_init__\<close>: the first violated check, in the order of the code.\<close>

definition schedule_check :: "(string \<Rightarrow> string) \<Rightarrow> schedule \<Rightarrow> string + unit" where
  "schedule_check canonical s =
     bindE (check_text True 128 ''schedule_id'' (sd_schedule_id s)) (\<lambda>_.
     bindE (check_text True 4096 ''repository_root'' (sd_repository_root s)) (\<lambda>_.
     bindE (guardE (canonical (sd_repository_root s) = sd_repository_root s)
       ''repository_root must be an absolute canonical path'') (\<lambda>_.
     bindE (check_text True 128 ''workflow_name'' (sd_workflow_name s)) (\<lambda>_.
     bindE (check_text True 16384 ''prompt'' (sd_prompt s)) (\<lambda>_.
     bindE (check_text True 128 ''profile_name'' (sd_profile_name s)) (\<lambda>_.
     bindE (check_text True 128 ''permission_ceiling'' (sd_permission_ceiling s)) (\<lambda>_.
     bindE (guardE (sd_permission_ceiling s \<in> {''Safe'', ''Plan'', ''Yolo''})
       ''permission_ceiling must be canonical Safe, Plan, or Yolo'') (\<lambda>_.
     bindE (check_text True 512 ''recurrence_spec'' (sd_recurrence_spec s)) (\<lambda>_.
     bindE (check_text True 128 ''timezone'' (sd_timezone s)) (\<lambda>_.
     bindE (check_text True 256 ''creator'' (sd_creator s)) (\<lambda>_.
     bindE (check_text False 4096 ''config_path'' (sd_config_path s)) (\<lambda>_.
     bindE (guardE (1 \<le> sd_max_in_flight s \<and> sd_max_in_flight s \<le> 32)
       ''max_in_flight must be between 1 and 32'') (\<lambda>_.
     bindE (guardE (1 \<le> sd_revision s) ''revision must be positive'') (\<lambda>_.
     bindE (guardE (is_finite (sd_created_at s) \<and> is_finite (sd_updated_at s))
       ''schedule timestamps must be finite numbers'') (\<lambda>_.
     bindE (guardE (finite_opt (sd_next_run_at s)) ''next_run_at must be a finite number or None'') (\<lambda>_.
     guardE (finite_opt (sd_deleted_at s)) ''deleted_at must be a finite number or None''))))))))))))))))"

definition schedule_to_dict :: "schedule \<Rightarrow> payload" where
  "schedule_to_dict s =
     [(''schedule_id'', PStr (sd_schedule_id s)),
      (''repository_root'', PStr (sd_repository_root s)),
      (''workflow_name'', PStr (sd_workflow_name s)),
      (''prompt'', PStr (sd_prompt s)),
      (''profile_name'', PStr (sd_profile_name s)),
      (''permission_ceiling'', PStr (sd_permission_ceiling s)),
      (''recurrence_kind'', PStr (recurrence_value (sd_recurrence_kind s))),
      (''recurrence_spec'', PStr (sd_recurrence_spec s)),
      (''timezone'', PStr (sd_timezone s)),
      (''coalesce_policy'', PStr (coalesce_value (sd_coalesce_policy s))),
      (''max_in_flight'', PInt (sd_max_in_flight s)),
      (''next_run_at'', of_opt_float (sd_next_run_at s)),
      (''enabled'', PBool (sd_enabled s)),
      (''creator'', PStr (sd_creator s)),
      (''revision'', PInt (sd_revision s)),
      (''created_at'', PFloat (sd_created_at s)),
      (''updated_at'', PFloat (sd_updated_at s)),
      (''config_path'', PStr (sd_config_path s)),
      (''deleted_at'', of_opt_float (sd_deleted_at s))]"

text \<open>The nested readers of \<open>from_mapping\<close>.\<close>

definition read_number :: "payload \<Rightarrow> string \<Rightarrow> string + pyfloat" where
  "read_number raw name =
     (case num_of (pget raw name) of None \<Rightarrow> Inl (name @ '' must be numeric'') | Some f \<Rightarrow> Inr f)"

definition read_opt_number :: "payload \<Rightarrow> string \<Rightarrow> string + pyfloat option" where
  "read_opt_number raw name =
     (if pget raw name = PNone then Inr None else map_sum id Some (read_number raw name))"

definition read_integer :: "payload \<Rightarrow> string \<Rightarrow> string + int" where
  "read_integer raw name =
     (case int_of (pget raw name) of None \<Rightarrow> Inl (name @ '' must be an integer'') | Some i \<Rightarrow> Inr i)"

definition read_kind :: "pyval \<Rightarrow> string + recurrence_kind" where
  "read_kind v = bindE (read_text False 16384 ''recurrence_kind'' v) (\<lambda>s.
     case recurrence_kind_parse s of
       None \<Rightarrow> Inl (py_repr s @ '' is not a valid RecurrenceKind'') | Some k \<Rightarrow> Inr k)"

definition read_policy :: "pyval \<Rightarrow> string + coalesce_policy" where
  "read_policy v = bindE (read_text False 16384 ''coalesce_policy'' v) (\<lambda>s.
     case coalesce_parse s of
       None \<Rightarrow> Inl (py_repr s @ '' is not a valid CoalescePolicy'') | Some p \<Rightarrow> Inr p)"

definition read_schedule :: "(string \<Rightarrow> string) \<Rightarrow> payload \<Rightarrow> bool \<Rightarrow> string + schedule" where
  "read_schedule canonical raw enabled =
     (let text = \<lambda>name. read_text True 16384 name (pget raw name) in
     bindE (read_kind (pget raw ''recurrence_kind'')) (\<lambda>kind.
     bindE (read_policy (pget raw ''coalesce_policy'')) (\<lambda>policy.
     bindE (text ''schedule_id'') (\<lambda>schedule_id.
     bindE (read_text True 4096 ''repository_root'' (pget raw ''repository_root'')) (\<lambda>root.
     bindE (text ''workflow_name'') (\<lambda>workflow.
     bindE (text ''prompt'') (\<lambda>prompt.
     bindE (text ''profile_name'') (\<lambda>profile.
     bindE (text ''permission_ceiling'') (\<lambda>ceiling.
     bindE (text ''recurrence_spec'') (\<lambda>spec.
     bindE (text ''timezone'') (\<lambda>zone.
     bindE (read_integer raw ''max_in_flight'') (\<lambda>max_in_flight.
     bindE (read_opt_number raw ''next_run_at'') (\<lambda>next_run.
     bindE (text ''creator'') (\<lambda>creator.
     bindE (read_integer raw ''revision'') (\<lambda>revision.
     bindE (read_number raw ''created_at'') (\<lambda>created.
     bindE (read_number raw ''updated_at'') (\<lambda>updated.
     bindE (read_text False 4096 ''config_path'' (dget_or raw ''config_path'' (PStr []))) (\<lambda>config.
     bindE (read_opt_number raw ''deleted_at'') (\<lambda>deleted.
     let s = \<lparr>sd_schedule_id = schedule_id, sd_repository_root = root, sd_workflow_name = workflow,
       sd_prompt = prompt, sd_profile_name = profile, sd_permission_ceiling = ceiling,
       sd_recurrence_kind = kind, sd_recurrence_spec = spec, sd_timezone = zone,
       sd_coalesce_policy = policy, sd_max_in_flight = max_in_flight, sd_next_run_at = next_run,
       sd_enabled = enabled, sd_creator = creator, sd_revision = revision, sd_created_at = created,
       sd_updated_at = updated, sd_config_path = config, sd_deleted_at = deleted\<rparr>
     in bindE (schedule_check canonical s) (\<lambda>_. Inr s))))))))))))))))))))"

definition schedule_from_mapping :: "(string \<Rightarrow> string) \<Rightarrow> payload \<Rightarrow> string + schedule" where
  "schedule_from_mapping canonical raw =
     (case bool_of (pget raw ''enabled'') of
        None \<Rightarrow> Inl ''enabled must be boolean''
      | Some enabled \<Rightarrow>
          map_sum (\<lambda>e. ''invalid schedule: '' @ e) id (read_schedule canonical raw enabled))"

section \<open>Occurrences\<close>

record occurrence =
  oc_occurrence_id :: string
  oc_schedule_id :: string
  oc_schedule_revision :: int
  oc_occurrence_key :: string
  oc_kind :: string
  oc_scheduled_for :: pyfloat
  oc_created_at :: pyfloat
  oc_updated_at :: pyfloat
  oc_state :: occurrence_state
  oc_session_id :: string
  oc_worktree :: "payload option"
  oc_base_commit :: string
  oc_retry_of :: string
  oc_coalesced_count :: int
  oc_attempt :: int
  oc_receipt :: "payload option"
  oc_outcome :: "payload option"
  oc_error :: string

definition in_flight :: "occurrence \<Rightarrow> bool" where
  "in_flight oc \<longleftrightarrow> oc_state oc \<in> set in_flight_states"

definition of_opt_dict :: "payload option \<Rightarrow> pyval" where
  "of_opt_dict d = (case d of None \<Rightarrow> PNone | Some p \<Rightarrow> of_dict p)"

definition occurrence_to_dict :: "occurrence \<Rightarrow> payload" where
  "occurrence_to_dict oc =
     [(''occurrence_id'', PStr (oc_occurrence_id oc)),
      (''schedule_id'', PStr (oc_schedule_id oc)),
      (''schedule_revision'', PInt (oc_schedule_revision oc)),
      (''occurrence_key'', PStr (oc_occurrence_key oc)),
      (''kind'', PStr (oc_kind oc)),
      (''scheduled_for'', PFloat (oc_scheduled_for oc)),
      (''created_at'', PFloat (oc_created_at oc)),
      (''updated_at'', PFloat (oc_updated_at oc)),
      (''state'', PStr (occurrence_value (oc_state oc))),
      (''session_id'', PStr (oc_session_id oc)),
      (''worktree'', of_opt_dict (oc_worktree oc)),
      (''base_commit'', PStr (oc_base_commit oc)),
      (''retry_of'', PStr (oc_retry_of oc)),
      (''coalesced_count'', PInt (oc_coalesced_count oc)),
      (''attempt'', PInt (oc_attempt oc)),
      (''receipt'', of_opt_dict (oc_receipt oc)),
      (''outcome'', of_opt_dict (oc_outcome oc)),
      (''error'', PStr (oc_error oc))]"

text \<open>\<open>occurrence_status_payload\<close> of \<open>manager.py\<close>.\<close>

definition occurrence_status_payload :: "occurrence \<Rightarrow> payload" where
  "occurrence_status_payload oc =
     [(''occurrence_id'', PStr (oc_occurrence_id oc)),
      (''schedule_id'', PStr (oc_schedule_id oc)),
      (''schedule_revision'', PInt (oc_schedule_revision oc)),
      (''kind'', PStr (oc_kind oc)),
      (''state'', PStr (occurrence_value (oc_state oc))),
      (''scheduled_for'', PFloat (oc_scheduled_for oc)),
      (''session_id'', PStr (oc_session_id oc)),
      (''base_commit'', PStr (oc_base_commit oc)),
      (''worktree'', of_opt_dict (oc_worktree oc)),
      (''retry_of'', PStr (oc_retry_of oc)),
      (''attempt'', PInt (oc_attempt oc)),
      (''coalesced_count'', PInt (oc_coalesced_count oc)),
      (''error'', PStr (take 1000 (oc_error oc))),
      (''receipt'', of_dict (case oc_receipt oc of None \<Rightarrow> [] | Some r \<Rightarrow> r)),
      (''outcome'', of_dict (case oc_outcome oc of None \<Rightarrow> [] | Some r \<Rightarrow> r))]"

section \<open>Laws\<close>

text \<open>What every stored definition satisfies.\<close>

definition schedule_ok :: "(string \<Rightarrow> string) \<Rightarrow> schedule \<Rightarrow> bool" where
  "schedule_ok canonical s \<longleftrightarrow> schedule_check canonical s = Inr ()"

lemma check_text_Inr [simp]:
  "check_text required limit field s = Inr u \<longleftrightarrow> (required \<longrightarrow> py_strip s \<noteq> []) \<and> utf8_length s \<le> limit"
  by (auto simp: check_text_def not_less)

lemma schedule_ok_iff:
  "schedule_ok canonical s \<longleftrightarrow>
     (\<forall>t \<in> {sd_schedule_id s, sd_repository_root s, sd_workflow_name s, sd_prompt s, sd_profile_name s,
        sd_permission_ceiling s, sd_recurrence_spec s, sd_timezone s, sd_creator s}. py_strip t \<noteq> [])
   \<and> (\<forall>t \<in> {sd_schedule_id s, sd_workflow_name s, sd_profile_name s, sd_permission_ceiling s, sd_timezone s}.
        utf8_length t \<le> 128)
   \<and> utf8_length (sd_repository_root s) \<le> 4096 \<and> utf8_length (sd_prompt s) \<le> 16384
   \<and> utf8_length (sd_recurrence_spec s) \<le> 512 \<and> utf8_length (sd_creator s) \<le> 256
   \<and> utf8_length (sd_config_path s) \<le> 4096
   \<and> canonical (sd_repository_root s) = sd_repository_root s
   \<and> sd_permission_ceiling s \<in> {''Safe'', ''Plan'', ''Yolo''}
   \<and> 1 \<le> sd_max_in_flight s \<and> sd_max_in_flight s \<le> 32 \<and> 1 \<le> sd_revision s
   \<and> is_finite (sd_created_at s) \<and> is_finite (sd_updated_at s)
   \<and> finite_opt (sd_next_run_at s) \<and> finite_opt (sd_deleted_at s)"
  unfolding schedule_ok_def schedule_check_def bindE_eq_Inr_iff
  by (simp add: conj_ac split del: if_split)

lemma read_text_Inr:
  "read_text required limit field v = Inr s \<longleftrightarrow>
   v = PStr s \<and> (required \<longrightarrow> py_strip s \<noteq> []) \<and> utf8_length s \<le> limit"
  by (cases v) (auto simp: read_text_def result_simps)

lemma read_number_PFloat: "pget raw name = PFloat f \<Longrightarrow> read_number raw name = Inr f"
  by (simp add: read_number_def)

lemma read_opt_number_of: "pget raw name = of_opt_float x \<Longrightarrow> read_opt_number raw name = Inr x"
  by (cases x) (simp_all add: read_opt_number_def read_number_def)

lemma read_integer_PInt: "pget raw name = PInt i \<Longrightarrow> read_integer raw name = Inr i"
  by (simp add: read_integer_def)

lemma read_kind_value [simp]: "read_kind (PStr (recurrence_value k)) = Inr k"
  by (cases k) (simp_all add: read_kind_def read_text_def check_text_def utf8_length_def code_def
      recurrence_kind_parse_def enum_find_def)

lemma read_policy_value [simp]: "read_policy (PStr (coalesce_value p)) = Inr p"
  by (cases p) (simp_all add: read_policy_def read_text_def check_text_def utf8_length_def code_def
      coalesce_parse_def enum_find_def)

lemma read_schedule_ok: "read_schedule canonical raw enabled = Inr s \<Longrightarrow> schedule_ok canonical s \<and> sd_enabled s = enabled"
  unfolding read_schedule_def Let_def schedule_ok_def
  by (elim bindE_InrE) auto

lemma schedule_from_mapping_ok:
  "schedule_from_mapping canonical raw = Inr s \<Longrightarrow> schedule_ok canonical s"
  by (auto simp: schedule_from_mapping_def read_schedule_ok map_sum_def split: option.splits sum.splits)

lemma pget_schedule [simp]:
  "pget (schedule_to_dict s) ''schedule_id'' = PStr (sd_schedule_id s)"
  "pget (schedule_to_dict s) ''repository_root'' = PStr (sd_repository_root s)"
  "pget (schedule_to_dict s) ''workflow_name'' = PStr (sd_workflow_name s)"
  "pget (schedule_to_dict s) ''prompt'' = PStr (sd_prompt s)"
  "pget (schedule_to_dict s) ''profile_name'' = PStr (sd_profile_name s)"
  "pget (schedule_to_dict s) ''permission_ceiling'' = PStr (sd_permission_ceiling s)"
  "pget (schedule_to_dict s) ''recurrence_kind'' = PStr (recurrence_value (sd_recurrence_kind s))"
  "pget (schedule_to_dict s) ''recurrence_spec'' = PStr (sd_recurrence_spec s)"
  "pget (schedule_to_dict s) ''timezone'' = PStr (sd_timezone s)"
  "pget (schedule_to_dict s) ''coalesce_policy'' = PStr (coalesce_value (sd_coalesce_policy s))"
  "pget (schedule_to_dict s) ''max_in_flight'' = PInt (sd_max_in_flight s)"
  "pget (schedule_to_dict s) ''next_run_at'' = of_opt_float (sd_next_run_at s)"
  "pget (schedule_to_dict s) ''enabled'' = PBool (sd_enabled s)"
  "pget (schedule_to_dict s) ''creator'' = PStr (sd_creator s)"
  "pget (schedule_to_dict s) ''revision'' = PInt (sd_revision s)"
  "pget (schedule_to_dict s) ''created_at'' = PFloat (sd_created_at s)"
  "pget (schedule_to_dict s) ''updated_at'' = PFloat (sd_updated_at s)"
  "pget (schedule_to_dict s) ''deleted_at'' = of_opt_float (sd_deleted_at s)"
  "dget_or (schedule_to_dict s) ''config_path'' (PStr []) = PStr (sd_config_path s)"
  by (simp_all add: schedule_to_dict_def)

lemma schedule_collapse [simp]:
  "\<lparr>sd_schedule_id = sd_schedule_id s, sd_repository_root = sd_repository_root s,
    sd_workflow_name = sd_workflow_name s, sd_prompt = sd_prompt s, sd_profile_name =
    sd_profile_name s, sd_permission_ceiling = sd_permission_ceiling s, sd_recurrence_kind =
    sd_recurrence_kind s, sd_recurrence_spec = sd_recurrence_spec s, sd_timezone = sd_timezone
    s, sd_coalesce_policy = sd_coalesce_policy s, sd_max_in_flight = sd_max_in_flight s,
    sd_next_run_at = sd_next_run_at s, sd_enabled = sd_enabled s, sd_creator = sd_creator s,
    sd_revision = sd_revision s, sd_created_at = sd_created_at s, sd_updated_at = sd_updated_at
    s, sd_config_path = sd_config_path s, sd_deleted_at = sd_deleted_at s\<rparr> = s"
  by (cases s) simp

lemma schedule_round_trip:
  assumes "schedule_ok canonical s"
  shows "schedule_from_mapping canonical (schedule_to_dict s) = Inr s"
proof -
  note ok = assms [unfolded schedule_ok_iff]
  have req: "read_text True 16384 name (PStr t) = Inr t"
    if "py_strip t \<noteq> []" "utf8_length t \<le> 16384" for name t
    using that by (simp add: read_text_Inr)
  have small: "utf8_length t \<le> 16384" if "utf8_length t \<le> 128 \<or> utf8_length t \<le> 256 \<or> utf8_length t \<le> 512" for t
    using that by linarith
  have root: "read_text True 4096 ''repository_root'' (PStr (sd_repository_root s)) = Inr (sd_repository_root s)"
    and config: "read_text False 4096 ''config_path'' (PStr (sd_config_path s)) = Inr (sd_config_path s)"
    using ok by (simp_all add: read_text_Inr)
  have "read_schedule canonical (schedule_to_dict s) (sd_enabled s) = Inr s"
    using ok assms unfolding read_schedule_def Let_def schedule_ok_def
    by (simp add: req small root config read_opt_number_of read_integer_PInt read_number_PFloat)
  then show ?thesis by (simp add: schedule_from_mapping_def)
qed

end
