(* ===== verification/Sched_Store.thy ===== *)
theory Sched_Store
  imports Sched_Model
begin

text \<open>
  The transactional store of schedules (\<open>src/agenthicc/schedules/store.py\<close>). A table with a primary
  key is a dictionary from the key to the row; a transaction that raises leaves the store as it was,
  so an operation returns an error or the store after the commit. The order of the keys inside a
  stored JSON object is not modelled, nor are the failures of SQLite itself (disk, locking); a
  violated constraint of the schema is.
\<close>

section \<open>State and errors\<close>

datatype sched_error =
    ScheduleNotFound string
  | ScheduleConflict string
  | ScheduleStoreError string
  | ScheduleValueError string
  | SqliteIntegrityError

record revision_row =
  rv_action :: string
  rv_actor :: string
  rv_created_at :: pyfloat
  rv_definition :: payload

record audit_row =
  au_schedule_id :: string
  au_revision :: int
  au_action :: string
  au_actor :: string
  au_created_at :: pyfloat
  au_details :: payload

record sched_store =
  sc_schedules :: "schedule pydict"
  sc_revisions :: "((string \<times> int) \<times> revision_row) list"
  sc_audit :: "audit_row list"
  sc_occurrences :: "occurrence pydict"

definition sched_empty :: sched_store where
  "sched_empty = \<lparr>sc_schedules = [], sc_revisions = [], sc_audit = [], sc_occurrences = []\<rparr>"

definition value_error :: "string + 'a \<Rightarrow> sched_error + 'a" where
  "value_error = map_sum ScheduleValueError id"

text \<open>\<open>_schedule_from_row\<close> runs the constructor again; the columns have the types of the record.\<close>

definition schedule_from_row :: "(string \<Rightarrow> string) \<Rightarrow> schedule \<Rightarrow> sched_error + schedule" where
  "schedule_from_row canonical row =
     (case schedule_check canonical row of
        Inl e \<Rightarrow> Inl (ScheduleStoreError (''invalid persisted schedule: '' @ e))
      | Inr _ \<Rightarrow> Inr row)"

section \<open>Definitions and revisions\<close>

definition insert_audit :: "schedule \<Rightarrow> string \<Rightarrow> string \<Rightarrow> pyfloat \<Rightarrow> sched_store \<Rightarrow> sched_error + sched_store" where
  "insert_audit s action actor now st =
     (let key = (sd_schedule_id s, sd_revision s); snapshot = schedule_to_dict s in
      if key \<in> set (keys (sc_revisions st)) \<or> sd_schedule_id s \<notin> set (keys (sc_schedules st))
      then Inl SqliteIntegrityError
      else Inr (st\<lparr>sc_revisions := sc_revisions st @ [(key, \<lparr>rv_action = action, rv_actor = actor,
             rv_created_at = now, rv_definition = snapshot\<rparr>)],
           sc_audit := sc_audit st @ [\<lparr>au_schedule_id = sd_schedule_id s, au_revision = sd_revision s,
             au_action = action, au_actor = actor, au_created_at = now, au_details = snapshot\<rparr>]\<rparr>))"

definition insert_schedule :: "schedule \<Rightarrow> sched_store \<Rightarrow> sched_error + sched_store" where
  "insert_schedule s st =
     (if sd_schedule_id s \<in> set (keys (sc_schedules st)) \<or> sd_revision s \<le> 0 then Inl SqliteIntegrityError
      else Inr (st\<lparr>sc_schedules := sc_schedules st @ [(sd_schedule_id s, s)]\<rparr>))"

definition create_schedule :: "string \<Rightarrow> schedule \<Rightarrow> sched_store \<Rightarrow> sched_error + schedule \<times> sched_store" where
  "create_schedule action s st =
     (case bindE (insert_schedule s st) (insert_audit s action (sd_creator s) (sd_created_at s)) of
        Inl SqliteIntegrityError \<Rightarrow> Inl (ScheduleConflict (''schedule already exists: '' @ sd_schedule_id s))
      | Inl e \<Rightarrow> Inl e
      | Inr st' \<Rightarrow> Inr (s, st'))"

definition live_row :: "string \<Rightarrow> sched_store \<Rightarrow> schedule option" where
  "live_row sid st =
     (case dget (sc_schedules st) sid of
        None \<Rightarrow> None
      | Some row \<Rightarrow> if sd_deleted_at row = None then Some row else None)"

definition get_schedule :: "(string \<Rightarrow> string) \<Rightarrow> bool \<Rightarrow> string \<Rightarrow> sched_store \<Rightarrow> sched_error + schedule" where
  "get_schedule canonical include_deleted sid st =
     (case (if include_deleted then dget (sc_schedules st) sid else live_row sid st) of
        None \<Rightarrow> Inl (ScheduleNotFound sid)
      | Some row \<Rightarrow> schedule_from_row canonical row)"

text \<open>\<open>ORDER BY updated_at DESC, schedule_id\<close>: a stable sort by the first key, reversed within the second.\<close>

definition list_schedules ::
  "(string \<Rightarrow> string) \<Rightarrow> string option \<Rightarrow> bool \<Rightarrow> sched_store \<Rightarrow> sched_error + schedule list" where
  "list_schedules canonical repository include_deleted st =
     (let rows = filter (\<lambda>s. (case repository of None \<Rightarrow> True | Some r \<Rightarrow> sd_repository_root s = r)
             \<and> (include_deleted \<or> sd_deleted_at s = None)) (map snd (sc_schedules st));
          by_id = rev (sort_key sd_schedule_id rows)
      in mapE (schedule_from_row canonical) (rev (sort_key sd_updated_at by_id)))"

definition get_revision ::
  "(string \<Rightarrow> string) \<Rightarrow> string \<Rightarrow> int \<Rightarrow> sched_store \<Rightarrow> sched_error + schedule" where
  "get_revision canonical sid revision st =
     (case dget (sc_revisions st) (sid, revision) of
        None \<Rightarrow> Inl (ScheduleNotFound (''revision '' @ int_text revision @ '' of schedule '' @ sid))
      | Some row \<Rightarrow> map_sum (\<lambda>e. ScheduleStoreError (''invalid schedule revision: '' @ e)) id
          (schedule_from_mapping canonical (rv_definition row)))"

definition revisable_fields :: "string list" where
  "revisable_fields = [''workflow_name'', ''prompt'', ''profile_name'', ''permission_ceiling'',
     ''recurrence_kind'', ''recurrence_spec'', ''timezone'', ''coalesce_policy'', ''max_in_flight'',
     ''next_run_at'', ''enabled'', ''config_path'', ''deleted_at'']"

definition unsupported_fields :: "string list \<Rightarrow> payload \<Rightarrow> string list" where
  "unsupported_fields allowed changes = sort (remdups (filter (\<lambda>k. k \<notin> set allowed) (keys changes)))"

definition unsupported_error :: "string list \<Rightarrow> sched_error" where
  "unsupported_error names = ScheduleValueError (''unsupported schedule fields: '' @ join '', '' names)"

text \<open>\<open>payload.update(changes)\<close> on a dictionary.\<close>

definition dupdate :: "('k \<times> 'v) list \<Rightarrow> ('k \<times> 'v) list \<Rightarrow> ('k \<times> 'v) list" where
  "dupdate changes d = fold (\<lambda>(k, v). dset k v) changes d"

definition revised_payload :: "schedule \<Rightarrow> payload \<Rightarrow> pyfloat \<Rightarrow> payload" where
  "revised_payload current changes now =
     dset ''updated_at'' (PFloat now) (dset ''revision'' (PInt (sd_revision current + 1))
       (dupdate changes (schedule_to_dict current)))"

text \<open>The columns the \<open>UPDATE\<close> of \<open>revise\<close> writes.\<close>

definition revised_row :: "schedule \<Rightarrow> schedule \<Rightarrow> schedule" where
  "revised_row current updated = updated\<lparr>sd_schedule_id := sd_schedule_id current,
     sd_repository_root := sd_repository_root current, sd_creator := sd_creator current,
     sd_created_at := sd_created_at current\<rparr>"

definition revise ::
  "(string \<Rightarrow> string) \<Rightarrow> string \<Rightarrow> int \<Rightarrow> string \<Rightarrow> string \<Rightarrow> pyfloat \<Rightarrow> payload \<Rightarrow> sched_store
   \<Rightarrow> sched_error + schedule \<times> sched_store" where
  "revise canonical sid expected action actor now changes st =
     (if unsupported_fields revisable_fields changes \<noteq> []
      then Inl (unsupported_error (unsupported_fields revisable_fields changes))
      else case live_row sid st of
        None \<Rightarrow> Inl (ScheduleNotFound sid)
      | Some row \<Rightarrow>
          bindE (schedule_from_row canonical row) (\<lambda>current.
          if sd_revision current \<noteq> expected
          then Inl (ScheduleConflict (''schedule revision changed: expected '' @ int_text expected
                 @ '', found '' @ int_text (sd_revision current)))
          else bindE (value_error (schedule_from_mapping canonical (revised_payload current changes now)))
            (\<lambda>updated. bindE
               (insert_audit updated action actor now
                 (st\<lparr>sc_schedules := dset sid (revised_row current updated) (sc_schedules st)\<rparr>))
               (\<lambda>st'. Inr (updated, st')))))"

definition update_cursor ::
  "string \<Rightarrow> int \<Rightarrow> pyfloat option \<Rightarrow> pyfloat \<Rightarrow> sched_store \<Rightarrow> sched_error + sched_store" where
  "update_cursor sid expected next_run now st =
     (case live_row sid st of
        Some row \<Rightarrow>
          if sd_revision row = expected \<and> sd_enabled row
          then Inr (st\<lparr>sc_schedules :=
                 dset sid (row\<lparr>sd_next_run_at := next_run, sd_updated_at := now\<rparr>) (sc_schedules st)\<rparr>)
          else Inl (ScheduleConflict ''schedule changed before occurrence cursor could advance'')
      | None \<Rightarrow> Inl (ScheduleConflict ''schedule changed before occurrence cursor could advance''))"

section \<open>Occurrences\<close>

definition get_occurrence :: "string \<Rightarrow> sched_store \<Rightarrow> sched_error + occurrence" where
  "get_occurrence oid st =
     (case dget (sc_occurrences st) oid of
        None \<Rightarrow> Inl (ScheduleNotFound (''occurrence '' @ oid)) | Some oc \<Rightarrow> Inr oc)"

definition find_by_key :: "string \<Rightarrow> sched_store \<Rightarrow> occurrence option" where
  "find_by_key key st = find (\<lambda>oc. oc_occurrence_key oc = key) (map snd (sc_occurrences st))"

definition get_occurrence_by_key :: "string \<Rightarrow> sched_store \<Rightarrow> sched_error + occurrence" where
  "get_occurrence_by_key key st =
     (case find_by_key key st of
        None \<Rightarrow> Inl (ScheduleNotFound (''occurrence key '' @ key)) | Some oc \<Rightarrow> Inr oc)"

text \<open>
  An \<open>INSERT\<close> of a receipt, with the constraints of the table: the primary key, the unique
  occurrence key and the foreign key.
\<close>

definition insert_occurrence :: "occurrence \<Rightarrow> sched_store \<Rightarrow> sched_error + sched_store" where
  "insert_occurrence oc st =
     (if oc_occurrence_id oc \<in> set (keys (sc_occurrences st))
         \<or> find_by_key (oc_occurrence_key oc) st \<noteq> None
         \<or> oc_schedule_id oc \<notin> set (keys (sc_schedules st))
      then Inl SqliteIntegrityError
      else Inr (st\<lparr>sc_occurrences := sc_occurrences st @ [(oc_occurrence_id oc, oc)]\<rparr>))"

text \<open>
  What the three inserting operations do when the transaction ends: a violated constraint returns
  the receipt already stored under the key.
\<close>

definition inserted :: "string \<Rightarrow> string \<Rightarrow> sched_store \<Rightarrow> sched_error + sched_store \<Rightarrow> sched_error + occurrence \<times> sched_store" where
  "inserted key oid st r =
     (case r of
        Inr st' \<Rightarrow> bindE (get_occurrence oid st') (\<lambda>oc. Inr (oc, st'))
      | Inl SqliteIntegrityError \<Rightarrow>
          (case get_occurrence_by_key key st of
             Inr oc \<Rightarrow> Inr (oc, st)
           | Inl _ \<Rightarrow> Inl (ScheduleConflict ''schedule occurrence was already claimed''))
      | Inl e \<Rightarrow> Inl e)"

record occurrence_request =
  rq_schedule :: schedule
  rq_occurrence_id :: string
  rq_occurrence_key :: string
  rq_scheduled_for :: pyfloat
  rq_session_id :: string
  rq_now :: pyfloat

definition fresh_occurrence ::
  "occurrence_request \<Rightarrow> string \<Rightarrow> occurrence_state \<Rightarrow> string \<Rightarrow> int \<Rightarrow> payload option \<Rightarrow> occurrence" where
  "fresh_occurrence rq kind state retry_of attempt receipt =
     \<lparr>oc_occurrence_id = rq_occurrence_id rq, oc_schedule_id = sd_schedule_id (rq_schedule rq),
      oc_schedule_revision = sd_revision (rq_schedule rq), oc_occurrence_key = rq_occurrence_key rq,
      oc_kind = kind, oc_scheduled_for = rq_scheduled_for rq, oc_created_at = rq_now rq,
      oc_updated_at = rq_now rq, oc_state = state, oc_session_id = rq_session_id rq,
      oc_worktree = None, oc_base_commit = [], oc_retry_of = retry_of, oc_coalesced_count = 0,
      oc_attempt = attempt, oc_receipt = receipt, oc_outcome = None, oc_error = []\<rparr>"

definition create_occurrence ::
  "occurrence_request \<Rightarrow> string \<Rightarrow> occurrence_state \<Rightarrow> payload option \<Rightarrow> string \<Rightarrow> int \<Rightarrow> sched_store
   \<Rightarrow> sched_error + occurrence \<times> sched_store" where
  "create_occurrence rq kind state receipt retry_of attempt st =
     inserted (rq_occurrence_key rq) (rq_occurrence_id rq) st
       (insert_occurrence (fresh_occurrence rq kind state retry_of attempt receipt) st)"

definition inflight_for :: "string \<Rightarrow> sched_store \<Rightarrow> occurrence list" where
  "inflight_for sid st =
     filter (\<lambda>oc. oc_schedule_id oc = sid \<and> in_flight oc) (map snd (sc_occurrences st))"

text \<open>The admission of a run-now request under the policy of its schedule.\<close>

definition admission :: "schedule \<Rightarrow> occurrence_state list \<Rightarrow> string + occurrence_state" where
  "admission s states =
     (case sd_coalesce_policy s of
        CoalesceSkip \<Rightarrow>
          if states \<noteq> [] then Inl ''this schedule already has an in-flight occurrence (policy: skip)''
          else Inr OAwaitingService
      | CoalesceQueueOne \<Rightarrow>
          if list_ex (\<lambda>x. x \<in> {OAwaitingService, OQueued}) states
          then Inl ''this schedule already has its one pending queued occurrence''
          else Inr (if list_ex (\<lambda>x. x \<in> {OPreparing, OWaitingCapacity, ORunning}) states
                    then OQueued else OAwaitingService)
      | CoalesceAllowBounded \<Rightarrow>
          if sd_max_in_flight s \<le> int (length states) then Inl ''schedule max_in_flight has been reached''
          else Inr OAwaitingService)"

definition manual_receipt :: "payload \<Rightarrow> occurrence_state \<Rightarrow> string \<Rightarrow> string \<Rightarrow> payload" where
  "manual_receipt receipt state actor session_id =
     dupdate [(''scheduler_state'', PStr (if state = OQueued then ''queued'' else ''awaiting_service'')),
       (''accepted_by'', PStr actor), (''session_id'', PStr session_id)] receipt"

definition create_manual_occurrence ::
  "(string \<Rightarrow> string) \<Rightarrow> occurrence_request \<Rightarrow> string \<Rightarrow> payload \<Rightarrow> sched_store
   \<Rightarrow> sched_error + occurrence \<times> sched_store" where
  "create_manual_occurrence canonical rq actor receipt st =
     (let s = rq_schedule rq in
      case live_row (sd_schedule_id s) st of
        None \<Rightarrow> Inl (ScheduleNotFound (sd_schedule_id s))
      | Some row \<Rightarrow>
          bindE (schedule_from_row canonical row) (\<lambda>current.
          if sd_revision current \<noteq> sd_revision s
          then Inl (ScheduleConflict ''schedule definition changed before run-now admission'')
          else bindE (value_error (admission s (map oc_state (inflight_for (sd_schedule_id s) st)))) (\<lambda>state.
            inserted (rq_occurrence_key rq) (rq_occurrence_id rq) st
              (insert_occurrence (fresh_occurrence rq ''manual'' state [] 1
                 (Some (manual_receipt receipt state actor (rq_session_id rq)))) st))))"

text \<open>The row is still the one the scheduler saw, due at the expected time.\<close>

definition claimable :: "schedule \<Rightarrow> pyfloat \<Rightarrow> schedule \<Rightarrow> bool" where
  "claimable s due row \<longleftrightarrow> sd_revision row = sd_revision s \<and> sd_next_run_at row = Some due
     \<and> sd_enabled row \<and> sd_deleted_at row = None"

definition claim_receipt :: "occurrence_request \<Rightarrow> payload" where
  "claim_receipt rq = [(''session_id'', PStr (rq_session_id rq)), (''claimed_at'', PFloat (rq_now rq))]"

definition coalesce_into :: "string \<Rightarrow> pyfloat option \<Rightarrow> pyfloat \<Rightarrow> sched_error \<Rightarrow> sched_store \<Rightarrow> sched_error + sched_store" where
  "coalesce_into oid scheduled_for now e st =
     (case dget (sc_occurrences st) oid of
        None \<Rightarrow> Inl e
      | Some oc \<Rightarrow>
          if oc_state oc \<noteq> OQueued then Inl e
          else Inr (st\<lparr>sc_occurrences := dset oid (oc\<lparr>oc_coalesced_count := oc_coalesced_count oc + 1,
                 oc_scheduled_for := (case scheduled_for of None \<Rightarrow> oc_scheduled_for oc | Some t \<Rightarrow> t),
                 oc_updated_at := now\<rparr>) (sc_occurrences st)\<rparr>))"

definition claim_due_occurrence ::
  "occurrence_request \<Rightarrow> pyfloat option \<Rightarrow> occurrence_state \<Rightarrow> string \<Rightarrow> sched_store
   \<Rightarrow> sched_error + occurrence \<times> sched_store" where
  "claim_due_occurrence rq next_run state target st =
     (let s = rq_schedule rq; sid = sd_schedule_id s in
      case dget (sc_schedules st) sid of
        Some row \<Rightarrow>
          if claimable s (rq_scheduled_for rq) row
          then (let st1 = st\<lparr>sc_schedules := dset sid
                      (row\<lparr>sd_next_run_at := next_run, sd_updated_at := rq_now rq\<rparr>) (sc_schedules st)\<rparr>
                in if target \<noteq> []
                   then bindE (coalesce_into target (Some (rq_scheduled_for rq)) (rq_now rq)
                          (ScheduleConflict ''queued occurrence changed before coalescing'') st1)
                        (\<lambda>st2. bindE (get_occurrence target st2) (\<lambda>oc. Inr (oc, st2)))
                   else inserted (rq_occurrence_key rq) (rq_occurrence_id rq) st
                          (insert_occurrence (fresh_occurrence rq ''scheduled'' state [] 1
                             (Some (claim_receipt rq))) st1))
          else (case find_by_key (rq_occurrence_key rq) st of
                  Some oc \<Rightarrow> Inr (oc, st)
                | None \<Rightarrow> Inl (ScheduleConflict ''schedule cursor changed before due occurrence claim''))
      | None \<Rightarrow>
          (case find_by_key (rq_occurrence_key rq) st of
             Some oc \<Rightarrow> Inr (oc, st)
           | None \<Rightarrow> Inl (ScheduleConflict ''schedule cursor changed before due occurrence claim'')))"

text \<open>\<open>LIMIT n\<close>.\<close>

fun sql_limit :: "int \<Rightarrow> 'a list \<Rightarrow> 'a list" where
  "sql_limit n [] = []"
| "sql_limit n (x # xs) = (if n \<le> 0 then [] else x # sql_limit (n - 1) xs)"

definition list_occurrences ::
  "occurrence_state list \<Rightarrow> int \<Rightarrow> sched_store \<Rightarrow> sched_error + occurrence list" where
  "list_occurrences states limit st =
     (if limit < 1 \<or> 5000 < limit
      then Inl (ScheduleValueError ''occurrence list limit must be between 1 and 5000'')
      else Inr (sql_limit limit (sort_key (\<lambda>oc. (oc_created_at oc, oc_occurrence_id oc))
        (filter (\<lambda>oc. states = [] \<or> oc_state oc \<in> set states) (map snd (sc_occurrences st))))))"

definition history ::
  "string \<Rightarrow> int \<Rightarrow> pyfloat option \<Rightarrow> sched_store \<Rightarrow> sched_error + occurrence list" where
  "history sid limit before st =
     (if limit < 1 \<or> 500 < limit then Inl (ScheduleValueError ''history limit must be between 1 and 500'')
      else Inr (sql_limit limit (rev (sort_key (\<lambda>oc. (oc_created_at oc, oc_occurrence_id oc))
        (filter (\<lambda>oc. oc_schedule_id oc = sid
             \<and> (case before of None \<Rightarrow> True | Some b \<Rightarrow> f_lt (oc_created_at oc) b))
          (map snd (sc_occurrences st)))))))"

text \<open>The keyword arguments of \<open>update_occurrence\<close> with the types its callers give them.\<close>

datatype occurrence_change =
    SetState occurrence_state
  | SetSessionId string
  | SetWorktree "payload option"
  | SetBaseCommit string
  | SetCoalescedCount int
  | SetAttempt int
  | SetReceipt "payload option"
  | SetOutcome "payload option"
  | SetError string

fun apply_change :: "occurrence_change \<Rightarrow> occurrence \<Rightarrow> occurrence" where
  "apply_change (SetState x) oc = oc\<lparr>oc_state := x\<rparr>"
| "apply_change (SetSessionId x) oc = oc\<lparr>oc_session_id := x\<rparr>"
| "apply_change (SetWorktree x) oc = oc\<lparr>oc_worktree := x\<rparr>"
| "apply_change (SetBaseCommit x) oc = oc\<lparr>oc_base_commit := x\<rparr>"
| "apply_change (SetCoalescedCount x) oc = oc\<lparr>oc_coalesced_count := x\<rparr>"
| "apply_change (SetAttempt x) oc = oc\<lparr>oc_attempt := x\<rparr>"
| "apply_change (SetReceipt x) oc = oc\<lparr>oc_receipt := x\<rparr>"
| "apply_change (SetOutcome x) oc = oc\<lparr>oc_outcome := x\<rparr>"
| "apply_change (SetError x) oc = oc\<lparr>oc_error := x\<rparr>"

definition update_occurrence ::
  "string \<Rightarrow> pyfloat \<Rightarrow> occurrence_state list \<Rightarrow> occurrence_change list \<Rightarrow> sched_store
   \<Rightarrow> sched_error + occurrence \<times> sched_store" where
  "update_occurrence oid now expected changes st =
     (let conflict = ScheduleConflict (''occurrence '' @ oid @ '' changed before update'') in
      case dget (sc_occurrences st) oid of
        None \<Rightarrow> Inl conflict
      | Some oc \<Rightarrow>
          if expected \<noteq> [] \<and> oc_state oc \<notin> set expected then Inl conflict
          else let oc' = (fold apply_change changes oc)\<lparr>oc_updated_at := now\<rparr>
               in Inr (oc', st\<lparr>sc_occurrences := dset oid oc' (sc_occurrences st)\<rparr>))"

definition coalesce_pending_occurrence ::
  "string \<Rightarrow> pyfloat \<Rightarrow> sched_store \<Rightarrow> sched_error + occurrence \<times> sched_store" where
  "coalesce_pending_occurrence oid now st =
     bindE (coalesce_into oid None now
       (ScheduleConflict ''queued coalesced occurrence is no longer pending'') st)
       (\<lambda>st'. bindE (get_occurrence oid st') (\<lambda>oc. Inr (oc, st')))"

definition update_coalesced ::
  "string \<Rightarrow> pyfloat \<Rightarrow> pyfloat \<Rightarrow> sched_store \<Rightarrow> sched_error + occurrence \<times> sched_store" where
  "update_coalesced oid scheduled_for now st =
     bindE (coalesce_into oid (Some scheduled_for) now
       (ScheduleConflict ''queued occurrence changed before coalescing'') st)
       (\<lambda>st'. bindE (get_occurrence oid st') (\<lambda>oc. Inr (oc, st')))"

definition due_schedules ::
  "(string \<Rightarrow> string) \<Rightarrow> pyfloat \<Rightarrow> int \<Rightarrow> sched_store \<Rightarrow> sched_error + schedule list" where
  "due_schedules canonical now limit st =
     mapE (schedule_from_row canonical)
       (sql_limit limit (sort_key (\<lambda>s. (case sd_next_run_at s of None \<Rightarrow> NaN | Some t \<Rightarrow> t, sd_schedule_id s))
         (filter (\<lambda>s. sd_enabled s \<and> sd_deleted_at s = None
             \<and> (case sd_next_run_at s of None \<Rightarrow> False | Some t \<Rightarrow> f_le t now))
           (map snd (sc_schedules st)))))"

lemma sql_limit_take: "sql_limit n xs = take (nat n) xs"
proof (induction n xs rule: sql_limit.induct)
  case (2 n x xs)
  then show ?case by (cases "nat n") (auto simp: nat_diff_distrib')
qed simp

lemma set_sql_limit: "set (sql_limit n xs) \<subseteq> set xs"
  by (simp add: sql_limit_take set_take_subset)

end
