(* ===== verification/Modes.thy ===== *)
theory Modes
  imports Prelude
begin

text \<open>
  Execution modes and the capability gate (\<open>src/agenthicc/tui/runtime/mode_manager.py\<close>,
  \<open>tools/capabilities.py\<close> and \<open>tools/capability_gate.py\<close>): canonical names and aliases, the registry
  of modes with its internal entries, the manager of the active mode, the classification of the
  capabilities a tool declares, and the decision of the gate before a call. What a mode looks like
  (badge, colour, description, prompt text) is not modelled.
\<close>

section \<open>Capabilities\<close>

datatype capability =
    CapRead | CapWrite | CapExecute | CapGitRead | CapGitWrite | CapNetwork | CapSearch
  | CapControl | CapUndeclared

fun capability_value :: "capability \<Rightarrow> string" where
  "capability_value CapRead = ''read''"
| "capability_value CapWrite = ''write''"
| "capability_value CapExecute = ''execute''"
| "capability_value CapGitRead = ''git_read''"
| "capability_value CapGitWrite = ''git_write''"
| "capability_value CapNetwork = ''network''"
| "capability_value CapSearch = ''search''"
| "capability_value CapControl = ''control''"
| "capability_value CapUndeclared = ''undeclared''"

definition all_capabilities :: "capability list" where
  "all_capabilities = [CapRead, CapWrite, CapExecute, CapGitRead, CapGitWrite, CapNetwork, CapSearch,
     CapControl, CapUndeclared]"

definition capability_parse :: "string \<Rightarrow> capability option" where
  "capability_parse = enum_find capability_value all_capabilities"

interpretation capability_enum: string_enum capability_value capability_parse
proof
  show "capability_parse (capability_value x) = Some x" for x
    by (cases x) (simp_all add: capability_parse_def enum_find_def all_capabilities_def)
  show "capability_parse s = Some x \<Longrightarrow> capability_value x = s" for s x
    unfolding capability_parse_def by (rule enum_find_label)
qed

text \<open>
  The declared metadata of a tool: a set of items, where a member of the enumeration is its text,
  or anything else.
\<close>

definition item_capability :: "pyval \<Rightarrow> capability option" where
  "item_capability v = Option.bind (str_of v) capability_parse"

definition classify_tool_capabilities :: "pyval \<Rightarrow> capability set" where
  "classify_tool_capabilities raw =
     (case raw of
        PSet items \<Rightarrow>
          if items = [] then {CapUndeclared}
          else (let values = List.map_filter item_capability items;
                    malformed = list_ex (\<lambda>v. item_capability v = None) items
                in if values = [] then {CapUndeclared}
                   else if malformed then insert CapUndeclared (set values) else set values)
      | _ \<Rightarrow> {CapUndeclared})"

definition get_tool_capabilities :: "pyval \<Rightarrow> capability set" where
  "get_tool_capabilities raw =
     (case raw of
        PSet items \<Rightarrow>
          if list_all (\<lambda>v. item_capability v \<noteq> None) items then set (List.map_filter item_capability items)
          else {}
      | _ \<Rightarrow> {})"

section \<open>Names\<close>

definition mode_aliases :: "string pydict" where
  "mode_aliases = [(''auto'', ''Yolo''), (''guard'', ''Safe''), (''ask'', ''Safe''), (''review'', ''Plan'')]"

definition selectable_mode_names :: "string list" where
  "selectable_mode_names = [''Safe'', ''Plan'', ''Yolo'']"

definition internal_mode_names :: "string list" where
  "internal_mode_names = [''Replay'']"

definition canonical_names :: "string pydict" where
  "canonical_names = map (\<lambda>n. (py_casefold n, n)) (selectable_mode_names @ internal_mode_names)"

definition normalize_name :: "string \<Rightarrow> string" where
  "normalize_name name = py_casefold (py_strip name)"

definition canonical_mode_name :: "string \<Rightarrow> string" where
  "canonical_mode_name name =
     (let key = normalize_name name
      in dget_or mode_aliases key (dget_or canonical_names key (py_strip name)))"

section \<open>Modes\<close>

record runtime_mode =
  md_name :: string
  md_blocked :: "capability set"
  md_approval :: "capability set"
  md_default_workflow :: "string option"
  md_workflows :: "string list"

definition restricted_capabilities :: "capability set" where
  "restricted_capabilities = {CapWrite, CapGitWrite, CapExecute, CapNetwork, CapUndeclared}"

definition builtin_mode :: "string \<Rightarrow> string option \<Rightarrow> string list \<Rightarrow> string + runtime_mode" where
  "builtin_mode name workflow workflows =
     (if name = ''Safe'' then Inr \<lparr>md_name = ''Safe'', md_blocked = {}, md_approval = restricted_capabilities,
        md_default_workflow = workflow, md_workflows = workflows\<rparr>
      else if name = ''Plan'' then Inr \<lparr>md_name = ''Plan'', md_blocked = restricted_capabilities, md_approval = {},
        md_default_workflow = workflow, md_workflows = workflows\<rparr>
      else if name = ''Yolo'' then Inr \<lparr>md_name = ''Yolo'', md_blocked = {}, md_approval = {},
        md_default_workflow = workflow, md_workflows = workflows\<rparr>
      else Inl (py_repr name @ '' is not a built-in mode (Safe, Plan or Yolo)''))"

definition restrict_mode :: "runtime_mode \<Rightarrow> runtime_mode \<Rightarrow> runtime_mode" where
  "restrict_mode mode limit =
     (let blocked = md_blocked mode \<union> md_blocked limit;
          approval = (md_approval mode \<union> md_approval limit) - blocked
      in if blocked = md_blocked mode \<and> approval = md_approval mode then mode
         else mode\<lparr>md_blocked := blocked, md_approval := approval\<rparr>)"

definition replay_mode :: runtime_mode where
  "replay_mode = \<lparr>md_name = ''Replay'', md_blocked = set all_capabilities, md_approval = {},
     md_default_workflow = None, md_workflows = []\<rparr>"

section \<open>The registry\<close>

datatype mode_error = UnknownMode string "string list" | ModeValueError string

record mode_registry =
  rg_modes :: "runtime_mode pydict"
  rg_order :: "string list"
  rg_internal :: "string list"
  rg_aliases :: "string pydict"

definition registry_empty :: "string pydict \<Rightarrow> mode_registry" where
  "registry_empty aliases = \<lparr>rg_modes = [], rg_order = [], rg_internal = [],
     rg_aliases = fold (\<lambda>(a, t). dset (normalize_name a) t) aliases []\<rparr>"

definition validate_name :: "string \<Rightarrow> mode_error + string" where
  "validate_name name =
     (if py_strip name = [] then Inl (ModeValueError ''Mode names must be non-empty strings.'')
      else Inr (py_strip name))"

definition register_mode :: "bool \<Rightarrow> runtime_mode \<Rightarrow> mode_registry \<Rightarrow> mode_error + mode_registry" where
  "register_mode selectable mode rg =
     bindE (validate_name (md_name mode)) (\<lambda>name.
       let key = normalize_name name in
       if key \<in> set (keys (rg_aliases rg))
       then Inl (ModeValueError (''Mode name '' @ py_repr name @ '' collides with an existing alias.''))
       else if key \<in> set (keys (rg_modes rg))
       then Inl (ModeValueError (''Mode '' @ py_repr name @ '' is already registered.''))
       else let rg' = rg\<lparr>rg_modes := dset key mode (rg_modes rg)\<rparr>
            in Inr (if selectable then rg'\<lparr>rg_order := rg_order rg @ [key]\<rparr>
                    else rg'\<lparr>rg_internal := key # rg_internal rg\<rparr>))"

definition selectable_names :: "mode_registry \<Rightarrow> string list" where
  "selectable_names rg = map (\<lambda>k. md_name (the (dget (rg_modes rg) k))) (rg_order rg)"

definition resolve_mode :: "string \<Rightarrow> mode_registry \<Rightarrow> mode_error + runtime_mode" where
  "resolve_mode name rg =
     (if py_strip name = [] then Inl (UnknownMode name (selectable_names rg))
      else let key = normalize_name name; canonical = dget_or (rg_aliases rg) key key
           in case dget (rg_modes rg) (normalize_name canonical) of
                None \<Rightarrow> Inl (UnknownMode name (selectable_names rg))
              | Some mode \<Rightarrow> Inr mode)"

definition register_alias :: "string \<Rightarrow> string \<Rightarrow> mode_registry \<Rightarrow> mode_error + mode_registry" where
  "register_alias alias target rg =
     bindE (validate_name alias) (\<lambda>name. let key = normalize_name name in
     bindE (resolve_mode target rg) (\<lambda>mode.
       if key \<in> set (keys (rg_modes rg))
       then Inl (ModeValueError (''Alias '' @ py_repr alias @ '' collides with a registered mode.''))
       else case dget (rg_aliases rg) key of
              Some existing \<Rightarrow>
                if existing \<noteq> md_name mode
                then Inl (ModeValueError (''Alias '' @ py_repr alias @ '' already targets '' @ py_repr existing @ ''.''))
                else Inr (rg\<lparr>rg_aliases := dset key (md_name mode) (rg_aliases rg)\<rparr>)
            | None \<Rightarrow> Inr (rg\<lparr>rg_aliases := dset key (md_name mode) (rg_aliases rg)\<rparr>)))"

definition all_modes :: "bool \<Rightarrow> mode_registry \<Rightarrow> runtime_mode list" where
  "all_modes include_internal rg =
     map (\<lambda>k. the (dget (rg_modes rg) k))
       (rg_order rg @ (if include_internal then filter (\<lambda>k. k \<in> set (rg_internal rg)) (keys (rg_modes rg)) else []))"

definition is_internal :: "string \<Rightarrow> mode_registry \<Rightarrow> bool" where
  "is_internal name rg =
     (case resolve_mode name rg of
        Inl _ \<Rightarrow> False | Inr mode \<Rightarrow> normalize_name (md_name mode) \<in> set (rg_internal rg))"

definition get_mode :: "string \<Rightarrow> bool \<Rightarrow> mode_registry \<Rightarrow> runtime_mode option" where
  "get_mode name include_internal rg =
     (case resolve_mode name rg of
        Inl _ \<Rightarrow> None
      | Inr mode \<Rightarrow>
          if \<not> include_internal \<and> normalize_name (md_name mode) \<in> set (rg_internal rg) then None else Some mode)"

text \<open>Workflow bindings discovered late: canonical names, the first binding of a name wins.\<close>

definition reserved_name :: "string \<Rightarrow> bool" where
  "reserved_name canonical \<longleftrightarrow> py_casefold canonical \<in> {''replay'', ''debug''}"

definition canonical_workflow_map :: "string pydict \<Rightarrow> string pydict" where
  "canonical_workflow_map values = fold (\<lambda>(name, workflow) result.
     let canonical = canonical_mode_name name in
     if \<not> reserved_name canonical \<and> canonical \<notin> set (keys result) then dset canonical workflow result
     else result) values []"

definition canonical_available_map :: "string list pydict \<Rightarrow> string list pydict" where
  "canonical_available_map values = fold (\<lambda>(name, workflows) result.
     let canonical = canonical_mode_name name in
     if reserved_name canonical then result
     else dset canonical (fold (\<lambda>w entries. if w \<in> set entries then entries else entries @ [w]) workflows
            (dget_or result canonical [])) result) values []"

definition refresh_workflows :: "string pydict \<Rightarrow> string list pydict \<Rightarrow> mode_registry \<Rightarrow> mode_registry" where
  "refresh_workflows default_map available_map rg =
     (let defaults = canonical_workflow_map default_map; available = canonical_available_map available_map
      in rg\<lparr>rg_modes := map (\<lambda>(key, mode).
            if key \<in> set (rg_internal rg) then (key, mode)
            else (key, mode\<lparr>md_default_workflow := dget defaults (md_name mode),
                    md_workflows := dget_or available (md_name mode) []\<rparr>)) (rg_modes rg)\<rparr>)"

text \<open>One mode of a plugin file: it gets the conservative policy and never replaces a mode.\<close>

definition adapt_plugin :: "string pydict \<Rightarrow> string list pydict \<Rightarrow> string \<Rightarrow> mode_registry \<Rightarrow> mode_registry" where
  "adapt_plugin defaults available name rg =
     (if normalize_name name = ''debug'' then rg
      else if normalize_name name \<in> set (keys (rg_aliases rg)) then rg
      else if get_mode name True rg \<noteq> None then rg
      else case register_mode True \<lparr>md_name = name, md_blocked = {}, md_approval = restricted_capabilities,
               md_default_workflow = dget defaults name, md_workflows = dget_or available name []\<rparr> rg of
             Inl _ \<Rightarrow> rg | Inr rg' \<Rightarrow> rg')"

definition build_default_registry :: "string pydict \<Rightarrow> string list pydict \<Rightarrow> string list \<Rightarrow> mode_error + mode_registry" where
  "build_default_registry default_map available_map plugins =
     (let defaults = canonical_workflow_map default_map; available = canonical_available_map available_map;
          builtin = (\<lambda>name rg. bindE (map_sum ModeValueError id
            (builtin_mode name (dget defaults name) (dget_or available name []))) (\<lambda>m. register_mode True m rg))
      in bindE (builtin ''Safe'' (registry_empty mode_aliases)) (\<lambda>rg1.
         bindE (builtin ''Plan'' rg1) (\<lambda>rg2.
         bindE (builtin ''Yolo'' rg2) (\<lambda>rg3.
         bindE (register_mode False replay_mode rg3) (\<lambda>rg4.
         Inr (fold (adapt_plugin defaults available) plugins rg4))))))"

section \<open>The active mode\<close>

record mode_manager =
  mm_registry :: mode_registry
  mm_active_name :: string

definition default_mode_name :: string where
  "default_mode_name = ''Safe''"

definition fallback_mode :: runtime_mode where
  "fallback_mode = \<lparr>md_name = default_mode_name, md_blocked = {}, md_approval = {},
     md_default_workflow = None, md_workflows = []\<rparr>"

definition initial_name :: "mode_registry \<Rightarrow> string \<Rightarrow> mode_error + string" where
  "initial_name rg requested =
     (case resolve_mode requested rg of
        Inl e \<Rightarrow>
          if normalize_name requested = normalize_name default_mode_name
          then Inr (case all_modes False rg of [] \<Rightarrow> default_mode_name | m # _ \<Rightarrow> md_name m)
          else Inl e
      | Inr mode \<Rightarrow>
          if is_internal (md_name mode) rg then Inl (UnknownMode requested (selectable_names rg))
          else Inr (md_name mode))"

definition manager_init :: "mode_registry \<Rightarrow> string \<Rightarrow> mode_error + mode_manager" where
  "manager_init rg requested =
     bindE (initial_name rg requested) (\<lambda>n. Inr \<lparr>mm_registry = rg, mm_active_name = n\<rparr>)"

definition active_mode :: "mode_manager \<Rightarrow> runtime_mode" where
  "active_mode mm =
     (case get_mode (mm_active_name mm) True (mm_registry mm) of
        Some mode \<Rightarrow> mode
      | None \<Rightarrow> (case all_modes False (mm_registry mm) of [] \<Rightarrow> fallback_mode | m # _ \<Rightarrow> m))"

fun list_index :: "'a \<Rightarrow> 'a list \<Rightarrow> nat option" where
  "list_index x [] = None"
| "list_index x (y # ys) = (if y = x then Some 0 else map_option Suc (list_index x ys))"

definition cycle_mode :: "mode_manager \<Rightarrow> mode_manager" where
  "cycle_mode mm =
     (let names = map md_name (all_modes False (mm_registry mm)) in
      if names = [] then mm
      else let i = (case list_index (md_name (active_mode mm)) names of None \<Rightarrow> 0 | Some k \<Rightarrow> k + 1)
           in mm\<lparr>mm_active_name := names ! (i mod length names)\<rparr>)"

definition set_by_name :: "string \<Rightarrow> mode_manager \<Rightarrow> runtime_mode option \<times> mode_manager" where
  "set_by_name name mm =
     (case resolve_mode name (mm_registry mm) of
        Inl _ \<Rightarrow> (None, mm)
      | Inr mode \<Rightarrow>
          if is_internal (md_name mode) (mm_registry mm) then (None, mm)
          else (Some mode, mm\<lparr>mm_active_name := md_name mode\<rparr>))"

definition set_internal_by_name :: "string \<Rightarrow> mode_manager \<Rightarrow> runtime_mode option \<times> mode_manager" where
  "set_internal_by_name name mm =
     (case resolve_mode name (mm_registry mm) of
        Inl _ \<Rightarrow> (None, mm)
      | Inr mode \<Rightarrow>
          if \<not> is_internal (md_name mode) (mm_registry mm) then set_by_name (md_name mode) mm
          else (Some mode, mm\<lparr>mm_active_name := md_name mode\<rparr>))"

definition restore_mode :: "runtime_mode \<Rightarrow> mode_manager \<Rightarrow> mode_error + runtime_mode \<times> mode_manager" where
  "restore_mode mode mm =
     (let r = (if is_internal (md_name mode) (mm_registry mm) then set_internal_by_name (md_name mode) mm
               else set_by_name (md_name mode) mm)
      in case fst r of
           None \<Rightarrow> Inl (UnknownMode (md_name mode) (selectable_names (mm_registry mm)))
         | Some restored \<Rightarrow> Inr (restored, snd r))"

definition resolve_selectable :: "string \<Rightarrow> mode_manager \<Rightarrow> mode_error + runtime_mode" where
  "resolve_selectable name mm =
     bindE (resolve_mode name (mm_registry mm)) (\<lambda>mode.
       if is_internal (md_name mode) (mm_registry mm)
       then Inl (UnknownMode name (selectable_names (mm_registry mm))) else Inr mode)"

definition phase_mode :: "runtime_mode \<Rightarrow> mode_manager option \<Rightarrow> string option \<Rightarrow> mode_error + runtime_mode" where
  "phase_mode active manager override =
     (case override of
        None \<Rightarrow> Inr active
      | Some n \<Rightarrow> if n = [] then Inr active
                  else (case manager of None \<Rightarrow> Inr active | Some mm \<Rightarrow> resolve_selectable n mm))"

section \<open>The gate\<close>

datatype hook_decision = Proceed | Abort string string

definition quoted :: "string \<Rightarrow> string" where
  "quoted s = char_of (39::nat) # s @ [char_of (39::nat)]"

text \<open>\<open>", ".join(sorted(caps))\<close>.\<close>

definition caps_text :: "capability set \<Rightarrow> string" where
  "caps_text caps = join '', '' (sort (map capability_value (filter (\<lambda>c. c \<in> caps) all_capabilities)))"

definition blocked_message :: "runtime_mode \<Rightarrow> string \<Rightarrow> capability set \<Rightarrow> string \<Rightarrow> capability set \<Rightarrow> string" where
  "blocked_message mode type_name type_denied tool_name denied =
     (let denied_by_type = denied \<inter> type_denied in
      if denied_by_type \<noteq> {} \<and> type_name \<noteq> []
      then ''Tool '' @ quoted tool_name @ '' requires '' @ caps_text denied_by_type
        @ '' capability, blocked by the '' @ type_name @ '' type'' @ [char_of (39::nat)]
        @ ''s permissions.deny_capabilities constraint. This type-level restriction cannot be widened by the worker.''
      else ''Tool '' @ quoted tool_name @ '' ''
        @ (if CapUndeclared \<in> denied then ''has no declared capability metadata''
           else ''requires '' @ caps_text denied @ '' capability'')
        @ '', which is blocked in '' @ md_name mode
        @ '' mode. Switch to Yolo mode or annotate it as read-only.'')"

definition capability_gate ::
  "runtime_mode \<Rightarrow> string \<Rightarrow> capability set \<Rightarrow> string \<Rightarrow> pyval \<Rightarrow> hook_decision" where
  "capability_gate mode type_name type_denied tool_name raw =
     (if md_blocked mode = {} then Proceed
      else let denied = classify_tool_capabilities raw \<inter> md_blocked mode
           in if denied = {} then Proceed
              else Abort ''blocked_by_mode'' (blocked_message mode type_name type_denied tool_name denied))"

end
