(* ===== verification/Sched_Service.thy ===== *)
theory Sched_Service
  imports Sched_Store Modes Bg_Model
begin

text \<open>
  The operations on schedules (\<open>src/agenthicc/schedules/manager.py\<close>) and the scheduler that claims due
  ticks and dispatches them (\<open>scheduler.py\<close>). What the process takes from outside is a record of
  arguments: the file system's canonical paths, the zone database, the reader of ISO texts, the
  hashes of \<open>uuid5\<close>. A pass of the scheduler returns the store it leaves and the error that ended
  it, if one did: what it committed before the error stays.
\<close>

section \<open>The environment\<close>

record sched_env =
  en_canonical :: "string \<Rightarrow> string"
  en_zones :: "string \<Rightarrow> zone option"
  en_read_iso :: "string \<Rightarrow> iso_time option"
  en_iso_text :: "zone \<Rightarrow> pyfloat \<Rightarrow> string"
  en_no_time :: string
  en_session_of :: "string \<Rightarrow> string"
  en_occurrence_of :: "string \<Rightarrow> string"

text \<open>\<open>format_timestamp\<close> of \<open>recurrence.py\<close>; the text of an instant is the library's.\<close>

definition format_timestamp :: "sched_env \<Rightarrow> pyfloat option \<Rightarrow> string \<Rightarrow> string + string" where
  "format_timestamp env timestamp timezone =
     (case timestamp of
        None \<Rightarrow> Inr (en_no_time env)
      | Some t \<Rightarrow> bindE (validate_timezone (en_zones env) timezone) (\<lambda>z. Inr (en_iso_text env z t)))"

text \<open>\<open>f"{x:.6f}"\<close>: six decimals, the last rounded half to even.\<close>

definition round_half_even :: "rat \<Rightarrow> int" where
  "round_half_even r =
     (let f = \<lfloor>r\<rfloor>; d = r - of_int f
      in if d < 1 / 2 then f else if 1 / 2 < d then f + 1 else if even f then f else f + 1)"

definition pad6 :: "string \<Rightarrow> string" where
  "pad6 s = replicate (6 - length s) (CHR ''0'') @ s"

definition fixed6 :: "rat \<Rightarrow> string" where
  "fixed6 r =
     (let n = round_half_even (\<bar>r\<bar> * 1000000)
      in (if r < 0 then ''-'' else []) @ int_text (n div 1000000) @ ''.'' @ pad6 (int_text (n mod 1000000)))"

fun fixed6_text :: "pyfloat \<Rightarrow> string" where
  "fixed6_text (Fin r) = fixed6 r"
| "fixed6_text PosInf = ''inf''"
| "fixed6_text NegInf = ''-inf''"
| "fixed6_text NaN = ''nan''"

section \<open>The manager\<close>

definition valid_ceiling :: "string \<Rightarrow> bool" where
  "valid_ceiling mode \<longleftrightarrow> mode \<in> {''Safe'', ''Plan'', ''Yolo''}"

text \<open>The arguments of \<open>create\<close>; \<open>None\<close> for the creator is the user of the process.\<close>

record schedule_request =
  sr_repository_root :: string
  sr_workflow_name :: string
  sr_prompt :: string
  sr_profile_name :: string
  sr_permission_ceiling :: string
  sr_recurrence_kind :: recurrence_kind
  sr_recurrence_spec :: string
  sr_timezone :: string
  sr_coalesce_policy :: coalesce_policy
  sr_max_in_flight :: int
  sr_creator :: "string option"
  sr_config_path :: string

definition canonical_config :: "sched_env \<Rightarrow> string \<Rightarrow> string" where
  "canonical_config env path = (if path = [] then [] else en_canonical env path)"

definition manager_create ::
  "sched_env \<Rightarrow> rat \<Rightarrow> string \<Rightarrow> string \<Rightarrow> schedule_request \<Rightarrow> sched_store \<Rightarrow> sched_error + schedule \<times> sched_store" where
  "manager_create env now fresh_id user rq st =
     (let root = en_canonical env (sr_repository_root rq);
          mode = canonical_mode_name (sr_permission_ceiling rq) in
      if \<not> valid_ceiling mode then Inl (ScheduleValueError ''permission ceiling must be Safe, Plan, or Yolo'')
      else bindE (value_error (validate_recurrence (en_zones env) (en_read_iso env)
             (sr_recurrence_kind rq) (sr_recurrence_spec rq) (sr_timezone rq))) (\<lambda>_.
           bindE (value_error (first_run_at (en_zones env) (en_read_iso env)
             (sr_recurrence_kind rq) (sr_recurrence_spec rq) (sr_timezone rq) now)) (\<lambda>first_run.
           let s = \<lparr>sd_schedule_id = fresh_id, sd_repository_root = root,
             sd_workflow_name = sr_workflow_name rq, sd_prompt = sr_prompt rq,
             sd_profile_name = sr_profile_name rq, sd_permission_ceiling = mode,
             sd_recurrence_kind = sr_recurrence_kind rq, sd_recurrence_spec = sr_recurrence_spec rq,
             sd_timezone = sr_timezone rq, sd_coalesce_policy = sr_coalesce_policy rq,
             sd_max_in_flight = sr_max_in_flight rq, sd_next_run_at = Some (Fin first_run),
             sd_enabled = False,
             sd_creator = take 256 (case sr_creator rq of None \<Rightarrow> user | Some c \<Rightarrow> if c = [] then user else c),
             sd_revision = 1, sd_created_at = Fin now, sd_updated_at = Fin now,
             sd_config_path = canonical_config env (sr_config_path rq), sd_deleted_at = None\<rparr>
           in bindE (value_error (schedule_check (en_canonical env) s)) (\<lambda>_. create_schedule ''created'' s st))))"

definition manager_pause ::
  "sched_env \<Rightarrow> rat \<Rightarrow> string \<Rightarrow> string \<Rightarrow> sched_store \<Rightarrow> sched_error + schedule \<times> sched_store" where
  "manager_pause env now sid actor st =
     bindE (get_schedule (en_canonical env) False sid st) (\<lambda>s.
       if \<not> sd_enabled s then Inr (s, st)
       else revise (en_canonical env) sid (sd_revision s) ''paused'' actor (Fin now)
              [(''enabled'', PBool False)] st)"

definition manager_resume ::
  "sched_env \<Rightarrow> rat \<Rightarrow> string \<Rightarrow> string \<Rightarrow> string \<Rightarrow> sched_store \<Rightarrow> sched_error + schedule \<times> sched_store" where
  "manager_resume env now sid confirm actor st =
     bindE (get_schedule (en_canonical env) False sid st) (\<lambda>s.
       if sd_recurrence_kind s = RecOnce \<and> sd_next_run_at s = None
       then Inl (ScheduleValueError ''one-shot schedule has already run and cannot be resumed'')
       else bindE (value_error (format_timestamp env (sd_next_run_at s) (sd_timezone s))) (\<lambda>expected.
         if confirm = [] \<or> confirm \<noteq> expected
         then Inl (ScheduleValueError (''schedule remains paused; confirm the displayed next run with ''
                @ ''--confirm-next-run '' @ py_repr expected))
         else if sd_enabled s then Inr (s, st)
         else revise (en_canonical env) sid (sd_revision s) ''resumed'' actor (Fin now)
                [(''enabled'', PBool True)] st))"

definition manager_delete ::
  "sched_env \<Rightarrow> rat \<Rightarrow> rat \<Rightarrow> string \<Rightarrow> string \<Rightarrow> sched_store \<Rightarrow> sched_error + schedule \<times> sched_store" where
  "manager_delete env now deleted_at sid actor st =
     bindE (get_schedule (en_canonical env) False sid st) (\<lambda>s.
       revise (en_canonical env) sid (sd_revision s) ''deleted'' actor (Fin now)
         [(''enabled'', PBool False), (''deleted_at'', PFloat (Fin deleted_at))] st)"

definition editable_fields :: "string list" where
  "editable_fields = [''workflow_name'', ''prompt'', ''profile_name'', ''permission_ceiling'',
     ''recurrence_kind'', ''recurrence_spec'', ''timezone'', ''coalesce_policy'', ''max_in_flight'',
     ''config_path'']"

text \<open>The recurrence after an edit; a kind among the changes is a member, written as its text.\<close>

definition edited_recurrence :: "schedule \<Rightarrow> payload \<Rightarrow> sched_error + recurrence_kind \<times> string \<times> string" where
  "edited_recurrence s changes =
     (case (Option.bind (str_of (dget_or changes ''recurrence_kind''
               (PStr (recurrence_value (sd_recurrence_kind s))))) recurrence_kind_parse,
            str_of (dget_or changes ''recurrence_spec'' (PStr (sd_recurrence_spec s))),
            str_of (dget_or changes ''timezone'' (PStr (sd_timezone s)))) of
        (Some kind, Some spec, Some zone) \<Rightarrow> Inr (kind, spec, zone)
      | _ \<Rightarrow> Inl (ScheduleValueError ''invalid recurrence update''))"

definition edit_ceiling :: "payload \<Rightarrow> sched_error + payload" where
  "edit_ceiling changes =
     (case dget changes ''permission_ceiling'' of
        None \<Rightarrow> Inr changes
      | Some v \<Rightarrow>
          let mode = (case str_of v of None \<Rightarrow> [] | Some s \<Rightarrow> canonical_mode_name s) in
          if valid_ceiling mode then Inr (dset ''permission_ceiling'' (PStr mode) changes)
          else Inl (ScheduleValueError ''permission ceiling must be Safe, Plan, or Yolo''))"

definition edit_limits :: "payload \<Rightarrow> sched_error + payload" where
  "edit_limits changes =
     (case dget changes ''max_in_flight'' of
        None \<Rightarrow> Inr changes
      | Some v \<Rightarrow> if int_of v = None then Inl (ScheduleValueError ''max_in_flight must be an integer'')
                  else Inr changes)"

definition edit_config :: "sched_env \<Rightarrow> payload \<Rightarrow> sched_error + payload" where
  "edit_config env changes =
     (case dget changes ''config_path'' of
        None \<Rightarrow> Inr changes
      | Some v \<Rightarrow>
          (case str_of v of
             None \<Rightarrow> Inl (ScheduleValueError ''config_path must be a string'')
           | Some path \<Rightarrow> Inr (dset ''config_path'' (PStr (canonical_config env path)) changes)))"

definition manager_update ::
  "sched_env \<Rightarrow> rat \<Rightarrow> rat \<Rightarrow> string \<Rightarrow> string \<Rightarrow> payload \<Rightarrow> sched_store \<Rightarrow> sched_error + schedule \<times> sched_store" where
  "manager_update env now later sid actor changes st =
     bindE (get_schedule (en_canonical env) False sid st) (\<lambda>s.
       let wanted = dpop ''confirm'' changes; bad = unsupported_fields editable_fields wanted in
       if bad \<noteq> [] then Inl (unsupported_error bad)
       else bindE (edited_recurrence s wanted) (\<lambda>(kind, spec, zone).
         bindE (value_error (validate_recurrence (en_zones env) (en_read_iso env) kind spec zone)) (\<lambda>_.
         bindE (edit_ceiling wanted) (\<lambda>c1.
         bindE (edit_limits c1) (\<lambda>c2.
         bindE (edit_config env c2) (\<lambda>c3.
         bindE (value_error (first_run_at (en_zones env) (en_read_iso env) kind spec zone now)) (\<lambda>next_run.
           revise (en_canonical env) sid (sd_revision s) ''updated'' actor (Fin later)
             (dset ''enabled'' (PBool False) (dset ''next_run_at'' (PFloat (Fin next_run)) c3)) st)))))))"

definition manual_request :: "sched_env \<Rightarrow> rat \<Rightarrow> string \<Rightarrow> schedule \<Rightarrow> occurrence_request" where
  "manual_request env now oid s =
     \<lparr>rq_schedule = s, rq_occurrence_id = oid, rq_occurrence_key = ''manual:'' @ oid,
      rq_scheduled_for = Fin now, rq_session_id = en_session_of env oid, rq_now = Fin now\<rparr>"

definition manager_run_now ::
  "sched_env \<Rightarrow> rat \<Rightarrow> string \<Rightarrow> string \<Rightarrow> string \<Rightarrow> sched_store \<Rightarrow> sched_error + occurrence \<times> sched_store" where
  "manager_run_now env now oid sid actor st =
     bindE (get_schedule (en_canonical env) False sid st) (\<lambda>s.
       create_manual_occurrence (en_canonical env) (manual_request env now oid s) actor
         [(''accepted'', PBool True), (''accepted_at'', PFloat (Fin now))] st)"

definition manager_retry ::
  "sched_env \<Rightarrow> rat \<Rightarrow> string \<Rightarrow> string \<Rightarrow> string \<Rightarrow> string \<Rightarrow> sched_store \<Rightarrow> sched_error + occurrence \<times> sched_store" where
  "manager_retry env now fresh_id sid oid actor st =
     bindE (get_occurrence oid st) (\<lambda>original.
       if oc_schedule_id original \<noteq> sid
       then Inl (ScheduleValueError ''occurrence does not belong to this schedule'')
       else if oc_state original \<notin> {OFailed, OBlocked}
       then Inl (ScheduleValueError ''only failed or blocked occurrences may be retried'')
       else bindE (get_revision (en_canonical env) sid (oc_schedule_revision original) st) (\<lambda>snapshot.
         if schedule_deleted snapshot
         then Inl (ScheduleValueError ''cannot retry an occurrence from a deleted schedule'')
         else create_occurrence
           \<lparr>rq_schedule = snapshot, rq_occurrence_id = fresh_id, rq_occurrence_key = ''retry:'' @ fresh_id,
            rq_scheduled_for = Fin now, rq_session_id = en_session_of env fresh_id, rq_now = Fin now\<rparr>
           ''retry'' OAwaitingService
           (Some [(''accepted'', PBool True), (''accepted_at'', PFloat (Fin now)), (''accepted_by'', PStr actor),
             (''retry_of'', PStr oid), (''session_id'', PStr (en_session_of env fresh_id))])
           oid (oc_attempt original + 1) st))"

section \<open>Claiming due ticks\<close>

text \<open>A loop whose body may raise: the store so far and the error that ended it.\<close>

fun for_each :: "('a \<Rightarrow> sched_store \<Rightarrow> sched_store \<times> sched_error option) \<Rightarrow> 'a list \<Rightarrow> sched_store
  \<Rightarrow> sched_store \<times> sched_error option" where
  "for_each f [] st = (st, None)"
| "for_each f (x # xs) st =
     (case f x st of (st', Some e) \<Rightarrow> (st', Some e) | (st', None) \<Rightarrow> for_each f xs st')"

text \<open>The state a due tick starts in under the policy, and the queued receipt it is folded into.\<close>

definition due_state :: "schedule \<Rightarrow> occurrence list \<Rightarrow> occurrence_state \<times> string" where
  "due_state s inflight =
     (if sd_coalesce_policy s = CoalesceSkip \<and> inflight \<noteq> [] then (OSkipped, [])
      else if sd_coalesce_policy s = CoalesceQueueOne \<and> inflight \<noteq> []
      then (OQueued, case find (\<lambda>oc. oc_state oc = OQueued) inflight of None \<Rightarrow> [] | Some oc \<Rightarrow> oc_occurrence_id oc)
      else if sd_coalesce_policy s = CoalesceAllowBounded \<and> sd_max_in_flight s \<le> int (length inflight)
      then (OSkipped, [])
      else (OAwaitingService, []))"

definition stable_key :: "schedule \<Rightarrow> pyfloat \<Rightarrow> string" where
  "stable_key s due = ''scheduled:'' @ sd_schedule_id s @ '':'' @ int_text (sd_revision s) @ '':'' @ fixed6_text due"

definition due_request :: "sched_env \<Rightarrow> rat \<Rightarrow> schedule \<Rightarrow> pyfloat \<Rightarrow> occurrence_state \<Rightarrow> occurrence_request" where
  "due_request env now s due state =
     (let oid = en_occurrence_of env (stable_key s due) in
      \<lparr>rq_schedule = s, rq_occurrence_id = oid, rq_occurrence_key = stable_key s due, rq_scheduled_for = due,
       rq_session_id = (if state = OSkipped then [] else en_session_of env oid), rq_now = Fin now\<rparr>)"

definition next_run :: "sched_env \<Rightarrow> rat \<Rightarrow> schedule \<Rightarrow> pyfloat \<Rightarrow> string + pyfloat option" where
  "next_run env now s due =
     (case due of
        Fin previous \<Rightarrow> map_sum id (map_option Fin)
          (next_run_after (en_zones env) (sd_recurrence_kind s) (sd_recurrence_spec s) (sd_timezone s) previous now)
      | _ \<Rightarrow> Inl ''cannot convert float NaN to integer'')"

definition claim_schedule ::
  "sched_env \<Rightarrow> rat \<Rightarrow> schedule \<Rightarrow> sched_store \<Rightarrow> sched_store \<times> sched_error option" where
  "claim_schedule env now s st =
     (case sd_next_run_at s of
        None \<Rightarrow> (st, None)
      | Some due \<Rightarrow>
          (case next_run env now s due of
             Inl e \<Rightarrow> (st, Some (ScheduleValueError e))
           | Inr next \<Rightarrow>
               (case due_state s (inflight_for (sd_schedule_id s) st) of (state, target) \<Rightarrow>
                  (case claim_due_occurrence (due_request env now s due state) next state target st of
                     Inl (ScheduleConflict _) \<Rightarrow> (st, None)
                   | Inl (ScheduleNotFound _) \<Rightarrow> (st, None)
                   | Inl e \<Rightarrow> (st, Some e)
                   | Inr (oc, st1) \<Rightarrow>
                       if oc_state oc = OSkipped
                       then (case update_occurrence (oc_occurrence_id oc) (Fin now) []
                                [SetOutcome (Some [(''reason'', PStr ''coalesced_or_concurrency_policy'')])] st1 of
                               Inl _ \<Rightarrow> (st1, None) | Inr (_, st2) \<Rightarrow> (st2, None))
                       else (st1, None)))))"

definition claim_due :: "sched_env \<Rightarrow> rat \<Rightarrow> sched_store \<Rightarrow> sched_store \<times> sched_error option" where
  "claim_due env now st =
     (case due_schedules (en_canonical env) (Fin now) 500 st of
        Inl e \<Rightarrow> (st, Some e)
      | Inr due \<Rightarrow> for_each (claim_schedule env now) due st)"

section \<open>Reconciling with the background sessions\<close>

definition reconciled_state :: "string \<Rightarrow> occurrence_state option" where
  "reconciled_state status =
     (if status \<in> {''completed'', ''complete'', ''succeeded''} then Some OCompleted
      else if status \<in> {''failed'', ''error''} then Some OFailed
      else if status \<in> {''cancelled'', ''canceled'', ''deleted''} then Some OCancelled
      else if status \<in> {''queued'', ''starting''} then Some OWaitingCapacity
      else if status \<in> {''running'', ''waiting_approval'', ''waiting_input''} then Some ORunning
      else None)"

definition reconcile_outcome :: "background_session \<Rightarrow> string \<Rightarrow> payload" where
  "reconcile_outcome session status =
     [(''background_status'', PStr status), (''worker_exit_reason'', PStr (take 256 (bs_worker_exit_reason session))),
      (''worker_exit_code'', of_opt_int (bs_worker_exit_code session)),
      (''completed_at'', of_opt_float (bs_completed_at session))]"

text \<open>A lookup that raises is skipped like one that finds nothing.\<close>

definition reconcile_one ::
  "(string \<Rightarrow> background_session option) \<Rightarrow> rat \<Rightarrow> occurrence \<Rightarrow> sched_store \<Rightarrow> sched_store \<times> sched_error option" where
  "reconcile_one lookup now oc st =
     (if oc_session_id oc = [] \<or> oc_state oc \<notin> {ORunning, OWaitingCapacity} then (st, None)
      else case lookup (oc_session_id oc) of
        None \<Rightarrow> (st, None)
      | Some session \<Rightarrow>
          let status = py_casefold (status_value (bs_status session)) in
          (case reconciled_state status of
             None \<Rightarrow> (st, None)
           | Some state \<Rightarrow>
               if state = oc_state oc then (st, None)
               else (case update_occurrence (oc_occurrence_id oc) (Fin now) []
                        [SetState state, SetOutcome (Some (reconcile_outcome session status)),
                         SetError (take 1000 (case bs_error session of None \<Rightarrow> [] | Some e \<Rightarrow> e))] st of
                       Inl e \<Rightarrow> (st, Some e) | Inr (_, st') \<Rightarrow> (st', None))))"

definition reconcile_background ::
  "(string \<Rightarrow> background_session option) option \<Rightarrow> rat \<Rightarrow> sched_store \<Rightarrow> sched_store \<times> sched_error option" where
  "reconcile_background lookup now st =
     (case lookup of
        None \<Rightarrow> (st, None)
      | Some f \<Rightarrow>
          (case list_occurrences [] 5000 st of
             Inl e \<Rightarrow> (st, Some e) | Inr ocs \<Rightarrow> for_each (reconcile_one f now) ocs st))"

section \<open>Dispatching\<close>

definition pending_states :: "occurrence_state list" where
  "pending_states = [OAwaitingService, OQueued, OWaitingCapacity, OPreparing]"

text \<open>
  The dispatcher may write to the store and answers with a receipt, or raises an exception of some
  class and text. The readings of the clock after it are a function of the occurrence.
\<close>

type_synonym dispatcher = "schedule \<Rightarrow> occurrence \<Rightarrow> sched_store \<Rightarrow> (string \<times> string + payload) \<times> sched_store"

datatype dispatch_verdict = DispatchWait | DispatchSkip | DispatchGo

definition dispatch_choice :: "schedule \<Rightarrow> occurrence \<Rightarrow> occurrence list \<Rightarrow> dispatch_verdict" where
  "dispatch_choice s oc others =
     (if oc_state oc = OQueued \<and> others \<noteq> [] then DispatchWait
      else if sd_coalesce_policy s = CoalesceAllowBounded \<and> sd_max_in_flight s \<le> int (length others) then DispatchWait
      else if sd_coalesce_policy s = CoalesceSkip \<and> others \<noteq> [] then DispatchSkip
      else if sd_coalesce_policy s = CoalesceQueueOne \<and> oc_state oc \<noteq> OQueued \<and> others \<noteq> [] then DispatchWait
      else DispatchGo)"

definition failed_dispatch_state :: "string \<Rightarrow> occurrence_state" where
  "failed_dispatch_state text =
     (if str_in ''worker limit reached'' (py_casefold text) \<or> str_in ''queue is full'' (py_casefold text)
      then OWaitingCapacity else OBlocked)"

definition receipt_status :: "payload \<Rightarrow> string" where
  "receipt_status receipt = py_casefold (case str_of (dget_or receipt ''status'' (PStr ''running'')) of
     None \<Rightarrow> ''running'' | Some s \<Rightarrow> s)"

definition finish_dispatch ::
  "schedule \<Rightarrow> occurrence \<Rightarrow> pyfloat \<Rightarrow> string \<times> string + payload \<Rightarrow> sched_store
   \<Rightarrow> sched_store \<times> sched_error option" where
  "finish_dispatch s claimed after answer st =
     (let changes = (case answer of
        Inl (class_name, text) \<Rightarrow>
          [SetState (failed_dispatch_state text),
           SetReceipt (Some [(''session_id'', PStr (oc_session_id claimed)), (''dispatch_attempted'', PBool True)]),
           SetError (take 1000 (class_name @ '': '' @ text))]
      | Inr receipt \<Rightarrow>
          let status = receipt_status receipt in
          [SetState (if status \<in> {''queued'', ''starting''} then OWaitingCapacity else ORunning),
           SetReceipt (Some [(''accepted'', PBool True), (''accepted_at'', PFloat after),
             (''session_id'', PStr (oc_session_id claimed)), (''background_status'', PStr status),
             (''schedule_revision'', PInt (sd_revision s))]),
           SetError []])
      in case update_occurrence (oc_occurrence_id claimed) after [] changes st of
           Inl e \<Rightarrow> (st, Some e) | Inr (_, st') \<Rightarrow> (st', None))"

definition dispatch_one ::
  "sched_env \<Rightarrow> dispatcher \<Rightarrow> (string \<Rightarrow> pyfloat) \<Rightarrow> rat \<Rightarrow> occurrence \<Rightarrow> sched_store
   \<Rightarrow> sched_store \<times> sched_error option" where
  "dispatch_one env dispatch after now oc st =
     (let oid = oc_occurrence_id oc in
      case get_revision (en_canonical env) (oc_schedule_id oc) (oc_schedule_revision oc) st of
        Inl (ScheduleNotFound _) \<Rightarrow>
          (case update_occurrence oid (Fin now) [] [SetState OBlocked,
               SetError ''schedule revision is missing; dispatch stopped safely''] st of
             Inl e \<Rightarrow> (st, Some e) | Inr (_, st') \<Rightarrow> (st', None))
      | Inl e \<Rightarrow> (st, Some e)
      | Inr s \<Rightarrow>
          (case dispatch_choice s oc (filter (\<lambda>x. oc_occurrence_id x \<noteq> oid) (inflight_for (sd_schedule_id s) st)) of
             DispatchWait \<Rightarrow> (st, None)
           | DispatchSkip \<Rightarrow>
               (case update_occurrence oid (Fin now) [] [SetState OSkipped,
                    SetOutcome (Some [(''reason'', PStr ''another_occurrence_is_in_flight'')]), SetError []] st of
                  Inl e \<Rightarrow> (st, Some e) | Inr (_, st') \<Rightarrow> (st', None))
           | DispatchGo \<Rightarrow>
               (case update_occurrence oid (Fin now) pending_states [SetState OPreparing, SetError []] st of
                  Inl (ScheduleConflict _) \<Rightarrow> (st, None)
                | Inl e \<Rightarrow> (st, Some e)
                | Inr (claimed, st1) \<Rightarrow>
                    (case dispatch s claimed st1 of (answer, st2) \<Rightarrow>
                       finish_dispatch s claimed (after oid) answer st2))))"

definition dispatch_pending ::
  "sched_env \<Rightarrow> dispatcher \<Rightarrow> (string \<Rightarrow> pyfloat) \<Rightarrow> bool \<Rightarrow> rat \<Rightarrow> sched_store \<Rightarrow> sched_store \<times> sched_error option" where
  "dispatch_pending env dispatch after lock_busy now st =
     (if lock_busy then (st, None)
      else case list_occurrences pending_states 1000 st of
        Inl e \<Rightarrow> (st, Some e)
      | Inr ocs \<Rightarrow> for_each (dispatch_one env dispatch after now) ocs st)"

definition tick ::
  "sched_env \<Rightarrow> (string \<Rightarrow> background_session option) option \<Rightarrow> dispatcher \<Rightarrow> (string \<Rightarrow> pyfloat) \<Rightarrow> bool \<Rightarrow> rat
   \<Rightarrow> sched_store \<Rightarrow> sched_store \<times> sched_error option" where
  "tick env lookup dispatch after lock_busy now st =
     (case reconcile_background lookup now st of
        (st1, Some e) \<Rightarrow> (st1, Some e)
      | (st1, None) \<Rightarrow>
          (case claim_due env now st1 of
             (st2, Some e) \<Rightarrow> (st2, Some e)
           | (st2, None) \<Rightarrow> dispatch_pending env dispatch after lock_busy now st2))"

end
