(* ===== verification/Sched_Laws.thy ===== *)
theory Sched_Laws
  imports Sched_Service
begin

text \<open>
  The invariant of the schedule store and the steps that keep it: every definition has exactly the
  revisions \<open>1..n\<close>, the newest of which is the row up to the cursor the scheduler moves, a schedule
  is enabled exactly when its newest revision is a confirmed resume, and every receipt belongs to
  a stored revision.
\<close>

named_theorems sched_simps \<open>reading the store after an operation\<close>

section \<open>Reading a definition back\<close>

lemma schedule_from_mapping_fields:
  assumes "schedule_from_mapping canonical p = Inr d"
  shows "pget p ''schedule_id'' = PStr (sd_schedule_id d)"
    and "pget p ''revision'' = PInt (sd_revision d)"
    and "pget p ''enabled'' = PBool (sd_enabled d)"
    and "pget p ''repository_root'' = PStr (sd_repository_root d)"
    and "pget p ''creator'' = PStr (sd_creator d)"
    and "num_of (pget p ''created_at'') = Some (sd_created_at d)"
proof -
  have int: "int_of v = Some i \<Longrightarrow> v = PInt i" for v i by (cases v) auto
  have bool: "bool_of v = Some b \<Longrightarrow> v = PBool b" for v b by (cases v) auto
  from assms obtain enabled where e: "bool_of (pget p ''enabled'') = Some enabled"
    and r: "read_schedule canonical p enabled = Inr d"
    by (auto simp: schedule_from_mapping_def map_sum_def split: option.splits sum.splits)
  from r have "pget p ''schedule_id'' = PStr (sd_schedule_id d) \<and> pget p ''revision'' = PInt (sd_revision d)
      \<and> sd_enabled d = enabled \<and> pget p ''repository_root'' = PStr (sd_repository_root d)
      \<and> pget p ''creator'' = PStr (sd_creator d) \<and> num_of (pget p ''created_at'') = Some (sd_created_at d)"
    unfolding read_schedule_def Let_def
    by (elim bindE_InrE) (auto simp: read_text_Inr read_integer_def read_number_def dest: int split: option.splits)
  with bool [OF e] show "pget p ''schedule_id'' = PStr (sd_schedule_id d)" "pget p ''revision'' = PInt (sd_revision d)"
    "pget p ''enabled'' = PBool (sd_enabled d)" "pget p ''repository_root'' = PStr (sd_repository_root d)"
    "pget p ''creator'' = PStr (sd_creator d)" "num_of (pget p ''created_at'') = Some (sd_created_at d)"
    by simp_all
qed

lemma pget_dset [simp]: "pget (dset k v d) k' = (if k' = k then v else pget d k')"
  by (simp add: pget_def)

lemma pget_dupdate: "k \<notin> set (keys changes) \<Longrightarrow> pget (dupdate changes d) k = pget d k"
  unfolding dupdate_def by (induction changes arbitrary: d) auto

lemma unsupported_none: "unsupported_fields allowed changes = [] \<longleftrightarrow> set (keys changes) \<subseteq> set allowed"
proof -
  have "sort xs = [] \<longleftrightarrow> xs = []" for xs :: "string list"
    by (metis set_empty set_sort)
  then show ?thesis by (auto simp: unsupported_fields_def filter_empty_conv)
qed

lemma schedule_from_row_Inr [simp]:
  "schedule_from_row canonical row = Inr s \<longleftrightarrow> s = row \<and> schedule_ok canonical row"
  by (auto simp: schedule_from_row_def schedule_ok_def split: sum.splits)

lemma value_error_Inr [simp]: "value_error r = Inr x \<longleftrightarrow> r = Inr x"
  by (cases r) (simp_all add: value_error_def)

lemma live_row_Some: "live_row sid st = Some row \<longleftrightarrow> dget (sc_schedules st) sid = Some row \<and> sd_deleted_at row = None"
  by (auto simp: live_row_def split: option.splits)

section \<open>The invariant\<close>

definition cursor_of :: "schedule \<Rightarrow> schedule \<Rightarrow> schedule" where
  "cursor_of s d = d\<lparr>sd_next_run_at := sd_next_run_at s, sd_updated_at := sd_updated_at s\<rparr>"

definition row_ok :: "(string \<Rightarrow> string) \<Rightarrow> sched_store \<Rightarrow> string \<Rightarrow> schedule \<Rightarrow> bool" where
  "row_ok canonical st sid s \<longleftrightarrow> sd_schedule_id s = sid \<and> schedule_ok canonical s
     \<and> (\<forall>r. (sid, r) \<in> set (keys (sc_revisions st)) \<longleftrightarrow> 1 \<le> r \<and> r \<le> sd_revision s)
     \<and> (\<exists>rv d. dget (sc_revisions st) (sid, sd_revision s) = Some rv
          \<and> (sd_enabled s \<longleftrightarrow> rv_action rv = ''resumed'')
          \<and> schedule_from_mapping canonical (rv_definition rv) = Inr d \<and> cursor_of s d = s)"

definition revision_ok :: "(string \<Rightarrow> string) \<Rightarrow> sched_store \<Rightarrow> string \<times> int \<Rightarrow> revision_row \<Rightarrow> bool" where
  "revision_ok canonical st key rv \<longleftrightarrow> fst key \<in> set (keys (sc_schedules st))
     \<and> (\<exists>d. schedule_from_mapping canonical (rv_definition rv) = Inr d
          \<and> sd_schedule_id d = fst key \<and> sd_revision d = snd key)"

definition occurrence_ok :: "sched_store \<Rightarrow> string \<Rightarrow> occurrence \<Rightarrow> bool" where
  "occurrence_ok st oid oc \<longleftrightarrow> oc_occurrence_id oc = oid
     \<and> (oc_schedule_id oc, oc_schedule_revision oc) \<in> set (keys (sc_revisions st))"

definition occurrence_keys :: "sched_store \<Rightarrow> string list" where
  "occurrence_keys st = map (\<lambda>p. oc_occurrence_key (snd p)) (sc_occurrences st)"

definition sched_ok :: "(string \<Rightarrow> string) \<Rightarrow> sched_store \<Rightarrow> bool" where
  "sched_ok canonical st \<longleftrightarrow>
     (\<forall>sid s. dget (sc_schedules st) sid = Some s \<longrightarrow> row_ok canonical st sid s)
   \<and> (\<forall>key rv. dget (sc_revisions st) key = Some rv \<longrightarrow> revision_ok canonical st key rv)
   \<and> (\<forall>oid oc. dget (sc_occurrences st) oid = Some oc \<longrightarrow> occurrence_ok st oid oc)
   \<and> distinct (keys (sc_occurrences st)) \<and> distinct (occurrence_keys st)"

lemma sched_okD:
  assumes "sched_ok canonical st"
  shows "dget (sc_schedules st) sid = Some s \<Longrightarrow> row_ok canonical st sid s"
    and "dget (sc_revisions st) key = Some rv \<Longrightarrow> revision_ok canonical st key rv"
    and "dget (sc_occurrences st) oid = Some oc \<Longrightarrow> occurrence_ok st oid oc"
    and "distinct (keys (sc_occurrences st))" and "distinct (occurrence_keys st)"
  using assms unfolding sched_ok_def by blast+

lemma sched_ok_empty: "sched_ok canonical sched_empty"
  by (simp add: sched_ok_def sched_empty_def occurrence_keys_def)

text \<open>Moving the cursor of a row keeps the invariant.\<close>

lemma cursor_of_moved:
  "cursor_of (s\<lparr>sd_next_run_at := n, sd_updated_at := t\<rparr>) d = (cursor_of s d)\<lparr>sd_next_run_at := n, sd_updated_at := t\<rparr>"
  by (simp add: cursor_of_def)

lemma schedule_ok_cursor:
  "schedule_ok canonical s \<Longrightarrow> finite_opt n \<Longrightarrow> is_finite t \<Longrightarrow>
   schedule_ok canonical (s\<lparr>sd_next_run_at := n, sd_updated_at := t\<rparr>)"
  by (simp add: schedule_ok_iff)

lemma sched_ok_cursor:
  assumes ok: "sched_ok canonical st" and row: "dget (sc_schedules st) sid = Some row"
    and fin: "finite_opt n" "is_finite t"
  shows "sched_ok canonical (st\<lparr>sc_schedules := dset sid (row\<lparr>sd_next_run_at := n, sd_updated_at := t\<rparr>) (sc_schedules st)\<rparr>)"
proof -
  let ?row = "row\<lparr>sd_next_run_at := n, sd_updated_at := t\<rparr>"
  let ?st = "st\<lparr>sc_schedules := dset sid ?row (sc_schedules st)\<rparr>"
  have r: "row_ok canonical st sid row" by (rule sched_okD(1) [OF ok row])
  then obtain rv d where rv: "dget (sc_revisions st) (sid, sd_revision row) = Some rv"
    "sd_enabled row \<longleftrightarrow> rv_action rv = ''resumed''" "schedule_from_mapping canonical (rv_definition rv) = Inr d"
    "cursor_of row d = row" by (auto simp: row_ok_def)
  have "cursor_of ?row d = ?row"
    using rv(4) by (simp add: cursor_of_moved)
  then have "row_ok canonical ?st sid ?row"
    using r rv schedule_ok_cursor [OF _ fin] by (auto simp: row_ok_def)
  moreover have "row_ok canonical st sid' s \<Longrightarrow> row_ok canonical ?st sid' s" for sid' s
    by (simp add: row_ok_def)
  moreover have "sid \<in> set (keys (sc_schedules st))" using row by (rule map_of_in_keys)
  ultimately show ?thesis using ok
    by (auto simp: sched_ok_def revision_ok_def occurrence_ok_def occurrence_keys_def)
qed

section \<open>Definitions and revisions\<close>

lemma cursor_of_self [simp]: "cursor_of s s = s"
  by (simp add: cursor_of_def)

lemma insert_audit_Inr:
  "insert_audit s action actor now st = Inr st' \<longleftrightarrow>
     (sd_schedule_id s, sd_revision s) \<notin> set (keys (sc_revisions st))
   \<and> sd_schedule_id s \<in> set (keys (sc_schedules st))
   \<and> st' = st\<lparr>sc_revisions := sc_revisions st @ [((sd_schedule_id s, sd_revision s),
         \<lparr>rv_action = action, rv_actor = actor, rv_created_at = now, rv_definition = schedule_to_dict s\<rparr>)],
       sc_audit := sc_audit st @ [\<lparr>au_schedule_id = sd_schedule_id s, au_revision = sd_revision s,
         au_action = action, au_actor = actor, au_created_at = now, au_details = schedule_to_dict s\<rparr>]\<rparr>"
  by (auto simp: insert_audit_def Let_def)

text \<open>A new newest revision: what creation and revision share.\<close>

lemma sched_ok_revised:
  assumes ok: "sched_ok canonical st" and u: "schedule_ok canonical u"
    and old: "\<forall>r. (sd_schedule_id u, r) \<in> set (keys (sc_revisions st)) \<longleftrightarrow> 1 \<le> r \<and> r < sd_revision u"
    and enabled: "sd_enabled u \<longleftrightarrow> action = ''resumed''"
    and ins: "insert_audit u action actor now
      (st\<lparr>sc_schedules := dset (sd_schedule_id u) u (sc_schedules st)\<rparr>) = Inr st'"
  shows "sched_ok canonical st'"
proof -
  let ?sid = "sd_schedule_id u" and ?key = "(sd_schedule_id u, sd_revision u)"
  from ins have st': "sc_schedules st' = dset ?sid u (sc_schedules st)" "sc_occurrences st' = sc_occurrences st"
    "sc_revisions st' = sc_revisions st @ [(?key, \<lparr>rv_action = action, rv_actor = actor, rv_created_at = now,
       rv_definition = schedule_to_dict u\<rparr>)]"
    and fresh: "?key \<notin> set (keys (sc_revisions st))"
    by (simp_all add: insert_audit_Inr)
  have none: "dget (sc_revisions st) ?key = None" using fresh by (rule map_of_NoneI)
  have one: "1 \<le> sd_revision u" using u by (simp add: schedule_ok_iff)
  have revs: "(sid, r) \<in> set (keys (sc_revisions st')) \<longleftrightarrow>
      (sid, r) \<in> set (keys (sc_revisions st)) \<or> sid = ?sid \<and> r = sd_revision u" for sid r
    by (auto simp: st')
  have get: "dget (sc_revisions st') key = (case dget (sc_revisions st) key of Some rv \<Rightarrow> Some rv
      | None \<Rightarrow> if key = ?key then Some \<lparr>rv_action = action, rv_actor = actor, rv_created_at = now,
          rv_definition = schedule_to_dict u\<rparr> else None)" for key
    by (simp add: st' map_add_def split: option.split)
  note reread = schedule_round_trip [OF u]
  have new: "row_ok canonical st' ?sid u"
    unfolding row_ok_def
  proof (intro conjI)
    show "\<forall>r. (?sid, r) \<in> set (keys (sc_revisions st')) \<longleftrightarrow> 1 \<le> r \<and> r \<le> sd_revision u"
    proof
      fix r
      have "(?sid, r) \<in> set (keys (sc_revisions st)) \<longleftrightarrow> 1 \<le> r \<and> r < sd_revision u" using old by blast
      with one show "(?sid, r) \<in> set (keys (sc_revisions st')) \<longleftrightarrow> 1 \<le> r \<and> r \<le> sd_revision u"
        unfolding revs by (auto simp del: keys_dset)
    qed
    have "dget (sc_revisions st') ?key = Some \<lparr>rv_action = action, rv_actor = actor, rv_created_at = now,
        rv_definition = schedule_to_dict u\<rparr>" using none by (simp add: get)
    then show "\<exists>rv d. dget (sc_revisions st') ?key = Some rv \<and> (sd_enabled u \<longleftrightarrow> rv_action rv = ''resumed'')
        \<and> schedule_from_mapping canonical (rv_definition rv) = Inr d \<and> cursor_of u d = u"
      using reread enabled by simp
  qed (use u in simp_all)
  have rows: "row_ok canonical st' sid s" if "dget (sc_schedules st) sid = Some s" "sid \<noteq> ?sid" for sid s
  proof -
    have r: "row_ok canonical st sid s" by (rule sched_okD(1) [OF ok that(1)])
    then obtain rv d where "dget (sc_revisions st) (sid, sd_revision s) = Some rv"
      "sd_enabled s \<longleftrightarrow> rv_action rv = ''resumed''" "schedule_from_mapping canonical (rv_definition rv) = Inr d"
      "cursor_of s d = s" by (auto simp: row_ok_def)
    then show ?thesis using r that(2) unfolding row_ok_def by (simp add: revs get)
  qed
  have schedules: "row_ok canonical st' sid s" if "dget (sc_schedules st') sid = Some s" for sid s
    using that new rows by (cases "sid = ?sid") (simp_all add: st'(1))
  have revisions: "revision_ok canonical st' key rv" if "dget (sc_revisions st') key = Some rv" for key rv
  proof (cases "dget (sc_revisions st) key")
    case None
    with that reread show ?thesis by (auto simp: get revision_ok_def st'(1) split: if_splits)
  next
    case (Some rv')
    with that have "revision_ok canonical st key rv" using sched_okD(2) [OF ok, of key rv'] by (simp add: get)
    then show ?thesis by (simp add: revision_ok_def st'(1))
  qed
  have "occurrence_ok st' oid oc" if "dget (sc_occurrences st') oid = Some oc" for oid oc
    using sched_okD(3) [OF ok, of oid oc] that by (simp add: occurrence_ok_def st'(2) revs)
  with schedules revisions show ?thesis
    using sched_okD(4,5) [OF ok] by (simp add: sched_ok_def st'(2) occurrence_keys_def)
qed

lemma revise_InrE:
  assumes "revise canonical sid expected action actor now changes st = Inr (u, st')" "sched_ok canonical st"
  obtains row where "live_row sid st = Some row" "sd_revision row = expected" "sd_revision u = expected + 1"
    "sd_schedule_id u = sid" "schedule_ok canonical u"
    "schedule_from_mapping canonical (revised_payload row changes now) = Inr u"
    "insert_audit u action actor now (st\<lparr>sc_schedules := dset sid u (sc_schedules st)\<rparr>) = Inr st'"
    "set (keys changes) \<subseteq> set revisable_fields"
proof -
  from assms(1) have bad: "set (keys changes) \<subseteq> set revisable_fields"
    by (simp add: revise_def unsupported_none split: if_splits)
  from assms(1) obtain row where row: "live_row sid st = Some row" "sd_revision row = expected"
    and u: "schedule_from_mapping canonical (revised_payload row changes now) = Inr u"
    and ins: "insert_audit u action actor now
        (st\<lparr>sc_schedules := dset sid (revised_row row u) (sc_schedules st)\<rparr>) = Inr st'"
    by (auto simp: revise_def elim!: bindE_InrE split: if_splits option.splits)
  have id: "sd_schedule_id row = sid"
    using sched_okD(1) [OF assms(2), of sid row] row(1) by (simp add: live_row_Some row_ok_def)
  have kept: "pget (revised_payload row changes now) k = pget (schedule_to_dict row) k"
    if "k \<notin> set revisable_fields" "k \<noteq> ''revision''" "k \<noteq> ''updated_at''" for k
  proof -
    have "k \<notin> set (keys changes)" using that(1) bad by blast
    with that show ?thesis by (simp add: revised_payload_def pget_dupdate)
  qed
  note f = schedule_from_mapping_fields [OF u]
  have same: "sd_schedule_id u = sid" "sd_repository_root u = sd_repository_root row"
    "sd_creator u = sd_creator row" "sd_created_at u = sd_created_at row"
    using f(1,4,5,6) by (simp_all add: kept revisable_fields_def id)
  have "sd_revision u = expected + 1" using f(2) row(2) by (simp add: revised_payload_def)
  moreover have "revised_row row u = u" using same id by (simp add: revised_row_def)
  ultimately show thesis
    using that row same(1) schedule_from_mapping_ok [OF u] u ins bad by simp
qed

lemma revise_ok:
  assumes "revise canonical sid expected action actor now changes st = Inr (u, st')" "sched_ok canonical st"
    and "sd_enabled u \<longleftrightarrow> action = ''resumed''"
  shows "sched_ok canonical st'"
  using assms(1,2)
proof (rule revise_InrE)
  fix row assume row: "live_row sid st = Some row" "sd_revision row = expected" "sd_revision u = expected + 1"
    "sd_schedule_id u = sid" "schedule_ok canonical u"
    "insert_audit u action actor now (st\<lparr>sc_schedules := dset sid u (sc_schedules st)\<rparr>) = Inr st'"
  have "row_ok canonical st sid row" using sched_okD(1) [OF assms(2)] row(1) by (simp add: live_row_Some)
  then have "\<forall>r. (sd_schedule_id u, r) \<in> set (keys (sc_revisions st)) \<longleftrightarrow> 1 \<le> r \<and> r < sd_revision u"
    using row by (auto simp: row_ok_def)
  from sched_ok_revised [OF assms(2) row(5) this assms(3)] row(6) show ?thesis by (simp add: row(4))
qed

lemma create_schedule_ok:
  assumes "create_schedule action s st = Inr (s', st')" "sched_ok canonical st"
    and s: "schedule_ok canonical s" "sd_revision s = 1" "\<not> sd_enabled s" "action \<noteq> ''resumed''"
  shows "sched_ok canonical st'" and "s' = s"
proof -
  from assms(1) have "bindE (insert_schedule s st) (insert_audit s action (sd_creator s) (sd_created_at s)) = Inr st'"
    and s': "s' = s"
    by (auto simp: create_schedule_def split: sum.splits sched_error.splits)
  then have fresh: "sd_schedule_id s \<notin> set (keys (sc_schedules st))"
    and ins: "insert_audit s action (sd_creator s) (sd_created_at s)
      (st\<lparr>sc_schedules := sc_schedules st @ [(sd_schedule_id s, s)]\<rparr>) = Inr st'"
    by (auto simp: insert_schedule_def elim!: bindE_InrE split: if_splits)
  have "(sd_schedule_id s, r) \<notin> set (keys (sc_revisions st))" for r
  proof
    assume "(sd_schedule_id s, r) \<in> set (keys (sc_revisions st))"
    then obtain rv where "dget (sc_revisions st) (sd_schedule_id s, r) = Some rv" by (blast dest: in_keys_map_of)
    then have "revision_ok canonical st (sd_schedule_id s, r) rv" by (rule sched_okD(2) [OF assms(2)])
    with fresh show False by (simp add: revision_ok_def)
  qed
  then have "\<forall>r. (sd_schedule_id s, r) \<in> set (keys (sc_revisions st)) \<longleftrightarrow> 1 \<le> r \<and> r < sd_revision s"
    using s(2) by auto
  from sched_ok_revised [OF assms(2) s(1) this, of action "sd_creator s" "sd_created_at s" st'] s(3,4) ins
  show "sched_ok canonical st'" by (simp add: dset_fresh [OF fresh])
  show "s' = s" by (fact s')
qed

section \<open>Receipts\<close>

lemma inserted_Inr:
  assumes "inserted key oid st r = Inr (oc, st')"
  obtains "r = Inr st'" "dget (sc_occurrences st') oid = Some oc"
  | "r = Inl SqliteIntegrityError" "st' = st" "find_by_key key st = Some oc"
  using assms
  by (auto simp: inserted_def get_occurrence_def get_occurrence_by_key_def
      split: sum.splits sched_error.splits option.splits elim!: bindE_InrE)

lemma insert_occurrence_Inr:
  "insert_occurrence oc st = Inr st' \<longleftrightarrow> oc_occurrence_id oc \<notin> set (keys (sc_occurrences st))
   \<and> find_by_key (oc_occurrence_key oc) st = None \<and> oc_schedule_id oc \<in> set (keys (sc_schedules st))
   \<and> st' = st\<lparr>sc_occurrences := sc_occurrences st @ [(oc_occurrence_id oc, oc)]\<rparr>"
  by (auto simp: insert_occurrence_def)

lemma find_by_key_None: "find_by_key key st = None \<longleftrightarrow> key \<notin> set (occurrence_keys st)"
  by (auto simp: find_by_key_def occurrence_keys_def find_None_iff)

lemma insert_occurrence_ok:
  assumes ins: "insert_occurrence oc st = Inr st'" and ok: "sched_ok canonical st"
    and rev: "(oc_schedule_id oc, oc_schedule_revision oc) \<in> set (keys (sc_revisions st))"
  shows "sched_ok canonical st'"
proof -
  from ins have fresh: "oc_occurrence_id oc \<notin> set (keys (sc_occurrences st))" "oc_occurrence_key oc \<notin> set (occurrence_keys st)"
    and st': "st' = st\<lparr>sc_occurrences := sc_occurrences st @ [(oc_occurrence_id oc, oc)]\<rparr>"
    by (simp_all add: insert_occurrence_Inr find_by_key_None)
  have get: "dget (sc_occurrences st') oid = (if oid = oc_occurrence_id oc then Some oc else dget (sc_occurrences st) oid)" for oid
    using map_of_NoneI [OF fresh(1)] by (simp add: st' map_add_def split: option.split)
  have "occurrence_ok st' oid c" if "dget (sc_occurrences st') oid = Some c" for oid c
    using that rev sched_okD(3) [OF ok, of oid c] by (auto simp: get occurrence_ok_def st' split: if_splits)
  then show ?thesis
    using fresh ok by (auto simp: sched_ok_def row_ok_def revision_ok_def occurrence_keys_def st')
qed

lemma map_dset_same: "map_of d k = Some w \<Longrightarrow> f (k, v) = f (k, w) \<Longrightarrow> map f (dset k v d) = map f d"
  by (induction d) auto

lemma set_occurrence_ok:
  assumes ok: "sched_ok canonical st" and oc: "dget (sc_occurrences st) oid = Some oc"
    and same: "oc_occurrence_id oc' = oc_occurrence_id oc" "oc_schedule_id oc' = oc_schedule_id oc"
      "oc_schedule_revision oc' = oc_schedule_revision oc" "oc_occurrence_key oc' = oc_occurrence_key oc"
  shows "sched_ok canonical (st\<lparr>sc_occurrences := dset oid oc' (sc_occurrences st)\<rparr>)"
proof -
  let ?st = "st\<lparr>sc_occurrences := dset oid oc' (sc_occurrences st)\<rparr>"
  have keys: "occurrence_keys ?st = occurrence_keys st"
    using map_dset_same [OF oc, of "\<lambda>p. oc_occurrence_key (snd p)" oc'] same(4) by (simp add: occurrence_keys_def)
  have "occurrence_ok ?st oid' c" if "dget (sc_occurrences ?st) oid' = Some c" for oid' c
    using that sched_okD(3) [OF ok oc] sched_okD(3) [OF ok, of oid' c] same
    by (auto simp: occurrence_ok_def split: if_splits)
  then show ?thesis
    using ok keys by (auto simp: sched_ok_def row_ok_def revision_ok_def)
qed

lemma apply_changes_keep:
  "oc_occurrence_id (fold apply_change changes oc) = oc_occurrence_id oc"
  "oc_schedule_id (fold apply_change changes oc) = oc_schedule_id oc"
  "oc_schedule_revision (fold apply_change changes oc) = oc_schedule_revision oc"
  "oc_occurrence_key (fold apply_change changes oc) = oc_occurrence_key oc"
proof (induction changes arbitrary: oc)
  case (Cons c cs)
  { case 1 with Cons show ?case by (cases c) simp_all }
  { case 2 with Cons show ?case by (cases c) simp_all }
  { case 3 with Cons show ?case by (cases c) simp_all }
  { case 4 with Cons show ?case by (cases c) simp_all }
qed simp_all

lemma update_occurrence_Inr:
  "update_occurrence oid now expected changes st = Inr (oc', st') \<longleftrightarrow>
   (\<exists>oc. dget (sc_occurrences st) oid = Some oc \<and> (expected = [] \<or> oc_state oc \<in> set expected)
     \<and> oc' = (fold apply_change changes oc)\<lparr>oc_updated_at := now\<rparr>
     \<and> st' = st\<lparr>sc_occurrences := dset oid oc' (sc_occurrences st)\<rparr>)"
  by (auto simp: update_occurrence_def Let_def split: option.splits)

lemma update_occurrence_ok:
  "update_occurrence oid now expected changes st = Inr (oc', st') \<Longrightarrow> sched_ok canonical st \<Longrightarrow> sched_ok canonical st'"
  by (auto simp: update_occurrence_Inr apply_changes_keep intro!: set_occurrence_ok)

lemma coalesce_into_Inr:
  "coalesce_into oid scheduled_for now e st = Inr st' \<longleftrightarrow>
   (\<exists>oc. dget (sc_occurrences st) oid = Some oc \<and> oc_state oc = OQueued
     \<and> st' = st\<lparr>sc_occurrences := dset oid (oc\<lparr>oc_coalesced_count := oc_coalesced_count oc + 1,
         oc_scheduled_for := (case scheduled_for of None \<Rightarrow> oc_scheduled_for oc | Some t \<Rightarrow> t),
         oc_updated_at := now\<rparr>) (sc_occurrences st)\<rparr>)"
  by (auto simp: coalesce_into_def split: option.splits)

lemma coalesce_into_ok:
  "coalesce_into oid scheduled_for now e st = Inr st' \<Longrightarrow> sched_ok canonical st \<Longrightarrow> sched_ok canonical st'"
  by (auto simp: coalesce_into_Inr intro!: set_occurrence_ok)

end
