(* ===== verification/Sched_Steps.thy ===== *)
theory Sched_Steps
  imports Sched_Laws
begin

text \<open>
  The steps of the schedule service: the operations of the manager and the writes of the scheduler.
  Every pass of the scheduler is a sequence of them, provided the dispatcher writes to the store
  only through them, and every step keeps the invariant.
\<close>

section \<open>The step relation\<close>

inductive sched_step :: "sched_env \<Rightarrow> sched_store \<Rightarrow> sched_store \<Rightarrow> bool" for env where
  step_create: "manager_create env now fresh user rq st = Inr (s, st') \<Longrightarrow> sched_step env st st'"
| step_pause: "manager_pause env now sid actor st = Inr (s, st') \<Longrightarrow> sched_step env st st'"
| step_resume: "manager_resume env now sid confirm actor st = Inr (s, st') \<Longrightarrow> sched_step env st st'"
| step_delete: "manager_delete env now del sid actor st = Inr (s, st') \<Longrightarrow> sched_step env st st'"
| step_update: "manager_update env now later sid actor changes st = Inr (s, st') \<Longrightarrow> distinct (keys changes) \<Longrightarrow>
    sched_step env st st'"
| step_run_now: "manager_run_now env now oid sid actor st = Inr (oc, st') \<Longrightarrow> sched_step env st st'"
| step_retry: "manager_retry env now fresh sid oid actor st = Inr (oc, st') \<Longrightarrow> sched_step env st st'"
| step_claim: "claim_due_occurrence rq nx state target st = Inr (oc, st') \<Longrightarrow> finite_opt nx \<Longrightarrow>
    is_finite (rq_now rq) \<Longrightarrow> sched_step env st st'"
| step_cursor: "update_cursor sid expected nx now st = Inr st' \<Longrightarrow> finite_opt nx \<Longrightarrow> is_finite now \<Longrightarrow>
    sched_step env st st'"
| step_receipt: "update_occurrence oid now expected changes st = Inr (oc, st') \<Longrightarrow> sched_step env st st'"
| step_coalesce: "coalesce_pending_occurrence oid now st = Inr (oc, st') \<Longrightarrow> sched_step env st st'"
| step_coalesced: "update_coalesced oid due now st = Inr (oc, st') \<Longrightarrow> sched_step env st st'"

definition sched_steps :: "sched_env \<Rightarrow> sched_store \<Rightarrow> sched_store \<Rightarrow> bool" where
  "sched_steps env = (sched_step env)\<^sup>*\<^sup>*"

section \<open>The steps keep the invariant\<close>

lemma get_schedule_Inr:
  "get_schedule canonical False sid st = Inr s \<Longrightarrow> live_row sid st = Some s \<and> schedule_ok canonical s"
  by (auto simp: get_schedule_def split: option.splits)

lemma create_ok:
  assumes "manager_create env now fresh user rq st = Inr (s, st')" "sched_ok (en_canonical env) st"
  shows "sched_ok (en_canonical env) st'"
  using assms(1) unfolding manager_create_def Let_def
  by (auto elim!: bindE_InrE split: if_splits simp: schedule_ok_def
      intro: create_schedule_ok(1) [OF _ assms(2)])

lemma pget_dupdate_get:
  "distinct (keys changes) \<Longrightarrow>
   pget (dupdate changes d) k = (case dget changes k of None \<Rightarrow> pget d k | Some v \<Rightarrow> v)"
  unfolding dupdate_def
proof (induction changes arbitrary: d)
  case Nil
  show ?case by simp
next
  case (Cons p changes)
  obtain k' v where p: "p = (k', v)" by (cases p)
  show ?case
    using Cons map_of_NoneI [of k' changes] by (auto simp: p split: option.split)
qed

lemma revise_enabled:
  assumes "revise canonical sid expected action actor now changes st = Inr (u, st')"
    and "sched_ok canonical st" "distinct (keys changes)" "dget changes ''enabled'' = Some (PBool b)"
    and "b \<longleftrightarrow> action = ''resumed''"
  shows "sched_ok canonical st'"
  using assms(1,2)
proof (rule revise_InrE)
  fix row assume "schedule_from_mapping canonical (revised_payload row changes now) = Inr u"
  from schedule_from_mapping_fields(3) [OF this] assms(3,4) have "sd_enabled u = b"
    by (simp add: revised_payload_def pget_dupdate_get)
  with assms revise_ok show ?thesis by blast
qed

lemma pause_ok:
  assumes "manager_pause env now sid actor st = Inr (s, st')" and ok: "sched_ok (en_canonical env) st"
  shows "sched_ok (en_canonical env) st'"
proof -
  from assms(1) have "\<exists>n. st' = st \<or> revise (en_canonical env) sid n ''paused'' actor (Fin now)
      [(''enabled'', PBool False)] st = Inr (s, st')"
    unfolding manager_pause_def by (auto elim!: bindE_InrE split: if_splits)
  then obtain n where "st' = st \<or> revise (en_canonical env) sid n ''paused'' actor (Fin now)
      [(''enabled'', PBool False)] st = Inr (s, st')" ..
  then show ?thesis
  proof
    assume r: "revise (en_canonical env) sid n ''paused'' actor (Fin now)
      [(''enabled'', PBool False)] st = Inr (s, st')"
    show ?thesis by (rule revise_enabled [OF r ok, where b = False]) simp_all
  qed (use ok in simp)
qed

lemma resume_ok:
  assumes "manager_resume env now sid confirm actor st = Inr (s, st')" and ok: "sched_ok (en_canonical env) st"
  shows "sched_ok (en_canonical env) st'"
proof -
  from assms(1) have "\<exists>n. st' = st \<or> revise (en_canonical env) sid n ''resumed'' actor (Fin now)
      [(''enabled'', PBool True)] st = Inr (s, st')"
    unfolding manager_resume_def by (auto elim!: bindE_InrE split: if_splits)
  then obtain n where "st' = st \<or> revise (en_canonical env) sid n ''resumed'' actor (Fin now)
      [(''enabled'', PBool True)] st = Inr (s, st')" ..
  then show ?thesis
  proof
    assume r: "revise (en_canonical env) sid n ''resumed'' actor (Fin now)
      [(''enabled'', PBool True)] st = Inr (s, st')"
    show ?thesis by (rule revise_enabled [OF r ok, where b = True]) simp_all
  qed (use ok in simp)
qed

lemma remove_ok:
  assumes "manager_delete env now del sid actor st = Inr (s, st')" and ok: "sched_ok (en_canonical env) st"
  shows "sched_ok (en_canonical env) st'"
proof -
  from assms(1) have "\<exists>n. st' = st \<or> revise (en_canonical env) sid n ''deleted'' actor (Fin now)
      [(''enabled'', PBool False), (''deleted_at'', PFloat (Fin del))] st = Inr (s, st')"
    unfolding manager_delete_def by (auto elim!: bindE_InrE split: if_splits)
  then obtain n where "st' = st \<or> revise (en_canonical env) sid n ''deleted'' actor (Fin now)
      [(''enabled'', PBool False), (''deleted_at'', PFloat (Fin del))] st = Inr (s, st')" ..
  then show ?thesis
  proof
    assume r: "revise (en_canonical env) sid n ''deleted'' actor (Fin now)
      [(''enabled'', PBool False), (''deleted_at'', PFloat (Fin del))] st = Inr (s, st')"
    show ?thesis by (rule revise_enabled [OF r ok, where b = False]) simp_all
  qed (use ok in simp)
qed

lemma edit_distinct:
  "edit_ceiling c = Inr c' \<Longrightarrow> distinct (keys c) \<Longrightarrow> distinct (keys c')"
  "edit_limits c = Inr c' \<Longrightarrow> distinct (keys c) \<Longrightarrow> distinct (keys c')"
  "edit_config env c = Inr c' \<Longrightarrow> distinct (keys c) \<Longrightarrow> distinct (keys c')"
  by (auto simp: edit_ceiling_def edit_limits_def edit_config_def Let_def split: option.splits if_splits)

lemma update_ok:
  assumes "manager_update env now later sid actor changes st = Inr (s, st')" "distinct (keys changes)"
    and ok: "sched_ok (en_canonical env) st"
  shows "sched_ok (en_canonical env) st'"
proof -
  from assms(1) have "\<exists>c1 c2 c3 n next_run.
      edit_ceiling (dpop ''confirm'' changes) = Inr c1 \<and> edit_limits c1 = Inr c2 \<and> edit_config env c2 = Inr c3
    \<and> revise (en_canonical env) sid n ''updated'' actor (Fin later)
      (dset ''enabled'' (PBool False) (dset ''next_run_at'' (PFloat (Fin next_run)) c3)) st = Inr (s, st')"
    unfolding manager_update_def Let_def by (auto elim!: bindE_InrE split: if_splits) blast
  then obtain c1 c2 c3 n next_run where
    "edit_ceiling (dpop ''confirm'' changes) = Inr c1" "edit_limits c1 = Inr c2" "edit_config env c2 = Inr c3"
    and r: "revise (en_canonical env) sid n ''updated'' actor (Fin later)
      (dset ''enabled'' (PBool False) (dset ''next_run_at'' (PFloat (Fin next_run)) c3)) st = Inr (s, st')"
    by blast
  then have "distinct (keys c3)" using edit_distinct distinct_keys_dpop [OF assms(2)] by blast
  then show ?thesis by (intro revise_enabled [OF r ok, where b = False]) simp_all
qed

lemma inserted_ok:
  assumes "inserted key oid st (insert_occurrence oc st1) = Inr (oc', st')" "sched_ok canonical st" "sched_ok canonical st1"
    and "(oc_schedule_id oc, oc_schedule_revision oc) \<in> set (keys (sc_revisions st1))"
  shows "sched_ok canonical st'"
  using assms(1) by (rule inserted_Inr) (use assms insert_occurrence_ok in blast)+

lemma row_revision:
  assumes "sched_ok canonical st" "dget (sc_schedules st) sid = Some row"
  shows "sd_schedule_id row = sid" "(sid, sd_revision row) \<in> set (keys (sc_revisions st))" "1 \<le> sd_revision row"
  using sched_okD(1) [OF assms] by (auto simp: row_ok_def schedule_ok_iff)

lemma run_now_ok:
  assumes "manager_run_now env now oid sid actor st = Inr (oc, st')" and ok: "sched_ok (en_canonical env) st"
  shows "sched_ok (en_canonical env) st'"
proof -
  from assms(1) obtain s where s: "get_schedule (en_canonical env) False sid st = Inr s"
    and c: "create_manual_occurrence (en_canonical env) (manual_request env now oid s) actor
      [(''accepted'', PBool True), (''accepted_at'', PFloat (Fin now))] st = Inr (oc, st')"
    unfolding manager_run_now_def by (auto elim!: bindE_InrE)
  have row: "dget (sc_schedules st) sid = Some s"
    using get_schedule_Inr [OF s] by (simp add: live_row_Some)
  from c obtain state receipt where
    "inserted (''manual:'' @ oid) oid st (insert_occurrence
       (fresh_occurrence (manual_request env now oid s) ''manual'' state [] 1 receipt) st) = Inr (oc, st')"
    by (auto simp: create_manual_occurrence_def Let_def manual_request_def elim!: bindE_InrE split: option.splits if_splits)
  then show ?thesis
    by (rule inserted_ok [OF _ ok ok]) (use row_revision [OF ok row] in \<open>simp add: fresh_occurrence_def manual_request_def\<close>)
qed

lemma get_revision_Inr:
  assumes "get_revision canonical sid r st = Inr d" "sched_ok canonical st"
  shows "sd_schedule_id d = sid \<and> sd_revision d = r \<and> (sid, r) \<in> set (keys (sc_revisions st))"
proof -
  from assms(1) obtain rv where rv: "dget (sc_revisions st) (sid, r) = Some rv"
    and d: "schedule_from_mapping canonical (rv_definition rv) = Inr d"
    by (auto simp: get_revision_def map_sum_def split: option.splits sum.splits)
  from sched_okD(2) [OF assms(2) rv] d show ?thesis
    using map_of_in_keys [OF rv] by (auto simp: revision_ok_def)
qed

lemma retry_ok:
  assumes "manager_retry env now fresh sid oid actor st = Inr (oc, st')" and ok: "sched_ok (en_canonical env) st"
  shows "sched_ok (en_canonical env) st'"
proof -
  have keep: "sched_ok (en_canonical env) st'"
    if "get_revision (en_canonical env) sid r st = Inr snapshot"
      "create_occurrence rq ''retry'' OAwaitingService receipt oid' attempt st = Inr (oc, st')"
      "rq_schedule rq = snapshot" for r snapshot rq receipt oid' attempt
    using that(2) unfolding create_occurrence_def
    by (rule inserted_ok [OF _ ok ok]) (use get_revision_Inr [OF that(1) ok] that(3) in \<open>simp add: fresh_occurrence_def\<close>)
  from assms(1) show ?thesis
    unfolding manager_retry_def
    by (elim bindE_InrE) (simp split: if_splits, elim bindE_InrE, simp split: if_splits, erule (1) keep, simp)
qed

lemma claim_ok:
  assumes c: "claim_due_occurrence rq nx state target st = Inr (oc, st')" and ok: "sched_ok canonical st"
    and fin: "finite_opt nx" "is_finite (rq_now rq)"
  shows "sched_ok canonical st'"
proof (cases "\<exists>row. dget (sc_schedules st) (sd_schedule_id (rq_schedule rq)) = Some row
    \<and> claimable (rq_schedule rq) (rq_scheduled_for rq) row")
  case False
  with c have "st' = st"
    by (auto simp: claim_due_occurrence_def Let_def split: option.splits if_splits)
  with ok show ?thesis by simp
next
  case True
  then obtain row where row: "dget (sc_schedules st) (sd_schedule_id (rq_schedule rq)) = Some row"
    and cl: "claimable (rq_schedule rq) (rq_scheduled_for rq) row" by blast
  let ?st1 = "st\<lparr>sc_schedules := dset (sd_schedule_id (rq_schedule rq))
     (row\<lparr>sd_next_run_at := nx, sd_updated_at := rq_now rq\<rparr>) (sc_schedules st)\<rparr>"
  have ok1: "sched_ok canonical ?st1" by (rule sched_ok_cursor [OF ok row fin])
  show ?thesis
  proof (cases "target = []")
    case False
    with c row cl show ?thesis
      by (auto simp: claim_due_occurrence_def Let_def elim!: bindE_InrE intro: coalesce_into_ok [OF _ ok1])
  next
    case True
    with c row cl have "inserted (rq_occurrence_key rq) (rq_occurrence_id rq) st
       (insert_occurrence (fresh_occurrence rq ''scheduled'' state [] 1 (Some (claim_receipt rq))) ?st1) = Inr (oc, st')"
      by (simp add: claim_due_occurrence_def)
    then show ?thesis
      by (rule inserted_ok [OF _ ok ok1])
        (use row_revision [OF ok row] cl in \<open>simp add: fresh_occurrence_def claimable_def\<close>)
  qed
qed

lemma cursor_ok:
  "update_cursor sid expected nx now st = Inr st' \<Longrightarrow> sched_ok canonical st \<Longrightarrow> finite_opt nx \<Longrightarrow> is_finite now \<Longrightarrow>
   sched_ok canonical st'"
  by (auto simp: update_cursor_def live_row_Some intro: sched_ok_cursor split: option.splits if_splits)

theorem sched_step_ok:
  assumes "sched_step env st st'" "sched_ok (en_canonical env) st"
  shows "sched_ok (en_canonical env) st'"
  using assms
proof (induction rule: sched_step.induct)
  case step_coalesce
  then show ?case by (auto simp: coalesce_pending_occurrence_def elim!: bindE_InrE intro: coalesce_into_ok)
next
  case step_coalesced
  then show ?case by (auto simp: update_coalesced_def elim!: bindE_InrE intro: coalesce_into_ok)
qed (blast intro: create_ok pause_ok resume_ok remove_ok update_ok run_now_ok retry_ok claim_ok cursor_ok update_occurrence_ok)+

lemma sched_steps_ok:
  "sched_steps env st st' \<Longrightarrow> sched_ok (en_canonical env) st \<Longrightarrow> sched_ok (en_canonical env) st'"
  unfolding sched_steps_def by (induction rule: rtranclp_induct) (auto intro: sched_step_ok)

lemma reachable_sched_ok: "sched_steps env sched_empty st \<Longrightarrow> sched_ok (en_canonical env) st"
  by (rule sched_steps_ok [OF _ sched_ok_empty])

section \<open>Passes of the scheduler\<close>

lemma steps_refl [simp]: "sched_steps env st st"
  by (simp add: sched_steps_def)

lemma steps_one: "sched_step env st st' \<Longrightarrow> sched_steps env st st'"
  by (simp add: sched_steps_def r_into_rtranclp)

lemma steps_trans: "sched_steps env st st' \<Longrightarrow> sched_steps env st' st'' \<Longrightarrow> sched_steps env st st''"
  unfolding sched_steps_def by (rule rtranclp_trans)

lemma for_each_steps:
  "(\<And>x st. x \<in> set xs \<Longrightarrow> sched_steps env st (fst (f x st))) \<Longrightarrow> sched_steps env st (fst (for_each f xs st))"
proof (induction xs arbitrary: st)
  case (Cons x xs)
  have one: "sched_steps env st (fst (f x st))" by (rule Cons.prems) simp
  obtain st' r where r: "f x st = (st', r)" by (cases "f x st")
  have rest: "sched_steps env st' (fst (for_each f xs st'))" by (rule Cons.IH) (rule Cons.prems, simp)
  with one r show ?case by (cases r) (auto intro: steps_trans)
qed simp

lemma receipt_steps:
  "sched_steps env st (fst (case update_occurrence oid now expected changes st of
     Inl e \<Rightarrow> (st, f e) | Inr (oc, st') \<Rightarrow> (st', g)))"
  by (auto split: sum.split intro: steps_one step_receipt)

lemma next_run_finite: "next_run env now s due = Inr nx \<Longrightarrow> finite_opt nx"
  by (auto simp: next_run_def finite_opt_def map_sum_def split: pyfloat.splits sum.splits option.splits)

lemma claim_schedule_steps: "sched_steps env st (fst (claim_schedule env now s st))"
proof -
  have claim: "sched_steps env st st1"
    if "claim_due_occurrence (due_request env now s due state) nx state target st = Inr (oc, st1)"
      "next_run env now s due = Inr nx" for due state nx target oc st1
    using that next_run_finite by (intro steps_one step_claim) (auto simp: due_request_def Let_def)
  have mark: "sched_steps env st st2"
    if "claim_due_occurrence (due_request env now s due state) nx state target st = Inr (oc, st1)"
      "next_run env now s due = Inr nx" "update_occurrence oid (Fin now) [] ch st1 = Inr (oc', st2)"
    for due state nx target oc st1 oid ch oc' st2
    using claim [OF that(1,2)] steps_one [OF step_receipt [OF that(3)]] by (rule steps_trans)
  show ?thesis
    unfolding claim_schedule_def
    by (auto split: option.split sum.split prod.split sched_error.split intro: claim mark)
qed

lemma dispatch_one_steps:
  assumes d: "\<And>s oc st. sched_steps env st (snd (dispatch s oc st))"
  shows "sched_steps env st (fst (dispatch_one env dispatch after now oc st))"
proof -
  have finish: "sched_steps env st2 (fst (finish_dispatch s c t answer st2))" for s c t answer st2
    unfolding finish_dispatch_def Let_def by (rule receipt_steps)
  have go: "sched_steps env st (fst (finish_dispatch s c t answer st2))"
    if "update_occurrence oid (Fin now) pending_states ch st = Inr (c, st1)" "dispatch s c st1 = (answer, st2)"
    for s c t answer st1 st2 oid ch
    using steps_one [OF step_receipt [OF that(1)]] d [of st1 s c] finish [of st2 s c t answer] that(2)
    by (auto intro: steps_trans)
  have receipt: "update_occurrence oid now expected changes st = Inr (oc, st') \<Longrightarrow> sched_steps env st st'"
    for oid now expected changes oc st'
    by (intro steps_one step_receipt)
  show ?thesis
    unfolding dispatch_one_def Let_def
    by (auto split: sum.split prod.split sched_error.split dispatch_verdict.split intro: go receipt)
qed

lemma reconcile_steps: "sched_steps env st (fst (reconcile_one f now oc st))"
  unfolding reconcile_one_def Let_def
  by (auto split: option.split sum.split intro!: steps_one step_receipt)

text \<open>A whole pass is a sequence of steps.\<close>

lemma tick_steps:
  assumes "\<And>s oc st. sched_steps env st (snd (dispatch s oc st))"
  shows "sched_steps env st (fst (tick env lookup dispatch after lock_busy now st))"
proof -
  have r: "sched_steps env st (fst (reconcile_background lookup now st))" for st
    unfolding reconcile_background_def
    by (auto split: option.split sum.split intro: for_each_steps reconcile_steps)
  have c: "sched_steps env st (fst (claim_due env now st))" for st
    unfolding claim_due_def by (auto split: sum.split intro: for_each_steps claim_schedule_steps)
  have d: "sched_steps env st (fst (dispatch_pending env dispatch after lock_busy now st))" for st
    unfolding dispatch_pending_def
    by (auto split: sum.split intro: for_each_steps dispatch_one_steps [OF assms])
  obtain st1 e1 where 1: "reconcile_background lookup now st = (st1, e1)" by (cases "reconcile_background lookup now st")
  obtain st2 e2 where 2: "claim_due env now st1 = (st2, e2)" by (cases "claim_due env now st1")
  from r [of st] c [of st1] d [of st2] 1 2 show ?thesis
    unfolding tick_def by (cases e1; cases e2) (auto intro: steps_trans)
qed

end
