(* ===== verification/Sched_Properties.thy ===== *)
theory Sched_Properties
  imports Sched_Steps
begin

text \<open>
  What the schedules promise: the next occurrence of a recurrence, the history of a definition, the
  confirmation before it runs, one receipt for one due tick, the admission of requests, and the
  stall of the \<open>queue_one\<close> policy.
\<close>

section \<open>Recurrence\<close>

text \<open>
  What the search for the next occurrence relies on in a zone: an instant shows a real wall-clock
  time, of which the zone knows an instant not after it, and later wall-clock times that are shown
  at all begin later.
\<close>

definition lawful_zone :: "zone \<Rightarrow> bool" where
  "lawful_zone z \<longleftrightarrow>
     (\<forall>t. to_wall z (of_wall z (to_wall z t)) = to_wall z t \<and> of_wall z (to_wall z t) \<le> t)
   \<and> (\<forall>w w'. to_wall z (of_wall z w) = w \<longrightarrow> to_wall z (of_wall z w') = w' \<longrightarrow> w \<le> w' \<longrightarrow>
        of_wall z w \<le> of_wall z w')"

definition cron_occurrence :: "zone \<Rightarrow> cron_expression \<Rightarrow> rat \<Rightarrow> bool" where
  "cron_occurrence z c t \<longleftrightarrow> (\<exists>day h m. h \<in> cr_hours c \<and> m \<in> cr_minutes c \<and> matches_date c day
     \<and> t = of_wall z (wall_time day h m) \<and> to_wall z t = wall_time day h m)"

lemma wall_day_time:
  assumes "cron_wf c" "h \<in> cr_hours c" "m \<in> cr_minutes c"
  shows "wall_day (wall_time day h m) = day"
proof -
  have "0 \<le> h" "h \<le> 23" "0 \<le> m" "m \<le> 59" using assms by (auto simp: cron_wf_def)
  then have "0 \<le> h * 3600 + m * 60" "h * 3600 + m * 60 < 86400" by linarith+
  moreover have "wall_time day h m / 86400 = of_int day + of_int (h * 3600 + m * 60) / 86400"
    by (simp add: wall_time_def field_simps)
  ultimately show ?thesis
    unfolding wall_day_def by (simp add: floor_eq_iff field_simps flip: of_int_add of_int_mult)
qed

lemma wall_day_mono: "w \<le> w' \<Longrightarrow> wall_day w \<le> wall_day w'"
  by (simp add: wall_day_def floor_mono divide_right_mono)

text \<open>An occurrence after the present is a candidate of its day.\<close>

lemma occurrence_candidate:
  assumes z: "lawful_zone z" and c: "cron_wf c" and occ: "cron_occurrence z c t'" and later: "t0 < t'"
  obtains w where "w \<in> set (day_times c (wall_day w))" "matches_date c (wall_day w)" "to_wall z t' = w"
    "t' = of_wall z w" "to_wall z t0 < w" "wall_day (to_wall z t0) \<le> wall_day w"
    "candidate_instant z t0 (to_wall z t0) (wall_day w - wall_day (to_wall z t0)) w = Some t'"
proof -
  from occ obtain day h m where hm: "h \<in> cr_hours c" "m \<in> cr_minutes c" "matches_date c day"
    and t': "t' = of_wall z (wall_time day h m)" "to_wall z t' = wall_time day h m"
    by (auto simp: cron_occurrence_def)
  let ?w = "wall_time day h m"
  have day: "wall_day ?w = day" by (rule wall_day_time [OF c hm(1,2)])
  have n: "to_wall z t0 < ?w"
  proof (rule ccontr)
    assume "\<not> to_wall z t0 < ?w"
    then have "of_wall z ?w \<le> of_wall z (to_wall z t0)"
      using z t' unfolding lawful_zone_def by (metis linorder_not_less)
    also have "\<dots> \<le> t0" using z by (simp add: lawful_zone_def)
    finally show False using later t'(1) by simp
  qed
  then have "wall_day (to_wall z t0) \<le> wall_day ?w" by (intro wall_day_mono) simp
  moreover have "?w \<in> set (day_times c (wall_day ?w))" using c hm by (auto simp: day day_times_iff)
  moreover have "candidate_instant z t0 (to_wall z t0) (wall_day ?w - wall_day (to_wall z t0)) ?w = Some t'"
    using n t' later by (simp add: candidate_Some)
  ultimately show thesis using that [of ?w] hm(3) day t' n by simp
qed

text \<open>
  C35. The next occurrence of a cron expression is the least one: when the search finds an instant,
  it is an occurrence after the present and no occurrence lies between them; when it finds none,
  no occurrence lies within the horizon of eight years.
\<close>

theorem cron_next_least:
  assumes "cron_parse e = Inr c" "lawful_zone z"
  shows "case cron_next_after z c t0 of
      Inr t \<Rightarrow> cron_occurrence z c t \<and> t0 < t \<and> (\<forall>t'. cron_occurrence z c t' \<and> t0 < t' \<longrightarrow> t \<le> t')
    | Inl _ \<Rightarrow> (\<forall>t'. cron_occurrence z c t' \<and> t0 < t' \<longrightarrow>
        wall_day (to_wall z t0) + horizon \<le> wall_day (to_wall z t'))"
proof (cases "cron_next_after z c t0")
  case (Inl msg)
  note c = cron_parse_wf [OF assms(1)]
  let ?first = "wall_day (to_wall z t0)"
  from Inl have none: "first_some (\<lambda>offset. if \<not> matches_date c (?first + offset) then None
      else first_some (candidate_instant z t0 (to_wall z t0) offset) (day_times c (?first + offset))) [0..horizon - 1] = None"
    by (simp add: cron_next_after_def Let_def split: option.splits)
  have "?first + horizon \<le> wall_day (to_wall z t')" if "cron_occurrence z c t'" "t0 < t'" for t'
  proof (rule occurrence_candidate [OF assms(2) c that])
    fix w assume w: "w \<in> set (day_times c (wall_day w))" "matches_date c (wall_day w)" "to_wall z t' = w"
      "?first \<le> wall_day w" "candidate_instant z t0 (to_wall z t0) (wall_day w - ?first) w = Some t'"
    show ?thesis
    proof (rule ccontr)
      assume "\<not> ?first + horizon \<le> wall_day (to_wall z t')"
      then have "wall_day w - ?first \<in> set [0..horizon - 1]" using w by auto
      from none [unfolded first_some_None, rule_format, OF this] w
      show False by (auto simp: first_some_None)
    qed
  qed
  with Inl show ?thesis by simp
next
  case (Inr t)
  note c = cron_parse_wf [OF assms(1)]
  let ?first = "wall_day (to_wall z t0)"
  from Inr c show ?thesis
  proof (rule cron_next_InrE)
    fix offset us w vs
    assume m: "matches_date c (?first + offset)" and times: "day_times c (?first + offset) = us @ w # vs"
      and cand: "candidate_instant z t0 (to_wall z t0) offset w = Some t"
      and us: "\<forall>u \<in> set us. candidate_instant z t0 (to_wall z t0) offset u = None"
      and days: "\<forall>o' \<in> {0..<offset}. matches_date c (?first + o') \<longrightarrow>
        (\<forall>u \<in> set (day_times c (?first + o')). candidate_instant z t0 (to_wall z t0) o' u = None)"
    have t: "to_wall z t = w" "t = of_wall z w" "t0 < t" using cand by (auto simp: candidate_Some)
    have "w \<in> set (day_times c (?first + offset))" using times by simp
    then obtain h k where hk: "h \<in> cr_hours c" "k \<in> cr_minutes c" "w = wall_time (?first + offset) h k"
      using c by (auto simp: day_times_iff)
    then have occ: "cron_occurrence z c t" using m t unfolding cron_occurrence_def by blast
    have w_day: "wall_day w = ?first + offset" using wall_day_time [OF c hk(1,2)] hk(3) by simp
    have "t \<le> t'" if "cron_occurrence z c t'" "t0 < t'" for t'
    proof (rule occurrence_candidate [OF assms(2) c that])
      fix w' assume w': "w' \<in> set (day_times c (wall_day w'))" "matches_date c (wall_day w')" "to_wall z t' = w'"
        "t' = of_wall z w'" "?first \<le> wall_day w'"
        "candidate_instant z t0 (to_wall z t0) (wall_day w' - ?first) w' = Some t'"
      show "t \<le> t'"
      proof (cases "w \<le> w'")
        case True
        then show ?thesis using assms(2) t w'(3,4) unfolding lawful_zone_def by metis
      next
        case False
        then have "wall_day w' \<le> ?first + offset" using wall_day_mono [of w' w] w_day by simp
        then consider "wall_day w' - ?first \<in> {0..<offset}" | "wall_day w' = ?first + offset"
          using w'(5) by fastforce
        then show ?thesis
        proof cases
          case 1
          from days [rule_format, OF this] w' show ?thesis by simp
        next
          case 2
          then have "w' \<in> set us"
            using w'(1) False day_times_sorted [OF c, of "?first + offset"] times by (auto simp: sorted_append)
          with us w'(6) 2 show ?thesis by simp
        qed
      qed
    qed
    with Inr occ t(3) show ?thesis by simp
  qed
qed

text \<open>A zone with a fixed offset, one day ahead of the origin of wall-clock times.\<close>

definition utc_zone :: zone where
  "utc_zone = \<lparr>to_wall = (\<lambda>t. t + 86400), of_wall = (\<lambda>w. w - 86400)\<rparr>"

lemma lawful_utc [simp]: "lawful_zone utc_zone"
  by (simp add: lawful_zone_def utc_zone_def)

lemma demo_cron: "\<exists>c. cron_parse ''30 9 * * 1-5'' = Inr c"
proof -
  have "\<not> isl (cron_parse ''30 9 * * 1-5'')" by code_simp
  then show ?thesis by (auto simp: isl_def split: sum.splits) (metis sum.exhaust)
qed

theorem cron_next_least_witness:
  "\<exists>c. cron_parse ''30 9 * * 1-5'' = Inr c \<and> (case cron_next_after utc_zone c 0 of
      Inr t \<Rightarrow> cron_occurrence utc_zone c t \<and> 0 < t \<and> (\<forall>t'. cron_occurrence utc_zone c t' \<and> 0 < t' \<longrightarrow> t \<le> t')
    | Inl _ \<Rightarrow> (\<forall>t'. cron_occurrence utc_zone c t' \<and> 0 < t' \<longrightarrow>
        wall_day (to_wall utc_zone 0) + horizon \<le> wall_day (to_wall utc_zone t')))"
  using demo_cron cron_next_least [OF _ lawful_utc] by blast

text \<open>
  A parsed cron expression stays within the calendar: every field is a non-empty set of values
  within the bounds of its unit, with Sunday always 0, so the loops of the search visit at most
  1440 minutes of a day.
\<close>

theorem cron_parse_bounds:
  assumes "cron_parse e = Inr c"
  shows "cr_minutes c \<subseteq> {0..59} \<and> cr_hours c \<subseteq> {0..23} \<and> cr_days c \<subseteq> {1..31} \<and> cr_months c \<subseteq> {1..12}
    \<and> cr_weekdays c \<subseteq> {0..6} \<and> {} \<notin> {cr_minutes c, cr_hours c, cr_days c, cr_months c, cr_weekdays c}
    \<and> length (day_times c day) \<le> 1440"
proof -
  have wf: "cron_wf c" by (rule cron_parse_wf [OF assms])
  have "card (cr_minutes c) \<le> card {0..59::int}" "card (cr_hours c) \<le> card {0..23::int}"
    using wf unfolding cron_wf_def by (meson card_mono finite_atLeastAtMost_int)+
  then have "card (cr_hours c) * card (cr_minutes c) \<le> 24 * 60" by (intro mult_le_mono) simp_all
  moreover have "length (day_times c day) = card (cr_hours c) * card (cr_minutes c)"
    by (simp add: day_times_def length_concat o_def sum_list_triv)
  ultimately show ?thesis using wf by (auto simp: cron_wf_def)
qed

theorem cron_parse_bounds_witness:
  "\<exists>c. cron_parse ''30 9 * * 1-5'' = Inr c \<and> cr_hours c \<subseteq> {0..23}"
  using demo_cron cron_parse_bounds by blast

text \<open>
  Missed ticks of an interval coalesce: the next run lies after the present, on the grid of the
  previous run, at least one interval later, and when the previous run is past it is the first
  such point.
\<close>

theorem interval_next_coalesces:
  assumes "next_run_after zones RecInterval spec timezone previous now = Inr (Some t)"
  shows "\<exists>i k. parse_interval spec = Inr i \<and> 0 < i \<and> i < 2 ^ 31 \<and> 1 \<le> k \<and> t = previous + of_int (k * i)
    \<and> now < t \<and> (previous \<le> now \<longrightarrow> t \<le> now + of_int i)"
proof -
  from assms obtain i where i: "parse_interval spec = Inr i"
    and t: "t = previous + of_int (max 1 (\<lfloor>(now - previous) / of_int i\<rfloor> + 1) * i)"
    by (auto simp: next_run_after_def elim!: bindE_InrE)
  have bounds: "0 < i \<and> i < 2 ^ 31" by (rule parse_interval_bounds [OF i])
  let ?q = "\<lfloor>(now - previous) / of_int i\<rfloor>" and ?k = "max 1 (\<lfloor>(now - previous) / of_int i\<rfloor> + 1)"
  have pos: "(0::rat) < of_int i" using bounds by simp
  have "(now - previous) / of_int i < of_int ?k" by linarith
  then have after: "now - previous < of_int ?k * of_int i" using pos by (simp add: pos_divide_less_eq)
  have near: "of_int ?k * of_int i \<le> now - previous + of_int i" if "previous \<le> now"
  proof -
    have "0 \<le> (now - previous) / of_int i" using that pos by simp
    then have k: "?k = ?q + 1" by (simp add: max_def)
    have "of_int ?q \<le> (now - previous) / of_int i" by (rule of_int_floor_le)
    then have "of_int ?q * of_int i \<le> now - previous" by (simp only: pos_le_divide_eq [OF pos])
    then show ?thesis unfolding k by (simp add: algebra_simps)
  qed
  show ?thesis
    using i bounds t after near by (intro exI [of _ i] exI [of _ ?k]) (auto simp: algebra_simps)
qed

theorem interval_next_coalesces_witness:
  "\<exists>i k. parse_interval ''15m'' = Inr i \<and> 0 < i \<and> i < 2 ^ 31 \<and> 1 \<le> k \<and> (3600::rat) = 0 + of_int (k * i)
    \<and> (2700::rat) < 3600 \<and> ((0::rat) \<le> 2700 \<longrightarrow> (3600::rat) \<le> 2700 + of_int i)"
proof (rule interval_next_coalesces [of "\<lambda>_. Some utc_zone" _ "''UTC''"])
  have "parse_interval ''15m'' = Inr 900" by code_simp
  then show "next_run_after (\<lambda>_. Some utc_zone) RecInterval ''15m'' ''UTC'' 0 2700 = Inr (Some 3600)"
    by (simp add: next_run_after_def validate_timezone_def)
qed

section \<open>Definitions\<close>

text \<open>
  What is read as a schedule is a valid one, and a valid one reads back as itself: the mapping
  of a stored revision yields exactly the definition that was written.
\<close>

theorem schedule_roundtrip:
  assumes "schedule_from_mapping canonical raw = Inr s"
  shows "schedule_ok canonical s \<and> schedule_from_mapping canonical (schedule_to_dict s) = Inr s"
  using schedule_round_trip [OF schedule_from_mapping_ok [OF assms]] schedule_from_mapping_ok [OF assms] by simp

definition demo_env :: sched_env where
  "demo_env = \<lparr>en_canonical = (\<lambda>p. p), en_zones = (\<lambda>_. Some utc_zone), en_read_iso = (\<lambda>_. None),
     en_iso_text = (\<lambda>_ t. fixed6_text t), en_no_time = ''-'', en_session_of = (\<lambda>oid. ''s'' @ oid),
     en_occurrence_of = (\<lambda>k. k)\<rparr>"

definition demo_request :: schedule_request where
  "demo_request = \<lparr>sr_repository_root = ''/r'', sr_workflow_name = ''w'', sr_prompt = ''p'',
     sr_profile_name = ''q'', sr_permission_ceiling = ''review'', sr_recurrence_kind = RecInterval,
     sr_recurrence_spec = ''15m'', sr_timezone = ''UTC'', sr_coalesce_policy = CoalesceQueueOne,
     sr_max_in_flight = 1, sr_creator = Some ''me'', sr_config_path = []\<rparr>"

text \<open>A store after creating a schedule every fifteen minutes, and after confirming it.\<close>

definition demo_paused :: schedule where
  "demo_paused = \<lparr>sd_schedule_id = ''a'', sd_repository_root = ''/r'', sd_workflow_name = ''w'',
     sd_prompt = ''p'', sd_profile_name = ''q'', sd_permission_ceiling = ''Plan'',
     sd_recurrence_kind = RecInterval, sd_recurrence_spec = ''15m'', sd_timezone = ''UTC'',
     sd_coalesce_policy = CoalesceQueueOne, sd_max_in_flight = 1, sd_next_run_at = Some (Fin 900),
     sd_enabled = False, sd_creator = ''me'', sd_revision = 1, sd_created_at = Fin 0, sd_updated_at = Fin 0,
     sd_config_path = [], sd_deleted_at = None\<rparr>"

definition demo_enabled :: schedule where
  "demo_enabled = demo_paused\<lparr>sd_enabled := True, sd_revision := 2, sd_updated_at := Fin 60\<rparr>"

definition demo_revision :: "string \<Rightarrow> rat \<Rightarrow> schedule \<Rightarrow> (string \<times> int) \<times> revision_row" where
  "demo_revision action now s = ((''a'', sd_revision s), \<lparr>rv_action = action, rv_actor = ''me'',
     rv_created_at = Fin now, rv_definition = schedule_to_dict s\<rparr>)"

definition demo_audit :: "string \<Rightarrow> rat \<Rightarrow> schedule \<Rightarrow> audit_row" where
  "demo_audit action now s = \<lparr>au_schedule_id = ''a'', au_revision = sd_revision s, au_action = action,
     au_actor = ''me'', au_created_at = Fin now, au_details = schedule_to_dict s\<rparr>"

definition demo_created :: sched_store where
  "demo_created = \<lparr>sc_schedules = [(''a'', demo_paused)], sc_revisions = [demo_revision ''created'' 0 demo_paused],
     sc_audit = [demo_audit ''created'' 0 demo_paused], sc_occurrences = []\<rparr>"

definition demo_resumed :: sched_store where
  "demo_resumed = \<lparr>sc_schedules = [(''a'', demo_enabled)],
     sc_revisions = [demo_revision ''created'' 0 demo_paused, demo_revision ''resumed'' 60 demo_enabled],
     sc_audit = [demo_audit ''created'' 0 demo_paused, demo_audit ''resumed'' 60 demo_enabled], sc_occurrences = []\<rparr>"

lemma demo_created_step: "\<exists>s. manager_create demo_env 0 ''a'' ''u'' demo_request sched_empty = Inr (s, demo_created)"
proof
  show "manager_create demo_env 0 ''a'' ''u'' demo_request sched_empty = Inr (demo_paused, demo_created)" by code_simp
qed

lemma demo_resumed_step: "\<exists>s. manager_resume demo_env 60 ''a'' ''900.000000'' ''me'' demo_created = Inr (s, demo_resumed)"
proof
  show "manager_resume demo_env 60 ''a'' ''900.000000'' ''me'' demo_created = Inr (demo_enabled, demo_resumed)" by code_simp
qed

lemma demo_created_steps: "sched_steps demo_env sched_empty demo_created"
  unfolding sched_steps_def using demo_created_step by (blast intro: step_create)

lemma demo_resumed_steps: "sched_steps demo_env sched_empty demo_resumed"
  using demo_created_steps demo_resumed_step unfolding sched_steps_def
  by (blast intro: step_resume rtranclp.rtrancl_into_rtrancl)

theorem schedule_roundtrip_witness:
  "\<exists>s. schedule_ok (\<lambda>p. p) s \<and> schedule_from_mapping (\<lambda>p. p) (schedule_to_dict s) = Inr s"
proof -
  have "\<not> isl (schedule_from_mapping (\<lambda>p. p) (rv_definition (the (dget (sc_revisions demo_created) (''a'', 1)))))"
    by code_simp
  then obtain s where "schedule_from_mapping (\<lambda>p. p)
      (rv_definition (the (dget (sc_revisions demo_created) (''a'', 1)))) = Inr s"
    by (auto simp: isl_def) (metis sum.exhaust)
  from schedule_roundtrip [OF this] show ?thesis by blast
qed

text \<open>
  The history of a definition is complete: in every reachable store the revisions of a schedule
  are exactly \<open>1..n\<close>, each reads back as a valid definition of that schedule, and the newest one is the
  current row up to the cursor the scheduler moves.
\<close>

theorem sched_history:
  assumes "sched_steps env sched_empty st" "dget (sc_schedules st) sid = Some s"
  shows "(\<forall>r. (\<exists>d. get_revision (en_canonical env) sid r st = Inr d \<and> sd_schedule_id d = sid \<and> sd_revision d = r)
       \<longleftrightarrow> 1 \<le> r \<and> r \<le> sd_revision s)
    \<and> (\<exists>d. get_revision (en_canonical env) sid (sd_revision s) st = Inr d \<and> cursor_of s d = s)"
proof -
  note ok = reachable_sched_ok [OF assms(1)]
  note row = sched_okD(1) [OF ok assms(2)]
  have "\<exists>d. get_revision (en_canonical env) sid r st = Inr d \<and> sd_schedule_id d = sid \<and> sd_revision d = r"
    if r: "(sid, r) \<in> set (keys (sc_revisions st))" for r
  proof -
    from r obtain rv where rv: "dget (sc_revisions st) (sid, r) = Some rv" by (blast dest: in_keys_map_of)
    from sched_okD(2) [OF ok this] show ?thesis by (auto simp: revision_ok_def get_revision_def rv)
  qed
  moreover have "(sid, r) \<in> set (keys (sc_revisions st))" if "get_revision (en_canonical env) sid r st = Inr d" for r d
    using get_revision_Inr [OF that ok] by simp
  moreover have "\<exists>d. get_revision (en_canonical env) sid (sd_revision s) st = Inr d \<and> cursor_of s d = s"
    using row by (auto simp: row_ok_def get_revision_def)
  ultimately show ?thesis using row unfolding row_ok_def by metis
qed

theorem sched_history_witness:
  "\<exists>s. dget (sc_schedules demo_resumed) ''a'' = Some s
    \<and> (\<exists>d. get_revision (en_canonical demo_env) ''a'' (sd_revision s) demo_resumed = Inr d \<and> cursor_of s d = s)"
proof -
  have "dget (sc_schedules demo_resumed) ''a'' \<noteq> None" by code_simp
  then obtain s where "dget (sc_schedules demo_resumed) ''a'' = Some s" by blast
  with sched_history [OF demo_resumed_steps this] show ?thesis by blast
qed

text \<open>
  Only a confirmed schedule is enabled: in every reachable store a schedule is enabled exactly
  when its newest revision was recorded by a resume, so creating, editing, pausing or deleting it
  leaves it paused.
\<close>

theorem sched_enabled_confirmed:
  assumes "sched_steps env sched_empty st" "dget (sc_schedules st) sid = Some s"
  shows "sd_enabled s \<longleftrightarrow>
    (\<exists>rv. dget (sc_revisions st) (sid, sd_revision s) = Some rv \<and> rv_action rv = ''resumed'')"
  using sched_okD(1) [OF reachable_sched_ok [OF assms(1)] assms(2)] by (auto simp: row_ok_def)

theorem sched_enabled_confirmed_witness:
  "\<exists>s rv. dget (sc_schedules demo_resumed) ''a'' = Some s \<and> sd_enabled s
    \<and> dget (sc_revisions demo_resumed) (''a'', sd_revision s) = Some rv \<and> rv_action rv = ''resumed''"
proof -
  have "map_option sd_enabled (dget (sc_schedules demo_resumed) ''a'') = Some True" by code_simp
  then obtain s where "dget (sc_schedules demo_resumed) ''a'' = Some s" "sd_enabled s" by auto
  with sched_enabled_confirmed [OF demo_resumed_steps this(1)] show ?thesis by blast
qed

lemma enabled_payload:
  "revised_payload s [(''enabled'', PBool b)] now =
   schedule_to_dict (s\<lparr>sd_enabled := b, sd_revision := sd_revision s + 1, sd_updated_at := now\<rparr>)"
  by (simp add: revised_payload_def dupdate_def schedule_to_dict_def)

text \<open>
  Resuming needs the exact next run: it succeeds only when the caller repeats the non-empty text
  of the stored next run in the schedule's zone, and it changes nothing of the definition but the
  flag, the revision and its time.
\<close>

theorem sched_resume_confirms:
  assumes "sched_steps env sched_empty st" "manager_resume env now sid confirm actor st = Inr (u, st')"
  shows "\<exists>s. live_row sid st = Some s \<and> format_timestamp env (sd_next_run_at s) (sd_timezone s) = Inr confirm
    \<and> confirm \<noteq> [] \<and> dget (sc_schedules st') sid = Some u
    \<and> u = (if sd_enabled s then s else s\<lparr>sd_enabled := True, sd_revision := sd_revision s + 1, sd_updated_at := Fin now\<rparr>)"
proof -
  note ok = reachable_sched_ok [OF assms(1)]
  from assms(2) obtain s where g: "get_schedule (en_canonical env) False sid st = Inr s"
    and f: "format_timestamp env (sd_next_run_at s) (sd_timezone s) = Inr confirm" "confirm \<noteq> []"
    and r: "(if sd_enabled s then Inr (s, st) else revise (en_canonical env) sid (sd_revision s) ''resumed'' actor (Fin now)
              [(''enabled'', PBool True)] st) = Inr (u, st')"
    by (auto simp: manager_resume_def elim!: bindE_InrE split: if_splits)
  have s: "live_row sid st = Some s" "schedule_ok (en_canonical env) s" using get_schedule_Inr [OF g] by auto
  show ?thesis
  proof (cases "sd_enabled s")
    case True
    with r s f show ?thesis by (auto simp: live_row_Some)
  next
    case False
    with r have "revise (en_canonical env) sid (sd_revision s) ''resumed'' actor (Fin now)
        [(''enabled'', PBool True)] st = Inr (u, st')" by simp
    from this ok show ?thesis
    proof (rule revise_InrE)
      fix row assume row: "live_row sid st = Some row"
        "schedule_from_mapping (en_canonical env) (revised_payload row [(''enabled'', PBool True)] (Fin now)) = Inr u"
        "insert_audit u ''resumed'' actor (Fin now) (st\<lparr>sc_schedules := dset sid u (sc_schedules st)\<rparr>) = Inr st'"
      let ?u = "s\<lparr>sd_enabled := True, sd_revision := sd_revision s + 1, sd_updated_at := Fin now\<rparr>"
      have "schedule_ok (en_canonical env) ?u" using s(2) by (simp add: schedule_ok_iff)
      then have "u = ?u" using row(1,2) s(1) schedule_round_trip by (simp add: enabled_payload)
      moreover have "dget (sc_schedules st') sid = Some u" using row(3) by (auto simp: insert_audit_Inr)
      ultimately show ?thesis using s f False by auto
    qed
  qed
qed

theorem sched_resume_confirms_witness:
  "\<exists>s u st'. manager_resume demo_env 60 ''a'' ''900.000000'' ''me'' demo_created = Inr (u, st')
    \<and> format_timestamp demo_env (sd_next_run_at s) (sd_timezone s) = Inr ''900.000000'' \<and> live_row ''a'' demo_created = Some s"
  using demo_resumed_step sched_resume_confirms [OF demo_created_steps] by blast

section \<open>Receipts\<close>

lemma reachable_receipt:
  assumes "sched_steps env sched_empty st" "dget (sc_occurrences st) oid = Some oc"
  shows "\<exists>s. get_revision (en_canonical env) (oc_schedule_id oc) (oc_schedule_revision oc) st = Inr s
    \<and> sd_schedule_id s = oc_schedule_id oc \<and> sd_revision s = oc_schedule_revision oc"
proof -
  note ok = reachable_sched_ok [OF assms(1)]
  from sched_okD(3) [OF ok assms(2)] obtain rv where
    rv: "dget (sc_revisions st) (oc_schedule_id oc, oc_schedule_revision oc) = Some rv"
    by (auto simp: occurrence_ok_def dest: in_keys_map_of)
  from sched_okD(2) [OF ok rv] show ?thesis by (auto simp: revision_ok_def get_revision_def rv)
qed

lemma occurrence_key_inject:
  assumes "distinct (occurrence_keys st)" "dget (sc_occurrences st) i = Some a" "dget (sc_occurrences st) j = Some b"
    "oc_occurrence_key a = oc_occurrence_key b"
  shows "i = j"
proof -
  have "inj_on (\<lambda>p. oc_occurrence_key (snd p)) (set (sc_occurrences st))"
    using assms(1) unfolding occurrence_keys_def by (rule distinct_map [THEN iffD1, THEN conjunct2])
  moreover have "(i, a) \<in> set (sc_occurrences st)" "(j, b) \<in> set (sc_occurrences st)"
    using assms(2,3) by (auto dest: map_of_SomeD)
  ultimately show ?thesis using assms(4) by (metis inj_onD prod.inject snd_conv)
qed

text \<open>
  C36. Every receipt can be dispatched: in every reachable store the definition a receipt was made
  from is stored and valid, and two receipts never carry the same occurrence key, so a due tick
  is claimed once and the branch for a missing revision is never taken.
\<close>

theorem sched_receipts:
  assumes "sched_steps env sched_empty st"
    and "dget (sc_occurrences st) i = Some a" "dget (sc_occurrences st) j = Some b"
  shows "(\<exists>s. get_revision (en_canonical env) (oc_schedule_id a) (oc_schedule_revision a) st = Inr s
       \<and> sd_schedule_id s = oc_schedule_id a \<and> sd_revision s = oc_schedule_revision a)
    \<and> (oc_occurrence_key a = oc_occurrence_key b \<longleftrightarrow> i = j)"
  using reachable_receipt [OF assms(1,2)] assms(2,3)
    occurrence_key_inject [OF sched_okD(5) [OF reachable_sched_ok [OF assms(1)]] assms(2,3)] by auto

text \<open>A pass of the scheduler at the time the schedule is due, with a dispatcher that is refused.\<close>

definition full_queue :: dispatcher where
  "full_queue s oc st = (Inl (''RuntimeError'', ''Queue is full''), st)"

definition demo_tick :: "rat \<Rightarrow> sched_store \<Rightarrow> sched_store" where
  "demo_tick now st = fst (tick demo_env (Some (\<lambda>_. None)) full_queue (\<lambda>_. Fin now) False now st)"

definition demo_waiting :: sched_store where
  "demo_waiting = demo_tick 900 demo_resumed"

definition demo_stalled :: sched_store where
  "demo_stalled = demo_tick 1800 demo_waiting"

text \<open>
  One due tick is claimed once: after a claim of a tick whose key was not yet used, with a cursor
  that moved on, no later claim of the same tick changes the store, whatever state or target it
  asks for, and the claim itself added at most one receipt and moved the cursor of that schedule.
\<close>

theorem sched_claim_once:
  assumes "claim_due_occurrence rq nx state target st = Inr (oc, st')"
    and "find_by_key (rq_occurrence_key rq) st = None" "nx \<noteq> Some (rq_scheduled_for rq)"
  shows "(\<forall>nx2 state2 target2. case claim_due_occurrence rq nx2 state2 target2 st' of
        Inr (_, st'') \<Rightarrow> st'' = st' | Inl e \<Rightarrow> \<exists>m. e = ScheduleConflict m)
    \<and> length (sc_occurrences st') \<le> length (sc_occurrences st) + 1
    \<and> map_option sd_next_run_at (dget (sc_schedules st') (sd_schedule_id (rq_schedule rq))) = Some nx"
proof -
  let ?sid = "sd_schedule_id (rq_schedule rq)"
  obtain row where row: "dget (sc_schedules st) ?sid = Some row"
    and cl: "claimable (rq_schedule rq) (rq_scheduled_for rq) row"
    using assms(1,2) by (auto simp: claim_due_occurrence_def Let_def split: option.splits if_splits)
  let ?row = "row\<lparr>sd_next_run_at := nx, sd_updated_at := rq_now rq\<rparr>"
  have "sc_schedules st' = dset ?sid ?row (sc_schedules st) \<and> length (sc_occurrences st') \<le> length (sc_occurrences st) + 1"
  proof (cases "target = []")
    case True
    with assms(1) row cl have "inserted (rq_occurrence_key rq) (rq_occurrence_id rq) st
       (insert_occurrence (fresh_occurrence rq ''scheduled'' state [] 1 (Some (claim_receipt rq)))
         (st\<lparr>sc_schedules := dset ?sid ?row (sc_schedules st)\<rparr>)) = Inr (oc, st')"
      by (simp add: claim_due_occurrence_def)
    then show ?thesis by (rule inserted_Inr) (use assms(2) in \<open>auto simp: insert_occurrence_Inr\<close>)
  next
    case False
    with assms(1) row cl show ?thesis
      by (auto simp: claim_due_occurrence_def Let_def coalesce_into_Inr length_dset dest: map_of_in_keys elim!: bindE_InrE)
  qed
  moreover have "\<not> claimable (rq_schedule rq) (rq_scheduled_for rq) ?row"
    using assms(3) by (simp add: claimable_def)
  ultimately show ?thesis
    by (auto simp: claim_due_occurrence_def Let_def split: option.splits)
qed

definition demo_claim :: occurrence_request where
  "demo_claim = due_request demo_env 900 (the (dget (sc_schedules demo_resumed) ''a'')) (Fin 900) OAwaitingService"

theorem sched_claim_once_witness:
  "\<exists>oc st'. claim_due_occurrence demo_claim (Some (Fin 1800)) OAwaitingService [] demo_resumed = Inr (oc, st')
    \<and> length (sc_occurrences st') \<le> length (sc_occurrences demo_resumed) + 1"
proof -
  have "\<not> isl (claim_due_occurrence demo_claim (Some (Fin 1800)) OAwaitingService [] demo_resumed)" by code_simp
  then obtain oc st' where "claim_due_occurrence demo_claim (Some (Fin 1800)) OAwaitingService [] demo_resumed = Inr (oc, st')"
    by (auto simp: isl_def) (metis sum.exhaust surj_pair)
  moreover have "find_by_key (rq_occurrence_key demo_claim) demo_resumed = None" by code_simp
  moreover have "Some (Fin 1800) \<noteq> Some (rq_scheduled_for demo_claim)"
    by (simp add: demo_claim_def due_request_def Let_def)
  ultimately show ?thesis using sched_claim_once by blast
qed

lemma cron_next_after_later: "cron_next_after z c t0 = Inr t \<Longrightarrow> t0 < t"
  by (auto simp: cron_next_after_def Let_def candidate_Some dest!: first_some_SomeD split: option.splits if_splits)

lemma next_run_later:
  assumes "next_run env now s (Fin due) = Inr nx"
  shows "case nx of None \<Rightarrow> sd_recurrence_kind s = RecOnce | Some x \<Rightarrow> \<exists>t. x = Fin t \<and> now < t"
proof -
  from assms obtain r where r: "next_run_after (en_zones env) (sd_recurrence_kind s) (sd_recurrence_spec s)
      (sd_timezone s) due now = Inr r" and nx: "nx = map_option Fin r"
    by (auto simp: next_run_def map_sum_def split: sum.splits)
  show ?thesis
  proof (cases "sd_recurrence_kind s")
    case RecOnce
    with r nx show ?thesis by (simp add: next_run_after_def)
  next
    case RecInterval
    with r obtain i where i: "parse_interval (sd_recurrence_spec s) = Inr i"
      "r = Some (due + of_int (max 1 (\<lfloor>(now - due) / of_int i\<rfloor> + 1) * i))"
      by (auto simp: next_run_after_def elim!: bindE_InrE)
    let ?k = "max 1 (\<lfloor>(now - due) / of_int i\<rfloor> + 1)"
    have pos: "(0::rat) < of_int i" using parse_interval_bounds [OF i(1)] by simp
    have "(now - due) / of_int i < of_int ?k" by linarith
    then have "now < due + of_int (?k * i)" using pos by (simp add: pos_divide_less_eq algebra_simps)
    then show ?thesis using nx i(2) by simp
  next
    case RecCron
    with r obtain z c x where "cron_next_after z c now = Inr x" "r = Some x"
      by (auto simp: next_run_after_def map_sum_def split: sum.splits elim!: bindE_InrE)
    with nx cron_next_after_later [of z c now x] show ?thesis by simp
  qed
qed

text \<open>
  C37. A due tick does not stay due: when the scheduler's pass over a due schedule ends without an
  error and the tick was not recorded before, the cursor of the schedule is the next run of its
  recurrence, which lies after the present, or there is none and the schedule was a one-shot.
\<close>

theorem sched_due_advances:
  assumes "sched_steps env sched_empty st" "dget (sc_schedules st) sid = Some s"
    and due: "sd_enabled s" "sd_deleted_at s = None" "sd_next_run_at s = Some (Fin due)"
    and fresh: "find_by_key (stable_key s (Fin due)) st = None"
      "en_occurrence_of env (stable_key s (Fin due)) \<notin> set (keys (sc_occurrences st))"
    and claim: "claim_schedule env now s st = (st', None)"
  shows "\<exists>row. dget (sc_schedules st') sid = Some row
    \<and> (case sd_next_run_at row of None \<Rightarrow> sd_recurrence_kind s = RecOnce | Some x \<Rightarrow> \<exists>t. x = Fin t \<and> now < t)"
proof -
  note ok = reachable_sched_ok [OF assms(1)]
  have sid: "sd_schedule_id s = sid" using row_revision(1) [OF ok assms(2)] .
  from claim due(3) obtain nx where nx: "next_run env now s (Fin due) = Inr nx"
    by (auto simp: claim_schedule_def split: sum.splits)
  obtain state target where ds: "due_state s (inflight_for sid st) = (state, target)" by (cases "due_state s (inflight_for sid st)")
  let ?rq = "due_request env now s (Fin due) state"
  let ?row = "s\<lparr>sd_next_run_at := nx, sd_updated_at := Fin now\<rparr>"
  let ?st1 = "st\<lparr>sc_schedules := dset sid ?row (sc_schedules st)\<rparr>"
  have cl: "claimable s (Fin due) s" using due by (simp add: claimable_def)
  have "\<exists>oc st2. claim_due_occurrence ?rq nx state target st = Inr (oc, st2) \<and> sc_schedules st2 = sc_schedules ?st1"
  proof (cases "target = []")
    case True
    let ?oc = "fresh_occurrence ?rq ''scheduled'' state [] 1 (Some (claim_receipt ?rq))"
    have "insert_occurrence ?oc ?st1 = Inr (?st1\<lparr>sc_occurrences := sc_occurrences st @ [(rq_occurrence_id ?rq, ?oc)]\<rparr>)"
      using fresh sid assms(2)
      by (simp add: insert_occurrence_Inr fresh_occurrence_def due_request_def Let_def find_by_key_def)
    then show ?thesis
      using True assms(2) cl sid fresh(2) map_of_NoneI [OF fresh(2)]
      by (simp add: claim_due_occurrence_def due_request_def Let_def inserted_def get_occurrence_def map_add_def)
  next
    case False
    with ds obtain oc where oc: "find (\<lambda>oc. oc_state oc = OQueued) (inflight_for sid st) = Some oc"
      "target = oc_occurrence_id oc"
      by (auto simp: due_state_def split: if_splits option.splits)
    then have "oc \<in> set (inflight_for sid st)" "oc_state oc = OQueued"
      by (auto simp: find_Some_iff)
    then obtain k where "(k, oc) \<in> set (sc_occurrences st)" by (auto simp: inflight_for_def)
    then have k: "dget (sc_occurrences st) k = Some oc" using sched_okD(4) [OF ok] by (simp add: keys_def)
    then have "k = target" using sched_okD(3) [OF ok k] oc(2) by (simp add: occurrence_ok_def)
    with k \<open>oc_state oc = OQueued\<close> False assms(2) cl sid show ?thesis
      by (simp add: claim_due_occurrence_def due_request_def Let_def coalesce_into_def get_occurrence_def)
  qed
  then obtain oc st2 where c: "claim_due_occurrence ?rq nx state target st = Inr (oc, st2)"
    "sc_schedules st2 = sc_schedules ?st1" by blast
  have "sc_schedules st' = sc_schedules st2"
    using claim due(3) nx ds c(1) sid
    by (auto simp: claim_schedule_def update_occurrence_Inr split: if_splits sum.splits)
  with c(2) next_run_later [OF nx] show ?thesis by simp
qed

theorem sched_due_advances_witness:
  "\<exists>row. dget (sc_schedules (fst (claim_schedule demo_env 900 (the (dget (sc_schedules demo_resumed) ''a'')) demo_resumed))) ''a'' = Some row
    \<and> (case sd_next_run_at row of None \<Rightarrow> False | Some x \<Rightarrow> \<exists>t. x = Fin t \<and> 900 < t)"
proof -
  let ?s = "the (dget (sc_schedules demo_resumed) ''a'')"
  have "map_option (\<lambda>s. (sd_enabled s, sd_deleted_at s, sd_next_run_at s, sd_recurrence_kind s, stable_key s (Fin 900)))
      (dget (sc_schedules demo_resumed) ''a'') = Some (True, None, Some (Fin 900), RecInterval, ''scheduled:a:2:900.000000'')"
    by code_simp
  then have s: "dget (sc_schedules demo_resumed) ''a'' = Some ?s" "sd_enabled ?s" "sd_deleted_at ?s = None"
    "sd_next_run_at ?s = Some (Fin 900)" "sd_recurrence_kind ?s = RecInterval"
    "stable_key ?s (Fin 900) = ''scheduled:a:2:900.000000''" by auto
  have none: "sc_occurrences demo_resumed = []" by code_simp
  have "snd (claim_schedule demo_env 900 ?s demo_resumed) = None" by code_simp
  then obtain st' where c: "claim_schedule demo_env 900 ?s demo_resumed = (st', None)"
    by (cases "claim_schedule demo_env 900 ?s demo_resumed") simp
  from sched_due_advances [OF demo_resumed_steps s(1-4) _ _ c] s(5,6) none c show ?thesis
    by (auto simp: find_by_key_def split: option.splits)
qed

section \<open>Admission\<close>

lemma inflight_insert:
  "inflight_for sid (st\<lparr>sc_occurrences := sc_occurrences st @ [(oid, oc)]\<rparr>) =
   inflight_for sid st @ (if oc_schedule_id oc = sid \<and> in_flight oc then [oc] else [])"
  by (simp add: inflight_for_def)

text \<open>
  A run-now request is admitted within the policy: it adds one waiting receipt, and afterwards
  a \<open>skip\<close> schedule has exactly that one in flight, a \<open>queue_one\<close> schedule exactly one waiting, and
  an \<open>allow_bounded\<close> schedule no more in flight than its bound.
\<close>

theorem sched_admission:
  assumes "create_manual_occurrence canonical rq actor receipt st = Inr (oc, st')"
    and "find_by_key (rq_occurrence_key rq) st = None"
  shows "sc_occurrences st' = sc_occurrences st @ [(rq_occurrence_id rq, oc)]
    \<and> oc_state oc \<in> {OAwaitingService, OQueued}
    \<and> (let s = rq_schedule rq; now_inflight = inflight_for (sd_schedule_id s) st' in
        case sd_coalesce_policy s of
          CoalesceSkip \<Rightarrow> now_inflight = [oc]
        | CoalesceQueueOne \<Rightarrow> filter (\<lambda>x. oc_state x \<in> {OAwaitingService, OQueued}) now_inflight = [oc]
        | CoalesceAllowBounded \<Rightarrow> int (length now_inflight) \<le> sd_max_in_flight s)"
proof -
  let ?s = "rq_schedule rq"
  let ?sid = "sd_schedule_id ?s"
  from assms(1) obtain state where
    a: "admission ?s (map oc_state (inflight_for ?sid st)) = Inr state"
    and i: "inserted (rq_occurrence_key rq) (rq_occurrence_id rq) st
       (insert_occurrence (fresh_occurrence rq ''manual'' state [] 1
          (Some (manual_receipt receipt state actor (rq_session_id rq)))) st) = Inr (oc, st')"
    by (auto simp: create_manual_occurrence_def Let_def elim!: bindE_InrE split: option.splits if_splits)
  let ?oc = "fresh_occurrence rq ''manual'' state [] 1 (Some (manual_receipt receipt state actor (rq_session_id rq)))"
  from i have st': "sc_occurrences st' = sc_occurrences st @ [(rq_occurrence_id rq, oc)] \<and> oc = ?oc"
  proof (rule inserted_Inr)
    assume "insert_occurrence ?oc st = Inr st'" "dget (sc_occurrences st') (rq_occurrence_id rq) = Some oc"
    then show ?thesis
      by (auto simp: insert_occurrence_Inr fresh_occurrence_def map_add_def map_of_NoneI split: option.splits)
  qed (use assms(2) in simp)
  then have oc: "oc_schedule_id oc = ?sid" "oc_state oc = state" by (simp_all add: fresh_occurrence_def)
  from a have state: "state \<in> {OAwaitingService, OQueued}"
    by (auto simp: admission_def split: coalesce_policy.splits if_splits)
  then have "inflight_for ?sid st' = inflight_for ?sid st @ [oc]"
    using st' oc by (auto simp: inflight_for_def in_flight_def in_flight_states_def)
  moreover have "sd_coalesce_policy ?s = CoalesceSkip \<Longrightarrow> inflight_for ?sid st = []"
    using a by (simp add: admission_def split: if_splits)
  moreover have "sd_coalesce_policy ?s = CoalesceQueueOne \<Longrightarrow>
      filter (\<lambda>x. oc_state x \<in> {OAwaitingService, OQueued}) (inflight_for ?sid st) = []"
    using a by (auto simp: admission_def list_ex_iff filter_empty_conv split: if_splits)
  moreover have "sd_coalesce_policy ?s = CoalesceAllowBounded \<Longrightarrow>
      int (length (inflight_for ?sid st)) < sd_max_in_flight ?s"
    using a by (simp add: admission_def split: if_splits)
  ultimately show ?thesis
    using st' oc state by (cases "sd_coalesce_policy ?s") (simp_all add: Let_def)
qed

theorem sched_admission_witness:
  "\<exists>oc st'. create_manual_occurrence (\<lambda>p. p) (manual_request demo_env 100 ''m'' (the (dget (sc_schedules demo_resumed) ''a'')))
      ''me'' [] demo_resumed = Inr (oc, st') \<and> oc_state oc \<in> {OAwaitingService, OQueued}"
proof -
  let ?rq = "manual_request demo_env 100 ''m'' (the (dget (sc_schedules demo_resumed) ''a''))"
  have "\<not> isl (create_manual_occurrence (\<lambda>p. p) ?rq ''me'' [] demo_resumed)" by code_simp
  then obtain oc st' where "create_manual_occurrence (\<lambda>p. p) ?rq ''me'' [] demo_resumed = Inr (oc, st')"
    by (auto simp: isl_def) (metis sum.exhaust surj_pair)
  moreover have "find_by_key (rq_occurrence_key ?rq) demo_resumed = None" by code_simp
  ultimately show ?thesis using sched_admission by blast
qed

section \<open>The stall of \<open>queue_one\<close>\<close>

lemma for_each_idle:
  "(\<And>x. x \<in> set xs \<Longrightarrow> f x st = (st, None)) \<Longrightarrow> for_each f xs st = (st, None)"
  by (induction xs) simp_all

text \<open>
  A \<open>queue_one\<close> schedule can stall for good: when a waiting receipt that is not queued (its
  dispatch was refused, or not tried yet) and a queued one are in flight, each waits for the other, so
  a dispatch pass does nothing, whatever the dispatcher would answer.
\<close>

theorem sched_queue_one_stall:
  assumes "sched_steps env sched_empty st"
    and waiting: "dget (sc_occurrences st) i = Some a" "oc_state a \<in> {OAwaitingService, OWaitingCapacity, OPreparing}"
    and queued: "dget (sc_occurrences st) j = Some b" "oc_state b = OQueued"
    and sid: "oc_schedule_id a = sid" "oc_schedule_id b = sid"
    and only: "\<And>k c. dget (sc_occurrences st) k = Some c \<Longrightarrow> oc_state c \<in> set pending_states \<Longrightarrow>
      oc_schedule_id c = sid \<and> (\<exists>s. get_revision (en_canonical env) sid (oc_schedule_revision c) st = Inr s
        \<and> sd_coalesce_policy s = CoalesceQueueOne)"
  shows "dispatch_pending env dispatch after lock_busy now st = (st, None)"
proof -
  note ok = reachable_sched_ok [OF assms(1)]
  have ids: "oc_occurrence_id a = i" "oc_occurrence_id b = j"
    using sched_okD(3) [OF ok waiting(1)] sched_okD(3) [OF ok queued(1)] by (simp_all add: occurrence_ok_def)
  have ij: "i \<noteq> j" using waiting queued by auto
  have inflight: "a \<in> set (inflight_for sid st)" "b \<in> set (inflight_for sid st)"
    using waiting queued sid by (force simp: inflight_for_def in_flight_def in_flight_states_def dest: map_of_SomeD)+
  have idle: "dispatch_one env dispatch after now oc st = (st, None)"
    if oc: "oc \<in> set (map snd (sc_occurrences st))" "oc_state oc \<in> set pending_states" for oc
  proof -
    from oc(1) obtain k where "(k, oc) \<in> set (sc_occurrences st)" by auto
    then have k: "dget (sc_occurrences st) k = Some oc"
      using sched_okD(4) [OF ok] by (simp add: keys_def)
    from only [OF k oc(2)] obtain s where s: "oc_schedule_id oc = sid"
      "get_revision (en_canonical env) sid (oc_schedule_revision oc) st = Inr s" "sd_coalesce_policy s = CoalesceQueueOne"
      by blast
    have "sd_schedule_id s = sid" using get_revision_Inr [OF s(2) ok] by simp
    moreover have "filter (\<lambda>x. oc_occurrence_id x \<noteq> oc_occurrence_id oc) (inflight_for sid st) \<noteq> []"
      using inflight ids ij by (simp add: filter_empty_conv) metis
    ultimately show ?thesis
      using s by (simp add: dispatch_one_def Let_def dispatch_choice_def)
  qed
  show ?thesis
  proof (cases lock_busy)
    case False
    have "set (sql_limit 1000 (sort_key (\<lambda>oc. (oc_created_at oc, oc_occurrence_id oc))
        (filter (\<lambda>oc. oc_state oc \<in> set pending_states) (map snd (sc_occurrences st)))))
      \<subseteq> {oc \<in> set (map snd (sc_occurrences st)). oc_state oc \<in> set pending_states}"
      using set_sql_limit by fastforce
    then show ?thesis
      using False idle by (auto simp: dispatch_pending_def list_occurrences_def pending_states_def intro!: for_each_idle)
  qed (simp add: dispatch_pending_def)
qed

lemma demo_tick_steps: "sched_steps demo_env st (demo_tick now st)"
  unfolding demo_tick_def by (rule tick_steps) (simp add: full_queue_def)

lemma demo_stalled_steps: "sched_steps demo_env sched_empty demo_stalled"
  unfolding demo_stalled_def demo_waiting_def
  by (meson demo_resumed_steps demo_tick_steps steps_trans)

text \<open>The refused receipt and the queued one, both made from the second revision.\<close>

definition stall_view :: "sched_store \<Rightarrow> (string \<times> occurrence_state \<times> string \<times> int) list \<times> (sched_error + coalesce_policy)" where
  "stall_view st = (map (\<lambda>p. (fst p, oc_state (snd p), oc_schedule_id (snd p), oc_schedule_revision (snd p))) (sc_occurrences st),
     map_sum id sd_coalesce_policy (get_revision (\<lambda>p. p) ''a'' 2 st))"

lemma demo_stalled_view:
  "stall_view demo_stalled = ([(''scheduled:a:2:900.000000'', OWaitingCapacity, ''a'', 2),
     (''scheduled:a:2:1800.000000'', OQueued, ''a'', 2)], Inr CoalesceQueueOne)"
  by code_simp

lemma demo_stalled_occurrences:
  "map (\<lambda>p. (fst p, oc_state (snd p), oc_schedule_id (snd p), oc_schedule_revision (snd p))) (sc_occurrences demo_stalled)
   = [(''scheduled:a:2:900.000000'', OWaitingCapacity, ''a'', 2), (''scheduled:a:2:1800.000000'', OQueued, ''a'', 2)]"
  using demo_stalled_view by (simp add: stall_view_def)

lemma demo_stalled_policy:
  "map_sum id sd_coalesce_policy (get_revision (en_canonical demo_env) ''a'' 2 demo_stalled) = Inr CoalesceQueueOne"
  using demo_stalled_view by (simp add: stall_view_def demo_env_def)

theorem sched_receipts_witness:
  "\<exists>a b s. dget (sc_occurrences demo_stalled) ''scheduled:a:2:900.000000'' = Some a
    \<and> dget (sc_occurrences demo_stalled) ''scheduled:a:2:1800.000000'' = Some b
    \<and> get_revision (en_canonical demo_env) (oc_schedule_id a) (oc_schedule_revision a) demo_stalled = Inr s
    \<and> oc_occurrence_key a \<noteq> oc_occurrence_key b"
proof -
  obtain a b where ab: "dget (sc_occurrences demo_stalled) ''scheduled:a:2:900.000000'' = Some a"
    "dget (sc_occurrences demo_stalled) ''scheduled:a:2:1800.000000'' = Some b"
    using demo_stalled_occurrences by auto
  with sched_receipts [OF demo_stalled_steps ab] show ?thesis by auto
qed

theorem sched_queue_one_stall_witness:
  "dispatch_pending demo_env full_queue (\<lambda>_. Fin 2000) False 2000 demo_stalled = (demo_stalled, None)"
proof -
  obtain a b where ab: "sc_occurrences demo_stalled =
      [(''scheduled:a:2:900.000000'', a), (''scheduled:a:2:1800.000000'', b)]"
    "oc_state a = OWaitingCapacity" "oc_state b = OQueued" "oc_schedule_id a = ''a''" "oc_schedule_id b = ''a''"
    "oc_schedule_revision a = 2" "oc_schedule_revision b = 2"
    using demo_stalled_occurrences by auto
  obtain s where s: "get_revision (en_canonical demo_env) ''a'' 2 demo_stalled = Inr s"
    "sd_coalesce_policy s = CoalesceQueueOne"
    using demo_stalled_policy by (cases "get_revision (en_canonical demo_env) ''a'' 2 demo_stalled") auto
  show ?thesis
    by (rule sched_queue_one_stall [OF demo_stalled_steps, of "''scheduled:a:2:900.000000''" a
          "''scheduled:a:2:1800.000000''" b "''a''"])
      (use ab s in \<open>auto split: if_splits\<close>)
qed

end
