(* ===== verification/Modes_Properties.thy ===== *)
theory Modes_Properties
  imports Modes
begin

text \<open>
  What the execution modes guarantee: a ceiling never widens a mode, Plan lets only declared reading
  tools through, and no choice of the user leaves the selectable modes, of which only Yolo is
  unrestricted.
\<close>

section \<open>Folding case and stripping\<close>

lemma code_char_of [simp]: "code (char_of n) = n mod 256"
  by (simp add: code_def)

lemma code_lower: "code (lower_char c) = (if (65 \<le> code c \<and> code c \<le> 90) \<or> (192 \<le> code c \<and> code c \<le> 222 \<and> code c \<noteq> 215)
   then code c + 32 else code c)"
  by (auto simp: lower_char_def Let_def)

lemma lower_char_idem [simp]: "lower_char (lower_char c) = lower_char c"
  unfolding lower_char_def [of "lower_char c"] by (auto simp: code_lower Let_def)

lemma is_space_lower [simp]: "is_space (lower_char c) = is_space c"
  by (auto simp: is_space_def Let_def code_lower)

lemma casefold_simps [simp]:
  "py_casefold [] = []"
  "py_casefold (c # s) = (if code c = 223 then ''ss'' else [lower_char c]) @ py_casefold s"
  "py_casefold (s @ t) = py_casefold s @ py_casefold t"
  by (simp_all add: py_casefold_def)

lemma casefold_rev: "py_casefold (rev s) = rev (py_casefold s)"
  by (induction s) auto

lemma lower_s: "code (CHR ''s'') = 115" by (simp add: code_def)
lemma lower_ss: "lower_char (CHR ''s'') = CHR ''s''" by (simp add: lower_char_def lower_s)

lemma casefold_idem [simp]: "py_casefold (py_casefold s) = py_casefold s"
proof (induction s)
  case (Cons c s)
  have "code (lower_char c) \<noteq> 223 \<or> code c = 223" by (auto simp: code_lower)
  with Cons show ?case by (auto simp: lower_s lower_ss)
qed simp

lemma not_space: "code c = 223 \<Longrightarrow> \<not> is_space c" "\<not> is_space (CHR ''s'')"
  by (simp_all add: is_space_def Let_def lower_s)

lemma casefold_lstrip: "py_lstrip (py_casefold s) = py_casefold (py_lstrip s)"
  unfolding py_lstrip_def by (induction s) (auto simp: not_space)

lemma casefold_rstrip: "py_rstrip (py_casefold s) = py_casefold (py_rstrip s)"
  using casefold_lstrip [of "rev s"] by (simp add: py_rstrip_def py_lstrip_def casefold_rev)

lemma casefold_strip: "py_strip (py_casefold s) = py_casefold (py_strip s)"
  by (simp add: py_strip_def casefold_lstrip casefold_rstrip)

lemma rstrip_lstrip: "py_lstrip (py_rstrip (py_lstrip s)) = py_rstrip (py_lstrip s)"
proof -
  have "dropWhile is_space r = r" if "r = [] \<or> \<not> is_space (hd r)" for r using that by (cases r) auto
  moreover have "py_rstrip t = [] \<or> hd (py_rstrip t) = hd t" for t
  proof -
    obtain u where "t = py_rstrip t @ u"
      by (metis py_rstrip_def rev_append rev_rev_ident takeWhile_dropWhile_id)
    then show ?thesis by (metis hd_append2)
  qed
  moreover have "py_lstrip s = [] \<or> \<not> is_space (hd (py_lstrip s))"
    by (metis hd_dropWhile py_lstrip_def)
  ultimately show ?thesis unfolding py_lstrip_def
    by (metis (no_types, lifting) dropWhile.simps(1) py_rstrip_def rev.simps(1))
qed

lemma strip_idem [simp]: "py_strip (py_strip s) = py_strip s"
  by (simp add: py_strip_def rstrip_lstrip) (simp add: py_rstrip_def)

section \<open>Capabilities\<close>

lemma item_capability_iff: "item_capability v = Some c \<longleftrightarrow> v = PStr (capability_value c)"
  by (cases v) (simp_all add: item_capability_def capability_enum.parse_eq_Some_iff)

lemma item_capability_None: "item_capability v = None \<longleftrightarrow> (\<forall>c. v \<noteq> PStr (capability_value c))"
  by (metis item_capability_iff not_None_eq)

lemma set_map_filter_capability:
  "set (List.map_filter item_capability items) = {c. PStr (capability_value c) \<in> set items}"
proof (induction items)
  case (Cons v items)
  show ?case
  proof (cases "item_capability v")
    case None
    then have "PStr (capability_value c) \<noteq> v" for c by (auto simp: item_capability_None)
    then show ?thesis using Cons None by (simp add: List.map_filter_simps)
  next
    case (Some d)
    then have "v = PStr (capability_value d)" by (simp add: item_capability_iff)
    then show ?thesis using Cons Some by (auto simp: List.map_filter_simps capability_enum.label_inject)
  qed
qed (simp add: List.map_filter_simps)

lemma classify_disjoint:
  assumes "items \<noteq> []" "CapUndeclared \<in> R"
  shows "classify_tool_capabilities (PSet items) \<inter> R = {} \<longleftrightarrow>
    (\<forall>v \<in> set items. \<exists>c. c \<notin> R \<and> v = PStr (capability_value c))" (is "?L \<longleftrightarrow> ?P")
proof -
  define V where "V = set (List.map_filter item_capability items)"
  define bad where "bad = list_ex (\<lambda>v. item_capability v = None) items"
  have V: "c \<in> V \<longleftrightarrow> PStr (capability_value c) \<in> set items" for c
    by (simp add: V_def set_map_filter_capability)
  have bad: "bad \<longleftrightarrow> (\<exists>v \<in> set items. item_capability v = None)" by (simp add: bad_def list_ex_iff)
  have "classify_tool_capabilities (PSet items) =
      (if V = {} then {CapUndeclared} else if bad then insert CapUndeclared V else V)"
    using assms(1) by (simp add: classify_tool_capabilities_def Let_def V_def bad_def)
  then have L: "?L \<longleftrightarrow> V \<noteq> {} \<and> \<not> bad \<and> V \<inter> R = {}" using assms(2) by simp
  have hd: "hd items \<in> set items" using assms(1) by simp
  show ?thesis
  proof
    assume ?L
    show ?P
    proof
      fix v assume v: "v \<in> set items"
      with \<open>?L\<close> have "item_capability v \<noteq> None" unfolding L bad by auto
      then obtain c where c: "v = PStr (capability_value c)" by (auto simp: item_capability_None)
      with v \<open>?L\<close> have "c \<notin> R" unfolding L by (metis V disjoint_iff)
      with c show "\<exists>c. c \<notin> R \<and> v = PStr (capability_value c)" by blast
    qed
  next
    assume P: ?P
    then have "\<not> bad" unfolding bad by (auto simp: item_capability_None)
    moreover have "V \<noteq> {}" using P hd V by (metis empty_iff)
    moreover have "c \<notin> R" if "c \<in> V" for c
      using P that unfolding V by (metis capability_enum.label_inject pyval.inject(4))
    ultimately show ?L unfolding L by blast
  qed
qed

lemma gate_proceeds:
  "capability_gate mode type_name type_denied tool_name raw = Proceed \<longleftrightarrow>
   classify_tool_capabilities raw \<inter> md_blocked mode = {}"
  by (auto simp: capability_gate_def Let_def)

lemma restrict_blocked [simp]: "md_blocked (restrict_mode m c) = md_blocked m \<union> md_blocked c"
  by (simp add: restrict_mode_def Let_def)

lemma restrict_approval [simp]:
  "md_approval (restrict_mode m c) = (md_approval m \<union> md_approval c) - (md_blocked m \<union> md_blocked c)"
  by (auto simp: restrict_mode_def Let_def)

text \<open>
  A ceiling never widens a mode: under the restricted mode a call passes the gate exactly when
  it passes under the mode and under the ceiling, what either asks approval for is asked or blocked,
  and restricting again by the same ceiling changes nothing.
\<close>

theorem mode_ceiling:
  "(capability_gate (restrict_mode m c) type_name denied tool raw = Proceed \<longleftrightarrow>
      capability_gate m type_name denied tool raw = Proceed \<and> capability_gate c type_name denied tool raw = Proceed)
   \<and> md_approval m \<union> md_approval c \<subseteq> md_approval (restrict_mode m c) \<union> md_blocked (restrict_mode m c)
   \<and> restrict_mode (restrict_mode m c) c = restrict_mode m c"
proof (intro conjI)
  have "restrict_mode n c = n" if "md_blocked n = md_blocked m \<union> md_blocked c"
    "md_approval n = (md_approval m \<union> md_approval c) - (md_blocked m \<union> md_blocked c)" for n
  proof -
    have "md_blocked n \<union> md_blocked c = md_blocked n"
      "(md_approval n \<union> md_approval c) - md_blocked n = md_approval n" using that by auto
    then show ?thesis by (simp add: restrict_mode_def Let_def)
  qed
  then show "restrict_mode (restrict_mode m c) c = restrict_mode m c" by simp
qed (auto simp: gate_proceeds)

text \<open>
  Plan fails closed: its gate lets a tool through exactly when the tool declares a non-empty set
  of known capabilities that are all reading, searching, reading git or control; missing, empty,
  malformed or unknown metadata is blocked.
\<close>

theorem plan_gate:
  assumes "builtin_mode ''Plan'' workflow workflows = Inr mode"
  shows "capability_gate mode type_name denied tool raw = Proceed \<longleftrightarrow>
    (\<exists>items. raw = PSet items \<and> items \<noteq> []
      \<and> (\<forall>v \<in> set items. \<exists>c \<in> {CapRead, CapSearch, CapGitRead, CapControl}. v = PStr (capability_value c)))"
proof -
  have blocked: "md_blocked mode = restricted_capabilities" using assms by (auto simp: builtin_mode_def)
  have reading: "c \<notin> restricted_capabilities \<longleftrightarrow> c \<in> {CapRead, CapSearch, CapGitRead, CapControl}" for c
    by (cases c) (simp_all add: restricted_capabilities_def)
  have gate: "capability_gate mode type_name denied tool r = Proceed \<longleftrightarrow>
      classify_tool_capabilities r \<inter> restricted_capabilities = {}" for r
    by (simp add: gate_proceeds blocked)
  have und: "CapUndeclared \<in> restricted_capabilities" by (simp add: restricted_capabilities_def)
  show ?thesis
  proof (cases "\<exists>items. raw = PSet items \<and> items \<noteq> []")
    case False
    then have "classify_tool_capabilities raw = {CapUndeclared}"
      by (auto simp: classify_tool_capabilities_def split: pyval.splits)
    then show ?thesis using False und by (auto simp: gate)
  next
    case True
    then obtain items where raw: "raw = PSet items" "items \<noteq> []" by blast
    show ?thesis unfolding gate raw(1) classify_disjoint [OF raw(2) und]
      using raw(2) unfolding reading pyval.inject Bex_def by blast
  qed
qed

theorem plan_gate_witness:
  "capability_gate \<lparr>md_name = ''Plan'', md_blocked = restricted_capabilities, md_approval = {},
      md_default_workflow = None, md_workflows = []\<rparr> [] {} ''read_file'' (PSet [PStr ''read'', PStr ''search'']) = Proceed"
proof -
  have "builtin_mode ''Plan'' None [] = Inr \<lparr>md_name = ''Plan'', md_blocked = restricted_capabilities, md_approval = {},
      md_default_workflow = None, md_workflows = []\<rparr>" by (simp add: builtin_mode_def)
  from plan_gate [OF this, of "[]" "{}" "''read_file''" "PSet [PStr ''read'', PStr ''search'']"]
  show ?thesis by simp
qed

section \<open>The registry\<close>

lemma normalize_strip [simp]: "normalize_name (py_strip name) = normalize_name name"
  by (simp add: normalize_name_def)

text \<open>Every mode is filed under its normalised name, which no alias uses.\<close>

definition registry_ok :: "mode_registry \<Rightarrow> bool" where
  "registry_ok rg \<longleftrightarrow>
     (\<forall>k m. dget (rg_modes rg) k = Some m \<longrightarrow> k = normalize_name (md_name m) \<and> py_strip (md_name m) \<noteq> [])
   \<and> set (keys (rg_modes rg)) \<inter> set (keys (rg_aliases rg)) = {}
   \<and> set (keys (rg_modes rg)) = set (rg_order rg) \<union> set (rg_internal rg) \<and> set (rg_order rg) \<inter> set (rg_internal rg) = {}"

lemma normalize_idem [simp]: "normalize_name (normalize_name name) = normalize_name name"
  by (simp add: normalize_name_def casefold_strip)

lemma register_mode_Inr:
  "register_mode selectable m rg = Inr rg' \<longleftrightarrow> py_strip (md_name m) \<noteq> []
   \<and> normalize_name (md_name m) \<notin> set (keys (rg_aliases rg)) \<and> normalize_name (md_name m) \<notin> set (keys (rg_modes rg))
   \<and> rg' = (let key = normalize_name (md_name m); rg1 = rg\<lparr>rg_modes := dset key m (rg_modes rg)\<rparr>
       in if selectable then rg1\<lparr>rg_order := rg_order rg @ [key]\<rparr> else rg1\<lparr>rg_internal := key # rg_internal rg\<rparr>)"
  by (auto simp: register_mode_def validate_name_def Let_def)

lemma register_mode_ok:
  assumes "registry_ok rg" "register_mode selectable m rg = Inr rg'"
  shows "registry_ok rg'"
  using assms by (auto simp: registry_ok_def register_mode_Inr Let_def split: if_splits)

lemma resolve_registered:
  assumes "registry_ok rg" "dget (rg_modes rg) k = Some m"
  shows "resolve_mode (md_name m) rg = Inr m" and "is_internal (md_name m) rg \<longleftrightarrow> k \<in> set (rg_internal rg)"
proof -
  have k: "k = normalize_name (md_name m)" "py_strip (md_name m) \<noteq> []" using assms by (auto simp: registry_ok_def)
  have "k \<notin> set (keys (rg_aliases rg))" using assms map_of_in_keys [OF assms(2)] by (auto simp: registry_ok_def)
  then have "dget_or (rg_aliases rg) k k = k" by (simp add: dget_or_def map_of_NoneI)
  then show r: "resolve_mode (md_name m) rg = Inr m" using k assms(2) by (simp add: resolve_mode_def Let_def)
  show "is_internal (md_name m) rg \<longleftrightarrow> k \<in> set (rg_internal rg)" using k(1) by (simp add: is_internal_def r)
qed

lemma resolve_mode_Inr:
  assumes "resolve_mode name rg = Inr m"
  obtains k where "dget (rg_modes rg) k = Some m"
  using assms by (auto simp: resolve_mode_def Let_def split: if_splits option.splits)

section \<open>The modes a user can reach\<close>

text \<open>The modes of the default registry, whatever the plugin files declare.\<close>

definition default_registry_ok :: "mode_registry \<Rightarrow> bool" where
  "default_registry_ok rg \<longleftrightarrow> registry_ok rg \<and> rg_internal rg = [''replay'']
     \<and> rg_aliases rg = mode_aliases \<and> ''safe'' \<in> set (rg_order rg) \<and> ''replay'' \<in> set (keys (rg_modes rg))
     \<and> (\<forall>k m. dget (rg_modes rg) k = Some m \<longrightarrow>
          restricted_capabilities \<subseteq> md_blocked m \<union> md_approval m \<or> md_name m = ''Yolo'')"

lemma adapt_plugin_ok:
  assumes "default_registry_ok rg"
  shows "default_registry_ok (adapt_plugin defaults available name rg)"
proof (cases "adapt_plugin defaults available name rg = rg")
  case False
  let ?m = "\<lparr>md_name = name, md_blocked = {}, md_approval = restricted_capabilities,
     md_default_workflow = dget defaults name, md_workflows = dget_or available name []\<rparr>"
  from False have r: "register_mode True ?m rg = Inr (adapt_plugin defaults available name rg)"
    by (auto simp: adapt_plugin_def split: if_splits sum.splits)
  with register_mode_ok [OF _ r] assms r show ?thesis
    by (auto simp: default_registry_ok_def register_mode_Inr Let_def)
qed (use assms in simp)

lemma fold_adapt_ok:
  "default_registry_ok rg \<Longrightarrow> default_registry_ok (fold (adapt_plugin defaults available) plugins rg)"
  by (induction plugins arbitrary: rg) (simp_all add: adapt_plugin_ok)

lemma default_registry:
  "\<exists>rg. build_default_registry dm am plugins = Inr rg \<and> default_registry_ok rg"
proof -
  define ws where "ws n = dget (canonical_workflow_map dm) n" for n
  define av where "av n = dget_or (canonical_available_map am) n []" for n
  define md where "md n b a = \<lparr>md_name = n, md_blocked = b, md_approval = a, md_default_workflow = ws n, md_workflows = av n\<rparr>" for n b a
  define rg where "rg = \<lparr>rg_modes = [(''safe'', md ''Safe'' {} restricted_capabilities),
      (''plan'', md ''Plan'' restricted_capabilities {}), (''yolo'', md ''Yolo'' {} {}), (''replay'', replay_mode)],
    rg_order = [''safe'', ''plan'', ''yolo''], rg_internal = [''replay''], rg_aliases = mode_aliases\<rparr>"
  have n: "normalize_name ''Safe'' = ''safe''" "normalize_name ''Plan'' = ''plan''" "normalize_name ''Yolo'' = ''yolo''"
    "normalize_name ''Replay'' = ''replay''" "py_strip ''Safe'' = ''Safe''" "py_strip ''Plan'' = ''Plan''"
    "py_strip ''Yolo'' = ''Yolo''" "py_strip ''Replay'' = ''Replay''" by code_simp+
  have a: "fold (\<lambda>(a, t). dset (normalize_name a) t) mode_aliases [] = mode_aliases" by code_simp
  have "build_default_registry dm am plugins =
      Inr (fold (adapt_plugin (canonical_workflow_map dm) (canonical_available_map am)) plugins rg)"
    by (simp add: build_default_registry_def Let_def builtin_mode_def register_mode_def validate_name_def
      registry_empty_def a n replay_mode_def rg_def md_def ws_def av_def) (simp add: mode_aliases_def)
  moreover have "default_registry_ok rg"
    by (auto simp: default_registry_ok_def registry_ok_def rg_def md_def n replay_mode_def mode_aliases_def
      restricted_capabilities_def all_capabilities_def split: if_splits)
  ultimately show ?thesis using fold_adapt_ok by blast
qed

lemma refresh_dget:
  "dget (rg_modes (refresh_workflows dm am rg)) k = map_option (\<lambda>m. if k \<in> set (rg_internal rg) then m
    else m\<lparr>md_default_workflow := dget (canonical_workflow_map dm) (md_name m),
           md_workflows := dget_or (canonical_available_map am) (md_name m) []\<rparr>) (dget (rg_modes rg) k)"
proof -
  have "dget (map (\<lambda>(k, m). if k \<in> S then (k, m) else (k, g m)) d) i
      = map_option (\<lambda>m. if i \<in> S then m else g m) (dget d i)" for d S i and g :: "runtime_mode \<Rightarrow> runtime_mode"
    by (induction d) auto
  then show ?thesis by (simp add: refresh_workflows_def Let_def)
qed

lemma refresh_simps [simp]:
  "keys (rg_modes (refresh_workflows dm am rg)) = keys (rg_modes rg)"
  "rg_order (refresh_workflows dm am rg) = rg_order rg"
  "rg_internal (refresh_workflows dm am rg) = rg_internal rg"
  "rg_aliases (refresh_workflows dm am rg) = rg_aliases rg"
proof -
  have "keys (map (\<lambda>(k, m). if k \<in> S then (k, m) else (k, g m)) d) = keys d" for d S
    and g :: "runtime_mode \<Rightarrow> runtime_mode"
    by (induction d) auto
  then show "keys (rg_modes (refresh_workflows dm am rg)) = keys (rg_modes rg)"
    by (simp add: refresh_workflows_def Let_def)
qed (simp_all add: refresh_workflows_def Let_def)

lemma refresh_ok:
  assumes "default_registry_ok rg"
  shows "default_registry_ok (refresh_workflows dm am rg)"
proof -
  have mode: "\<exists>n. dget (rg_modes rg) k = Some n \<and> md_name m = md_name n \<and> md_blocked m = md_blocked n \<and> md_approval m = md_approval n"
    if "dget (rg_modes (refresh_workflows dm am rg)) k = Some m" for k m
    using that unfolding refresh_dget by auto
  then have "registry_ok (refresh_workflows dm am rg)"
    using assms unfolding default_registry_ok_def registry_ok_def refresh_simps by metis
  moreover have "\<forall>k m. dget (rg_modes (refresh_workflows dm am rg)) k = Some m \<longrightarrow>
      restricted_capabilities \<subseteq> md_blocked m \<union> md_approval m \<or> md_name m = ''Yolo''"
    using assms mode unfolding default_registry_ok_def by metis
  ultimately show ?thesis using assms unfolding default_registry_ok_def refresh_simps by blast
qed

lemma ordered_mode:
  assumes "registry_ok rg" "k \<in> set (rg_order rg)"
  obtains m where "dget (rg_modes rg) k = Some m"
proof -
  have "k \<in> set (keys (rg_modes rg))" using assms by (simp add: registry_ok_def)
  from in_keys_map_of [OF this] show thesis using that by blast
qed

text \<open>What a user does to the mode manager: cycling, choosing by name, and the late workflow bindings.\<close>

inductive user_step :: "mode_manager \<Rightarrow> mode_manager \<Rightarrow> bool" where
  cycle: "user_step mm (cycle_mode mm)"
| choose: "user_step mm (snd (set_by_name name mm))"
| refresh: "user_step mm (mm\<lparr>mm_registry := refresh_workflows dm am (mm_registry mm)\<rparr>)"

definition user_mode :: "mode_manager \<Rightarrow> bool" where
  "user_mode mm \<longleftrightarrow> default_registry_ok (mm_registry mm)
     \<and> (\<exists>k \<in> set (rg_order (mm_registry mm)). \<exists>m. dget (rg_modes (mm_registry mm)) k = Some m \<and> mm_active_name mm = md_name m)"

lemma resolve_selectable_key:
  assumes "registry_ok rg" "resolve_mode name rg = Inr m" "\<not> is_internal (md_name m) rg"
  obtains k where "k \<in> set (rg_order rg)" "dget (rg_modes rg) k = Some m"
proof -
  from resolve_mode_Inr [OF assms(2)] obtain k where k: "dget (rg_modes rg) k = Some m" by blast
  with resolve_registered(2) [OF assms(1) k] assms(3) map_of_in_keys [OF k] assms(1)
  show thesis using that by (auto simp: registry_ok_def)
qed

lemma active_user_mode:
  assumes "user_mode mm"
  obtains k m where "k \<in> set (rg_order (mm_registry mm))" "dget (rg_modes (mm_registry mm)) k = Some m"
    "active_mode mm = m" "md_name m = mm_active_name mm"
proof -
  obtain k m where k: "k \<in> set (rg_order (mm_registry mm))" "dget (rg_modes (mm_registry mm)) k = Some m"
    "mm_active_name mm = md_name m" using assms by (auto simp: user_mode_def)
  have "registry_ok (mm_registry mm)" using assms by (simp add: user_mode_def default_registry_ok_def)
  from resolve_registered(1) [OF this k(2)] have "active_mode mm = m" by (simp add: active_mode_def get_mode_def k)
  then show thesis using that k by simp
qed

lemma cycle_user_mode:
  assumes "user_mode mm" shows "user_mode (cycle_mode mm)"
proof -
  let ?rg = "mm_registry mm" and ?names = "map md_name (all_modes False (mm_registry mm))"
  have ok: "registry_ok ?rg" "rg_order ?rg \<noteq> []"
    using assms by (auto simp: user_mode_def default_registry_ok_def)
  have "\<exists>k \<in> set (rg_order ?rg). \<exists>m. dget (rg_modes ?rg) k = Some m \<and> n = md_name m" if n: "n \<in> set ?names" for n
  proof -
    from n obtain k where k: "k \<in> set (rg_order ?rg)" "n = md_name (the (dget (rg_modes ?rg) k))"
      by (auto simp: all_modes_def)
    from ordered_mode [OF ok(1) k(1)] obtain m where "dget (rg_modes ?rg) k = Some m" .
    with k show ?thesis by auto
  qed
  moreover have "?names \<noteq> []" using ok by (simp add: all_modes_def)
  then have "?names ! (i mod length ?names) \<in> set ?names" for i
    by (metis length_greater_0_conv mod_less_divisor nth_mem)
  ultimately have "\<exists>k \<in> set (rg_order ?rg). \<exists>m. dget (rg_modes ?rg) k = Some m
      \<and> ?names ! (i mod length ?names) = md_name m" for i by blast
  moreover have "cycle_mode mm = mm\<lparr>mm_active_name := ?names !
      ((case list_index (md_name (active_mode mm)) ?names of None \<Rightarrow> 0 | Some k \<Rightarrow> k + 1) mod length ?names)\<rparr>"
    using \<open>?names \<noteq> []\<close> unfolding cycle_mode_def Let_def by simp
  moreover have "default_registry_ok ?rg" using assms by (simp add: user_mode_def)
  ultimately show ?thesis unfolding user_mode_def by simp
qed

lemma user_step_mode:
  assumes "user_step mm mm'" "user_mode mm"
  shows "user_mode mm'"
  using assms
proof cases
  case cycle
  then show ?thesis using assms(2) cycle_user_mode by simp
next
  case (choose name)
  show ?thesis
  proof (cases "fst (set_by_name name mm)")
    case None
    then show ?thesis using choose assms(2) by (auto simp: set_by_name_def split: sum.splits if_splits)
  next
    case (Some m)
    then have r: "resolve_mode name (mm_registry mm) = Inr m" "\<not> is_internal (md_name m) (mm_registry mm)"
      and mm': "mm' = mm\<lparr>mm_active_name := md_name m\<rparr>"
      using choose by (auto simp: set_by_name_def split: sum.splits if_splits)
    have "registry_ok (mm_registry mm)" using assms(2) by (simp add: user_mode_def default_registry_ok_def)
    from resolve_selectable_key [OF this r] obtain k where
      "k \<in> set (rg_order (mm_registry mm))" "dget (rg_modes (mm_registry mm)) k = Some m" .
    then show ?thesis using assms(2) mm' by (simp add: user_mode_def) blast
  qed
next
  case (refresh dm am)
  then obtain k m where k: "k \<in> set (rg_order (mm_registry mm))" "dget (rg_modes (mm_registry mm)) k = Some m"
    "mm_active_name mm = md_name m" using assms(2) by (auto simp: user_mode_def)
  from k(2) have "\<exists>m'. dget (rg_modes (refresh_workflows dm am (mm_registry mm))) k = Some m' \<and> md_name m' = md_name m"
    by (simp add: refresh_dget)
  with refresh k refresh_ok assms(2) show ?thesis by (simp add: user_mode_def) metis
qed

lemma manager_init_mode:
  assumes "default_registry_ok rg" "manager_init rg requested = Inr mm"
  shows "user_mode mm"
proof -
  have ok: "registry_ok rg" and safe: "''safe'' \<in> set (rg_order rg)"
    using assms(1) by (auto simp: default_registry_ok_def)
  obtain n where n: "initial_name rg requested = Inr n" "mm = \<lparr>mm_registry = rg, mm_active_name = n\<rparr>"
    using assms(2) unfolding manager_init_def by (cases "initial_name rg requested") auto
  have "\<exists>k \<in> set (rg_order rg). \<exists>m. dget (rg_modes rg) k = Some m \<and> n = md_name m"
  proof (cases "resolve_mode requested rg")
    case (Inl e)
    obtain j ks where "rg_order rg = j # ks" using safe by (cases "rg_order rg") auto
    moreover from this ordered_mode [OF ok, of j] obtain m where "dget (rg_modes rg) j = Some m" by auto
    ultimately show ?thesis using n Inl by (auto simp: initial_name_def all_modes_def split: if_splits)
  next
    case (Inr m)
    then have "\<not> is_internal (md_name m) rg" "n = md_name m" using n by (auto simp: initial_name_def split: if_splits)
    with resolve_selectable_key [OF ok Inr] obtain k where "k \<in> set (rg_order rg)" "dget (rg_modes rg) k = Some m" "n = md_name m" by metis
    then show ?thesis by auto
  qed
  then show ?thesis using assms(1) n by (simp add: user_mode_def)
qed

text \<open>
  Whatever the configuration and the plugin files declare, the default registry is built, and
  no sequence of cycles, choices by name and workflow refreshes of a user leaves its selectable
  modes: the active mode has the active name, is never the internal Replay mode, and unless it is
  Yolo it blocks every effectful or undeclared capability or asks approval for it.
\<close>

theorem mode_user_choice:
  assumes "build_default_registry dm am plugins = Inr rg" "manager_init rg requested = Inr mm" "user_step\<^sup>*\<^sup>* mm mm'"
  shows "md_name (active_mode mm') = mm_active_name mm' \<and> active_mode mm' \<in> set (all_modes False (mm_registry mm'))
    \<and> \<not> is_internal (mm_active_name mm') (mm_registry mm')
    \<and> (restricted_capabilities \<subseteq> md_blocked (active_mode mm') \<union> md_approval (active_mode mm') \<or> mm_active_name mm' = ''Yolo'')"
proof -
  have "default_registry_ok rg" using default_registry [of dm am plugins] assms(1) by auto
  then have "user_mode mm" using manager_init_mode assms(2) by blast
  with assms(3) have um: "user_mode mm'" by (induction rule: rtranclp_induct) (use user_step_mode in blast)+
  from active_user_mode [OF um] obtain k m where k: "k \<in> set (rg_order (mm_registry mm'))"
    "dget (rg_modes (mm_registry mm')) k = Some m" "active_mode mm' = m" "md_name m = mm_active_name mm'" .
  have rg: "default_registry_ok (mm_registry mm')" using um by (simp add: user_mode_def)
  then have ok: "registry_ok (mm_registry mm')" by (simp add: default_registry_ok_def)
  have "\<not> is_internal (md_name m) (mm_registry mm')"
    using resolve_registered(2) [OF ok k(2)] ok k(1) by (auto simp: registry_ok_def)
  moreover have "active_mode mm' \<in> set (all_modes False (mm_registry mm'))"
    using k by (force simp: all_modes_def)
  moreover have "restricted_capabilities \<subseteq> md_blocked m \<union> md_approval m \<or> md_name m = ''Yolo''"
    using rg k(2) by (auto simp: default_registry_ok_def)
  ultimately show ?thesis using k by auto
qed

text \<open>From Safe, one step of the cycle reaches Plan, which blocks what Safe asks about.\<close>

definition demo_registry :: mode_registry where
  "demo_registry = \<lparr>rg_modes = [(''safe'', \<lparr>md_name = ''Safe'', md_blocked = {}, md_approval = restricted_capabilities,
        md_default_workflow = None, md_workflows = []\<rparr>),
      (''plan'', \<lparr>md_name = ''Plan'', md_blocked = restricted_capabilities, md_approval = {},
        md_default_workflow = None, md_workflows = []\<rparr>),
      (''yolo'', \<lparr>md_name = ''Yolo'', md_blocked = {}, md_approval = {}, md_default_workflow = None, md_workflows = []\<rparr>),
      (''replay'', replay_mode)],
    rg_order = [''safe'', ''plan'', ''yolo''], rg_internal = [''replay''], rg_aliases = mode_aliases\<rparr>"

lemma demo_registry_built: "build_default_registry [] [] [] = Inr demo_registry"
proof -
  have n: "normalize_name ''Safe'' = ''safe''" "normalize_name ''Plan'' = ''plan''" "normalize_name ''Yolo'' = ''yolo''"
    "normalize_name ''Replay'' = ''replay''" "py_strip ''Safe'' = ''Safe''" "py_strip ''Plan'' = ''Plan''"
    "py_strip ''Yolo'' = ''Yolo''" "py_strip ''Replay'' = ''Replay''" by code_simp+
  have a: "fold (\<lambda>(a, t). dset (normalize_name a) t) mode_aliases [] = mode_aliases" by code_simp
  have m: "canonical_workflow_map [] = []" "canonical_available_map [] = []"
    by (simp_all add: canonical_workflow_map_def canonical_available_map_def)
  show ?thesis
    by (simp add: build_default_registry_def Let_def builtin_mode_def register_mode_def validate_name_def
      registry_empty_def a n m replay_mode_def demo_registry_def dget_or_def) (simp add: mode_aliases_def)
qed

theorem mode_user_choice_witness:
  "let mm = \<lparr>mm_registry = demo_registry, mm_active_name = ''Safe''\<rparr>; mm' = cycle_mode mm
   in mm_active_name mm' = ''Plan'' \<and> md_blocked (active_mode mm') = restricted_capabilities
     \<and> \<not> is_internal ''Plan'' demo_registry
     \<and> restricted_capabilities \<subseteq> md_blocked (active_mode mm') \<union> md_approval (active_mode mm')"
proof -
  let ?mm = "\<lparr>mm_registry = demo_registry, mm_active_name = ''Safe''\<rparr>"
  have n: "normalize_name ''Safe'' = ''safe''" "normalize_name ''Plan'' = ''plan''" "normalize_name ''safe'' = ''safe''"
    "normalize_name ''plan'' = ''plan''" "py_strip ''Safe'' = ''Safe''" "py_strip ''Plan'' = ''Plan''" by code_simp+
  have r: "resolve_mode ''Safe'' demo_registry = Inr (snd (hd (rg_modes demo_registry)))"
    "resolve_mode ''Plan'' demo_registry = Inr (snd (rg_modes demo_registry ! 1))"
    by (simp_all add: resolve_mode_def n Let_def demo_registry_def mode_aliases_def dget_or_def)
  have d: "md_name (snd (hd (rg_modes demo_registry))) = ''Safe''" "rg_internal demo_registry = [''replay'']"
    by (simp_all add: demo_registry_def)
  have i: "manager_init demo_registry ''Safe'' = Inr ?mm"
    by (simp add: manager_init_def initial_name_def r is_internal_def n d)
  have a: "active_mode ?mm = snd (hd (rg_modes demo_registry))" by (simp add: active_mode_def get_mode_def r)
  have e: "map md_name (all_modes False demo_registry) = [''Safe'', ''Plan'', ''Yolo'']"
    by (simp add: all_modes_def demo_registry_def)
  have c: "cycle_mode ?mm = ?mm\<lparr>mm_active_name := ''Plan''\<rparr>"
    unfolding cycle_mode_def Let_def mode_manager.simps a e d by simp
  have a': "active_mode (cycle_mode ?mm) = snd (rg_modes demo_registry ! 1)"
    unfolding c by (simp add: active_mode_def get_mode_def r)
  have "user_step\<^sup>*\<^sup>* ?mm (cycle_mode ?mm)" using user_step.cycle by (rule r_into_rtranclp)
  from mode_user_choice [OF demo_registry_built i this]
  moreover have "md_blocked (snd (rg_modes demo_registry ! 1)) = restricted_capabilities" by (simp add: demo_registry_def)
  moreover have "mm_active_name (cycle_mode ?mm) = ''Plan''" "mm_registry (cycle_mode ?mm) = demo_registry"
    unfolding c by simp_all
  ultimately show ?thesis unfolding Let_def a' by simp
qed

end
