(* ===== verification/Usage_Ledger.thy ===== *)
theory Usage_Ledger
  imports Prelude
begin

text \<open>
  The usage ledger of a session (\<open>src/agenthicc/runners/usage_ledger.py\<close>) with the two journal
  operations it relies on: provider usage values, the record of one provider call, the ledger of
  completed and in-flight calls with its projections, reconciliation against the totals of a run,
  and the tracker that turns the signals of one run into ledger calls.

  A provider object is read by attribute, so it is a dictionary of attributes (a missing one is
  \<open>None\<close>, as the default of \<open>getattr\<close> makes it). The clock and the random part of an identifier
  are arguments, the clock as a function of the identifier it is read for. Whether the journal
  refuses a record (\<open>OSError\<close>) is an argument as well. Observers are names, and what they receive is
  recorded in the state.
\<close>

section \<open>Usage values\<close>

record usage_values =
  uv_input :: "int option"
  uv_output :: "int option"
  uv_cache_read :: "int option"
  uv_cache_write :: "int option"

definition no_values :: usage_values where
  "no_values = \<lparr>uv_input = None, uv_output = None, uv_cache_read = None, uv_cache_write = None\<rparr>"

fun optional_int :: "pyval \<Rightarrow> int option" where
  "optional_int (PInt i) = (if 0 \<le> i then Some i else None)"
| "optional_int (PFloat (Fin r)) = (if r = of_int \<lfloor>r\<rfloor> \<and> 0 \<le> r then Some \<lfloor>r\<rfloor> else None)"
| "optional_int _ = None"

definition nonnegative_int :: "pyval \<Rightarrow> int" where
  "nonnegative_int v = (case optional_int v of None \<Rightarrow> 0 | Some i \<Rightarrow> i)"

text \<open>\<open>_finite_float\<close>: the exact value of a finite number.\<close>

definition finite_float :: "pyval \<Rightarrow> rat option" where
  "finite_float v = (case num_of v of Some (Fin r) \<Rightarrow> Some r | _ \<Rightarrow> None)"

definition text_or :: "pyval \<Rightarrow> string \<Rightarrow> string" where
  "text_or v dflt = (case str_of v of None \<Rightarrow> dflt | Some s \<Rightarrow> s)"

definition from_provider :: "payload option \<Rightarrow> usage_values" where
  "from_provider value =
     (case value of
        None \<Rightarrow> no_values
      | Some d \<Rightarrow> \<lparr>uv_input = optional_int (pget d ''input_tokens''),
                  uv_output = optional_int (pget d ''output_tokens''),
                  uv_cache_read = optional_int (pget d ''cache_read_tokens''),
                  uv_cache_write = optional_int (pget d ''cache_write_tokens'')\<rparr>)"

text \<open>A \<open>UsageValues\<close> object passed where a provider object is read.\<close>

definition values_as_object :: "usage_values \<Rightarrow> payload" where
  "values_as_object v = [(''input_tokens'', of_opt_int (uv_input v)), (''output_tokens'', of_opt_int (uv_output v)),
     (''cache_read_tokens'', of_opt_int (uv_cache_read v)), (''cache_write_tokens'', of_opt_int (uv_cache_write v))]"

definition token_values :: "usage_values \<Rightarrow> int option list" where
  "token_values v = [uv_input v, uv_output v, uv_cache_read v, uv_cache_write v]"

definition values_known :: "usage_values \<Rightarrow> bool" where
  "values_known v \<longleftrightarrow> list_ex (\<lambda>x. x \<noteq> None) (token_values v)"

definition any_tokens :: "usage_values \<Rightarrow> bool" where
  "any_tokens v \<longleftrightarrow> list_ex (\<lambda>x. case x of None \<Rightarrow> False | Some i \<Rightarrow> 0 < i) (token_values v)"

fun sum_optional :: "int option \<Rightarrow> int option \<Rightarrow> int option" where
  "sum_optional (Some a) (Some b) = Some (a + b)"
| "sum_optional (Some a) None = Some a"
| "sum_optional None b = b"

fun residual :: "int option \<Rightarrow> int option \<Rightarrow> int option" where
  "residual None current = None"
| "residual (Some t) None = Some t"
| "residual (Some t) (Some c) = Some (max 0 (t - c))"

definition values_add :: "usage_values \<Rightarrow> usage_values \<Rightarrow> usage_values" where
  "values_add a b = \<lparr>uv_input = sum_optional (uv_input a) (uv_input b),
     uv_output = sum_optional (uv_output a) (uv_output b),
     uv_cache_read = sum_optional (uv_cache_read a) (uv_cache_read b),
     uv_cache_write = sum_optional (uv_cache_write a) (uv_cache_write b)\<rparr>"

definition subtract_known :: "usage_values \<Rightarrow> usage_values \<Rightarrow> usage_values" where
  "subtract_known a b = \<lparr>uv_input = residual (uv_input a) (uv_input b),
     uv_output = residual (uv_output a) (uv_output b),
     uv_cache_read = residual (uv_cache_read a) (uv_cache_read b),
     uv_cache_write = residual (uv_cache_write a) (uv_cache_write b)\<rparr>"

definition or_else :: "'a option \<Rightarrow> 'a option \<Rightarrow> 'a option" where
  "or_else a b = (if a \<noteq> None then a else b)"

definition merge_values :: "usage_values \<Rightarrow> usage_values \<Rightarrow> usage_values" where
  "merge_values observed reported = \<lparr>uv_input = or_else (uv_input reported) (uv_input observed),
     uv_output = or_else (uv_output reported) (uv_output observed),
     uv_cache_read = or_else (uv_cache_read reported) (uv_cache_read observed),
     uv_cache_write = or_else (uv_cache_write reported) (uv_cache_write observed)\<rparr>"

text \<open>\<open>_provider_cost\<close>; \<open>price\<close> is the method \<open>cost_usd\<close> of the provider object, \<open>None\<close> when it is
  missing or raises.\<close>

definition provider_cost :: "(payload \<Rightarrow> string \<Rightarrow> pyfloat option) \<Rightarrow> payload \<Rightarrow> string \<Rightarrow> rat option" where
  "provider_cost price usage model =
     (case price usage model of Some (Fin r) \<Rightarrow> if 0 \<le> r then Some r else None | _ \<Rightarrow> None)"

definition reported_call_cost :: "pyval \<Rightarrow> rat option" where
  "reported_call_cost v = (case finite_float v of Some r \<Rightarrow> if 0 < r then Some r else None | None \<Rightarrow> None)"

section \<open>The record of one call\<close>

record usage_record =
  ur_record_id :: string
  ur_session_id :: string
  ur_conversation_id :: string
  ur_run_id :: string
  ur_agent_id :: string
  ur_agent_name :: string
  ur_call_index :: int
  ur_provider :: string
  ur_model :: string
  ur_category :: string
  ur_values :: usage_values
  ur_cost_usd :: "rat option"
  ur_cost_status :: string
  ur_source :: string
  ur_lifecycle :: string
  ur_created_at :: rat
  ur_completed_at :: "rat option"

definition is_known :: "usage_record \<Rightarrow> bool" where
  "is_known r \<longleftrightarrow> values_known (ur_values r)"

definition is_provisional :: "usage_record \<Rightarrow> bool" where
  "is_provisional r \<longleftrightarrow> ur_lifecycle r = ''provisional''"

definition of_opt_rat :: "rat option \<Rightarrow> pyval" where
  "of_opt_rat x = of_opt_float (map_option Fin x)"

definition record_to_dict :: "usage_record \<Rightarrow> payload" where
  "record_to_dict r =
     [(''record_id'', PStr (ur_record_id r)), (''session_id'', PStr (ur_session_id r)),
      (''conversation_id'', PStr (ur_conversation_id r)), (''run_id'', PStr (ur_run_id r)),
      (''agent_id'', PStr (ur_agent_id r)), (''agent_name'', PStr (ur_agent_name r)),
      (''call_index'', PInt (ur_call_index r)), (''provider'', PStr (ur_provider r)),
      (''model'', PStr (ur_model r)), (''category'', PStr (ur_category r)),
      (''input_tokens'', of_opt_int (uv_input (ur_values r))),
      (''output_tokens'', of_opt_int (uv_output (ur_values r))),
      (''cache_read_tokens'', of_opt_int (uv_cache_read (ur_values r))),
      (''cache_write_tokens'', of_opt_int (uv_cache_write (ur_values r))),
      (''cost_usd'', of_opt_rat (ur_cost_usd r)), (''cost_status'', PStr (ur_cost_status r)),
      (''source'', PStr (ur_source r)), (''lifecycle'', PStr (ur_lifecycle r)),
      (''created_at'', PFloat (Fin (ur_created_at r))), (''completed_at'', of_opt_rat (ur_completed_at r))]"

definition record_from_mapping :: "payload \<Rightarrow> usage_record option" where
  "record_from_mapping d =
     (case (str_of (pget d ''record_id''), str_of (pget d ''session_id''), finite_float (pget d ''created_at'')) of
        (Some rid, Some sid, Some created) \<Rightarrow>
          if rid = [] \<or> sid = [] then None
          else Some \<lparr>ur_record_id = rid, ur_session_id = sid,
            ur_conversation_id = text_or (pget d ''conversation_id'') [],
            ur_run_id = text_or (pget d ''run_id'') [],
            ur_agent_id = text_or (pget d ''agent_id'') [],
            ur_agent_name = text_or (pget d ''agent_name'') [],
            ur_call_index = nonnegative_int (pget d ''call_index''),
            ur_provider = text_or (pget d ''provider'') ''unknown'',
            ur_model = text_or (pget d ''model'') ''unknown'',
            ur_category = text_or (pget d ''category'') ''agent'',
            ur_values = from_provider (Some d),
            ur_cost_usd = finite_float (pget d ''cost_usd''),
            ur_cost_status = text_or (pget d ''cost_status'') ''unavailable'',
            ur_source = text_or (pget d ''source'') ''unknown'',
            ur_lifecycle = text_or (pget d ''lifecycle'') ''completed'',
            ur_created_at = created,
            ur_completed_at = finite_float (pget d ''completed_at'')\<rparr>
      | _ \<Rightarrow> None)"

section \<open>Aggregates\<close>

record usage_snapshot =
  us_session_id :: string
  us_input_tokens :: int
  us_output_tokens :: int
  us_cache_read_tokens :: int
  us_cache_write_tokens :: int
  us_cost_usd :: rat
  us_usage_status :: string
  us_cost_status :: string
  us_calls :: int
  us_known_calls :: int
  us_unavailable_calls :: int
  us_provisional_calls :: int
  us_durability_status :: string

definition aggregate_values :: "usage_record list \<Rightarrow> usage_values" where
  "aggregate_values records = foldl (\<lambda>v r. values_add v (ur_values r)) no_values records"

definition or_zero :: "int option \<Rightarrow> int" where
  "or_zero x = (case x of None \<Rightarrow> 0 | Some i \<Rightarrow> i)"

definition cost_or_zero :: "rat option \<Rightarrow> rat" where
  "cost_or_zero x = (case x of None \<Rightarrow> 0 | Some c \<Rightarrow> c)"

definition total_cost :: "usage_record list \<Rightarrow> rat" where
  "total_cost records = sum_list (map (\<lambda>r. cost_or_zero (ur_cost_usd r)) records)"

definition aggregate_cost_status :: "usage_record list \<Rightarrow> string" where
  "aggregate_cost_status records =
     (let costs = filter (\<lambda>r. ur_cost_usd r \<noteq> None) records in
      if costs = [] then ''unavailable''
      else if list_ex (\<lambda>r. ur_cost_status r = ''unavailable'') records then ''unavailable''
      else if list_ex (\<lambda>r. ur_cost_status r = ''estimated'') costs then ''estimated''
      else ''authoritative'')"

definition aggregate_snapshot :: "string \<Rightarrow> bool \<Rightarrow> usage_record list \<Rightarrow> usage_snapshot" where
  "aggregate_snapshot sid failed records =
     (let values = aggregate_values records;
          costs = filter (\<lambda>r. ur_cost_usd r \<noteq> None) records;
          unknown = filter (\<lambda>r. \<not> is_known r) records;
          provisional = filter is_provisional records
      in \<lparr>us_session_id = sid, us_input_tokens = or_zero (uv_input values),
          us_output_tokens = or_zero (uv_output values),
          us_cache_read_tokens = or_zero (uv_cache_read values),
          us_cache_write_tokens = or_zero (uv_cache_write values),
          us_cost_usd = total_cost costs,
          us_usage_status = (if records = [] then ''unavailable''
            else if unknown \<noteq> [] \<or> provisional \<noteq> [] then ''partial'' else ''complete''),
          us_cost_status = aggregate_cost_status records,
          us_calls = int (length records),
          us_known_calls = int (length records) - int (length unknown),
          us_unavailable_calls = int (length unknown),
          us_provisional_calls = int (length provisional),
          us_durability_status = (if failed then ''degraded'' else ''durable'')\<rparr>)"

definition summarize_usage_records :: "pyval list \<Rightarrow> payload" where
  "summarize_usage_records values =
     (let decoded = List.map_filter (\<lambda>v. Option.bind (dict_of v) record_from_mapping) values;
          totals = aggregate_values decoded;
          known = filter is_known decoded;
          costs = filter (\<lambda>r. ur_cost_usd r \<noteq> None) decoded
      in [(''input'', PInt (or_zero (uv_input totals))), (''output'', PInt (or_zero (uv_output totals))),
          (''cache_read'', PInt (or_zero (uv_cache_read totals))),
          (''cache_write'', PInt (or_zero (uv_cache_write totals))),
          (''cost_usd'', PFloat (Fin (total_cost costs))),
          (''status'', PStr (if decoded = [] then ''unavailable''
             else if length known \<noteq> length decoded then ''partial'' else ''complete'')),
          (''cost_status'', PStr (aggregate_cost_status decoded)),
          (''calls'', PInt (int (length decoded))), (''known_calls'', PInt (int (length known))),
          (''unavailable_calls'', PInt (int (length decoded) - int (length known)))])"

section \<open>The ledger\<close>

record usage_call =
  uc_record_id :: string
  uc_run_id :: string
  uc_call_index :: int

record usage_ledger =
  ul_session_id :: string
  ul_conversation_id :: string
  ul_records :: "usage_record pydict"
  ul_active :: "usage_record pydict"
  ul_next_index :: "int pydict"
  ul_journal :: "payload list option"
  ul_subscribers :: "string list"
  ul_completed_subscribers :: "string list"
  ul_projection :: "string option"
  ul_failed :: bool
  ul_seen :: "(string \<times> usage_snapshot) list"
  ul_seen_completed :: "(string \<times> usage_snapshot) list"

definition ledger_snapshot :: "usage_ledger \<Rightarrow> usage_snapshot" where
  "ledger_snapshot L =
     aggregate_snapshot (ul_session_id L) (ul_failed L) (map snd (ul_records L) @ map snd (ul_active L))"

definition completed_snapshot :: "usage_ledger \<Rightarrow> usage_snapshot" where
  "completed_snapshot L = aggregate_snapshot (ul_session_id L) (ul_failed L) (map snd (ul_records L))"

definition ledger_records :: "bool \<Rightarrow> usage_ledger \<Rightarrow> usage_record list" where
  "ledger_records include_provisional L =
     sort_key (\<lambda>r. (ur_created_at r, ur_record_id r))
       (map snd (ul_records L) @ (if include_provisional then map snd (ul_active L) else []))"

text \<open>Every observer receives the current totals; the projection of the session comes first.\<close>

definition notify :: "usage_ledger \<Rightarrow> usage_ledger" where
  "notify L = L\<lparr>ul_seen := ul_seen L
     @ map (\<lambda>n. (n, ledger_snapshot L)) ((case ul_projection L of None \<Rightarrow> [] | Some n \<Rightarrow> [n]) @ ul_subscribers L)\<rparr>"

definition notify_completed :: "usage_ledger \<Rightarrow> usage_ledger" where
  "notify_completed L = L\<lparr>ul_seen_completed := ul_seen_completed L
     @ map (\<lambda>n. (n, completed_snapshot L)) (ul_completed_subscribers L)\<rparr>"

definition ledger_subscribe :: "string \<Rightarrow> usage_ledger \<Rightarrow> usage_ledger" where
  "ledger_subscribe n L = L\<lparr>ul_subscribers := ul_subscribers L @ [n]\<rparr>"

definition ledger_unsubscribe :: "string \<Rightarrow> usage_ledger \<Rightarrow> usage_ledger" where
  "ledger_unsubscribe n L = L\<lparr>ul_subscribers := remove1 n (ul_subscribers L)\<rparr>"

definition subscribe_completed :: "string \<Rightarrow> usage_ledger \<Rightarrow> usage_ledger" where
  "subscribe_completed n L = L\<lparr>ul_completed_subscribers := ul_completed_subscribers L @ [n]\<rparr>"

definition unsubscribe_completed :: "string \<Rightarrow> usage_ledger \<Rightarrow> usage_ledger" where
  "unsubscribe_completed n L = L\<lparr>ul_completed_subscribers := remove1 n (ul_completed_subscribers L)\<rparr>"

text \<open>The conversation store is shown the totals at once and on every change.\<close>

definition bind_conversation_store :: "string \<Rightarrow> usage_ledger \<Rightarrow> usage_ledger" where
  "bind_conversation_store n L =
     ledger_subscribe n (L\<lparr>ul_projection := Some n, ul_seen := ul_seen L @ [(n, ledger_snapshot L)]\<rparr>)"

text \<open>\<open>_persist\<close> with \<open>append_usage_record\<close> of the journal.\<close>

definition persist :: "bool \<Rightarrow> usage_record \<Rightarrow> usage_ledger \<Rightarrow> usage_ledger" where
  "persist fails r L =
     (case ul_journal L of
        None \<Rightarrow> L
      | Some js \<Rightarrow> if fails then L\<lparr>ul_failed := True\<rparr> else L\<lparr>ul_journal := Some (js @ [record_to_dict r])\<rparr>)"

definition cost_for :: "usage_values \<Rightarrow> pyfloat option \<Rightarrow> string option \<Rightarrow> rat option \<times> string" where
  "cost_for values cost status =
     (case cost of
        Some (Fin c) \<Rightarrow>
          if 0 \<le> c then (Some c, case status of None \<Rightarrow> ''estimated'' | Some s \<Rightarrow> if s = [] then ''estimated'' else s)
          else (None, ''unavailable'')
      | _ \<Rightarrow> (None, ''unavailable''))"

definition begin_call ::
  "(string \<Rightarrow> rat) \<Rightarrow> string \<Rightarrow> string \<Rightarrow> string \<Rightarrow> string \<Rightarrow> string \<Rightarrow> string \<Rightarrow> string \<Rightarrow> usage_ledger
   \<Rightarrow> usage_call \<times> usage_ledger" where
  "begin_call now uuid run_id provider model category agent_id agent_name L =
     (let index = dget_or (ul_next_index L) run_id 0 + 1;
          rid = run_id @ '':'' @ int_text index @ '':'' @ uuid;
          r = \<lparr>ur_record_id = rid, ur_session_id = ul_session_id L, ur_conversation_id = ul_conversation_id L,
            ur_run_id = run_id, ur_agent_id = agent_id, ur_agent_name = agent_name, ur_call_index = index,
            ur_provider = provider, ur_model = model, ur_category = category, ur_values = no_values,
            ur_cost_usd = None, ur_cost_status = ''unavailable'', ur_source = ''unknown'',
            ur_lifecycle = ''provisional'', ur_created_at = now rid, ur_completed_at = None\<rparr>
      in (\<lparr>uc_record_id = rid, uc_run_id = run_id, uc_call_index = index\<rparr>,
          notify (L\<lparr>ul_next_index := dset run_id index (ul_next_index L), ul_active := dset rid r (ul_active L)\<rparr>)))"

definition observe :: "usage_call \<Rightarrow> payload option \<Rightarrow> string \<Rightarrow> pyfloat option \<Rightarrow> string option
   \<Rightarrow> usage_ledger \<Rightarrow> usage_ledger" where
  "observe call usage source cost status L =
     (case dget (ul_active L) (uc_record_id call) of
        None \<Rightarrow> L
      | Some current \<Rightarrow>
          let values = from_provider usage; (c, s) = cost_for values cost status
          in notify (L\<lparr>ul_active := dset (uc_record_id call)
               (current\<lparr>ur_values := values, ur_cost_usd := c, ur_cost_status := s, ur_source := source\<rparr>)
               (ul_active L)\<rparr>))"

definition complete_record :: "rat \<Rightarrow> payload option \<Rightarrow> string \<Rightarrow> pyfloat option \<Rightarrow> string option \<Rightarrow> string
   \<Rightarrow> usage_record \<Rightarrow> usage_record" where
  "complete_record now usage source cost status lifecycle current =
     (let v0 = from_provider usage;
          values = (if \<not> values_known v0 \<and> values_known (ur_values current) then ur_values current else v0);
          (c, s) = cost_for values (if cost \<noteq> None then cost else map_option Fin (ur_cost_usd current))
                     (if status \<noteq> None then status else if cost \<noteq> None then None else Some (ur_cost_status current))
      in current\<lparr>ur_values := values, ur_cost_usd := c, ur_cost_status := s, ur_source := source,
           ur_lifecycle := lifecycle, ur_completed_at := Some now\<rparr>)"

definition complete_call ::
  "(string \<Rightarrow> rat) \<Rightarrow> (string \<Rightarrow> bool) \<Rightarrow> usage_call \<Rightarrow> payload option \<Rightarrow> string \<Rightarrow> pyfloat option
   \<Rightarrow> string option \<Rightarrow> string \<Rightarrow> usage_ledger \<Rightarrow> usage_ledger" where
  "complete_call now fails call usage source cost status lifecycle L =
     (let rid = uc_record_id call in
      case dget (ul_active L) rid of
        None \<Rightarrow> L
      | Some current \<Rightarrow>
          let L1 = L\<lparr>ul_active := dpop rid (ul_active L)\<rparr>;
              updated = complete_record (now rid) usage source cost status lifecycle current
          in if dget (ul_records L) rid = Some updated then notify L1
             else notify_completed (notify (persist (fails rid) updated
                    (L1\<lparr>ul_records := dset rid updated (ul_records L)\<rparr>))))"

definition reconcile_run ::
  "(string \<Rightarrow> rat) \<Rightarrow> (string \<Rightarrow> bool) \<Rightarrow> string \<Rightarrow> string \<Rightarrow> payload option \<Rightarrow> pyfloat option
   \<Rightarrow> usage_ledger \<Rightarrow> usage_ledger" where
  "reconcile_run now fails uuid run_id usage cost L =
     (let target = from_provider usage;
          run_records = filter (\<lambda>r. ur_run_id r = run_id) (map snd (ul_records L));
          rest = subtract_known target (aggregate_values run_records);
          cost_known = total_cost run_records;
          rest_cost = (case cost of Some (Fin c) \<Rightarrow> Some (max 0 (c - cost_known)) | _ \<Rightarrow> None);
          costed = (case rest_cost of Some c \<Rightarrow> 0 < c | None \<Rightarrow> False)
      in if \<not> any_tokens rest \<and> \<not> costed then L
         else let (call, L1) = begin_call now uuid run_id ''unknown'' ''unknown'' ''agent'' [] [] L
              in complete_call now fails call (if values_known rest then Some (values_as_object rest) else None)
                   ''run_complete'' (if costed then map_option Fin rest_cost else None) None ''completed'' L1)"

definition finalize_run ::
  "(string \<Rightarrow> rat) \<Rightarrow> (string \<Rightarrow> bool) \<Rightarrow> string \<Rightarrow> string \<Rightarrow> usage_ledger \<Rightarrow> usage_ledger" where
  "finalize_run now fails run_id lifecycle L =
     fold (\<lambda>r L'. if ur_run_id r \<noteq> run_id then L'
            else complete_call now fails \<lparr>uc_record_id = ur_record_id r, uc_run_id = ur_run_id r,
                   uc_call_index = ur_call_index r\<rparr> None ''reconciled'' None None lifecycle L')
       (map snd (ul_active L)) L"

section \<open>Opening a ledger\<close>

text \<open>\<open>fold_usage_records\<close> of the journal: the latest record of each identifier.\<close>

definition fold_usage_records :: "payload list \<Rightarrow> payload list" where
  "fold_usage_records entries = map snd (fold (\<lambda>d latest.
     case str_of (pget d ''record_id'') of
       Some rid \<Rightarrow> if rid = [] then latest else dset rid d latest
     | None \<Rightarrow> latest) entries [])"

definition advance_index :: "usage_record \<Rightarrow> int pydict \<Rightarrow> int pydict" where
  "advance_index r d = dset (ur_run_id r) (max (dget_or d (ur_run_id r) 0) (ur_call_index r)) d"

text \<open>An event of the rendered conversation: identifier, payload and time stamp, each untyped.\<close>

record legacy_event =
  lg_event_id :: pyval
  lg_payload :: pyval
  lg_timestamp :: pyval

definition import_legacy :: "(string \<Rightarrow> rat) \<Rightarrow> string \<Rightarrow> string \<Rightarrow> legacy_event \<Rightarrow> usage_record pydict \<Rightarrow> usage_record pydict" where
  "import_legacy now sid conv e records =
     (case (str_of (lg_event_id e), lg_payload e) of
        (Some eid, PDict kvs) \<Rightarrow>
          let rid = ''legacy:'' @ eid; get = (\<lambda>k. dget_or kvs (KStr k) PNone);
              cost = finite_float (get ''cost_usd'');
              tm = (case finite_float (lg_timestamp e) of Some t \<Rightarrow> if t = 0 then now rid else t | None \<Rightarrow> now rid)
          in if rid \<in> set (keys records) then records
             else dset rid \<lparr>ur_record_id = rid, ur_session_id = sid, ur_conversation_id = conv, ur_run_id = ''legacy'',
               ur_agent_id = [], ur_agent_name = [], ur_call_index = int (length records) + 1,
               ur_provider = ''unknown'', ur_model = ''unknown'', ur_category = ''agent'',
               ur_values = \<lparr>uv_input = optional_int (get ''input_tokens''), uv_output = optional_int (get ''output_tokens''),
                 uv_cache_read = None, uv_cache_write = None\<rparr>,
               ur_cost_usd = cost, ur_cost_status = (if cost \<noteq> None then ''estimated'' else ''unavailable''),
               ur_source = ''legacy'', ur_lifecycle = ''completed'', ur_created_at = tm, ur_completed_at = Some tm\<rparr> records
      | _ \<Rightarrow> records)"

definition safe_identifier :: "string \<Rightarrow> bool" where
  "safe_identifier s \<longleftrightarrow> s \<noteq> [] \<and> char_of (47::nat) \<notin> set s \<and> char_of (92::nat) \<notin> set s"

definition ledger_open ::
  "(string \<Rightarrow> rat) \<Rightarrow> string \<Rightarrow> string option \<Rightarrow> payload list option \<Rightarrow> legacy_event list \<Rightarrow> string + usage_ledger" where
  "ledger_open now sid conversation journal legacy =
     (if \<not> safe_identifier sid then Inl ''session_id must be a non-empty safe identifier''
      else let conv = (case conversation of None \<Rightarrow> sid | Some c \<Rightarrow> if c = [] then sid else c)
      in if \<not> safe_identifier conv then Inl ''conversation_id must be a non-empty safe identifier''
      else let decoded = filter (\<lambda>r. ur_session_id r = sid)
                 (List.map_filter record_from_mapping (case journal of None \<Rightarrow> [] | Some js \<Rightarrow> fold_usage_records js));
               records = fold (\<lambda>r. dset (ur_record_id r) r) decoded [];
               index = fold advance_index decoded []
           in Inr \<lparr>ul_session_id = sid, ul_conversation_id = conv,
                ul_records = (if decoded \<noteq> [] then records else fold (import_legacy now sid conv) legacy records),
                ul_active = [], ul_next_index = index, ul_journal = journal, ul_subscribers = [],
                ul_completed_subscribers = [], ul_projection = None, ul_failed = False,
                ul_seen = [], ul_seen_completed = []\<rparr>)"

section \<open>The tracker of one run\<close>

record usage_tracker =
  ut_run_id :: string
  ut_provider :: string
  ut_model :: string
  ut_category :: string
  ut_agent_id :: string
  ut_agent_name :: string
  ut_current :: "usage_call option"
  ut_awaiting :: bool

type_synonym tracked = "usage_tracker \<times> usage_ledger"

definition ensure_call :: "(string \<Rightarrow> rat) \<Rightarrow> string \<Rightarrow> tracked \<Rightarrow> usage_call \<times> tracked" where
  "ensure_call now uuid tk =
     (case tk of (t, L) \<Rightarrow>
        case ut_current t of
          Some call \<Rightarrow> (call, t, L)
        | None \<Rightarrow> let (call, L1) = begin_call now uuid (ut_run_id t) (ut_provider t) (ut_model t) (ut_category t)
                     (ut_agent_id t) (ut_agent_name t) L
                  in (call, t\<lparr>ut_current := Some call, ut_awaiting := True\<rparr>, L1))"

definition observe_chunk ::
  "(string \<Rightarrow> rat) \<Rightarrow> string \<Rightarrow> (payload \<Rightarrow> string \<Rightarrow> pyfloat option) \<Rightarrow> payload \<Rightarrow> tracked \<Rightarrow> tracked" where
  "observe_chunk now uuid price usage tk =
     (let (call, t, L) = ensure_call now uuid tk
      in (t\<lparr>ut_awaiting := False\<rparr>,
          observe call (Some usage) ''chunk'' (map_option Fin (provider_cost price usage (ut_model t))) None L))"

definition on_model_started :: "(string \<Rightarrow> rat) \<Rightarrow> (string \<Rightarrow> bool) \<Rightarrow> string \<Rightarrow> tracked \<Rightarrow> tracked" where
  "on_model_started now fails uuid tk =
     (case tk of (t, L) \<Rightarrow>
        case ut_current t of
          None \<Rightarrow> snd (ensure_call now uuid (t, L))
        | Some call \<Rightarrow>
            if ut_awaiting t then (t\<lparr>ut_awaiting := False\<rparr>, L)
            else snd (ensure_call now uuid (t\<lparr>ut_current := None\<rparr>,
                   complete_call now fails call None ''reconciled'' None None ''partial'' L)))"

text \<open>A completion signal: its usage object and the cost it reports.\<close>

definition on_model_complete ::
  "(string \<Rightarrow> rat) \<Rightarrow> (string \<Rightarrow> bool) \<Rightarrow> payload option \<Rightarrow> pyval \<Rightarrow> tracked \<Rightarrow> tracked" where
  "on_model_complete now fails signal_usage signal_cost tk =
     (case tk of (t, L) \<Rightarrow>
        case ut_current t of
          None \<Rightarrow> tk
        | Some call \<Rightarrow>
            let observed = (case find (\<lambda>r. ur_record_id r = uc_record_id call) (ledger_records True L) of
                     None \<Rightarrow> no_values | Some r \<Rightarrow> ur_values r);
                reported = from_provider signal_usage;
                usable = any_tokens reported;
                cost = map_option Fin (reported_call_cost signal_cost);
                L1 = (if \<not> values_known observed \<and> \<not> usable
                      then complete_call now fails call None ''model_call_complete'' None None ''completed'' L
                      else complete_call now fails call
                             (Some (values_as_object (if usable then merge_values observed reported else observed)))
                             (if values_known observed then ''reconciled'' else ''model_call_complete'')
                             cost None ''completed'' L)
            in (t\<lparr>ut_current := None, ut_awaiting := False\<rparr>, L1))"

definition on_run_complete ::
  "(string \<Rightarrow> rat) \<Rightarrow> (string \<Rightarrow> bool) \<Rightarrow> string \<Rightarrow> payload option \<Rightarrow> pyval \<Rightarrow> tracked \<Rightarrow> tracked" where
  "on_run_complete now fails uuid total_usage total_cost_usd tk =
     (case tk of (t, L) \<Rightarrow>
        (t, reconcile_run now fails uuid (ut_run_id t) total_usage (map_option Fin (finite_float total_cost_usd)) L))"

definition tracker_finalize :: "(string \<Rightarrow> rat) \<Rightarrow> (string \<Rightarrow> bool) \<Rightarrow> string \<Rightarrow> tracked \<Rightarrow> tracked" where
  "tracker_finalize now fails lifecycle tk =
     (case tk of (t, L) \<Rightarrow> (t\<lparr>ut_current := None\<rparr>, finalize_run now fails (ut_run_id t) lifecycle L))"

end
