(* ===== verification/Usage_Laws.thy ===== *)
theory Usage_Laws
  imports Usage_Ledger
begin

text \<open>
  The steps of a usage ledger, with restarts from the journal, and the invariant they keep: the
  records are append-only, the identifiers of calls never collide, and the journal holds exactly
  the completed records while every write succeeded.
\<close>

section \<open>Aggregates are sums\<close>

definition fields :: "(usage_values \<Rightarrow> int option) set" where
  "fields = {uv_input, uv_output, uv_cache_read, uv_cache_write}"

lemma or_zero_simps [simp]: "or_zero None = 0" "or_zero (Some i) = i"
  by (simp_all add: or_zero_def)

lemma cost_or_zero_simps [simp]: "cost_or_zero None = 0" "cost_or_zero (Some c) = c"
  by (simp_all add: cost_or_zero_def)

lemma or_zero_sum [simp]: "or_zero (sum_optional a b) = or_zero a + or_zero b"
  by (cases a; cases b) simp_all

lemma fields_no_values [simp]: "f \<in> fields \<Longrightarrow> or_zero (f no_values) = 0"
  by (auto simp: fields_def no_values_def)

lemma fields_add [simp]: "f \<in> fields \<Longrightarrow> f (values_add a b) = sum_optional (f a) (f b)"
  by (auto simp: fields_def values_add_def)

lemma fields_subtract [simp]: "f \<in> fields \<Longrightarrow> f (subtract_known a b) = residual (f a) (f b)"
  by (auto simp: fields_def subtract_known_def)

lemma aggregate_sum:
  assumes "f \<in> fields"
  shows "or_zero (f (aggregate_values rs)) = sum_list (map (\<lambda>r. or_zero (f (ur_values r))) rs)"
proof -
  have "or_zero (f (foldl (\<lambda>v r. values_add v (ur_values r)) v rs))
      = or_zero (f v) + sum_list (map (\<lambda>r. or_zero (f (ur_values r))) rs)" for v
    by (induction rs arbitrary: v) (simp_all add: assms)
  then show ?thesis by (simp add: aggregate_values_def assms)
qed

lemma total_cost_simps [simp]:
  "total_cost [] = 0" "total_cost (r # rs) = cost_or_zero (ur_cost_usd r) + total_cost rs"
  "total_cost (rs @ rs') = total_cost rs + total_cost rs'"
  by (simp_all add: total_cost_def)

lemma total_cost_known [simp]: "total_cost (filter (\<lambda>r. \<exists>y. ur_cost_usd r = Some y) rs) = total_cost rs"
  by (induction rs) auto

section \<open>Values\<close>

definition nonneg_values :: "usage_values \<Rightarrow> bool" where
  "nonneg_values v \<longleftrightarrow> (\<forall>f \<in> fields. 0 \<le> or_zero (f v))"

lemma optional_int_nonneg: "0 \<le> or_zero (optional_int v)"
  by (cases v rule: optional_int.cases) auto

lemma from_provider_nonneg [simp]: "nonneg_values (from_provider u)"
  by (cases u) (auto simp: nonneg_values_def fields_def from_provider_def no_values_def optional_int_nonneg)

lemma optional_int_of_opt: "optional_int (of_opt_int x) = (if 0 \<le> or_zero x then x else None)"
  by (cases x) simp_all

lemma from_provider_object: "nonneg_values v \<Longrightarrow> from_provider (Some (values_as_object v)) = v"
  by (cases v) (simp add: from_provider_def values_as_object_def nonneg_values_def fields_def optional_int_of_opt)

lemma values_known_fields: "values_known v \<longleftrightarrow> (\<exists>f \<in> fields. f v \<noteq> None)"
  by (auto simp: values_known_def token_values_def fields_def)

lemma any_tokens_fields: "any_tokens v \<longleftrightarrow> (\<exists>f \<in> fields. 0 < or_zero (f v))"
  by (auto simp: any_tokens_def token_values_def fields_def or_zero_def split: option.splits)

lemma cost_for_nonneg: "cost_for v c s = (Some x, t) \<Longrightarrow> 0 \<le> x"
  by (auto simp: cost_for_def split: option.splits pyfloat.splits if_splits)

section \<open>Identifiers\<close>

lemma nat_digits_set: "set (nat_digits n) \<subseteq> char_of ` {48..57::nat}"
proof (induction n rule: nat_digits.induct)
  case (1 n)
  have "char_of (48 + n mod 10) \<in> char_of ` {48..57::nat}" by (rule imageI) simp
  moreover have "n < 10 \<Longrightarrow> char_of (48 + n) \<in> char_of ` {48..57::nat}" by (rule imageI) simp
  ultimately show ?case using 1 by (subst nat_digits.simps) auto
qed

lemma colon_code: "of_char (CHR '':'') = (58::nat)" by simp

lemma nat_digits_colon [simp]: "CHR '':'' \<notin> set (nat_digits n)"
proof
  assume "CHR '':'' \<in> set (nat_digits n)"
  then obtain k :: nat where "48 \<le> k" "k \<le> 57" "CHR '':'' = char_of k" using nat_digits_set [of n] by auto
  then have "(58::nat) = k mod 256" by (metis colon_code of_char_of)
  with \<open>k \<le> 57\<close> show False by simp
qed

lemma nat_digits_ne: "nat_digits n \<noteq> []"
  by (subst nat_digits.simps) simp

lemma char_of_digit: "a < 10 \<Longrightarrow> b < 10 \<Longrightarrow> char_of (48 + a) = (char_of (48 + b) :: char) \<Longrightarrow> a = (b::nat)"
proof -
  assume "a < 10" "b < 10" "char_of (48 + a) = (char_of (48 + b) :: char)"
  then have "(48 + a) mod 256 = (48 + b) mod 256" by (metis of_char_of)
  with \<open>a < 10\<close> \<open>b < 10\<close> show "a = b" by simp
qed

lemma nat_digits_inj: "nat_digits m = nat_digits n \<Longrightarrow> m = n"
proof (induction m arbitrary: n rule: nat_digits.induct)
  case (1 m)
  have e: "nat_digits k = (if k < 10 then [char_of (48 + k)] else nat_digits (k div 10) @ [char_of (48 + k mod 10)])" for k
    by (subst nat_digits.simps) simp
  consider "m < 10" "n < 10" | "\<not> m < 10" "\<not> n < 10" | "m < 10" "\<not> n < 10" | "\<not> m < 10" "n < 10" by blast
  then show ?case
  proof cases
    case 1
    then show ?thesis using "1.prems" char_of_digit e [of m] e [of n] by simp
  next
    case 2
    then have "nat_digits (m div 10) = nat_digits (n div 10)" "char_of (48 + m mod 10) = (char_of (48 + n mod 10) :: char)"
      using "1.prems" e [of m] e [of n] by simp_all
    then have "m div 10 = n div 10" "m mod 10 = n mod 10" using "1.IH" 2 char_of_digit [of "m mod 10" "n mod 10"] by simp_all
    then show ?thesis by (metis div_mult_mod_eq)
  next
    case 3
    then show ?thesis using "1.prems" e [of m] e [of n] nat_digits_ne [of "n div 10"] by simp
  next
    case 4
    then show ?thesis using "1.prems" e [of m] e [of n] nat_digits_ne [of "m div 10"] by simp
  qed
qed

lemma int_text_colon [simp]: "CHR '':'' \<notin> set (int_text i)"
  by (simp add: int_text_def)

lemma int_text_inj: "0 \<le> i \<Longrightarrow> 0 \<le> j \<Longrightarrow> int_text i = int_text j \<Longrightarrow> i = j"
  by (auto simp: int_text_def dest: nat_digits_inj)

lemma last_colon:
  assumes "a @ CHR '':'' # u = b @ CHR '':'' # v" "CHR '':'' \<notin> set u" "CHR '':'' \<notin> set v"
  shows "a = b \<and> u = v"
proof -
  have r: "takeWhile (\<lambda>c. c \<noteq> CHR '':'') (rev (x @ CHR '':'' # w)) = rev w" if "CHR '':'' \<notin> set w" for x w
    using that by (simp add: takeWhile_append)
  from r [OF assms(2), of a] r [OF assms(3), of b] assms(1) have "u = v" by (metis rev_rev_ident)
  with assms(1) show ?thesis by simp
qed

definition call_id :: "string \<Rightarrow> int \<Rightarrow> string \<Rightarrow> string" where
  "call_id run i uuid = run @ '':'' @ int_text i @ '':'' @ uuid"

lemma call_id_inj:
  assumes "call_id run i u = call_id run' j v" "CHR '':'' \<notin> set u" "CHR '':'' \<notin> set v" "0 \<le> i" "0 \<le> j"
  shows "run = run' \<and> i = j \<and> u = v"
proof -
  have "(run @ CHR '':'' # int_text i) @ CHR '':'' # u = (run' @ CHR '':'' # int_text j) @ CHR '':'' # v"
    using assms(1) by (simp add: call_id_def)
  from last_colon [OF this assms(2,3)] have "run @ CHR '':'' # int_text i = run' @ CHR '':'' # int_text j" "u = v" by auto
  then show ?thesis using last_colon int_text_inj assms(4,5) by (metis int_text_colon)
qed

section \<open>Persisted records\<close>

lemma optional_int_PInt: "0 \<le> i \<Longrightarrow> nonnegative_int (PInt i) = i"
  by (simp add: nonnegative_int_def)

lemma finite_float_simps [simp]:
  "finite_float (PFloat (Fin r)) = Some r" "finite_float PNone = None" "finite_float (of_opt_rat x) = x"
  by (simp_all add: finite_float_def of_opt_rat_def) (cases x; simp)

lemma text_or_PStr [simp]: "text_or (PStr s) dflt = s"
  by (simp add: text_or_def)

definition record_ok :: "string \<Rightarrow> usage_record \<Rightarrow> bool" where
  "record_ok sid r \<longleftrightarrow> ur_record_id r \<noteq> [] \<and> ur_session_id r = sid \<and> 0 \<le> ur_call_index r \<and> nonneg_values (ur_values r)
     \<and> 0 \<le> cost_or_zero (ur_cost_usd r)"

lemma record_roundtrip:
  assumes "record_ok sid r" "sid \<noteq> []"
  shows "record_from_mapping (record_to_dict r) = Some r"
proof -
  have "from_provider (Some (record_to_dict r)) = ur_values r"
    using from_provider_object [of "ur_values r"] assms(1)
    by (simp add: from_provider_def record_to_dict_def values_as_object_def record_ok_def)
  then show ?thesis using assms
    by (cases r) (simp add: record_from_mapping_def, simp add: record_to_dict_def record_ok_def optional_int_PInt)
qed

section \<open>Observers change nothing else\<close>

definition core :: "usage_ledger \<Rightarrow> usage_ledger" where
  "core L = L\<lparr>ul_seen := [], ul_seen_completed := []\<rparr>"

lemma notify_simps [simp]:
  "ul_session_id (notify L) = ul_session_id L" "ul_conversation_id (notify L) = ul_conversation_id L"
  "ul_records (notify L) = ul_records L" "ul_active (notify L) = ul_active L"
  "ul_next_index (notify L) = ul_next_index L" "ul_journal (notify L) = ul_journal L" "ul_failed (notify L) = ul_failed L"
  "ul_projection (notify L) = ul_projection L" "ul_subscribers (notify L) = ul_subscribers L"
  "ledger_snapshot (notify L) = ledger_snapshot L"
  by (simp_all add: notify_def ledger_snapshot_def)

lemma notify_completed_simps [simp]:
  "ul_session_id (notify_completed L) = ul_session_id L" "ul_conversation_id (notify_completed L) = ul_conversation_id L"
  "ul_records (notify_completed L) = ul_records L" "ul_active (notify_completed L) = ul_active L"
  "ul_next_index (notify_completed L) = ul_next_index L" "ul_journal (notify_completed L) = ul_journal L"
  "ul_failed (notify_completed L) = ul_failed L" "ul_projection (notify_completed L) = ul_projection L"
  "ul_subscribers (notify_completed L) = ul_subscribers L" "ul_seen (notify_completed L) = ul_seen L"
  "ledger_snapshot (notify_completed L) = ledger_snapshot L"
  by (simp_all add: notify_completed_def ledger_snapshot_def)

lemma persist_simps [simp]:
  "ul_session_id (persist b r L) = ul_session_id L" "ul_conversation_id (persist b r L) = ul_conversation_id L"
  "ul_records (persist b r L) = ul_records L" "ul_active (persist b r L) = ul_active L"
  "ul_next_index (persist b r L) = ul_next_index L" "ul_projection (persist b r L) = ul_projection L"
  "ul_seen (persist b r L) = ul_seen L" "ul_subscribers (persist b r L) = ul_subscribers L"
  by (simp_all add: persist_def split: option.split)

section \<open>Steps\<close>

text \<open>
  Every public operation with arbitrary arguments; the random part of an identifier is hexadecimal
  (\<open>uuid4().hex\<close>), so it holds no colon. A restart opens the journal of a ledger whose writes all
  succeeded.
\<close>

inductive ledger_step :: "usage_ledger \<Rightarrow> usage_ledger \<Rightarrow> bool" where
  begins: "CHR '':'' \<notin> set uuid \<Longrightarrow> ledger_step L (snd (begin_call now uuid run provider model category aid name L))"
| observes: "ledger_step L (observe call usage source cost status L)"
| completes: "ledger_step L (complete_call now fails call usage source cost status lifecycle L)"
| reconciles: "CHR '':'' \<notin> set uuid \<Longrightarrow> ledger_step L (reconcile_run now fails uuid run usage cost L)"
| finalizes: "ledger_step L (finalize_run now fails run lifecycle L)"
| subscribes: "ledger_step L (ledger_subscribe n L)"
| unsubscribes: "ledger_step L (ledger_unsubscribe n L)"
| subscribes_completed: "ledger_step L (subscribe_completed n L)"
| unsubscribes_completed: "ledger_step L (unsubscribe_completed n L)"
| binds: "ledger_step L (bind_conversation_store n L)"
| restarts: "\<not> ul_failed L \<Longrightarrow> ledger_open now (ul_session_id L) (Some (ul_conversation_id L)) (Some js) [] = Inr L'
    \<Longrightarrow> ul_journal L = Some js \<Longrightarrow> ledger_step L L'"

definition entry_ok :: "usage_ledger \<Rightarrow> string \<times> usage_record \<Rightarrow> bool" where
  "entry_ok L p \<longleftrightarrow> (case p of (rid, r) \<Rightarrow>
     ur_record_id r = rid \<and> record_ok (ul_session_id L) r
     \<and> (\<exists>uuid. CHR '':'' \<notin> set uuid \<and> rid = call_id (ur_run_id r) (ur_call_index r) uuid)
     \<and> ur_call_index r \<le> dget_or (ul_next_index L) (ur_run_id r) 0)"

definition ledger_ok :: "usage_ledger \<Rightarrow> bool" where
  "ledger_ok L \<longleftrightarrow> safe_identifier (ul_session_id L) \<and> safe_identifier (ul_conversation_id L)
     \<and> (\<forall>p \<in> set (ul_records L) \<union> set (ul_active L). entry_ok L p)
     \<and> distinct (keys (ul_records L @ ul_active L))
     \<and> (\<forall>run. 0 \<le> dget_or (ul_next_index L) run 0)
     \<and> (\<forall>js. ul_journal L = Some js \<and> \<not> ul_failed L \<longrightarrow> js = map (record_to_dict \<circ> snd) (ul_records L))"

text \<open>The records only grow, and the session keeps its journal.\<close>

definition grows :: "usage_ledger \<Rightarrow> usage_ledger \<Rightarrow> bool" where
  "grows L L' \<longleftrightarrow> (\<exists>new. ul_records L' = ul_records L @ new) \<and> (ul_journal L' = None \<longleftrightarrow> ul_journal L = None)
     \<and> ul_session_id L' = ul_session_id L"

lemma grows_refl [simp]: "grows L L" by (simp add: grows_def)

lemma grows_trans: "grows L L' \<Longrightarrow> grows L' L'' \<Longrightarrow> grows L L''"
  by (auto simp: grows_def)

lemma ledger_ok_core:
  assumes "ul_session_id L' = ul_session_id L" "ul_conversation_id L' = ul_conversation_id L" "ul_records L' = ul_records L"
    "ul_active L' = ul_active L" "ul_next_index L' = ul_next_index L" "ul_journal L' = ul_journal L" "ul_failed L' = ul_failed L"
  shows "ledger_ok L' \<longleftrightarrow> ledger_ok L"
  unfolding ledger_ok_def entry_ok_def assms ..

lemma ledger_ok_observers [simp]:
  "ledger_ok (L\<lparr>ul_subscribers := ns\<rparr>) = ledger_ok L" "ledger_ok (L\<lparr>ul_completed_subscribers := ns\<rparr>) = ledger_ok L"
  "ledger_ok (L\<lparr>ul_projection := p, ul_seen := xs\<rparr>) = ledger_ok L"
  "ledger_ok (L\<lparr>ul_projection := p, ul_subscribers := ns, ul_seen := xs\<rparr>) = ledger_ok L"
  by (rule ledger_ok_core; simp)+

lemma begin_fresh:
  assumes "ledger_ok L" "CHR '':'' \<notin> set uuid"
  shows "call_id run (dget_or (ul_next_index L) run 0 + 1) uuid \<notin> set (keys (ul_records L @ ul_active L))"
proof
  let ?i = "dget_or (ul_next_index L) run 0 + 1"
  assume "call_id run ?i uuid \<in> set (keys (ul_records L @ ul_active L))"
  then obtain r where "(call_id run ?i uuid, r) \<in> set (ul_records L) \<union> set (ul_active L)"
    by (auto simp: keys_def) blast+
  then have "entry_ok L (call_id run ?i uuid, r)" using assms(1) by (auto simp: ledger_ok_def)
  then obtain u where "CHR '':'' \<notin> set u" "call_id run ?i uuid = call_id (ur_run_id r) (ur_call_index r) u"
    "0 \<le> ur_call_index r" "ur_call_index r \<le> dget_or (ul_next_index L) (ur_run_id r) 0"
    by (auto simp: entry_ok_def record_ok_def)
  moreover have "0 \<le> ?i" using assms(1) by (auto simp: ledger_ok_def)
  ultimately have "run = ur_run_id r" "?i = ur_call_index r" using call_id_inj assms(2) by blast+
  with \<open>ur_call_index r \<le> _\<close> show False by simp
qed

definition new_record :: "(string \<Rightarrow> rat) \<Rightarrow> string \<Rightarrow> string \<Rightarrow> string \<Rightarrow> string \<Rightarrow> string \<Rightarrow> string \<Rightarrow> string
   \<Rightarrow> usage_ledger \<Rightarrow> usage_record" where
  "new_record now uuid run provider model category aid name L =
     (let i = dget_or (ul_next_index L) run 0 + 1 in
      \<lparr>ur_record_id = call_id run i uuid, ur_session_id = ul_session_id L, ur_conversation_id = ul_conversation_id L,
       ur_run_id = run, ur_agent_id = aid, ur_agent_name = name, ur_call_index = i,
       ur_provider = provider, ur_model = model, ur_category = category, ur_values = no_values,
       ur_cost_usd = None, ur_cost_status = ''unavailable'', ur_source = ''unknown'',
       ur_lifecycle = ''provisional'', ur_created_at = now (call_id run i uuid), ur_completed_at = None\<rparr>)"

lemma begin_call_eq:
  assumes "ledger_ok L" "CHR '':'' \<notin> set uuid"
  shows "begin_call now uuid run provider model category aid name L =
    (let r = new_record now uuid run provider model category aid name L in
     (\<lparr>uc_record_id = ur_record_id r, uc_run_id = run, uc_call_index = ur_call_index r\<rparr>,
      notify (L\<lparr>ul_next_index := dset run (ur_call_index r) (ul_next_index L),
                ul_active := ul_active L @ [(ur_record_id r, r)]\<rparr>)))"
  using begin_fresh [OF assms, of run]
  by (simp add: begin_call_def Let_def new_record_def call_id_def dset_fresh)

lemma begin_ok:
  assumes ok: "ledger_ok L" and u: "CHR '':'' \<notin> set uuid"
  shows "ledger_ok (snd (begin_call now uuid run provider model category aid name L))"
    (is "ledger_ok ?L'")
proof -
  let ?r = "new_record now uuid run provider model category aid name L"
  let ?i = "dget_or (ul_next_index L) run 0 + 1"
  have r: "ur_record_id ?r = call_id run ?i uuid" "ur_call_index ?r = ?i" "ur_run_id ?r = run" "ur_session_id ?r = ul_session_id L"
    "ur_values ?r = no_values" "ur_cost_usd ?r = None"
    by (simp_all add: new_record_def Let_def)
  have i: "0 \<le> ?i" using ok by (auto simp: ledger_ok_def)
  have mono: "dget_or (ul_next_index L) run' 0 \<le> dget_or (dset run ?i (ul_next_index L)) run' 0" for run' by simp
  have n: "ul_records ?L' = ul_records L" "ul_active ?L' = ul_active L @ [(call_id run ?i uuid, ?r)]"
    "ul_next_index ?L' = dset run ?i (ul_next_index L)" "ul_session_id ?L' = ul_session_id L"
    "ul_conversation_id ?L' = ul_conversation_id L" "ul_journal ?L' = ul_journal L" "ul_failed ?L' = ul_failed L"
    by (simp_all add: begin_call_eq [OF ok u] Let_def r)
  have "entry_ok ?L' (call_id run ?i uuid, ?r)"
    using u i by (auto simp: entry_ok_def n r record_ok_def call_id_def nonneg_values_def)
  moreover have "entry_ok ?L' p" if "entry_ok L p" for p
    using that mono order_trans by (cases p) (fastforce simp: entry_ok_def n)
  ultimately show ?thesis
    using ok begin_fresh [OF ok u, of run] i by (auto simp: ledger_ok_def n)
qed

lemma complete_record_simps [simp]:
  "ur_record_id (complete_record now u s c st l r) = ur_record_id r"
  "ur_session_id (complete_record now u s c st l r) = ur_session_id r"
  "ur_run_id (complete_record now u s c st l r) = ur_run_id r"
  "ur_call_index (complete_record now u s c st l r) = ur_call_index r"
  by (simp_all add: complete_record_def Let_def split: prod.split)

lemma complete_record_ok:
  assumes "record_ok sid r" shows "record_ok sid (complete_record now u s c st l r)"
proof -
  have "0 \<le> cost_or_zero (fst (cost_for v c' s'))" for v c' s'
    by (auto simp: cost_for_def split: option.split pyfloat.split)
  then show ?thesis using assms by (auto simp: record_ok_def complete_record_def Let_def split: prod.split) (metis fst_conv)+
qed

lemma active_entry:
  assumes "ledger_ok L" "dget (ul_active L) rid = Some r"
  shows "entry_ok L (rid, r)" "rid \<notin> set (keys (ul_records L))" "ur_record_id r = rid"
proof -
  have m: "(rid, r) \<in> set (ul_active L)" using assms(2) by (rule map_of_SomeD)
  then show e: "entry_ok L (rid, r)" using assms(1) by (auto simp: ledger_ok_def)
  then show "ur_record_id r = rid" by (simp add: entry_ok_def)
  have "rid \<in> set (keys (ul_active L))" using m by (force simp: keys_def)
  then show "rid \<notin> set (keys (ul_records L))" using assms(1) by (auto simp: ledger_ok_def)
qed

lemma complete_call_eq:
  assumes "ledger_ok L" "dget (ul_active L) (uc_record_id call) = Some r"
  shows "complete_call now fails call usage source cost status lifecycle L =
    (let u = complete_record (now (uc_record_id call)) usage source cost status lifecycle r in
     notify_completed (notify (persist (fails (uc_record_id call)) u
       (L\<lparr>ul_active := dpop (uc_record_id call) (ul_active L), ul_records := ul_records L @ [(uc_record_id call, u)]\<rparr>))))"
  using active_entry [OF assms] assms(2)
  by (simp add: complete_call_def Let_def map_of_NoneI dset_fresh)

lemma set_dpop: "set (dpop k d) \<subseteq> set d"
  by (induction d) auto

lemma complete_ok:
  assumes ok: "ledger_ok L"
  shows "ledger_ok (complete_call now fails call usage source cost status lifecycle L)" (is "ledger_ok ?L'")
    and "grows L (complete_call now fails call usage source cost status lifecycle L)"
proof -
  let ?rid = "uc_record_id call"
  show "ledger_ok ?L'"
  proof (cases "dget (ul_active L) ?rid")
    case None
    then show ?thesis using ok by (simp add: complete_call_def)
  next
    case (Some r)
    let ?u = "complete_record (now ?rid) usage source cost status lifecycle r"
    have e: "entry_ok L (?rid, r)" "?rid \<notin> set (keys (ul_records L))" using active_entry [OF ok Some] by auto
    have n: "ul_records ?L' = ul_records L @ [(?rid, ?u)]" "ul_active ?L' = dpop ?rid (ul_active L)"
      "ul_next_index ?L' = ul_next_index L" "ul_session_id ?L' = ul_session_id L"
      "ul_conversation_id ?L' = ul_conversation_id L"
      by (simp_all add: complete_call_eq [OF ok Some] Let_def)
    have j: "js = map (record_to_dict \<circ> snd) (ul_records ?L')" if "ul_journal ?L' = Some js" "\<not> ul_failed ?L'" for js
      using that ok by (auto simp: complete_call_eq [OF ok Some] Let_def persist_def ledger_ok_def split: option.splits if_splits)
    have en: "entry_ok ?L' p \<longleftrightarrow> entry_ok L p" for p by (simp add: entry_ok_def n)
    have "entry_ok L (?rid, ?u)"
      using e(1) complete_record_ok by (auto simp: entry_ok_def)
    moreover have "set (dpop ?rid (ul_active L)) \<subseteq> set (ul_active L)"
      by (rule set_dpop)
    moreover have "distinct (keys (dpop ?rid (ul_active L)))" using ok by (auto simp: ledger_ok_def)
    ultimately show ?thesis
      using ok e(2) j unfolding ledger_ok_def en unfolding n by auto
  qed
  show "grows L ?L'"
  proof (cases "dget (ul_active L) ?rid")
    case None
    then show ?thesis by (simp add: complete_call_def)
  next
    case (Some r)
    show ?thesis unfolding complete_call_eq [OF ok Some] Let_def
      by (simp add: grows_def) (simp add: persist_def split: option.split)
  qed
qed

lemma begin_grows: "grows L (snd (begin_call now uuid run provider model category aid name L))"
  by (simp add: grows_def begin_call_def Let_def)

lemma reconcile_ok:
  assumes "ledger_ok L" "CHR '':'' \<notin> set uuid"
  shows "ledger_ok (reconcile_run now fails uuid run usage cost L) \<and> grows L (reconcile_run now fails uuid run usage cost L)"
proof -
  obtain call L1 where b: "begin_call now uuid run ''unknown'' ''unknown'' ''agent'' [] [] L = (call, L1)" by fastforce
  then have "ledger_ok L1" "grows L L1" using begin_ok [OF assms] begin_grows by (metis snd_conv)+
  then have "ledger_ok (complete_call now fails call u s c st l L1) \<and> grows L (complete_call now fails call u s c st l L1)"
    for u s c st l by (intro conjI complete_ok(1) grows_trans [OF _ complete_ok(2)])
  then show ?thesis using assms(1) by (simp add: reconcile_run_def Let_def b)
qed

lemma finalize_ok:
  assumes "ledger_ok L"
  shows "ledger_ok (finalize_run now fails run lifecycle L) \<and> grows L (finalize_run now fails run lifecycle L)"
proof -
  have "ledger_ok M \<Longrightarrow> ledger_ok (fold f rs M) \<and> grows M (fold f rs M)"
    if "\<And>r M. ledger_ok M \<Longrightarrow> ledger_ok (f r M) \<and> grows M (f r M)" for f :: "usage_record \<Rightarrow> usage_ledger \<Rightarrow> usage_ledger" and rs M
  proof (induction rs arbitrary: M)
    case (Cons r rs)
    then show ?case using that [OF Cons.prems] grows_trans by fastforce
  qed simp
  then show ?thesis unfolding finalize_run_def using assms complete_ok by simp
qed

lemma observe_ok:
  assumes "ledger_ok L"
  shows "ledger_ok (observe call usage source cost status L)" "grows L (observe call usage source cost status L)"
proof -
  let ?L' = "observe call usage source cost status L" and ?rid = "uc_record_id call"
  show "ledger_ok ?L'"
  proof (cases "dget (ul_active L) ?rid")
    case None
    then show ?thesis using assms by (simp add: observe_def)
  next
    case (Some r)
    let ?c = "cost_for (from_provider usage) cost status"
    let ?u = "r\<lparr>ur_values := from_provider usage, ur_cost_usd := fst ?c, ur_cost_status := snd ?c, ur_source := source\<rparr>"
    have n: "ul_records ?L' = ul_records L" "ul_active ?L' = dset ?rid ?u (ul_active L)"
      "ul_next_index ?L' = ul_next_index L" "ul_session_id ?L' = ul_session_id L"
      "ul_conversation_id ?L' = ul_conversation_id L" "ul_journal ?L' = ul_journal L" "ul_failed ?L' = ul_failed L"
      using Some by (simp_all add: observe_def Let_def split: prod.split)
    have en: "entry_ok ?L' p \<longleftrightarrow> entry_ok L p" for p by (simp add: entry_ok_def n)
    have "0 \<le> cost_or_zero (fst ?c)" by (auto simp: cost_for_def split: option.split pyfloat.split)
    then have "entry_ok L (?rid, ?u)"
      using active_entry(1) [OF assms Some] by (auto simp: entry_ok_def record_ok_def)
    then have "\<forall>p \<in> set (ul_records L) \<union> set (dset ?rid ?u (ul_active L)). entry_ok L p"
      using assms dset_in_setD [of _ ?rid ?u "ul_active L"] unfolding ledger_ok_def by blast
    moreover have "keys (dset ?rid ?u (ul_active L)) = keys (ul_active L)"
      using map_of_in_keys [OF Some] by (simp add: keys_dset)
    ultimately show ?thesis
      using assms unfolding ledger_ok_def en unfolding n by simp
  qed
  show "grows L ?L'" by (simp add: observe_def grows_def Let_def split: option.split prod.split)
qed

section \<open>Restarts\<close>

lemma fold_dset_distinct:
  assumes "distinct (keys (acc @ d))"
  shows "fold (\<lambda>p. dset (fst p) (snd p)) d acc = acc @ d"
  using assms
proof (induction d arbitrary: acc)
  case (Cons p d)
  then have "dset (fst p) (snd p) acc = acc @ [p]" by (simp add: dset_fresh)
  then show ?case using Cons.IH [of "acc @ [p]"] Cons.prems by simp
qed simp

lemma fold_usage_records_distinct:
  assumes "\<And>p. p \<in> set d \<Longrightarrow> fst p \<noteq> [] \<and> str_of (pget (snd p) ''record_id'') = Some (fst p)" "distinct (keys d)"
  shows "fold_usage_records (map snd d) = map snd d"
proof -
  let ?f = "\<lambda>d latest. case str_of (pget d ''record_id'') of
       Some rid \<Rightarrow> if rid = [] then latest else dset rid d latest | None \<Rightarrow> latest"
  have "fold ?f (map snd d) acc = fold (\<lambda>p. dset (fst p) (snd p)) d acc" for acc
    unfolding fold_map by (rule fold_cong) (use assms(1) in auto)
  then show ?thesis using fold_dset_distinct [of "[]" d] assms(2) by (simp add: fold_usage_records_def)
qed

lemma advance_index_mono:
  "dget_or d run 0 \<le> dget_or (fold advance_index rs d) run 0"
proof (induction rs arbitrary: d)
  case (Cons r rs)
  have "dget_or d run 0 \<le> dget_or (advance_index r d) run 0" by (simp add: advance_index_def)
  then show ?case using Cons [of "advance_index r d"] by simp
qed simp

lemma advance_index_covers:
  "r \<in> set rs \<Longrightarrow> ur_call_index r \<le> dget_or (fold advance_index rs d) (ur_run_id r) 0"
proof (induction rs arbitrary: d)
  case (Cons x rs)
  have "ur_call_index x \<le> dget_or (advance_index x d) (ur_run_id x) 0" by (simp add: advance_index_def)
  then show ?case using Cons advance_index_mono [of "advance_index x d" "ur_run_id x" rs] by fastforce
qed simp

lemma reopen:
  assumes ok: "ledger_ok L" and nf: "\<not> ul_failed L" and js: "ul_journal L = Some js"
  shows "ledger_open now (ul_session_id L) (Some (ul_conversation_id L)) (Some js) [] =
    Inr (L\<lparr>ul_active := [], ul_next_index := fold advance_index (map snd (ul_records L)) [], ul_subscribers := [],
       ul_completed_subscribers := [], ul_projection := None, ul_seen := [], ul_seen_completed := []\<rparr>)"
proof -
  let ?rs = "ul_records L"
  have j: "js = map snd (map (\<lambda>(k, r). (k, record_to_dict r)) ?rs)"
    using ok nf js by (auto simp: ledger_ok_def comp_def case_prod_unfold)
  have e: "entry_ok L p" if "p \<in> set ?rs" for p using ok that by (auto simp: ledger_ok_def)
  have sid: "safe_identifier (ul_session_id L)" "safe_identifier (ul_conversation_id L)" using ok by (auto simp: ledger_ok_def)
  have ids: "str_of (pget (record_to_dict r) ''record_id'') = Some (ur_record_id r)" for r by (simp add: record_to_dict_def)
  have d: "distinct (keys ?rs)" using ok by (auto simp: ledger_ok_def)
  have "keys (map (\<lambda>(k, r). (k, record_to_dict r)) ?rs) = keys ?rs" by (auto simp: keys_def)
  then have f: "fold_usage_records js = map record_to_dict (map snd ?rs)"
    unfolding j using fold_usage_records_distinct [of "map (\<lambda>(k, r). (k, record_to_dict r)) ?rs"] e d
    by (force simp: entry_ok_def record_ok_def ids comp_def case_prod_unfold)
  have "record_from_mapping (record_to_dict r) = Some r" if "r \<in> set (map snd ?rs)" for r
    using that e record_roundtrip sid by (fastforce simp: entry_ok_def safe_identifier_def)
  then have m: "List.map_filter record_from_mapping (map record_to_dict rs) = rs" if "set rs \<subseteq> set (map snd ?rs)" for rs
    using that by (induction rs) (simp_all add: List.map_filter_simps)
  have s: "filter (\<lambda>r. ur_session_id r = ul_session_id L) (map snd ?rs) = map snd ?rs"
    using e by (force simp: filter_id_conv entry_ok_def record_ok_def)
  have "fold (\<lambda>r. dset (ur_record_id r) r) (map snd ?rs) [] = fold (\<lambda>p. dset (fst p) (snd p)) ?rs []"
    unfolding fold_map by (rule fold_cong) (use e in \<open>force simp: entry_ok_def\<close>)+
  then have r: "fold (\<lambda>r. dset (ur_record_id r) r) (map snd ?rs) [] = ?rs"
    using fold_dset_distinct [of "[]" ?rs] d by simp
  have dec: "filter (\<lambda>r. ur_session_id r = ul_session_id L) (List.map_filter record_from_mapping (fold_usage_records js))
      = map snd ?rs"
    unfolding f by (simp only: m [OF subset_refl] s)
  have c: "ul_conversation_id L \<noteq> []" using sid by (simp add: safe_identifier_def)
  have "(if map snd ?rs \<noteq> [] then fold (\<lambda>r. dset (ur_record_id r) r) (map snd ?rs) []
      else fold g [] (fold (\<lambda>r. dset (ur_record_id r) r) (map snd ?rs) [])) = ?rs" for g :: "legacy_event \<Rightarrow> _"
    by (simp only: r) simp
  then show ?thesis using sid nf js c
    unfolding ledger_open_def by (simp add: Let_def dec del: fold_map map_is_Nil_conv)
qed

lemma ledger_step_ok:
  assumes "ledger_step L L'" "ledger_ok L"
  shows "ledger_ok L' \<and> grows L L'"
  using assms
proof cases
  case (restarts now js)
  then have "L' = L\<lparr>ul_active := [], ul_next_index := fold advance_index (map snd (ul_records L)) [], ul_subscribers := [],
       ul_completed_subscribers := [], ul_projection := None, ul_seen := [], ul_seen_completed := []\<rparr>"
    using reopen [OF assms(2)] by (metis sum.inject(2))
  moreover have "ledger_ok \<dots>"
  proof -
    let ?d = "fold advance_index (map snd (ul_records L)) []"
    have "0 \<le> dget_or ?d run 0" for run using advance_index_mono [of "[]" run] by (simp add: dget_or_def)
    moreover have "entry_ok (L\<lparr>ul_next_index := ?d\<rparr>) p" if p: "p \<in> set (ul_records L)" for p
    proof -
      have "entry_ok L p" using assms(2) p by (auto simp: ledger_ok_def)
      moreover have "ur_call_index (snd p) \<le> dget_or ?d (ur_run_id (snd p)) 0"
        using p by (intro advance_index_covers) auto
      ultimately show ?thesis by (cases p) (simp add: entry_ok_def)
    qed
    ultimately show ?thesis using assms(2) by (auto simp: ledger_ok_def entry_ok_def)
  qed
  ultimately show ?thesis by (simp add: grows_def)
next
  case (begins uuid now run provider model category aid name)
  then show ?thesis using begin_ok [OF assms(2)] begin_grows by simp
next
  case (reconciles uuid now fails run usage cost)
  then show ?thesis using reconcile_ok [OF assms(2)] by simp
next
  case (finalizes now fails run lifecycle)
  then show ?thesis using finalize_ok [OF assms(2)] by simp
next
  case (observes call usage source cost status)
  then show ?thesis using observe_ok [OF assms(2)] by simp
next
  case (completes now fails call usage source cost status lifecycle)
  then show ?thesis using complete_ok [OF assms(2)] by simp
qed (use assms(2) in \<open>simp_all add: ledger_subscribe_def ledger_unsubscribe_def subscribe_completed_def
  unsubscribe_completed_def bind_conversation_store_def grows_def\<close>)

lemma ledger_steps_ok:
  assumes "ledger_step\<^sup>*\<^sup>* L L'" "ledger_ok L"
  shows "ledger_ok L' \<and> grows L L'"
  using assms by (induction rule: rtranclp_induct) (auto dest: ledger_step_ok intro: grows_trans)

lemma open_fresh:
  assumes "ledger_open now sid conv (Some []) [] = Inr L"
  shows "ledger_ok L" "ul_records L = []" "ul_journal L = Some []" "ul_session_id L = sid"
  using assms by (auto simp: ledger_open_def Let_def ledger_ok_def fold_usage_records_def List.map_filter_simps
      split: if_splits option.splits)

section \<open>Totals\<close>

lemma completed_totals:
  "us_input_tokens (completed_snapshot L) = or_zero (uv_input (aggregate_values (map snd (ul_records L))))"
  "us_output_tokens (completed_snapshot L) = or_zero (uv_output (aggregate_values (map snd (ul_records L))))"
  "us_cache_read_tokens (completed_snapshot L) = or_zero (uv_cache_read (aggregate_values (map snd (ul_records L))))"
  "us_cache_write_tokens (completed_snapshot L) = or_zero (uv_cache_write (aggregate_values (map snd (ul_records L))))"
  "us_cost_usd (completed_snapshot L) = total_cost (map snd (ul_records L))"
  by (simp_all add: completed_snapshot_def aggregate_snapshot_def Let_def)

lemma record_bounds:
  assumes "ledger_ok L" "r \<in> snd ` set (ul_records L)"
  shows "f \<in> fields \<Longrightarrow> 0 \<le> or_zero (f (ur_values r))" "0 \<le> cost_or_zero (ur_cost_usd r)"
  using assms by (force simp: ledger_ok_def entry_ok_def record_ok_def nonneg_values_def)+

lemma totals_mono:
  assumes "ledger_ok L'" "grows L L'"
  shows "f \<in> fields \<Longrightarrow> or_zero (f (aggregate_values (map snd (ul_records L)))) \<le> or_zero (f (aggregate_values (map snd (ul_records L'))))"
    and "total_cost (map snd (ul_records L)) \<le> total_cost (map snd (ul_records L'))"
proof -
  obtain new where n: "ul_records L' = ul_records L @ new" using assms(2) by (auto simp: grows_def)
  have b: "0 \<le> sum_list (map (\<lambda>r. or_zero (f (ur_values r))) (map snd new))" if "f \<in> fields" for f
    by (rule sum_list_nonneg) (use record_bounds(1) [OF assms(1) _ that] n in auto)
  show "or_zero (f (aggregate_values (map snd (ul_records L)))) \<le> or_zero (f (aggregate_values (map snd (ul_records L'))))"
    if "f \<in> fields" using b [OF that] by (simp add: aggregate_sum [OF that] n)
  have "0 \<le> total_cost (map snd new)"
    unfolding total_cost_def by (rule sum_list_nonneg) (use record_bounds(2) [OF assms(1)] n in auto)
  then show "total_cost (map snd (ul_records L)) \<le> total_cost (map snd (ul_records L'))" by (simp add: n)
qed

section \<open>Reconciliation\<close>

definition run_records :: "string \<Rightarrow> usage_ledger \<Rightarrow> usage_record list" where
  "run_records run L = filter (\<lambda>r. ur_run_id r = run) (map snd (ul_records L))"

lemma residual_sum: "0 \<le> or_zero k \<Longrightarrow> 0 \<le> or_zero t \<Longrightarrow> or_zero k + or_zero (residual t k) = max (or_zero k) (or_zero t)"
  by (cases t; cases k) auto

lemma residual_nonneg: "0 \<le> or_zero t \<Longrightarrow> 0 \<le> or_zero (residual t k)"
  by (cases t; cases k) auto

lemma reconcile_records:
  fixes usage :: "payload option" and run :: string and cost :: "pyfloat option"
  assumes ok: "ledger_ok L" and u: "CHR '':'' \<notin> set uuid"
  defines "rest \<equiv> subtract_known (from_provider usage) (aggregate_values (run_records run L))"
  defines "extra \<equiv> (case cost of Some (Fin c) \<Rightarrow> max 0 (c - total_cost (run_records run L)) | _ \<Rightarrow> 0)"
  shows "if any_tokens rest \<or> 0 < extra
    then \<exists>rid r. ul_records (reconcile_run now fails uuid run usage cost L) = ul_records L @ [(rid, r)] \<and> ur_run_id r = run
      \<and> ur_values r = rest \<and> cost_or_zero (ur_cost_usd r) = extra
    else reconcile_run now fails uuid run usage cost L = L"
proof -
  let ?r0 = "new_record now uuid run ''unknown'' ''unknown'' ''agent'' [] [] L"
  let ?call = "\<lparr>uc_record_id = ur_record_id ?r0, uc_run_id = run, uc_call_index = ur_call_index ?r0\<rparr>"
  obtain L1 where b: "begin_call now uuid run ''unknown'' ''unknown'' ''agent'' [] [] L = (?call, L1)"
    and L1: "ledger_ok L1" "ul_records L1 = ul_records L" "ul_active L1 = ul_active L @ [(ur_record_id ?r0, ?r0)]"
    using begin_ok [OF ok u] begin_call_eq [OF ok u] by (fastforce simp: Let_def)
  have r0: "ur_record_id ?r0 \<notin> set (keys (ul_active L))" "ur_values ?r0 = no_values" "ur_run_id ?r0 = run"
    "ur_cost_usd ?r0 = None"
    using begin_fresh [OF ok u, of run] by (simp_all add: new_record_def Let_def)
  then have a: "dget (ul_active L1) (uc_record_id ?call) = Some ?r0" by (simp add: L1 map_add_def map_of_NoneI)
  have nn: "nonneg_values rest"
    using from_provider_nonneg [of usage] by (auto simp: rest_def nonneg_values_def residual_nonneg)
  have e0: "0 \<le> extra" by (simp add: extra_def split: option.split pyfloat.split)
  define costed where "costed = (0 < extra)"
  define usage' where "usage' = (if values_known rest then Some (values_as_object rest) else None)"
  define cost' where "cost' = (if costed then Some (Fin extra) else None)"
  have "\<not> values_known no_values" by (simp add: values_known_def token_values_def no_values_def)
  moreover have "rest = no_values" if "\<not> values_known rest"
    using that by (cases rest) (simp add: values_known_def token_values_def no_values_def)
  ultimately have v: "ur_values (complete_record t usage' s cost' None l ?r0) = rest"
    "cost_or_zero (ur_cost_usd (complete_record t usage' s cost' None l ?r0)) = extra" for t s l
    using from_provider_object [OF nn] r0 e0
    by (auto simp: complete_record_def Let_def usage'_def cost'_def from_provider_def [of None] cost_for_def costed_def
        more_def max_def split: option.splits pyfloat.splits)
  have "reconcile_run now fails uuid run usage cost L =
      (if \<not> any_tokens rest \<and> \<not> costed then L
       else complete_call now fails ?call usage' ''run_complete'' cost' None ''completed'' L1)"
  proof -
    define rc where "rc = (case cost of Some (Fin c) \<Rightarrow> Some (max 0 (c - total_cost (run_records run L))) | _ \<Rightarrow> None)"
    have 1: "(case rc of Some c \<Rightarrow> 0 < c | None \<Rightarrow> False) \<longleftrightarrow> costed"
      by (simp add: rc_def costed_def extra_def split: option.split pyfloat.split)
    have 2: "(if costed then map_option Fin rc else None) = cost'"
      by (auto simp: cost'_def rc_def costed_def extra_def split: option.split pyfloat.split)
    show ?thesis
      unfolding reconcile_run_def Let_def run_records_def [symmetric] rc_def [symmetric] rest_def [symmetric]
        usage'_def [symmetric] 1 2 b prod.case ..
  qed
  then show ?thesis
    using v r0(3) unfolding complete_call_eq [OF L1(1) a] by (auto simp: Let_def L1 costed_def)
qed

section \<open>The projection of the session\<close>

definition shows_current :: "usage_ledger \<Rightarrow> bool" where
  "shows_current L \<longleftrightarrow> (\<forall>n. ul_projection L = Some n \<longrightarrow> map_of (rev (ul_seen L)) n = Some (ledger_snapshot L))"

lemma notify_shows: "shows_current (notify L)"
proof -
  have "map_of (rev (xs @ map (\<lambda>n. (n, x)) ns)) n = Some x" if "n \<in> set ns" for ns n xs and x :: usage_snapshot
    using that by (induction ns rule: rev_induct) auto
  note * = this [of _ "(case ul_projection L of None \<Rightarrow> [] | Some n \<Rightarrow> [n]) @ ul_subscribers L" "ul_seen L" "ledger_snapshot L"]
  have "ul_seen (notify L) = ul_seen L @ map (\<lambda>n. (n, ledger_snapshot L))
      ((case ul_projection L of None \<Rightarrow> [] | Some n \<Rightarrow> [n]) @ ul_subscribers L)" by (simp add: notify_def)
  then show ?thesis unfolding shows_current_def notify_simps using * by (metis append_Cons list.set_intros(1) option.simps(5))
qed

lemma notify_completed_shows [simp]: "shows_current (notify_completed L) = shows_current L"
  by (simp add: shows_current_def)

lemma complete_shows: "shows_current L \<Longrightarrow> shows_current (complete_call now fails call u s c st l L)"
  by (simp add: complete_call_def Let_def notify_shows split: option.split)

lemma step_shows:
  assumes "ledger_step L L'" "shows_current L"
  shows "shows_current L'"
  using assms
proof cases
  case (begins uuid now run provider model category aid name)
  then show ?thesis by (simp add: begin_call_def Let_def notify_shows)
next
  case (reconciles uuid now fails run usage cost)
  have "shows_current (snd (begin_call now uuid run p m c a n L))" for p m c a n
    by (simp add: begin_call_def Let_def notify_shows)
  then show ?thesis using assms(2) reconciles complete_shows by (simp add: reconcile_run_def Let_def split: prod.split) (metis snd_conv)
next
  case (finalizes now fails run lifecycle)
  have "shows_current M \<Longrightarrow> shows_current (fold f rs M)"
    if "\<And>r M. shows_current M \<Longrightarrow> shows_current (f r M)" for f :: "usage_record \<Rightarrow> usage_ledger \<Rightarrow> usage_ledger" and rs M
    using that by (induction rs arbitrary: M) simp_all
  then show ?thesis unfolding finalizes finalize_run_def using assms(2) complete_shows by simp
next
  case (restarts now js)
  then show ?thesis by (auto simp: ledger_open_def Let_def shows_current_def split: if_splits)
qed (use assms(2) complete_shows notify_shows in
      \<open>auto simp: observe_def Let_def ledger_subscribe_def ledger_unsubscribe_def subscribe_completed_def unsubscribe_completed_def
        bind_conversation_store_def shows_current_def ledger_snapshot_def split: option.splits prod.splits\<close>)

end
