(* ===== verification/Usage_Properties.thy ===== *)
theory Usage_Properties
  imports Usage_Laws
begin

text \<open>
  What the usage ledger promises: records are only ever added, a restart reads back exactly the
  completed calls, reconciliation lifts a run to its reported totals and no further, and the
  session's projection always shows the current totals. The last section evaluates two runs in
  which the totals are wrong.
\<close>

section \<open>A run of the ledger\<close>

definition demo_open :: usage_ledger where
  "demo_open = \<lparr>ul_session_id = ''s'', ul_conversation_id = ''s'', ul_records = [], ul_active = [], ul_next_index = [],
     ul_journal = Some [], ul_subscribers = [], ul_completed_subscribers = [], ul_projection = None, ul_failed = False,
     ul_seen = [], ul_seen_completed = []\<rparr>"

definition demo_begun :: usage_ledger where
  "demo_begun = snd (begin_call (\<lambda>_. 1) ''ab'' ''r'' ''p'' ''m'' ''agent'' [] [] demo_open)"

definition demo_call :: usage_call where
  "demo_call = \<lparr>uc_record_id = ''r:1:ab'', uc_run_id = ''r'', uc_call_index = 1\<rparr>"

definition demo_done :: usage_ledger where
  "demo_done = complete_call (\<lambda>_. 2) (\<lambda>_. False) demo_call (Some [(''input_tokens'', PInt 7)]) ''model_call_complete''
     (Some (Fin 3)) None ''completed'' demo_begun"

lemma demo_open_eq: "ledger_open (\<lambda>_. 0) ''s'' None (Some []) [] = Inr demo_open"
  by code_simp

lemma demo_steps: "ledger_step\<^sup>*\<^sup>* demo_open demo_begun" "ledger_step\<^sup>*\<^sup>* demo_begun demo_done"
proof -
  show "ledger_step\<^sup>*\<^sup>* demo_open demo_begun" unfolding demo_begun_def by (rule r_into_rtranclp, rule begins) simp
  show "ledger_step\<^sup>*\<^sup>* demo_begun demo_done" unfolding demo_done_def by (rule r_into_rtranclp, rule completes)
qed


section \<open>Properties\<close>





text \<open>
  Reconciling a run repairs exactly the residual: afterwards each token total of the completed
  calls of the run is the larger of what they had and what the run reported, the cost likewise when
  a finite cost is reported, and the records of every other run are untouched. So reporting the same
  totals again changes nothing.
\<close>

theorem usage_reconcile:
  fixes L L0 :: usage_ledger
  assumes "ledger_open now sid conv (Some []) [] = Inr L0" "ledger_step\<^sup>*\<^sup>* L0 L" "CHR '':'' \<notin> set uuid"
    and L': "L' = reconcile_run now' fails uuid run usage cost L"
  shows "(\<forall>f \<in> {uv_input, uv_output, uv_cache_read, uv_cache_write}.
      or_zero (f (aggregate_values (run_records run L'))) =
      max (or_zero (f (aggregate_values (run_records run L)))) (or_zero (f (from_provider usage))))
    \<and> (\<forall>c. cost = Some (Fin c) \<longrightarrow> total_cost (run_records run L') = max (total_cost (run_records run L)) c)
    \<and> (\<forall>run'. run' \<noteq> run \<longrightarrow> run_records run' L' = run_records run' L)"
proof -
  have ok: "ledger_ok L" using ledger_steps_ok [OF assms(2)] open_fresh(1) [OF assms(1)] by blast
  define rest where "rest = subtract_known (from_provider usage) (aggregate_values (run_records run L))"
  define extra where "extra = (case cost of Some (Fin c) \<Rightarrow> max 0 (c - total_cost (run_records run L)) | _ \<Rightarrow> 0)"
  note rr = reconcile_records [OF ok assms(3), of usage run cost now' fails, folded rest_def extra_def]
  have known: "0 \<le> or_zero (f (aggregate_values (run_records run L)))" if "f \<in> fields" for f
    unfolding aggregate_sum [OF that]
    by (rule sum_list_nonneg) (use record_bounds(1) [OF ok _ that] in \<open>auto simp: run_records_def\<close>)
  have target: "0 \<le> or_zero (f (from_provider usage))" if "f \<in> fields" for f
    using from_provider_nonneg [of usage] that by (simp add: nonneg_values_def)
  have tokens: "or_zero (f (aggregate_values (run_records run L))) + or_zero (f rest) =
      max (or_zero (f (aggregate_values (run_records run L)))) (or_zero (f (from_provider usage)))" if "f \<in> fields" for f
    using residual_sum known target that by (simp add: rest_def)
  have cost_max: "total_cost (run_records run L) + extra = max (total_cost (run_records run L)) c" if "cost = Some (Fin c)" for c
    by (simp add: that extra_def max_def)
  have e0: "0 \<le> extra" by (simp add: extra_def split: option.split pyfloat.split)
  have rest0: "0 \<le> or_zero (f rest)" if "f \<in> fields" for f
    using residual_nonneg target that by (simp add: rest_def)
  show ?thesis
  proof (cases "any_tokens rest \<or> 0 < extra")
    case True
    with rr obtain rid r where r: "ul_records L' = ul_records L @ [(rid, r)]" "ur_run_id r = run" "ur_values r = rest"
      "cost_or_zero (ur_cost_usd r) = extra" unfolding L' by auto
    have n: "run_records run L' = run_records run L @ [r]" "run' \<noteq> run \<Longrightarrow> run_records run' L' = run_records run' L" for run'
      by (auto simp: run_records_def r)
    have "or_zero (f (aggregate_values (run_records run L'))) = or_zero (f (aggregate_values (run_records run L))) + or_zero (f rest)"
      if "f \<in> fields" for f by (simp add: aggregate_sum [OF that] n r)
    then show ?thesis using tokens cost_max unfolding fields_def [symmetric] by (simp add: n r)
  next
    case False
    then have "L' = L" using rr L' by simp
    moreover have "or_zero (f rest) = 0" if "f \<in> fields" for f
      using False rest0 [OF that] that by (auto simp: any_tokens_fields)
    moreover have "extra = 0" using False e0 by auto
    ultimately show ?thesis using tokens cost_max unfolding fields_def [symmetric] by auto
  qed
qed

theorem usage_reconcile_witness:
  "or_zero (uv_input (aggregate_values (run_records ''r''
     (reconcile_run (\<lambda>_. 3) (\<lambda>_. False) ''cd'' ''r'' (Some [(''input_tokens'', PInt 10)]) None demo_done)))) = 10"
proof -
  have s: "ledger_step\<^sup>*\<^sup>* demo_open demo_done" using demo_steps by (rule rtranclp_trans)
  have k: "or_zero (uv_input (aggregate_values (run_records ''r'' demo_done))) = 7"
    "or_zero (uv_input (from_provider (Some [(''input_tokens'', PInt 10)]))) = 10" by code_simp+
  have "CHR '':'' \<notin> set ''cd''" by simp
  from usage_reconcile [OF demo_open_eq s this refl, where now' = "\<lambda>_. 3" and fails = "\<lambda>_. False" and run = "''r''"
    and usage = "Some [(''input_tokens'', PInt 10)]" and cost = None]
  show ?thesis using k by simp
qed

text \<open>
  The conversation store a ledger is bound to always shows the current totals, calls in flight
  included.
\<close>

theorem usage_projection_current:
  assumes "ledger_open now sid conv journal legacy = Inr L0" "ledger_step\<^sup>*\<^sup>* L0 L" "ul_projection L = Some n"
  shows "map_of (rev (ul_seen L)) n = Some (ledger_snapshot L)"
proof -
  have "shows_current L0" using assms(1) by (auto simp: ledger_open_def Let_def shows_current_def split: if_splits)
  with assms(2) have "shows_current L" by (induction rule: rtranclp_induct) (auto dest: step_shows)
  with assms(3) show ?thesis by (simp add: shows_current_def)
qed

section \<open>Where the totals are wrong\<close>

text \<open>
  A run streams a chunk of 100 tokens, its completion signal is missing, and the run reports 100 in
  total: reconciliation does not see the call in flight, adds another 100, and finalising the run
  then commits the call as well.
\<close>

lemma usage_double_count:
  "let t = \<lparr>ut_run_id = ''r'', ut_provider = ''p'', ut_model = ''m'', ut_category = ''agent'', ut_agent_id = [],
        ut_agent_name = [], ut_current = None, ut_awaiting = False\<rparr>;
      usage = [(''input_tokens'', PInt 100)];
      t1 = observe_chunk (\<lambda>_. 1) ''ab'' (\<lambda>_ _. None) usage (t, demo_open);
      t2 = on_run_complete (\<lambda>_. 2) (\<lambda>_. False) ''cd'' (Some usage) PNone t1;
      t3 = tracker_finalize (\<lambda>_. 3) (\<lambda>_. False) ''completed'' t2
   in us_input_tokens (completed_snapshot (snd t3)) = 200"
  by code_simp

text \<open>
  A session with rendered token events and no usage records shows them, until its first recorded
  call: the next opening finds a record in the journal and drops the rendered ones.
\<close>

lemma usage_legacy_lost:
  "let e = \<lparr>lg_event_id = PStr ''e'', lg_payload = PDict [(KStr ''input_tokens'', PInt 1000)], lg_timestamp = PInt 5\<rparr>;
      opened = (case ledger_open (\<lambda>_. 0) ''s'' None (Some []) [e] of Inr L \<Rightarrow> L);
      (call, begun) = begin_call (\<lambda>_. 1) ''ab'' ''r'' ''p'' ''m'' ''agent'' [] [] opened;
      used = complete_call (\<lambda>_. 2) (\<lambda>_. False) call (Some [(''input_tokens'', PInt 7)]) ''model_call_complete'' None None
        ''completed'' begun;
      reopened = (case ledger_open (\<lambda>_. 3) ''s'' None (ul_journal used) [e] of Inr L \<Rightarrow> L)
   in us_input_tokens (completed_snapshot used) = 1007 \<and> us_input_tokens (completed_snapshot reopened) = 7"
  by code_simp

end
