(* ===== verification/Retry.thy ===== *)
theory Retry
  imports Prelude
begin

text \<open>
  The retry policy of provider calls: the classification of an exception
  (\<open>_http_status_code\<close>, \<open>_exception_chain\<close>, \<open>_is_transient_network_error\<close>, \<open>_is_permanent_error\<close>,
  \<open>_is_irrecoverable_provider_error\<close> of \<open>src/agenthicc/runners/agent_turn.py\<close>) and the loop
  \<open>run_with_transport_retry\<close> of \<open>src/agenthicc/runners/retry.py\<close>.

  An exception is its type name, the attributes the code reads, its text and its chain; the identity
  of the object is a number. The turn is a function of the attempt and the memory it starts from; the
  clock, the jitter factors, the checkpoints and the cancellation of a pause are arguments indexed
  by the attempt. Delays are exact rationals. Observers are recorded in the log and return.
\<close>

section \<open>Exceptions\<close>

datatype exc = Exc (exc_id: int) (exc_type: string) (exc_bases: "string list") (exc_status: pyval)
  (exc_retry_after: pyval) (exc_text: string) (exc_cause: "exc option") (exc_context: "exc option")

text \<open>\<open>isinstance(code, int)\<close>, which a bool passes.\<close>

fun int_like :: "pyval \<Rightarrow> int option" where
  "int_like (PInt i) = Some i"
| "int_like (PBool b) = Some (if b then 1 else 0)"
| "int_like _ = None"

definition near :: "exc \<Rightarrow> exc list" where
  "near e = e # (case exc_cause e of None \<Rightarrow> [] | Some c \<Rightarrow> [c]) @ (case exc_context e of None \<Rightarrow> [] | Some c \<Rightarrow> [c])"

fun first_just :: "('a \<Rightarrow> 'b option) \<Rightarrow> 'a list \<Rightarrow> 'b option" where
  "first_just f [] = None"
| "first_just f (x # xs) = (case f x of None \<Rightarrow> first_just f xs | Some y \<Rightarrow> Some y)"

definition http_status_code :: "exc \<Rightarrow> int option" where
  "http_status_code e = first_just (\<lambda>c. int_like (exc_status c)) (near e)"

fun chain_size :: "exc option \<Rightarrow> nat" where
  "chain_size None = 1"
| "chain_size (Some e) = 2 * size e + 1"

lemma chain_size_parts: "chain_size (exc_cause e) + chain_size (exc_context e) < chain_size (Some e)"
proof -
  have "chain_size c < 2 * size_option size c" for c :: "exc option" by (cases c) simp_all
  from this [of "exc_cause e"] this [of "exc_context e"] show ?thesis by (cases e) simp
qed

lemma chain_size_pos: "0 < chain_size c"
  by (cases c) simp_all

text \<open>The chain breadth first, each object once, at most eight of them.\<close>

function chain_from :: "exc option list \<Rightarrow> int list \<Rightarrow> exc list \<Rightarrow> exc list" where
  "chain_from [] seen chain = chain"
| "chain_from (None # pending) seen chain =
     (if 8 \<le> length chain then chain else chain_from pending seen chain)"
| "chain_from (Some e # pending) seen chain =
     (if 8 \<le> length chain then chain
      else if exc_id e \<in> set seen then chain_from pending seen chain
      else chain_from (pending @ [exc_cause e, exc_context e]) (exc_id e # seen) (chain @ [e]))"
  by pat_completeness auto

termination
proof (relation "measure (\<lambda>(pending, seen, chain). sum_list (map chain_size pending))")
  fix e pending seen chain
  show "((pending @ [exc_cause e, exc_context e], exc_id e # seen, chain @ [e]), Some e # pending, seen, chain)
    \<in> measure (\<lambda>(pending, seen, chain). sum_list (map chain_size pending))"
    using chain_size_parts [of e] by simp
qed simp_all

definition exception_chain :: "exc \<Rightarrow> exc list" where
  "exception_chain e = chain_from [Some e] [] []"

definition strip_marks :: "string \<Rightarrow> string" where
  "strip_marks s = filter (\<lambda>c. c \<noteq> CHR ''_'' \<and> c \<noteq> CHR ''-'') s"

definition missing_opencode_session :: "exc \<Rightarrow> bool" where
  "missing_opencode_session e =
     (let raw = py_casefold (join '' '' (map (\<lambda>c. exc_type c @ '' '' @ exc_text c) (exception_chain e)));
          structured = str_in ''missingsessionid'' (strip_marks raw);
          missing_header = str_in ''x-opencode-session'' raw \<and> str_in ''missing'' raw
      in http_status_code e = Some 400 \<and> (structured \<or> missing_header))"

definition transient_names :: "string list" where
  "transient_names = [''ReadTimeout'', ''ConnectTimeout'', ''WriteTimeout'', ''PoolTimeout'', ''ConnectError'',
     ''ReadError'', ''WriteError'', ''RemoteProtocolError'', ''APITimeoutError'', ''APIConnectionError'',
     ''RateLimitError'', ''NetworkError'', ''RemoteDisconnected'']"

definition is_transient_network_error :: "exc \<Rightarrow> bool" where
  "is_transient_network_error e \<longleftrightarrow>
     ''TransientTransportError'' \<in> set (exc_bases e)
     \<or> (case http_status_code e of None \<Rightarrow> False
        | Some s \<Rightarrow> s \<in> {408, 425, 429} \<or> (500 \<le> s \<and> s < 600))
     \<or> list_ex (\<lambda>c. exc_type c \<in> set transient_names) (near e)"

definition is_permanent_error :: "exc \<Rightarrow> bool" where
  "is_permanent_error e \<longleftrightarrow>
     ''ToolConversationIntegrityError'' \<in> set (exc_bases e)
     \<or> ''AgentContextOverflowError'' \<in> set (exc_bases e)
     \<or> (case http_status_code e of None \<Rightarrow> False | Some s \<Rightarrow> 400 \<le> s \<and> s < 500 \<and> s \<noteq> 429)"

definition is_irrecoverable_provider_error :: "exc \<Rightarrow> bool" where
  "is_irrecoverable_provider_error e \<longleftrightarrow>
     (case http_status_code e of None \<Rightarrow> False
      | Some s \<Rightarrow> 400 \<le> s \<and> s < 500 \<and> s \<noteq> 429 \<and> \<not> missing_opencode_session e)"

text \<open>\<open>_retry_after_seconds\<close>: the first finite hint that is not negative.\<close>

definition retry_after_seconds :: "exc \<Rightarrow> rat option" where
  "retry_after_seconds e = first_just (\<lambda>c. case num_of (exc_retry_after c) of
     Some (Fin r) \<Rightarrow> if 0 \<le> r then Some r else None | _ \<Rightarrow> None) (near e)"

section \<open>The loop\<close>

record retry_config =
  rc_max_retries :: int
  rc_irrecoverable_max_retries :: int
  rc_base_delay_s :: rat
  rc_max_total_duration_s :: rat
  rc_jitter :: bool

text \<open>How an attempt ends; an interruption is a cancellation or a keyboard interrupt.\<close>

datatype turn_outcome = Returned | Interrupted | Raised exc

datatype error_class = Transient | Irrecoverable

record 'm retry_env =
  re_turn :: "nat \<Rightarrow> 'm \<Rightarrow> 'm \<times> turn_outcome"
  re_clock :: "nat \<Rightarrow> rat"
  re_start :: rat
  re_jitter :: "nat \<Rightarrow> rat"
  re_can_snapshot :: bool
  re_checkpoint :: "(nat \<Rightarrow> 'm \<Rightarrow> 'm option) option"
  re_deadline :: "rat option"
  re_cancelled :: "nat \<Rightarrow> bool"

text \<open>One entry for each attempt: the memory it started from, how it ended, and the retry that was
  scheduled after it (class, number, limit, delay).\<close>

record 'm attempt =
  at_memory :: 'm
  at_outcome :: turn_outcome
  at_retry :: "(error_class \<times> int \<times> int \<times> rat) option"

record 'm retry_result =
  rr_outcome :: turn_outcome
  rr_memory :: 'm
  rr_attempts :: "'m attempt list"

definition error_class_of :: "exc \<Rightarrow> error_class option" where
  "error_class_of e = (if is_transient_network_error e then Some Transient
     else if is_irrecoverable_provider_error e then Some Irrecoverable else None)"

definition min_exec_window :: rat where
  "min_exec_window = 2"

text \<open>The delay before retry \<open>n\<close>: doubled each time, never below the provider's hint.\<close>

definition retry_delay :: "retry_config \<Rightarrow> rat \<Rightarrow> int \<Rightarrow> exc \<Rightarrow> rat" where
  "retry_delay cfg factor n e =
     (let hint = retry_after_seconds e;
          backoff = rc_base_delay_s cfg * 2 ^ nat (n - 1);
          delay = (case hint of None \<Rightarrow> backoff | Some h \<Rightarrow> max backoff h)
      in if rc_jitter cfg \<and> 0 < delay then max (case hint of None \<Rightarrow> 0 | Some h \<Rightarrow> h) (delay * factor) else delay)"

definition too_late :: "retry_config \<Rightarrow> rat \<Rightarrow> rat option \<Rightarrow> rat \<Rightarrow> rat \<Rightarrow> bool" where
  "too_late cfg start deadline now delay \<longleftrightarrow>
     (0 < rc_max_total_duration_s cfg \<and> rc_max_total_duration_s cfg < (now - start) + delay)
     \<or> (case deadline of None \<Rightarrow> False | Some d \<Rightarrow> d \<le> now + delay + min_exec_window)"

text \<open>The memory a failed attempt is rolled back to.\<close>

definition rolled_back :: "'m retry_env \<Rightarrow> nat \<Rightarrow> 'm \<Rightarrow> 'm \<Rightarrow> 'm" where
  "rolled_back env k before after =
     (case re_checkpoint env of
        None \<Rightarrow> if re_can_snapshot env then before else after
      | Some checkpoint \<Rightarrow> (case checkpoint k after of None \<Rightarrow> after | Some m \<Rightarrow> m))"

function retry_loop :: "retry_config \<Rightarrow> 'm retry_env \<Rightarrow> int \<Rightarrow> int \<Rightarrow> nat \<Rightarrow> 'm \<Rightarrow> 'm attempt list \<Rightarrow> 'm retry_result" where
  "retry_loop cfg env transient_retries irrecoverable_retries k memory tried =
     (case re_turn env k memory of (after, outcome) \<Rightarrow>
      let entry = \<lparr>at_memory = memory, at_outcome = outcome, at_retry = None\<rparr>;
          stop = (\<lambda>m out e. \<lparr>rr_outcome = out, rr_memory = m, rr_attempts = tried @ [e]\<rparr>)
      in case outcome of
           Returned \<Rightarrow> stop after Returned entry
         | Interrupted \<Rightarrow> stop after Interrupted entry
         | Raised e \<Rightarrow>
             (case error_class_of e of
                None \<Rightarrow> stop after outcome entry
              | Some cls \<Rightarrow>
                  let t = (if cls = Transient then transient_retries + 1 else transient_retries);
                      i = (if cls = Irrecoverable then irrecoverable_retries + 1 else irrecoverable_retries);
                      n = (if cls = Transient then t else i);
                      limit = (if cls = Transient then rc_max_retries cfg else rc_irrecoverable_max_retries cfg)
                  in if limit < n then stop after outcome entry
                     else let restored = rolled_back env k memory after;
                              delay = retry_delay cfg (re_jitter env k) n e
                          in if too_late cfg (re_start env) (re_deadline env) (re_clock env k) delay
                             then stop restored outcome entry
                             else let scheduled = entry\<lparr>at_retry := Some (cls, n, limit, delay)\<rparr>
                                  in if re_cancelled env k then stop restored Interrupted scheduled
                                     else retry_loop cfg env t i (Suc k) restored (tried @ [scheduled])))"
  by pat_completeness auto

termination
  by (relation "measure (\<lambda>(cfg, env, t, i, _). nat (rc_max_retries cfg - t) + nat (rc_irrecoverable_max_retries cfg - i))")
    (auto split: if_splits, metis error_class.exhaust)

declare retry_loop.simps [simp del] chain_from.simps [simp del]

definition run_with_transport_retry :: "retry_config \<Rightarrow> 'm retry_env \<Rightarrow> 'm \<Rightarrow> 'm retry_result" where
  "run_with_transport_retry cfg env memory = retry_loop cfg env 0 0 0 memory []"

end
