(* ===== verification/Retry_Properties.thy ===== *)
theory Retry_Properties
  imports Retry
begin

text \<open>
  The retry loop ends within its two budgets, replays every attempt on the history it started from,
  and schedules a retry only for an error of a retried class, not before the provider allows it and
  not when it could not finish in time.
\<close>

text \<open>What the entry of attempt \<open>k\<close> may record.\<close>

definition scheduled_ok :: "retry_config \<Rightarrow> 'm retry_env \<Rightarrow> nat \<Rightarrow> 'm attempt \<Rightarrow> bool" where
  "scheduled_ok cfg env k a \<longleftrightarrow> (\<forall>cls n limit d. at_retry a = Some (cls, n, limit, d) \<longrightarrow>
     (\<exists>e. at_outcome a = Raised e \<and> error_class_of e = Some cls
        \<and> limit = (if cls = Transient then rc_max_retries cfg else rc_irrecoverable_max_retries cfg) \<and> n \<le> limit
        \<and> d = retry_delay cfg (re_jitter env k) n e
        \<and> \<not> too_late cfg (re_start env) (re_deadline env) (re_clock env k) d))"

text \<open>One turn of the loop: it stops, or it goes on with less budget and a rolled back memory.\<close>

lemma retry_loop_step:
  obtains (stop) m out a where "retry_loop cfg env t i k memory tried = \<lparr>rr_outcome = out, rr_memory = m, rr_attempts = tried @ [a]\<rparr>"
      "at_memory a = memory" "scheduled_ok cfg env k a" "out = at_outcome a \<or> at_retry a \<noteq> None \<and> out = Interrupted"
  | (again) e cls t' i' after restored a where
      "retry_loop cfg env t i k memory tried = retry_loop cfg env t' i' (Suc k) restored (tried @ [a])"
      "at_memory a = memory" "at_outcome a = Raised e" "at_retry a \<noteq> None" "scheduled_ok cfg env k a"
      "restored = rolled_back env k memory after"
      "cls = Transient \<and> t' = t + 1 \<and> i' = i \<and> t' \<le> rc_max_retries cfg
       \<or> cls = Irrecoverable \<and> t' = t \<and> i' = i + 1 \<and> i' \<le> rc_irrecoverable_max_retries cfg"
proof -
  obtain after outcome where o: "re_turn env k memory = (after, outcome)" by fastforce
  let ?e = "\<lparr>at_memory = memory, at_outcome = outcome, at_retry = None\<rparr>"
  have none: "scheduled_ok cfg env k ?e" by (simp add: scheduled_ok_def)
  show thesis
  proof (cases outcome)
    case (Raised e)
    show thesis
    proof (cases "error_class_of e")
      case (Some cls)
      define t' where "t' = (if cls = Transient then t + 1 else t)"
      define i' where "i' = (if cls = Irrecoverable then i + 1 else i)"
      define n where "n = (if cls = Transient then t' else i')"
      define limit where "limit = (if cls = Transient then rc_max_retries cfg else rc_irrecoverable_max_retries cfg)"
      define d where "d = retry_delay cfg (re_jitter env k) n e"
      define restored where "restored = rolled_back env k memory after"
      let ?s = "?e\<lparr>at_retry := Some (cls, n, limit, d)\<rparr>"
      have eq: "retry_loop cfg env t i k memory tried =
        (if limit < n then \<lparr>rr_outcome = outcome, rr_memory = after, rr_attempts = tried @ [?e]\<rparr>
         else if too_late cfg (re_start env) (re_deadline env) (re_clock env k) d
         then \<lparr>rr_outcome = outcome, rr_memory = restored, rr_attempts = tried @ [?e]\<rparr>
         else if re_cancelled env k then \<lparr>rr_outcome = Interrupted, rr_memory = restored, rr_attempts = tried @ [?s]\<rparr>
         else retry_loop cfg env t' i' (Suc k) restored (tried @ [?s]))"
        by (subst retry_loop.simps)
          (simp add: o Raised Some Let_def t'_def i'_def n_def limit_def d_def restored_def)
      consider "limit < n" | "\<not> limit < n" "too_late cfg (re_start env) (re_deadline env) (re_clock env k) d"
        | "\<not> limit < n" "\<not> too_late cfg (re_start env) (re_deadline env) (re_clock env k) d" by blast
      then show thesis
      proof cases
        case 3
        then have s: "scheduled_ok cfg env k ?s" using Some by (simp add: scheduled_ok_def Raised limit_def d_def)
        then have s': "scheduled_ok cfg env k \<lparr>at_memory = memory, at_outcome = Raised e, at_retry = Some (cls, n, limit, d)\<rparr>"
          by (simp add: Raised)
        show thesis
        proof (cases "re_cancelled env k")
          case True
          with 3 s' show thesis by (intro stop [of Interrupted restored ?s]) (simp_all add: eq Raised)
        next
          case False
          have "cls = Transient \<and> t' = t + 1 \<and> i' = i \<and> t' \<le> rc_max_retries cfg
            \<or> cls = Irrecoverable \<and> t' = t \<and> i' = i + 1 \<and> i' \<le> rc_irrecoverable_max_retries cfg"
            using 3(1) by (cases cls) (auto simp: t'_def i'_def n_def limit_def)
          with 3 s' False show thesis
            by (intro again [of t' i' restored ?s e after cls]) (simp_all add: eq Raised restored_def)
        qed
      qed (use eq none in \<open>auto intro: stop\<close>)
    qed (use none in \<open>auto intro!: stop simp: retry_loop.simps [of cfg env t i k memory tried] o Raised Let_def\<close>)
  qed (use none in \<open>auto intro!: stop simp: retry_loop.simps [of cfg env t i k memory tried] o Let_def\<close>)
qed

text \<open>The attempts a run adds, as they are numbered from \<open>k\<close>.\<close>

lemma retry_loop_attempts:
  "\<exists>new. rr_attempts (retry_loop cfg env t i k memory tried) = tried @ new \<and> new \<noteq> []
     \<and> length new \<le> 1 + nat (rc_max_retries cfg - t) + nat (rc_irrecoverable_max_retries cfg - i)
     \<and> at_memory (hd new) = memory
     \<and> (\<forall>j < length new. scheduled_ok cfg env (k + j) (new ! j))
     \<and> (\<forall>a \<in> set (butlast new). at_retry a \<noteq> None)
     \<and> (rr_outcome (retry_loop cfg env t i k memory tried) = Returned \<longrightarrow> at_outcome (last new) = Returned)"
proof (induction "nat (rc_max_retries cfg - t) + nat (rc_irrecoverable_max_retries cfg - i)" arbitrary: t i k memory tried
    rule: less_induct)
  case less
  show ?case
  proof (cases rule: retry_loop_step [of cfg env t i k memory tried])
    case (stop m out a)
    then have "out = Returned \<longrightarrow> at_outcome a = Returned" by auto
    with stop show ?thesis by (intro exI [of _ "[a]"]) simp
  next
    case (again e cls t' i' after restored a)
    have "nat (rc_max_retries cfg - t') + nat (rc_irrecoverable_max_retries cfg - i') <
        nat (rc_max_retries cfg - t) + nat (rc_irrecoverable_max_retries cfg - i)" using again(7) by auto
    from less [OF this, of "Suc k" restored "tried @ [a]"] obtain new where new:
      "rr_attempts (retry_loop cfg env t' i' (Suc k) restored (tried @ [a])) = (tried @ [a]) @ new" "new \<noteq> []"
      "length new \<le> 1 + nat (rc_max_retries cfg - t') + nat (rc_irrecoverable_max_retries cfg - i')"
      "\<forall>j < length new. scheduled_ok cfg env (Suc k + j) (new ! j)" "\<forall>b \<in> set (butlast new). at_retry b \<noteq> None"
      "rr_outcome (retry_loop cfg env t' i' (Suc k) restored (tried @ [a])) = Returned \<longrightarrow> at_outcome (last new) = Returned"
      by blast
    have "length (a # new) \<le> 1 + nat (rc_max_retries cfg - t) + nat (rc_irrecoverable_max_retries cfg - i)"
      using new(3) again(7) by auto
    moreover have "\<forall>j < length (a # new). scheduled_ok cfg env (k + j) ((a # new) ! j)"
      using new(4) again(5) by (auto simp: less_Suc_eq_0_disj)
    ultimately show ?thesis using new again by (intro exI [of _ "a # new"]) auto
  qed
qed

lemma retry_loop_memory:
  assumes "re_checkpoint env = None" "re_can_snapshot env"
  shows "\<exists>new. rr_attempts (retry_loop cfg env t i k memory tried) = tried @ new \<and> (\<forall>a \<in> set new. at_memory a = memory)"
proof (induction "nat (rc_max_retries cfg - t) + nat (rc_irrecoverable_max_retries cfg - i)" arbitrary: t i k tried
    rule: less_induct)
  case less
  show ?case
  proof (cases rule: retry_loop_step [of cfg env t i k memory tried])
    case (stop m out a)
    then show ?thesis by (intro exI [of _ "[a]"]) simp
  next
    case (again e cls t' i' after restored a)
    have "nat (rc_max_retries cfg - t') + nat (rc_irrecoverable_max_retries cfg - i') <
        nat (rc_max_retries cfg - t) + nat (rc_irrecoverable_max_retries cfg - i)" using again(7) by auto
    moreover have "restored = memory" using again(6) assms by (simp add: rolled_back_def)
    ultimately obtain new where "rr_attempts (retry_loop cfg env t' i' (Suc k) restored (tried @ [a])) = (tried @ [a]) @ new"
      "\<forall>a \<in> set new. at_memory a = memory" using less by blast
    with again show ?thesis by (intro exI [of _ "a # new"]) simp
  qed
qed

lemma retry_delay_hint: "retry_after_seconds e = Some h \<Longrightarrow> h \<le> retry_delay cfg f n e"
  by (simp add: retry_delay_def Let_def)

text \<open>
  C34. The retry loop ends within its budgets, for every behaviour of the turn: it makes at most one
  attempt more than the two budgets together, every attempt but the last raised a retried error and
  scheduled the next one, it returns only when its last attempt returned, and a retry is scheduled
  only for a transient error or a permanent provider error, within the limit of its class, not
  before the provider's hint has passed, and not when it would overrun the total duration or start
  within two seconds of the deadline.
\<close>

theorem retry_terminates:
  fixes cfg :: retry_config and env :: "'m retry_env" and memory :: 'm
  defines "r \<equiv> run_with_transport_retry cfg env memory"
  shows "rr_attempts r \<noteq> [] \<and> length (rr_attempts r) \<le> 1 + nat (rc_max_retries cfg) + nat (rc_irrecoverable_max_retries cfg)
    \<and> (\<forall>a \<in> set (butlast (rr_attempts r)). at_retry a \<noteq> None)
    \<and> (rr_outcome r = Returned \<longrightarrow> at_outcome (last (rr_attempts r)) = Returned)
    \<and> (\<forall>k cls n limit d. k < length (rr_attempts r) \<and> at_retry (rr_attempts r ! k) = Some (cls, n, limit, d) \<longrightarrow>
        (\<exists>e. at_outcome (rr_attempts r ! k) = Raised e
          \<and> (if cls = Transient then is_transient_network_error e \<and> n \<le> rc_max_retries cfg
             else is_irrecoverable_provider_error e \<and> n \<le> rc_irrecoverable_max_retries cfg)
          \<and> (\<forall>h. retry_after_seconds e = Some h \<longrightarrow> h \<le> d)
          \<and> (0 < rc_max_total_duration_s cfg \<longrightarrow> re_clock env k - re_start env + d \<le> rc_max_total_duration_s cfg)
          \<and> (\<forall>deadline. re_deadline env = Some deadline \<longrightarrow> re_clock env k + d + 2 < deadline)))"
proof -
  obtain new where new: "rr_attempts r = new" "new \<noteq> []"
    "length new \<le> 1 + nat (rc_max_retries cfg) + nat (rc_irrecoverable_max_retries cfg)"
    "\<forall>j < length new. scheduled_ok cfg env j (new ! j)" "\<forall>a \<in> set (butlast new). at_retry a \<noteq> None"
    "rr_outcome r = Returned \<longrightarrow> at_outcome (last new) = Returned"
    using retry_loop_attempts [of cfg env 0 0 0 memory "[]"] unfolding r_def run_with_transport_retry_def by auto
  have cls: "is_transient_network_error e" if "error_class_of e = Some Transient" for e
    using that by (auto simp: error_class_of_def split: if_splits)
  have irr: "is_irrecoverable_provider_error e" if "error_class_of e = Some c" "c \<noteq> Transient" for e c
    using that by (auto simp: error_class_of_def split: if_splits)
  have "\<exists>e. at_outcome (new ! k) = Raised e
        \<and> (if cls = Transient then is_transient_network_error e \<and> n \<le> rc_max_retries cfg
           else is_irrecoverable_provider_error e \<and> n \<le> rc_irrecoverable_max_retries cfg)
        \<and> (\<forall>h. retry_after_seconds e = Some h \<longrightarrow> h \<le> d)
        \<and> (0 < rc_max_total_duration_s cfg \<longrightarrow> re_clock env k - re_start env + d \<le> rc_max_total_duration_s cfg)
        \<and> (\<forall>deadline. re_deadline env = Some deadline \<longrightarrow> re_clock env k + d + 2 < deadline)"
    if k: "k < length new" "at_retry (new ! k) = Some (cls, n, limit, d)" for k cls n limit d
  proof -
    from new(4) k obtain e where e: "at_outcome (new ! k) = Raised e" "error_class_of e = Some cls"
      "limit = (if cls = Transient then rc_max_retries cfg else rc_irrecoverable_max_retries cfg)" "n \<le> limit"
      "d = retry_delay cfg (re_jitter env k) n e"
      "\<not> too_late cfg (re_start env) (re_deadline env) (re_clock env k) d"
      unfolding scheduled_ok_def by metis
    then show ?thesis using cls irr retry_delay_hint
      by (intro exI [of _ e]) (auto simp: too_late_def min_exec_window_def not_le)
  qed
  with new show ?thesis by simp
qed

text \<open>
  Without checkpoints, every attempt sees the history the call started from, whatever the failed
  attempts before it wrote to the memory.
\<close>

theorem retry_clean_history:
  assumes "re_checkpoint env = None" "re_can_snapshot env" "a \<in> set (rr_attempts (run_with_transport_retry cfg env memory))"
  shows "at_memory a = memory"
  using retry_loop_memory [OF assms(1,2), of cfg 0 0 0 memory "[]"] assms(3) by (auto simp: run_with_transport_retry_def)

section \<open>A run\<close>

text \<open>Two rate-limited attempts that each append to the memory, the second with a hint, then success.\<close>

definition demo_retry_error :: "pyval \<Rightarrow> exc" where
  "demo_retry_error hint = Exc 1 ''TransportError'' [''Exception''] (PInt 429) hint ''slow down'' None None"

definition demo_retry_env :: "string retry_env" where
  "demo_retry_env = \<lparr>re_turn = (\<lambda>k m. (m @ ''x'', if k = 0 then Raised (demo_retry_error PNone)
       else if k = 1 then Raised (demo_retry_error (PInt 30)) else Returned)),
     re_clock = (\<lambda>k. rat_of_nat k), re_start = 0, re_jitter = (\<lambda>_. 1), re_can_snapshot = True, re_checkpoint = None,
     re_deadline = None, re_cancelled = (\<lambda>_. False)\<rparr>"

definition demo_retry_config :: retry_config where
  "demo_retry_config = \<lparr>rc_max_retries = 3, rc_irrecoverable_max_retries = 0, rc_base_delay_s = 1, rc_max_total_duration_s = 0,
     rc_jitter = True\<rparr>"

lemma demo_class: "error_class_of (demo_retry_error h) = Some Transient" "http_status_code (demo_retry_error h) = Some 429"
  by (simp_all add: error_class_of_def is_transient_network_error_def demo_retry_error_def http_status_code_def near_def)

lemma demo_retry_run:
  "rr_attempts (run_with_transport_retry demo_retry_config demo_retry_env ''h'') =
    [\<lparr>at_memory = ''h'', at_outcome = Raised (demo_retry_error PNone), at_retry = Some (Transient, 1, 3, 1)\<rparr>,
     \<lparr>at_memory = ''h'', at_outcome = Raised (demo_retry_error (PInt 30)), at_retry = Some (Transient, 2, 3, 30)\<rparr>,
     \<lparr>at_memory = ''h'', at_outcome = Returned, at_retry = None\<rparr>]"
proof -
  have d: "retry_after_seconds (demo_retry_error PNone) = None" "retry_after_seconds (demo_retry_error (PInt 30)) = Some 30"
    by (simp_all add: retry_after_seconds_def demo_retry_error_def near_def)
  show ?thesis
    unfolding run_with_transport_retry_def
    by (simp add: retry_loop.simps demo_retry_env_def demo_retry_config_def demo_class Let_def retry_delay_def d too_late_def rolled_back_def)
qed

theorem retry_terminates_witness:
  "length (rr_attempts (run_with_transport_retry demo_retry_config demo_retry_env ''h'')) = 3
   \<and> 3 \<le> 1 + nat (rc_max_retries demo_retry_config) + nat (rc_irrecoverable_max_retries demo_retry_config)
   \<and> (\<exists>e. at_outcome (rr_attempts (run_with_transport_retry demo_retry_config demo_retry_env ''h'') ! 1) = Raised e
       \<and> retry_after_seconds e = Some 30)"
proof -
  have "length (rr_attempts (run_with_transport_retry demo_retry_config demo_retry_env ''h'')) = 3" by (simp add: demo_retry_run)
  moreover have "at_outcome (rr_attempts (run_with_transport_retry demo_retry_config demo_retry_env ''h'') ! 1) = Raised (demo_retry_error (PInt 30))"
    by (simp add: demo_retry_run)
  moreover have "retry_after_seconds (demo_retry_error (PInt 30)) = Some 30"
    by (simp add: retry_after_seconds_def demo_retry_error_def near_def)
  ultimately show ?thesis using retry_terminates [of demo_retry_config demo_retry_env "''h''"] by auto
qed

theorem retry_clean_history_witness:
  "at_memory (rr_attempts (run_with_transport_retry demo_retry_config demo_retry_env ''h'') ! 2) = ''h''"
  by (rule retry_clean_history [of demo_retry_env _ demo_retry_config])
    (simp_all add: demo_retry_env_def, simp add: demo_retry_run [unfolded demo_retry_env_def])

end
