(* ===== verification/Approval.thy ===== *)
theory Approval
  imports Modes
begin

text \<open>
  The approval service of a session and the gate that uses it (\<open>src/agenthicc/tools/approval.py\<close>):
  requests are answered at once from remembered grants, or wait for the lock of the service, are
  shown to the user, and end with the user's response, a timeout (questions only), a cancellation or
  a failure.

  The coroutines of the code are the steps of the model: \<open>submit\<close> is the part of
  \<open>request_approval\<close> before the lock, \<open>acquire\<close> the part from the lock to the wait, \<open>wake\<close> and
  \<open>time_out\<close> the part after it, \<open>cancel_active\<close> and \<open>fail_active\<close> the two except clauses; \<open>respond\<close>
  is called by the overlay between them. Waiters take the lock in their order of arrival. A request
  object has an identity, a number. The clock and the random identifier are arguments of a step.
  \<open>user_answers\<close> and \<open>results\<close> are history: the responses the service accepted for a request, and
  what each call of \<open>request_approval\<close> returned.
\<close>

section \<open>Requests and responses\<close>

record approval_request =
  rq_identity :: nat
  rq_tool_name :: string
  rq_tool_use_id :: string
  rq_tool_input :: payload
  rq_capabilities :: "string set"
  rq_kind :: string
  rq_workspace_access :: "(string \<times> string) list"
  rq_request_id :: string
  rq_timeout_s :: "pyfloat option"
  rq_deadline_at :: "pyfloat option"
  rq_fingerprint :: "string option"

record approval_response =
  rs_allowed :: bool
  rs_remember :: bool
  rs_remember_all :: bool
  rs_message :: string
  rs_mode :: "string option"
  rs_scope_grant :: "string option"
  rs_outcome :: string
  rs_timed_out :: bool
  rs_decision_required :: bool
  rs_request_id :: "string option"
  rs_timeout_s :: "pyfloat option"
  rs_repeated_timeout :: bool

definition plain_response :: "bool \<Rightarrow> approval_response" where
  "plain_response allowed = \<lparr>rs_allowed = allowed, rs_remember = False, rs_remember_all = False, rs_message = [],
     rs_mode = None, rs_scope_grant = None, rs_outcome = [], rs_timed_out = False, rs_decision_required = False,
     rs_request_id = None, rs_timeout_s = None, rs_repeated_timeout = False\<rparr>"

section \<open>The service\<close>

text \<open>The active request comes with the identifier its response is looked up under.\<close>

record approval_service =
  sv_question_timeout_s :: pyfloat
  sv_rehydrated :: "payload pydict"
  sv_response :: "approval_response option"
  sv_responses :: "approval_response pydict"
  sv_active :: "(approval_request \<times> string) option"
  sv_pending :: "approval_request option"
  sv_event_set :: bool
  sv_timed_out :: "string set"
  sv_remembered_turn :: "string set"
  sv_remembered_all :: "string set"
  sv_scope_turn :: "(string \<times> string) set"
  sv_scope_session :: "(string \<times> string) set"
  sv_waiting :: "approval_request list"
  sv_events :: "(string \<times> payload) list"
  sv_user_answers :: "(approval_request \<times> approval_response) list"
  sv_results :: "(approval_request \<times> approval_response) list"

definition valid_question_timeout :: "pyval \<Rightarrow> pyfloat option" where
  "valid_question_timeout v = (case num_of v of Some (Fin r) \<Rightarrow> if 0 < r then Some (Fin r) else None | _ \<Rightarrow> None)"

definition service_init :: "pyval \<Rightarrow> payload pydict \<Rightarrow> string + approval_service" where
  "service_init timeout waits =
     (case valid_question_timeout timeout of
        None \<Rightarrow> Inl ''tools.question_timeout_s must be a finite number greater than zero''
      | Some t \<Rightarrow> Inr \<lparr>sv_question_timeout_s = t, sv_rehydrated = waits, sv_response = None, sv_responses = [],
          sv_active = None, sv_pending = None, sv_event_set = False, sv_timed_out = {}, sv_remembered_turn = {},
          sv_remembered_all = {}, sv_scope_turn = {}, sv_scope_session = {}, sv_waiting = [], sv_events = [],
          sv_user_answers = [], sv_results = []\<rparr>)"

text \<open>\<open>isinstance(value, (int, float))\<close>, which a bool passes.\<close>

fun number_like :: "pyval \<Rightarrow> pyfloat option" where
  "number_like (PBool b) = Some (Fin (if b then 1 else 0))"
| "number_like v = num_of v"

definition nonempty :: "string option \<Rightarrow> string option" where
  "nonempty s = (case s of None \<Rightarrow> None | Some x \<Rightarrow> if x = [] then None else Some x)"

definition timeout_response :: "string \<Rightarrow> pyfloat \<Rightarrow> bool \<Rightarrow> approval_response" where
  "timeout_response request_id timeout_s repeated =
     (plain_response False)\<lparr>rs_message := ''The user did not answer before the configured deadline. ''
        @ ''Choose the safest reasonable option from the available context, ''
        @ ''state the assumption, and do not ask the same question again ''
        @ ''solely because it timed out.'',
      rs_outcome := ''timed_out'', rs_timed_out := True, rs_decision_required := True, rs_request_id := Some request_id,
      rs_timeout_s := Some timeout_s, rs_repeated_timeout := repeated\<rparr>"

definition request_key :: "approval_request \<Rightarrow> string" where
  "request_key req = (if rq_request_id req \<noteq> [] then rq_request_id req else rq_tool_use_id req)"

definition question_count :: "approval_request \<Rightarrow> int" where
  "question_count req = (case pget (rq_tool_input req) ''questions'' of
     PList xs \<Rightarrow> min (int (length xs)) 32 | _ \<Rightarrow> 0)"

definition emit_question_event :: "string \<Rightarrow> approval_request \<Rightarrow> approval_response option \<Rightarrow> approval_service \<Rightarrow> approval_service" where
  "emit_question_event kind req response sv =
     sv\<lparr>sv_events := sv_events sv @ [(kind,
       [(''request_id'', PStr (request_key req)),
        (''outcome'', PStr (case response of None \<Rightarrow> ''pending'' | Some r \<Rightarrow> rs_outcome r)),
        (''timeout_s'', of_opt_float (rq_timeout_s req)), (''deadline_at'', of_opt_float (rq_deadline_at req)),
        (''question_count'', PInt (question_count req)),
        (''question_fingerprint'', PStr (case rq_fingerprint req of None \<Rightarrow> [] | Some f \<Rightarrow> f))]
       @ (case response of None \<Rightarrow> []
          | Some r \<Rightarrow> [(''timed_out'', PBool (rs_timed_out r)), (''decision_required'', PBool (rs_decision_required r)),
                      (''repeated_timeout'', PBool (rs_repeated_timeout r))]))]\<rparr>"

definition returns :: "approval_request \<Rightarrow> approval_response \<Rightarrow> approval_service \<Rightarrow> approval_service" where
  "returns req response sv = sv\<lparr>sv_results := sv_results sv @ [(req, response)]\<rparr>"

text \<open>The remembered grants; a request without capabilities is never covered by them.\<close>

definition remembered_response :: "approval_request \<Rightarrow> approval_service \<Rightarrow> approval_response option" where
  "remembered_response req sv =
     (let caps = rq_capabilities req; access = set (rq_workspace_access req) in
      if access = {} \<and> caps \<noteq> {} \<and> caps \<subseteq> sv_remembered_all sv then Some (plain_response True)
      else if access = {} \<and> caps \<noteq> {} \<and> caps \<subseteq> sv_remembered_turn sv then Some (plain_response True)
      else if access \<noteq> {} \<and> (access \<subseteq> sv_scope_session sv \<or> access \<subseteq> sv_scope_turn sv)
      then Some ((plain_response True)\<lparr>rs_scope_grant := Some ''target_once''\<rparr>)
      else None)"

definition submit :: "approval_request \<Rightarrow> approval_service \<Rightarrow> approval_service" where
  "submit req sv =
     (case remembered_response req sv of
        Some response \<Rightarrow> returns req response sv
      | None \<Rightarrow> sv\<lparr>sv_waiting := sv_waiting sv @ [req]\<rparr>)"

text \<open>
  What a restart left of a question: its deadline, timeout and identifier. \<open>show\<close> is \<open>str\<close> on a
  stored identifier that is not text.
\<close>

record resumed_wait =
  rw_deadline :: "pyfloat option"
  rw_timeout :: "pyfloat option"
  rw_request_id :: "string option"

definition resumed_wait :: "(pyval \<Rightarrow> string) \<Rightarrow> approval_request \<Rightarrow> approval_service \<Rightarrow> resumed_wait" where
  "resumed_wait show req sv =
     (case (if rq_kind req = ''questions'' then Option.bind (nonempty (rq_fingerprint req)) (dget (sv_rehydrated sv)) else None) of
        None \<Rightarrow> \<lparr>rw_deadline = None, rw_timeout = None, rw_request_id = None\<rparr>
      | Some d \<Rightarrow> \<lparr>rw_deadline = number_like (pget d ''deadline_at''), rw_timeout = num_of (pget d ''timeout_s''),
          rw_request_id = (case pget d ''request_id'' of
             PNone \<Rightarrow> None | PBool b \<Rightarrow> if b then Some (show (PBool b)) else None
           | PInt i \<Rightarrow> if i \<noteq> 0 then Some (show (PInt i)) else None
           | PFloat f \<Rightarrow> if f \<noteq> Fin 0 then Some (show (PFloat f)) else None
           | PStr s \<Rightarrow> if s \<noteq> [] then Some s else None
           | PList xs \<Rightarrow> if xs \<noteq> [] then Some (show (PList xs)) else None
           | PTuple xs \<Rightarrow> if xs \<noteq> [] then Some (show (PTuple xs)) else None
           | PSet xs \<Rightarrow> if xs \<noteq> [] then Some (show (PSet xs)) else None
           | PDict xs \<Rightarrow> if xs \<noteq> [] then Some (show (PDict xs)) else None)\<rparr>)"

definition forget_resumed :: "approval_request \<Rightarrow> approval_service \<Rightarrow> approval_service" where
  "forget_resumed req sv =
     (case (if rq_kind req = ''questions'' then nonempty (rq_fingerprint req) else None) of
        None \<Rightarrow> sv | Some f \<Rightarrow> sv\<lparr>sv_rehydrated := dpop f (sv_rehydrated sv)\<rparr>)"

definition add_fingerprint :: "approval_request \<Rightarrow> approval_service \<Rightarrow> approval_service" where
  "add_fingerprint req sv =
     (case nonempty (rq_fingerprint req) of None \<Rightarrow> sv | Some f \<Rightarrow> sv\<lparr>sv_timed_out := insert f (sv_timed_out sv)\<rparr>)"

definition timed_out_before :: "approval_request \<Rightarrow> approval_service \<Rightarrow> bool" where
  "timed_out_before req sv \<longleftrightarrow> rq_kind req = ''questions''
     \<and> (case rq_fingerprint req of None \<Rightarrow> False | Some f \<Rightarrow> f \<in> sv_timed_out sv)"

text \<open>From the lock to the wait: a question that has timed out already returns, any other request
  becomes the active and pending one.\<close>

definition start_request :: "(pyval \<Rightarrow> string) \<Rightarrow> pyfloat \<Rightarrow> string \<Rightarrow> approval_request \<Rightarrow> approval_service \<Rightarrow> approval_service" where
  "start_request show now uuid req sv0 =
     (let question = (rq_kind req = ''questions''); w = resumed_wait show req sv0; sv = forget_resumed req sv0;
          timeout = (case rw_timeout w of None \<Rightarrow> sv_question_timeout_s sv | Some t \<Rightarrow> t);
          rid = (case rw_request_id w of Some r \<Rightarrow> r | None \<Rightarrow> if request_key req \<noteq> [] then request_key req else uuid);
          req1 = (if question then req\<lparr>rq_request_id := rid, rq_timeout_s := Some timeout,
                    rq_deadline_at := Some (case rw_deadline w of Some d \<Rightarrow> d | None \<Rightarrow> f_add now timeout)\<rparr> else req)
      in if timed_out_before req1 sv
         then let r = timeout_response rid (sv_question_timeout_s sv) True
              in returns req1 r (emit_question_event ''question_timed_out'' req1 (Some r) sv)
         else let remaining = map_option (\<lambda>d. f_sub d now) (rw_deadline w) in
           if (case remaining of None \<Rightarrow> False | Some x \<Rightarrow> f_le x (Fin 0))
           then let r = timeout_response rid timeout True
                in returns req1 r (emit_question_event ''question_timed_out'' req1 (Some r) (add_fingerprint req1 sv))
           else let effective = (case remaining of None \<Rightarrow> sv_question_timeout_s sv | Some x \<Rightarrow> x);
                    req2 = (if question then req1\<lparr>rq_timeout_s := Some effective,
                      rq_deadline_at := Some (case rw_deadline w of Some d \<Rightarrow> d | None \<Rightarrow> f_add now effective)\<rparr> else req1);
                    sv1 = sv\<lparr>sv_active := Some (req2, rid), sv_response := None, sv_responses := dpop rid (sv_responses sv),
                      sv_pending := Some req2, sv_event_set := False\<rparr>
                in if question then emit_question_event ''question_wait_started'' req2 None sv1 else sv1)"

definition acquire :: "(pyval \<Rightarrow> string) \<Rightarrow> pyfloat \<Rightarrow> string \<Rightarrow> approval_service \<Rightarrow> approval_service" where
  "acquire show now uuid sv =
     (case (sv_active sv, sv_waiting sv) of
        (None, req # rest) \<Rightarrow> start_request show now uuid req (sv\<lparr>sv_waiting := rest\<rparr>)
      | _ \<Rightarrow> sv)"

text \<open>\<open>respond\<close>, with or without the identifier of the request it answers.\<close>

definition respond :: "approval_response \<Rightarrow> approval_service \<Rightarrow> bool \<times> approval_service" where
  "respond response sv =
     (case sv_pending sv of
        None \<Rightarrow> (False, sv\<lparr>sv_response := Some response\<rparr>)
      | Some pending \<Rightarrow>
          if rs_request_id response \<noteq> None \<and> rs_request_id response \<noteq> Some (request_key pending) then (False, sv)
          else let sv1 = sv\<lparr>sv_response := Some response, sv_responses := dset (request_key pending) response (sv_responses sv),
                    sv_user_answers := sv_user_answers sv @ [(pending, response)]\<rparr>
               in if map_option (rq_identity \<circ> fst) (sv_active sv) = Some (rq_identity pending)
                  then (True, sv1\<lparr>sv_event_set := True\<rparr>) else (False, sv1))"

definition take_response :: "string \<Rightarrow> approval_service \<Rightarrow> approval_response option \<times> approval_service" where
  "take_response rid sv = (dget (sv_responses sv) rid, sv\<lparr>sv_responses := dpop rid (sv_responses sv)\<rparr>)"

definition normalise_response :: "approval_response \<Rightarrow> approval_request \<Rightarrow> approval_response" where
  "normalise_response r req =
     (if rq_kind req \<noteq> ''questions'' then r
      else r\<lparr>rs_outcome := (if rs_outcome r \<noteq> [] then rs_outcome r else if rs_allowed r then ''answered'' else ''cancelled''),
             rs_request_id := Some (case nonempty (rs_request_id r) of Some x \<Rightarrow> x | None \<Rightarrow> rq_request_id req),
             rs_timeout_s := (case rs_timeout_s r of Some t \<Rightarrow> if t = Fin 0 then rq_timeout_s req else Some t
                              | None \<Rightarrow> rq_timeout_s req)\<rparr>)"

text \<open>The \<open>finally\<close> clause: the modal is released.\<close>

definition release :: "approval_service \<Rightarrow> approval_service" where
  "release sv =
     (case sv_active sv of
        None \<Rightarrow> sv
      | Some (req, _) \<Rightarrow> sv\<lparr>sv_pending := (if map_option rq_identity (sv_pending sv) = Some (rq_identity req) then None
            else sv_pending sv), sv_active := None\<rparr>)"

definition remember_grants :: "approval_request \<Rightarrow> approval_response \<Rightarrow> approval_service \<Rightarrow> approval_service" where
  "remember_grants req r sv =
     (let sv1 = (if rs_remember_all r then sv\<lparr>sv_remembered_all := sv_remembered_all sv \<union> rq_capabilities req\<rparr>
                 else if rs_remember r then sv\<lparr>sv_remembered_turn := sv_remembered_turn sv \<union> rq_capabilities req\<rparr>
                 else sv);
          keys = set (rq_workspace_access req)
      in if keys \<noteq> {} \<and> rs_allowed r
         then (if rs_scope_grant r = Some ''target_session'' then sv1\<lparr>sv_scope_session := sv_scope_session sv1 \<union> keys\<rparr>
               else if rs_scope_grant r = Some ''target_turn'' then sv1\<lparr>sv_scope_turn := sv_scope_turn sv1 \<union> keys\<rparr>
               else sv1)
         else sv1)"

definition conclude :: "approval_request \<Rightarrow> string \<Rightarrow> approval_response option \<Rightarrow> approval_service \<Rightarrow> approval_service" where
  "conclude req rid response sv =
     (let r = normalise_response (case response of Some x \<Rightarrow> x
            | None \<Rightarrow> (plain_response False)\<lparr>rs_outcome := ''failed'', rs_request_id := Some rid\<rparr>) req;
          sv1 = remember_grants req r (sv\<lparr>sv_response := None\<rparr>);
          sv2 = (if rq_kind req = ''questions'' \<and> \<not> rs_timed_out r
                 then emit_question_event (if rs_outcome r = ''answered'' then ''question_answered'' else ''question_cancelled'')
                        req (Some r) sv1 else sv1)
      in returns req r (release sv2))"

definition wake :: "approval_service \<Rightarrow> approval_service" where
  "wake sv =
     (case sv_active sv of
        Some (req, rid) \<Rightarrow>
          if \<not> sv_event_set sv then sv
          else let (taken, sv1) = take_response rid sv
               in conclude req rid (if rq_kind req = ''questions'' then taken
                    else case taken of Some r \<Rightarrow> Some r | None \<Rightarrow> sv_response sv1) sv1
      | None \<Rightarrow> sv)"

text \<open>The deadline of a question: a response that was committed before the wake-up wins.\<close>

definition time_out :: "approval_service \<Rightarrow> approval_service" where
  "time_out sv =
     (case sv_active sv of
        Some (req, rid) \<Rightarrow>
          if rq_kind req \<noteq> ''questions'' then sv
          else let (taken, sv1) = take_response rid sv
               in case taken of
                    Some r \<Rightarrow> conclude req rid (Some r) sv1
                  | None \<Rightarrow> let r = timeout_response rid (case rq_timeout_s req of Some t \<Rightarrow> t | None \<Rightarrow> sv_question_timeout_s sv) False
                            in conclude req rid (Some r)
                                 (emit_question_event ''question_timed_out'' req (Some r) (add_fingerprint req sv1))
      | None \<Rightarrow> sv)"

text \<open>Cancellation and failure of the waiting coroutine: nothing is returned, the exception is raised
  on.\<close>

definition abandon :: "string \<Rightarrow> string \<Rightarrow> approval_service \<Rightarrow> approval_service" where
  "abandon kind outcome sv =
     (case sv_active sv of
        None \<Rightarrow> sv
      | Some (req, rid) \<Rightarrow>
          release (if rq_kind req = ''questions''
            then emit_question_event kind req
                   (Some ((plain_response False)\<lparr>rs_outcome := outcome, rs_request_id := Some rid\<rparr>)) sv
            else sv))"

definition cancel_active :: "approval_service \<Rightarrow> approval_service" where
  "cancel_active = abandon ''question_cancelled'' ''cancelled''"

definition fail_active :: "approval_service \<Rightarrow> approval_service" where
  "fail_active = abandon ''question_wait_failed'' ''failed''"

text \<open>A coroutine that is cancelled while it waits for the lock leaves the queue.\<close>

definition cancel_waiting :: "nat \<Rightarrow> approval_service \<Rightarrow> approval_service" where
  "cancel_waiting i sv = sv\<lparr>sv_waiting := filter (\<lambda>r. rq_identity r \<noteq> i) (sv_waiting sv)\<rparr>"

definition reset_turn_memory :: "approval_service \<Rightarrow> approval_service" where
  "reset_turn_memory sv = sv\<lparr>sv_remembered_turn := {}, sv_scope_turn := {}, sv_timed_out := {}\<rparr>"

section \<open>The gate\<close>

text \<open>
  \<open>ApprovalGate.decide\<close> up to the request it makes: what the workspace policy decided for the
  declared paths (\<open>None\<close> when there is no policy), the capabilities that need approval, and either a
  final decision or the request to submit.
\<close>

record path_result =
  pa_allowed :: bool
  pa_handled :: bool
  pa_code :: string
  pa_error :: string

datatype gate_step = Decided hook_decision | Ask "capability set"

definition approval_gate :: "runtime_mode \<Rightarrow> bool \<Rightarrow> pyval \<Rightarrow> path_result option \<Rightarrow> gate_step" where
  "approval_gate mode skip_permissions raw path =
     (let needs = classify_tool_capabilities raw \<inter> md_approval mode in
      case path of
        Some p \<Rightarrow>
          if \<not> pa_allowed p then Decided (Abort (pa_code p) (pa_code p @ '': '' @ pa_error p))
          else if pa_handled p then Decided Proceed
          else if skip_permissions then Decided Proceed
          else if needs = {} then Decided Proceed else Ask needs
      | None \<Rightarrow>
          if skip_permissions then Decided Proceed
          else if needs = {} then Decided Proceed else Ask needs)"

definition gate_answer :: "string \<Rightarrow> approval_response \<Rightarrow> hook_decision" where
  "gate_answer tool response =
     (if rs_allowed response then Proceed
      else Abort ''approval_denied'' (''User denied permission to run '' @ quoted tool @ ''.''))"

text \<open>\<open>FailClosedGate\<close>: a gate that raises blocks the call.\<close>

definition fail_closed :: "string \<Rightarrow> string + hook_decision \<Rightarrow> hook_decision" where
  "fail_closed tool r =
     (case r of
        Inr d \<Rightarrow> d
      | Inl error \<Rightarrow> Abort ''internal'' (''The permission check for '' @ quoted tool @ '' failed ('' @ error
          @ ''); the tool was not run.''))"

datatype hook = OtherHook string | GateHook string | ContractHook

definition order_global_hooks :: "hook list \<Rightarrow> hook list" where
  "order_global_hooks hooks =
     filter (\<lambda>h. case h of OtherHook _ \<Rightarrow> True | _ \<Rightarrow> False) hooks
     @ filter (\<lambda>h. case h of GateHook _ \<Rightarrow> True | _ \<Rightarrow> False) hooks @ [ContractHook]"

end
