(* ===== verification/Approval_Properties.thy ===== *)
theory Approval_Properties
  imports Approval Modes_Properties
begin

text \<open>
  The steps of the approval service and what every run of it keeps: one request is shown at a time,
  and whatever it answers with "allowed" goes back to a response the user gave.
\<close>

section \<open>Steps and their invariant\<close>

inductive approval_step :: "approval_service \<Rightarrow> approval_service \<Rightarrow> bool" where
  submits: "approval_step sv (submit req sv)"
| acquires: "approval_step sv (acquire show now uuid sv)"
| responds: "approval_step sv (snd (respond response sv))"
| wakes: "approval_step sv (wake sv)"
| times_out: "approval_step sv (time_out sv)"
| cancels: "approval_step sv (cancel_active sv)"
| cancels_waiting: "approval_step sv (cancel_waiting i sv)"
| fails: "approval_step sv (fail_active sv)"
| resets: "approval_step sv (reset_turn_memory sv)"

type_synonym answers = "(approval_request \<times> approval_response) list"

definition granted_caps :: "answers \<Rightarrow> string set" where
  "granted_caps as = {c. \<exists>r x. (r, x) \<in> set as \<and> (rs_remember x \<or> rs_remember_all x) \<and> c \<in> rq_capabilities r}"

definition granted_keys :: "answers \<Rightarrow> (string \<times> string) set" where
  "granted_keys as = {k. \<exists>r x. (r, x) \<in> set as \<and> rs_allowed x \<and> k \<in> set (rq_workspace_access r)
     \<and> rs_scope_grant x \<in> {Some ''target_turn'', Some ''target_session''}}"

text \<open>Why a request may be allowed: the user allowed it, or earlier answers cover it.\<close>

definition justified :: "answers \<Rightarrow> approval_request \<Rightarrow> bool" where
  "justified as r \<longleftrightarrow> (\<exists>x. (r, x) \<in> set as \<and> rs_allowed x)
     \<or> (rq_workspace_access r = [] \<and> rq_capabilities r \<noteq> {} \<and> rq_capabilities r \<subseteq> granted_caps as)
     \<or> (rq_workspace_access r \<noteq> [] \<and> set (rq_workspace_access r) \<subseteq> granted_keys as)"

lemma granted_mono:
  assumes "set as \<subseteq> set bs"
  shows "granted_caps as \<subseteq> granted_caps bs" "granted_keys as \<subseteq> granted_keys bs" "justified as r \<Longrightarrow> justified bs r"
proof -
  show a: "granted_caps as \<subseteq> granted_caps bs" and b: "granted_keys as \<subseteq> granted_keys bs"
    using assms by (auto simp: granted_caps_def granted_keys_def)
  show "justified as r \<Longrightarrow> justified bs r" unfolding justified_def using assms a b by blast
qed

definition shown_ok :: "approval_service \<Rightarrow> bool" where
  "shown_ok sv \<longleftrightarrow> (case sv_active sv of
     None \<Rightarrow> sv_pending sv = None
   | Some (r, rid) \<Rightarrow> sv_pending sv = Some r \<and> \<not> timed_out_before r sv
       \<and> (\<forall>x. sv_response sv = Some x \<or> dget (sv_responses sv) rid = Some x \<longrightarrow> (r, x) \<in> set (sv_user_answers sv)))"

definition grants_ok :: "approval_service \<Rightarrow> bool" where
  "grants_ok sv \<longleftrightarrow> sv_remembered_all sv \<union> sv_remembered_turn sv \<subseteq> granted_caps (sv_user_answers sv)
     \<and> sv_scope_session sv \<union> sv_scope_turn sv \<subseteq> granted_keys (sv_user_answers sv)
     \<and> (\<forall>(r, x) \<in> set (sv_results sv). rs_allowed x \<longrightarrow> justified (sv_user_answers sv) r)"

definition service_ok :: "approval_service \<Rightarrow> bool" where
  "service_ok sv \<longleftrightarrow> shown_ok sv \<and> grants_ok sv"

lemma emit_simps [simp]:
  "sv_active (emit_question_event k r x sv) = sv_active sv" "sv_pending (emit_question_event k r x sv) = sv_pending sv"
  "sv_response (emit_question_event k r x sv) = sv_response sv" "sv_responses (emit_question_event k r x sv) = sv_responses sv"
  "sv_user_answers (emit_question_event k r x sv) = sv_user_answers sv" "sv_results (emit_question_event k r x sv) = sv_results sv"
  "sv_remembered_all (emit_question_event k r x sv) = sv_remembered_all sv"
  "sv_remembered_turn (emit_question_event k r x sv) = sv_remembered_turn sv"
  "sv_scope_session (emit_question_event k r x sv) = sv_scope_session sv"
  "sv_scope_turn (emit_question_event k r x sv) = sv_scope_turn sv" "sv_timed_out (emit_question_event k r x sv) = sv_timed_out sv"
  by (simp_all add: emit_question_event_def)

lemma grants_ok_emit [simp]: "grants_ok (emit_question_event k r x sv) = grants_ok sv"
  by (simp add: grants_ok_def)

lemma grants_ok_fields [simp]:
  "grants_ok (sv\<lparr>sv_response := x1\<rparr>) = grants_ok sv" "grants_ok (sv\<lparr>sv_responses := x2\<rparr>) = grants_ok sv"
  "grants_ok (sv\<lparr>sv_waiting := x3\<rparr>) = grants_ok sv" "grants_ok (sv\<lparr>sv_timed_out := x4\<rparr>) = grants_ok sv"
  "grants_ok (sv\<lparr>sv_rehydrated := x5\<rparr>) = grants_ok sv" "grants_ok (sv\<lparr>sv_event_set := x6\<rparr>) = grants_ok sv"
  "grants_ok (sv\<lparr>sv_active := a, sv_response := x1, sv_responses := x2, sv_pending := p, sv_event_set := x6\<rparr>) = grants_ok sv"
  "grants_ok (sv\<lparr>sv_active := a, sv_response := x1, sv_responses := x2, sv_pending := p\<rparr>) = grants_ok sv"
  "grants_ok (sv\<lparr>sv_active := a, sv_pending := p\<rparr>) = grants_ok sv"
  by (simp_all add: grants_ok_def)

lemma grants_ok_add_fingerprint [simp]: "grants_ok (add_fingerprint r sv) = grants_ok sv"
  by (simp add: add_fingerprint_def split: option.split)

lemma grants_ok_forget [simp]: "grants_ok (forget_resumed r sv) = grants_ok sv"
  by (simp add: forget_resumed_def split: option.split)

lemma grants_ok_release [simp]: "grants_ok (release sv) = grants_ok sv"
  by (simp add: release_def grants_ok_def split: option.split)

lemma returns_denied [simp]: "\<not> rs_allowed x \<Longrightarrow> grants_ok (returns r x sv) = grants_ok sv"
  by (auto simp: grants_ok_def returns_def)

lemma returns_justified: "grants_ok sv \<Longrightarrow> justified (sv_user_answers sv) r \<Longrightarrow> grants_ok (returns r x sv)"
  by (auto simp: grants_ok_def returns_def)

lemma returns_simps [simp]:
  "sv_active (returns r x sv) = sv_active sv" "sv_pending (returns r x sv) = sv_pending sv"
  "sv_response (returns r x sv) = sv_response sv" "sv_responses (returns r x sv) = sv_responses sv"
  "sv_user_answers (returns r x sv) = sv_user_answers sv" "sv_timed_out (returns r x sv) = sv_timed_out sv"
  by (simp_all add: returns_def)

lemma timeout_denied [simp]: "\<not> rs_allowed (timeout_response rid t b)" "\<not> rs_allowed (plain_response False)"
  by (simp_all add: timeout_response_def plain_response_def)

lemma shown_ok_idle [simp]: "sv_active sv = None \<Longrightarrow> shown_ok sv \<longleftrightarrow> sv_pending sv = None"
  by (simp add: shown_ok_def)

lemma release_idle:
  assumes "shown_ok sv" shows "sv_active (release sv) = None" "sv_pending (release sv) = None"
  using assms by (auto simp: release_def shown_ok_def split: option.splits prod.splits)

lemma normalise_flags [simp]:
  "rs_allowed (normalise_response x r) = rs_allowed x" "rs_remember (normalise_response x r) = rs_remember x"
  "rs_remember_all (normalise_response x r) = rs_remember_all x" "rs_scope_grant (normalise_response x r) = rs_scope_grant x"
  "rs_timed_out (normalise_response x r) = rs_timed_out x"
  by (simp_all add: normalise_response_def)

lemma remember_grants_simps [simp]:
  "sv_active (remember_grants r x sv) = sv_active sv" "sv_pending (remember_grants r x sv) = sv_pending sv"
  "sv_user_answers (remember_grants r x sv) = sv_user_answers sv" "sv_results (remember_grants r x sv) = sv_results sv"
  by (simp_all add: remember_grants_def Let_def)

text \<open>Grants are only remembered from an answer of the user to that request.\<close>

lemma remember_grants_ok:
  assumes "grants_ok sv" "(r, y) \<in> set (sv_user_answers sv)" "rs_allowed x = rs_allowed y"
    "rs_remember x = rs_remember y" "rs_remember_all x = rs_remember_all y" "rs_scope_grant x = rs_scope_grant y"
  shows "grants_ok (remember_grants r x sv)"
proof -
  have c: "rq_capabilities r \<subseteq> granted_caps (sv_user_answers sv)" if "rs_remember y \<or> rs_remember_all y"
    using assms(2) that by (auto simp: granted_caps_def)
  have k: "set (rq_workspace_access r) \<subseteq> granted_keys (sv_user_answers sv)"
    if "rs_allowed y" "rs_scope_grant y \<in> {Some ''target_turn'', Some ''target_session''}"
    using assms(2) that unfolding granted_keys_def by blast
  show ?thesis using assms(1,3-) c k by (auto simp: grants_ok_def remember_grants_def Let_def)
qed

lemma remember_grants_denied:
  assumes "\<not> rs_allowed x" "\<not> rs_remember x" "\<not> rs_remember_all x"
  shows "remember_grants r x sv = sv"
  using assms by (simp add: remember_grants_def Let_def)

lemma conclude_ok:
  assumes "shown_ok sv" "grants_ok sv" "sv_active sv = Some (r, rid)"
    and "\<And>y. response = Some y \<Longrightarrow> (r, y) \<in> set (sv_user_answers sv) \<or> \<not> rs_allowed y \<and> \<not> rs_remember y \<and> \<not> rs_remember_all y"
  shows "service_ok (conclude r rid response sv)"
proof -
  define y where "y = (case response of Some x \<Rightarrow> x
    | None \<Rightarrow> (plain_response False)\<lparr>rs_outcome := ''failed'', rs_request_id := Some rid\<rparr>)"
  define x where "x = normalise_response y r"
  define sv1 where "sv1 = remember_grants r x (sv\<lparr>sv_response := None\<rparr>)"
  define sv2 where "sv2 = (if rq_kind r = ''questions'' \<and> \<not> rs_timed_out x
    then emit_question_event (if rs_outcome x = ''answered'' then ''question_answered'' else ''question_cancelled'') r (Some x) sv1 else sv1)"
  have c: "conclude r rid response sv = returns r x (release sv2)"
    by (simp add: conclude_def Let_def x_def y_def sv1_def sv2_def)
  have y: "(r, y) \<in> set (sv_user_answers sv) \<or> \<not> rs_allowed y \<and> \<not> rs_remember y \<and> \<not> rs_remember_all y"
    using assms(4) by (cases response) (simp_all add: y_def plain_response_def)
  have g: "grants_ok sv1"
  proof (cases "(r, y) \<in> set (sv_user_answers sv)")
    case True
    then show ?thesis unfolding sv1_def by (intro remember_grants_ok [where y = y]) (simp_all add: assms(2) x_def)
  next
    case False
    then show ?thesis using y by (simp add: sv1_def remember_grants_denied x_def assms(2))
  qed
  have s: "sv_active sv2 = sv_active sv" "sv_pending sv2 = sv_pending sv" "sv_user_answers sv2 = sv_user_answers sv"
    by (simp_all add: sv2_def sv1_def)
  have "grants_ok sv2" using g by (simp add: sv2_def)
  moreover have "sv_user_answers (release sv2) = sv_user_answers sv"
    by (simp add: release_def s split: option.split)
  ultimately have "grants_ok (returns r x (release sv2))"
  proof (cases "rs_allowed x")
    case True
    then have "(r, y) \<in> set (sv_user_answers sv)" "rs_allowed y" using y by (simp_all add: x_def)
    then have "justified (sv_user_answers (release sv2)) r" using \<open>sv_user_answers (release sv2) = _\<close> by (auto simp: justified_def)
    with \<open>grants_ok sv2\<close> show ?thesis by (simp add: returns_justified)
  qed simp
  moreover have "sv_active (release sv2) = None" "sv_pending (release sv2) = None"
    using assms(1,3) by (auto simp: release_def s shown_ok_def)
  ultimately show ?thesis unfolding c service_ok_def by (simp add: returns_def)
qed

text \<open>A request that is no question is shown as it is.\<close>

lemma start_tool:
  assumes "rq_kind req \<noteq> ''questions''"
  shows "start_request show now uuid req sv =
    (let rid = (if request_key req \<noteq> [] then request_key req else uuid) in
     sv\<lparr>sv_active := Some (req, rid), sv_response := None, sv_responses := dpop rid (sv_responses sv),
        sv_pending := Some req, sv_event_set := False\<rparr>)"
  using assms by (simp add: start_request_def Let_def resumed_wait_def forget_resumed_def timed_out_before_def)

lemma start_ok:
  assumes "sv_active sv = None" "sv_pending sv = None" "grants_ok sv"
  shows "service_ok (start_request show now uuid req sv)"
proof -
  have f: "sv_active (forget_resumed req sv) = None" "sv_pending (forget_resumed req sv) = None"
    "sv_user_answers (forget_resumed req sv) = sv_user_answers sv" "sv_timed_out (forget_resumed req sv) = sv_timed_out sv"
    using assms by (simp_all add: forget_resumed_def split: option.split)
  have a: "sv_active (add_fingerprint q s) = sv_active s" "sv_pending (add_fingerprint q s) = sv_pending s" for q s
    by (simp_all add: add_fingerprint_def split: option.split)
  have t: "timed_out_before (q\<lparr>rq_timeout_s := x, rq_deadline_at := y\<rparr>) s = timed_out_before q s" for q x y s
    by (simp add: timed_out_before_def)
  have t': "timed_out_before q (s\<lparr>sv_active := a, sv_response := x1, sv_responses := x2, sv_pending := p, sv_event_set := x6\<rparr>)
     = timed_out_before q s" "timed_out_before q (emit_question_event k r x s) = timed_out_before q s" for q s a x1 x2 p x6 k r x
    by (simp_all add: timed_out_before_def split: option.split)
  show ?thesis
    using assms(3) unfolding start_request_def Let_def
    by (simp add: service_ok_def f a t t' shown_ok_def split: option.split)
qed

lemma submit_ok:
  assumes "service_ok sv" shows "service_ok (submit req sv)"
proof (cases "remembered_response req sv")
  case None
  then show ?thesis using assms
    by (auto simp: submit_def service_ok_def shown_ok_def grants_ok_def timed_out_before_def split: option.splits)
next
  case (Some x)
  then have "justified (sv_user_answers sv) req"
    using assms by (auto simp: remembered_response_def Let_def justified_def service_ok_def grants_ok_def split: if_splits)
  then show ?thesis using assms Some returns_justified
    by (auto simp: submit_def service_ok_def shown_ok_def timed_out_before_def split: option.splits)
qed

lemma respond_ok:
  assumes "service_ok sv" shows "service_ok (snd (respond x sv))"
proof (cases "sv_pending sv")
  case None
  then have "sv_active sv = None" using assms by (auto simp: service_ok_def shown_ok_def split: option.splits prod.splits)
  then show ?thesis using assms None by (simp add: respond_def service_ok_def)
next
  case (Some p)
  show ?thesis
  proof (cases "rs_request_id x \<noteq> None \<and> rs_request_id x \<noteq> Some (request_key p)")
    case False
    let ?as = "sv_user_answers sv @ [(p, x)]"
    let ?sv = "sv\<lparr>sv_response := Some x, sv_responses := dset (request_key p) x (sv_responses sv), sv_user_answers := ?as\<rparr>"
    obtain rid where a: "sv_active sv = Some (p, rid)" and t: "\<not> timed_out_before p sv"
      and r: "\<And>y. dget (sv_responses sv) rid = Some y \<Longrightarrow> (p, y) \<in> set (sv_user_answers sv)"
      using assms Some by (auto simp: service_ok_def shown_ok_def split: option.splits prod.splits)
    have "grants_ok ?sv"
      using assms granted_mono [of "sv_user_answers sv" ?as] by (fastforce simp: service_ok_def grants_ok_def)
    moreover have "shown_ok ?sv" using a t r Some by (auto simp: shown_ok_def timed_out_before_def split: if_splits option.splits)
    moreover have "timed_out_before q (s\<lparr>sv_event_set := True\<rparr>) = timed_out_before q s" for q s
      by (simp add: timed_out_before_def split: option.split)
    then have "shown_ok (s\<lparr>sv_event_set := True\<rparr>) = shown_ok s" for s
      by (simp add: shown_ok_def split: option.split)
    ultimately have "service_ok (?sv\<lparr>sv_event_set := True\<rparr>)"
      by (simp only: service_ok_def grants_ok_fields)
    moreover have "snd (respond x sv) = ?sv\<lparr>sv_event_set := True\<rparr>"
      using False Some a by (auto simp: respond_def Let_def)
    ultimately show ?thesis by simp
  next
    case True
    then have "snd (respond x sv) = sv" using Some by (simp add: respond_def)
    then show ?thesis using assms by simp
  qed
qed

lemma taken_ok:
  assumes "service_ok sv" "sv_active sv = Some (r, rid)" "take_response rid sv = (taken, sv1)"
  shows "shown_ok sv1" "grants_ok sv1" "sv_active sv1 = Some (r, rid)" "sv_user_answers sv1 = sv_user_answers sv"
    "taken = Some y \<or> sv_response sv1 = Some y \<Longrightarrow> (r, y) \<in> set (sv_user_answers sv1)"
  using assms by (auto simp: take_response_def service_ok_def shown_ok_def timed_out_before_def split: option.splits)

lemma wake_ok:
  assumes "service_ok sv" shows "service_ok (wake sv)"
proof (cases "sv_active sv")
  case (Some a)
  obtain r rid where a: "sv_active sv = Some (r, rid)" using Some by (cases a) simp
  obtain taken sv1 where t: "take_response rid sv = (taken, sv1)" by fastforce
  note tk = taken_ok [OF assms a t]
  have "service_ok (conclude r rid (if rq_kind r = ''questions'' then taken
      else case taken of Some x \<Rightarrow> Some x | None \<Rightarrow> sv_response sv1) sv1)"
    by (rule conclude_ok [OF tk(1-3)]) (use tk(5) in \<open>auto split: if_splits option.splits\<close>)
  then show ?thesis using assms by (simp add: wake_def a t)
qed (use assms in \<open>simp add: wake_def\<close>)

lemma time_out_ok:
  assumes "service_ok sv" shows "service_ok (time_out sv)"
proof (cases "sv_active sv")
  case (Some a)
  obtain r rid where a: "sv_active sv = Some (r, rid)" using Some by (cases a) simp
  obtain taken sv1 where t: "take_response rid sv = (taken, sv1)" by fastforce
  note tk = taken_ok [OF assms a t]
  show ?thesis
  proof (cases taken)
    case (Some x)
    have "service_ok (conclude r rid (Some x) sv1)" by (rule conclude_ok [OF tk(1-3)]) (use tk(5) Some in auto)
    then show ?thesis using assms Some by (simp add: time_out_def a t)
  next
    case None
    define x where "x = timeout_response rid (case rq_timeout_s r of Some t \<Rightarrow> t | None \<Rightarrow> sv_question_timeout_s sv) False"
    define sv2 where "sv2 = emit_question_event ''question_timed_out'' r (Some x) (add_fingerprint r sv1)"
    have x: "\<not> rs_allowed x" "\<not> rs_remember x" "\<not> rs_remember_all x"
      by (simp_all add: x_def timeout_response_def plain_response_def)
    have "sv_pending sv1 = Some r" using tk(1,3) by (simp add: shown_ok_def)
    then have p: "sv_active sv2 = Some (r, rid)" "sv_pending sv2 = Some r"
      using tk(3) by (simp_all add: sv2_def add_fingerprint_def split: option.split)
    have "grants_ok sv2" using tk(2) by (simp add: sv2_def)
    have g: "grants_ok (release s)" "sv_active (release s) = None" "sv_pending (release s) = None"
      if "grants_ok s" "sv_active s = Some (r, rid)" "sv_pending s = Some r" for s
      using that by simp (simp_all add: release_def that)
    have "service_ok (conclude r rid (Some x) sv2)"
      using \<open>grants_ok sv2\<close> p x
      by (simp add: conclude_def Let_def remember_grants_denied service_ok_def g)
    moreover have "time_out sv = (if rq_kind r \<noteq> ''questions'' then sv else conclude r rid (Some x) sv2)"
      using None by (simp add: time_out_def a t x_def sv2_def Let_def)
    ultimately show ?thesis using assms by simp
  qed
qed (use assms in \<open>simp add: time_out_def\<close>)

lemma abandon_ok:
  assumes "service_ok sv" shows "service_ok (abandon kind outcome sv)"
proof (cases "sv_active sv")
  case (Some a)
  obtain r rid where a: "sv_active sv = Some (r, rid)" using Some by (cases a) simp
  then have "sv_pending sv = Some r" using assms by (simp add: service_ok_def shown_ok_def)
  then show ?thesis using assms a by (simp add: abandon_def service_ok_def) (simp add: release_def)
qed (use assms in \<open>simp add: abandon_def\<close>)

lemma approval_step_ok:
  assumes "approval_step sv sv'" "service_ok sv"
  shows "service_ok sv'"
  using assms
proof cases
  case (acquires show_text now uuid)
  show ?thesis
  proof (cases "sv_active sv")
    case None
    then have p: "sv_pending sv = None" "grants_ok sv" using assms(2) by (simp_all add: service_ok_def)
    show ?thesis
    proof (cases "sv_waiting sv")
      case (Cons r rest)
      have "service_ok (start_request show_text now uuid r (sv\<lparr>sv_waiting := rest\<rparr>))"
        by (rule start_ok) (simp_all add: None p)
      then show ?thesis using acquires None Cons by (simp add: acquire_def)
    qed (use acquires None assms(2) in \<open>simp add: acquire_def\<close>)
  qed (use acquires assms(2) in \<open>simp add: acquire_def\<close>)
next
  case (cancels_waiting i)
  then show ?thesis using assms(2)
    by (auto simp: cancel_waiting_def service_ok_def shown_ok_def timed_out_before_def split: option.splits)
next
  case resets
  then show ?thesis using assms(2)
    by (auto simp: reset_turn_memory_def service_ok_def shown_ok_def grants_ok_def timed_out_before_def split: option.splits)
qed (use assms(2) submit_ok respond_ok wake_ok time_out_ok abandon_ok in \<open>simp_all add: cancel_active_def fail_active_def\<close>)

lemma approval_steps_ok:
  assumes "service_init timeout waits = Inr sv0" "approval_step\<^sup>*\<^sup>* sv0 sv"
  shows "service_ok sv"
  using assms(2)
proof (induction rule: rtranclp_induct)
  case base
  then show ?case using assms(1)
    by (auto simp: service_init_def service_ok_def shown_ok_def grants_ok_def split: option.splits)
qed (use approval_step_ok in blast)

section \<open>Properties\<close>


text \<open>
  One request is on the screen at a time, it is the one the service waits for, and it is never a
  question that has already timed out in the turn; a response that names another request changes
  nothing at all.
\<close>

theorem approval_one_pending:
  assumes "service_init timeout waits = Inr sv0" "approval_step\<^sup>*\<^sup>* sv0 sv"
  shows "sv_pending sv = map_option fst (sv_active sv)
    \<and> (\<forall>q. sv_pending sv = Some q \<and> rq_kind q = ''questions'' \<longrightarrow> (\<forall>f. rq_fingerprint q = Some f \<longrightarrow> f \<notin> sv_timed_out sv))
    \<and> (\<forall>q i. sv_pending sv = Some q \<and> i \<noteq> request_key q \<and> rs_request_id x = Some i \<longrightarrow> respond x sv = (False, sv))"
  using approval_steps_ok [OF assms] by (auto simp: service_ok_def shown_ok_def timed_out_before_def respond_def split: option.splits)

text \<open>
  C31. In Safe mode no tool with an effect runs unasked: when the mode gate and the approval gate let
  through a call that declares a writing, executing or network capability, or no usable capability
  at all, without the skip flag and without a decision of the path policy, the gate asked, and the
  request it made was answered "allowed", so it is justified as above.
\<close>

theorem safe_mode_asks:
  assumes mode: "builtin_mode ''Safe'' workflow workflows = Inr mode"
    and effect: "classify_tool_capabilities raw \<inter> restricted_capabilities \<noteq> {}"
    and path: "path = None \<or> (\<exists>p. path = Some p \<and> \<not> pa_handled p)"
    and runs: "capability_gate mode type_name denied tool raw = Proceed"
      "case approval_gate mode False raw path of Decided d \<Rightarrow> d = Proceed
       | Ask needs \<Rightarrow> (r, x) \<in> set (sv_results sv) \<and> rq_capabilities r = capability_value ` needs
           \<and> rq_workspace_access r = [] \<and> gate_answer tool x = Proceed"
    and service: "service_init timeout waits = Inr sv0" "approval_step\<^sup>*\<^sup>* sv0 sv"
  shows "rq_capabilities r \<noteq> {} \<and> ((\<exists>y. (r, y) \<in> set (sv_user_answers sv) \<and> rs_allowed y)
    \<or> (\<forall>c \<in> rq_capabilities r. \<exists>q y. (q, y) \<in> set (sv_user_answers sv) \<and> c \<in> rq_capabilities q
         \<and> (rs_remember y \<or> rs_remember_all y)))"
proof -
  have "md_approval mode = restricted_capabilities" using mode by (auto simp: builtin_mode_def)
  then have "approval_gate mode False raw path = Ask (classify_tool_capabilities raw \<inter> restricted_capabilities)
      \<or> (\<exists>p. path = Some p \<and> \<not> pa_allowed p \<and> approval_gate mode False raw path = Decided (Abort (pa_code p) (pa_code p @ '': '' @ pa_error p)))"
    using effect path by (auto simp: approval_gate_def Let_def split: if_splits)
  then have r: "(r, x) \<in> set (sv_results sv)" "rq_capabilities r \<noteq> {}" "rq_workspace_access r = []" "rs_allowed x"
    using runs(2) effect by (auto simp: gate_answer_def split: if_splits)
  have "justified (sv_user_answers sv) r"
    using approval_steps_ok [OF service] r(1,4) by (auto simp: service_ok_def grants_ok_def)
  then show ?thesis using r(2,3) unfolding justified_def granted_caps_def by blast
qed

section \<open>A run\<close>

text \<open>A tool request that the user allows for the session, and one that the grant then covers.\<close>

definition demo_tool_request :: "nat \<Rightarrow> approval_request" where
  "demo_tool_request i = \<lparr>rq_identity = i, rq_tool_name = ''write_file'', rq_tool_use_id = ''u'', rq_tool_input = [],
     rq_capabilities = {''write''}, rq_kind = ''tool'', rq_workspace_access = [], rq_request_id = [],
     rq_timeout_s = None, rq_deadline_at = None, rq_fingerprint = None\<rparr>"

definition demo_answer :: approval_response where
  "demo_answer = (plain_response True)\<lparr>rs_remember_all := True\<rparr>"

definition demo_service :: "approval_service" where
  "demo_service = (case service_init (PInt 60) [] of Inr sv \<Rightarrow> sv)"

definition demo_asked :: approval_service where
  "demo_asked = acquire (\<lambda>_. []) (Fin 0) ''ab'' (submit (demo_tool_request 0) demo_service)"

definition demo_end :: approval_service where
  "demo_end = submit (demo_tool_request 1) (wake (snd (respond demo_answer demo_asked)))"

lemma demo_service_init: "service_init (PInt 60) [] = Inr demo_service"
  by (simp add: demo_service_def service_init_def valid_question_timeout_def)

lemma demo_asked_steps: "approval_step\<^sup>*\<^sup>* demo_service demo_asked"
  unfolding demo_asked_def
  by (rule rtranclp.rtrancl_into_rtrancl, rule r_into_rtranclp, rule submits, rule acquires)

lemma demo_end_steps: "approval_step\<^sup>*\<^sup>* demo_service demo_end"
  unfolding demo_end_def
  by (rule rtranclp.rtrancl_into_rtrancl, rule rtranclp.rtrancl_into_rtrancl, rule rtranclp.rtrancl_into_rtrancl,
    rule demo_asked_steps, rule responds, rule wakes, rule submits)

lemma demo_kind: "rq_kind (demo_tool_request i) = ''tool''" "request_key (demo_tool_request i) = ''u''" "rq_workspace_access (demo_tool_request i) = []"
  "rq_identity (demo_tool_request i) = i" "rq_capabilities (demo_tool_request i) = {''write''}"
  by (simp_all add: demo_tool_request_def request_key_def)

lemma demo_asked_eq:
  "demo_asked = demo_service\<lparr>sv_active := Some (demo_tool_request 0, ''u''), sv_pending := Some (demo_tool_request 0)\<rparr>"
proof -
  have s: "submit (demo_tool_request 0) demo_service = demo_service\<lparr>sv_waiting := [demo_tool_request 0]\<rparr>"
    by (simp add: submit_def remembered_response_def demo_kind Let_def) (simp add: demo_service_def service_init_def valid_question_timeout_def)
  have d: "sv_active demo_service = None" "sv_response demo_service = None" "sv_responses demo_service = []"
    "\<not> sv_event_set demo_service" "demo_service\<lparr>sv_waiting := []\<rparr> = demo_service"
    by (simp_all add: demo_service_def service_init_def valid_question_timeout_def)
  then have e: "demo_service\<lparr>sv_active := a, sv_response := None, sv_responses := [], sv_pending := p, sv_event_set := False\<rparr>
      = demo_service\<lparr>sv_active := a, sv_pending := p\<rparr>" for a p by (cases demo_service) simp
  show ?thesis unfolding demo_asked_def s
    by (simp add: acquire_def d start_tool demo_kind e)
qed

lemma demo_asked_pending: "sv_pending demo_asked = Some (demo_tool_request 0)" "sv_active demo_asked = Some (demo_tool_request 0, ''u'')"
  by (simp_all add: demo_asked_eq)

text \<open>What the next submission finds after an answer that carries the flag for the session.\<close>

lemma demo_answered:
  assumes "rs_remember_all x" "rs_request_id x = None"
  shows "sv_results (submit (demo_tool_request 1) (wake (snd (respond x demo_asked)))) =
      [(demo_tool_request 0, x), (demo_tool_request 1, plain_response True)]"
    and "sv_user_answers (submit (demo_tool_request 1) (wake (snd (respond x demo_asked)))) = [(demo_tool_request 0, x)]"
proof -
  have d: "sv_results demo_service = []" "sv_user_answers demo_service = []" "sv_responses demo_service = []"
    "sv_remembered_all demo_service = {}"
    by (simp_all add: demo_service_def service_init_def valid_question_timeout_def)
  let ?w = "wake (snd (respond x demo_asked))"
  have w: "sv_results ?w = [(demo_tool_request 0, x)]" "sv_user_answers ?w = [(demo_tool_request 0, x)]" "sv_remembered_all ?w = {''write''}"
    using assms by (simp_all add: respond_def demo_asked_eq demo_kind Let_def wake_def take_response_def conclude_def
      normalise_response_def remember_grants_def release_def returns_def d)
  then have "remembered_response (demo_tool_request 1) ?w = Some (plain_response True)"
    by (simp add: remembered_response_def demo_kind)
  then show "sv_results (submit (demo_tool_request 1) ?w) = [(demo_tool_request 0, x), (demo_tool_request 1, plain_response True)]"
    "sv_user_answers (submit (demo_tool_request 1) ?w) = [(demo_tool_request 0, x)]"
    by (simp_all add: submit_def returns_def w)
qed

lemma demo_end_results:
  "sv_results demo_end = [(demo_tool_request 0, demo_answer), (demo_tool_request 1, plain_response True)]"
  "sv_user_answers demo_end = [(demo_tool_request 0, demo_answer)]"
  unfolding demo_end_def by (intro demo_answered; simp add: demo_answer_def plain_response_def)+


theorem approval_one_pending_witness:
  "respond ((plain_response True)\<lparr>rs_request_id := Some ''other''\<rparr>) demo_asked = (False, demo_asked)"
  using approval_one_pending [OF demo_service_init demo_asked_steps] demo_asked_pending
  by (simp add: request_key_def demo_tool_request_def)

theorem safe_mode_asks_witness:
  "\<exists>y. (demo_tool_request 0, y) \<in> set (sv_user_answers demo_end) \<and> rs_allowed y"
proof -
  let ?mode = "\<lparr>md_name = ''Safe'', md_blocked = {}, md_approval = restricted_capabilities, md_default_workflow = None, md_workflows = []\<rparr>"
  let ?raw = "PSet [PStr ''write'']"
  have "capability_parse ''write'' = Some CapWrite"
    by (simp add: capability_parse_def enum_find_def all_capabilities_def)
  then have c: "classify_tool_capabilities ?raw = {CapWrite}"
    by (simp add: classify_tool_capabilities_def item_capability_def List.map_filter_simps)
  then have e: "classify_tool_capabilities ?raw \<inter> restricted_capabilities = {CapWrite}"
    by (simp add: restricted_capabilities_def)
  have b: "builtin_mode ''Safe'' None [] = Inr ?mode" by (simp add: builtin_mode_def)
  have g: "capability_gate ?mode [] {} ''write_file'' ?raw = Proceed" by (simp add: capability_gate_def)
  have a: "case approval_gate ?mode False ?raw None of Decided d \<Rightarrow> d = Proceed
       | Ask needs \<Rightarrow> (demo_tool_request 0, demo_answer) \<in> set (sv_results demo_end) \<and> rq_capabilities (demo_tool_request 0) = capability_value ` needs
           \<and> rq_workspace_access (demo_tool_request 0) = [] \<and> gate_answer ''write_file'' demo_answer = Proceed"
    by (simp add: approval_gate_def e demo_end_results gate_answer_def demo_answer_def plain_response_def) (simp add: demo_tool_request_def)
  have "classify_tool_capabilities ?raw \<inter> restricted_capabilities \<noteq> {}" by (simp add: e)
  from safe_mode_asks [OF b this disjI1 [OF refl] g a demo_service_init demo_end_steps]
  show ?thesis by (auto simp: demo_end_results demo_answer_def plain_response_def)
qed

text \<open>A denial that carries the flag for the session is remembered as an approval.\<close>

lemma denial_remembered:
  "sv_results (submit (demo_tool_request 1) (wake (snd (respond ((plain_response False)\<lparr>rs_remember_all := True\<rparr>) demo_asked)))) =
     [(demo_tool_request 0, (plain_response False)\<lparr>rs_remember_all := True\<rparr>), (demo_tool_request 1, plain_response True)]"
  by (rule demo_answered) (simp_all add: plain_response_def)

end
