(* ===== verification/Phases.thy ===== *)
theory Phases
  imports Journal
begin

text \<open>
  The phases of a workflow (\<open>src/agenthicc/workflows/phase_lifecycle.py\<close>, \<open>phase_transition.py\<close>, and the phase cursor and
  checkpoints of \<open>runners/workflow_handle.py\<close>): publishing a phase, the durable boundary between two phases, the
  transition an agent records, and the cursor a restarted run resumes at.

  The checkpoint store answers a save with the revision it stored or with an error; the topology of the run, when its workflow has
  one, gives the index of a phase of the plan, or an error for one that is not in it; resolving it may fail. Both are arguments, as is what the context gives for the plan's version.
\<close>

section \<open>The annotation of a phase\<close>

record phase_annotation =
  pa_workflow_name :: string
  pa_phase_name :: string
  pa_phase_index :: int
  pa_total_phases :: int
  pa_run_id :: string
  pa_intent :: string
  pa_model_id :: string
  pa_phase_iteration :: int
  pa_phase_attempt :: int
  pa_status :: string
  pa_plan_version :: string

definition check_annotation :: "phase_annotation \<Rightarrow> string + unit" where
  "check_annotation a =
     bindE (guardE (py_strip (pa_workflow_name a) \<noteq> []) ''phase annotation workflow_name must not be empty'') (\<lambda>_.
     bindE (guardE (py_strip (pa_phase_name a) \<noteq> []) ''phase annotation phase_name must not be empty'') (\<lambda>_.
     bindE (guardE (py_strip (pa_run_id a) \<noteq> []) ''phase annotation run_id must not be empty'') (\<lambda>_.
     bindE (guardE (\<not> (pa_phase_index a < 0 \<or> pa_total_phases a < 1)) ''phase annotation plan position is invalid'') (\<lambda>_.
     bindE (guardE (pa_phase_index a < pa_total_phases a) ''phase annotation phase_index exceeds total_phases'') (\<lambda>_.
     bindE (guardE (\<not> (pa_phase_iteration a < 0 \<or> pa_phase_attempt a < 0))
       ''phase annotation iteration and attempt must be non-negative'') (\<lambda>_.
     guardE (py_strip (pa_status a) \<noteq> []) ''phase annotation status must not be empty''))))))"

section \<open>The handle of a run\<close>

text \<open>
  The context is attached before every operation here, so it is never missing. \<open>wh_saved\<close>: the reasons of the
  checkpoints stored, oldest first.
\<close>

record workflow_handle =
  wh_run_id :: string
  wh_workflow_name :: string
  wh_current_phase :: "string option"
  wh_phase_index :: int
  wh_phase_iteration :: int
  wh_supported :: bool
  wh_revision :: int
  wh_saved :: "string list"

record phase_world =
  pw_topology :: "string + (string \<Rightarrow> string + int) option"
  pw_save :: "workflow_handle \<Rightarrow> string \<Rightarrow> string + int"
  pw_validation_error :: "string \<Rightarrow> bool"

definition save_checkpoint :: "phase_world \<Rightarrow> string \<Rightarrow> workflow_handle \<Rightarrow> (string + int) \<times> workflow_handle" where
  "save_checkpoint w reason h =
     (case pw_save w h reason of
        Inl e \<Rightarrow> (Inl e, h)
      | Inr revision \<Rightarrow> (Inr revision, h\<lparr>wh_revision := revision, wh_saved := wh_saved h @ [reason]\<rparr>))"

definition persist_checkpoint :: "phase_world \<Rightarrow> string \<Rightarrow> workflow_handle \<Rightarrow> (string + int option) \<times> workflow_handle" where
  "persist_checkpoint w reason h =
     (if \<not> wh_supported h then (Inr None, h)
      else case save_checkpoint w reason h of
        (Inr revision, h') \<Rightarrow> (Inr (Some revision), h')
      | (Inl e, h') \<Rightarrow> (Inl e, if pw_validation_error w e then h'\<lparr>wh_supported := False\<rparr> else h'))"

definition update_phase ::
  "phase_world \<Rightarrow> string option \<Rightarrow> int \<Rightarrow> int \<Rightarrow> bool \<Rightarrow> workflow_handle \<Rightarrow> (string + unit) \<times> workflow_handle" where
  "update_phase w phase index iteration persist h =
     (let h1 = h\<lparr>wh_current_phase := phase, wh_phase_index := index, wh_phase_iteration := iteration\<rparr> in
      case pw_topology w of
        Inl e \<Rightarrow> (Inl e, h1)
      | Inr topology \<Rightarrow>
          (case (topology, phase) of
             (Some index_for, Some p) \<Rightarrow>
               (case index_for p of
                  Inl e \<Rightarrow> (Inl e, h1)
                | Inr i \<Rightarrow> (let h2 = h1\<lparr>wh_phase_index := i\<rparr> in
                    if persist then map_prod (map_sum id (\<lambda>_. ())) id (persist_checkpoint w ''phase_started'' h2) else (Inr (), h2)))
           | _ \<Rightarrow> (if persist then map_prod (map_sum id (\<lambda>_. ())) id (persist_checkpoint w ''phase_started'' h1) else (Inr (), h1))))"

text \<open>Publishing a phase: the handle of the run, when it has one; what the screen shows is not modelled.\<close>

definition publish_phase_annotation ::
  "phase_world \<Rightarrow> phase_annotation \<Rightarrow> bool \<Rightarrow> workflow_handle option \<Rightarrow> (string + unit) \<times> workflow_handle option" where
  "publish_phase_annotation w a persist_entry ho =
     (case ho of
        None \<Rightarrow> (Inr (), None)
      | Some h \<Rightarrow> map_prod id Some
          (update_phase w (Some (pa_phase_name a)) (pa_phase_index a) (pa_phase_iteration a) persist_entry h))"

section \<open>The boundary of a phase\<close>

datatype phase_error = PhaseValue string | BoundaryError string

text \<open>What a boundary works on: the handle, the marker dictionary of the context when it has one, and the journal of the conversation.\<close>

record phase_state =
  ps_handle :: "workflow_handle option"
  ps_marker :: "payload option"
  ps_journal :: "journal option"

record boundary =
  bd_completed :: string
  bd_next :: "string option"
  bd_index :: int
  bd_iteration :: int
  bd_outcome :: string
  bd_plan_version :: string

definition safe_outcome :: "boundary \<Rightarrow> string" where
  "safe_outcome b = (let t = take 96 (join '' '' (py_split (bd_outcome b))) in if t = [] then ''completed'' else t)"

definition completed_name :: "boundary \<Rightarrow> string" where
  "completed_name b = take 128 (py_strip (bd_completed b))"

definition next_name :: "boundary \<Rightarrow> string" where
  "next_name b = (case bd_next b of None \<Rightarrow> [] | Some n \<Rightarrow> take 128 (py_strip n))"

definition boundary_key :: "boundary \<Rightarrow> int \<Rightarrow> string" where
  "boundary_key b index = join ''|'' [completed_name b, next_name b, int_text index, int_text (bd_iteration b), safe_outcome b]"

definition recorded_boundary :: "boundary \<Rightarrow> payload \<Rightarrow> bool" where
  "recorded_boundary b m \<longleftrightarrow> pget m ''durable'' = PBool True
     \<and> (pget m ''completed_phase'' = PStr (completed_name b)
        \<and> dget_or m ''next_phase'' (PStr []) = of_opt_str (if bd_next b = Some [] then None else bd_next b)
        \<and> same_int (pget m ''phase_iteration'') (bd_iteration b) \<and> pget m ''outcome'' = PStr (safe_outcome b)
        \<or> pget m ''boundary_key'' = PStr (boundary_key b (bd_index b)))"

definition mark_boundary :: "boundary \<Rightarrow> string \<Rightarrow> int \<Rightarrow> payload \<Rightarrow> payload" where
  "mark_boundary b key revision m =
     dset ''checkpoint_revision'' (PInt revision) (dset ''durable'' (PBool True) (dset ''boundary_key'' (PStr key)
       (dset ''outcome'' (PStr (safe_outcome b)) (dset ''phase_iteration'' (PInt (bd_iteration b))
       (dset ''next_phase'' (of_opt_str (bd_next b)) (dset ''completed_phase'' (PStr (completed_name b)) m))))))"

text \<open>What goes wrong while the journal is written is only logged.\<close>

definition note_boundary :: "boundary \<Rightarrow> string \<Rightarrow> workflow_handle \<Rightarrow> journal \<Rightarrow> journal" where
  "note_boundary b key h j =
     snd (workflow_phase_boundary (wh_run_id h) (wh_workflow_name h) (completed_name b) (bd_next b) (wh_phase_index h)
       (bd_iteration b) (safe_outcome b) (bd_plan_version b) key j)"

definition boundary_failed :: "boundary \<Rightarrow> string \<Rightarrow> phase_error" where
  "boundary_failed b e = BoundaryError (''could not persist boundary after phase '' @ py_repr (bd_completed b) @ '': '' @ e)"

definition checkpoint_phase_boundary :: "phase_world \<Rightarrow> boundary \<Rightarrow> phase_state \<Rightarrow> (phase_error + int option) \<times> phase_state" where
  "checkpoint_phase_boundary w b s =
     (if py_strip (bd_completed b) = [] then (Inl (PhaseValue ''completed_phase must not be empty''), s)
      else case ps_handle s of
        None \<Rightarrow> (Inr None, s)
      | Some h \<Rightarrow>
          (if \<not> wh_supported h then (Inl (boundary_failed b ''workflow checkpointing is unavailable''), s)
           else if (case ps_marker s of None \<Rightarrow> False | Some m \<Rightarrow> recorded_boundary b m) then (Inr None, s)
           else case update_phase w (bd_next b) (bd_index b) (bd_iteration b) False h of
             (Inl e, h1) \<Rightarrow> (Inl (boundary_failed b e), s\<lparr>ps_handle := Some h1\<rparr>)
           | (Inr _, h1) \<Rightarrow>
               let key = boundary_key b (wh_phase_index h1) in
               (case save_checkpoint w (''phase_boundary:'' @ completed_name b @ '':'' @ safe_outcome b) h1 of
                  (Inl e, h2) \<Rightarrow> (Inl (boundary_failed b e), s\<lparr>ps_handle := Some h2\<rparr>)
                | (Inr revision, h2) \<Rightarrow>
                    (Inr (Some revision), s\<lparr>ps_handle := Some h2, ps_marker := map_option (mark_boundary b key revision) (ps_marker s),
                       ps_journal := map_option (note_boundary b key h2) (ps_journal s)\<rparr>))))"

section \<open>The transition an agent records\<close>

definition max_transition_summary_chars :: nat where "max_transition_summary_chars = 4000"

text \<open>The event of a transition, whether it is set, and its data; a summary or an outcome that is no text is an argument \<open>None\<close>.\<close>

record phase_record =
  tr_set :: bool
  tr_outcome :: string
  tr_summary :: string

definition record_phase_transition :: "string option \<Rightarrow> string option \<Rightarrow> phase_record \<Rightarrow> (string + string \<times> nat) \<times> phase_record" where
  "record_phase_transition outcome summary t =
     (case summary of
        None \<Rightarrow> (Inl ''The transition summary must be text.'', t)
      | Some body \<Rightarrow>
          let short = py_rstrip (take max_transition_summary_chars (py_strip body)) in
          if short = [] then (Inl ''The transition summary must not be empty.'', t)
          else case outcome of
            None \<Rightarrow> (Inl ''The transition outcome is invalid.'', t)
          | Some kind \<Rightarrow>
              if py_strip kind = [] \<or> 128 < length kind then (Inl ''The transition outcome is invalid.'', t)
              else if tr_set t then (Inl ''A phase transition was already recorded.'', t)
              else (Inr (kind, length short), \<lparr>tr_set = True, tr_outcome = kind, tr_summary = short\<rparr>))"

section \<open>Where a restarted run resumes\<close>

record resume_resolution =
  rr_phase_name :: string
  rr_phase_index :: nat
  rr_completed_phases :: "string list"
  rr_source :: string
  rr_reconciled :: bool
  rr_diagnostic :: string

definition canonical :: "string \<Rightarrow> string" where
  "canonical s = py_lower (py_strip s)"

definition plan_names :: "string list \<Rightarrow> string list" where
  "plan_names phase_names = filter (\<lambda>n. n \<noteq> []) (map canonical phase_names)"

definition normalise_names :: "string list \<Rightarrow> string list \<Rightarrow> string list" where
  "normalise_names values allowed = rev (fold (\<lambda>v result. let n = canonical v in
     if n \<in> set allowed \<and> n \<notin> set result then n # result else result) values [])"

fun prefix_length :: "string list \<Rightarrow> string set \<Rightarrow> nat" where
  "prefix_length [] evidence = 0"
| "prefix_length (n # ns) evidence = (if n \<in> evidence then Suc (prefix_length ns evidence) else 0)"

fun index_of :: "'a \<Rightarrow> 'a list \<Rightarrow> nat" where
  "index_of x [] = 0"
| "index_of x (y # ys) = (if x = y then 0 else Suc (index_of x ys))"

definition resume_choice ::
  "string list \<Rightarrow> string \<Rightarrow> string list \<Rightarrow> string list \<Rightarrow> string set \<Rightarrow> string \<Rightarrow> bool \<Rightarrow> string \<times> string" where
  "resume_choice names current receipts journal evidence terminal preserve =
     (if preserve \<and> current \<in> set names then (current, ''reentry_cursor'')
      else if evidence \<noteq> {} then
        (let k = prefix_length names evidence;
             chosen = (if k < length names then names ! k else canonical terminal)
         in (if chosen = [] then last names else chosen,
             if receipts \<noteq> [] then ''phase_receipts'' else if journal \<noteq> [] then ''workflow_journal'' else ''durable_phase_state''))
      else if current \<in> set names then (current, ''checkpoint_cursor'')
      else (hd names, ''safe_fallback''))"

definition reconcile_phase_cursor ::
  "string list \<Rightarrow> string option \<Rightarrow> string list \<Rightarrow> string list \<Rightarrow> string list \<Rightarrow> string \<Rightarrow> bool \<Rightarrow> string + resume_resolution" where
  "reconcile_phase_cursor phase_names current_phase completed_phases receipt_phases journal_phases terminal preserve =
     (let names = plan_names phase_names in
      bindE (guardE (names \<noteq> [] \<and> distinct names) ''phase_names must be non-empty and unique'') (\<lambda>_.
      let current = (case current_phase of None \<Rightarrow> [] | Some c \<Rightarrow> canonical c);
          completed = normalise_names completed_phases names;
          receipts = normalise_names receipt_phases names;
          journal = normalise_names journal_phases names;
          evidence = set receipts \<union> set completed \<union> set journal;
          k = prefix_length names evidence;
          (selected, source) = resume_choice names current receipts journal evidence terminal preserve;
          reconciled = (current \<noteq> [] \<and> selected \<noteq> current)
      in Inr \<lparr>rr_phase_name = selected, rr_phase_index = index_of selected names, rr_completed_phases = take k names,
           rr_source = source, rr_reconciled = reconciled,
           rr_diagnostic = (if reconciled \<or> source = ''phase_receipts'' \<or> source = ''safe_fallback''
             then ''resume cursor '' @ (if current = [] then ''<missing>'' else current) @ '' resolved to '' @ selected @ '' from '' @ source
               @ ''; verified contiguous prefix length='' @ nat_digits k
             else [])\<rparr>))"

end
