(* ===== verification/Phase_Properties.thy ===== *)
theory Phase_Properties
  imports Phases Journal_Steps
begin

text \<open>
  The phases of a workflow: which phase a restart resumes at, the boundary that is stored once, and the way of a stored
  boundary through the journal to the resumed cursor.
\<close>

section \<open>Names and prefixes\<close>











section \<open>The boundary on the handle\<close>



lemma update_phase_same:
  "update_phase w p i n False h = (r, h') \<Longrightarrow> wh_run_id h' = wh_run_id h \<and> wh_workflow_name h' = wh_workflow_name h \<and> wh_saved h' = wh_saved h
    \<and> wh_supported h' = wh_supported h"
  by (auto simp: update_phase_def Let_def split: option.splits sum.splits)

lemma save_checkpoint_same:
  "save_checkpoint w reason h = (Inr v, h') \<Longrightarrow> wh_run_id h' = wh_run_id h \<and> wh_workflow_name h' = wh_workflow_name h
    \<and> wh_saved h' = wh_saved h @ [reason] \<and> wh_supported h' = wh_supported h \<and> wh_phase_index h' = wh_phase_index h"
  by (auto simp: save_checkpoint_def split: sum.splits)

text \<open>A boundary that is stored: what it leaves of the state.\<close>

lemma boundary_stored:
  assumes "checkpoint_phase_boundary w b s = (Inr (Some v), s')"
  obtains h h' key where "ps_handle s = Some h" "ps_handle s' = Some h'" "py_strip (bd_completed b) \<noteq> []" "wh_supported h'"
    "wh_run_id h' = wh_run_id h" "wh_workflow_name h' = wh_workflow_name h"
    "wh_saved h' = wh_saved h @ [''phase_boundary:'' @ completed_name b @ '':'' @ safe_outcome b]"
    "ps_marker s' = map_option (mark_boundary b key v) (ps_marker s)" "ps_journal s' = map_option (note_boundary b key h') (ps_journal s)"
proof -
  obtain h where h: "ps_handle s = Some h" "py_strip (bd_completed b) \<noteq> []" "wh_supported h"
    using assms by (auto simp: checkpoint_phase_boundary_def split: if_splits option.splits)
  obtain u h1 where h1: "update_phase w (bd_next b) (bd_index b) (bd_iteration b) False h = (Inr u, h1)"
    using assms h by (cases "update_phase w (bd_next b) (bd_index b) (bd_iteration b) False h")
      (auto simp: checkpoint_phase_boundary_def split: if_splits sum.splits)
  let ?reason = "''phase_boundary:'' @ completed_name b @ '':'' @ safe_outcome b"
  obtain h2 where h2: "save_checkpoint w ?reason h1 = (Inr v, h2)"
    "s' = s\<lparr>ps_handle := Some h2, ps_marker := map_option (mark_boundary b (boundary_key b (wh_phase_index h1)) v) (ps_marker s),
       ps_journal := map_option (note_boundary b (boundary_key b (wh_phase_index h1)) h2) (ps_journal s)\<rparr>"
    using assms h h1 by (cases "save_checkpoint w ?reason h1")
      (auto simp: checkpoint_phase_boundary_def Let_def split: if_splits sum.splits)
  show thesis
    by (rule that[OF h(1), of h2]) (use h h2 update_phase_same[OF h1] save_checkpoint_same[OF h2(1)] in auto)
qed



section \<open>A run of boundaries\<close>






text \<open>The cursor of a checkpoint that is further than the evidence is moved back.\<close>

lemma phase_cursor_moves_back:
  "map_sum id rr_phase_name (reconcile_phase_cursor [''a'', ''b'', ''c''] (Some ''c'') [] [''a''] [] [] False) = Inr ''b''"
  by code_simp

section \<open>Properties\<close>

text \<open>
  A boundary is stored once. When the boundary after a phase was stored and the run keeps its marker, the checkpoint store
  got one checkpoint, named after it, and announcing the same boundary again stores nothing and changes nothing.
\<close>

theorem phase_boundary_once:
  assumes "checkpoint_phase_boundary w b s = (Inr (Some v), s')" "ps_marker s = Some m" "bd_next b \<noteq> Some []"
  shows "checkpoint_phase_boundary w' b s' = (Inr None, s')
    \<and> (\<exists>h h'. ps_handle s = Some h \<and> ps_handle s' = Some h'
        \<and> wh_saved h' = wh_saved h @ [''phase_boundary:'' @ completed_name b @ '':'' @ safe_outcome b])"
proof -
  obtain h h' key where h: "ps_handle s = Some h" "ps_handle s' = Some h'" "py_strip (bd_completed b) \<noteq> []" "wh_supported h'"
    "wh_saved h' = wh_saved h @ [''phase_boundary:'' @ completed_name b @ '':'' @ safe_outcome b]"
    "ps_marker s' = map_option (mark_boundary b key v) (ps_marker s)"
    by (rule boundary_stored[OF assms(1)])
  have "recorded_boundary b (mark_boundary b key v m)"
    using assms(3) by (simp add: recorded_boundary_def mark_boundary_def pget_dset_key)
  then have "checkpoint_phase_boundary w' b s' = (Inr None, s')"
    using h assms(2) by (simp add: checkpoint_phase_boundary_def)
  then show ?thesis using h(1,2,5) by blast
qed


section \<open>Witnesses\<close>

definition demo_world :: phase_world where
  "demo_world = \<lparr>pw_topology = Inr None, pw_save = (\<lambda>h _. Inr (wh_revision h + 1)), pw_validation_error = (\<lambda>_. False)\<rparr>"

definition demo_handle0 :: workflow_handle where
  "demo_handle0 = \<lparr>wh_run_id = ''r1'', wh_workflow_name = ''w'', wh_current_phase = Some ''a'', wh_phase_index = 0,
     wh_phase_iteration = 0, wh_supported = True, wh_revision = 0, wh_saved = []\<rparr>"

definition demo_phases :: phase_state where
  "demo_phases = \<lparr>ps_handle = Some demo_handle0, ps_marker = Some [],
     ps_journal = Some (journal_open \<lparr>jf_lines = [], jf_tail = Clean\<rparr> [])\<rparr>"

definition demo_boundary :: boundary where
  "demo_boundary = \<lparr>bd_completed = ''a'', bd_next = Some ''b'', bd_index = 1, bd_iteration = 0, bd_outcome = ''ok'', bd_plan_version = []\<rparr>"

lemma demo_strip: "py_strip ''a'' = ''a''" "py_strip ''b'' = ''b''" "canonical ''a'' = ''a''" "canonical ''b'' = ''b''"
  "completed_name demo_boundary = ''a''"
  by code_simp+

lemma demo_stored: "fst (checkpoint_phase_boundary demo_world demo_boundary demo_phases) = Inr (Some 1)"
  by (simp add: checkpoint_phase_boundary_def demo_boundary_def demo_phases_def demo_handle0_def demo_world_def demo_strip recorded_boundary_def
      update_phase_def save_checkpoint_def Let_def pget_def dget_or_def)

theorem phase_boundary_once_witness:
  "fst (checkpoint_phase_boundary demo_world demo_boundary (snd (checkpoint_phase_boundary demo_world demo_boundary demo_phases))) = Inr None"
proof -
  have "checkpoint_phase_boundary demo_world demo_boundary demo_phases
    = (Inr (Some 1), snd (checkpoint_phase_boundary demo_world demo_boundary demo_phases))"
    using demo_stored by (metis prod.collapse)
  from phase_boundary_once[OF this, of "[]" demo_world] show ?thesis by (simp add: demo_phases_def demo_boundary_def)
qed


end
