(* ===== verification/Permissions.thy ===== *)
theory Permissions
  imports Kernel_State Bg_Model
begin

text \<open>
  The permissions of an agent (\<open>src/agenthicc/security.py\<close>): patterns of tool names, the scope of an agent and its
  restriction, the scopes of the agents of a session, and the rules of the global policy.

  A frozen set is a set. The name of the host of a URL (\<open>urlparse\<close>) and the text of a float are arguments.
\<close>

section \<open>Patterns of names\<close>

text \<open>\<open>fnmatch.fnmatch\<close> on a POSIX system: any text, any character, and the characters of a class, which may be negated.\<close>

fun class_items :: "string \<Rightarrow> (char \<times> char) list" where
  "class_items [] = []"
| "class_items (c # cs) =
     (if 2 \<le> length cs \<and> hd cs = CHR ''-'' then (c, cs ! 1) # class_items (drop 2 cs) else (c, c) # class_items cs)"

definition in_class :: "string \<Rightarrow> char \<Rightarrow> bool" where
  "in_class body c \<longleftrightarrow> (\<exists>(a, b) \<in> set (class_items body). code a \<le> code c \<and> code c \<le> code b)"

text \<open>The class that starts behind a bracket, unless it is never closed: whether it is negated, its body, and what follows.\<close>

definition bracket :: "string \<Rightarrow> (bool \<times> string \<times> string) option" where
  "bracket p =
     (let neg = starts_with p ''!''; p1 = (if neg then List.tl p else p); k = (if starts_with p1 '']'' then 1 else 0);
          body = take k p1 @ takeWhile (\<lambda>c. c \<noteq> CHR '']'') (drop k p1); rest = dropWhile (\<lambda>c. c \<noteq> CHR '']'') (drop k p1)
      in if rest = [] then None else Some (neg, body, List.tl rest))"

lemma bracket_shorter: "bracket p = Some (neg, body, rest) \<Longrightarrow> length rest < length p"
proof -
  assume b: "bracket p = Some (neg, body, rest)"
  let ?p1 = "if starts_with p ''!'' then List.tl p else p"
  let ?k = "if starts_with ?p1 '']'' then 1 else 0 :: nat"
  let ?d = "dropWhile (\<lambda>c. c \<noteq> CHR '']'') (drop ?k ?p1)"
  have "rest = List.tl ?d" "?d \<noteq> []" using b by (auto simp: bracket_def Let_def split: if_splits)
  moreover have "length ?d \<le> length p" using length_dropWhile_le[of "\<lambda>c. c \<noteq> CHR '']''" "drop ?k ?p1"] by (auto split: if_splits)
  ultimately show ?thesis by (cases ?d) auto
qed

function (sequential) glob_match :: "string \<Rightarrow> string \<Rightarrow> bool" where
  "glob_match [] s = (s = [])"
| "glob_match (p # ps) [] = (p = CHR ''*'' \<and> glob_match ps [])"
| "glob_match (p # ps) (c # cs) =
     (if p = CHR ''*'' then glob_match ps (c # cs) \<or> glob_match (p # ps) cs
      else if p = CHR ''?'' then glob_match ps cs
      else case (if p = CHR ''['' then bracket ps else None) of
        None \<Rightarrow> p = c \<and> glob_match ps cs
      | Some (neg, body, rest) \<Rightarrow> in_class body c \<noteq> neg \<and> glob_match rest cs)"
  by pat_completeness auto
termination
  by (relation "measure (\<lambda>(p, s). length p + length s)") (auto split: if_splits dest: bracket_shorter)

section \<open>The scope of an agent\<close>

record agent_scope =
  ag_allowed_tools :: "string set option"
  ag_denied_tools :: "string set"
  ag_allowed_comm_tools :: "string set option"
  ag_max_tool_call_budget :: int
  ag_max_spawn_depth :: int

definition default_scope :: agent_scope where
  "default_scope = \<lparr>ag_allowed_tools = None, ag_denied_tools = {}, ag_allowed_comm_tools = None, ag_max_tool_call_budget = 100,
     ag_max_spawn_depth = 3\<rparr>"

definition is_tool_allowed :: "agent_scope \<Rightarrow> string \<Rightarrow> bool" where
  "is_tool_allowed sc name \<longleftrightarrow> \<not> (\<exists>p \<in> ag_denied_tools sc. glob_match p name)
     \<and> (case ag_allowed_tools sc of None \<Rightarrow> True | Some ps \<Rightarrow> \<exists>p \<in> ps. glob_match p name)"

definition narrower :: "'a set option \<Rightarrow> 'a set option \<Rightarrow> 'a set option" where
  "narrower x y = (case (x, y) of (Some a, Some b) \<Rightarrow> Some (a \<inter> b) | (Some a, None) \<Rightarrow> Some a | (None, z) \<Rightarrow> z)"

definition restrict_scope :: "agent_scope \<Rightarrow> agent_scope \<Rightarrow> agent_scope" where
  "restrict_scope a b = \<lparr>ag_allowed_tools = narrower (ag_allowed_tools a) (ag_allowed_tools b),
     ag_denied_tools = ag_denied_tools a \<union> ag_denied_tools b,
     ag_allowed_comm_tools = narrower (ag_allowed_comm_tools a) (ag_allowed_comm_tools b),
     ag_max_tool_call_budget = min (ag_max_tool_call_budget a) (ag_max_tool_call_budget b),
     ag_max_spawn_depth = min (ag_max_spawn_depth a) (ag_max_spawn_depth b)\<rparr>"

definition string_frozenset :: "pyval \<Rightarrow> string set" where
  "string_frozenset v = set (case v of PList xs \<Rightarrow> some_strs xs | PTuple xs \<Rightarrow> some_strs xs | PSet xs \<Rightarrow> some_strs xs | _ \<Rightarrow> [])"

definition int_value :: "pyval \<Rightarrow> int \<Rightarrow> int" where
  "int_value v d = (case v of PInt i \<Rightarrow> i | _ \<Rightarrow> d)"

definition scope_from_dict :: "payload \<Rightarrow> agent_scope" where
  "scope_from_dict d =
     \<lparr>ag_allowed_tools = (if pget d ''allowed_tools'' = PNone then None else Some (string_frozenset (pget d ''allowed_tools''))),
      ag_denied_tools = string_frozenset (dget_or d ''denied_tools'' (PList [])),
      ag_allowed_comm_tools = (if pget d ''allowed_comm_tools'' = PNone then None else Some (string_frozenset (pget d ''allowed_comm_tools''))),
      ag_max_tool_call_budget = int_value (pget d ''max_tool_call_budget'') 100,
      ag_max_spawn_depth = int_value (pget d ''max_spawn_depth'') 3\<rparr>"

section \<open>The scopes of a session\<close>

record scope_manager =
  sm_scopes :: "agent_scope pydict"
  sm_depths :: "int pydict"

definition truthy_id :: "string option \<Rightarrow> string option" where
  "truthy_id x = (if x = Some [] then None else x)"

definition register_agent :: "string \<Rightarrow> agent_scope option \<Rightarrow> string option \<Rightarrow> scope_manager \<Rightarrow> scope_manager" where
  "register_agent agent sc parent m =
     (let p = truthy_id parent;
          depth = (case p of None \<Rightarrow> 0 | Some q \<Rightarrow> dget_or (sm_depths m) q 0);
          above = Option.bind p (dget (sm_scopes m));
          mine = (case (sc, above) of
             (None, None) \<Rightarrow> default_scope | (None, Some a) \<Rightarrow> a | (Some x, Some a) \<Rightarrow> restrict_scope a x | (Some x, None) \<Rightarrow> x)
      in m\<lparr>sm_depths := dset agent (depth + 1) (sm_depths m), sm_scopes := dset agent mine (sm_scopes m)\<rparr>)"

definition get_scope :: "string \<Rightarrow> scope_manager \<Rightarrow> agent_scope option" where
  "get_scope agent m = dget (sm_scopes m) agent"

definition get_depth :: "string \<Rightarrow> scope_manager \<Rightarrow> int" where
  "get_depth agent m = dget_or (sm_depths m) agent 0"

definition update_scope :: "string \<Rightarrow> agent_scope \<Rightarrow> scope_manager \<Rightarrow> scope_manager" where
  "update_scope agent new m = m\<lparr>sm_scopes := dset agent (case dget (sm_scopes m) agent of
     None \<Rightarrow> new | Some existing \<Rightarrow> restrict_scope existing new) (sm_scopes m)\<rparr>"

definition can_spawn :: "string \<Rightarrow> scope_manager \<Rightarrow> bool" where
  "can_spawn parent m \<longleftrightarrow> get_depth parent m < (case dget (sm_scopes m) parent of None \<Rightarrow> 3 | Some sc \<Rightarrow> ag_max_spawn_depth sc)"

section \<open>The global policy\<close>

definition expected_values :: "pyval \<Rightarrow> pyval list" where
  "expected_values v = (case v of PList xs \<Rightarrow> xs | PTuple xs \<Rightarrow> xs | _ \<Rightarrow> [v])"

definition path_prefix_matches :: "(pyfloat \<Rightarrow> string) \<Rightarrow> pyval \<Rightarrow> payload \<Rightarrow> bool" where
  "path_prefix_matches ft expected conditions =
     (let p = text_field ft conditions ''path'' [] in
      p \<noteq> [] \<and> list_ex (\<lambda>v. starts_with p (py_str ft v)) (expected_values expected))"

definition network_domain_matches :: "(pyfloat \<Rightarrow> string) \<Rightarrow> (string \<Rightarrow> string option) \<Rightarrow> pyval \<Rightarrow> payload \<Rightarrow> bool" where
  "network_domain_matches ft hostname expected conditions =
     (let host = (case pget conditions ''host'' of
          PNone \<Rightarrow> (case hostname (text_field ft conditions ''url'' []) of None \<Rightarrow> [] | Some h \<Rightarrow> h) | v \<Rightarrow> py_str ft v)
      in host \<noteq> [] \<and> list_ex (\<lambda>d. d = PStr host \<or> ends_with host (CHR ''.'' # py_str ft d)) (expected_values expected))"

definition conditions_match :: "(pyfloat \<Rightarrow> string) \<Rightarrow> (string \<Rightarrow> string option) \<Rightarrow> permission_rule \<Rightarrow> payload \<Rightarrow> bool" where
  "conditions_match ft hostname rule conditions =
     list_all (\<lambda>(k, expected).
       if k = ''path_prefix'' then path_prefix_matches ft expected conditions
       else if k = ''network_domain'' then network_domain_matches ft hostname expected conditions
       else False) (pr_conditions rule)"

definition check_global :: "(pyfloat \<Rightarrow> string) \<Rightarrow> (string \<Rightarrow> string option) \<Rightarrow> security_policy \<Rightarrow> string \<Rightarrow> payload \<Rightarrow> string" where
  "check_global ft hostname policy tool conditions =
     (case find (\<lambda>r. glob_match (pr_tool_pattern r) tool \<and> conditions_match ft hostname r conditions) (sp_permission_rules policy) of
        Some r \<Rightarrow> pr_action r
      | None \<Rightarrow> sp_default_action policy)"

definition check_permission ::
  "(pyfloat \<Rightarrow> string) \<Rightarrow> (string \<Rightarrow> string option) \<Rightarrow> security_policy \<Rightarrow> scope_manager option \<Rightarrow> string \<Rightarrow> payload \<Rightarrow> string option
    \<Rightarrow> string" where
  "check_permission ft hostname policy manager tool conditions agent =
     (case Option.bind agent (\<lambda>a. Option.bind manager (get_scope a)) of
        Some sc \<Rightarrow> if is_tool_allowed sc tool then check_global ft hostname policy tool conditions else ''deny''
      | None \<Rightarrow> check_global ft hostname policy tool conditions)"

definition policy_of_config :: "string list \<Rightarrow> string list \<Rightarrow> security_policy" where
  "policy_of_config denied allowed =
     \<lparr>sp_permission_rules = map (\<lambda>p. \<lparr>pr_tool_pattern = p, pr_action = ''deny'', pr_conditions = []\<rparr>) denied
        @ map (\<lambda>p. \<lparr>pr_tool_pattern = p, pr_action = ''allow'', pr_conditions = []\<rparr>) allowed,
      sp_default_action = ''deny''\<rparr>"

section \<open>What holds\<close>

lemma narrower_le: "narrower x y = Some c \<Longrightarrow> (\<forall>a. x = Some a \<longrightarrow> c \<subseteq> a) \<and> (\<forall>b. y = Some b \<longrightarrow> c \<subseteq> b)"
  by (auto simp: narrower_def split: option.splits)

lemma narrower_None: "narrower x y = None \<longleftrightarrow> x = None \<and> y = None"
  by (auto simp: narrower_def split: option.splits)

text \<open>A restriction allows what both sides allow, at most.\<close>

lemma restrict_allows: "is_tool_allowed (restrict_scope a b) name \<Longrightarrow> is_tool_allowed a name \<and> is_tool_allowed b name"
  by (fastforce simp: is_tool_allowed_def restrict_scope_def narrower_def split: option.splits)

text \<open>It may allow less: the patterns that are allowed are intersected as texts.\<close>

lemma restrict_by_text:
  "let a = default_scope\<lparr>ag_allowed_tools := Some {''git_*''}\<rparr>; b = default_scope\<lparr>ag_allowed_tools := Some {''git_log''}\<rparr>
   in is_tool_allowed a ''git_log'' \<and> is_tool_allowed b ''git_log'' \<and> \<not> is_tool_allowed (restrict_scope a b) ''git_log''"
  by code_simp

lemma registered_within_parent:
  assumes "dget (sm_scopes m) parent = Some a" "parent \<noteq> []" "dget (sm_scopes (register_agent agent sc (Some parent) m)) agent = Some mine"
    "is_tool_allowed mine name"
  shows "is_tool_allowed a name"
  using assms by (cases sc) (auto simp: register_agent_def truthy_id_def Let_def dest: restrict_allows)

lemma unconditional: "pr_conditions r = [] \<Longrightarrow> conditions_match ft hostname r conditions"
  by (simp add: conditions_match_def)

lemma denied_first:
  assumes "\<exists>p \<in> set denied. glob_match p tool"
  shows "check_permission ft hostname (policy_of_config denied allowed) manager tool conditions agent = ''deny''"
proof -
  let ?P = "\<lambda>r. glob_match (pr_tool_pattern r) tool \<and> conditions_match ft hostname r conditions"
  let ?rule = "\<lambda>p. \<lparr>pr_tool_pattern = p, pr_action = ''deny'', pr_conditions = []\<rparr>"
  have "\<exists>r. find ?P (map ?rule denied @ xs) = Some r \<and> pr_action r = ''deny''" for xs
    using assms by (induction denied) (auto simp: unconditional)
  from this[of "map (\<lambda>p. \<lparr>pr_tool_pattern = p, pr_action = ''allow'', pr_conditions = []\<rparr>) allowed"]
  have "check_global ft hostname (policy_of_config denied allowed) tool conditions = ''deny''"
    by (auto simp: check_global_def policy_of_config_def)
  then show ?thesis by (simp add: check_permission_def split: option.splits)
qed

end
