(* ===== verification/Workspace.thy ===== *)
theory Workspace
  imports Approval Bg_Model
begin

text \<open>
  The boundary of the workspace (\<open>src/agenthicc/tools/workspace_access.py\<close>): the roots a session may use, the
  canonical target of a requested path, the preflight of a tool call, and the authorization of one access.

  Paths are those of a POSIX system (two leading slashes, which \<open>realpath\<close> takes for one, are one). What \<open>os.path.realpath\<close> makes of an absolute path, and whether a path exists, are
  the file system's, an argument; another program may change it while the session waits for the user, not in
  between. The mode is read where the code reads it, and each reading may differ. Answers of the approval service
  are those of \<open>Approval\<close>. The grant a preflight hands to its adapter is that of the running task, and of this policy.
\<close>

section \<open>Paths\<close>

record ppath =
  pp_rooted :: bool
  pp_parts :: "string list"

definition path_of :: "string \<Rightarrow> ppath" where
  "path_of s = \<lparr>pp_rooted = starts_with s ''/'', pp_parts = filter (\<lambda>c. c \<noteq> [] \<and> c \<noteq> ''.'') (split_on (CHR ''/'') s)\<rparr>"

definition path_text :: "ppath \<Rightarrow> string" where
  "path_text p = (if pp_rooted p then ''/'' @ join ''/'' (pp_parts p) else if pp_parts p = [] then ''.'' else join ''/'' (pp_parts p))"

definition path_join :: "ppath \<Rightarrow> ppath \<Rightarrow> ppath" where
  "path_join a p = (if pp_rooted p then p else a\<lparr>pp_parts := pp_parts a @ pp_parts p\<rparr>)"

definition path_parent :: "ppath \<Rightarrow> ppath" where
  "path_parent p = p\<lparr>pp_parts := butlast (pp_parts p)\<rparr>"

text \<open>A canonical path is absolute and given by its components.\<close>

type_synonym canonical_path = "string list"

definition rooted :: "canonical_path \<Rightarrow> ppath" where
  "rooted c = \<lparr>pp_rooted = True, pp_parts = c\<rparr>"

definition canonical_text :: "canonical_path \<Rightarrow> string" where
  "canonical_text c = path_text (rooted c)"

record filesystem =
  fs_real :: "ppath \<Rightarrow> string + canonical_path"
  fs_exists :: "canonical_path \<Rightarrow> bool"

definition contains :: "canonical_path \<Rightarrow> canonical_path \<Rightarrow> bool" where
  "contains base c \<longleftrightarrow> take (length base) c = base"

definition display_path :: "canonical_path \<Rightarrow> canonical_path \<Rightarrow> string" where
  "display_path c base = (if contains base c then path_text \<lparr>pp_rooted = False, pp_parts = drop (length base) c\<rparr> else canonical_text c)"

section \<open>The scope\<close>

record scope =
  sc_primary :: canonical_path
  sc_roots :: "canonical_path list"
  sc_id :: string

definition root_order :: "canonical_path \<Rightarrow> int \<times> string" where
  "root_order c = (- int (length c), canonical_text c)"

definition sorted_roots :: "canonical_path list \<Rightarrow> canonical_path list" where
  "sorted_roots cs = sort_key root_order (map snd (fold (\<lambda>c. dset (canonical_text c) c) cs []))"

definition scope_digest :: "(string \<Rightarrow> string) \<Rightarrow> canonical_path list \<Rightarrow> string" where
  "scope_digest sha roots = take 16 (sha (join [CHR 0x00] (map canonical_text roots)))"

definition scope_create :: "(string \<Rightarrow> string) \<Rightarrow> filesystem \<Rightarrow> ppath \<Rightarrow> ppath list \<Rightarrow> string + scope" where
  "scope_create sha fs primary_root allowed =
     bindE (fs_real fs primary_root) (\<lambda>primary.
     bindE (mapE (\<lambda>v. fs_real fs (path_join (rooted primary) v)) allowed) (\<lambda>cs.
     let roots = sorted_roots (primary # cs)
     in Inr \<lparr>sc_primary = primary, sc_roots = roots, sc_id = scope_digest sha roots\<rparr>))"

definition last_root :: "canonical_path list \<Rightarrow> canonical_path \<Rightarrow> canonical_path" where
  "last_root roots d = (if roots = [] then d
     else foldl (\<lambda>m c. if (length m, canonical_text m) < (length c, canonical_text c) then c else m) (hd roots) (List.tl roots))"

definition scope_restrict :: "(string \<Rightarrow> string) \<Rightarrow> filesystem \<Rightarrow> ppath list \<Rightarrow> scope \<Rightarrow> string + scope" where
  "scope_restrict sha fs allowed sc =
     bindE (mapE (\<lambda>v. bindE (fs_real fs (path_join (rooted (sc_primary sc)) v)) (\<lambda>c.
       bindE (guardE (\<exists>base \<in> set (sc_roots sc). contains base c)
         (''workspace path '' @ path_text v @ '' is outside the inherited workspace scope'')) (\<lambda>_. Inr c))) allowed) (\<lambda>cs.
     let roots = sorted_roots cs
     in Inr \<lparr>sc_primary = last_root roots (sc_primary sc), sc_roots = roots, sc_id = scope_digest sha roots\<rparr>)"

datatype path_status = InScope | OutsideScope | NotFound | InvalidPath | TargetChanged

fun path_status_value :: "path_status \<Rightarrow> string" where
  "path_status_value InScope = ''in_scope''"
| "path_status_value OutsideScope = ''outside_workspace''"
| "path_status_value NotFound = ''not_found''"
| "path_status_value InvalidPath = ''invalid_path''"
| "path_status_value TargetChanged = ''target_changed''"

record resolved_path =
  rp_requested :: string
  rp_absolute :: canonical_path
  rp_root :: "canonical_path option"
  rp_display :: string
  rp_operation :: string
  rp_exists :: "bool option"
  rp_status :: path_status

definition in_scope :: "resolved_path \<Rightarrow> bool" where
  "in_scope r \<longleftrightarrow> rp_status r = InScope"

definition resolve :: "filesystem \<Rightarrow> scope \<Rightarrow> string \<Rightarrow> string \<Rightarrow> bool \<Rightarrow> string + resolved_path" where
  "resolve fs sc requested operation probe =
     bindE (guardE (CHR 0x00 \<notin> set requested) ''path contains a NUL character'') (\<lambda>_.
     bindE (fs_real fs (path_join (rooted (sc_primary sc)) (path_of requested))) (\<lambda>c.
     let base = find (\<lambda>b. contains b c) (sc_roots sc)
     in Inr \<lparr>rp_requested = requested, rp_absolute = c, rp_root = base,
          rp_display = (case base of None \<Rightarrow> canonical_text c | Some d \<Rightarrow> display_path c d), rp_operation = operation,
          rp_exists = (if base \<noteq> None \<or> probe then Some (fs_exists fs c) else None),
          rp_status = (if base = None then OutsideScope else InScope)\<rparr>))"

definition wildcards :: "char set" where
  "wildcards = {CHR ''*'', CHR ''?'', CHR ''[''}"

definition has_wildcard :: "string \<Rightarrow> bool" where
  "has_wildcard s \<longleftrightarrow> (\<exists>c \<in> set s. c \<in> wildcards)"

text \<open>The literal directory a glob starts from.\<close>

definition pattern_anchor :: "string \<Rightarrow> ppath" where
  "pattern_anchor s =
     (let prefix = takeWhile (\<lambda>c. c \<notin> wildcards) s in
      if prefix \<noteq> [] \<and> last prefix = CHR ''/''
      then (let anchor = rev (dropWhile (\<lambda>c. c = CHR ''/'' \<or> c = CHR 0x5C) (rev prefix))
            in path_of (if anchor \<noteq> [] then anchor else if starts_with prefix ''/'' then ''/'' else ''.''))
      else if prefix \<noteq> [] then path_parent (path_of prefix) else path_of ''.'')"

definition resolve_pattern :: "filesystem \<Rightarrow> scope \<Rightarrow> string \<Rightarrow> string \<Rightarrow> bool \<Rightarrow> string + resolved_path" where
  "resolve_pattern fs sc requested operation probe =
     resolve fs sc (if has_wildcard requested then path_text (pattern_anchor requested) else requested) operation probe"

definition resolve_any :: "filesystem \<Rightarrow> scope \<Rightarrow> bool \<Rightarrow> string \<Rightarrow> string \<Rightarrow> bool \<Rightarrow> string + resolved_path" where
  "resolve_any fs sc pattern = (if pattern then resolve_pattern fs sc else resolve fs sc)"

definition revalidate :: "filesystem \<Rightarrow> scope \<Rightarrow> bool \<Rightarrow> resolved_path \<Rightarrow> string + resolved_path" where
  "revalidate fs sc pattern r =
     bindE (resolve_any fs sc pattern (rp_requested r) (rp_operation r) True) (\<lambda>now.
     Inr (if rp_absolute now \<noteq> rp_absolute r then now\<lparr>rp_requested := rp_requested r, rp_status := TargetChanged\<rparr> else now))"

section \<open>The paths a tool declares\<close>

definition path_fields :: "(string \<times> (string \<times> string) list) list" where
  "path_fields =
     [(''read_file'', [(''path'', ''read'')]), (''get_file_info'', [(''path'', ''metadata'')]), (''write_file'', [(''path'', ''write'')]),
      (''append_file'', [(''path'', ''write'')]), (''patch_file'', [(''path'', ''write'')]), (''truncate_file'', [(''path'', ''write'')]),
      (''touch_file'', [(''path'', ''write'')]), (''make_directory'', [(''path'', ''write'')]), (''delete_file'', [(''path'', ''delete'')]),
      (''list_directory'', [(''path'', ''list'')]), (''search_files'', [(''path'', ''search'')]), (''grep_files'', [(''path'', ''search'')]),
      (''apply_diff'', [(''path'', ''write'')]), (''checksum_file'', [(''path'', ''read'')]),
      (''move_file'', [(''source'', ''write''), (''destination'', ''write'')]), (''copy_file'', [(''source'', ''read''), (''destination'', ''write'')]),
      (''run_bash'', [(''cwd'', ''execute_cwd'')]), (''run_command'', [(''cwd'', ''execute_cwd'')]), (''run_python'', [(''cwd'', ''execute_cwd'')]),
      (''run_python_expr'', [(''cwd'', ''execute_cwd'')]), (''run_tests'', [(''cwd'', ''execute_cwd''), (''path'', ''execute_path'')]),
      (''mention_read'', [(''path'', ''read'')]), (''mention_list'', [(''path'', ''list'')]), (''mention_search'', [(''path'', ''search'')]),
      (''git_status'', [(''__workspace_root'', ''git_root'')]), (''git_diff'', [(''__workspace_root'', ''git_root''), (''path'', ''read'')]),
      (''git_log'', [(''__workspace_root'', ''git_root''), (''path'', ''read'')]), (''git_show'', [(''__workspace_root'', ''git_root'')]),
      (''git_add'', [(''__workspace_root'', ''git_root''), (''paths'', ''write'')]), (''git_commit'', [(''__workspace_root'', ''git_root'')]),
      (''git_checkout'', [(''__workspace_root'', ''git_root'')]), (''git_branch'', [(''__workspace_root'', ''git_root'')]),
      (''git_stash'', [(''__workspace_root'', ''git_root'')]), (''git_blame'', [(''__workspace_root'', ''git_root''), (''path'', ''read'')]),
      (''git_grep'', [(''__workspace_root'', ''git_root'')])]"

definition listed :: "pyval \<Rightarrow> pyval list" where
  "listed v = (case v of PList xs \<Rightarrow> xs | _ \<Rightarrow> [])"

definition field_requests :: "string \<Rightarrow> payload \<Rightarrow> (string \<times> string) list" where
  "field_requests tool input = concat (map (\<lambda>(k, operation). case pget input k of
       PStr s \<Rightarrow> if s = [] then [] else [(s, operation)]
     | PNone \<Rightarrow> if k = ''path'' \<and> tool = ''run_tests'' then [(''tests/'', operation)] else []
     | _ \<Rightarrow> []) (dget_or path_fields tool []))"

definition text_entry :: "pyval \<Rightarrow> string \<Rightarrow> string \<Rightarrow> (string \<times> string) list" where
  "text_entry v k operation = (case mapping_of v of None \<Rightarrow> []
     | Some d \<Rightarrow> (case pget d k of PStr s \<Rightarrow> [(s, operation)] | _ \<Rightarrow> []))"

definition batch_requests :: "string \<Rightarrow> payload \<Rightarrow> (string \<times> string) list" where
  "batch_requests tool input =
     (if tool = ''batch_read'' \<or> tool = ''batch_delete''
      then map (\<lambda>s. (s, if tool = ''batch_read'' then ''read'' else ''delete'')) (some_strs (listed (pget input ''paths'')))
      else if tool = ''batch_write'' then concat (map (\<lambda>v. text_entry v ''path'' ''write'') (listed (pget input ''files'')))
      else if tool = ''batch_move'' \<or> tool = ''batch_copy''
      then concat (map (\<lambda>v. text_entry v ''source'' (if tool = ''batch_move'' then ''write'' else ''read'') @ text_entry v ''destination'' ''write'')
        (listed (if truthy (pget input ''moves'') then pget input ''moves'' else pget input ''copies'')))
      else [])"

definition pattern_can_escape :: "string \<Rightarrow> bool" where
  "pattern_can_escape s \<longleftrightarrow> pp_rooted (path_of s) \<or> ''..'' \<in> set (pp_parts (path_of s))"

definition combine_pattern_path :: "string \<Rightarrow> string \<Rightarrow> string" where
  "combine_pattern_path s pattern = path_text (path_join (path_of s) (path_of pattern))"

definition pattern_requests :: "string \<Rightarrow> payload \<Rightarrow> (string \<times> string) list" where
  "pattern_requests tool input =
     (if tool \<in> {''list_directory'', ''search_files'', ''grep_files''}
      then (case (pget input ''pattern'', dget_or input ''path'' (PStr ''.'')) of
          (PStr pattern, PStr s) \<Rightarrow> (if pattern_can_escape pattern
            then [(combine_pattern_path s pattern, if tool = ''list_directory'' then ''list'' else ''search'')] else [])
        | _ \<Rightarrow> [])
      else [])"

definition requests_for_tool :: "string \<Rightarrow> payload \<Rightarrow> (string \<times> string) list" where
  "requests_for_tool tool input =
     field_requests tool input @ batch_requests tool input
     @ (if tool = ''git_add'' then map (\<lambda>s. (s, ''write'')) (some_strs (listed (pget input ''paths''))) else [])
     @ pattern_requests tool input"

section \<open>The policy of a session\<close>

text \<open>
  \<open>ap_service\<close>: whether an approval service is set; \<open>ap_watch\<close>: whether the mode can be observed. The state holds the
  grants of the turn and of the session, the grant handed to the adapter, and counts the readings of the mode and the
  waits for an answer; \<open>as_answers\<close> is history: the accesses the approval service was asked for, and its answers.
\<close>

type_synonym access_key = "string \<times> string"

record access_policy =
  ap_scope :: scope
  ap_service :: bool
  ap_watch :: bool

record tool_grant =
  tg_tool :: string
  tg_keys :: "access_key set"
  tg_requested :: "(string \<times> string) set"

record access_state =
  as_turn :: "access_key set"
  as_session :: "access_key set"
  as_current :: "tool_grant option"
  as_reads :: nat
  as_waits :: nat
  as_answers :: "(access_key set \<times> approval_response) list"

definition access_init :: access_state where
  "access_init = \<lparr>as_turn = {}, as_session = {}, as_current = None, as_reads = 0, as_waits = 0, as_answers = []\<rparr>"

text \<open>
  What the session does not decide: the mode at each reading, the file system between two waits, and of each wait whether
  the mode changed first, the answer, and what the other tasks of the session made of the grants of the turn and of
  the session meanwhile.
\<close>

record access_env =
  ae_mode :: "nat \<Rightarrow> string"
  ae_fs :: "nat \<Rightarrow> filesystem"
  ae_changed :: "nat \<Rightarrow> bool"
  ae_answer :: "nat \<Rightarrow> approval_response"
  ae_turn :: "nat \<Rightarrow> access_key set \<Rightarrow> access_key set"
  ae_session :: "nat \<Rightarrow> access_key set \<Rightarrow> access_key set"

definition look_mode :: "access_env \<Rightarrow> access_state \<Rightarrow> string \<times> access_state" where
  "look_mode env s = (py_casefold (ae_mode env (as_reads s)), s\<lparr>as_reads := Suc (as_reads s)\<rparr>)"

definition fs_now :: "access_env \<Rightarrow> access_state \<Rightarrow> filesystem" where
  "fs_now env s = ae_fs env (as_waits s)"

definition grant_key :: "resolved_path \<Rightarrow> access_key" where
  "grant_key r = (canonical_text (rp_absolute r), rp_operation r)"

record access_result =
  ar_allowed :: bool
  ar_decisions :: "resolved_path list"
  ar_handled :: bool
  ar_code :: string
  ar_error :: string

definition granted :: "resolved_path list \<Rightarrow> bool \<Rightarrow> string \<Rightarrow> access_result" where
  "granted decisions handled c = \<lparr>ar_allowed = True, ar_decisions = decisions, ar_handled = handled, ar_code = c, ar_error = []\<rparr>"

definition denied :: "resolved_path list \<Rightarrow> string \<Rightarrow> string \<Rightarrow> access_result" where
  "denied decisions c message = \<lparr>ar_allowed = False, ar_decisions = decisions, ar_handled = False, ar_code = c, ar_error = message\<rparr>"

definition clear_current_grant :: "string option \<Rightarrow> access_state \<Rightarrow> access_state" where
  "clear_current_grant tool s =
     (case as_current s of
        None \<Rightarrow> s
      | Some g \<Rightarrow> if tool = None \<or> tool = Some (tg_tool g) then s\<lparr>as_current := None\<rparr> else s)"

definition reset_turn_grants :: "access_state \<Rightarrow> access_state" where
  "reset_turn_grants s = s\<lparr>as_turn := {}, as_current := None\<rparr>"

definition bind_grant :: "string \<Rightarrow> resolved_path list \<Rightarrow> access_state \<Rightarrow> access_state" where
  "bind_grant tool outside s = s\<lparr>as_current := Some \<lparr>tg_tool = tool, tg_keys = set (map grant_key outside),
     tg_requested = set (map (\<lambda>r. (rp_requested r, rp_operation r)) outside)\<rparr>\<rparr>"

section \<open>The preflight of a tool call\<close>

definition resolve_fields :: "filesystem \<Rightarrow> scope \<Rightarrow> (string \<times> string) list \<Rightarrow> string + resolved_path list" where
  "resolve_fields fs sc = mapE (\<lambda>(requested, operation). resolve_any fs sc (has_wildcard requested) requested operation False)"

definition outside_of :: "resolved_path list \<Rightarrow> resolved_path list" where
  "outside_of = filter (\<lambda>r. \<not> in_scope r)"

text \<open>Up to the question: a decision, or the targets the user is asked about.\<close>

datatype preflight = Decided access_result | Asks "resolved_path list"

definition covered_by_grant :: "string \<Rightarrow> access_key set \<Rightarrow> access_state \<Rightarrow> bool" where
  "covered_by_grant tool ks s \<longleftrightarrow> (case as_current s of None \<Rightarrow> False | Some g \<Rightarrow> tg_tool g = tool \<and> ks \<subseteq> tg_keys g)"

definition preflight_tool ::
  "access_policy \<Rightarrow> access_env \<Rightarrow> string \<Rightarrow> payload \<Rightarrow> bool \<Rightarrow> access_state \<Rightarrow> preflight \<times> access_state" where
  "preflight_tool pol env tool input bind s =
     (let fields = requests_for_tool tool input in
      if fields = [] then (Decided (granted [] False ''allowed''), s)
      else case resolve_fields (fs_now env s) (ap_scope pol) fields of
        Inl e \<Rightarrow> (Decided (denied [] ''invalid_path'' (''invalid_path: '' @ e)), s)
      | Inr resolved \<Rightarrow>
          (let outside = outside_of resolved; ks = set (map grant_key outside) in
           if outside = [] then (Decided (granted resolved False ''allowed''), s)
           else let (mode1, s1) = look_mode env s in
           if mode1 = ''plan''
           then (Decided (denied resolved ''outside_workspace'' ''Plan mode cannot access outside the workspace''), s1)
           else let (mode2, s2) = look_mode env s1 in
           if mode2 = ''yolo'' then (Decided (granted resolved False ''yolo_bypass''), s2)
           else if covered_by_grant tool ks s2 then (Decided (granted resolved True ''scope_grant''), s2)
           else if ks \<subseteq> as_session s2 \<or> ks \<subseteq> as_turn s2
           then (Decided (granted resolved True ''scope_grant''), if bind then bind_grant tool outside s2 else s2)
           else if \<not> ap_service pol
           then (Decided (denied resolved ''approval_unavailable'' ''outside_workspace access requires an interactive approval service''), s2)
           else (Asks resolved, s2)))"

text \<open>
  The wait: a request that a change of the mode to Plan or Yolo ends is decided by the mode, any other by the service.
\<close>

definition mode_response :: "bool \<Rightarrow> approval_response" where
  "mode_response yolo = (plain_response yolo)\<lparr>rs_message := ''workspace approval re-evaluated after mode change'',
     rs_scope_grant := (if yolo then Some ''target_once'' else None)\<rparr>"

definition answered :: "access_env \<Rightarrow> nat \<Rightarrow> access_key set \<Rightarrow> access_state \<Rightarrow> approval_response \<times> access_state" where
  "answered env n ks s = (ae_answer env n, s\<lparr>as_answers := as_answers s @ [(ks, ae_answer env n)]\<rparr>)"

definition await_scope_approval ::
  "access_policy \<Rightarrow> access_env \<Rightarrow> access_key set \<Rightarrow> access_state \<Rightarrow> approval_response \<times> access_state" where
  "await_scope_approval pol env ks s =
     (let n = as_waits s;
          s1 = s\<lparr>as_waits := Suc n, as_turn := ae_turn env n (as_turn s), as_session := ae_session env n (as_session s)\<rparr> in
      if ap_watch pol \<and> ae_changed env n
      then let (mode1, s2) = look_mode env s1 in
           if mode1 \<in> {''plan'', ''yolo''} then let (mode2, s3) = look_mode env s2 in (mode_response (mode2 = ''yolo''), s3)
           else answered env n ks s2
      else answered env n ks s1)"

definition finish_tool ::
  "access_env \<Rightarrow> string \<Rightarrow> bool \<Rightarrow> resolved_path list \<Rightarrow> approval_response \<Rightarrow> access_state \<Rightarrow> access_result \<times> access_state" where
  "finish_tool env tool bind resolved response s =
     (let outside = outside_of resolved; ks = set (map grant_key outside); (mode, s1) = look_mode env s in
      if \<not> rs_allowed response
      then (if mode = ''plan'' then denied resolved ''outside_workspace'' ''Plan mode cannot access outside the workspace''
            else denied resolved ''approval_denied'' ''outside_workspace approval was denied'', s1)
      else if mode = ''yolo'' then (granted resolved True ''yolo_bypass'', s1)
      else let s2 = (if rs_scope_grant response = Some ''target_session'' then s1\<lparr>as_session := as_session s1 \<union> ks\<rparr>
                     else if rs_scope_grant response = Some ''target_turn'' then s1\<lparr>as_turn := as_turn s1 \<union> ks\<rparr>
                     else s1)
           in (granted resolved True ''approved'', if bind then bind_grant tool outside s2 else s2))"

definition authorize_tool ::
  "access_policy \<Rightarrow> access_env \<Rightarrow> string \<Rightarrow> payload \<Rightarrow> bool \<Rightarrow> access_state \<Rightarrow> access_result \<times> access_state" where
  "authorize_tool pol env tool input bind s =
     (case preflight_tool pol env tool input bind s of
        (Decided r, s1) \<Rightarrow> (r, s1)
      | (Asks resolved, s1) \<Rightarrow>
          (let (response, s2) = await_scope_approval pol env (set (map grant_key (outside_of resolved))) s1
           in finish_tool env tool bind resolved response s2))"

section \<open>One access of an adapter\<close>

text \<open>\<open>_consume_current\<close>: whether the handed-over grant covers the access, and the grant without it.\<close>

definition consume_current ::
  "access_policy \<Rightarrow> access_env \<Rightarrow> string \<Rightarrow> string \<Rightarrow> string \<Rightarrow> bool \<Rightarrow> access_state \<Rightarrow> bool option \<times> access_state" where
  "consume_current pol env tool requested operation pattern s =
     (case as_current s of
        None \<Rightarrow> (None, s)
      | Some g \<Rightarrow>
          (if tg_tool g \<noteq> tool then (None, s)
           else case resolve_any (fs_now env s) (ap_scope pol) pattern requested operation True of
             Inl _ \<Rightarrow> (Some False, s)
           | Inr r \<Rightarrow>
               (let k = (canonical_text (rp_absolute r), operation) in
                if k \<in> tg_keys g
                then (Some True, s\<lparr>as_current := if tg_keys g - {k} = {} then None else Some (g\<lparr>tg_keys := tg_keys g - {k}\<rparr>)\<rparr>)
                else if (requested, operation) \<in> tg_requested g then (Some False, s\<lparr>as_current := None\<rparr>)
                else (None, s))))"

definition target_changed_error :: string where
  "target_changed_error = ''target_changed: canonical target changed after approval''"

definition check_target ::
  "access_policy \<Rightarrow> access_env \<Rightarrow> string \<Rightarrow> bool \<Rightarrow> resolved_path \<Rightarrow> access_state \<Rightarrow> (string + resolved_path) \<times> access_state" where
  "check_target pol env tool pattern r s =
     (case revalidate (fs_now env s) (ap_scope pol) pattern r of
        Inl e \<Rightarrow> (Inl (''invalid_path: '' @ e), s)
      | Inr now \<Rightarrow> if rp_status now = TargetChanged then (Inl target_changed_error, clear_current_grant (Some tool) s) else (Inr now, s))"

definition check_plan :: "access_env \<Rightarrow> string \<Rightarrow> string \<Rightarrow> resolved_path \<Rightarrow> access_state \<Rightarrow> (string + unit) \<times> access_state" where
  "check_plan env tool message r s =
     (if in_scope r then (Inr (), s)
      else let (mode, s1) = look_mode env s in
        if mode = ''plan'' then (Inl (''outside_workspace: '' @ message), clear_current_grant (Some tool) s1) else (Inr (), s1))"

definition bindS :: "('e + 'a) \<times> 's \<Rightarrow> ('a \<Rightarrow> 's \<Rightarrow> ('e + 'b) \<times> 's) \<Rightarrow> ('e + 'b) \<times> 's" where
  "bindS m f = (case m of (Inl e, s) \<Rightarrow> (Inl e, s) | (Inr a, s) \<Rightarrow> f a s)"

definition tool_allowed :: "access_result \<times> access_state \<Rightarrow> (string + access_result) \<times> access_state" where
  "tool_allowed m = (if ar_allowed (fst m) then (Inr (fst m), snd m) else (Inl (ar_code (fst m) @ '': '' @ ar_error (fst m)), snd m))"

definition resolve_now ::
  "access_policy \<Rightarrow> access_env \<Rightarrow> bool \<Rightarrow> string \<Rightarrow> string \<Rightarrow> bool \<Rightarrow> access_state \<Rightarrow> (string + resolved_path) \<times> access_state" where
  "resolve_now pol env pattern requested operation probe s =
     (map_sum (\<lambda>e. ''invalid_path: '' @ e) id (resolve_any (fs_now env s) (ap_scope pol) pattern requested operation probe), s)"

definition handed_over ::
  "access_policy \<Rightarrow> access_env \<Rightarrow> string \<Rightarrow> string \<Rightarrow> string \<Rightarrow> bool \<Rightarrow> access_state \<Rightarrow> (string + canonical_path) \<times> access_state" where
  "handed_over pol env tool requested operation pattern s =
     bindS (resolve_now pol env pattern requested operation True s) (\<lambda>r s.
     bindS (check_target pol env tool pattern r s) (\<lambda>v s.
     bindS (check_plan env tool ''Plan mode cannot access outside the workspace'' v s) (\<lambda>_ s. (Inr (rp_absolute v), s))))"

text \<open>Yolo at the preflight and no longer: the live mode decides again.\<close>

definition recheck_bypass ::
  "access_policy \<Rightarrow> access_env \<Rightarrow> string \<Rightarrow> payload \<Rightarrow> bool \<Rightarrow> resolved_path \<Rightarrow> access_result \<Rightarrow> resolved_path \<Rightarrow> access_state
    \<Rightarrow> (string + resolved_path) \<times> access_state" where
  "recheck_bypass pol env tool input pattern r result v s =
     (if in_scope v then (Inr v, s)
      else let (mode, s1) = look_mode env s in
        if mode \<noteq> ''yolo'' \<and> ar_code result = ''yolo_bypass''
        then bindS (tool_allowed (authorize_tool pol env tool input True s1)) (\<lambda>_ s. check_target pol env tool pattern r s)
        else (Inr v, s1))"

definition settle_grant ::
  "access_policy \<Rightarrow> access_env \<Rightarrow> string \<Rightarrow> string \<Rightarrow> string \<Rightarrow> bool \<Rightarrow> access_state \<Rightarrow> (string + unit) \<times> access_state" where
  "settle_grant pol env tool requested operation pattern s =
     (case consume_current pol env tool requested operation pattern s of
        (Some False, s1) \<Rightarrow> (Inl target_changed_error, s1)
      | (_, s1) \<Rightarrow> (Inr (), s1))"

definition direct_access ::
  "access_policy \<Rightarrow> access_env \<Rightarrow> string \<Rightarrow> string \<Rightarrow> string \<Rightarrow> bool \<Rightarrow> payload \<Rightarrow> access_state \<Rightarrow> (string + canonical_path) \<times> access_state"
where
  "direct_access pol env tool requested operation pattern input s =
     bindS (resolve_now pol env pattern requested operation False s) (\<lambda>r s.
     bindS (tool_allowed (authorize_tool pol env tool input True s)) (\<lambda>result s.
     bindS (check_target pol env tool pattern r s) (\<lambda>v s.
     bindS (check_plan env tool ''Plan mode cannot access the outside workspace'' v s) (\<lambda>_ s.
     bindS (recheck_bypass pol env tool input pattern r result v s) (\<lambda>u s.
     bindS (settle_grant pol env tool requested operation pattern s) (\<lambda>_ s.
     bindS (check_plan env tool ''Plan mode cannot access outside the workspace'' u s) (\<lambda>_ s. (Inr (rp_absolute u), s))))))))"

definition given_input :: "string \<Rightarrow> payload option \<Rightarrow> payload" where
  "given_input requested input = (case input of None \<Rightarrow> [(''path'', PStr requested)]
     | Some d \<Rightarrow> if d = [] then [(''path'', PStr requested)] else d)"

definition authorize ::
  "access_policy \<Rightarrow> access_env \<Rightarrow> string \<Rightarrow> string \<Rightarrow> string \<Rightarrow> bool \<Rightarrow> payload option \<Rightarrow> access_state
    \<Rightarrow> (string + canonical_path) \<times> access_state" where
  "authorize pol env tool requested operation pattern input s =
     (case consume_current pol env tool requested operation pattern s of
        (Some False, s1) \<Rightarrow> (Inl target_changed_error, s1)
      | (Some True, s1) \<Rightarrow> handed_over pol env tool requested operation pattern s1
      | (None, s1) \<Rightarrow> direct_access pol env tool requested operation pattern (given_input requested input) s1)"

end
