(* ===== verification/Delegation.thy ===== *)
theory Delegation
  imports Permissions Modes Workspace Conversions Usage_Ledger
begin

text \<open>
  What a worker may do (\<open>src/agenthicc/subagents/policy.py\<close>, \<open>governance.py\<close>, \<open>budget.py\<close>, the construction of a worker in
  \<open>pool.py\<close> and the ceilings of \<open>config.py\<close>): the policy a worker inherits and how its type narrows it, the tiers of the
  depths, the scopes a worker is built with and what it hands to a nested pool, and the budget of a pool.

  The digest of a dictionary is an argument. The arrow between the names of nested types is written as \<open>->\<close>.
\<close>

section \<open>The policy of a worker\<close>

record permission_constraints =
  pc_deny_tools :: "string set"
  pc_deny_capabilities :: "string set"
  pc_require_approval :: "string set"
  pc_workspace_paths :: "string list option"

record execution_policy =
  xp_mode_name :: string
  xp_badge :: string
  xp_color :: string
  xp_description :: string
  xp_suffix :: string
  xp_blocked :: "string set"
  xp_approval :: "string set"
  xp_visible :: "string set"
  xp_workspace_id :: string
  xp_workflow :: string
  xp_phase :: string
  xp_revision :: string
  xp_scope :: agent_scope
  xp_type_name :: string
  xp_type_denied :: "string set"
  xp_type_approval :: "string set"
  xp_type_paths :: "string list option"
  xp_fingerprint :: string

definition sorted_texts :: "string set \<Rightarrow> pyval" where
  "sorted_texts s = PList (map PStr (sorted_list_of_set s))"

definition of_paths :: "string list option \<Rightarrow> pyval" where
  "of_paths ps = (case ps of None \<Rightarrow> PNone | Some xs \<Rightarrow> PList (map PStr xs))"

definition permission_data :: "permission_constraints \<Rightarrow> payload" where
  "permission_data p =
     [(''deny_tools'', sorted_texts (pc_deny_tools p)), (''deny_capabilities'', sorted_texts (pc_deny_capabilities p)),
      (''require_approval'', sorted_texts (pc_require_approval p)),
      (''workspace_paths'', of_paths (map_option sort (pc_workspace_paths p)))]"

text \<open>How the parent's mode looks and what it tells the model; its capabilities are those of \<open>Modes\<close>.\<close>

record mode_face =
  mf_badge :: string
  mf_color :: string
  mf_description :: string
  mf_suffix :: string

record policy_args =
  pg_visible :: "string set"
  pg_suffix :: string
  pg_workflow :: string
  pg_phase :: string
  pg_workspace_id :: string
  pg_scope :: "agent_scope option"
  pg_permissions :: "permission_constraints option"
  pg_type_name :: string

definition combined_suffix :: "string \<Rightarrow> string \<Rightarrow> string" where
  "combined_suffix mine extra =
     (if extra \<noteq> [] \<and> extra \<noteq> mine then (if mine \<noteq> [] then mine @ [CHR 0x0A, CHR 0x0A] @ extra else extra) else mine)"

definition denying :: "string set \<Rightarrow> agent_scope" where
  "denying tools = default_scope\<lparr>ag_denied_tools := tools\<rparr>"

definition policy_from_app_state ::
  "(payload \<Rightarrow> string) \<Rightarrow> (runtime_mode \<times> mode_face) option \<Rightarrow> policy_args \<Rightarrow> execution_policy option" where
  "policy_from_app_state digest app args =
     (case app of
        None \<Rightarrow> None
      | Some (mode, face) \<Rightarrow>
          (let suffix = combined_suffix (mf_suffix face) (pg_suffix args);
               denied = (case pg_permissions args of None \<Rightarrow> {} | Some p \<Rightarrow> pc_deny_capabilities p);
               required = (case pg_permissions args of None \<Rightarrow> {} | Some p \<Rightarrow> pc_require_approval p);
               blocked = capability_value ` md_blocked mode \<union> denied;
               approval = (capability_value ` md_approval mode \<union> required) - blocked;
               scope0 = (case pg_scope args of Some sc \<Rightarrow> sc
                 | None \<Rightarrow> default_scope\<lparr>ag_allowed_tools := (if pg_visible args = {} then None else Some (pg_visible args))\<rparr>);
               scope = (case pg_permissions args of None \<Rightarrow> scope0 | Some p \<Rightarrow> restrict_scope scope0 (denying (pc_deny_tools p)));
               raw = [(''mode_name'', PStr (md_name mode)), (''badge'', PStr (mf_badge face)), (''color'', PStr (mf_color face)),
                 (''description'', PStr (mf_description face)), (''system_prompt_suffix'', PStr suffix),
                 (''blocked_capabilities'', sorted_texts blocked), (''approval_required'', sorted_texts approval),
                 (''visible_tool_names'', sorted_texts (pg_visible args)), (''workspace_scope_identity'', PStr (pg_workspace_id args)),
                 (''effective_workflow'', PStr (pg_workflow args)), (''effective_phase'', PStr (pg_phase args))]
                 @ (case pg_permissions args of None \<Rightarrow> [] | Some p \<Rightarrow> [(''type_permissions'', of_dict (permission_data p))])
           in Some \<lparr>xp_mode_name = md_name mode, xp_badge = mf_badge face, xp_color = mf_color face, xp_description = mf_description face,
                xp_suffix = suffix, xp_blocked = blocked, xp_approval = approval,
                xp_visible = (case ag_allowed_tools scope of Some a \<Rightarrow> a | None \<Rightarrow> pg_visible args), xp_workspace_id = pg_workspace_id args,
                xp_workflow = pg_workflow args, xp_phase = pg_phase args, xp_revision = digest raw, xp_scope = scope,
                xp_type_name = pg_type_name args, xp_type_denied = denied, xp_type_approval = required,
                xp_type_paths = Option.bind (pg_permissions args) pc_workspace_paths,
                xp_fingerprint = (case pg_permissions args of None \<Rightarrow> [] | Some p \<Rightarrow> digest (permission_data p))\<rparr>))"

text \<open>\<open>tuple(dict.fromkeys(...))\<close> of the texts that are not empty.\<close>

definition first_of_each :: "string list \<Rightarrow> string list" where
  "first_of_each xs = rev (remdups (rev (filter (\<lambda>x. x \<noteq> []) xs)))"

definition narrowed_scope :: "execution_policy \<Rightarrow> execution_policy option \<Rightarrow> permission_constraints option \<Rightarrow> agent_scope" where
  "narrowed_scope p declared permissions =
     (let scope1 = (case declared of None \<Rightarrow> xp_scope p | Some d \<Rightarrow> restrict_scope (xp_scope p) (xp_scope d))
      in case permissions of None \<Rightarrow> scope1 | Some c \<Rightarrow> restrict_scope scope1 (denying (pc_deny_tools c)))"

definition narrowed_blocked :: "execution_policy \<Rightarrow> execution_policy option \<Rightarrow> permission_constraints option \<Rightarrow> string set" where
  "narrowed_blocked p declared permissions =
     xp_blocked p \<union> (case declared of None \<Rightarrow> {} | Some d \<Rightarrow> xp_blocked d) \<union> (case permissions of None \<Rightarrow> {} | Some c \<Rightarrow> pc_deny_capabilities c)"

definition narrowed_approval :: "execution_policy \<Rightarrow> execution_policy option \<Rightarrow> permission_constraints option \<Rightarrow> string set" where
  "narrowed_approval p declared permissions =
     (let blocked1 = xp_blocked p \<union> (case declared of None \<Rightarrow> {} | Some d \<Rightarrow> xp_blocked d);
          approval1 = (xp_approval p \<union> (case declared of None \<Rightarrow> {} | Some d \<Rightarrow> xp_approval d)) - blocked1
      in case permissions of None \<Rightarrow> approval1
         | Some c \<Rightarrow> (approval1 \<union> pc_require_approval c) - (blocked1 \<union> pc_deny_capabilities c))"

definition restrict_by ::
  "(payload \<Rightarrow> string) \<Rightarrow> execution_policy \<Rightarrow> execution_policy option \<Rightarrow> permission_constraints option \<Rightarrow> string \<Rightarrow> string option
    \<Rightarrow> execution_policy" where
  "restrict_by digest p declared permissions type_name workspace_id =
     (let scope = narrowed_scope p declared permissions; blocked = narrowed_blocked p declared permissions;
          approval = narrowed_approval p declared permissions;
          suffix = join [CHR 0x0A, CHR 0x0A] (filter (\<lambda>x. x \<noteq> []) (xp_suffix p # (case declared of None \<Rightarrow> []
            | Some d \<Rightarrow> if xp_suffix d = xp_suffix p then [] else [xp_suffix d])));
          visible = (if declared \<noteq> None \<and> xp_visible p = {} \<and> ag_allowed_tools scope = None
            then (case declared of None \<Rightarrow> {} | Some d \<Rightarrow> xp_visible d)
            else case ag_allowed_tools scope of Some a \<Rightarrow> a | None \<Rightarrow> xp_visible p);
          identity = (case workspace_id of Some i \<Rightarrow> i | None \<Rightarrow> (case declared of
              Some d \<Rightarrow> if xp_workspace_id d \<noteq> [] then xp_workspace_id d else xp_workspace_id p | None \<Rightarrow> xp_workspace_id p));
          stated = (permissions \<noteq> None \<or> (case declared of None \<Rightarrow> False | Some d \<Rightarrow> xp_fingerprint d \<noteq> []));
          names = join '' -> '' (first_of_each [xp_type_name p, if stated then type_name else [],
            case declared of Some d \<Rightarrow> if stated then xp_type_name d else [] | None \<Rightarrow> []]);
          denied = xp_type_denied p \<union> (case declared of None \<Rightarrow> {} | Some d \<Rightarrow> xp_type_denied d)
            \<union> (case permissions of None \<Rightarrow> {} | Some c \<Rightarrow> pc_deny_capabilities c);
          required = xp_type_approval p \<union> (case declared of None \<Rightarrow> {} | Some d \<Rightarrow> xp_type_approval d)
            \<union> (case permissions of None \<Rightarrow> {} | Some c \<Rightarrow> pc_require_approval c);
          paths1 = (case Option.bind declared xp_type_paths of None \<Rightarrow> xp_type_paths p | Some xs \<Rightarrow> Some xs);
          paths = (case Option.bind permissions pc_workspace_paths of None \<Rightarrow> paths1 | Some xs \<Rightarrow> Some xs);
          print = join ''|'' (first_of_each [xp_fingerprint p, case declared of None \<Rightarrow> [] | Some d \<Rightarrow> xp_fingerprint d])
            @ (case permissions of None \<Rightarrow> [] | Some c \<Rightarrow> digest (permission_data c));
          raw = [(''inherited_revision'', PStr (xp_revision p)),
            (''declared_revision'', PStr (case declared of None \<Rightarrow> [] | Some d \<Rightarrow> xp_revision d)),
            (''blocked_capabilities'', sorted_texts blocked), (''approval_required'', sorted_texts approval),
            (''visible_tool_names'', sorted_texts visible), (''denied_tools'', sorted_texts (ag_denied_tools scope)),
            (''workspace_scope_identity'', PStr identity), (''type_workspace_paths'', of_paths paths),
            (''type_permissions_fingerprint'', PStr print)];
          new = p\<lparr>xp_suffix := suffix, xp_blocked := blocked, xp_approval := approval, xp_workspace_id := identity, xp_scope := scope,
            xp_type_name := names, xp_type_denied := denied, xp_type_approval := required, xp_type_paths := paths, xp_fingerprint := print\<rparr>
      in if new = p then p else new\<lparr>xp_visible := visible, xp_revision := digest raw\<rparr>)"

text \<open>The mode of a worker: a member of the enumeration is its text.\<close>

definition capabilities_in :: "string set \<Rightarrow> capability set" where
  "capabilities_in values = set (filter (\<lambda>c. capability_value c \<in> values) all_capabilities)"

definition worker_mode :: "execution_policy \<Rightarrow> runtime_mode" where
  "worker_mode p = \<lparr>md_name = xp_mode_name p, md_blocked = capabilities_in (xp_blocked p), md_approval = capabilities_in (xp_approval p),
     md_default_workflow = None, md_workflows = []\<rparr>"

definition restrict_workspace_scope ::
  "(string \<Rightarrow> string) \<Rightarrow> filesystem \<Rightarrow> scope option \<Rightarrow> string list option \<Rightarrow> string + scope option" where
  "restrict_workspace_scope sha fs parent paths =
     (case paths of
        None \<Rightarrow> Inr parent
      | Some ps \<Rightarrow> (case parent of
          None \<Rightarrow> Inl ''permissions.workspace_paths requires an inherited workspace scope''
        | Some sc \<Rightarrow> (case scope_restrict sha fs (map path_of ps) sc of
            Inl e \<Rightarrow> Inl (''permissions.workspace_paths: '' @ e)
          | Inr sc' \<Rightarrow> Inr (Some sc'))))"

section \<open>The tiers of the depths\<close>

record depth_tier =
  dt_tools :: "string list option"
  dt_models :: "string list option"

type_synonym depth_tiers = "(int \<times> depth_tier pydict) list"

record resolved_tier =
  rt_tools :: "string set option"
  rt_models :: "string set option"

definition tier_step :: "string \<Rightarrow> resolved_tier \<Rightarrow> depth_tier pydict \<Rightarrow> resolved_tier" where
  "tier_step agent_type r tiers =
     (case dget tiers agent_type of
        None \<Rightarrow> r
      | Some t \<Rightarrow> \<lparr>rt_tools = or_else (map_option set (dt_tools t)) (rt_tools r), rt_models = or_else (map_option set (dt_models t)) (rt_models r)\<rparr>)"

definition resolve_depth_tier :: "depth_tiers \<Rightarrow> int \<Rightarrow> string \<Rightarrow> resolved_tier" where
  "resolve_depth_tier tiers depth agent_type =
     foldl (tier_step agent_type) \<lparr>rt_tools = None, rt_models = None\<rparr> (map snd (filter (\<lambda>(d, _). d \<le> depth) (sort_key fst tiers)))"

record type_spec =
  ts_name :: string
  ts_allowed :: "string set"
  ts_model :: string
  ts_policy :: "execution_policy option"
  ts_permissions :: "permission_constraints option"

definition listing :: "string set \<Rightarrow> string" where
  "listing s = join '', '' (sorted_list_of_set s)"

text \<open>The tiers of one type, from the nearest depth on: the tools and models that are left of the type's own.\<close>

definition tier_field :: "int \<Rightarrow> string \<Rightarrow> string \<Rightarrow> string" where
  "tier_field depth agent_type field = ''subagents.depth_tiers.'' @ int_text depth @ ''.'' @ agent_type @ ''.'' @ field"

definition narrow_tools :: "int \<Rightarrow> string \<Rightarrow> depth_tier \<Rightarrow> string set \<Rightarrow> string + string set" where
  "narrow_tools depth agent_type t prior =
     (case dt_tools t of
        None \<Rightarrow> Inr prior
      | Some ts \<Rightarrow> if set ts \<subseteq> prior then Inr (set ts)
          else Inl (tier_field depth agent_type ''allowed_tools'' @ '' grants tools outside the type or inherited profile: ''
            @ listing (set ts - prior)))"

definition narrow_models :: "int \<Rightarrow> string \<Rightarrow> depth_tier \<Rightarrow> string set option \<Rightarrow> string + string set option" where
  "narrow_models depth agent_type t prior =
     (case dt_models t of
        None \<Rightarrow> Inr prior
      | Some ms \<Rightarrow> (case prior of
          None \<Rightarrow> Inl (tier_field depth agent_type ''allowed_models'' @ '' cannot be validated because the type has no declared model ceiling; ''
            @ ''configure subagents.allowed_models or a fixed type model'')
        | Some p \<Rightarrow> if set ms \<subseteq> p then Inr (Some (set ms))
            else Inl (tier_field depth agent_type ''allowed_models'' @ '' grants models outside the type or inherited profile: ''
              @ listing (set ms - p))))"

definition check_tier :: "string \<Rightarrow> int \<times> depth_tier pydict \<Rightarrow> string set \<times> string set option \<Rightarrow> string + string set \<times> string set option" where
  "check_tier agent_type entry prior =
     (case dget (snd entry) agent_type of
        None \<Rightarrow> Inr prior
      | Some t \<Rightarrow> bindE (narrow_tools (fst entry) agent_type t (fst prior)) (\<lambda>tools.
          bindE (narrow_models (fst entry) agent_type t (snd prior)) (\<lambda>models. Inr (tools, models))))"

definition type_models :: "type_spec \<Rightarrow> string set option \<Rightarrow> string set option" where
  "type_models spec allowed = (if ts_model spec \<noteq> [] \<and> py_casefold (ts_model spec) \<noteq> ''inherit'' then Some {ts_model spec} else allowed)"

definition configured_types :: "depth_tiers \<Rightarrow> string list" where
  "configured_types tiers = sorted_list_of_set (set (concat (map (keys \<circ> snd) tiers)))"

definition validate_depth_tiers :: "depth_tiers \<Rightarrow> (string \<Rightarrow> type_spec option) \<Rightarrow> string set option \<Rightarrow> string + unit" where
  "validate_depth_tiers tiers registry allowed =
     foldE (\<lambda>agent_type _. case registry agent_type of
         None \<Rightarrow> Inl (''subagents.depth_tiers references unknown type '' @ py_repr agent_type)
       | Some spec \<Rightarrow> map_sum id (\<lambda>_. ()) (foldE (check_tier agent_type) (sort_key fst tiers) (ts_allowed spec, type_models spec allowed)))
       (configured_types tiers) ()"

text \<open>The ceilings of fan-out, with the setting each one is from.\<close>

record depth_limit =
  dl_max_tasks :: "int option"
  dl_max_concurrent :: "int option"

definition limit_step ::
  "(int \<times> string) \<times> (int \<times> string) \<Rightarrow> int \<times> depth_limit \<Rightarrow> (int \<times> string) \<times> (int \<times> string)" where
  "limit_step r entry =
     (let field = (\<lambda>name. ''subagents.depth_limits.'' @ int_text (fst entry) @ ''.'' @ name) in
      (case dl_max_tasks (snd entry) of None \<Rightarrow> fst r | Some n \<Rightarrow> (n, field ''max_tasks''),
       case dl_max_concurrent (snd entry) of None \<Rightarrow> snd r | Some n \<Rightarrow> (n, field ''max_concurrent'')))"

definition limits_for_depth :: "int \<Rightarrow> int \<Rightarrow> (int \<times> depth_limit) list \<Rightarrow> int \<Rightarrow> (int \<times> string) \<times> (int \<times> string)" where
  "limits_for_depth max_tasks max_concurrent limits depth =
     foldl limit_step ((max_tasks, ''subagents.max_tasks''), (max_concurrent, ''subagents.max_concurrent''))
       (filter (\<lambda>(d, _). d \<le> depth) (sort_key fst limits))"


section \<open>A worker\<close>

text \<open>The tools of the session by name and their groups (\<open>plugins/registry.py\<close>).\<close>

record tool_groups =
  tg_names :: "string set"
  tg_group_of :: "string pydict"

definition glob_expand :: "tool_groups \<Rightarrow> string \<Rightarrow> string set" where
  "glob_expand g pattern =
     (if ends_with pattern ''.*'' then set (map fst (filter (\<lambda>(n, grp). grp = take (length pattern - 2) pattern) (tg_group_of g)))
      else if pattern \<in> tg_names g then {pattern} else {})"

definition expand_allowed :: "tool_groups option \<Rightarrow> string set \<Rightarrow> string set" where
  "expand_allowed registry allowed = (case registry of None \<Rightarrow> allowed | Some g \<Rightarrow> \<Union> (glob_expand g ` allowed))"

text \<open>What is the same for every worker of a session.\<close>

record spawn_session =
  ss_digest :: "payload \<Rightarrow> string"
  ss_sha :: "string \<Rightarrow> string"
  ss_registry :: "tool_groups option"
  ss_tiers :: "depth_tiers option"
  ss_max_depth :: int
  ss_approval :: bool
  ss_allowed_models :: "string set option"

text \<open>What a worker gets from the one that spawns it.\<close>

record spawn_context =
  pn_tools :: "string list"
  pn_policy :: "execution_policy option"
  pn_app :: "(runtime_mode \<times> mode_face) option"
  pn_workspace :: "scope option"
  pn_depth :: int
  pn_models :: "string set option"

record worker =
  wk_tier :: resolved_tier
  wk_models :: "string set option"
  wk_policy :: "execution_policy option"
  wk_workspace :: "scope option"
  wk_effective :: "string set"
  wk_scope :: agent_scope
  wk_tools :: "string list"
  wk_nested :: bool
  wk_depth :: int

definition allow_only :: "string set \<Rightarrow> agent_scope" where
  "allow_only tools = default_scope\<lparr>ag_allowed_tools := Some tools\<rparr>"

definition args_of_tools :: "string list \<Rightarrow> policy_args" where
  "args_of_tools tools = \<lparr>pg_visible = set tools, pg_suffix = [], pg_workflow = [], pg_phase = [], pg_workspace_id = [],
     pg_scope = None, pg_permissions = None, pg_type_name = []\<rparr>"

definition worker_policy :: "spawn_session \<Rightarrow> spawn_context \<Rightarrow> type_spec \<Rightarrow> scope option \<Rightarrow> execution_policy option" where
  "worker_policy ss pn spec workspace =
     (let permissions = ts_permissions spec;
          inherited = or_else (pn_policy pn) (policy_from_app_state (ss_digest ss) (pn_app pn) (args_of_tools (pn_tools pn)));
          identity = (if Option.bind permissions pc_workspace_paths = None then None else map_option sc_id workspace);
          type_name = (if permissions = None then [] else ts_name spec)
      in case (inherited, ts_policy spec) of
           (Some p, declared) \<Rightarrow> Some (restrict_by (ss_digest ss) p declared permissions type_name identity)
         | (None, Some d) \<Rightarrow> Some (restrict_by (ss_digest ss) d None permissions type_name identity)
         | (None, None) \<Rightarrow> None)"

definition spawn_tool :: string where
  "spawn_tool = ''spawn_subagents''"

definition worker_scope :: "spawn_session \<Rightarrow> spawn_context \<Rightarrow> type_spec \<Rightarrow> execution_policy option \<Rightarrow> string set \<Rightarrow> agent_scope" where
  "worker_scope ss pn spec policy declared_allowed =
     (let names = set (pn_tools pn);
          may_nest = (pn_depth pn < ss_max_depth ss \<and> spawn_tool \<in> expand_allowed (ss_registry ss) (ts_allowed spec));
          scope0 = (case policy of Some p \<Rightarrow> xp_scope p
            | None \<Rightarrow> allow_only (if may_nest then insert spawn_tool names else names));
          visible = (if may_nest \<and> is_tool_allowed scope0 spawn_tool then insert spawn_tool names else names);
          scope1 = restrict_scope scope0 (allow_only visible);
          scope2 = (case policy of Some p \<Rightarrow> if xp_visible p \<noteq> {} then restrict_scope scope1 (allow_only (xp_visible p)) else scope1
            | None \<Rightarrow> scope1)
      in restrict_scope scope2 ((allow_only declared_allowed)\<lparr>ag_denied_tools :=
           (case ts_permissions spec of None \<Rightarrow> {} | Some c \<Rightarrow> pc_deny_tools c)\<rparr>))"

text \<open>\<open>SubagentWorker\<close>, as far as what it may do; \<open>wk_tools\<close> are the tools of the parent it keeps, \<open>wk_nested\<close> whether it is
  offered \<open>spawn_subagents\<close>.\<close>

definition make_worker :: "spawn_session \<Rightarrow> filesystem \<Rightarrow> spawn_context \<Rightarrow> string \<Rightarrow> type_spec \<Rightarrow> string + worker" where
  "make_worker ss fs pn agent_type spec =
     (let tier = (case ss_tiers ss of None \<Rightarrow> \<lparr>rt_tools = None, rt_models = None\<rparr>
            | Some ts \<Rightarrow> resolve_depth_tier ts (pn_depth pn) agent_type);
          permissions = ts_permissions spec in
      bindE (restrict_workspace_scope (ss_sha ss) fs (pn_workspace pn) (Option.bind permissions pc_workspace_paths)) (\<lambda>workspace.
      let policy = worker_policy ss pn spec workspace in
      bindE (guardE (\<not> (policy = None \<and> (case permissions of None \<Rightarrow> False
            | Some c \<Rightarrow> pc_deny_capabilities c \<noteq> {} \<or> pc_require_approval c \<noteq> {})))
        (ts_name spec @ '' permissions require an inherited runtime policy for enforcement'')) (\<lambda>_.
      bindE (guardE (\<not> ((case permissions of None \<Rightarrow> False | Some c \<Rightarrow> pc_require_approval c \<noteq> {}) \<and> \<not> ss_approval ss))
        (ts_name spec @ '' permissions.require_approval requires an approval service'')) (\<lambda>_.
      let expanded = expand_allowed (ss_registry ss) (ts_allowed spec);
          allowed = (case rt_tools tier of None \<Rightarrow> expanded | Some t \<Rightarrow> expanded \<inter> t);
          sc = worker_scope ss pn spec policy allowed
      in Inr \<lparr>wk_tier = tier, wk_models = narrower (pn_models pn) (rt_models tier), wk_policy = policy, wk_workspace = workspace,
           wk_effective = allowed, wk_scope = sc, wk_tools = filter (is_tool_allowed sc) (pn_tools pn),
           wk_nested = (pn_depth pn < ss_max_depth ss \<and> spawn_tool \<in> allowed \<and> is_tool_allowed sc spawn_tool),
           wk_depth = pn_depth pn\<rparr>))))"

text \<open>
  What a worker hands to the pools it spawns: its own tools, policy, mode, workspace and models, one level deeper. The spawn tool
  checks the tiers of the depths against the models it is given when it is made; a worker whose check fails does not run.
\<close>

definition worker_face :: "execution_policy \<Rightarrow> mode_face" where
  "worker_face p = \<lparr>mf_badge = xp_badge p, mf_color = xp_color p, mf_description = xp_description p, mf_suffix = xp_suffix p\<rparr>"

definition nested_models :: "spawn_session \<Rightarrow> worker \<Rightarrow> string set option" where
  "nested_models ss w = or_else (wk_models w) (ss_allowed_models ss)"

definition nested_context :: "spawn_session \<Rightarrow> worker \<Rightarrow> spawn_context" where
  "nested_context ss w = \<lparr>pn_tools = wk_tools w, pn_policy = wk_policy w,
     pn_app = map_option (\<lambda>p. (worker_mode p, worker_face p)) (wk_policy w), pn_workspace = wk_workspace w, pn_depth = wk_depth w + 1,
     pn_models = nested_models ss w\<rparr>"

definition may_run :: "spawn_session \<Rightarrow> (string \<Rightarrow> type_spec option) \<Rightarrow> worker \<Rightarrow> string + unit" where
  "may_run ss types w =
     (if wk_nested w then validate_depth_tiers (case ss_tiers ss of None \<Rightarrow> [] | Some ts \<Rightarrow> ts) types (nested_models ss w) else Inr ())"

text \<open>A worker and those below it.\<close>

inductive descends :: "spawn_session \<Rightarrow> (string \<Rightarrow> type_spec option) \<Rightarrow> worker \<Rightarrow> worker \<Rightarrow> bool" for ss types where
  descends_self: "descends ss types w w"
| descends_spawn: "descends ss types w v \<Longrightarrow> wk_nested v \<Longrightarrow> may_run ss types v = Inr () \<Longrightarrow> types name = Some spec
    \<Longrightarrow> make_worker ss fs (nested_context ss v) name spec = Inr u \<Longrightarrow> descends ss types w u"

end
