(* ===== verification/Workspace_Properties.thy ===== *)
theory Workspace_Properties
  imports Workspace
begin

text \<open>
  What the boundary of the workspace keeps: outside of Yolo every path an adapter gets is inside the scope or was granted by the
  user for that operation, in Plan it is inside; and where the boundary fails, a literal path with a wildcard in it.
\<close>

section \<open>Resolving\<close>

definition inside :: "scope \<Rightarrow> canonical_path \<Rightarrow> bool" where
  "inside sc c \<longleftrightarrow> (\<exists>b \<in> set (sc_roots sc). contains b c)"

lemma resolve_facts:
  assumes "resolve fs sc q operation probe = Inr r"
  shows "rp_operation r = operation" "in_scope r \<longleftrightarrow> inside sc (rp_absolute r)" "rp_status r \<noteq> TargetChanged"
    "fs_real fs (path_join (rooted (sc_primary sc)) (path_of q)) = Inr (rp_absolute r)"
  using assms by (auto simp: resolve_def Let_def in_scope_def inside_def find_None_iff bindE_eq_Inr_iff split: if_splits)

lemma resolve_any_facts:
  assumes "resolve_any fs sc pattern q operation probe = Inr r"
  shows "rp_operation r = operation" "in_scope r \<longleftrightarrow> inside sc (rp_absolute r)" "rp_status r \<noteq> TargetChanged"
  using assms resolve_facts[of fs sc] by (auto simp: resolve_any_def resolve_pattern_def split: if_splits)


lemma resolve_any_probe:
  assumes "resolve_any fs sc pattern q operation probe = Inr r" "resolve_any fs sc pattern q operation probe' = Inr r'"
  shows "rp_absolute r = rp_absolute r'"
  using assms by (auto simp: resolve_any_def resolve_pattern_def dest!: resolve_facts(4) split: if_splits)

lemma revalidate_facts:
  assumes "revalidate fs sc pattern r = Inr v" "rp_status v \<noteq> TargetChanged"
  shows "rp_absolute v = rp_absolute r \<and> (in_scope v \<longleftrightarrow> inside sc (rp_absolute v)) \<and> rp_operation v = rp_operation r"
proof -
  obtain now where n: "resolve_any fs sc pattern (rp_requested r) (rp_operation r) True = Inr now"
    "v = (if rp_absolute now \<noteq> rp_absolute r then now\<lparr>rp_requested := rp_requested r, rp_status := TargetChanged\<rparr> else now)"
    using assms(1) by (auto simp: revalidate_def bindE_eq_Inr_iff)
  have "rp_absolute now = rp_absolute r" using n(2) assms(2) by (cases "rp_absolute now = rp_absolute r") simp_all
  then have "v = now" using n(2) by simp
  then show ?thesis using \<open>rp_absolute now = rp_absolute r\<close> resolve_any_facts(1,2)[OF n(1)] by metis
qed

lemma check_target_facts:
  assumes "check_target pol env tool pattern r s = (Inr v, s')"
  shows "s' = s \<and> rp_absolute v = rp_absolute r \<and> (in_scope v \<longleftrightarrow> inside (ap_scope pol) (rp_absolute v)) \<and> rp_operation v = rp_operation r"
  using assms revalidate_facts[of "fs_now env s" "ap_scope pol" pattern r]
  by (auto simp: check_target_def split: sum.splits if_splits)

lemma check_plan_facts:
  assumes "check_plan env tool m r s = (Inr u, s')"
  shows "in_scope r \<and> s' = s \<or> \<not> in_scope r \<and> s' = s\<lparr>as_reads := Suc (as_reads s)\<rparr> \<and> py_casefold (ae_mode env (as_reads s)) \<noteq> ''plan''"
  using assms by (auto simp: check_plan_def look_mode_def split: if_splits)

lemma bindS_InrE:
  assumes "bindS m f = (Inr b, s')"
  obtains a s where "m = (Inr a, s)" "f a s = (Inr b, s')"
  using assms by (auto simp: bindS_def split: prod.splits sum.splits)



section \<open>Grants\<close>

definition current_keys :: "access_state \<Rightarrow> access_key set" where
  "current_keys s = (case as_current s of None \<Rightarrow> {} | Some g \<Rightarrow> tg_keys g)"

definition all_grants :: "access_state \<Rightarrow> access_key set" where
  "all_grants s = as_turn s \<union> as_session s \<union> current_keys s"

definition approved :: "access_state \<Rightarrow> access_key set" where
  "approved s = \<Union> {ks. \<exists>r. (ks, r) \<in> set (as_answers s) \<and> rs_allowed r}"

lemma approved_frame [simp]:
  "approved (s\<lparr>as_current := c\<rparr>) = approved s" "approved (s\<lparr>as_turn := t\<rparr>) = approved s"
  "approved (s\<lparr>as_session := t\<rparr>) = approved s" "approved (s\<lparr>as_reads := n\<rparr>) = approved s"
  "approved (s\<lparr>as_waits := n\<rparr>) = approved s"
  by (simp_all add: approved_def)

definition never_yolo :: "access_env \<Rightarrow> bool" where
  "never_yolo env \<longleftrightarrow> (\<forall>n. py_casefold (ae_mode env n) \<noteq> ''yolo'')"

text \<open>The other tasks grant nothing but what is in a set of keys.\<close>

definition others_within :: "access_key set \<Rightarrow> access_env \<Rightarrow> bool" where
  "others_within G env \<longleftrightarrow> (\<forall>n t. ae_turn env n t \<subseteq> t \<union> G \<and> ae_session env n t \<subseteq> t \<union> G)"

definition keeps_grants :: "access_key set \<Rightarrow> access_state \<Rightarrow> access_state \<Rightarrow> bool" where
  "keeps_grants G s s' \<longleftrightarrow> all_grants s' \<subseteq> all_grants s \<union> G \<union> approved s' \<and> approved s \<subseteq> approved s'"

lemma keeps_grants_refl [simp]: "keeps_grants G s s"
  by (auto simp: keeps_grants_def)


lemma keeps_grants_reads [simp]: "keeps_grants G s (s'\<lparr>as_reads := n\<rparr>) \<longleftrightarrow> keeps_grants G s s'"
  by (simp add: keeps_grants_def all_grants_def approved_def current_keys_def)





lemma consume_facts:
  assumes "consume_current pol env tool q operation pattern s = (x, s')"
  shows "keeps_grants G s s'" "as_waits s' = as_waits s" "as_answers s' = as_answers s" "as_reads s' = as_reads s"
    "x = Some True \<Longrightarrow> \<exists>r. resolve_any (fs_now env s) (ap_scope pol) pattern q operation True = Inr r
       \<and> (canonical_text (rp_absolute r), operation) \<in> all_grants s"
  using assms by (auto simp: consume_current_def keeps_grants_def all_grants_def current_keys_def Let_def
      split: option.splits if_splits sum.splits)


section \<open>The preflight\<close>










section \<open>One access\<close>












section \<open>A session\<close>






section \<open>In Plan\<close>

lemma preflight_plan:
  assumes "preflight_tool pol env tool input bind s = (p, s')" "\<forall>n. py_casefold (ae_mode env n) = ''plan''"
  shows "as_answers s' = as_answers s \<and> (\<exists>r. p = Decided r)"
  using assms by (auto simp: preflight_tool_def Let_def look_mode_def split: if_splits sum.splits)

lemma authorize_tool_plan:
  assumes "\<forall>n. py_casefold (ae_mode env n) = ''plan''"
  shows "as_answers (snd (authorize_tool pol env tool input bind s)) = as_answers s"
  using preflight_plan[OF _ assms, of pol tool input bind s]
  by (cases "preflight_tool pol env tool input bind s") (auto simp: authorize_tool_def)

lemma plan_answers:
  "check_target pol env tool pattern r s = (x, s') \<Longrightarrow> as_answers s' = as_answers s"
  "check_plan env tool m r s = (y, s') \<Longrightarrow> as_answers s' = as_answers s"
  "settle_grant pol env tool q operation pattern s = (z, s') \<Longrightarrow> as_answers s' = as_answers s"
  "resolve_now pol env pattern q operation probe s = (u, s') \<Longrightarrow> as_answers s' = as_answers s"
  using consume_facts(3)[of pol env tool q operation pattern s]
  by (auto simp: check_target_def clear_current_grant_def check_plan_def look_mode_def settle_grant_def resolve_now_def
      split: sum.splits if_splits option.splits prod.splits bool.splits)

lemma allowed_plan:
  assumes "tool_allowed (authorize_tool pol env tool input bind s) = (x, s')" "\<forall>n. py_casefold (ae_mode env n) = ''plan''"
  shows "as_answers s' = as_answers s"
  using assms(1) authorize_tool_plan[OF assms(2), of pol tool input bind s]
  by (cases "authorize_tool pol env tool input bind s") (auto simp: tool_allowed_def split: if_splits)

lemma recheck_plan:
  assumes "recheck_bypass pol env tool input pattern r result v s = (Inr u, s')" "\<forall>n. py_casefold (ae_mode env n) = ''plan''"
  shows "as_answers s' = as_answers s"
  using assms(1) allowed_plan[OF _ assms(2)] plan_answers(1)
  by (fastforce simp: recheck_bypass_def look_mode_def split: if_splits elim!: bindS_InrE)

lemma recheck_inside:
  assumes "recheck_bypass pol env tool input pattern r result v s = (Inr u, s')" "in_scope v \<longleftrightarrow> inside (ap_scope pol) (rp_absolute v)"
  shows "in_scope u \<longleftrightarrow> inside (ap_scope pol) (rp_absolute u)"
  using assms check_target_facts by (fastforce simp: recheck_bypass_def look_mode_def split: if_splits elim!: bindS_InrE)

text \<open>The last look at the mode.\<close>

lemma check_plan_last:
  assumes "check_plan env tool m r s = (Inr u, s')" "py_casefold (ae_mode env (as_reads s' - 1)) = ''plan''"
  shows "in_scope r"
  using check_plan_facts[OF assms(1)] assms(2) by auto

lemma handed_over_plan:
  assumes "handed_over pol env tool q operation pattern s = (Inr c, s')" "py_casefold (ae_mode env (as_reads s' - 1)) = ''plan''"
  shows "inside (ap_scope pol) c \<and> as_answers s' = as_answers s"
proof -
  obtain r s1 v s2 w s3 m where r: "resolve_now pol env pattern q operation True s = (Inr r, s1)"
    and v: "check_target pol env tool pattern r s1 = (Inr v, s2)" and f: "check_plan env tool m v s2 = (Inr w, s3)"
    and c: "(Inr (rp_absolute v) :: string + canonical_path, s3) = (Inr c, s')"
  proof -
    show thesis using assms(1) unfolding handed_over_def by (elim bindS_InrE) (rule that)
  qed
  have "in_scope v" by (rule check_plan_last[OF f]) (use c assms(2) in simp)
  then show ?thesis using check_target_facts[OF v] c plan_answers(4)[OF r] plan_answers(1)[OF v] plan_answers(2)[OF f] by simp
qed

lemma direct_access_plan:
  assumes "direct_access pol env tool q operation pattern input s = (Inr c, s')" "py_casefold (ae_mode env (as_reads s' - 1)) = ''plan''"
  shows "inside (ap_scope pol) c \<and> ((\<forall>n. py_casefold (ae_mode env n) = ''plan'') \<longrightarrow> as_answers s' = as_answers s)"
proof -
  obtain r s1 result s2 v s3 w1 s4 u s5 w2 s6 w3 s7 m1 m2 where
    r: "resolve_now pol env pattern q operation False s = (Inr r, s1)"
    and a: "tool_allowed (authorize_tool pol env tool input True s1) = (Inr result, s2)"
    and v: "check_target pol env tool pattern r s2 = (Inr v, s3)"
    and p: "check_plan env tool m1 v s3 = (Inr w1, s4)"
    and u: "recheck_bypass pol env tool input pattern r result v s4 = (Inr u, s5)"
    and g: "settle_grant pol env tool q operation pattern s5 = (Inr w2, s6)"
    and f: "check_plan env tool m2 u s6 = (Inr w3, s7)" and c: "(Inr (rp_absolute u) :: string + canonical_path, s7) = (Inr c, s')"
  proof -
    show thesis using assms(1) unfolding direct_access_def by (elim bindS_InrE) (rule that)
  qed
  have "in_scope u" by (rule check_plan_last[OF f]) (use c assms(2) in simp)
  moreover have "in_scope u \<longleftrightarrow> inside (ap_scope pol) (rp_absolute u)"
    by (rule recheck_inside[OF u]) (use check_target_facts[OF v] in simp)
  moreover have "as_answers s7 = as_answers s" if plan: "\<forall>n. py_casefold (ae_mode env n) = ''plan''"
    using plan_answers(4)[OF r] allowed_plan[OF a plan] plan_answers(1)[OF v] plan_answers(2)[OF p] recheck_plan[OF u plan]
      plan_answers(3)[OF g] plan_answers(2)[OF f] by simp
  ultimately show ?thesis using c by simp
qed

section \<open>Properties\<close>


text \<open>
  C8. Plan keeps an access inside. When the mode is Plan at the last look before an adapter gets its path, the path is inside the
  scope, whatever grants there are and whatever the mode was before; and when it is Plan throughout, the user is not asked.
\<close>

theorem workspace_plan:
  assumes "authorize pol env tool requested operation pattern input s = (Inr c, s')"
    "py_casefold (ae_mode env (as_reads s' - 1)) = ''plan''"
  shows "(\<exists>base \<in> set (sc_roots (ap_scope pol)). contains base c)
    \<and> ((\<forall>n. py_casefold (ae_mode env n) = ''plan'') \<longrightarrow> as_answers s' = as_answers s)"
proof -
  obtain b s1 where cs: "consume_current pol env tool requested operation pattern s = (b, s1)" by fastforce
  then have "handed_over pol env tool requested operation pattern s1 = (Inr c, s')
    \<or> direct_access pol env tool requested operation pattern (given_input requested input) s1 = (Inr c, s')"
    using assms(1) by (auto simp: authorize_def split: option.splits bool.splits)
  then have "inside (ap_scope pol) c \<and> ((\<forall>n. py_casefold (ae_mode env n) = ''plan'') \<longrightarrow> as_answers s' = as_answers s1)"
    using handed_over_plan[OF _ assms(2)] direct_access_plan[OF _ assms(2)] by blast
  then show ?thesis using consume_facts(3)[OF cs] by (simp add: inside_def)
qed

text \<open>
  C9. The boundary does not hold for a literal path with a wildcard. When a tool that declares one path is called with a path
  that contains a wildcard and is no glob for the tool, the directory before the wildcard is inside the scope, and the path
  itself resolves to a target outside, then in Safe mode the adapter gets that target and the user is not asked.
\<close>

theorem workspace_wildcard_bypass:
  assumes "requests_for_tool tool (given_input requested input) = [(requested, operation)]" "has_wildcard requested"
    "as_current s = None" "\<forall>n. py_casefold (ae_mode env n) = ''safe''"
    "resolve (fs_now env s) (ap_scope pol) requested operation False = Inr r" "\<not> in_scope r"
    "resolve_pattern (fs_now env s) (ap_scope pol) requested operation False = Inr anchor" "in_scope anchor"
  shows "\<exists>s'. authorize pol env tool requested operation False input s = (Inr (rp_absolute r), s') \<and> as_answers s' = as_answers s"
proof -
  obtain r' where r': "resolve (fs_now env s) (ap_scope pol) requested operation True = Inr r'"
    using assms(5) by (auto simp: resolve_def bindE_eq_Inr_iff Let_def)
  have req: "rp_requested r = requested" using assms(5) by (auto simp: resolve_def bindE_eq_Inr_iff Let_def)
  have none: "consume_current pol env tool requested operation False t = (None, t)" if "as_current t = None" for t
    using that by (simp add: consume_current_def)
  have pre: "authorize_tool pol env tool (given_input requested input) True s = (granted [anchor] False ''allowed'', s)"
    using assms(1,2,7,8) by (simp add: authorize_tool_def preflight_tool_def resolve_fields_def resolve_any_def outside_of_def Let_def)
  have rr: "rp_absolute r' = rp_absolute r" "\<not> in_scope r'" "rp_operation r = operation" "rp_status r' \<noteq> TargetChanged"
    using resolve_facts[OF assms(5)] resolve_facts[OF r'] assms(6) by auto
  have chk: "check_target pol env tool False r t = (Inr r', t)" if "fs_now env t = fs_now env s" for t
    using that req r' rr by (simp add: check_target_def revalidate_def resolve_any_def)
  have pl: "check_plan env tool m r' t = (Inr (), t\<lparr>as_reads := Suc (as_reads t)\<rparr>)" for m t
    using rr(2) assms(4) by (simp add: check_plan_def look_mode_def)
  have res: "resolve_now pol env False requested operation False s = (Inr r, s)"
    using assms(5) by (simp add: resolve_now_def resolve_any_def)
  show ?thesis
    using none assms(3,4) rr
    by (simp add: authorize_def direct_access_def res pre chk pl bindS_def tool_allowed_def granted_def recheck_bypass_def
        look_mode_def settle_grant_def)
qed


section \<open>Witnesses\<close>

text \<open>A file system without symbolic links, the workspace \<open>/ws\<close>, and a user who allows everything.\<close>

definition plain_fs :: filesystem where
  "plain_fs = \<lparr>fs_real = (\<lambda>p. Inr (foldl (\<lambda>acc c. if c = ''..'' then butlast acc else acc @ [c]) [] (pp_parts p))), fs_exists = (\<lambda>_. True)\<rparr>"

definition demo_policy :: access_policy where
  "demo_policy = \<lparr>ap_scope = \<lparr>sc_primary = [''ws''], sc_roots = [[''ws'']], sc_id = []\<rparr>, ap_service = True, ap_watch = False\<rparr>"

definition demo_access :: "string \<Rightarrow> access_env" where
  "demo_access mode = \<lparr>ae_mode = (\<lambda>_. mode), ae_fs = (\<lambda>_. plain_fs), ae_changed = (\<lambda>_. False), ae_answer = (\<lambda>_. plain_response True),
     ae_turn = (\<lambda>_ t. t), ae_session = (\<lambda>_ t. t)\<rparr>"

definition demo_read :: "string \<Rightarrow> string \<Rightarrow> (string + canonical_path) \<times> access_state" where
  "demo_read mode q = authorize demo_policy (demo_access mode) ''read_file'' q ''read'' False None access_init"

lemma demo_access_fair: "never_yolo (demo_access ''Safe'')" "others_within {} (demo_access mode)"
  "py_casefold (ae_mode (demo_access ''Plan'') n) = ''plan''" "py_casefold (ae_mode (demo_access ''Safe'') n) = ''safe''"
proof -
  have "py_casefold ''Safe'' = ''safe''" "py_casefold ''Plan'' = ''plan''" by code_simp+
  then show "never_yolo (demo_access ''Safe'')" "others_within {} (demo_access mode)"
    "py_casefold (ae_mode (demo_access ''Plan'') n) = ''plan''" "py_casefold (ae_mode (demo_access ''Safe'') n) = ''safe''"
    by (simp_all add: demo_access_def never_yolo_def others_within_def)
qed


theorem workspace_plan_witness:
  "\<exists>s'. demo_read ''Plan'' ''a.txt'' = (Inr [''ws'', ''a.txt''], s')
    \<and> (\<exists>base \<in> set (sc_roots (ap_scope demo_policy)). contains base [''ws'', ''a.txt'']) \<and> as_answers s' = as_answers access_init"
proof -
  have "fst (demo_read ''Plan'' ''a.txt'') = Inr [''ws'', ''a.txt'']" by code_simp
  then obtain s' where a: "demo_read ''Plan'' ''a.txt'' = (Inr [''ws'', ''a.txt''], s')" by (cases "demo_read ''Plan'' ''a.txt''") simp
  from workspace_plan[OF a[unfolded demo_read_def] demo_access_fair(3)] show ?thesis using a demo_access_fair(3) by blast
qed

theorem workspace_wildcard_bypass_witness:
  "\<exists>s'. demo_read ''Safe'' ''[x]/../../etc/passwd'' = (Inr [''etc'', ''passwd''], s') \<and> as_answers s' = []
    \<and> length (as_answers (snd (demo_read ''Safe'' ''../etc/passwd''))) = 1"
proof -
  let ?q = "''[x]/../../etc/passwd''" and ?sc = "ap_scope demo_policy"
  have "case resolve plain_fs ?sc ?q ''read'' False of Inr r \<Rightarrow> \<not> in_scope r \<and> rp_absolute r = [''etc'', ''passwd''] | Inl e \<Rightarrow> False" by code_simp
  then obtain r where r: "resolve plain_fs ?sc ?q ''read'' False = Inr r" "\<not> in_scope r" "rp_absolute r = [''etc'', ''passwd'']"
    by (auto split: sum.splits)
  have "case resolve_pattern plain_fs ?sc ?q ''read'' False of Inr r \<Rightarrow> in_scope r | Inl e \<Rightarrow> False" by code_simp
  then obtain anchor where a: "resolve_pattern plain_fs ?sc ?q ''read'' False = Inr anchor" "in_scope anchor" by (auto split: sum.splits)
  have fs: "fs_now (demo_access ''Safe'') access_init = plain_fs" by (simp add: fs_now_def demo_access_def)
  have tool: "requests_for_tool ''read_file'' (given_input ?q None) = [(?q, ''read'')]" "has_wildcard ?q" by code_simp+
  have start: "as_current access_init = None" "as_answers access_init = []" by (simp_all add: access_init_def)
  have "length (as_answers (snd (demo_read ''Safe'' ''../etc/passwd''))) = 1" by code_simp
  then show ?thesis
    using workspace_wildcard_bypass[OF tool start(1), of "demo_access ''Safe''" demo_policy r anchor] r a fs start(2) demo_access_fair(4)
    by (auto simp: demo_read_def)
qed

end
