(* ===== verification/Delegation_Properties.thy ===== *)
theory Delegation_Properties
  imports Delegation Workspace_Properties
begin

text \<open>
  Delegation only narrows: what a worker may do, its ancestors may do; the tiers of the depths grow smaller with the depth; and
  where the check of the tiers fails a worker that is within all of them.
\<close>

section \<open>Policies\<close>

lemma restrict_by_facts:
  "xp_blocked (restrict_by digest p d c t i) = narrowed_blocked p d c"
  "xp_approval (restrict_by digest p d c t i) = narrowed_approval p d c"
  "xp_scope (restrict_by digest p d c t i) = narrowed_scope p d c"
proof -
  have h: "xp_blocked (if new = p then p else new\<lparr>xp_visible := v, xp_revision := r\<rparr>) = xp_blocked new
    \<and> xp_approval (if new = p then p else new\<lparr>xp_visible := v, xp_revision := r\<rparr>) = xp_approval new
    \<and> xp_scope (if new = p then p else new\<lparr>xp_visible := v, xp_revision := r\<rparr>) = xp_scope new" for new v r by simp
  show "xp_blocked (restrict_by digest p d c t i) = narrowed_blocked p d c"
    "xp_approval (restrict_by digest p d c t i) = narrowed_approval p d c"
    "xp_scope (restrict_by digest p d c t i) = narrowed_scope p d c"
    unfolding restrict_by_def Let_def by (simp_all only: h) simp_all
qed

text \<open>A policy that is at least as strict as another one.\<close>

definition stricter :: "execution_policy \<Rightarrow> execution_policy \<Rightarrow> bool" where
  "stricter p' p \<longleftrightarrow> xp_blocked p \<subseteq> xp_blocked p' \<and> xp_approval p \<subseteq> xp_approval p' \<union> xp_blocked p'
     \<and> (\<forall>name. is_tool_allowed (xp_scope p') name \<longrightarrow> is_tool_allowed (xp_scope p) name)"



lemma restrict_by_stricter: "stricter (restrict_by digest p d c t i) p"
  unfolding stricter_def restrict_by_facts narrowed_blocked_def narrowed_approval_def narrowed_scope_def Let_def
  by (auto dest: restrict_allows split: option.splits)

lemma restrict_by_declared: "stricter (restrict_by digest p (Some d) c t i) d"
  unfolding stricter_def restrict_by_facts narrowed_blocked_def narrowed_approval_def narrowed_scope_def Let_def
  by (auto dest: restrict_allows split: option.splits)



section \<open>Workspaces\<close>






section \<open>Tiers\<close>

lemma narrow_tools_le: "narrow_tools depth ty t prior = Inr T \<Longrightarrow> T \<subseteq> prior \<and> (case dt_tools t of None \<Rightarrow> T = prior | Some ts \<Rightarrow> T = set ts)"
  by (auto simp: narrow_tools_def split: option.splits if_splits)

lemma narrow_models_le:
  "narrow_models depth ty t prior = Inr M \<Longrightarrow> (case M of None \<Rightarrow> prior = None | Some m \<Rightarrow> \<exists>p. prior = Some p \<and> m \<subseteq> p)
     \<and> (case dt_models t of None \<Rightarrow> M = prior | Some ms \<Rightarrow> M = Some (set ms))"
  by (auto simp: narrow_models_def split: option.splits if_splits)

definition models_within :: "string set option \<Rightarrow> string set option \<Rightarrow> bool" where
  "models_within M' M \<longleftrightarrow> (case M' of None \<Rightarrow> M = None | Some m' \<Rightarrow> \<exists>m. M = Some m \<and> m' \<subseteq> m)"

lemma models_within_refl: "models_within M M"
  by (simp add: models_within_def split: option.splits)

lemma models_within_trans: "models_within M'' M' \<Longrightarrow> models_within M' M \<Longrightarrow> models_within M'' M"
  by (force simp: models_within_def split: option.splits)

text \<open>What the check of the tiers leaves is what the resolution finds, or what the type itself allows.\<close>

definition agrees :: "string set \<Rightarrow> string set option \<Rightarrow> resolved_tier \<Rightarrow> string set \<times> string set option \<Rightarrow> bool" where
  "agrees T0 M0 r TM \<longleftrightarrow> (rt_tools r = None \<and> fst TM = T0 \<or> rt_tools r = Some (fst TM))
     \<and> (rt_models r = None \<and> snd TM = M0 \<or> rt_models r = snd TM \<and> snd TM \<noteq> None)"

lemma check_tier_step:
  assumes "check_tier ty e TM = Inr TM'" "agrees T0 M0 r TM"
  shows "fst TM' \<subseteq> fst TM \<and> models_within (snd TM') (snd TM) \<and> agrees T0 M0 (tier_step ty r (snd e)) TM'"
proof (cases "dget (snd e) ty")
  case None
  then show ?thesis using assms by (simp add: check_tier_def tier_step_def models_within_refl)
next
  case (Some t)
  then obtain T M where tm: "narrow_tools (fst e) ty t (fst TM) = Inr T" "narrow_models (fst e) ty t (snd TM) = Inr M" "TM' = (T, M)"
    using assms(1) by (auto simp: check_tier_def bindE_eq_Inr_iff)
  show ?thesis
    using narrow_tools_le[OF tm(1)] narrow_models_le[OF tm(2)] tm(3) Some assms(2)
    by (auto simp: agrees_def tier_step_def or_else_def models_within_def split: option.splits)
qed

lemma check_tiers_fold:
  assumes "foldE (check_tier ty) es TM = Inr TM'" "agrees T0 M0 r TM"
  shows "fst TM' \<subseteq> fst TM \<and> models_within (snd TM') (snd TM) \<and> agrees T0 M0 (foldl (tier_step ty) r (map snd es)) TM'"
  using assms
proof (induction es arbitrary: TM r)
  case Nil
  then show ?case by (simp add: models_within_refl)
next
  case (Cons e es)
  obtain TM1 where s: "check_tier ty e TM = Inr TM1" "foldE (check_tier ty) es TM1 = Inr TM'"
    using Cons.prems(1) by (auto simp: bindE_eq_Inr_iff)
  note st = check_tier_step[OF s(1) Cons.prems(2)]
  from Cons.IH[OF s(2), of "tier_step ty r (snd e)"] st show ?case by (auto intro: models_within_trans)
qed

lemma filter_le_prefix:
  assumes "sorted (map fst es)" "(d::int) \<le> d'"
  shows "\<exists>rest. filter (\<lambda>(k, _). k \<le> d') es = filter (\<lambda>(k, _). k \<le> d) es @ rest"
  using assms(1)
proof (induction es)
  case (Cons e es)
  show ?case
  proof (cases "fst e \<le> d")
    case True
    then show ?thesis using Cons assms(2) by (cases e) auto
  next
    case False
    then have "filter (\<lambda>(k, _). k \<le> d) (e # es) = []" using Cons.prems by (auto simp: filter_empty_conv)
    then show ?thesis by auto
  qed
qed simp

lemma filter_prefix: "sorted (map fst es) \<Longrightarrow> \<exists>xs. es = filter (\<lambda>(k, _). k \<le> (d::int)) es @ xs"
proof (induction es)
  case (Cons e es)
  show ?case
  proof (cases "fst e \<le> d")
    case True
    then show ?thesis using Cons by (cases e) auto
  next
    case False
    then have "filter (\<lambda>(k, _). k \<le> d) (e # es) = []" using Cons.prems by (auto simp: filter_empty_conv)
    then show ?thesis by simp
  qed
qed simp

lemma validated_type:
  assumes "validate_depth_tiers tiers registry allowed = Inr ()" "registry ty = Some spec" "ty \<in> set (configured_types tiers)"
  shows "\<exists>TM. foldE (check_tier ty) (sort_key fst tiers) (ts_allowed spec, type_models spec allowed) = Inr TM"
proof -
  have "\<exists>TM. foldE (check_tier ty) (sort_key fst tiers) (ts_allowed spec, type_models spec allowed) = Inr TM"
    if "foldE (\<lambda>ty _. case registry ty of None \<Rightarrow> Inl (''subagents.depth_tiers references unknown type '' @ py_repr ty)
       | Some spec \<Rightarrow> map_sum id (\<lambda>_. ()) (foldE (check_tier ty) (sort_key fst tiers) (ts_allowed spec, type_models spec allowed))) tys () = Inr ()"
      "ty \<in> set tys" for tys
    using that assms(2)
  proof (induction tys)
    case (Cons x xs)
    then show ?case
      by (cases "foldE (check_tier ty) (sort_key fst tiers) (ts_allowed spec, type_models spec allowed)") (auto simp: bindE_eq_Inr_iff)
  qed simp
  then show ?thesis using assms(1,3) unfolding validate_depth_tiers_def by blast
qed

lemma unconfigured_type:
  assumes "ty \<notin> set (configured_types tiers)"
  shows "resolve_depth_tier tiers d ty = \<lparr>rt_tools = None, rt_models = None\<rparr>"
proof -
  have n: "dget (snd e) ty = None" if "e \<in> set tiers" for e
    using assms that by (auto simp: configured_types_def map_of_eq_None_iff keys_def image_iff)
  have "foldl (tier_step ty) r (map snd es) = r" if "set es \<subseteq> set tiers" for es r
    using that n by (induction es arbitrary: r) (auto simp: tier_step_def)
  from this[of "filter (\<lambda>(k, _). k \<le> d) (sort_key fst tiers)"] show ?thesis by (auto simp: resolve_depth_tier_def)
qed

lemma resolved_agrees:
  assumes "foldE (check_tier ty) (sort_key fst tiers) (T0, M0) = Inr TM" "d \<le> d'"
  shows "\<exists>TM1 TM2. agrees T0 M0 (resolve_depth_tier tiers d ty) TM1 \<and> agrees T0 M0 (resolve_depth_tier tiers d' ty) TM2
    \<and> fst TM2 \<subseteq> fst TM1 \<and> fst TM1 \<subseteq> T0 \<and> models_within (snd TM2) (snd TM1) \<and> models_within (snd TM1) M0
    \<and> (rt_tools (resolve_depth_tier tiers d ty) \<noteq> None \<longrightarrow> rt_tools (resolve_depth_tier tiers d' ty) \<noteq> None)
    \<and> (rt_models (resolve_depth_tier tiers d ty) \<noteq> None \<longrightarrow> rt_models (resolve_depth_tier tiers d' ty) \<noteq> None)"
proof -
  let ?es = "sort_key fst tiers" and ?r0 = "\<lparr>rt_tools = None, rt_models = None\<rparr>"
  let ?f = "\<lambda>k. filter (\<lambda>(i, _). i \<le> k) ?es"
  obtain rest where rest: "?f d' = ?f d @ rest" using filter_le_prefix[of ?es d d'] assms(2) by auto
  obtain xs where xs: "?es = ?f d' @ xs" using filter_prefix[of ?es d'] by auto
  then have run: "foldE (check_tier ty) (?f d @ rest @ xs) (T0, M0) = Inr TM" using assms(1) rest by simp
  obtain TM1 TM2 where tm: "foldE (check_tier ty) (?f d) (T0, M0) = Inr TM1" "foldE (check_tier ty) rest TM1 = Inr TM2"
    using run by (auto simp: foldE_append bindE_eq_Inr_iff)
  have a0: "agrees T0 M0 ?r0 (T0, M0)" by (simp add: agrees_def)
  note s1 = check_tiers_fold[OF tm(1) a0]
  have s2: "fst TM2 \<subseteq> fst TM1 \<and> models_within (snd TM2) (snd TM1)
    \<and> agrees T0 M0 (foldl (tier_step ty) (resolve_depth_tier tiers d ty) (map snd rest)) TM2"
    using check_tiers_fold[OF tm(2), of T0 M0 "resolve_depth_tier tiers d ty"] s1 by (simp add: resolve_depth_tier_def)
  have r2: "foldl (tier_step ty) (resolve_depth_tier tiers d ty) (map snd rest) = resolve_depth_tier tiers d' ty"
    using rest by (simp add: resolve_depth_tier_def)
  have keep: "(rt_tools r \<noteq> None \<longrightarrow> rt_tools (foldl (tier_step ty) r es) \<noteq> None) \<and> (rt_models r \<noteq> None \<longrightarrow> rt_models (foldl (tier_step ty) r es) \<noteq> None)"
    for r es
    by (induction es arbitrary: r) (auto simp: tier_step_def or_else_def split: option.splits)
  from keep[of "resolve_depth_tier tiers d ty" "map snd rest"] s1 s2 r2 show ?thesis
    by (intro exI[of _ TM1] exI[of _ TM2]) (simp add: resolve_depth_tier_def)
qed

section \<open>Workers\<close>

lemma worker_policy_stricter:
  shows "pn_policy pn = Some p \<Longrightarrow> \<exists>p'. worker_policy ss pn spec ws = Some p' \<and> stricter p' p"
    "ts_policy spec = Some d \<Longrightarrow> \<exists>p'. worker_policy ss pn spec ws = Some p' \<and> stricter p' d"
proof -
  show "\<exists>p'. worker_policy ss pn spec ws = Some p' \<and> stricter p' p" if "pn_policy pn = Some p"
    using that restrict_by_stricter by (simp add: worker_policy_def or_else_def Let_def)
  show "\<exists>p'. worker_policy ss pn spec ws = Some p' \<and> stricter p' d" if "ts_policy spec = Some d"
    using that restrict_by_stricter restrict_by_declared
    by (cases "or_else (pn_policy pn) (policy_from_app_state (ss_digest ss) (pn_app pn) (args_of_tools (pn_tools pn)))")
      (simp_all add: worker_policy_def Let_def)
qed

lemma make_worker_facts:
  assumes "make_worker ss fs pn name spec = Inr w"
  shows "wk_tools w = filter (is_tool_allowed (wk_scope w)) (pn_tools pn)" "wk_depth w = pn_depth pn"
    "wk_nested w \<Longrightarrow> wk_depth w < ss_max_depth ss"
    "wk_policy w = worker_policy ss pn spec (wk_workspace w)"
    "restrict_workspace_scope (ss_sha ss) fs (pn_workspace pn) (Option.bind (ts_permissions spec) pc_workspace_paths) = Inr (wk_workspace w)"
    "\<exists>m. wk_models w = narrower (pn_models pn) m"
  using assms by (auto simp: make_worker_def Let_def bindE_eq_Inr_iff)

lemma make_worker_nested: "make_worker ss fs pn name spec = Inr w \<Longrightarrow> wk_nested w \<Longrightarrow> is_tool_allowed (wk_scope w) spawn_tool"
  by (auto simp: make_worker_def Let_def bindE_eq_Inr_iff)

lemma made_scope:
  assumes "make_worker ss fs pn name spec = Inr w" "wk_policy w = Some p" "is_tool_allowed (wk_scope w) tool"
  shows "is_tool_allowed (xp_scope p) tool"
proof -
  obtain allowed where "wk_scope w = worker_scope ss pn spec (Some p) allowed"
    using assms(1,2) by (auto simp: make_worker_def Let_def bindE_eq_Inr_iff)
  then show ?thesis using assms(3) by (auto simp: worker_scope_def Let_def dest!: restrict_allows split: if_splits)
qed








section \<open>Properties\<close>


text \<open>
  C11. The tiers of the depths only narrow. When the tiers were accepted, a type has at a deeper depth no tool and no model that
  it has not at a shallower one, and none that the type itself and its models do not allow.
\<close>

theorem depth_tiers_narrow:
  assumes "validate_depth_tiers tiers registry allowed = Inr ()" "registry agent_type = Some spec" "d \<le> d'"
  shows "(\<forall>t. rt_tools (resolve_depth_tier tiers d agent_type) = Some t \<longrightarrow>
        (\<exists>t'. rt_tools (resolve_depth_tier tiers d' agent_type) = Some t' \<and> t' \<subseteq> t))
    \<and> (\<forall>m. rt_models (resolve_depth_tier tiers d agent_type) = Some m \<longrightarrow>
        (\<exists>m'. rt_models (resolve_depth_tier tiers d' agent_type) = Some m' \<and> m' \<subseteq> m))
    \<and> (\<forall>t. rt_tools (resolve_depth_tier tiers d agent_type) = Some t \<longrightarrow> t \<subseteq> ts_allowed spec)
    \<and> (\<forall>m. rt_models (resolve_depth_tier tiers d agent_type) = Some m \<longrightarrow> (\<exists>m0. type_models spec allowed = Some m0 \<and> m \<subseteq> m0))"
proof (cases "agent_type \<in> set (configured_types tiers)")
  case False
  then show ?thesis by (simp add: unconfigured_type)
next
  case True
  obtain TM where "foldE (check_tier agent_type) (sort_key fst tiers) (ts_allowed spec, type_models spec allowed) = Inr TM"
    using validated_type[OF assms(1,2) True] by blast
  from resolved_agrees[OF this assms(3)] show ?thesis
    unfolding agrees_def models_within_def by (force split: option.splits)
qed

text \<open>
  C12. In a session a worker is never offered to spawn. When the policy of a pool was taken from the mode of the session with the
  names of the tools that were visible, none of which is a pattern for \<open>spawn_subagents\<close>, then no worker of the pool has that
  tool, whatever its type declares and however great the greatest depth is, and nobody descends from it.
\<close>

theorem nested_spawn_lost:
  assumes "policy_from_app_state digest (Some app) args = Some p" "pg_scope args = None" "pg_visible args \<noteq> {}"
    "\<forall>t \<in> pg_visible args. \<not> glob_match t ''spawn_subagents''" "pn_policy pn = Some p" "make_worker ss fs pn name spec = Inr w"
  shows "\<not> wk_nested w \<and> (descends ss types w u \<longrightarrow> u = w)"
proof -
  have no: "\<not> is_tool_allowed (xp_scope p) spawn_tool"
  proof
    assume ok: "is_tool_allowed (xp_scope p) spawn_tool"
    let ?sc = "default_scope\<lparr>ag_allowed_tools := Some (pg_visible args)\<rparr>"
    have "xp_scope p = (case pg_permissions args of None \<Rightarrow> ?sc | Some c \<Rightarrow> restrict_scope ?sc (denying (pc_deny_tools c)))"
      using assms(1-3) by (cases app) (auto simp: policy_from_app_state_def Let_def)
    then have "is_tool_allowed ?sc spawn_tool" using ok by (auto dest: restrict_allows split: option.splits)
    then show False using assms(4) by (simp add: is_tool_allowed_def spawn_tool_def default_scope_def)
  qed
  obtain p' where p': "wk_policy w = Some p'" "stricter p' p"
    using worker_policy_stricter(1)[OF assms(5)] make_worker_facts(4)[OF assms(6)] by metis
  have "\<not> is_tool_allowed (xp_scope p') spawn_tool" using no p'(2) by (auto simp: stricter_def)
  then have "\<not> is_tool_allowed (wk_scope w) spawn_tool" using made_scope[OF assms(6) p'(1)] by blast
  then have n: "\<not> wk_nested w" using make_worker_nested[OF assms(6)] by blast
  have "u = w" if "descends ss types w u"
    using that n by (induction rule: descends.induct) auto
  then show ?thesis using n by blast
qed

section \<open>Witnesses\<close>

definition plain_type :: "string \<Rightarrow> string set \<Rightarrow> type_spec" where
  "plain_type name tools = \<lparr>ts_name = name, ts_allowed = tools, ts_model = [], ts_policy = None, ts_permissions = None\<rparr>"

text \<open>An explorer for one model and a planner for another one, below the first depth.\<close>

definition demo_tiers :: depth_tiers where
  "demo_tiers = [(2, [(''explorer'', \<lparr>dt_tools = Some [''read_file'', ''spawn_subagents''], dt_models = Some [''m1'']\<rparr>),
     (''planner'', \<lparr>dt_tools = None, dt_models = Some [''m2'']\<rparr>)])]"

definition demo_types :: "string \<Rightarrow> type_spec option" where
  "demo_types name = (if name = ''explorer'' then Some (plain_type name {''read_file'', ''grep_files'', ''spawn_subagents''})
     else if name = ''planner'' then Some (plain_type name {''read_file''}) else None)"

definition demo_spawns :: spawn_session where
  "demo_spawns = \<lparr>ss_digest = (\<lambda>_. []), ss_sha = (\<lambda>_. []), ss_registry = None, ss_tiers = Some demo_tiers, ss_max_depth = 3,
     ss_approval = True, ss_allowed_models = Some {''m1'', ''m2''}\<rparr>"

definition demo_parent :: "int \<Rightarrow> spawn_context" where
  "demo_parent depth = \<lparr>pn_tools = [''read_file'', ''grep_files'', ''write_file''], pn_policy = None,
     pn_app = Some (\<lparr>md_name = ''Plan'', md_blocked = {CapWrite}, md_approval = {}, md_default_workflow = None, md_workflows = []\<rparr>,
       \<lparr>mf_badge = [], mf_color = [], mf_description = [], mf_suffix = []\<rparr>),
     pn_workspace = None, pn_depth = depth, pn_models = Some {''m1'', ''m2''}\<rparr>"

text \<open>
  A tier can stop what it allows. The check of all tiers is repeated against the models of the worker that may spawn: these
  tiers are accepted for the session, and the explorer of the second depth is built within them, with its one model and with the tool to
  spawn, but making that tool rejects the tier of the planner, whose model the explorer does not have, and the explorer does not run.
\<close>

definition demo_explorer :: "string + worker" where
  "demo_explorer = make_worker demo_spawns plain_fs ((demo_parent 2)\<lparr>pn_app := None, pn_tools := [''read_file'', ''spawn_subagents'']\<rparr>)
     ''explorer'' (plain_type ''explorer'' {''read_file'', ''grep_files'', ''spawn_subagents''})"

lemma depth_tiers_break:
  "validate_depth_tiers demo_tiers demo_types (ss_allowed_models demo_spawns) = Inr ()"
  "case demo_explorer of Inl _ \<Rightarrow> False | Inr w \<Rightarrow> wk_models w = Some {''m1''} \<and> wk_nested w
     \<and> may_run demo_spawns demo_types w = Inl (''subagents.depth_tiers.2.planner.allowed_models ''
         @ ''grants models outside the type or inherited profile: m2'')"
  by code_simp+



definition demo_lead_session :: spawn_session where
  "demo_lead_session = demo_spawns\<lparr>ss_tiers := None\<rparr>"


theorem depth_tiers_narrow_witness:
  "rt_tools (resolve_depth_tier demo_tiers 2 ''explorer'') = Some {''read_file'', ''spawn_subagents''}
    \<and> {''read_file'', ''spawn_subagents''} \<subseteq> ts_allowed (plain_type ''explorer'' {''read_file'', ''grep_files'', ''spawn_subagents''})"
proof -
  have r: "rt_tools (resolve_depth_tier demo_tiers 2 ''explorer'') = Some {''read_file'', ''spawn_subagents''}" by code_simp
  have t: "demo_types ''explorer'' = Some (plain_type ''explorer'' {''read_file'', ''grep_files'', ''spawn_subagents''})"
    by (simp add: demo_types_def)
  from depth_tiers_narrow[OF depth_tiers_break(1) t, of 2 2] r show ?thesis by simp
qed

theorem nested_spawn_lost_witness:
  "\<exists>p w. policy_from_app_state (\<lambda>_. []) (pn_app (demo_parent 1)) (args_of_tools [''read_file'', ''grep_files'']) = Some p
    \<and> make_worker demo_lead_session plain_fs ((demo_parent 1)\<lparr>pn_policy := Some p\<rparr>) ''lead''
        (plain_type ''lead'' {''read_file'', ''spawn_subagents''}) = Inr w
    \<and> wk_depth w < ss_max_depth demo_lead_session \<and> ''spawn_subagents'' \<in> wk_effective w \<and> \<not> wk_nested w"
proof -
  let ?args = "args_of_tools [''read_file'', ''grep_files'']"
  let ?make = "\<lambda>p. make_worker demo_lead_session plain_fs ((demo_parent 1)\<lparr>pn_policy := Some p\<rparr>) ''lead''
        (plain_type ''lead'' {''read_file'', ''spawn_subagents''})"
  have "case policy_from_app_state (\<lambda>_. []) (pn_app (demo_parent 1)) ?args of None \<Rightarrow> False | Some p \<Rightarrow>
      (case ?make p of Inl _ \<Rightarrow> False | Inr w \<Rightarrow> wk_depth w < ss_max_depth demo_lead_session \<and> ''spawn_subagents'' \<in> wk_effective w)"
    by code_simp
  then obtain p where p: "policy_from_app_state (\<lambda>_. []) (pn_app (demo_parent 1)) ?args = Some p"
    and m: "case ?make p of Inl _ \<Rightarrow> False | Inr w \<Rightarrow> wk_depth w < ss_max_depth demo_lead_session \<and> ''spawn_subagents'' \<in> wk_effective w"
    by (cases "policy_from_app_state (\<lambda>_. []) (pn_app (demo_parent 1)) ?args") simp_all
  obtain w where w: "?make p = Inr w" "wk_depth w < ss_max_depth demo_lead_session" "''spawn_subagents'' \<in> wk_effective w"
    using m by (cases "?make p") simp_all
  obtain app where app: "pn_app (demo_parent 1) = Some app" by (simp add: demo_parent_def)
  have none: "\<forall>t \<in> pg_visible ?args. \<not> glob_match t ''spawn_subagents''" by code_simp
  have v: "pg_scope ?args = None" "pg_visible ?args \<noteq> {}" "pn_policy ((demo_parent 1)\<lparr>pn_policy := Some p\<rparr>) = Some p"
    by (simp_all add: args_of_tools_def)
  from nested_spawn_lost[OF p[unfolded app] v(1,2) none v(3) w(1)] show ?thesis using p w by blast
qed

end
