(* ===== verification/Pool_Budget.thy ===== *)
theory Pool_Budget
  imports Usage_Ledger Bg_Model
begin

text \<open>
  The budget of a pool of subagents (\<open>src/agenthicc/subagents/budget.py\<close>): what its workers spent according to the usage ledger,
  the reading of a declared budget, and the limits that come of the declaration, the ceiling of the settings and the limits
  of the operator. Floats are exact; the one line of text for the model is not modelled.
\<close>

section \<open>What a pool spent\<close>

definition worker_run_id :: "string \<Rightarrow> string \<Rightarrow> string \<Rightarrow> string" where
  "worker_run_id parent_run_id pool_id task_id = parent_run_id @ '':'' @ pool_id @ '':subagent:'' @ task_id"

definition pool_marker :: "string \<Rightarrow> string" where
  "pool_marker pool_id = '':'' @ pool_id @ '':subagent:''"

fun occurs_in :: "string \<Rightarrow> string \<Rightarrow> bool" where
  "occurs_in m [] = (m = [])"
| "occurs_in m (c # cs) = (starts_with (c # cs) m \<or> occurs_in m cs)"

record pool_spend =
  pu_input :: int
  pu_output :: int
  pu_cache_read :: int
  pu_cache_write :: int
  pu_calls :: nat
  pu_cost :: rat
  pu_cost_status :: string

definition no_spend :: pool_spend where
  "no_spend = \<lparr>pu_input = 0, pu_output = 0, pu_cache_read = 0, pu_cache_write = 0, pu_calls = 0, pu_cost = 0, pu_cost_status = ''unavailable''\<rparr>"

definition total_tokens :: "pool_spend \<Rightarrow> int" where
  "total_tokens u = pu_input u + pu_output u"

definition cost_known :: "pool_spend \<Rightarrow> bool" where
  "cost_known u \<longleftrightarrow> pu_cost_status u \<noteq> ''unavailable''"

definition total_of :: "(usage_values \<Rightarrow> int option) \<Rightarrow> usage_record list \<Rightarrow> int" where
  "total_of field records = sum_list (map (\<lambda>r. case field (ur_values r) of None \<Rightarrow> 0 | Some n \<Rightarrow> n) records)"

definition spend_of :: "usage_record list \<Rightarrow> pool_spend" where
  "spend_of records =
     (if records = [] then no_spend
      else let costed = filter (\<lambda>r. ur_cost_usd r \<noteq> None) records;
               status = (if length costed \<noteq> length records \<or> list_ex (\<lambda>r. ur_cost_status r = ''unavailable'') records then ''unavailable''
                 else if list_ex (\<lambda>r. ur_cost_status r = ''estimated'') costed then ''estimated'' else ''authoritative'')
           in \<lparr>pu_input = total_of uv_input records, pu_output = total_of uv_output records, pu_cache_read = total_of uv_cache_read records,
                pu_cache_write = total_of uv_cache_write records, pu_calls = length records,
                pu_cost = sum_list (map (\<lambda>r. case ur_cost_usd r of None \<Rightarrow> 0 | Some c \<Rightarrow> c) costed), pu_cost_status = status\<rparr>)"

text \<open>Completed records only: what is provisional is not spent yet.\<close>

definition pool_usage :: "usage_ledger option \<Rightarrow> string \<Rightarrow> pool_spend" where
  "pool_usage ledger pool_id =
     (case ledger of
        None \<Rightarrow> no_spend
      | Some L \<Rightarrow> if pool_id = [] then no_spend
          else spend_of (filter (\<lambda>r. occurs_in (pool_marker pool_id) (ur_run_id r)) (ledger_records False L)))"

definition worker_usage :: "usage_ledger option \<Rightarrow> string \<Rightarrow> string \<Rightarrow> pool_spend" where
  "worker_usage ledger pool_id task_id =
     (case ledger of
        None \<Rightarrow> no_spend
      | Some L \<Rightarrow> if pool_id = [] then no_spend
          else spend_of (filter (\<lambda>r. ends_with (ur_run_id r) (pool_marker pool_id @ task_id)) (ledger_records False L)))"

section \<open>Budgets\<close>

record pool_budget =
  pb_tokens :: "int option"
  pb_cost_usd :: "rat option"
  pb_wall_clock_s :: "rat option"

definition no_budget :: pool_budget where
  "no_budget = \<lparr>pb_tokens = None, pb_cost_usd = None, pb_wall_clock_s = None\<rparr>"

definition is_declared :: "pool_budget \<Rightarrow> bool" where
  "is_declared b \<longleftrightarrow> pb_tokens b \<noteq> None \<or> pb_cost_usd b \<noteq> None \<or> pb_wall_clock_s b \<noteq> None"

definition budget_to_dict :: "pool_budget \<Rightarrow> payload" where
  "budget_to_dict b = [(''tokens'', of_opt_int (pb_tokens b)), (''cost_usd'', of_opt_rat (pb_cost_usd b)),
     (''wall_clock_s'', of_opt_rat (pb_wall_clock_s b))]"

text \<open>An error is the field it names and its message.\<close>

type_synonym budget_error = "string \<times> string"

definition positive_number :: "string \<Rightarrow> pyval \<Rightarrow> budget_error + rat" where
  "positive_number field v =
     (case num_of v of
        None \<Rightarrow> Inl (field, ''must be a number'')
      | Some (Fin r) \<Rightarrow> if 0 < r then Inr r else Inl (field, ''must be a finite number greater than zero'')
      | Some _ \<Rightarrow> Inl (field, ''must be a finite number greater than zero''))"

definition parse_tokens :: "pyval \<Rightarrow> budget_error + int option" where
  "parse_tokens v =
     (case v of
        PNone \<Rightarrow> Inr None
      | PInt i \<Rightarrow> if i < 1 then Inl (''tokens'', ''must be greater than zero'') else Inr (Some i)
      | _ \<Rightarrow> Inl (''tokens'', ''must be an integer''))"

definition parse_number :: "string \<Rightarrow> pyval \<Rightarrow> budget_error + rat option" where
  "parse_number field v = (if v = PNone then Inr None else bindE (positive_number field v) (\<lambda>r. Inr (Some r)))"

definition budget_keys :: "string list" where
  "budget_keys = [''tokens'', ''cost_usd'', ''wall_clock_s'']"

definition parse_budget :: "pyval \<Rightarrow> budget_error + pool_budget" where
  "parse_budget v =
     (if v = PNone then Inr no_budget
      else case mapping_of v of
        None \<Rightarrow> Inl (''budget'', ''must be an object with tokens, cost_usd or wall_clock_s'')
      | Some d \<Rightarrow>
          (case sort (filter (\<lambda>k. k \<notin> set budget_keys) (keys d)) of
             k # _ \<Rightarrow> Inl (k, ''is not a budget key (use tokens, cost_usd, wall_clock_s)'')
           | [] \<Rightarrow> bindE (parse_tokens (pget d ''tokens'')) (\<lambda>tokens.
               bindE (parse_number ''cost_usd'' (pget d ''cost_usd'')) (\<lambda>cost.
               bindE (parse_number ''wall_clock_s'' (pget d ''wall_clock_s'')) (\<lambda>wall.
               Inr \<lparr>pb_tokens = tokens, pb_cost_usd = cost, pb_wall_clock_s = wall\<rparr>)))))"

record effective_budget =
  eb_limits :: pool_budget
  eb_declared :: pool_budget
  eb_sources :: "string pydict"
  eb_clamped :: "rat pydict"






definition reason_units :: "string pydict" where
  "reason_units = [(''max_tokens_exceeded'', ''tokens''), (''max_total_time_s_exceeded'', ''wall_clock_s''),
     (''max_cost_usd_exceeded'', ''cost_usd''), (''max_tool_calls_exceeded'', ''tool_calls''), (''max_iterations_exceeded'', ''iterations'')]"

text \<open>Which limit stopped a pool, and where that limit is from.\<close>

definition crossed_unit :: "string \<Rightarrow> string" where
  "crossed_unit reason = dget_or reason_units reason []"

definition crossed_source :: "effective_budget option \<Rightarrow> string \<Rightarrow> string" where
  "crossed_source budget reason = (case budget of None \<Rightarrow> ''operator'' | Some b \<Rightarrow> dget_or (eb_sources b) (crossed_unit reason) ''operator'')"

section \<open>What holds\<close>

lemma total_of_append: "total_of f (xs @ ys) = total_of f xs + total_of f ys"
  by (simp add: total_of_def)

lemma spend_cost_known:
  assumes "cost_known (spend_of records)"
  shows "records \<noteq> [] \<and> (\<forall>r \<in> set records. \<exists>c. ur_cost_usd r = Some c \<and> ur_cost_status r \<noteq> ''unavailable'')"
proof -
  have n: "records \<noteq> []" using assms by (auto simp: spend_of_def cost_known_def no_spend_def)
  have s: "length (filter (\<lambda>r. ur_cost_usd r \<noteq> None) records) = length records \<and> \<not> list_ex (\<lambda>r. ur_cost_status r = ''unavailable'') records"
    using assms n by (auto simp: spend_of_def cost_known_def Let_def split: if_splits)
  then have "\<forall>r \<in> set records. ur_cost_usd r \<noteq> None" by (metis (mono_tags, lifting) length_filter_less order.irrefl)
  then show ?thesis using n s by (auto simp: list_ex_iff)
qed

lemma occurs_in_iff: "occurs_in m s \<longleftrightarrow> (\<exists>a b. s = a @ m @ b)"
proof (induction s)
  case (Cons c cs)
  have "(\<exists>a b. c # cs = a @ m @ b) \<longleftrightarrow> (\<exists>b. c # cs = m @ b) \<or> (\<exists>a b. cs = a @ m @ b)"
    by (metis append_Cons append_Nil list.inject neq_Nil_conv)
  then show ?case using Cons by (simp add: starts_with_iff)
qed simp

text \<open>A worker is found by its pool and by its task.\<close>

lemma worker_run_found:
  "occurs_in (pool_marker pool_id) (worker_run_id parent pool_id task) \<and> ends_with (worker_run_id parent pool_id task) (pool_marker pool_id @ task)"
  unfolding occurs_in_iff ends_with_iff worker_run_id_def pool_marker_def by auto




section \<open>Properties\<close>


end
