(* ===== verification/Spec2Isabelle.thy ===== *)
theory Spec2Isabelle
  imports Kernel_Properties Broker_Properties Journal_Properties Journal_Recovery Question_Properties Bg_Properties Bg_Queue Inbox_Properties Sched_Properties Modes_Properties Usage_Properties Retry_Properties Approval_Properties Phase_Properties Delegation_Properties Pool_Budget
begin

text \<open>
  Verification development of agenthicc, an agent runtime in Python (the code is under
  \<open>src/src/agenthicc/\<close>; file names below are relative to it).

  \<^bold>\<open>The program.\<close> A session runs agents that call a language model and tools. The kernel is an event
  loop over an immutable state. Sessions that run in the background are records of an event-sourced store,
  dispatched by a queue and, on a schedule, by a scheduler. In a session, a turn retries provider errors,
  writes every conversation transition to a journal and every provider call to a usage ledger, asks the user
  before tools with effects, within the limits of the execution mode, and starts pools of subagents that talk
  through a message broker.

  \<^bold>\<open>Theories and the code they model\<close> (each opens with a text of its own):

  \<^item> \<open>Prelude\<close>: JSON and Python values (\<open>pyval\<close>), dictionaries as association lists in insertion order, errors as
    the left side of a sum, text functions, floats as exact rationals with the infinities and NaN.
  \<^item> \<open>Kernel_State\<close>, \<open>Kernel_Events\<close>, \<open>Kernel_Reducer\<close>, \<open>Kernel_Processor\<close> (\<open>kernel/state.py\<close>, \<open>events.py\<close>, \<open>reducer.py\<close>,
    \<open>processor.py\<close>): the state and its handlers, \<open>root_reducer\<close>, the event loop with its queues, subscriptions,
    snapshots, log and \<open>restore_from_log\<close>. \<open>Kernel_Spec\<close> states the loop as a fold over the accepted events;
    \<open>Kernel_Properties\<close>: replay of the log, frames, idempotence, bounds of the queues.
  \<^item> \<open>Bg_Model\<close>, \<open>Bg_Replay\<close>, \<open>Bg_Store\<close>, \<open>Bg_Lifecycle\<close>, \<open>Bg_Queue\<close> (\<open>background/model.py\<close>, \<open>store.py\<close>, \<open>queue.py\<close>,
    \<open>recovery.py\<close>, \<open>deletion.py\<close>): the session record with its clamps and its reading, the events and their two folds,
    the store's operations, reachable stores as a step relation, the dispatch order. \<open>Bg_Laws\<close>, \<open>Bg_Store_Laws\<close>: the
    invariants; \<open>Bg_Properties\<close>: the index is the fold of the log, status moves, attestation, claims.
  \<^item> \<open>Inbox\<close>, \<open>Inbox_Laws\<close>, \<open>Inbox_Steps\<close>, \<open>Inbox_Properties\<close> (\<open>background/input_inbox.py\<close>): the durable input queue of a
    background session, the life of a message as an automaton, the operations as steps that append what fits.
  \<^item> \<open>Recurrence\<close>, \<open>Sched_Model\<close>, \<open>Sched_Store\<close>, \<open>Sched_Service\<close> (\<open>schedules/recurrence.py\<close>, \<open>model.py\<close>, \<open>store.py\<close>,
    \<open>scheduler.py\<close>, \<open>manager.py\<close>): cron and interval recurrences, the schedule record, its tables and the two
    services over them. \<open>Sched_Laws\<close>, \<open>Sched_Steps\<close>: the invariant of reachable tables; \<open>Sched_Properties\<close>.
  \<^item> \<open>Modes\<close>, \<open>Modes_Properties\<close> (\<open>tui/runtime/mode_manager.py\<close>, \<open>tools/capabilities.py\<close>, \<open>capability_gate.py\<close>): the registry of
    modes, the manager that chooses one, and the gate a tool call passes.
  \<^item> \<open>Approval\<close>, \<open>Approval_Properties\<close> (\<open>tools/approval.py\<close>): the approval service as steps of its coroutines, the
    grants it remembers, and the gate in front of the tools.
  \<^item> \<open>Workspace\<close>, \<open>Workspace_Properties\<close> (\<open>tools/workspace_access.py\<close>): the scope of a session, the paths a tool declares, the
    preflight of a call with its question, and the authorization of one access, against a file system, a mode and other
    tasks that change while the user is asked.
  \<^item> \<open>Permissions\<close> (\<open>security.py\<close>): patterns of tool names, the scope of an agent and its restriction, the scopes of a session and
    the rules of the global policy. \<open>Delegation\<close>, \<open>Delegation_Properties\<close> (\<open>subagents/policy.py\<close>, \<open>governance.py\<close>, the
    construction of a worker in \<open>pool.py\<close>): the policy a worker inherits, the tiers of the depths, and workers that spawn workers.
    \<open>Pool_Budget\<close> (\<open>subagents/budget.py\<close>): what a pool spent according to the ledger, and the limits of its budget.
  \<^item> \<open>Usage_Ledger\<close>, \<open>Usage_Laws\<close>, \<open>Usage_Properties\<close> (\<open>runners/usage_ledger.py\<close>): calls, completion, reconciliation and the
    projection the observers see.
  \<^item> \<open>Retry\<close>, \<open>Retry_Properties\<close> (\<open>runners/retry.py\<close>, the transport retry of \<open>runners/agent_turn.py\<close>): the classification of an
    error, the delay, and the loop.
  \<^item> \<open>Conversions\<close>: \<open>int\<close>, \<open>float\<close>, \<open>list\<close> of a JSON value, the fold of a fallible step and the update of a dictionary, for the
    readers of journals.
  \<^item> \<open>Broker\<close>, \<open>Broker_Laws\<close>, \<open>Broker_Restart\<close>, \<open>Broker_Properties\<close> (\<open>subagents/communication.py\<close>): mailboxes, acknowledgements,
    questions with their futures, and the broker rebuilt from the journal.
  \<^item> \<open>Journal\<close>, \<open>Journal_Memory\<close> (\<open>memory/journal.py\<close>, \<open>memory/journaled.py\<close>, \<open>memory/tool_history.py\<close>): the file of lines and
    its writes on a disk that may fail, the folds, the journaled memory and the repair of a tool history.
    \<open>Journal_Laws\<close>, \<open>Journal_Steps\<close>: what every operation keeps, and sessions as a step relation with restarts;
    \<open>Journal_Tears\<close>: unfinished records; \<open>Journal_Properties\<close>, \<open>Journal_Recovery\<close>.
  \<^item> \<open>Journal_Pools\<close>, \<open>Pool_Laws\<close>, \<open>Pool_Properties\<close>, \<open>Question_Properties\<close> (\<open>memory/journal.py\<close>, \<open>subagents/delivery.py\<close>): the
    records of subagent pools, the lifecycle they fold to, the recovery of pools a crash left open, and the notices
    the parent gets of finished pools and open questions.
  \<^item> \<open>Phases\<close>, \<open>Phase_Properties\<close> (\<open>workflows/phase_lifecycle.py\<close>, \<open>phase_transition.py\<close>, the phase and the checkpoints of
    \<open>runners/workflow_handle.py\<close>): the boundary between two phases, its marker, its checkpoint and its line in the
    journal, the transition an agent records, and the phase a restart resumes at.

  \<^bold>\<open>How the parts interact.\<close> The schedule service creates background sessions that the store records and the queue
  orders; the capability gate of \<open>Modes\<close> decides for the approval gate of \<open>Approval\<close>, whose answers the workspace boundary
  waits for; a worker gets a mode, a scope of tools and a workspace that are narrowed ones of its parent's; the usage ledger and the broker
  write through the journal, and so do the phase boundaries of a workflow, which a restart reads back; the readers of all of them share \<open>Prelude\<close> and \<open>Conversions\<close>.

  \<^bold>\<open>Conventions.\<close> Python integers are \<open>int\<close>, floats exact rationals with infinities and NaN (rounding is not
  modelled), strings lists of characters with code points below 256, JSON objects keep the order of their keys.
  Exceptions are values. A coroutine is a sequence of steps, one between two awaits. Clocks, random identifiers and
  digests are arguments. Third-party code (\<open>lauren_ai\<close>, the time zone data base, SQLite) is a parameter or, where it only
  stores, a map; what a theorem needs of it is a named hypothesis.

  \<^bold>\<open>Bounds and fuel.\<close> The search for the next cron occurrence runs over the same horizon as the code (eight years of
  days and the two days around a change of the clock). The retry loop recurses on the budget it has left, the poll of a
  mailbox on the mail in it, so both are total; every other loop is structural.

  \<^bold>\<open>Not modelled\<close>, and why: the SQL text and the locks of the stores, processes, sockets and terminals, the rendering of
  the terminal interface, provider clients, and wrappers of external tools are effects outside the program's own logic;
  workflow runners and prompts are mostly text (of workflows, the phase boundaries and the cursor are modelled). The manifest lists these parts one by one.
\<close>

end
